(* ===== verification/Flume_Prelude.thy ===== *)
theory Flume_Prelude
  imports Main "HOL-Library.Word"
begin

text \<open>
  Shared vocabulary of the Flume development.

  It fixes the machine types (fixed-width words for the \<open>uint8_t\<close> ... \<open>uint64_t\<close> of the
  sources, byte lists for buffers and \<open>std::string\<close> contents on the wire), the result type of
  fallible operations, the byte-extraction function out of which both the big-endian and the
  little-endian codecs are built, the slice and overwrite operations on byte arrays that stand for
  \<open>memcpy\<close>, and the two Fowler/Noll/Vo hash functions used as checksums.  The lemmas on these are
  collected in \<open>byte_simps\<close> (bits of extracted bytes) and \<open>slice_simps\<close> (lengths and contents of
  slices and overwrites).
\<close>

unbundle bit_operations_syntax

named_theorems byte_simps "bit-level facts on byte extraction and mask constants"
named_theorems slice_simps "lengths and contents of array slices"

type_synonym u8 = "8 word"
type_synonym u16 = "16 word"
type_synonym u32 = "32 word"
type_synonym u64 = "64 word"
type_synonym bytes = "8 word list"

text \<open>A fallible operation: \<open>Inl\<close> carries the error text or code, \<open>Inr\<close> the result.\<close>

type_synonym ('e, 'a) result = "'e + 'a"

text \<open>The status codes of the public interface (\<open>flume_status_t\<close> of \<open>include/flume/flume.h\<close>).\<close>

datatype flume_status = FLUME_OK | FLUME_ERR_INVALID_ARGUMENT | FLUME_ERR_IO | FLUME_ERR_TIMEOUT
  | FLUME_ERR_UNSUPPORTED | FLUME_ERR_BACKEND | FLUME_ERR_REMOTE | FLUME_ERR_PROTOCOL | FLUME_PENDING

fun status_code :: "flume_status \<Rightarrow> nat" where
  "status_code FLUME_OK = 0"
| "status_code FLUME_ERR_INVALID_ARGUMENT = 1"
| "status_code FLUME_ERR_IO = 2"
| "status_code FLUME_ERR_TIMEOUT = 3"
| "status_code FLUME_ERR_UNSUPPORTED = 4"
| "status_code FLUME_ERR_BACKEND = 5"
| "status_code FLUME_ERR_REMOTE = 6"
| "status_code FLUME_ERR_PROTOCOL = 7"
| "status_code FLUME_PENDING = 8"

text \<open>The code as it travels in an \<open>int\<close> or a \<open>uint32_t\<close>.\<close>

definition status_u32 :: "flume_status \<Rightarrow> u32" where
  "status_u32 s = of_nat (status_code s)"

definition cstr :: "string \<Rightarrow> bytes" where
  "cstr s = map of_char s"

text \<open>The decimal text that a stream inserts for an unsigned number, and a sequence of texts with a
  separator between them.\<close>

fun dec :: "nat \<Rightarrow> string" where
  "dec n = (if n < 10 then [char_of (48 + n)] else dec (n div 10) @ [char_of (48 + n mod 10)])"

declare dec.simps [simp del]

fun sep_concat :: "string \<Rightarrow> string list \<Rightarrow> string" where
  "sep_concat s [] = []"
| "sep_concat s [x] = x"
| "sep_concat s (x # y # ys) = x @ s @ sep_concat s (y # ys)"

section \<open>Bytes of a word\<close>

definition byte_at :: "nat \<Rightarrow> 'a::len word \<Rightarrow> u8" where
  "byte_at s v = ucast (drop_bit s v AND 0xff)"

text \<open>Shifting one byte into the low end of a word.\<close>

definition shift_in :: "'a::len word \<Rightarrow> u8 \<Rightarrow> 'a word" where
  "shift_in w b = push_bit 8 w OR ucast b"

section \<open>Slices and overwrites of byte arrays\<close>

definition bslice :: "nat \<Rightarrow> nat \<Rightarrow> 'a list \<Rightarrow> 'a list" where
  "bslice off n xs = take n (drop off xs)"

definition overwrite :: "nat \<Rightarrow> 'a list \<Rightarrow> 'a list \<Rightarrow> 'a list" where
  "overwrite off ys xs = take off xs @ ys @ drop (off + length ys) xs"

section \<open>Hashes\<close>

definition fnv32 :: "bytes \<Rightarrow> u32" where
  "fnv32 bs = fold (\<lambda>b h. (h XOR ucast b) * 16777619) bs 2166136261"

section \<open>Lemmas on words\<close>

lemma bit_0xff [byte_simps]: "bit (0xff :: 'a::len word) i \<longleftrightarrow> i < LENGTH('a) \<and> i < 8"
proof -
  have "bit (0xff :: 'a word) i = bit (mask 8 :: 'a word) i"
    by (simp add: mask_eq_exp_minus_1)
  also have "\<dots> \<longleftrightarrow> i < LENGTH('a) \<and> i < 8"
    by (simp only: bit_mask_iff possible_bit_word)
  finally show ?thesis .
qed

lemma bit_byte_at [byte_simps]:
  "bit (byte_at s (v :: 'a::len word)) i \<longleftrightarrow> i < 8 \<and> bit v (s + i)"
  unfolding byte_at_def
  by (simp only: bit_unsigned_iff bit_and_iff bit_drop_bit_eq bit_0xff o_apply)
    (auto dest: bit_imp_le_length)

lemma byte_at_self [simp]: "byte_at 0 (b :: u8) = b"
  by (rule bit_word_eqI) (simp add: byte_simps)

text \<open>One step of assembling a word from its bytes, most significant byte first.\<close>

lemma shift_in_byte_at: "shift_in (drop_bit (s + 8) v) (byte_at s v) = drop_bit s v"
  unfolding shift_in_def
proof (rule bit_word_eqI)
  fix n assume "n < LENGTH('a)"
  then show "bit (push_bit 8 (drop_bit (s + 8) v) OR ucast (byte_at s v)) n = bit (drop_bit s v) n"
    by (cases "n < 8") (auto simp: bit_simps byte_simps ac_simps)
qed

lemma byte_at_shift_in_0:
  "8 \<le> LENGTH('a) \<Longrightarrow> byte_at 0 (shift_in (w :: 'a::len word) b) = b"
  unfolding shift_in_def by (rule bit_word_eqI) (auto simp: bit_simps byte_simps)

lemma byte_at_shift_in_Suc:
  assumes "s + 16 \<le> LENGTH('a)"
  shows "byte_at (s + 8) (shift_in (w :: 'a::len word) b) = byte_at s w"
  unfolding shift_in_def
proof (rule bit_word_eqI)
  fix n assume "n < LENGTH(8)"
  moreover have "\<not> bit b (s + 8 + n)" by (auto dest: bit_imp_le_length)
  ultimately show "bit (byte_at (s + 8) (push_bit 8 w OR ucast b :: 'a word)) n = bit (byte_at s w) n"
    using assms by (auto simp: bit_simps byte_simps)
qed

lemma byte_at_shift_in [byte_simps]:
  "byte_at 0 (shift_in (a :: u16) b) = b" "byte_at 8 (shift_in a b) = byte_at 0 a"
  "byte_at 0 (shift_in (c :: u32) b) = b" "byte_at 8 (shift_in c b) = byte_at 0 c"
  "byte_at 16 (shift_in c b) = byte_at 8 c" "byte_at 24 (shift_in c b) = byte_at 16 c"
  "byte_at 0 (shift_in (d :: u64) b) = b" "byte_at 8 (shift_in d b) = byte_at 0 d"
  "byte_at 16 (shift_in d b) = byte_at 8 d" "byte_at 24 (shift_in d b) = byte_at 16 d"
  "byte_at 32 (shift_in d b) = byte_at 24 d" "byte_at 40 (shift_in d b) = byte_at 32 d"
  "byte_at 48 (shift_in d b) = byte_at 40 d" "byte_at 56 (shift_in d b) = byte_at 48 d"
  using byte_at_shift_in_Suc [of 0 a] byte_at_shift_in_Suc [of 0 c] byte_at_shift_in_Suc [of 8 c]
    byte_at_shift_in_Suc [of 16 c] byte_at_shift_in_Suc [of 0 d] byte_at_shift_in_Suc [of 8 d]
    byte_at_shift_in_Suc [of 16 d] byte_at_shift_in_Suc [of 24 d] byte_at_shift_in_Suc [of 32 d]
    byte_at_shift_in_Suc [of 40 d] byte_at_shift_in_Suc [of 48 d]
  by (simp_all add: byte_at_shift_in_0)

lemma widen_narrow_u16: "ucast (ucast (s :: u16) :: u32) = s"
  by (rule bit_word_eqI) (simp add: bit_simps)

lemma widen_u16_less: "unat (ucast (s :: u16) :: u32) < 2 ^ 16"
  using unsigned_less [of s, where 'a = nat] by (simp only: unsigned_ucast_eq take_bit_eq_mod) simp

lemma narrow_widen_u16:
  assumes "unat (s :: u32) < 2 ^ 16"
  shows "ucast (ucast s :: u16) = s"
proof (rule bit_word_eqI)
  fix n assume n: "n < LENGTH(32)"
  have "\<not> bit s n" if "16 \<le> n"
  proof -
    have "unat s < 2 ^ n" using assms that by (meson less_le_trans one_le_numeral power_increasing)
    then have "\<not> bit (unat s) n" by (simp add: bit_iff_odd)
    then show ?thesis by (simp add: bit_simps)
  qed
  with n show "bit (ucast (ucast s :: u16) :: u32) n = bit s n"
    by (cases "16 \<le> n") (auto simp: bit_simps)
qed

lemma word_less_succ:
  fixes n :: "'a::len word"
  assumes "n \<noteq> - 1"
  shows "n < n + 1"
proof -
  have "1 + n \<noteq> 0" using assms by (metis add.commute eq_neg_iff_add_eq_0)
  then have "unat (1 + n) = Suc (unat n)" by (rule unatSuc)
  then show ?thesis by (simp add: word_less_nat_alt add.commute)
qed

section \<open>Lemmas on slices\<close>

lemma length_bslice [slice_simps, simp]: "length (bslice off n xs) = min n (length xs - off)"
  by (simp add: bslice_def)

lemma length_bslice_le: "length (bslice off n xs) \<le> n"
  by (simp add: bslice_def)

lemma bslice_whole [slice_simps]: "bslice 0 (length xs) xs = xs"
  by (simp add: bslice_def)

lemma bslice_0 [simp]: "bslice off 0 xs = []"
  by (simp add: bslice_def)

lemma bslice_append: "bslice off (a + b) xs = bslice off a xs @ bslice (off + a) b xs"
  by (simp add: bslice_def take_add add.commute)

lemma bslice_take: "m \<le> n \<Longrightarrow> take m (bslice off n xs) = bslice off m xs"
  by (simp add: bslice_def min_absorb1)

lemma bslice_short: "bslice off n xs = bslice off (min n (length xs - off)) xs"
  by (simp add: bslice_def min_def)

lemma length_overwrite [slice_simps, simp]:
  "off + length ys \<le> length xs \<Longrightarrow> length (overwrite off ys xs) = length xs"
  by (simp add: overwrite_def)

lemma bslice_overwrite_same [slice_simps, simp]:
  "off + length ys \<le> length xs \<Longrightarrow> bslice off (length ys) (overwrite off ys xs) = ys"
  by (simp add: overwrite_def bslice_def)

lemma nth_overwrite:
  assumes "off + length ys \<le> length xs" "i < length xs"
  shows "overwrite off ys xs ! i =
    (if off \<le> i \<and> i < off + length ys then ys ! (i - off) else xs ! i)"
  using assms by (auto simp: overwrite_def nth_append min_def)

lemma overwrite_frame:
  assumes "off + length ys \<le> length xs" "a + n \<le> length xs" "a + n \<le> off \<or> off + length ys \<le> a"
  shows "bslice a n (overwrite off ys xs) = bslice a n xs"
  using assms
  by (intro nth_equalityI) (auto simp: bslice_def nth_overwrite)

lemma overwrite_id:
  assumes "off + n \<le> length xs"
  shows "overwrite off (bslice off n xs) xs = xs"
proof -
  have "take n (drop off xs) @ drop (off + n) xs = drop off xs"
    using append_take_drop_id [of n "drop off xs"] by (simp add: add.commute)
  moreover have "min n (length xs - off) = n" using assms by simp
  ultimately show ?thesis by (simp add: overwrite_def bslice_def)
qed

lemma overwrite_Nil [simp]: "overwrite off [] xs = xs"
  by (simp add: overwrite_def)

text \<open>Cutting a byte list into consecutive fields of given sizes and joining them again.\<close>

fun fields :: "nat list \<Rightarrow> 'a list \<Rightarrow> 'a list" where
  "fields [] d = []"
| "fields (n # ns) d = take n d @ fields ns (drop n d)"

lemma fields_whole: "length d = sum_list ns \<Longrightarrow> fields ns d = d"
  by (induction ns d rule: fields.induct) simp_all

lemma length_cstr [simp]: "length (cstr s) = length s"
  by (simp add: cstr_def)

lemma unat_narrow_u32:
  assumes "unat (w :: u64) < 2 ^ 32"
  shows "unat (ucast w :: u32) = unat w"
  using assms by (simp add: unsigned_ucast_eq take_bit_nat_eq_self)

section \<open>Lemmas on hashes\<close>

lemma fnv32_Nil: "fnv32 [] = 2166136261"
  by (simp add: fnv32_def)

lemma fnv32_snoc: "fnv32 (bs @ [b]) = (fnv32 bs XOR ucast b) * 16777619"
  by (simp add: fnv32_def)

text \<open>The multiplier is odd, so one hash step is injective in the previous hash.\<close>

lemma fnv32_prime_unit: "(16777619 :: u32) * 899433627 = 1"
  by simp

lemma fnv32_step_inj:
  assumes "(h XOR c) * 16777619 = (h' XOR c') * (16777619 :: u32)"
  shows "h XOR c = h' XOR c'"
proof -
  have "(h XOR c) * (16777619 * 899433627) = (h' XOR c') * (16777619 * (899433627 :: u32))"
    unfolding mult.assoc [symmetric] assms ..
  then show ?thesis by (simp only: fnv32_prime_unit mult_1_right)
qed

end
