(* ===== verification/Posix_Socket.thy ===== *)
theory Posix_Socket
  imports Flume_Prelude
begin

text \<open>
  The stream sockets that both control protocols of Flume run over.

  The kernel's side of a connection is a script: the list of what successive \<open>recv\<close> calls meet (a
  segment of the peer's bytes, an interrupted call, a failure; the end of the list is the peer's
  orderly shutdown) and of what successive \<open>send\<close> calls meet (a bound on the bytes accepted, an
  interrupted call, a failure; at the end of the list every byte is accepted).  The programs above
  see only \<open>recv\<close> and \<open>send\<close>, so a property proved for every script holds for every segmentation
  of the stream and every pattern of short and interrupted calls.  Every script is finite: a peer
  that stays connected and silent for ever is not represented.  On a socket with a receive timeout
  (those of the client library and of the Host-RA session) such a peer shows as a failure; on one
  without (the agent's and the storage server's) the real \<open>recv\<close> blocks, so that what is proved there
  about returning holds for peers whose stream ends.

  The locales \<open>stream_reader\<close> and \<open>stream_writer\<close> state what a read-exactly and a write-exactly
  loop promise.  The two read loops and the two write loops of the program (the framed protocol's
  and the RoCE control channel's) are interpretations of them in the theories of those components.
\<close>

datatype errno = EINTR | Errno string

datatype rx_event = Rx bytes | RxIntr | RxFail string
datatype tx_event = TxAccept nat | TxIntr | TxFail string

record conn =
  c_rx :: "rx_event list"
  c_tx :: "tx_event list"
  c_sent :: bytes

section \<open>The system calls\<close>

text \<open>\<open>recv(fd, buf, n, 0)\<close>: the bytes delivered (none when the peer has shut down) or an errno.\<close>

fun recv :: "rx_event list \<Rightarrow> nat \<Rightarrow> (errno + bytes) \<times> rx_event list" where
  "recv [] n = (Inr [], [])"
| "recv (Rx c # es) n =
    (if c = [] then recv es n
     else if length c \<le> n then (Inr c, es)
     else (Inr (take n c), Rx (drop n c) # es))"
| "recv (RxIntr # es) n = (Inl EINTR, es)"
| "recv (RxFail e # es) n = (Inl (Errno e), es)"

text \<open>\<open>send(fd, buf, n, 0)\<close>: the number of bytes accepted or an errno.\<close>

fun send :: "conn \<Rightarrow> bytes \<Rightarrow> (errno + nat) \<times> conn" where
  "send c data = (case c_tx c of
     [] \<Rightarrow> (Inr (length data), c\<lparr>c_sent := c_sent c @ data\<rparr>)
   | TxAccept k # es \<Rightarrow>
       (Inr (min k (length data)),
        c\<lparr>c_tx := es, c_sent := c_sent c @ take k data\<rparr>)
   | TxIntr # es \<Rightarrow> (Inl EINTR, c\<lparr>c_tx := es\<rparr>)
   | TxFail e # es \<Rightarrow> (Inl (Errno e), c\<lparr>c_tx := es\<rparr>))"

section \<open>What a script delivers\<close>

text \<open>The bytes that can be received before the first failure or the shutdown, and whether a script
  fails or refuses at all.\<close>

fun rx_stream :: "rx_event list \<Rightarrow> bytes" where
  "rx_stream [] = []"
| "rx_stream (Rx c # es) = c @ rx_stream es"
| "rx_stream (RxIntr # es) = rx_stream es"
| "rx_stream (RxFail e # es) = []"

fun rx_clean :: "rx_event list \<Rightarrow> bool" where
  "rx_clean [] = True"
| "rx_clean (RxFail e # es) = False"
| "rx_clean (_ # es) = rx_clean es"

fun tx_good :: "tx_event \<Rightarrow> bool" where
  "tx_good (TxAccept k) = (0 < k)"
| "tx_good TxIntr = True"
| "tx_good (TxFail e) = False"

definition tx_clean :: "conn \<Rightarrow> bool" where
  "tx_clean c = list_all tx_good (c_tx c)"

section \<open>Lemmas on the system calls\<close>

lemma recv_length:
  "recv es n = (Inr d, es') \<Longrightarrow> length d \<le> n"
  by (induction es n rule: recv.induct) (auto split: if_splits)

lemma recv_length_script:
  "recv es n = (r, es') \<Longrightarrow> length es' \<le> length es"
  by (induction es n rule: recv.induct) (auto split: if_splits)

lemma recv_progress_eintr:
  "recv es n = (Inl e, es') \<Longrightarrow> length es' < length es"
  by (induction es n rule: recv.induct) (auto split: if_splits)

lemma recv_stream:
  "recv es n = (Inr d, es') \<Longrightarrow> rx_stream es = d @ rx_stream es'"
  by (induction es n rule: recv.induct) (auto split: if_splits)

lemma recv_eintr_stream:
  "recv es n = (Inl EINTR, es') \<Longrightarrow> rx_stream es' = rx_stream es"
  by (induction es n rule: recv.induct) (auto split: if_splits)

lemma recv_clean:
  "recv es n = (r, es') \<Longrightarrow> rx_clean es \<Longrightarrow> rx_clean es'"
  by (induction es n rule: recv.induct) (auto split: if_splits)

lemma recv_errno_unclean:
  "recv es n = (Inl (Errno e), es') \<Longrightarrow> \<not> rx_clean es \<and> rx_stream es = []"
  by (induction es n rule: recv.induct) (auto split: if_splits)

lemma recv_zero_iff:
  "recv es n = (Inr [], es') \<Longrightarrow> 0 < n \<Longrightarrow> rx_stream es = [] \<and> rx_clean es \<and> rx_clean es'"
  by (induction es n rule: recv.induct) (auto split: if_splits)

lemmas recv_facts = recv_length recv_stream recv_eintr_stream recv_clean

section \<open>Interfaces of the exact read and write loops\<close>

text \<open>
  A reader takes a script and a byte count and returns the bytes or an error together with the
  rest of the script.  It promises: all the bytes when the stream holds them, never anything but
  a prefix of the stream, and an error when the stream ends early.
\<close>

locale stream_reader =
  fixes read_all :: "rx_event list \<Rightarrow> nat \<Rightarrow> ('e + bytes) \<times> rx_event list"
  assumes enough: "n \<le> length (rx_stream es) \<Longrightarrow>
      \<exists>es'. read_all es n = (Inr (take n (rx_stream es)), es') \<and>
            rx_stream es' = drop n (rx_stream es) \<and> (rx_clean es \<longrightarrow> rx_clean es')"
    and short: "length (rx_stream es) < n \<Longrightarrow> \<exists>e es'. read_all es n = (Inl e, es')"
begin

lemma read_exact:
  assumes "rx_stream es = a @ rest" "length a = n"
  obtains es' where "read_all es n = (Inr a, es')" "rx_stream es' = rest"
    "rx_clean es \<Longrightarrow> rx_clean es'"
  using enough [of n es] assms by auto

lemma read_ok_iff:
  "(\<exists>d es'. read_all es n = (Inr d, es')) \<longleftrightarrow> n \<le> length (rx_stream es)"
proof
  assume "\<exists>d es'. read_all es n = (Inr d, es')"
  then show "n \<le> length (rx_stream es)"
    using short [of es n] by (cases "length (rx_stream es) < n") auto
qed (use enough [of n es] in blast)

lemma read_result:
  assumes "read_all es n = (Inr d, es')"
  shows "d = take n (rx_stream es) \<and> rx_stream es' = drop n (rx_stream es) \<and> length d = n"
proof -
  have "n \<le> length (rx_stream es)" using assms read_ok_iff by blast
  with enough [of n es] assms show ?thesis by auto
qed

lemma read_two:
  assumes "read_all es m = (Inr a, es1)" "read_all es1 n = (Inr b, es2)"
  shows "a @ b = take (m + n) (rx_stream es) \<and> rx_stream es2 = drop (m + n) (rx_stream es)"
proof
  show "a @ b = take (m + n) (rx_stream es)"
    using read_result [OF assms(1)] read_result [OF assms(2)] by (simp add: take_add)
  show "rx_stream es2 = drop (m + n) (rx_stream es)"
    using read_result [OF assms(1)] read_result [OF assms(2)] by (simp add: add.commute)
qed

lemma read_all_clean:
  "read_all es n = (Inr d, es') \<Longrightarrow> rx_clean es \<Longrightarrow> rx_clean es'"
  using read_ok_iff [of es n] enough [of n es] by auto

end

text \<open>
  A writer returns no error or the error text, with the connection afterwards.  It promises that a
  socket that never fails takes everything, that success means everything was taken, and that what
  was taken is always a prefix of the data appended to what had been sent.
\<close>

locale stream_writer =
  fixes write_all :: "conn \<Rightarrow> bytes \<Rightarrow> 'e option \<times> conn"
  assumes clean: "tx_clean c \<Longrightarrow> \<exists>c'. write_all c data = (None, c') \<and> tx_clean c'"
    and frame: "write_all c data = (r, c') \<Longrightarrow> c_rx c' = c_rx c"
    and success: "write_all c data = (None, c') \<Longrightarrow> c_sent c' = c_sent c @ data"
    and prefix: "write_all c data = (r, c') \<Longrightarrow> \<exists>k. c_sent c' = c_sent c @ take k data"
begin

lemma write_clean:
  assumes "tx_clean c"
  obtains c' where "write_all c data = (None, c')" "tx_clean c'"
    "c_sent c' = c_sent c @ data" "c_rx c' = c_rx c"
  using clean [OF assms] success frame by blast

lemma write_two:
  assumes "write_all c a = (None, c1)" "write_all c1 b = (None, c2)"
  shows "c_sent c2 = c_sent c @ a @ b"
  using success [OF assms(1)] success [OF assms(2)] by simp

end

section \<open>Interfaces of the loop bodies\<close>

text \<open>
  What one iteration of a write loop around \<open>send\<close> does: retry on interruption, stop on a failure or
  on zero bytes, go on with the rest otherwise.  The parameter \<open>'k\<close> is whatever else the loop carries.
  Every such loop is a stream writer.
\<close>

lemma send_cases:
  assumes "send c data = (r, c')"
  shows "c_rx c' = c_rx c \<and>
    (case r of Inl _ \<Rightarrow> c_sent c' = c_sent c
     | Inr n \<Rightarrow> n \<le> length data \<and> c_sent c' = c_sent c @ take n data)"
  using assms by (auto split: list.splits tx_event.splits simp: min_def)

lemma send_clean:
  assumes "tx_clean c" "send c data = (r, c')" "data \<noteq> []"
  shows "tx_clean c' \<and> (case r of Inl e \<Rightarrow> e = EINTR | Inr n \<Rightarrow> 0 < n)"
  using assms by (auto simp: tx_clean_def split: list.splits tx_event.splits)

lemma send_progress:
  assumes "send c data = (r, c')"
  shows "case r of Inl _ \<Rightarrow> length (c_tx c') < length (c_tx c) | Inr _ \<Rightarrow> length (c_tx c') \<le> length (c_tx c)"
  using assms by (auto split: list.splits tx_event.splits)

locale send_loop =
  fixes write_all :: "'k \<Rightarrow> conn \<Rightarrow> bytes \<Rightarrow> 'e option \<times> conn"
  assumes on_done: "write_all k c [] = (None, c)"
    and on_eintr: "data \<noteq> [] \<Longrightarrow> send c data = (Inl EINTR, c') \<Longrightarrow>
        \<exists>k'. write_all k c data = write_all k' c' data"
    and on_error: "data \<noteq> [] \<Longrightarrow> send c data = (Inl (Errno t), c') \<Longrightarrow>
        \<exists>e. write_all k c data = (Some e, c')"
    and on_zero: "data \<noteq> [] \<Longrightarrow> send c data = (Inr 0, c') \<Longrightarrow> \<exists>e. write_all k c data = (Some e, c')"
    and on_some: "data \<noteq> [] \<Longrightarrow> send c data = (Inr n, c') \<Longrightarrow> n \<noteq> 0 \<Longrightarrow>
        \<exists>k'. write_all k c data = write_all k' c' (drop n data)"
begin

lemma effect:
  "write_all k c data = (r, c') \<Longrightarrow>
   c_rx c' = c_rx c \<and>
   (\<exists>m. c_sent c' = c_sent c @ take m data \<and> (r = None \<longrightarrow> length data \<le> m))"
proof (induction "length (c_tx c) + length data" arbitrary: k c data rule: less_induct)
  case less
  show ?case
  proof (cases "data = []")
    case True
    with less.prems on_done show ?thesis by auto
  next
    case False
    obtain s c1 where sc: "send c data = (s, c1)" by fastforce
    note eff = send_cases [OF sc] and pr = send_progress [OF sc]
    consider (eintr) "s = Inl EINTR" | (error) t where "s = Inl (Errno t)" | (zero) "s = Inr 0"
      | (some) n where "s = Inr n" "n \<noteq> 0"
      by (metis errno.exhaust sum.exhaust)
    then show ?thesis
    proof cases
      case eintr
      then obtain k' where "write_all k' c1 data = (r, c')"
        using on_eintr [OF False] sc less.prems by metis
      from less.hyps [OF _ this] pr eff eintr show ?thesis by simp
    next
      case error
      then obtain e where "write_all k c data = (Some e, c1)" using on_error [OF False] sc by metis
      with less.prems eff error show ?thesis by (auto intro: exI [of _ 0])
    next
      case zero
      then obtain e where "write_all k c data = (Some e, c1)" using on_zero [OF False] sc by metis
      with less.prems eff zero show ?thesis by (auto intro: exI [of _ 0])
    next
      case some
      then obtain k' where w: "write_all k' c1 (drop n data) = (r, c')"
        using on_some [OF False] sc less.prems by metis
      have "length (c_tx c1) + length (drop n data) < length (c_tx c) + length data"
        using pr eff some False by auto
      from less.hyps [OF this w] obtain m where m: "c_rx c' = c_rx c1"
        "c_sent c' = c_sent c1 @ take m (drop n data)" "r = None \<longrightarrow> length (drop n data) \<le> m"
        by blast
      have "c_sent c' = c_sent c @ take (n + m) data" using m eff some by (simp add: take_add)
      moreover have "r = None \<longrightarrow> length data \<le> n + m" using m by auto
      ultimately show ?thesis using m eff by auto
    qed
  qed
qed

lemma accepts:
  "tx_clean c \<Longrightarrow> \<exists>c'. write_all k c data = (None, c') \<and> tx_clean c'"
proof (induction "length (c_tx c) + length data" arbitrary: k c data rule: less_induct)
  case less
  show ?case
  proof (cases "data = []")
    case False
    obtain s c1 where sc: "send c data = (s, c1)" by fastforce
    note cl = send_clean [OF less.prems sc False] and pr = send_progress [OF sc]
      and eff = send_cases [OF sc]
    show ?thesis
    proof (cases s)
      case (Inl e)
      then obtain k' where "write_all k c data = write_all k' c1 data"
        using cl on_eintr [OF False] sc by fastforce
      with less.hyps [of c1 data k'] cl pr Inl show ?thesis by simp
    next
      case (Inr n)
      then obtain k' where "write_all k c data = write_all k' c1 (drop n data)"
        using cl on_some [OF False] sc by fastforce
      moreover have "length (c_tx c1) + length (drop n data) < length (c_tx c) + length data"
        using pr cl eff Inr False by auto
      ultimately show ?thesis using less.hyps [of c1 "drop n data" k'] cl by simp
    qed
  qed (use less.prems on_done in auto)
qed

lemma is_stream_writer: "stream_writer (write_all k)"
proof
  show "c_sent c' = c_sent c @ data" if "write_all k c data = (None, c')" for c data c'
    using effect [OF that] by auto
qed (use accepts effect in blast)+

end

text \<open>The same for a read loop around \<open>recv\<close>; every such loop is a stream reader.\<close>

locale recv_loop =
  fixes read_all :: "'k \<Rightarrow> rx_event list \<Rightarrow> nat \<Rightarrow> ('e + bytes) \<times> rx_event list"
  assumes on_done: "read_all k es 0 = (Inr [], es)"
    and on_eintr: "n \<noteq> 0 \<Longrightarrow> recv es n = (Inl EINTR, es') \<Longrightarrow> read_all k es n = read_all k es' n"
    and on_error: "n \<noteq> 0 \<Longrightarrow> recv es n = (Inl (Errno t), es') \<Longrightarrow> \<exists>e. read_all k es n = (Inl e, es')"
    and on_closed: "n \<noteq> 0 \<Longrightarrow> recv es n = (Inr [], es') \<Longrightarrow> \<exists>e. read_all k es n = (Inl e, es')"
    and on_some: "n \<noteq> 0 \<Longrightarrow> recv es n = (Inr d, es') \<Longrightarrow> d \<noteq> [] \<Longrightarrow>
        \<exists>k'. read_all k es n = apfst (map_sum id ((@) d)) (read_all k' es' (n - length d))"
begin

lemma delivers:
  "n \<le> length (rx_stream es) \<Longrightarrow>
   \<exists>es'. read_all k es n = (Inr (take n (rx_stream es)), es') \<and>
         rx_stream es' = drop n (rx_stream es) \<and> (rx_clean es \<longrightarrow> rx_clean es')"
proof (induction "length es + n" arbitrary: k es n rule: less_induct)
  case less
  show ?case
  proof (cases "n = 0")
    case False
    obtain r es1 where rc: "recv es n = (r, es1)" by fastforce
    show ?thesis
    proof (cases r)
      case (Inl e)
      have e: "e = EINTR"
        using rc Inl less.prems False by (cases e) (auto dest: recv_errno_unclean)
      then have st: "rx_stream es1 = rx_stream es" "rx_clean es \<longrightarrow> rx_clean es1"
        using rc Inl recv_clean [OF rc] by (auto dest: recv_eintr_stream)
      have "length es1 + n < length es + n" using recv_progress_eintr rc Inl by fastforce
      from less.hyps [OF this, of k] st less.prems on_eintr [OF False] rc Inl e
      show ?thesis by auto
    next
      case (Inr d)
      with rc have st: "rx_stream es = d @ rx_stream es1" and ln: "length d \<le> n"
        by (auto dest: recv_stream recv_length)
      have ne: "d \<noteq> []" using rc Inr less.prems False recv_zero_iff by fastforce
      obtain k' where k': "read_all k es n =
          apfst (map_sum id ((@) d)) (read_all k' es1 (n - length d))"
        using on_some [OF False _ ne] rc Inr by blast
      have "length es1 + (n - length d) < length es + n"
        using recv_length_script [OF rc] ne False by (cases d) auto
      from less.hyps [OF this, of k'] less.prems st obtain es2 where
        "read_all k' es1 (n - length d) = (Inr (take (n - length d) (rx_stream es1)), es2)"
        "rx_stream es2 = drop (n - length d) (rx_stream es1)" "rx_clean es1 \<longrightarrow> rx_clean es2"
        by fastforce
      then show ?thesis using k' st ln recv_clean [OF rc] by auto
    qed
  qed (use on_done in auto)
qed

lemma refuses: "length (rx_stream es) < n \<Longrightarrow> \<exists>e es'. read_all k es n = (Inl e, es')"
proof (induction "length es + n" arbitrary: k es n rule: less_induct)
  case less
  then have n: "n \<noteq> 0" by simp
  obtain r es1 where rc: "recv es n = (r, es1)" by fastforce
  consider (eintr) "r = Inl EINTR" | (error) t where "r = Inl (Errno t)" | (closed) "r = Inr []"
    | (some) d where "r = Inr d" "d \<noteq> []"
    by (metis errno.exhaust sum.exhaust)
  then show ?case
  proof cases
    case eintr
    have "length es1 + n < length es + n" using recv_progress_eintr rc eintr by fastforce
    from less.hyps [OF this, of k] less.prems on_eintr [OF n] rc eintr recv_eintr_stream
    show ?thesis by fastforce
  next
    case error
    then show ?thesis using on_error [OF n] rc by blast
  next
    case closed
    then show ?thesis using on_closed [OF n] rc by blast
  next
    case some
    with rc have st: "rx_stream es = d @ rx_stream es1" by (auto dest: recv_stream)
    obtain k' where k': "read_all k es n =
        apfst (map_sum id ((@) d)) (read_all k' es1 (n - length d))"
      using on_some [OF n _ some(2)] rc some by blast
    have "length es1 + (n - length d) < length es + n"
      using recv_length_script [OF rc] some n by (cases d) auto
    from less.hyps [OF this, of k'] less.prems st obtain e es2 where
      "read_all k' es1 (n - length d) = (Inl e, es2)" by fastforce
    then show ?thesis using k' by auto
  qed
qed

lemma is_stream_reader: "stream_reader (read_all k)"
  by unfold_locales (fact delivers refuses)+

end

end
