(* ===== verification/Framing.thy ===== *)
theory Framing
  imports Posix_Socket
begin

text \<open>
  The framed request/response protocol between the Flume client and the storage agent
  (\<open>src/protocol/framing.h\<close>, \<open>framing.cc\<close>).

  First the exact read and write loops over a socket, then the big-endian integer codecs, the frame
  writer and reader, the bounds-checked body \<open>Reader\<close> and the body checksum.  Failing operations
  return the text the C++ stores through its \<open>error\<close> argument.  A \<open>Frame\<close> keeps its type as the raw
  16-bit value: the C++ casts any value to the enumeration.  Every caller passes the address of a
  local \<open>Frame\<close> and of a local \<open>std::string\<close>, so the null-pointer branches are not represented.
\<close>

section \<open>Constants and data\<close>

definition kMagic :: u32 where "kMagic = 0x464C554D"
definition kVersion :: u16 where "kVersion = 1"
definition kMaxBodySize :: nat where "kMaxBodySize = 128 * 1024 * 1024"
definition kHeaderSize :: nat where "kHeaderSize = 28"

definition kHello :: u16 where "kHello = 1"
definition kHelloAck :: u16 where "kHelloAck = 2"
definition kOpenReq :: u16 where "kOpenReq = 3"
definition kOpenResp :: u16 where "kOpenResp = 4"
definition kReadReq :: u16 where "kReadReq = 5"
definition kReadResp :: u16 where "kReadResp = 6"
definition kCloseReq :: u16 where "kCloseReq = 7"
definition kCloseResp :: u16 where "kCloseResp = 8"
definition kError :: u16 where "kError = 9"

lemmas frame_type_defs = kHello_def kHelloAck_def kOpenReq_def kOpenResp_def kReadReq_def
  kReadResp_def kCloseReq_def kCloseResp_def kError_def

record Frame =
  f_type :: u16
  request_id :: u64
  body :: bytes

section \<open>Exact socket transfers\<close>

function WriteAll :: "conn \<Rightarrow> bytes \<Rightarrow> string option \<times> conn" where
  "WriteAll c data =
    (if data = [] then (None, c)
     else case send c data of
       (Inl EINTR, c') \<Rightarrow> WriteAll c' data
     | (Inl (Errno e), c') \<Rightarrow> (Some (''send failed: '' @ e), c')
     | (Inr n, c') \<Rightarrow>
         if n = 0 then (Some ''send returned 0'', c') else WriteAll c' (drop n data))"
  by pat_completeness auto
termination
  by (relation "measure (\<lambda>(c, data). length (c_tx c) + length data)")
    (auto split: list.splits tx_event.splits)

function ReadAll :: "rx_event list \<Rightarrow> nat \<Rightarrow> (string + bytes) \<times> rx_event list" where
  "ReadAll es n =
    (if n = 0 then (Inr [], es)
     else case recv es n of
       (Inl EINTR, es') \<Rightarrow> ReadAll es' n
     | (Inl (Errno e), es') \<Rightarrow> (Inl (''recv failed: '' @ e), es')
     | (Inr d, es') \<Rightarrow>
         if d = [] then (Inl ''peer closed connection'', es')
         else (case ReadAll es' (n - length d) of
             (Inl e, es'') \<Rightarrow> (Inl e, es'')
           | (Inr r, es'') \<Rightarrow> (Inr (d @ r), es'')))"
  by pat_completeness auto
termination
proof (relation "measure (\<lambda>(es, n). length es + n)", goal_cases)
  case (2 es n x es' e)
  then show ?case using recv_progress_eintr by (metis in_measure prod.case nat_add_left_cancel_less
    add.commute)
next
  case (3 es n x es' d)
  then have "length es' \<le> length es" "d \<noteq> []" using recv_length_script by metis+
  then show ?case using 3 by (cases d) auto
qed simp

declare WriteAll.simps [simp del] ReadAll.simps [simp del]

section \<open>Big-endian integers\<close>

definition LoadU16 :: "bytes \<Rightarrow> u16" where
  "LoadU16 d = push_bit 8 (ucast (d ! 0)) OR ucast (d ! 1)"

definition LoadU32 :: "bytes \<Rightarrow> u32" where
  "LoadU32 d = push_bit 24 (ucast (d ! 0)) OR push_bit 16 (ucast (d ! 1)) OR
     push_bit 8 (ucast (d ! 2)) OR ucast (d ! 3)"

definition LoadU64 :: "bytes \<Rightarrow> u64" where
  "LoadU64 d = fold (\<lambda>i v. push_bit 8 v OR ucast (d ! i)) [0..<8] 0"

definition AppendU16 :: "bytes \<Rightarrow> u16 \<Rightarrow> bytes" where
  "AppendU16 out v = out @ [byte_at 8 v, byte_at 0 v]"

definition AppendU32 :: "bytes \<Rightarrow> u32 \<Rightarrow> bytes" where
  "AppendU32 out v = out @ [byte_at 24 v, byte_at 16 v, byte_at 8 v, byte_at 0 v]"

definition AppendU64 :: "bytes \<Rightarrow> u64 \<Rightarrow> bytes" where
  "AppendU64 out v = fold (\<lambda>s acc. acc @ [byte_at s v]) [56, 48, 40, 32, 24, 16, 8, 0] out"

definition AppendBytes :: "bytes \<Rightarrow> bytes \<Rightarrow> bytes" where
  "AppendBytes out data = (if data = [] then out else out @ data)"

definition AppendString :: "bytes \<Rightarrow> bytes \<Rightarrow> bytes" where
  "AppendString out v = AppendBytes (AppendU32 out (of_nat (length v))) v"

section \<open>Frames\<close>

definition frame_header :: "Frame \<Rightarrow> bytes" where
  "frame_header f =
    (let h = AppendU32 [] kMagic;
         h = AppendU16 h kVersion;
         h = AppendU16 h (f_type f);
         h = AppendU16 h 0;
         h = AppendU16 h 0;
         h = AppendU64 h (request_id f);
         h = AppendU32 h (of_nat (length (body f)))
     in AppendU32 h 0)"

definition WriteFrame :: "conn \<Rightarrow> Frame \<Rightarrow> string option \<times> conn" where
  "WriteFrame c f =
    (if kMaxBodySize < length (body f) then (Some ''frame body is too large'', c)
     else case WriteAll c (frame_header f) of
       (Some e, c') \<Rightarrow> (Some e, c')
     | (None, c') \<Rightarrow>
         if body f = [] then (None, c') else WriteAll c' (body f))"

definition ReadFrame :: "rx_event list \<Rightarrow> (string + Frame) \<times> rx_event list" where
  "ReadFrame es =
    (case ReadAll es kHeaderSize of
       (Inl e, es') \<Rightarrow> (Inl e, es')
     | (Inr header, es') \<Rightarrow>
         if LoadU32 header \<noteq> kMagic then (Inl ''invalid frame magic'', es')
         else if LoadU16 (drop 4 header) \<noteq> kVersion then (Inl ''unsupported frame version'', es')
         else
           let body_len = unat (LoadU32 (drop 20 header)) in
           if kMaxBodySize < body_len then (Inl ''frame body exceeds maximum size'', es')
           else
             let f = \<lparr>f_type = LoadU16 (drop 6 header), request_id = LoadU64 (drop 12 header),
                      body = replicate body_len 0\<rparr> in
             if body_len = 0 then (Inr f, es')
             else (case ReadAll es' body_len of
                 (Inl e, es'') \<Rightarrow> (Inl e, es'')
               | (Inr b, es'') \<Rightarrow> (Inr (f\<lparr>body := b\<rparr>), es'')))"

section \<open>The body reader\<close>

record Reader =
  r_data :: bytes
  r_offset :: nat

definition reader :: "bytes \<Rightarrow> Reader" where
  "reader data = \<lparr>r_data = data, r_offset = 0\<rparr>"

text \<open>Each read returns \<open>None\<close> (the C++ \<open>false\<close>) or the value, and the reader afterwards.\<close>

definition ReadRaw :: "Reader \<Rightarrow> nat \<Rightarrow> bytes option \<times> Reader" where
  "ReadRaw r n =
    (if length (r_data r) - r_offset r < n then (None, r)
     else (Some (bslice (r_offset r) n (r_data r)), r\<lparr>r_offset := r_offset r + n\<rparr>))"

definition ReadU16 :: "Reader \<Rightarrow> u16 option \<times> Reader" where
  "ReadU16 r = (case ReadRaw r 2 of (None, r') \<Rightarrow> (None, r') | (Some d, r') \<Rightarrow> (Some (LoadU16 d), r'))"

definition ReadU32 :: "Reader \<Rightarrow> u32 option \<times> Reader" where
  "ReadU32 r = (case ReadRaw r 4 of (None, r') \<Rightarrow> (None, r') | (Some d, r') \<Rightarrow> (Some (LoadU32 d), r'))"

definition ReadU64 :: "Reader \<Rightarrow> u64 option \<times> Reader" where
  "ReadU64 r = (case ReadRaw r 8 of (None, r') \<Rightarrow> (None, r') | (Some d, r') \<Rightarrow> (Some (LoadU64 d), r'))"

definition ReadString :: "Reader \<Rightarrow> bytes option \<times> Reader" where
  "ReadString r =
    (case ReadU32 r of
       (None, r') \<Rightarrow> (None, r')
     | (Some sz, r') \<Rightarrow> ReadRaw r' (unat sz))"

definition ReadBytes :: "Reader \<Rightarrow> nat \<Rightarrow> bytes option \<times> Reader" where
  "ReadBytes r n = ReadRaw r n"

definition Done :: "Reader \<Rightarrow> bool" where
  "Done r \<longleftrightarrow> r_offset r = length (r_data r)"

definition Checksum32 :: "bytes \<Rightarrow> u32" where
  "Checksum32 data = fnv32 data"

section \<open>The loops meet the stream interfaces\<close>

lemma ReadAll_0 [simp]: "ReadAll es 0 = (Inr [], es)"
  by (simp add: ReadAll.simps)

lemma ReadAll_step:
  assumes "n \<noteq> 0" "recv es n = (r, es')"
  shows "ReadAll es n = (case r of
      Inl EINTR \<Rightarrow> ReadAll es' n
    | Inl (Errno e) \<Rightarrow> (Inl (''recv failed: '' @ e), es')
    | Inr d \<Rightarrow> if d = [] then (Inl ''peer closed connection'', es')
        else apfst (map_sum id ((@) d)) (ReadAll es' (n - length d)))"
  using assms
  by (simp add: ReadAll.simps [of es n] split: sum.splits errno.splits prod.splits)

lemma WriteAll_Nil [simp]: "WriteAll c [] = (None, c)"
  by (simp add: WriteAll.simps)

lemma WriteAll_step:
  assumes "data \<noteq> []" "send c data = (r, c')"
  shows "WriteAll c data = (case r of
      Inl EINTR \<Rightarrow> WriteAll c' data
    | Inl (Errno e) \<Rightarrow> (Some (''send failed: '' @ e), c')
    | Inr n \<Rightarrow> if n = 0 then (Some ''send returned 0'', c') else WriteAll c' (drop n data))"
  using assms
  by (simp add: WriteAll.simps [of c data] split: sum.splits errno.splits del: send.simps)

interpretation frame_recv: recv_loop "\<lambda>_::unit. ReadAll"
  by unfold_locales (auto simp: ReadAll_step)

interpretation fr: stream_reader ReadAll
  by (rule frame_recv.is_stream_reader)

interpretation frame_send: send_loop "\<lambda>_::unit. WriteAll"
  by unfold_locales (auto simp: WriteAll_step simp del: send.simps)

interpretation fw: stream_writer WriteAll
  by (rule frame_send.is_stream_writer)

section \<open>Integer round trips\<close>

definition be16 :: "u16 \<Rightarrow> bytes" where
  "be16 v = AppendU16 [] v"

definition be32 :: "u32 \<Rightarrow> bytes" where
  "be32 v = AppendU32 [] v"

definition be64 :: "u64 \<Rightarrow> bytes" where
  "be64 v = AppendU64 [] v"

lemma length_be [simp]: "length (be16 v) = 2" "length (be32 w) = 4" "length (be64 x) = 8"
  by (simp_all add: be16_def be32_def be64_def AppendU16_def AppendU32_def AppendU64_def)

lemma Append_be:
  "AppendU16 out v = out @ be16 v" "AppendU32 out w = out @ be32 w" "AppendU64 out x = out @ be64 x"
  by (simp_all add: be16_def be32_def be64_def AppendU16_def AppendU32_def AppendU64_def)

lemma be_neq_Nil [simp]: "be16 v \<noteq> []" "be32 w \<noteq> []" "be64 x \<noteq> []"
  by (simp_all add: be16_def be32_def be64_def AppendU16_def AppendU32_def AppendU64_def)

lemma AppendString_be:
  "AppendString out v = out @ be32 (of_nat (length v)) @ v"
  by (simp add: AppendString_def AppendBytes_def Append_be)

lemma upt8: "[0..<8] = [0, 1, 2, 3, 4, 5, 6, 7::nat]"
  by (simp add: upt_rec)

lemma Load_shift_in:
  "LoadU16 d = shift_in (shift_in 0 (d ! 0)) (d ! 1)"
  "LoadU32 d = shift_in (shift_in (shift_in (shift_in 0 (d ! 0)) (d ! 1)) (d ! 2)) (d ! 3)"
  "LoadU64 d = fold (\<lambda>i v. shift_in v (d ! i)) [0, 1, 2, 3, 4, 5, 6, 7] 0"
  by (simp_all add: LoadU16_def LoadU32_def LoadU64_def shift_in_def upt8 push_bit_or or.assoc)

lemma LoadU16_be [simp]: "LoadU16 (be16 v @ rest) = v"
  using shift_in_byte_at [of 8 v] shift_in_byte_at [of 0 v]
  by (simp add: Load_shift_in be16_def AppendU16_def)

lemma LoadU32_be [simp]: "LoadU32 (be32 v @ rest) = v"
  using shift_in_byte_at [of 24 v] shift_in_byte_at [of 16 v] shift_in_byte_at [of 8 v]
    shift_in_byte_at [of 0 v]
  by (simp add: Load_shift_in be32_def AppendU32_def)

lemma LoadU64_be [simp]: "LoadU64 (be64 v @ rest) = v"
  using shift_in_byte_at [of 56 v] shift_in_byte_at [of 48 v] shift_in_byte_at [of 40 v]
    shift_in_byte_at [of 32 v] shift_in_byte_at [of 24 v] shift_in_byte_at [of 16 v]
    shift_in_byte_at [of 8 v] shift_in_byte_at [of 0 v]
  by (simp add: Load_shift_in be64_def AppendU64_def)

lemma be16_Load:
  assumes "2 \<le> length d"
  shows "be16 (LoadU16 d) = take 2 d"
proof -
  from assms obtain a b r where "d = a # b # r"
    by (auto simp: numeral_eq_Suc Suc_le_length_iff)
  then show ?thesis by (simp add: Load_shift_in be16_def AppendU16_def byte_simps)
qed

lemma be32_Load:
  assumes "4 \<le> length d"
  shows "be32 (LoadU32 d) = take 4 d"
proof -
  from assms obtain a b c e r where "d = a # b # c # e # r"
    by (auto simp: numeral_eq_Suc Suc_le_length_iff)
  then show ?thesis by (simp add: Load_shift_in be32_def AppendU32_def byte_simps)
qed

lemma be64_Load:
  assumes "8 \<le> length d"
  shows "be64 (LoadU64 d) = take 8 d"
proof -
  from assms obtain a0 a1 a2 a3 a4 a5 a6 a7 r where "d = a0 # a1 # a2 # a3 # a4 # a5 # a6 # a7 # r"
    by (auto simp: numeral_eq_Suc Suc_le_length_iff)
  then show ?thesis by (simp add: Load_shift_in be64_def AppendU64_def byte_simps)
qed

section \<open>Frames on the wire\<close>

lemma frame_header_be:
  "frame_header f = be32 kMagic @ be16 kVersion @ be16 (f_type f) @ be16 0 @ be16 0 @
     be64 (request_id f) @ be32 (of_nat (length (body f))) @ be32 0"
  by (simp add: frame_header_def Append_be Let_def)

lemma length_frame_header [simp]: "length (frame_header f) = kHeaderSize"
  by (simp add: frame_header_be kHeaderSize_def)

lemma frame_header_fields:
  assumes "length (body f) \<le> kMaxBodySize"
  shows "LoadU32 (frame_header f) = kMagic" "LoadU16 (drop 4 (frame_header f)) = kVersion"
    "LoadU16 (drop 6 (frame_header f)) = f_type f" "LoadU64 (drop 12 (frame_header f)) = request_id f"
    "unat (LoadU32 (drop 20 (frame_header f))) = length (body f)"
proof -
  have "length (body f) < 2 ^ 32" using assms by (simp add: kMaxBodySize_def)
  then show "unat (LoadU32 (drop 20 (frame_header f))) = length (body f)"
    by (simp add: frame_header_be unat_of_nat)
qed (simp_all add: frame_header_be)

lemma WriteFrame_clean:
  assumes "length (body f) \<le> kMaxBodySize" "tx_clean c"
  obtains c' where "WriteFrame c f = (None, c')" "tx_clean c'" "c_rx c' = c_rx c"
    "c_sent c' = c_sent c @ frame_header f @ body f"
proof -
  obtain c1 where c1: "WriteAll c (frame_header f) = (None, c1)" "tx_clean c1"
    "c_sent c1 = c_sent c @ frame_header f" "c_rx c1 = c_rx c"
    using fw.write_clean [OF assms(2)] .
  obtain c2 where "WriteAll c1 (body f) = (None, c2)" "tx_clean c2"
    "c_sent c2 = c_sent c1 @ body f" "c_rx c2 = c_rx c1"
    using fw.write_clean [OF c1(2)] .
  with c1 assms(1) that show thesis
    by (cases "body f = []") (auto simp: WriteFrame_def)
qed

lemma ReadFrame_complete:
  assumes "length (body f) \<le> kMaxBodySize" "rx_stream es = frame_header f @ body f @ rest"
  obtains es' where "ReadFrame es = (Inr f, es')" "rx_stream es' = rest"
    "rx_clean es \<Longrightarrow> rx_clean es'"
proof -
  obtain es1 where es1: "ReadAll es kHeaderSize = (Inr (frame_header f), es1)"
    "rx_stream es1 = body f @ rest" "rx_clean es \<Longrightarrow> rx_clean es1"
    using fr.read_exact [OF assms(2)] by (metis length_frame_header)
  obtain es2 where es2: "ReadAll es1 (length (body f)) = (Inr (body f), es2)"
    "rx_stream es2 = rest" "rx_clean es1 \<Longrightarrow> rx_clean es2"
    using fr.read_exact [OF es1(2)] by metis
  show thesis
  proof (cases "body f = []")
    case True
    with es1 assms(1) that [of es1] show thesis
      by (simp add: ReadFrame_def frame_header_fields)
  next
    case False
    with es1 es2 assms(1) that [of es2] show thesis
      by (simp add: ReadFrame_def frame_header_fields)
  qed
qed

lemma ReadFrame_inv:
  assumes "ReadFrame es = (Inr f, es')"
  obtains h es1 where "ReadAll es kHeaderSize = (Inr h, es1)"
    "LoadU32 h = kMagic" "LoadU16 (drop 4 h) = kVersion"
    "unat (LoadU32 (drop 20 h)) \<le> kMaxBodySize"
    "f_type f = LoadU16 (drop 6 h)" "request_id f = LoadU64 (drop 12 h)"
    "ReadAll es1 (unat (LoadU32 (drop 20 h))) = (Inr (body f), es')"
  using assms
  by (auto simp: ReadFrame_def Let_def not_less split: prod.splits sum.splits if_splits)

lemma split_header:
  "length h = 28 \<Longrightarrow> h = take 4 h @ take 2 (drop 4 h) @ take 2 (drop 6 h) @ take 4 (drop 8 h) @
    take 8 (drop 12 h) @ take 4 (drop 20 h) @ take 4 (drop 24 h)"
  using fields_whole [of h "[4, 2, 2, 4, 8, 4, 4]"] by simp

text \<open>Property C2. Frame round trip.  A frame whose body is within the limit, written to a socket that
  keeps accepting bytes however short its individual \<open>send\<close> calls are, is read back unchanged by the
  peer under every segmentation and every pattern of interrupted \<open>recv\<close> calls, and the reader
  consumes exactly the bytes of that frame.\<close>

theorem frame_roundtrip:
  assumes "length (body f) \<le> kMaxBodySize" "tx_clean c"
  shows "\<exists>c' w. WriteFrame c f = (None, c') \<and> c_sent c' = c_sent c @ w \<and>
    (\<forall>es rest. rx_stream es = w @ rest \<longrightarrow>
       (\<exists>es'. ReadFrame es = (Inr f, es') \<and> rx_stream es' = rest))"
proof -
  obtain c' where c': "WriteFrame c f = (None, c')"
    "c_sent c' = c_sent c @ frame_header f @ body f"
    using WriteFrame_clean [OF assms] .
  have "\<exists>es'. ReadFrame es = (Inr f, es') \<and> rx_stream es' = rest"
    if "rx_stream es = (frame_header f @ body f) @ rest" for es rest
    using ReadFrame_complete [OF assms(1), of es rest] that by auto
  with c' show ?thesis by blast
qed

lemma frame_roundtrip_witness:
  "\<exists>c' w. WriteFrame \<lparr>c_rx = [], c_tx = [TxAccept 5, TxIntr], c_sent = []\<rparr>
      \<lparr>f_type = kHello, request_id = 7, body = [1, 2, 3]\<rparr> = (None, c') \<and> c_sent c' = w \<and>
    (\<exists>es'. ReadFrame [Rx (take 9 w), RxIntr, Rx (drop 9 w)] =
       (Inr \<lparr>f_type = kHello, request_id = 7, body = [1, 2, 3]\<rparr>, es') \<and> rx_stream es' = [])"
proof -
  let ?f = "\<lparr>f_type = kHello, request_id = 7, body = [1, 2, 3]\<rparr>"
  let ?c = "\<lparr>c_rx = [], c_tx = [TxAccept 5, TxIntr], c_sent = []\<rparr>"
  have "length (body ?f) \<le> kMaxBodySize" "tx_clean ?c"
    by (simp_all add: kMaxBodySize_def tx_clean_def)
  from frame_roundtrip [OF this] obtain c' w
    where w: "WriteFrame ?c ?f = (None, c')" "c_sent c' = w"
      and r: "\<And>es rest. rx_stream es = w @ rest \<Longrightarrow>
        \<exists>es'. ReadFrame es = (Inr ?f, es') \<and> rx_stream es' = rest"
    by auto
  have "rx_stream [Rx (take 9 w), RxIntr, Rx (drop 9 w)] = w @ []" by simp
  from r [OF this] w show ?thesis by auto
qed

text \<open>Property C7. A frame that is accepted is well formed.  Whatever bytes arrive, when \<open>ReadFrame\<close> returns a
  frame the stream started with the magic number, the supported version, the type, four reserved
  bytes, the request id, the body length, four reserved bytes and exactly that many body bytes, the
  body does not exceed the limit, and nothing after it has been consumed.\<close>

theorem ReadFrame_sound:
  assumes "ReadFrame es = (Inr f, es')"
  shows "length (body f) \<le> kMaxBodySize \<and>
    (\<exists>r1 r2. length r1 = 4 \<and> length r2 = 4 \<and>
      rx_stream es = be32 kMagic @ be16 kVersion @ be16 (f_type f) @ r1 @ be64 (request_id f) @
        be32 (of_nat (length (body f))) @ r2 @ body f @ rx_stream es')"
proof -
  obtain h es1 where h: "ReadAll es kHeaderSize = (Inr h, es1)"
    and v: "LoadU32 h = kMagic" "LoadU16 (drop 4 h) = kVersion"
      "unat (LoadU32 (drop 20 h)) \<le> kMaxBodySize"
      "f_type f = LoadU16 (drop 6 h)" "request_id f = LoadU64 (drop 12 h)"
    and b: "ReadAll es1 (unat (LoadU32 (drop 20 h))) = (Inr (body f), es')"
    using ReadFrame_inv [OF assms] by blast
  have lh: "length h = 28"
    using fr.read_result [OF h, THEN conjunct2, THEN conjunct2] by (simp only: kHeaderSize_def)
  have lb: "length (body f) = unat (LoadU32 (drop 20 h))"
    using fr.read_result [OF b, THEN conjunct2, THEN conjunct2] .
  have "h @ body f = take (28 + length (body f)) (rx_stream es)"
    "rx_stream es' = drop (28 + length (body f)) (rx_stream es)"
    using fr.read_two [OF h b] lb by (simp_all add: kHeaderSize_def)
  then have st: "rx_stream es = h @ body f @ rx_stream es'"
    by (metis append.assoc append_take_drop_id)
  have "h = be32 kMagic @ be16 kVersion @ be16 (f_type f) @ take 4 (drop 8 h) @
      be64 (request_id f) @ be32 (of_nat (length (body f))) @ take 4 (drop 24 h)"
    using be32_Load [of h] be16_Load [of "drop 4 h"] be16_Load [of "drop 6 h"]
      be64_Load [of "drop 12 h"] be32_Load [of "drop 20 h"] v lh lb split_header [OF lh]
    by simp
  with st lb v(3) lh show ?thesis
    by (intro conjI exI [of _ "take 4 (drop 8 h)"] exI [of _ "take 4 (drop 24 h)"]) simp_all
qed

lemma ReadFrame_sound_witness:
  "\<exists>f es' r1 r2. ReadFrame [Rx (be32 kMagic @ be16 kVersion @ be16 3 @ [9, 9, 9, 9] @ be64 6 @ be32 2),
       RxIntr, Rx [8, 8, 8, 8, 1, 2, 5]] = (Inr f, es') \<and> length (body f) \<le> kMaxBodySize \<and>
     length r1 = 4 \<and> length r2 = 4 \<and> rx_stream [Rx (be32 kMagic @ be16 kVersion @ be16 3 @
       [9, 9, 9, 9] @ be64 6 @ be32 2), RxIntr, Rx [8, 8, 8, 8, 1, 2, 5]] =
     be32 kMagic @ be16 kVersion @ be16 (f_type f) @ r1 @ be64 (request_id f) @
        be32 (of_nat (length (body f))) @ r2 @ body f @ rx_stream es'"
proof -
  let ?h = "be32 kMagic @ be16 kVersion @ be16 3 @ [9, 9, 9, 9] @ be64 6 @ be32 2 @ [8, 8, 8, 8]"
  let ?es = "[Rx (be32 kMagic @ be16 kVersion @ be16 3 @ [9, 9, 9, 9] @ be64 6 @ be32 2),
       RxIntr, Rx [8, 8, 8, 8, 1, 2, 5]]"
  obtain es1 where es1: "ReadAll ?es kHeaderSize = (Inr ?h, es1)" "rx_stream es1 = [1, 2] @ [5]"
    using fr.read_exact [of ?es ?h "[1, 2, 5]" kHeaderSize] by (auto simp: kHeaderSize_def)
  obtain es2 where "ReadAll es1 2 = (Inr [1, 2], es2)" "rx_stream es2 = [5]"
    using fr.read_exact [OF es1(2), of 2] by auto
  with es1 have "ReadFrame ?es = (Inr \<lparr>f_type = 3, request_id = 6, body = [1, 2]\<rparr>, es2)"
    by (simp add: ReadFrame_def kMaxBodySize_def)
  from this ReadFrame_sound [OF this] show ?thesis by blast
qed

section \<open>The body reader\<close>

definition reader_inv :: "Reader \<Rightarrow> bool" where
  "reader_inv r \<longleftrightarrow> r_offset r \<le> length (r_data r)"

definition unread :: "Reader \<Rightarrow> bytes" where
  "unread r = drop (r_offset r) (r_data r)"

lemma unread_reader [simp]: "unread (reader d) = d" and reader_inv_reader [simp]: "reader_inv (reader d)"
  by (simp_all add: unread_def reader_def reader_inv_def)

lemma Done_unread: "reader_inv r \<Longrightarrow> Done r \<longleftrightarrow> unread r = []"
  by (auto simp: Done_def unread_def reader_inv_def)

lemma ReadRaw_unread:
  "ReadRaw r n = (if length (unread r) < n then (None, r)
     else (Some (take n (unread r)), r\<lparr>r_offset := r_offset r + n\<rparr>))"
  by (simp add: ReadRaw_def unread_def bslice_def)

lemma unread_advance: "unread (r\<lparr>r_offset := r_offset r + n\<rparr>) = drop n (unread r)"
  by (simp add: unread_def add.commute)

lemma reader_inv_advance:
  "reader_inv r \<Longrightarrow> n \<le> length (unread r) \<Longrightarrow> reader_inv (r\<lparr>r_offset := r_offset r + n\<rparr>)"
  by (simp add: reader_inv_def unread_def)

lemmas reader_simps = ReadRaw_unread unread_advance reader_inv_advance

lemma ReadU16_unread:
  "ReadU16 r = (if length (unread r) < 2 then (None, r)
     else (Some (LoadU16 (unread r)), r\<lparr>r_offset := r_offset r + 2\<rparr>))"
  by (simp add: ReadU16_def ReadRaw_unread LoadU16_def)

lemma ReadU32_unread:
  "ReadU32 r = (if length (unread r) < 4 then (None, r)
     else (Some (LoadU32 (unread r)), r\<lparr>r_offset := r_offset r + 4\<rparr>))"
  by (simp add: ReadU32_def ReadRaw_unread LoadU32_def)

lemma ReadU64_unread:
  "ReadU64 r = (if length (unread r) < 8 then (None, r)
     else (Some (LoadU64 (unread r)), r\<lparr>r_offset := r_offset r + 8\<rparr>))"
  by (simp add: ReadU64_def ReadRaw_unread LoadU64_def upt8)

lemma ReadString_unread:
  "ReadString r = (if length (unread r) < 4 then (None, r)
     else let n = unat (LoadU32 (unread r)); r' = r\<lparr>r_offset := r_offset r + 4\<rparr> in
       if length (unread r) < 4 + n then (None, r')
       else (Some (take n (drop 4 (unread r))), r\<lparr>r_offset := r_offset r + 4 + n\<rparr>))"
  by (auto simp: ReadString_def ReadU32_unread ReadRaw_unread unread_advance Let_def)

text \<open>Reading back what was appended.\<close>

lemma ReadU32_be:
  assumes "unread r = be32 v @ rest" "reader_inv r"
  shows "\<exists>r'. ReadU32 r = (Some v, r') \<and> unread r' = rest \<and> reader_inv r'"
  using assms by (simp add: ReadU32_unread reader_simps)

lemma ReadU64_be:
  assumes "unread r = be64 v @ rest" "reader_inv r"
  shows "\<exists>r'. ReadU64 r = (Some v, r') \<and> unread r' = rest \<and> reader_inv r'"
  using assms by (simp add: ReadU64_unread reader_simps)

lemma ReadString_be:
  assumes "unread r = be32 (of_nat (length s)) @ s @ rest" "reader_inv r" "length s < 2 ^ 32"
  shows "\<exists>r'. ReadString r = (Some s, r') \<and> unread r' = rest \<and> reader_inv r'"
proof -
  have "unat (of_nat (length s) :: u32) = length s" using assms(3) by (simp add: unat_of_nat)
  with assms(1,2) show ?thesis
    using unread_advance [of r "4 + length s"] reader_inv_advance [of r "4 + length s"]
    by (simp add: ReadString_unread Let_def add.assoc)
qed

lemma ReadBytes_exact:
  assumes "unread r = d @ rest" "reader_inv r"
  shows "\<exists>r'. ReadBytes r (length d) = (Some d, r') \<and> unread r' = rest \<and> reader_inv r'"
  using assms by (simp add: ReadBytes_def reader_simps)

text \<open>The body reader never leaves its buffer and never invents data.  From any reachable
  reader every typed read either reports failure or returns the value whose encoding is at the
  front of the unread bytes, leaves the rest unread and keeps the offset within the buffer.\<close>

theorem Reader_sound:
  assumes "reader_inv r"
  shows "(case ReadU16 r of (None, r') \<Rightarrow> r' = r
          | (Some v, r') \<Rightarrow> reader_inv r' \<and> unread r = be16 v @ unread r') \<and>
    (case ReadU32 r of (None, r') \<Rightarrow> r' = r
          | (Some v, r') \<Rightarrow> reader_inv r' \<and> unread r = be32 v @ unread r') \<and>
    (case ReadU64 r of (None, r') \<Rightarrow> r' = r
          | (Some v, r') \<Rightarrow> reader_inv r' \<and> unread r = be64 v @ unread r') \<and>
    (case ReadBytes r n of (None, r') \<Rightarrow> r' = r
          | (Some v, r') \<Rightarrow> reader_inv r' \<and> length v = n \<and> unread r = v @ unread r') \<and>
    (case ReadString r of (None, r') \<Rightarrow> reader_inv r'
          | (Some v, r') \<Rightarrow> reader_inv r' \<and> unread r = be32 (of_nat (length v)) @ v @ unread r')"
proof (intro conjI)
  show "case ReadString r of (None, r') \<Rightarrow> reader_inv r'
      | (Some v, r') \<Rightarrow> reader_inv r' \<and> unread r = be32 (of_nat (length v)) @ v @ unread r'"
  proof (cases "length (unread r) < 4 + unat (LoadU32 (unread r))")
    case True
    then show ?thesis using assms by (auto simp: ReadString_unread Let_def reader_inv_advance)
  next
    case False
    let ?n = "unat (LoadU32 (unread r))"
    have "unread r = take 4 (unread r) @ take ?n (drop 4 (unread r)) @ drop (4 + ?n) (unread r)"
      by (metis append_take_drop_id add.commute drop_drop)
    with False assms show ?thesis
      using unread_advance [of r "4 + ?n"] reader_inv_advance [of r "4 + ?n"]
        be32_Load [of "unread r"]
      by (simp add: ReadString_unread Let_def add.assoc)
  qed
qed (use assms in \<open>auto simp: ReadU16_unread ReadU32_unread ReadU64_unread ReadBytes_def
  reader_simps be16_Load be32_Load be64_Load simp del: add_2_eq_Suc'\<close>)

lemma Reader_sound_witness:
  "reader_inv (reader [0, 0, 0, 1, 9, 4]) \<and>
   (case ReadString (reader [0, 0, 0, 1, 9, 4]) of (None, r') \<Rightarrow> reader_inv r'
    | (Some v, r') \<Rightarrow> reader_inv r' \<and>
        unread (reader [0, 0, 0, 1, 9, 4]) = be32 (of_nat (length v)) @ v @ unread r')"
  using Reader_sound [of "reader [0, 0, 0, 1, 9, 4]"] by simp

section \<open>The checksum\<close>

lemma fold_fnv_inj:
  "fold (\<lambda>b h. (h XOR ucast b) * 16777619) bs h = fold (\<lambda>b h. (h XOR ucast b) * 16777619) bs h' \<Longrightarrow>
   h = (h' :: u32)"
proof (induction bs arbitrary: h h')
  case (Cons b bs)
  from Cons.IH [OF Cons.prems [unfolded fold_Cons o_apply]]
  have "h XOR ucast b = h' XOR ucast b" by (rule fnv32_step_inj)
  then have "(h XOR ucast b) XOR ucast b = (h' XOR ucast b) XOR ucast b" by simp
  then show ?case by (simp add: xor.assoc)
qed simp

lemma ucast_u32_inj: "ucast a = (ucast b :: u32) \<Longrightarrow> a = (b :: u8)"
proof (rule bit_word_eqI)
  fix n assume eq: "ucast a = (ucast b :: u32)" and n: "n < LENGTH(8)"
  have "bit (ucast a :: u32) n = bit (ucast b :: u32) n" by (simp only: eq)
  with n show "bit a n = bit b n" by (simp add: bit_simps)
qed

text \<open>The body checksum detects every corruption confined to one byte: two buffers that differ in
  exactly one byte never have the same checksum.\<close>

theorem Checksum32_detects_byte_change:
  assumes "a \<noteq> b"
  shows "Checksum32 (xs @ a # ys) \<noteq> Checksum32 (xs @ b # ys)"
proof
  assume "Checksum32 (xs @ a # ys) = Checksum32 (xs @ b # ys)"
  then have "(fnv32 xs XOR ucast a) * 16777619 = (fnv32 xs XOR ucast b) * (16777619 :: u32)"
    by (auto simp: Checksum32_def fnv32_def intro: fold_fnv_inj)
  then have "fnv32 xs XOR ucast a = fnv32 xs XOR (ucast b :: u32)" by (rule fnv32_step_inj)
  then have "fnv32 xs XOR (fnv32 xs XOR ucast a) = fnv32 xs XOR (fnv32 xs XOR (ucast b :: u32))"
    by simp
  then have "ucast a = (ucast b :: u32)" by (simp add: xor.assoc [symmetric])
  then have "a = b" by (rule ucast_u32_inj)
  with assms show False by simp
qed

lemma Checksum32_detects_byte_change_witness:
  "(1 :: u8) \<noteq> 3 \<and> Checksum32 ([7] @ 1 # [5]) \<noteq> Checksum32 ([7] @ 3 # [5])"
  using Checksum32_detects_byte_change [of 1 3 "[7]" "[5]"] by simp

end
