(* ===== verification/Posix_Store.thy ===== *)
theory Posix_Store
  imports Posix_Socket
begin

text \<open>
  The read-only file store of the storage agent (\<open>src/storage/posix_file.h\<close>, \<open>posix_file.cc\<close>) over a
  model of the system calls it uses.

  The operating system is a record: the canonicalisation of paths (which depends on the symbolic
  links of the file system), the name lookup, the inodes, the descriptor table of the process with
  its limit, what successive \<open>pread\<close> calls do (short transfers, interruptions, failures) and the
  largest block the allocator grants.  \<open>ResolvePath\<close>, \<open>Open\<close>, \<open>Read\<close> and \<open>Close\<close> are the methods of
  \<open>PosixFileStore\<close>.  The lemmas show that no opened file lies outside the store's root, that no
  descriptor leaks on any failing path of \<open>Open\<close>, and that \<open>Read\<close> returns exactly the requested
  range of the file, cut at its end, under every pattern of short and interrupted reads.
\<close>

section \<open>System calls\<close>

datatype pread_event = PrUpTo nat | PrIntr | PrFail string

record inode =
  i_regular :: bool
  i_fstat_error :: "string option"
  i_data :: bytes

record os =
  os_canon :: "bytes \<Rightarrow> string + bytes"
  os_lookup :: "bytes \<Rightarrow> string + nat"
  os_inode :: "nat \<Rightarrow> inode"
  os_fds :: "(nat \<times> nat) list"
  os_max_fds :: nat
  os_preads :: "pread_event list"
  os_alloc_max :: nat

text \<open>Descriptors are allocated lowest first, as POSIX prescribes.\<close>

definition lowest_fd :: "(nat \<times> nat) list \<Rightarrow> nat" where
  "lowest_fd fds = hd (filter (\<lambda>n. n \<notin> fst ` set fds) [0..<Suc (length fds)])"

definition fd_alloc :: "os \<Rightarrow> nat \<Rightarrow> (string + nat) \<times> os" where
  "fd_alloc os ino =
    (if os_max_fds os \<le> length (os_fds os) then (Inl ''Too many open files'', os)
     else let fd = lowest_fd (os_fds os) in (Inr fd, os\<lparr>os_fds := (fd, ino) # os_fds os\<rparr>))"

definition sys_open :: "os \<Rightarrow> bytes \<Rightarrow> (string + nat) \<times> os" where
  "sys_open os path =
    (case os_lookup os path of
       Inl e \<Rightarrow> (Inl e, os)
     | Inr ino \<Rightarrow> fd_alloc os ino)"

definition sys_dup :: "os \<Rightarrow> nat \<Rightarrow> (string + nat) \<times> os" where
  "sys_dup os fd =
    (case map_of (os_fds os) fd of
       None \<Rightarrow> (Inl ''Bad file descriptor'', os)
     | Some ino \<Rightarrow> fd_alloc os ino)"

definition sys_close :: "os \<Rightarrow> nat \<Rightarrow> os" where
  "sys_close os fd = os\<lparr>os_fds := filter (\<lambda>p. fst p \<noteq> fd) (os_fds os)\<rparr>"

text \<open>\<open>pread(fd, buf, n, off)\<close> with \<open>off_t\<close> a signed 64-bit integer.\<close>

definition sys_pread :: "os \<Rightarrow> nat \<Rightarrow> nat \<Rightarrow> u64 \<Rightarrow> (errno + bytes) \<times> os" where
  "sys_pread os fd n off =
    (case map_of (os_fds os) fd of
       None \<Rightarrow> (Inl (Errno ''Bad file descriptor''), os)
     | Some ino \<Rightarrow>
         if sint off < 0 then (Inl (Errno ''Invalid argument''), os)
         else (case os_preads os of
             [] \<Rightarrow> (Inr (bslice (unat off) n (i_data (os_inode os ino))), os)
           | PrUpTo k # es \<Rightarrow>
               (Inr (bslice (unat off) (min n (Suc k)) (i_data (os_inode os ino))),
                os\<lparr>os_preads := es\<rparr>)
           | PrIntr # es \<Rightarrow> (Inl EINTR, os\<lparr>os_preads := es\<rparr>)
           | PrFail e # es \<Rightarrow> (Inl (Errno e), os\<lparr>os_preads := es\<rparr>)))"

section \<open>Paths of the standard library\<close>

definition slash :: u8 where "slash = 0x2f"

fun path_parts :: "bytes \<Rightarrow> bytes list" where
  "path_parts [] = [[]]"
| "path_parts (c # cs) =
    (if c = slash then [] # path_parts cs
     else (case path_parts cs of [] \<Rightarrow> [[c]] | p # ps \<Rightarrow> (c # p) # ps))"

definition is_absolute :: "bytes \<Rightarrow> bool" where
  "is_absolute p \<longleftrightarrow> p \<noteq> [] \<and> hd p = slash"

text \<open>\<open>operator/\<close> of \<open>std::filesystem::path\<close> for a relative right operand.\<close>

definition path_join :: "bytes \<Rightarrow> bytes \<Rightarrow> bytes" where
  "path_join root p = (if root = [] \<or> last root = slash then root @ p else root @ slash # p)"

section \<open>The store\<close>

record OpenedFile =
  of_fd :: nat
  of_size :: u64
  of_path :: bytes

text \<open>The root a resolved path is compared with: the canonical root without its trailing slash.\<close>

definition root_dir :: "bytes \<Rightarrow> bytes" where
  "root_dir root = (if 1 < length root \<and> last root = slash then butlast root else root)"

definition ResolvePath :: "os \<Rightarrow> bytes \<Rightarrow> bytes \<Rightarrow> string + bytes" where
  "ResolvePath os sroot path =
    (if path = [] then Inl ''path is empty''
     else if 0 \<in> set path then Inl ''path contains NUL byte''
     else if is_absolute path then Inl ''absolute paths are not allowed''
     else if cstr ''..'' \<in> set (path_parts path) then Inl ''parent path components are not allowed''
     else case os_canon os sroot of
       Inl e \<Rightarrow> Inl (''path canonicalization failed: '' @ e)
     | Inr root \<Rightarrow>
         (case os_canon os (path_join root path) of
            Inl e \<Rightarrow> Inl (''path canonicalization failed: '' @ e)
          | Inr full \<Rightarrow>
              let root_str = root_dir root in
              if root_str \<noteq> [slash] \<and>
                 (length full < length root_str \<or> take (length root_str) full \<noteq> root_str \<or>
                  (length root_str < length full \<and> full ! length root_str \<noteq> slash))
              then Inl ''path escapes storage root''
              else Inr full))"

definition Open :: "os \<Rightarrow> bytes \<Rightarrow> bytes \<Rightarrow> (string + OpenedFile) \<times> os" where
  "Open os sroot path =
    (case ResolvePath os sroot path of
       Inl e \<Rightarrow> (Inl e, os)
     | Inr full \<Rightarrow>
         if full = [] then (Inl [], os)
         else (case sys_open os full of
             (Inl e, os1) \<Rightarrow> (Inl (''open failed: '' @ e), os1)
           | (Inr fd, os1) \<Rightarrow>
               let st = os_inode os1 (the (map_of (os_fds os1) fd)) in
               (case i_fstat_error st of
                  Some e \<Rightarrow> (Inl (''fstat failed: '' @ e), sys_close os1 fd)
                | None \<Rightarrow>
                    if \<not> i_regular st then (Inl ''path is not a regular file'', sys_close os1 fd)
                    else (Inr \<lparr>of_fd = fd, of_size = of_nat (length (i_data st)), of_path = full\<rparr>,
                          os1))))"

text \<open>The loop of \<open>Read\<close>: \<open>todo\<close> is \<open>data->size() - done\<close>; the result is what the loop stores after \<open>done\<close>,
  cut where \<open>pread\<close> reports the end of the file.\<close>

function read_loop :: "os \<Rightarrow> nat \<Rightarrow> u64 \<Rightarrow> nat \<Rightarrow> nat \<Rightarrow> (string + bytes) \<times> os" where
  "read_loop os fd offset cur todo =
    (if todo = 0 then (Inr [], os)
     else case sys_pread os fd todo (offset + of_nat cur) of
       (Inl EINTR, os') \<Rightarrow> read_loop os' fd offset cur todo
     | (Inl (Errno e), os') \<Rightarrow> (Inl (''pread failed: '' @ e), os')
     | (Inr d, os') \<Rightarrow>
         if d = [] then (Inr [], os')
         else (case read_loop os' fd offset (cur + length d) (todo - length d) of
             (Inl e, os'') \<Rightarrow> (Inl e, os'')
           | (Inr r, os'') \<Rightarrow> (Inr (d @ r), os'')))"
  by pat_completeness auto
termination
proof (relation "measure (\<lambda>(os, fd, offset, cur, todo). length (os_preads os) + todo)", goal_cases)
  case (2 os fd offset cur todo x os' e)
  then show ?case
    by (auto simp: sys_pread_def split: option.splits if_splits list.splits pread_event.splits)
next
  case (3 os fd offset cur todo x os' d)
  have "length (os_preads os') \<le> length (os_preads os)"
    using 3(2,3) by (auto simp: sys_pread_def
        split: option.splits if_splits list.splits pread_event.splits)
  with 3(1,4) show ?case by (cases d) auto
qed simp

declare read_loop.simps [simp del]

definition Read :: "os \<Rightarrow> nat \<Rightarrow> u64 \<Rightarrow> u64 \<Rightarrow> (string + bytes) \<times> os" where
  "Read os fd offset len =
    (if os_alloc_max os < unat len then (Inl ''read length allocation failed'', os)
     else read_loop os fd offset 0 (unat len))"

definition Close :: "os \<Rightarrow> int \<Rightarrow> os" where
  "Close os fd = (if 0 \<le> fd then sys_close os (nat fd) else os)"

section \<open>Descriptor table\<close>

definition fds_ok :: "os \<Rightarrow> bool" where
  "fds_ok os \<longleftrightarrow> distinct (map fst (os_fds os))"

lemma lowest_fd_fresh: "lowest_fd fds \<notin> fst ` set fds"
proof -
  let ?c = "filter (\<lambda>n. n \<notin> fst ` set fds) [0..<Suc (length fds)]"
  have "card (fst ` set fds) \<le> length fds"
    by (metis card_length length_map set_map)
  then have "\<not> {0..<Suc (length fds)} \<subseteq> fst ` set fds"
    using card_mono [of "fst ` set fds" "{0..<Suc (length fds)}"] by auto
  then obtain n where "n \<in> {0..<Suc (length fds)}" "n \<notin> fst ` set fds" by blast
  then have "n \<in> set ?c" by (simp del: upt_Suc)
  then have "?c \<noteq> []" by (metis list.distinct(1) list.set_cases)
  then have "hd ?c \<in> set ?c" by (rule hd_in_set)
  then show ?thesis unfolding lowest_fd_def by (simp del: upt_Suc)
qed

text \<open>What an allocation does, and that closing the fresh descriptor undoes it.\<close>

lemma fd_alloc_cases:
  assumes "fd_alloc os ino = (r, os')"
  shows "r = Inl ''Too many open files'' \<and> os' = os \<or>
    (\<exists>fd. r = Inr fd \<and> fd \<notin> fst ` set (os_fds os) \<and>
       os' = os\<lparr>os_fds := (fd, ino) # os_fds os\<rparr>)"
proof (cases "os_max_fds os \<le> length (os_fds os)")
  case False
  with assms have "r = Inr (lowest_fd (os_fds os))"
    "os' = os\<lparr>os_fds := (lowest_fd (os_fds os), ino) # os_fds os\<rparr>"
    by (simp_all add: fd_alloc_def Let_def)
  then show ?thesis using lowest_fd_fresh [of "os_fds os"] by blast
qed (use assms in \<open>simp add: fd_alloc_def\<close>)

lemma sys_close_fresh:
  "fd \<notin> fst ` set (os_fds os) \<Longrightarrow> sys_close (os\<lparr>os_fds := (fd, ino) # os_fds os\<rparr>) fd = os"
proof -
  assume "fd \<notin> fst ` set (os_fds os)"
  then have "filter (\<lambda>p. fst p \<noteq> fd) (os_fds os) = os_fds os"
    by (intro filter_True) auto
  then show ?thesis by (simp add: sys_close_def)
qed

lemma fds_ok_fresh:
  "fds_ok os \<Longrightarrow> fd \<notin> fst ` set (os_fds os) \<Longrightarrow> fds_ok (os\<lparr>os_fds := (fd, ino) # os_fds os\<rparr>)"
  by (simp add: fds_ok_def)

lemma fds_ok_close: "fds_ok os \<Longrightarrow> fds_ok (sys_close os fd)"
  by (auto simp: fds_ok_def sys_close_def distinct_map_filter)

lemma map_of_filter_fst: "fd \<noteq> fd' \<Longrightarrow> map_of (filter (\<lambda>p. fst p \<noteq> fd) xs) fd' = map_of xs fd'"
  by (induction xs) auto

lemma sys_close_other:
  "fd \<noteq> fd' \<Longrightarrow> map_of (os_fds (sys_close os fd)) fd' = map_of (os_fds os) fd'"
  by (simp add: sys_close_def map_of_filter_fst)

section \<open>Open\<close>

text \<open>All outcomes of \<open>Open\<close>: either an error with the operating-system state untouched, or one fresh
  descriptor for the regular file the resolved path names.\<close>

lemma Open_outcomes:
  assumes "Open os sroot path = (r, os')"
  shows "(case r of
     Inl e \<Rightarrow> os' = os
   | Inr f \<Rightarrow> ResolvePath os sroot path = Inr (of_path f) \<and>
       (\<exists>ino. os_lookup os (of_path f) = Inr ino \<and> i_regular (os_inode os ino) \<and>
         of_size f = of_nat (length (i_data (os_inode os ino))) \<and>
         of_fd f \<notin> fst ` set (os_fds os) \<and>
         os' = os\<lparr>os_fds := (of_fd f, ino) # os_fds os\<rparr>))"
proof (cases "ResolvePath os sroot path")
  case (Inr full)
  show ?thesis
  proof (cases "full = []")
    case False
    show ?thesis
    proof (cases "os_lookup os full")
      case (Inr ino)
      obtain r1 os1 where al: "fd_alloc os ino = (r1, os1)" by fastforce
      from fd_alloc_cases [OF this] show ?thesis
      proof (elim disjE exE conjE)
        fix fd assume "r1 = Inr fd" "fd \<notin> fst ` set (os_fds os)"
          "os1 = os\<lparr>os_fds := (fd, ino) # os_fds os\<rparr>"
        with al assms \<open>ResolvePath os sroot path = Inr full\<close> False Inr show ?thesis
          by (auto simp: Open_def sys_open_def sys_close_fresh Let_def split: option.splits if_splits)
      qed (use al assms \<open>ResolvePath os sroot path = Inr full\<close> False Inr in
        \<open>auto simp: Open_def sys_open_def\<close>)
    qed (use assms Inr False in \<open>auto simp: Open_def sys_open_def\<close>)
  qed (use assms Inr in \<open>auto simp: Open_def\<close>)
qed (use assms in \<open>auto simp: Open_def\<close>)

definition inside :: "bytes \<Rightarrow> bytes \<Rightarrow> bool" where
  "inside dir p \<longleftrightarrow> dir = [slash] \<or> p = dir \<or> (\<exists>rest. p = dir @ slash # rest)"

lemma inside_prefix:
  assumes "\<not> (length full < length dir \<or> take (length dir) full \<noteq> dir \<or>
    (length dir < length full \<and> full ! length dir \<noteq> slash))"
  shows "full = dir \<or> (\<exists>rest. full = dir @ slash # rest)"
proof (cases "drop (length dir) full")
  case Nil
  then show ?thesis using assms by (metis append_Nil2 append_take_drop_id)
next
  case (Cons c rest)
  then have "length dir < length full" by (metis drop_eq_Nil list.distinct(1) not_le)
  moreover from this have "full ! length dir = c"
    using Cons by (metis Cons_nth_drop_Suc list.inject)
  ultimately have "c = slash" using assms by auto
  moreover have "full = dir @ c # rest" using assms Cons by (metis append_take_drop_id)
  ultimately show ?thesis by blast
qed

lemma ResolvePath_inside:
  assumes "ResolvePath os sroot path = Inr full"
  obtains root where "os_canon os sroot = Inr root" "os_canon os (path_join root path) = Inr full"
    "inside (root_dir root) full"
    "path \<noteq> []" "0 \<notin> set path" "\<not> is_absolute path" "cstr ''..'' \<notin> set (path_parts path)"
proof -
  from assms obtain root where root: "os_canon os sroot = Inr root"
    "os_canon os (path_join root path) = Inr full"
    and p: "path \<noteq> []" "0 \<notin> set path" "\<not> is_absolute path" "cstr ''..'' \<notin> set (path_parts path)"
    and chk: "root_dir root = [slash] \<or> \<not> (length full < length (root_dir root) \<or>
      take (length (root_dir root)) full \<noteq> root_dir root \<or>
      (length (root_dir root) < length full \<and> full ! length (root_dir root) \<noteq> slash))"
    by (auto simp: ResolvePath_def Let_def split: if_splits sum.splits)
  from chk have "inside (root_dir root) full"
    unfolding inside_def using inside_prefix by blast
  with root p that show thesis by blast
qed

text \<open>Property C4. Confinement.  When the store opens a file, the canonical path it opened is the canonical
  root itself or lies below it, the request was a relative path without parent components or NUL
  bytes, and what was opened is a regular file whose size is reported.\<close>

theorem Open_confined:
  assumes "Open os sroot path = (Inr f, os')"
  shows "\<exists>root ino. os_canon os sroot = Inr root \<and> inside (root_dir root) (of_path f) \<and>
    os_canon os (path_join root path) = Inr (of_path f) \<and>
    \<not> is_absolute path \<and> cstr ''..'' \<notin> set (path_parts path) \<and> 0 \<notin> set path \<and>
    os_lookup os (of_path f) = Inr ino \<and> i_regular (os_inode os ino) \<and>
    of_size f = of_nat (length (i_data (os_inode os ino)))"
proof -
  from Open_outcomes [OF assms] obtain ino where "ResolvePath os sroot path = Inr (of_path f)"
    "os_lookup os (of_path f) = Inr ino" "i_regular (os_inode os ino)"
    "of_size f = of_nat (length (i_data (os_inode os ino)))"
    by auto
  moreover from this(1) obtain root where "os_canon os sroot = Inr root"
    "os_canon os (path_join root path) = Inr (of_path f)" "inside (root_dir root) (of_path f)"
    "0 \<notin> set path" "\<not> is_absolute path" "cstr ''..'' \<notin> set (path_parts path)"
    by (rule ResolvePath_inside)
  ultimately show ?thesis by blast
qed

text \<open>A system used to exercise the theorems: one regular file below the root.\<close>

definition sample_os :: os where
  "sample_os = \<lparr>os_canon = Inr,
     os_lookup = (\<lambda>p. if p = cstr ''/srv/a'' then Inr 0 else Inl ''No such file or directory''),
     os_inode = (\<lambda>_. \<lparr>i_regular = True, i_fstat_error = None, i_data = [10, 20, 30, 40, 50]\<rparr>),
     os_fds = [], os_max_fds = 16, os_preads = [PrUpTo 0, PrIntr, PrUpTo 1], os_alloc_max = 4096\<rparr>"

lemma sample_resolve: "ResolvePath sample_os (cstr ''/srv'') (cstr ''a'') = Inr (cstr ''/srv/a'')"
  by (simp add: sample_os_def ResolvePath_def cstr_def slash_def is_absolute_def path_join_def
      root_dir_def)

lemma sample_open:
  "Open sample_os (cstr ''/srv'') (cstr ''a'') =
    (Inr \<lparr>of_fd = 0, of_size = 5, of_path = cstr ''/srv/a''\<rparr>, sample_os\<lparr>os_fds := [(0, 0)]\<rparr>)"
  unfolding Open_def sample_resolve
  by (simp add: sample_os_def sys_open_def fd_alloc_def lowest_fd_def cstr_def Let_def)

lemma Open_confined_witness:
  "\<exists>root ino. os_canon sample_os (cstr ''/srv'') = Inr root \<and>
    inside (root_dir root) (cstr ''/srv/a'') \<and> os_lookup sample_os (cstr ''/srv/a'') = Inr ino \<and>
    i_regular (os_inode sample_os ino)"
  using Open_confined [OF sample_open] by auto

text \<open>Descriptor hygiene.  A failing \<open>Open\<close>, on every one of its error paths, leaves the
  operating-system state, hence the descriptor table, exactly as it was; a successful one adds the
  single descriptor it returns, which was not in use, and keeps descriptors distinct.\<close>

theorem Open_no_leak:
  assumes "fds_ok os" "Open os sroot path = (r, os')"
  shows "fds_ok os' \<and> (case r of
     Inl e \<Rightarrow> os' = os
   | Inr f \<Rightarrow> of_fd f \<notin> fst ` set (os_fds os) \<and>
       fst ` set (os_fds os') = insert (of_fd f) (fst ` set (os_fds os)))"
  using Open_outcomes [OF assms(2)] assms(1) by (auto simp: fds_ok_fresh split: sum.splits)

lemma Open_no_leak_witness:
  "fds_ok sample_os \<and> fds_ok (snd (Open sample_os (cstr ''/srv'') (cstr ''a''))) \<and>
   fst ` set (os_fds (snd (Open sample_os (cstr ''/srv'') (cstr ''a'')))) = {0}"
proof -
  have "fds_ok sample_os" by (simp add: fds_ok_def sample_os_def)
  from Open_no_leak [OF this sample_open] this show ?thesis
    by (simp add: sample_open)
qed

section \<open>Read\<close>

definition preads_clean :: "os \<Rightarrow> bool" where
  "preads_clean os \<longleftrightarrow> list_all (\<lambda>e. case e of PrFail _ \<Rightarrow> False | _ \<Rightarrow> True) (os_preads os)"

lemma read_loop_0 [simp]: "read_loop os fd offset cur 0 = (Inr [], os)"
  by (simp add: read_loop.simps)

lemma sys_pread_clean:
  assumes "map_of (os_fds os) fd = Some ino" "preads_clean os" "\<not> sint off < 0"
  obtains (eintr) es where "sys_pread os fd n off = (Inl EINTR, os\<lparr>os_preads := es\<rparr>)"
      "preads_clean (os\<lparr>os_preads := es\<rparr>)"
  | (data) m es where "sys_pread os fd n off =
        (Inr (bslice (unat off) m (i_data (os_inode os ino))), os\<lparr>os_preads := es\<rparr>)"
      "preads_clean (os\<lparr>os_preads := es\<rparr>)" "m \<le> n" "0 < n \<longrightarrow> 0 < m"
proof (cases "os_preads os")
  case Nil
  then show thesis
    using assms data [of n "[]"] by (simp add: sys_pread_def preads_clean_def)
next
  case (Cons e es)
  then show thesis
  proof (cases e)
    case (PrUpTo k)
    then show thesis
      using assms Cons data [of "min n (Suc k)" es] by (simp add: sys_pread_def preads_clean_def)
  qed (use assms Cons eintr [of es] in \<open>simp_all add: sys_pread_def preads_clean_def\<close>)
qed

lemma off_t_small:
  assumes "unat offset + cur < 2 ^ 63"
  shows "\<not> sint (offset + of_nat cur :: u64) < 0" "unat (offset + of_nat cur :: u64) = unat offset + cur"
proof -
  have "unat (of_nat cur :: u64) = cur" using assms by (simp add: unat_of_nat)
  then show u: "unat (offset + of_nat cur :: u64) = unat offset + cur"
    using assms by (simp add: unat_word_ariths)
  have "\<not> bit (unat (offset + of_nat cur :: u64)) 63"
    unfolding u using assms by (simp add: bit_iff_odd)
  then have "\<not> bit (offset + of_nat cur :: u64) 63" by (simp add: bit_simps)
  then show "\<not> sint (offset + of_nat cur :: u64) < 0"
    by (simp add: sint_uint bit_uint_iff)
qed

lemma read_loop_step:
  assumes "todo \<noteq> 0" "sys_pread os fd todo (offset + of_nat cur) = (r, os')"
  shows "read_loop os fd offset cur todo = (case r of
      Inl EINTR \<Rightarrow> read_loop os' fd offset cur todo
    | Inl (Errno e) \<Rightarrow> (Inl (''pread failed: '' @ e), os')
    | Inr d \<Rightarrow> if d = [] then (Inr [], os')
        else apfst (map_sum id ((@) d)) (read_loop os' fd offset (cur + length d) (todo - length d)))"
  using assms
  by (simp add: read_loop.simps [of os] split: sum.splits errno.splits prod.splits)

lemma read_loop_range:
  assumes "map_of (os_fds os) fd = Some ino" "preads_clean os" "unat offset + cur + todo < 2 ^ 63"
  shows "\<exists>es. read_loop os fd offset cur todo =
    (Inr (bslice (unat offset + cur) todo (i_data (os_inode os ino))), os\<lparr>os_preads := es\<rparr>)"
  using assms
proof (induction os fd offset cur todo rule: read_loop.induct)
  case (1 os fd offset cur todo)
  show ?case
  proof (cases "todo = 0")
    case True
    then show ?thesis by (auto intro: exI [of _ "os_preads os"])
  next
    case False
    have "unat offset + cur < 2 ^ 63" using 1(5) by simp
    note off = off_t_small [OF this]
    from 1(3,4) off(1) show ?thesis
    proof (cases rule: sys_pread_clean [of os fd ino _ todo])
      case (eintr es)
      from 1(1) [OF False eintr(1) [symmetric] refl refl] 1(3,5) eintr
      show ?thesis using False by (simp add: read_loop_step [OF False eintr(1)])
    next
      case (data m es)
      let ?d = "bslice (unat offset + cur) m (i_data (os_inode os ino))"
      show ?thesis
      proof (cases "?d = []")
        case True
        with data(4) False have "length (i_data (os_inode os ino)) \<le> unat offset + cur"
          by (simp add: bslice_def)
        then have "bslice (unat offset + cur) todo (i_data (os_inode os ino)) = []"
          by (simp add: bslice_def)
        then show ?thesis
          using read_loop_step [OF False data(1)] True off(2) by auto
      next
        case ne: False
        let ?n = "length ?d"
        have n: "?n \<le> todo" using data(3) length_bslice_le [of _ m] le_trans by blast
        have "\<exists>es'. read_loop (os\<lparr>os_preads := es\<rparr>) fd offset (cur + ?n) (todo - ?n) =
          (Inr (bslice (unat offset + (cur + ?n)) (todo - ?n) (i_data (os_inode os ino))),
           os\<lparr>os_preads := es'\<rparr>)"
          using 1(2) [OF False data(1) [symmetric] refl] ne off(2) data(2) 1(3,5) n by simp
        moreover have "?d = bslice (unat offset + cur) ?n (i_data (os_inode os ino))"
          using bslice_short [of "unat offset + cur" m] by simp
        then have "bslice (unat offset + cur) todo (i_data (os_inode os ino)) =
            ?d @ bslice (unat offset + (cur + ?n)) (todo - ?n) (i_data (os_inode os ino))"
          using bslice_append [of "unat offset + cur" ?n "todo - ?n"] n by (simp add: add.assoc)
        ultimately show ?thesis
          using read_loop_step [OF False data(1)] ne off(2) by auto
      qed
    qed
  qed
qed

text \<open>Property C6. Reads are exact.  For an open descriptor and a range addressable by \<open>off_t\<close>, \<open>Read\<close> returns
  precisely the bytes of the file in that range, cut at the end of the file, whatever the lengths
  of the individual \<open>pread\<close> transfers and however often they are interrupted; the descriptor table
  and the files are unchanged.\<close>

theorem Read_exact:
  assumes "map_of (os_fds os) fd = Some ino" "preads_clean os"
    "unat offset + unat len < 2 ^ 63" "unat len \<le> os_alloc_max os"
  shows "\<exists>es. Read os fd offset len =
    (Inr (bslice (unat offset) (unat len) (i_data (os_inode os ino))), os\<lparr>os_preads := es\<rparr>)"
  using read_loop_range [of os fd ino offset 0 "unat len"] assms by (simp add: Read_def)

lemma Read_exact_witness:
  "\<exists>es. Read (sample_os\<lparr>os_fds := [(3, 0)]\<rparr>) 3 1 9 =
    (Inr [20, 30, 40, 50], sample_os\<lparr>os_fds := [(3, 0)], os_preads := es\<rparr>)"
  using Read_exact [of "sample_os\<lparr>os_fds := [(3, 0)]\<rparr>" 3 0 1 9]
  by (simp add: sample_os_def preads_clean_def bslice_def)

text \<open>Every outcome of a read: only the \<open>pread\<close> script advances, and no more than \<open>len\<close> bytes come back.\<close>

lemma sys_pread_frame:
  assumes "sys_pread os fd n off = (r, os')"
  shows "\<exists>es. os' = os\<lparr>os_preads := es\<rparr>" "r = Inr d \<Longrightarrow> length d \<le> n"
proof -
  have "os' = os\<lparr>os_preads := os_preads os'\<rparr>"
    using assms
    by (auto simp: sys_pread_def split: option.splits if_splits list.splits pread_event.splits)
  then show "\<exists>es. os' = os\<lparr>os_preads := es\<rparr>" by blast
  show "r = Inr d \<Longrightarrow> length d \<le> n"
    using assms by (auto simp: sys_pread_def split: option.splits if_splits list.splits
        pread_event.splits)
qed

lemma read_loop_frame:
  "read_loop os fd offset cur todo = (r, os') \<Longrightarrow>
   (\<exists>es. os' = os\<lparr>os_preads := es\<rparr>) \<and> (\<forall>d. r = Inr d \<longrightarrow> length d \<le> todo)"
proof (induction os fd offset cur todo arbitrary: r os' rule: read_loop.induct)
  case (1 os fd offset cur todo)
  show ?case
  proof (cases "todo = 0")
    case True
    with 1(3) show ?thesis by (auto intro: exI [of _ "os_preads os"])
  next
    case False
    obtain s os1 where sp: "sys_pread os fd todo (offset + of_nat cur) = (s, os1)" by fastforce
    note fr = sys_pread_frame [OF sp] and st = read_loop_step [OF False sp]
    show ?thesis
    proof (cases s)
      case (Inl e)
      then show ?thesis
        using 1(1) [OF False sp [symmetric] Inl] 1(3) st fr(1) by (cases e) auto
    next
      case (Inr d)
      show ?thesis
      proof (cases "d = []")
        case ne: False
        obtain r2 os2 where rl: "read_loop os1 fd offset (cur + length d) (todo - length d) = (r2, os2)"
          by fastforce
        with st ne Inr 1(3) have "r = map_sum id ((@) d) r2" "os' = os2" by simp_all
        with 1(2) [OF False sp [symmetric] Inr ne rl] fr Inr show ?thesis
          by (cases r2) auto
      qed (use 1(3) st fr(1) Inr in auto)
    qed
  qed
qed

lemma Read_frame:
  assumes "Read os fd offset len = (r, os')"
  shows "\<exists>es. os' = os\<lparr>os_preads := es\<rparr>" "r = Inr d \<Longrightarrow> length d \<le> unat len"
proof -
  show "\<exists>es. os' = os\<lparr>os_preads := es\<rparr>"
  proof (cases "os_alloc_max os < unat len")
    case True
    with assms have "os' = os\<lparr>os_preads := os_preads os\<rparr>" by (simp add: Read_def)
    then show ?thesis by blast
  next
    case False
    with assms have "read_loop os fd offset 0 (unat len) = (r, os')" by (simp add: Read_def)
    from read_loop_frame [OF this] show ?thesis by blast
  qed
  show "r = Inr d \<Longrightarrow> length d \<le> unat len"
    using assms by (auto simp: Read_def split: if_splits dest: read_loop_frame)
qed

text \<open>A descriptor that is not open, or an offset beyond \<open>off_t\<close>, is reported and changes nothing.\<close>

lemma Read_bad_fd:
  assumes "map_of (os_fds os) fd = None" "len \<noteq> 0" "unat len \<le> os_alloc_max os"
  shows "Read os fd offset len = (Inl ''pread failed: Bad file descriptor'', os)"
  using assms by (simp add: Read_def read_loop.simps sys_pread_def unat_eq_0)

lemma Read_negative_offset:
  assumes "map_of (os_fds os) fd = Some ino" "len \<noteq> 0" "unat len \<le> os_alloc_max os" "sint offset < 0"
  shows "Read os fd offset len = (Inl ''pread failed: Invalid argument'', os)"
  using assms by (simp add: Read_def read_loop.simps sys_pread_def unat_eq_0)

end
