(* ===== verification/Storage_Agent.thy ===== *)
theory Storage_Agent
  imports Framing Posix_Store
begin

text \<open>
  The storage agent (\<open>src/agent/storage_agent.h\<close>, \<open>storage_agent.cc\<close>): the server side of the framed
  protocol over the file store.

  The state is the table of open files with the next file identifier, the store's root and the
  operating system.  One definition per request type gives the response frame and the new state;
  \<open>HandleClient\<close> is the loop of a client thread over its connection, with the values that successive
  loads of \<open>running_\<close> return as an argument, and \<open>agent_stop\<close> the part of \<open>Stop\<close> that releases the files.
  Threads share only the file table, under \<open>files_mu_\<close>.  The abstract view of an agent is the map from
  identifiers to files; the lemmas show that requests act on it as open, read and close should, that
  identifiers are never reused, and that no descriptor is leaked or shared.
\<close>

section \<open>State\<close>

definition kReadRespFixedBytes :: nat where "kReadRespFixedBytes = 4 + 8 + 4 + 4"
definition kMaxReadPayloadSize :: nat where "kMaxReadPayloadSize = kMaxBodySize - kReadRespFixedBytes"

record agent =
  ag_root :: bytes
  ag_files :: "(u64 \<times> OpenedFile) list"
  ag_next_file_id :: u64
  ag_os :: os

definition StatusFromBool :: "bool \<Rightarrow> flume_status" where
  "StatusFromBool ok = (if ok then FLUME_OK else FLUME_ERR_REMOTE)"

text \<open>The response frame \<open>SendStatus\<close> writes.\<close>

definition SendStatus :: "u16 \<Rightarrow> u64 \<Rightarrow> flume_status \<Rightarrow> string \<Rightarrow> Frame" where
  "SendStatus t rid status msg =
    (let b = AppendU32 [] (status_u32 status);
         b = (if t = kOpenResp then AppendU64 (AppendU64 b 0) 0
              else if t = kReadResp then AppendU32 (AppendU64 b 0) 0
              else b)
     in \<lparr>f_type = t, request_id = rid, body = AppendString b (cstr msg)\<rparr>)"

section \<open>Requests\<close>

definition handle_hello :: "Frame \<Rightarrow> Frame" where
  "handle_hello f = \<lparr>f_type = kHelloAck, request_id = request_id f,
     body = AppendString (AppendU32 [] (status_u32 FLUME_OK)) (cstr ''mock,hccl-hcomm-planned'')\<rparr>"

definition parse_path :: "bytes \<Rightarrow> bytes option" where
  "parse_path b = (case ReadString (reader b) of
      (None, r) \<Rightarrow> None
    | (Some p, r) \<Rightarrow> if Done r then Some p else None)"

text \<open>\<open>std::map::emplace\<close> keeps an existing entry.\<close>

definition files_emplace :: "u64 \<Rightarrow> OpenedFile \<Rightarrow> (u64 \<times> OpenedFile) list \<Rightarrow> (u64 \<times> OpenedFile) list" where
  "files_emplace i f fs = (if map_of fs i = None then (i, f) # fs else fs)"

definition handle_open :: "agent \<Rightarrow> Frame \<Rightarrow> Frame \<times> agent" where
  "handle_open a f =
    (case parse_path (body f) of
       None \<Rightarrow> (SendStatus kOpenResp (request_id f) FLUME_ERR_PROTOCOL ''malformed OPEN_REQ'', a)
     | Some path \<Rightarrow>
         (case Open (ag_os a) (ag_root a) path of
            (Inr file, os') \<Rightarrow>
              let file_id = ag_next_file_id a;
                  b = AppendU32 [] (status_u32 (StatusFromBool True));
                  b = AppendU64 (AppendU64 b file_id) (of_size file);
                  b = AppendString b []
              in (\<lparr>f_type = kOpenResp, request_id = request_id f, body = b\<rparr>,
                  a\<lparr>ag_next_file_id := file_id + 1,
                    ag_files := files_emplace file_id file (ag_files a), ag_os := os'\<rparr>)
          | (Inl error, os') \<Rightarrow>
              let b = AppendU32 [] (status_u32 (StatusFromBool False));
                  b = AppendU64 (AppendU64 b 0) 0;
                  b = AppendString b (cstr error)
              in (\<lparr>f_type = kOpenResp, request_id = request_id f, body = b\<rparr>, a\<lparr>ag_os := os'\<rparr>)))"

definition parse_read :: "bytes \<Rightarrow> (u64 \<times> u64 \<times> u64) option" where
  "parse_read b =
    (case ReadU64 (reader b) of (None, r) \<Rightarrow> None | (Some file_id, r) \<Rightarrow>
     (case ReadU64 r of (None, r) \<Rightarrow> None | (Some offset, r) \<Rightarrow>
      (case ReadU64 r of (None, r) \<Rightarrow> None | (Some len, r) \<Rightarrow>
        if Done r then Some (file_id, offset, len) else None)))"

definition read_resp_body :: "(string + bytes) \<Rightarrow> bytes" where
  "read_resp_body r =
    (case r of
       Inr payload \<Rightarrow>
         let b = AppendU32 [] (status_u32 (StatusFromBool True));
             b = AppendU64 b (of_nat (length payload));
             b = AppendU32 b (Checksum32 payload);
             b = AppendString b []
         in AppendBytes b payload
     | Inl error \<Rightarrow>
         let b = AppendU32 [] (status_u32 (StatusFromBool False));
             b = AppendU64 b 0;
             b = AppendU32 b 0
         in AppendString b (cstr error))"

definition handle_read :: "agent \<Rightarrow> Frame \<Rightarrow> Frame \<times> agent" where
  "handle_read a f =
    (case parse_read (body f) of
       None \<Rightarrow> (SendStatus kReadResp (request_id f) FLUME_ERR_PROTOCOL ''malformed READ_REQ'', a)
     | Some (file_id, offset, len) \<Rightarrow>
         if kMaxReadPayloadSize < unat len then
           (SendStatus kReadResp (request_id f) FLUME_ERR_INVALID_ARGUMENT
              ''READ_REQ length exceeds maximum response payload'', a)
         else (case map_of (ag_files a) file_id of
             None \<Rightarrow> (SendStatus kReadResp (request_id f) FLUME_ERR_REMOTE ''unknown file id'', a)
           | Some file \<Rightarrow>
               (case sys_dup (ag_os a) (of_fd file) of
                  (Inl e, os1) \<Rightarrow>
                    (SendStatus kReadResp (request_id f) FLUME_ERR_IO (''dup failed: '' @ e),
                     a\<lparr>ag_os := os1\<rparr>)
                | (Inr file_fd, os1) \<Rightarrow>
                    (case Read os1 file_fd offset len of
                       (r, os2) \<Rightarrow>
                         (\<lparr>f_type = kReadResp, request_id = request_id f, body = read_resp_body r\<rparr>,
                          a\<lparr>ag_os := Close os2 (int file_fd)\<rparr>)))))"

definition parse_close :: "bytes \<Rightarrow> u64 option" where
  "parse_close b = (case ReadU64 (reader b) of
      (None, r) \<Rightarrow> None
    | (Some i, r) \<Rightarrow> if Done r then Some i else None)"

definition handle_close :: "agent \<Rightarrow> Frame \<Rightarrow> Frame \<times> agent" where
  "handle_close a f =
    (case parse_close (body f) of
       None \<Rightarrow> (SendStatus kCloseResp (request_id f) FLUME_ERR_PROTOCOL ''malformed CLOSE_REQ'', a)
     | Some file_id \<Rightarrow>
         (SendStatus kCloseResp (request_id f) FLUME_OK [],
          case map_of (ag_files a) file_id of
            None \<Rightarrow> a
          | Some file \<Rightarrow>
              a\<lparr>ag_os := Close (ag_os a) (int (of_fd file)),
                ag_files := filter (\<lambda>p. fst p \<noteq> file_id) (ag_files a)\<rparr>))"

definition handle_request :: "agent \<Rightarrow> Frame \<Rightarrow> Frame \<times> agent" where
  "handle_request a f =
    (if f_type f = kHello then (handle_hello f, a)
     else if f_type f = kOpenReq then handle_open a f
     else if f_type f = kReadReq then handle_read a f
     else if f_type f = kCloseReq then handle_close a f
     else (SendStatus kError (request_id f) FLUME_ERR_PROTOCOL ''unknown frame type'', a))"

section \<open>The client loop and shutdown\<close>

lemma ReadFrame_consumes:
  assumes "ReadFrame es = (Inr f, es')"
  shows "length (rx_stream es') < length (rx_stream es)"
proof -
  from assms obtain h es1 where h: "ReadAll es kHeaderSize = (Inr h, es1)"
    and b: "ReadAll es1 (unat (LoadU32 (drop 20 h))) = (Inr (body f), es')"
    by (rule ReadFrame_inv)
  have "kHeaderSize \<le> length (rx_stream es)" using fr.read_ok_iff h by blast
  then show ?thesis
    using fr.read_two [OF h b] by (simp add: kHeaderSize_def)
qed

lemma WriteFrame_rx: "WriteFrame c f = (r, c') \<Longrightarrow> c_rx c' = c_rx c"
  by (auto simp: WriteFrame_def split: if_splits prod.splits option.splits dest!: fw.frame)

function HandleClient :: "bool list \<Rightarrow> agent \<Rightarrow> conn \<Rightarrow> agent \<times> conn" where
  "HandleClient polls a c =
    (if polls \<noteq> [] \<and> \<not> hd polls then (a, c)
     else case ReadFrame (c_rx c) of
       (Inl e, es) \<Rightarrow> (a, c\<lparr>c_rx := es\<rparr>)
     | (Inr f, es) \<Rightarrow>
         (case handle_request a f of
            (resp, a') \<Rightarrow>
              (case WriteFrame (c\<lparr>c_rx := es\<rparr>) resp of
                 (Some e, c') \<Rightarrow> (a', c')
               | (None, c') \<Rightarrow> HandleClient (tl polls) a' c')))"
  by pat_completeness auto
termination
  by (relation "measure (\<lambda>(polls, a, c). length (rx_stream (c_rx c)))")
    (auto dest!: WriteFrame_rx [OF sym] ReadFrame_consumes [OF sym])

declare HandleClient.simps [simp del]

text \<open>The tail of \<open>Stop\<close>, after the threads have been joined: every remaining file is closed.\<close>

definition agent_stop :: "agent \<Rightarrow> agent" where
  "agent_stop a = a\<lparr>ag_os := fold (\<lambda>p os. Close os (int (of_fd (snd p)))) (ag_files a) (ag_os a),
     ag_files := []\<rparr>"

section \<open>Sessions\<close>

text \<open>What an agent answers to a sequence of requests, as the successive applications of
  \<open>handle_request\<close>.\<close>

fun serve :: "agent \<Rightarrow> Frame list \<Rightarrow> Frame list \<times> agent" where
  "serve a [] = ([], a)"
| "serve a (f # fs) =
    (let (resp, a') = handle_request a f; (rs, a'') = serve a' fs in (resp # rs, a''))"

definition encode_frame :: "Frame \<Rightarrow> bytes" where
  "encode_frame f = frame_header f @ body f"

definition frame_ok :: "Frame \<Rightarrow> bool" where
  "frame_ok f \<longleftrightarrow> length (body f) \<le> kMaxBodySize"

lemma HandleClient_end:
  assumes "rx_stream (c_rx c) = []"
  shows "\<exists>es. HandleClient [] a c = (a, c\<lparr>c_rx := es\<rparr>)"
proof -
  obtain e es where "ReadAll (c_rx c) kHeaderSize = (Inl e, es)"
    using fr.short [of "c_rx c" kHeaderSize] assms by (auto simp: kHeaderSize_def)
  then have "HandleClient [] a c = (a, c\<lparr>c_rx := es\<rparr>)"
    by (simp add: HandleClient.simps ReadFrame_def)
  then show ?thesis by blast
qed

section \<open>Invariant and abstract view\<close>

definition agent_inv :: "agent \<Rightarrow> bool" where
  "agent_inv a \<longleftrightarrow> fds_ok (ag_os a) \<and> distinct (map fst (ag_files a)) \<and>
     distinct (map (of_fd \<circ> snd) (ag_files a)) \<and>
     (\<forall>p \<in> set (ag_files a). of_fd (snd p) \<in> fst ` set (os_fds (ag_os a)) \<and>
        fst p < ag_next_file_id a \<and> 0 < fst p) \<and>
     0 < ag_next_file_id a"

text \<open>The abstract view: which inode each identifier stands for.\<close>

definition agent_view :: "agent \<Rightarrow> u64 \<rightharpoonup> nat" where
  "agent_view a i = (case map_of (ag_files a) i of
      None \<Rightarrow> None
    | Some f \<Rightarrow> map_of (os_fds (ag_os a)) (of_fd f))"

text \<open>
  The file service that an agent promises, per request and reply, over the file system \<open>os\<close> and the
  root \<open>sroot\<close>.  A state is the map from identifiers to files and the next identifier.  The reply to an
  open names the file at the path, and the state binds the next identifier to it; a read returns the
  bytes of the file that its identifier stands for; a close forgets the identifier it names and no
  other; nothing else changes the state.  A refusal has a reason: the conditions under which an open
  or a read succeeds are \<open>openable\<close> and \<open>readable\<close>.
\<close>

definition openable :: "os \<Rightarrow> bytes \<Rightarrow> bytes \<Rightarrow> nat \<Rightarrow> bool" where
  "openable os sroot p ino \<longleftrightarrow> length (os_fds os) < os_max_fds os \<and>
     (\<exists>full. ResolvePath os sroot p = Inr full \<and> full \<noteq> [] \<and> os_lookup os full = Inr ino) \<and>
     i_fstat_error (os_inode os ino) = None \<and> i_regular (os_inode os ino)"

definition path_body :: "bytes \<Rightarrow> bytes \<Rightarrow> bool" where
  "path_body b p \<longleftrightarrow> b = be32 (of_nat (length p)) @ p \<and> length p < 2 ^ 32"

definition readable :: "os \<Rightarrow> (u64 \<rightharpoonup> nat) \<Rightarrow> bytes \<Rightarrow> bool" where
  "readable os m b \<longleftrightarrow> (\<exists>i off len. b = be64 i @ be64 off @ be64 len \<and> m i \<noteq> None \<and>
     unat len \<le> kMaxReadPayloadSize \<and> unat off + unat len < 2 ^ 63 \<and> preads_clean os \<and>
     unat len \<le> os_alloc_max os \<and> length (os_fds os) < os_max_fds os)"

definition reply :: "u16 \<Rightarrow> Frame \<Rightarrow> bytes \<Rightarrow> Frame" where
  "reply t f b = \<lparr>f_type = t, request_id = request_id f, body = b\<rparr>"

inductive file_service ::
  "os \<Rightarrow> bytes \<Rightarrow> Frame \<Rightarrow> Frame \<Rightarrow> (u64 \<rightharpoonup> nat) \<times> u64 \<Rightarrow> (u64 \<rightharpoonup> nat) \<times> u64 \<Rightarrow> bool"
  for os sroot f where
  greeted: "f_type f = kHello \<Longrightarrow>
    file_service os sroot f (reply kHelloAck f (be32 0 @ be32 (of_nat (length e)) @ e)) s s"
| opened: "f_type f = kOpenReq \<Longrightarrow> path_body (body f) p \<Longrightarrow> openable os sroot p ino \<Longrightarrow> m i = None \<Longrightarrow>
    file_service os sroot f
      (reply kOpenResp f (be32 0 @ be64 i @ be64 (of_nat (length (i_data (os_inode os ino)))) @ be32 0))
      (m, i) (m(i \<mapsto> ino), i + 1)"
| open_refused: "f_type f = kOpenReq \<Longrightarrow> \<nexists>p ino. path_body (body f) p \<and> openable os sroot p ino \<Longrightarrow>
    st \<noteq> 0 \<Longrightarrow>
    file_service os sroot f
      (reply kOpenResp f (be32 st @ be64 0 @ be64 0 @ be32 (of_nat (length e)) @ e)) s s"
| bytes_read: "f_type f = kReadReq \<Longrightarrow> body f = be64 i @ be64 off @ be64 len \<Longrightarrow> m i = Some ino \<Longrightarrow>
    unat len \<le> kMaxReadPayloadSize \<Longrightarrow> d = bslice (unat off) (unat len) (i_data (os_inode os ino)) \<Longrightarrow>
    file_service os sroot f
      (reply kReadResp f (be32 0 @ be64 (of_nat (length d)) @ be32 (Checksum32 d) @ be32 0 @ d)) (m, n) (m, n)"
| read_refused: "f_type f = kReadReq \<Longrightarrow> \<not> readable os m (body f) \<Longrightarrow> st \<noteq> 0 \<Longrightarrow>
    file_service os sroot f
      (reply kReadResp f (be32 st @ be64 0 @ be32 0 @ be32 (of_nat (length e)) @ e)) (m, n) (m, n)"
| closed: "f_type f = kCloseReq \<Longrightarrow> body f = be64 i \<Longrightarrow>
    file_service os sroot f (reply kCloseResp f (be32 0 @ be32 0)) (m, n) (m(i := None), n)"
| close_refused: "f_type f = kCloseReq \<Longrightarrow> length (body f) \<noteq> 8 \<Longrightarrow> st \<noteq> 0 \<Longrightarrow>
    file_service os sroot f (reply kCloseResp f (be32 st @ be32 (of_nat (length e)) @ e)) s s"
| unknown: "f_type f \<notin> {kHello, kOpenReq, kReadReq, kCloseReq} \<Longrightarrow> st \<noteq> 0 \<Longrightarrow>
    file_service os sroot f (reply kError f (be32 st @ be32 (of_nat (length e)) @ e)) s s"

lemma os_preads_same_fds [simp]: "os_fds (os\<lparr>os_preads := es\<rparr>) = os_fds os"
  by simp

text \<open>Duplicating, reading and closing leaves the descriptor table as it was.\<close>

lemma dup_read_close:
  assumes "sys_dup os fd = (Inr fd', os1)" "Read os1 fd' offset len = (r, os2)"
  shows "\<exists>es. Close os2 (int fd') = os\<lparr>os_preads := es\<rparr>"
proof -
  obtain ino where "fd_alloc os ino = (Inr fd', os1)"
    using assms(1) by (auto simp: sys_dup_def split: option.splits)
  then have fresh: "fd' \<notin> fst ` set (os_fds os)" "os1 = os\<lparr>os_fds := (fd', ino) # os_fds os\<rparr>"
    using fd_alloc_cases by fastforce+
  obtain es where "os2 = os1\<lparr>os_preads := es\<rparr>" using Read_frame(1) [OF assms(2)] by blast
  with fresh have "os2 = (os\<lparr>os_preads := es\<rparr>)\<lparr>os_fds := (fd', ino) # os_fds (os\<lparr>os_preads := es\<rparr>)\<rparr>"
    by simp
  then have "sys_close os2 fd' = os\<lparr>os_preads := es\<rparr>"
    using sys_close_fresh [of fd' "os\<lparr>os_preads := es\<rparr>" ino] fresh(1) by simp
  then show ?thesis by (auto simp: Close_def)
qed

lemma sys_dup_fail: "sys_dup os fd = (Inl e, os1) \<Longrightarrow> os1 = os"
  by (auto simp: sys_dup_def split: option.splits dest: fd_alloc_cases)

lemma handle_read_state:
  assumes "handle_read a f = (resp, a')"
  shows "\<exists>es. a' = a\<lparr>ag_os := ag_os a\<lparr>os_preads := es\<rparr>\<rparr>"
proof -
  have "a = a\<lparr>ag_os := ag_os a\<lparr>os_preads := os_preads (ag_os a)\<rparr>\<rparr>" by simp
  moreover have "a' = a \<or> (\<exists>es. a' = a\<lparr>ag_os := ag_os a\<lparr>os_preads := es\<rparr>\<rparr>)"
    using assms unfolding handle_read_def
    by (auto split: option.splits prod.splits if_splits sum.splits dest: sys_dup_fail
        dest!: dup_read_close)
  ultimately show ?thesis by blast
qed

lemma agent_view_preads [simp]:
  "agent_view (a\<lparr>ag_os := ag_os a\<lparr>os_preads := es\<rparr>\<rparr>) = agent_view a"
  by (rule ext) (simp add: agent_view_def split: option.split)

lemma agent_inv_preads [simp]:
  "agent_inv (a\<lparr>ag_os := ag_os a\<lparr>os_preads := es\<rparr>\<rparr>) = agent_inv a"
  by (simp add: agent_inv_def fds_ok_def)

lemma agent_inv_live:
  "agent_inv a \<Longrightarrow> (i, f) \<in> set (ag_files a) \<Longrightarrow> of_fd f \<in> fst ` set (os_fds (ag_os a))"
  unfolding agent_inv_def by (metis snd_conv)

lemma agent_inv_unused:
  "agent_inv a \<Longrightarrow> map_of (ag_files a) (ag_next_file_id a) = None"
  by (auto simp: agent_inv_def map_of_eq_None_iff)

lemma agent_inv_opened:
  fixes a :: agent and "file" :: OpenedFile and ino :: nat
  assumes "agent_inv a" "ag_next_file_id a \<noteq> - 1" "of_fd file \<notin> fst ` set (os_fds (ag_os a))"
  defines "a' \<equiv> a\<lparr>ag_next_file_id := ag_next_file_id a + 1,
      ag_files := files_emplace (ag_next_file_id a) file (ag_files a),
      ag_os := ag_os a\<lparr>os_fds := (of_fd file, ino) # os_fds (ag_os a)\<rparr>\<rparr>"
  shows "agent_inv a'" "agent_view a' = (agent_view a)(ag_next_file_id a \<mapsto> ino)"
proof -
  let ?n = "ag_next_file_id a"
  have lt: "?n < ?n + 1" using assms(2) by (rule word_less_succ)
  have files: "ag_files a' = (?n, file) # ag_files a"
    using agent_inv_unused [OF assms(1)] by (simp add: a'_def files_emplace_def)
  have nin: "?n \<notin> fst ` set (ag_files a)"
    using agent_inv_unused [OF assms(1)] by (simp add: map_of_eq_None_iff)
  have "of_fd f \<noteq> of_fd file" if "(i, f) \<in> set (ag_files a)" for i f
    using agent_inv_live [OF assms(1) that] assms(3) by metis
  note other = this
  show "agent_view a' = (agent_view a)(?n \<mapsto> ino)"
  proof (rule ext)
    fix i
    show "agent_view a' i = ((agent_view a)(?n \<mapsto> ino)) i"
      using files other by (auto simp: agent_view_def a'_def split: option.splits dest: map_of_SomeD)
  qed
  show "agent_inv a'"
    unfolding agent_inv_def files
    using assms(1,3) nin other lt
    by (fastforce simp: agent_inv_def a'_def fds_ok_fresh image_iff)
qed

lemma agent_inv_closed:
  fixes a :: agent and i :: u64 and g :: OpenedFile
  assumes "agent_inv a" "map_of (ag_files a) i = Some g"
  defines "a' \<equiv> a\<lparr>ag_os := Close (ag_os a) (int (of_fd g)),
      ag_files := filter (\<lambda>p. fst p \<noteq> i) (ag_files a)\<rparr>"
  shows "agent_inv a'" "agent_view a' = (agent_view a)(i := None)"
proof -
  have ig: "(i, g) \<in> set (ag_files a)" using assms(2) by (rule map_of_SomeD)
  have inj: "inj_on (of_fd \<circ> snd) (set (ag_files a))"
    using assms(1) by (simp add: agent_inv_def distinct_map)
  have other: "of_fd g \<noteq> of_fd f" if "(j, f) \<in> set (ag_files a)" "j \<noteq> i" for j f
    using inj_onD [OF inj _ that(1) ig] that(2) by auto
  have files: "ag_files a' = filter (\<lambda>p. fst p \<noteq> i) (ag_files a)" by (simp add: a'_def)
  have os: "ag_os a' = sys_close (ag_os a) (of_fd g)" by (simp add: a'_def Close_def)
  have map: "map_of (ag_files a') j = (if j = i then None else map_of (ag_files a) j)" for j
    unfolding files by (auto simp: map_of_filter_fst map_of_eq_None_iff)
  show "agent_view a' = (agent_view a)(i := None)"
  proof (rule ext)
    fix j
    show "agent_view a' j = ((agent_view a)(i := None)) j"
      using other sys_close_other [of "of_fd g" _ "ag_os a"]
      by (auto simp: agent_view_def map os split: option.splits dest!: map_of_SomeD)
  qed
  have "of_fd f \<in> fst ` set (os_fds (ag_os a'))" if "(j, f) \<in> set (ag_files a')" for j f
  proof -
    have "(j, f) \<in> set (ag_files a)" "j \<noteq> i" using that by (auto simp: files)
    moreover from this have "of_fd f \<in> fst ` set (os_fds (ag_os a))"
      using agent_inv_live [OF assms(1)] by blast
    ultimately show ?thesis using other unfolding os sys_close_def by force
  qed
  then show "agent_inv a'"
    using assms(1) unfolding agent_inv_def os files
    by (fastforce simp: fds_ok_close distinct_map_filter a'_def)
qed

lemma handle_open_cases:
  assumes "handle_open a f = (resp, a')"
  shows "a' = a \<or> (\<exists>file ino. of_fd file \<notin> fst ` set (os_fds (ag_os a)) \<and>
    a' = a\<lparr>ag_next_file_id := ag_next_file_id a + 1,
      ag_files := files_emplace (ag_next_file_id a) file (ag_files a),
      ag_os := ag_os a\<lparr>os_fds := (of_fd file, ino) # os_fds (ag_os a)\<rparr>\<rparr>)"
proof (cases "parse_path (body f)")
  case (Some path)
  obtain r os' where op: "Open (ag_os a) (ag_root a) path = (r, os')" by fastforce
  from Open_outcomes [OF op] assms Some op show ?thesis
    by (cases r) (auto simp: handle_open_def Let_def)
qed (use assms in \<open>simp add: handle_open_def\<close>)

lemma handle_request_cases:
  assumes "handle_request a f = (resp, a')"
  obtains "a' = a" | "handle_open a f = (resp, a')" | "handle_read a f = (resp, a')"
    | "handle_close a f = (resp, a')"
  using assms by (auto simp: handle_request_def split: if_splits)

text \<open>What the parsers of the request bodies accept.\<close>

lemma parse_close_iff: "parse_close b = Some i \<longleftrightarrow> b = be64 i"
proof
  assume "parse_close b = Some i"
  then obtain r where r: "ReadU64 (reader b) = (Some i, r)" "Done r"
    by (auto simp: parse_close_def split: prod.splits option.splits if_splits)
  then show "b = be64 i" using Reader_sound [of "reader b"] by (simp add: Done_unread)
next
  assume "b = be64 i"
  then obtain r where "ReadU64 (reader b) = (Some i, r)" "unread r = []" "reader_inv r"
    using ReadU64_be [of "reader b" i "[]"] by auto
  then show "parse_close b = Some i" by (simp add: parse_close_def Done_unread)
qed

lemma parse_path_iff: "parse_path b = Some p \<longleftrightarrow> path_body b p"
proof
  assume "parse_path b = Some p"
  then obtain r where r: "ReadString (reader b) = (Some p, r)" "Done r"
    by (auto simp: parse_path_def split: prod.splits option.splits if_splits)
  then have "length p \<le> unat (LoadU32 b)"
    by (auto simp: ReadString_unread Let_def split: if_splits)
  also have "\<dots> < 2 ^ 32" using unsigned_less [of "LoadU32 b", where 'a = nat] by simp
  finally show "path_body b p"
    using Reader_sound [of "reader b"] r by (simp add: path_body_def Done_unread)
next
  assume "path_body b p"
  then obtain r where "ReadString (reader b) = (Some p, r)" "unread r = []" "reader_inv r"
    using ReadString_be [of "reader b" p "[]"] by (auto simp: path_body_def)
  then show "parse_path b = Some p" by (simp add: parse_path_def Done_unread)
qed

lemma parse_read_be:
  "parse_read (be64 i @ be64 off @ be64 len) = Some (i, off, len)"
proof -
  obtain r1 where r1: "ReadU64 (reader (be64 i @ be64 off @ be64 len)) = (Some i, r1)"
    "unread r1 = be64 off @ be64 len" "reader_inv r1"
    using ReadU64_be [of "reader (be64 i @ be64 off @ be64 len)" i "be64 off @ be64 len"] by auto
  obtain r2 where r2: "ReadU64 r1 = (Some off, r2)" "unread r2 = be64 len @ []" "reader_inv r2"
    using ReadU64_be [OF r1(2,3)] by auto
  obtain r3 where "ReadU64 r2 = (Some len, r3)" "unread r3 = []" "reader_inv r3"
    using ReadU64_be [OF r2(2,3)] by auto
  with r1 r2 show ?thesis by (simp add: parse_read_def Done_unread)
qed

lemma parse_read_iff: "parse_read b = Some (i, off, len) \<longleftrightarrow> b = be64 i @ be64 off @ be64 len"
proof
  assume "parse_read b = Some (i, off, len)"
  then obtain r1 r2 r3 where r: "ReadU64 (reader b) = (Some i, r1)" "ReadU64 r1 = (Some off, r2)"
    "ReadU64 r2 = (Some len, r3)" "Done r3"
    by (auto simp: parse_read_def split: prod.splits option.splits if_splits)
  have "b = be64 i @ unread r1" "reader_inv r1" using Reader_sound [of "reader b"] r(1) by simp_all
  moreover from this(2) have "unread r1 = be64 off @ unread r2" "reader_inv r2"
    using Reader_sound [of r1] r(2) by simp_all
  moreover from this(2) have "unread r2 = be64 len @ unread r3" "reader_inv r3"
    using Reader_sound [of r2] r(3) by simp_all
  ultimately show "b = be64 i @ be64 off @ be64 len" using r(4) by (simp add: Done_unread)
qed (simp add: parse_read_be)

text \<open>When \<open>Open\<close> succeeds.\<close>

lemma Open_openable:
  "(\<exists>g os'. Open os sroot p = (Inr g, os')) \<longleftrightarrow> (\<exists>ino. openable os sroot p ino)"
proof (cases "ResolvePath os sroot p")
  case (Inr full)
  show ?thesis
  proof (cases "full = []")
    case ne: False
    show ?thesis
    proof (cases "os_lookup os full")
      case (Inr ino)
      with \<open>ResolvePath os sroot p = Inr full\<close> ne show ?thesis
        by (auto simp: Open_def openable_def sys_open_def fd_alloc_def Let_def not_le split: option.splits)
    qed (use \<open>ResolvePath os sroot p = Inr full\<close> ne in \<open>auto simp: Open_def openable_def sys_open_def\<close>)
  qed (use Inr in \<open>auto simp: Open_def openable_def\<close>)
qed (auto simp: Open_def openable_def)

text \<open>A read that succeeds returned the bytes of the range, however the transfers went.\<close>

lemma sys_pread_data:
  assumes "sys_pread os fd n off = (Inr d, os')" "map_of (os_fds os) fd = Some ino" "0 < n"
  shows "\<exists>m. d = bslice (unat off) m (i_data (os_inode os ino)) \<and> m \<le> n \<and> 0 < m \<and> \<not> sint off < 0 \<and>
    os_inode os' = os_inode os \<and> os_fds os' = os_fds os"
proof (cases "os_preads os")
  case Nil
  then show ?thesis using assms by (auto simp: sys_pread_def split: if_splits intro!: exI [of _ n])
next
  case (Cons e es)
  then show ?thesis
    using assms by (cases e) (auto simp: sys_pread_def split: if_splits intro!: exI [of _ "min n (Suc k)" for k])
qed

lemma off_t_nonnegative:
  assumes "\<not> sint (x :: u64) < 0"
  shows "unat x < 2 ^ 63"
proof -
  have "\<not> bit (uint x) 63" using assms by (simp add: sint_uint)
  then have "even (uint x div 2 ^ 63)" by (simp add: bit_iff_odd)
  moreover have "uint x div 2 ^ 63 < 2" using unsigned_less [of x, where 'a = int] by simp
  moreover have "0 \<le> uint x div 2 ^ 63" by (simp add: pos_imp_zdiv_nonneg_iff)
  moreover have "q = 0" if "even q" "q < 2" "0 \<le> q" for q :: int using that by presburger
  ultimately have "uint x div 2 ^ 63 = 0" by blast
  then have "uint x < 2 ^ 63" using pos_imp_zdiv_pos_iff [of "2 ^ 63" "uint x"] by simp
  then have "int (unat x) < int (2 ^ 63)" by simp
  then show ?thesis by (simp only: of_nat_less_iff)
qed

lemma read_loop_data:
  "read_loop os fd offset cur todo = (Inr d, os') \<Longrightarrow> map_of (os_fds os) fd = Some ino \<Longrightarrow>
   unat offset + cur < 2 ^ 64 \<Longrightarrow> todo \<le> 2 ^ 62 \<Longrightarrow>
   d = bslice (unat offset + cur) todo (i_data (os_inode os ino))"
proof (induction os fd offset cur todo arbitrary: d os' rule: read_loop.induct)
  case (1 os fd offset cur todo)
  show ?case
  proof (cases "todo = 0")
    case False
    obtain r os1 where sp: "sys_pread os fd todo (offset + of_nat cur) = (r, os1)" by fastforce
    note st = read_loop_step [OF False sp]
    obtain es where os1: "os1 = os\<lparr>os_preads := es\<rparr>" using sys_pread_frame(1) [OF sp] by blast
    have off: "unat (offset + of_nat cur) = unat offset + cur"
      using 1(5) by (simp add: unat_word_ariths unat_of_nat)
    show ?thesis
    proof (cases r)
      case (Inl e)
      then show ?thesis
        using 1(1) [OF False sp [symmetric] Inl] 1(3-6) st os1 by (cases e) auto
    next
      case (Inr x)
      with sp False 1(4) obtain m where m: "x = bslice (unat offset + cur) m (i_data (os_inode os ino))"
        "m \<le> todo" "0 < m" "\<not> sint (offset + of_nat cur) < 0"
        using sys_pread_data [of os fd todo "offset + of_nat cur" x os1 ino] off by auto
      show ?thesis
      proof (cases "x = []")
        case True
        with m(1,3) have "length (i_data (os_inode os ino)) \<le> unat offset + cur" by (simp add: bslice_def)
        with True st Inr 1(3) show ?thesis by (simp add: bslice_def)
      next
        case ne: False
        let ?n = "length x"
        have n: "?n \<le> todo" using m(1,2) length_bslice_le [of _ m] le_trans by blast
        obtain y where y: "read_loop os1 fd offset (cur + ?n) (todo - ?n) = (Inr y, os')" "d = x @ y"
          using st Inr ne 1(3)
          by (cases "read_loop os1 fd offset (cur + ?n) (todo - ?n)"; cases "fst (read_loop os1 fd offset (cur + ?n) (todo - ?n))") auto
        have "unat offset + (cur + ?n) < 2 ^ 64"
          using off_t_nonnegative [OF m(4)] off n 1(6) by simp
        from 1(2) [OF False sp [symmetric] Inr ne y(1) _ this] 1(4,6) os1
        have "y = bslice (unat offset + (cur + ?n)) (todo - ?n) (i_data (os_inode os ino))" by simp
        moreover have "x = bslice (unat offset + cur) ?n (i_data (os_inode os ino))"
          using bslice_short [of "unat offset + cur" m] m(1) by simp
        moreover have "bslice (unat offset + cur) todo (i_data (os_inode os ino)) =
            bslice (unat offset + cur) ?n (i_data (os_inode os ino)) @
            bslice (unat offset + (cur + ?n)) (todo - ?n) (i_data (os_inode os ino))"
          using bslice_append [of "unat offset + cur" ?n "todo - ?n"] n by (simp add: add.assoc)
        ultimately show ?thesis using y(2) by metis
      qed
    qed
  qed (use 1(3) in \<open>simp add: bslice_def\<close>)
qed

lemma Read_data:
  assumes "Read os fd off len = (Inr d, os')" "map_of (os_fds os) fd = Some ino"
    "unat len \<le> kMaxReadPayloadSize"
  shows "d = bslice (unat off) (unat len) (i_data (os_inode os ino))"
proof -
  have "unat off + 0 < 2 ^ 64" using unsigned_less [of off, where 'a = nat] by simp
  moreover have "unat len \<le> 2 ^ 62"
    using assms(3) by (simp add: kMaxReadPayloadSize_def kMaxBodySize_def kReadRespFixedBytes_def)
  ultimately show ?thesis
    using read_loop_data [of os fd off 0 "unat len" d os' ino] assms(1,2)
    by (simp add: Read_def split: if_splits)
qed

text \<open>Each request in turn; the replies are spelled out as bytes.\<close>

lemma status_u32_zero [simp]: "status_u32 FLUME_OK = 0" "status_u32 st = 0 \<longleftrightarrow> st = FLUME_OK"
  by (simp_all add: status_u32_def) (cases st; simp)

lemma SendStatus_reply:
  "SendStatus kOpenResp (request_id f) st msg =
     reply kOpenResp f (be32 (status_u32 st) @ be64 0 @ be64 0 @ be32 (of_nat (length (cstr msg))) @ cstr msg)"
  "SendStatus kReadResp (request_id f) st msg =
     reply kReadResp f (be32 (status_u32 st) @ be64 0 @ be32 0 @ be32 (of_nat (length (cstr msg))) @ cstr msg)"
  "SendStatus kCloseResp (request_id f) st msg =
     reply kCloseResp f (be32 (status_u32 st) @ be32 (of_nat (length (cstr msg))) @ cstr msg)"
  "SendStatus kError (request_id f) st msg =
     reply kError f (be32 (status_u32 st) @ be32 (of_nat (length (cstr msg))) @ cstr msg)"
  by (simp_all add: SendStatus_def reply_def Let_def Append_be AppendString_be frame_type_defs)

lemma open_reply:
  "\<lparr>f_type = kOpenResp, request_id = request_id f,
     body = AppendString (AppendU64 (AppendU64 (AppendU32 [] st) i) n) e\<rparr> =
   reply kOpenResp f (be32 st @ be64 i @ be64 n @ be32 (of_nat (length e)) @ e)"
  by (simp add: reply_def Append_be AppendString_be)

lemma read_reply:
  "\<lparr>f_type = kReadResp, request_id = request_id f, body = read_resp_body (Inr d)\<rparr> =
   reply kReadResp f (be32 0 @ be64 (of_nat (length d)) @ be32 (Checksum32 d) @ be32 0 @ d)"
  "\<lparr>f_type = kReadResp, request_id = request_id f, body = read_resp_body (Inl e)\<rparr> =
   reply kReadResp f (be32 (status_u32 FLUME_ERR_REMOTE) @ be64 0 @ be32 0 @ be32 (of_nat (length (cstr e))) @ cstr e)"
  by (simp_all add: reply_def read_resp_body_def StatusFromBool_def Append_be AppendString_be AppendBytes_def Let_def)

lemma handle_open_service:
  assumes "agent_inv a" "ag_next_file_id a \<noteq> - 1" "f_type f = kOpenReq" "handle_open a f = (resp, a')"
  shows "file_service (ag_os a) (ag_root a) f resp
    (agent_view a, ag_next_file_id a) (agent_view a', ag_next_file_id a')"
proof (cases "\<exists>p ino. path_body (body f) p \<and> openable (ag_os a) (ag_root a) p ino")
  case True
  then obtain p ino where p: "parse_path (body f) = Some p" "openable (ag_os a) (ag_root a) p ino"
    by (auto simp: parse_path_iff)
  then obtain g os' where g: "Open (ag_os a) (ag_root a) p = (Inr g, os')" using Open_openable by blast
  with Open_outcomes [OF g] p(2) have o: "of_size g = of_nat (length (i_data (os_inode (ag_os a) ino)))"
    "of_fd g \<notin> fst ` set (os_fds (ag_os a))" "os' = ag_os a\<lparr>os_fds := (of_fd g, ino) # os_fds (ag_os a)\<rparr>"
    by (auto simp: openable_def)
  have "agent_view a (ag_next_file_id a) = None"
    using agent_inv_unused [OF assms(1)] by (simp add: agent_view_def)
  with file_service.opened [of f p "ag_os a" "ag_root a" ino "agent_view a" "ag_next_file_id a"] assms(3) p
  have "file_service (ag_os a) (ag_root a) f
      (reply kOpenResp f (be32 0 @ be64 (ag_next_file_id a) @ be64 (of_size g) @ be32 0))
      (agent_view a, ag_next_file_id a) ((agent_view a)(ag_next_file_id a \<mapsto> ino), ag_next_file_id a + 1)"
    by (simp add: parse_path_iff o(1))
  moreover have "resp = reply kOpenResp f (be32 0 @ be64 (ag_next_file_id a) @ be64 (of_size g) @ be32 0)"
    using assms(4) p(1) g by (auto simp: handle_open_def Let_def open_reply StatusFromBool_def)
  moreover have "a' = a\<lparr>ag_next_file_id := ag_next_file_id a + 1,
      ag_files := files_emplace (ag_next_file_id a) g (ag_files a), ag_os := os'\<rparr>"
    using assms(4) p(1) g by (auto simp: handle_open_def Let_def)
  ultimately show ?thesis using agent_inv_opened(2) [OF assms(1,2) o(2), of ino] o(3) by simp
next
  case False
  note refuse = file_service.open_refused [OF assms(3) False]
  show ?thesis
  proof (cases "parse_path (body f)")
    case None
    with assms(4) have "a' = a" "resp = SendStatus kOpenResp (request_id f) FLUME_ERR_PROTOCOL ''malformed OPEN_REQ''"
      by (simp_all add: handle_open_def)
    then show ?thesis by (simp only: SendStatus_reply) (rule refuse, simp)
  next
    case (Some p)
    with False have "\<nexists>ino. openable (ag_os a) (ag_root a) p ino" by (auto simp: parse_path_iff)
    with Open_openable obtain e os' where e: "Open (ag_os a) (ag_root a) p = (Inl e, os')"
      by (metis obj_sumE surj_pair)
    with Open_outcomes [OF e] have "os' = ag_os a" by simp
    with assms(4) Some e have "a' = a" "resp = reply kOpenResp f
        (be32 (status_u32 FLUME_ERR_REMOTE) @ be64 0 @ be64 0 @ be32 (of_nat (length (cstr e))) @ cstr e)"
      by (simp_all add: handle_open_def Let_def open_reply StatusFromBool_def)
    then show ?thesis by (simp only:) (rule refuse, simp)
  qed
qed

lemma handle_read_ok:
  assumes "agent_inv a" "parse_read (body f) = Some (i, off, len)" "agent_view a i = Some ino"
    "preads_clean (ag_os a)" "unat off + unat len < 2 ^ 63" "unat len \<le> kMaxReadPayloadSize"
    "unat len \<le> os_alloc_max (ag_os a)" "length (os_fds (ag_os a)) < os_max_fds (ag_os a)"
  shows "fst (handle_read a f) = \<lparr>f_type = kReadResp, request_id = request_id f,
    body = read_resp_body (Inr (bslice (unat off) (unat len) (i_data (os_inode (ag_os a) ino))))\<rparr>"
proof -
  obtain g where g: "map_of (ag_files a) i = Some g" "map_of (os_fds (ag_os a)) (of_fd g) = Some ino"
    using assms(3) by (auto simp: agent_view_def split: option.splits)
  let ?fd = "lowest_fd (os_fds (ag_os a))"
  let ?os1 = "ag_os a\<lparr>os_fds := (?fd, ino) # os_fds (ag_os a)\<rparr>"
  have dup: "sys_dup (ag_os a) (of_fd g) = (Inr ?fd, ?os1)"
    using g(2) assms(8) by (simp add: sys_dup_def fd_alloc_def Let_def)
  have "\<exists>es. Read ?os1 ?fd off len =
      (Inr (bslice (unat off) (unat len) (i_data (os_inode ?os1 ino))), ?os1\<lparr>os_preads := es\<rparr>)"
    using read_loop_range [of ?os1 ?fd ino off 0 "unat len"] assms(4,5,7)
    by (simp add: Read_def preads_clean_def)
  with assms(2,6) g(1) dup show ?thesis by (auto simp: handle_read_def)
qed

lemma handle_read_service:
  assumes "agent_inv a" "f_type f = kReadReq" "handle_read a f = (resp, a')"
  shows "file_service (ag_os a) (ag_root a) f resp
    (agent_view a, ag_next_file_id a) (agent_view a', ag_next_file_id a')"
proof -
  obtain es where "a' = a\<lparr>ag_os := ag_os a\<lparr>os_preads := es\<rparr>\<rparr>" using handle_read_state [OF assms(3)] by blast
  then have same: "agent_view a' = agent_view a" "ag_next_file_id a' = ag_next_file_id a" by simp_all
  have sent: ?thesis if "body f = be64 i @ be64 off @ be64 len" "agent_view a i = Some ino"
      "unat len \<le> kMaxReadPayloadSize"
      "resp = \<lparr>f_type = kReadResp, request_id = request_id f,
         body = read_resp_body (Inr (bslice (unat off) (unat len) (i_data (os_inode (ag_os a) ino))))\<rparr>"
    for i off len ino
    unfolding same that(4) read_reply
    by (rule file_service.bytes_read [where ?m = "agent_view a", OF assms(2) that(1) that(2) that(3) refl])
  show ?thesis
  proof (cases "readable (ag_os a) (agent_view a) (body f)")
    case True
    then obtain i off len ino where r: "body f = be64 i @ be64 off @ be64 len" "agent_view a i = Some ino"
      "unat len \<le> kMaxReadPayloadSize" "unat off + unat len < 2 ^ 63" "preads_clean (ag_os a)"
      "unat len \<le> os_alloc_max (ag_os a)" "length (os_fds (ag_os a)) < os_max_fds (ag_os a)"
      by (auto simp: readable_def)
    then have "parse_read (body f) = Some (i, off, len)" by (simp add: parse_read_be)
    from handle_read_ok [OF assms(1) this r(2,5,4,3,6,7)] assms(3) sent [OF r(1-3)] show ?thesis by simp
  next
    case False
    have refused: ?thesis if "resp = SendStatus kReadResp (request_id f) st msg" "st \<noteq> FLUME_OK" for st msg
      unfolding same that(1) SendStatus_reply
      by (rule file_service.read_refused [OF assms(2) False]) (simp add: that(2))
    show ?thesis
    proof (cases "parse_read (body f)")
      case None
      then show ?thesis using assms(3) by (intro refused) (auto simp: handle_read_def)
    next
      case (Some q)
      then obtain i off len where q: "parse_read (body f) = Some (i, off, len)" by (cases q) auto
      show ?thesis
      proof (cases "kMaxReadPayloadSize < unat len \<or> map_of (ag_files a) i = None")
        case True
        then have "\<exists>st msg. st \<noteq> FLUME_OK \<and> resp = SendStatus kReadResp (request_id f) st msg"
          using assms(3) q by (cases "kMaxReadPayloadSize < unat len") (auto simp: handle_read_def)
        then show ?thesis using refused by blast
      next
        case fits: False
        then obtain g where g: "map_of (ag_files a) i = Some g" by auto
        obtain r os1 where dup: "sys_dup (ag_os a) (of_fd g) = (r, os1)" by fastforce
        show ?thesis
        proof (cases r)
          case (Inl e)
          then show ?thesis using assms(3) q fits g dup by (intro refused) (auto simp: handle_read_def)
        next
          case (Inr fd)
          obtain x os2 where rd: "Read os1 fd off len = (x, os2)" by fastforce
          have resp: "resp = \<lparr>f_type = kReadResp, request_id = request_id f, body = read_resp_body x\<rparr>"
            using assms(3) q fits g dup Inr rd by (auto simp: handle_read_def)
          show ?thesis
          proof (cases x)
            case (Inl e)
            show ?thesis unfolding same resp Inl read_reply
              by (rule file_service.read_refused [OF assms(2) False]) simp
          next
            case d: (Inr d)
            obtain ino where ino: "map_of (os_fds (ag_os a)) (of_fd g) = Some ino"
              "fd_alloc (ag_os a) ino = (Inr fd, os1)"
              using dup Inr by (auto simp: sys_dup_def split: option.splits)
            then have "map_of (os_fds os1) fd = Some ino" "os_inode os1 = os_inode (ag_os a)"
              using fd_alloc_cases [OF ino(2)] by auto
            from Read_data [OF _ this(1)] this(2) rd d fits
            have "d = bslice (unat off) (unat len) (i_data (os_inode (ag_os a) ino))" by auto
            moreover have "agent_view a i = Some ino" using g ino(1) by (simp add: agent_view_def)
            ultimately show ?thesis using q fits resp d by (intro sent) (auto simp: parse_read_iff)
          qed
        qed
      qed
    qed
  qed
qed

lemma handle_close_service:
  assumes "agent_inv a" "f_type f = kCloseReq" "handle_close a f = (resp, a')"
  shows "file_service (ag_os a) (ag_root a) f resp
    (agent_view a, ag_next_file_id a) (agent_view a', ag_next_file_id a')"
proof (cases "parse_close (body f)")
  case None
  then have "length (body f) \<noteq> 8"
    using parse_close_iff [of "body f" "LoadU64 (body f)"] be64_Load [of "body f"] by fastforce
  moreover have "a' = a" "resp = SendStatus kCloseResp (request_id f) FLUME_ERR_PROTOCOL ''malformed CLOSE_REQ''"
    using None assms(3) by (simp_all add: handle_close_def)
  ultimately show ?thesis by (simp only: SendStatus_reply) (rule file_service.close_refused [OF assms(2)], simp_all)
next
  case (Some i)
  have view: "agent_view a' = (agent_view a)(i := None)" "ag_next_file_id a' = ag_next_file_id a"
  proof -
    have "agent_view a i = None" if "map_of (ag_files a) i = None" using that by (simp add: agent_view_def)
    then show "agent_view a' = (agent_view a)(i := None)"
      using Some assms(3) agent_inv_closed(2) [OF assms(1), of i]
      by (auto simp: handle_close_def fun_upd_idem_iff split: option.splits)
    show "ag_next_file_id a' = ag_next_file_id a"
      using Some assms(3) by (auto simp: handle_close_def split: option.splits)
  qed
  have "resp = reply kCloseResp f (be32 0 @ be32 0)"
    using Some assms(3) by (auto simp: handle_close_def SendStatus_reply cstr_def)
  with view Some assms(2) show ?thesis by (auto simp: parse_close_iff intro: file_service.closed)
qed

lemma handle_other_service:
  assumes "f_type f \<notin> {kOpenReq, kReadReq, kCloseReq}" "handle_request a f = (resp, a')"
  shows "a' = a \<and> file_service (ag_os a) (ag_root a) f resp s s"
proof (cases "f_type f = kHello")
  case True
  then have "resp = reply kHelloAck f (be32 0 @ be32 (of_nat (length (cstr ''mock,hccl-hcomm-planned''))) @
      cstr ''mock,hccl-hcomm-planned'')" "a' = a"
    using assms(2) by (auto simp: handle_request_def handle_hello_def reply_def Append_be AppendString_be)
  then show ?thesis using file_service.greeted [OF True] by (simp only: simp_thms)
next
  case False
  with assms have "resp = SendStatus kError (request_id f) FLUME_ERR_PROTOCOL ''unknown frame type''" "a' = a"
    by (auto simp: handle_request_def)
  moreover have "file_service (ag_os a) (ag_root a) f
      (SendStatus kError (request_id f) FLUME_ERR_PROTOCOL ''unknown frame type'') s s"
    unfolding SendStatus_reply by (rule file_service.unknown) (use assms(1) False in simp_all)
  ultimately show ?thesis by simp
qed

lemma Close_frame [simp]:
  "os_canon (Close os fd) = os_canon os" "os_lookup (Close os fd) = os_lookup os"
  "os_inode (Close os fd) = os_inode os" "os_preads (Close os fd) = os_preads os"
  by (simp_all add: Close_def sys_close_def)

lemma handle_request_step:
  assumes "agent_inv a" "ag_next_file_id a \<noteq> - 1" "handle_request a f = (resp, a')"
  shows "agent_inv a' \<and> ag_root a' = ag_root a \<and> os_canon (ag_os a') = os_canon (ag_os a) \<and>
    os_lookup (ag_os a') = os_lookup (ag_os a) \<and> os_inode (ag_os a') = os_inode (ag_os a)"
  using assms(3)
proof (cases rule: handle_request_cases)
    case 1
    then show ?thesis using assms(1) by simp
  next
    case 2
    with handle_open_cases [OF 2] assms(1,2) show ?thesis by (auto simp: agent_inv_opened)
  next
    case 3
    from handle_read_state [OF 3] assms(1) show ?thesis by auto
  next
    case 4
    with assms(1) show ?thesis
      by (auto simp: handle_close_def agent_inv_closed split: option.splits)
qed

text \<open>Property C3. Refinement of the file service.  Every request, whatever its frame contains, keeps the agent's
  invariant (distinct identifiers, one live and unshared descriptor per open file, identifiers below
  the next one) and the file system, and acts as the file service prescribes for this request: the
  reply carries the request's identifier, its type and its bytes are those of the service, an open
  hands out the next, unused identifier for the file at its path, a read returns exactly the bytes of
  the file its identifier stands for, a close forgets exactly the identifier it names, and opens and
  reads are refused only for a reason.\<close>

theorem handle_request_refines:
  assumes "agent_inv a" "ag_next_file_id a \<noteq> - 1" "handle_request a f = (resp, a')"
  shows "agent_inv a' \<and> os_inode (ag_os a') = os_inode (ag_os a) \<and>
    file_service (ag_os a) (ag_root a) f resp
      (agent_view a, ag_next_file_id a) (agent_view a', ag_next_file_id a')"
proof -
  have "kOpenReq \<noteq> kHello" "kReadReq \<noteq> kHello" "kCloseReq \<noteq> kHello" "kReadReq \<noteq> kOpenReq"
    "kCloseReq \<noteq> kOpenReq" "kCloseReq \<noteq> kReadReq" by (simp_all add: frame_type_defs)
  then consider "f_type f = kOpenReq" "handle_open a f = (resp, a')"
    | "f_type f = kReadReq" "handle_read a f = (resp, a')"
    | "f_type f = kCloseReq" "handle_close a f = (resp, a')"
    | "f_type f \<notin> {kOpenReq, kReadReq, kCloseReq}"
    using assms(3) by (auto simp: handle_request_def split: if_splits)
  then have "file_service (ag_os a) (ag_root a) f resp
      (agent_view a, ag_next_file_id a) (agent_view a', ag_next_file_id a')"
  proof cases
    case 4
    from handle_other_service [OF this assms(3)] show ?thesis by simp
  qed (use assms(1,2) handle_open_service handle_read_service handle_close_service in auto)
  with handle_request_step [OF assms] show ?thesis by simp
qed

text \<open>A running agent with one open file, to exercise the theorems.\<close>

definition sample_agent :: agent where
  "sample_agent = \<lparr>ag_root = cstr ''/srv'',
     ag_files = [(1, \<lparr>of_fd = 3, of_size = 5, of_path = cstr ''/srv/a''\<rparr>)],
     ag_next_file_id = 2, ag_os = sample_os\<lparr>os_fds := [(3, 0)]\<rparr>\<rparr>"

lemma sample_agent_inv: "agent_inv sample_agent"
  by (simp add: agent_inv_def sample_agent_def fds_ok_def)

lemma handle_request_refines_witness:
  "agent_inv sample_agent \<and> agent_inv (snd (handle_request sample_agent
     \<lparr>f_type = kCloseReq, request_id = 4, body = AppendU64 [] 1\<rparr>))"
  using handle_request_refines [of sample_agent "\<lparr>f_type = kCloseReq, request_id = 4,
      body = AppendU64 [] 1\<rparr>"] sample_agent_inv
  by (simp add: sample_agent_def prod_eq_iff)

section \<open>Reads through the agent\<close>

lemma length_read_resp_ok: "length (read_resp_body (Inr p)) = kReadRespFixedBytes + length p"
  by (simp add: read_resp_body_def Let_def Append_be AppendString_be AppendBytes_def
      kReadRespFixedBytes_def)

lemma length_read_resp_error: "length (read_resp_body (Inl e)) = kReadRespFixedBytes + length e"
  by (simp add: read_resp_body_def Let_def Append_be AppendString_be kReadRespFixedBytes_def)

lemma length_SendStatus:
  "length (body (SendStatus t rid st msg)) \<le> kReadRespFixedBytes + 4 + length msg"
  by (simp add: SendStatus_def Let_def Append_be AppendString_be kReadRespFixedBytes_def)

text \<open>The texts of \<open>strerror\<close> are short.\<close>

fun pread_terse :: "pread_event \<Rightarrow> bool" where
  "pread_terse (PrFail t) = (length t \<le> 1024)"
| "pread_terse _ = True"

definition preads_terse :: "os \<Rightarrow> bool" where
  "preads_terse os \<longleftrightarrow> list_all pread_terse (os_preads os)"

lemma sys_pread_terse:
  assumes "sys_pread os fd n off = (r, os')" "preads_terse os"
  shows "preads_terse os' \<and> (\<forall>e. r = Inl (Errno e) \<longrightarrow> length e \<le> 1024)"
  using assms
  by (auto simp: sys_pread_def preads_terse_def split: option.splits if_splits list.splits
      pread_event.splits)

lemma read_loop_terse:
  "read_loop os fd offset cur todo = (Inl e, os') \<Longrightarrow> preads_terse os \<Longrightarrow> length e \<le> 2048"
proof (induction os fd offset cur todo arbitrary: e os' rule: read_loop.induct)
  case (1 os fd offset cur todo)
  show ?case
  proof (cases "todo = 0")
    case False
    obtain s os1 where sp: "sys_pread os fd todo (offset + of_nat cur) = (s, os1)" by fastforce
    note t = sys_pread_terse [OF sp 1(4)] and st = read_loop_step [OF False sp]
    show ?thesis
    proof (cases s)
      case (Inl x)
      then show ?thesis
        using 1(1) [OF False sp [symmetric] Inl] 1(3) st t by (cases x) auto
    next
      case (Inr d)
      obtain r2 os2 where rl: "read_loop os1 fd offset (cur + length d) (todo - length d) = (r2, os2)"
        by fastforce
      with st Inr 1(2) [OF False sp [symmetric] Inr] 1(3) t show ?thesis
        by (cases r2) (auto split: if_splits)
    qed
  qed (use 1(3) in simp)
qed

lemma handle_read_fits:
  assumes "preads_terse (ag_os a)"
  shows "length (body (fst (handle_read a f))) \<le> kMaxBodySize"
proof -
  have big: "kReadRespFixedBytes + 4 + 2048 \<le> kMaxBodySize"
    "kReadRespFixedBytes + kMaxReadPayloadSize = kMaxBodySize"
    by (simp_all add: kReadRespFixedBytes_def kMaxReadPayloadSize_def kMaxBodySize_def)
  have status: "length (body (SendStatus t rid st msg)) \<le> kMaxBodySize" if "length msg \<le> 2048"
    for t rid st msg using that length_SendStatus [of t rid st msg] big(1) by simp
  have rd: "length (read_resp_body r) \<le> kMaxBodySize"
    if "sys_dup (ag_os a) g = (Inr fd, os1)" "Read os1 fd off len = (r, os2)"
      "\<not> kMaxReadPayloadSize < unat len" for g fd os1 off len r os2
  proof (cases r)
    case (Inr d)
    then show ?thesis using Read_frame(2) [OF that(2)] that(3) big(2) length_read_resp_ok [of d] by simp
  next
    case (Inl e)
    have "preads_terse os1"
      using that(1) assms by (auto simp: sys_dup_def preads_terse_def fd_alloc_def Let_def
          split: option.splits if_splits)
    then have "length e \<le> 2048"
      using that(2) Inl read_loop_terse by (auto simp: Read_def split: if_splits)
    then show ?thesis using Inl length_read_resp_error [of e] big(1) by simp
  qed
  have dup: "length e \<le> 64" if "sys_dup (ag_os a) g = (Inl e, os1)" for g e os1
    using that by (auto simp: sys_dup_def fd_alloc_def Let_def split: option.splits if_splits)
  show ?thesis
    by (auto simp: handle_read_def split: option.splits prod.splits sum.splits
        intro!: status rd dest!: dup)
qed

text \<open>Property C8. Read responses always fit in a frame.  Whatever a read request asks for, the response body
  stays within the frame limit (the payload bound leaves room for the fixed fields exactly), so
  writing it is never refused for its size.\<close>

theorem read_response_fits:
  assumes "preads_terse (ag_os a)"
  shows "length (body (fst (handle_read a f))) \<le> kMaxBodySize"
  by (rule handle_read_fits [OF assms])

lemma read_response_fits_witness:
  "preads_terse (ag_os sample_agent) \<and> length (body (fst (handle_read sample_agent
     \<lparr>f_type = kReadReq, request_id = 4, body = be64 1 @ be64 0 @ be64 (2 ^ 40)\<rparr>))) \<le> kMaxBodySize"
proof -
  have "preads_terse (ag_os sample_agent)"
    by (simp add: preads_terse_def sample_agent_def sample_os_def)
  with read_response_fits [OF this] show ?thesis by blast
qed

section \<open>Descriptors over a whole session\<close>

text \<open>The descriptors of the process that do not belong to the agent's files.\<close>

definition foreign_fds :: "agent \<Rightarrow> nat set" where
  "foreign_fds a = fst ` set (os_fds (ag_os a)) - (of_fd \<circ> snd) ` set (ag_files a)"

lemma foreign_opened:
  assumes "agent_inv a" "of_fd g \<notin> fst ` set (os_fds (ag_os a))"
  shows "foreign_fds (a\<lparr>ag_next_file_id := n,
      ag_files := files_emplace (ag_next_file_id a) g (ag_files a),
      ag_os := ag_os a\<lparr>os_fds := (of_fd g, ino) # os_fds (ag_os a)\<rparr>\<rparr>) = foreign_fds a"
  using assms(2) agent_inv_unused [OF assms(1)]
  by (auto simp: foreign_fds_def files_emplace_def)

lemma foreign_closed:
  assumes "agent_inv a" "map_of (ag_files a) i = Some g"
  shows "foreign_fds (a\<lparr>ag_os := Close (ag_os a) (int (of_fd g)),
      ag_files := filter (\<lambda>p. fst p \<noteq> i) (ag_files a)\<rparr>) = foreign_fds a"
proof -
  have ig: "(i, g) \<in> set (ag_files a)" using assms(2) by (rule map_of_SomeD)
  have uniq: "f = g" if "(i, f) \<in> set (ag_files a)" for f
  proof -
    have "map_of (ag_files a) i = Some f" using that assms(1) by (simp add: agent_inv_def)
    with assms(2) show ?thesis by simp
  qed
  have "set (ag_files a) = insert (i, g) (set (filter (\<lambda>p. fst p \<noteq> i) (ag_files a)))"
    using ig by (auto dest: uniq)
  from arg_cong [OF this, of "image (of_fd \<circ> snd)"]
  have "(of_fd \<circ> snd) ` set (ag_files a) =
      insert (of_fd g) ((of_fd \<circ> snd) ` set (filter (\<lambda>p. fst p \<noteq> i) (ag_files a)))"
    by (simp only: image_insert o_apply snd_conv)
  then show ?thesis
    unfolding foreign_fds_def by (auto simp: Close_def sys_close_def)
qed

lemma handle_request_foreign:
  assumes "agent_inv a" "handle_request a f = (resp, a')"
  shows "foreign_fds a' = foreign_fds a"
  using assms(2)
proof (cases rule: handle_request_cases)
    case 2
    from handle_open_cases [OF 2] show ?thesis using foreign_opened [OF assms(1)] by auto
  next
    case 3
    from handle_read_state [OF 3] show ?thesis by (auto simp: foreign_fds_def)
  next
    case 4
    then show ?thesis
      by (auto simp: handle_close_def foreign_closed [OF assms(1)] split: option.splits)
qed simp

lemma next_id_handle_request:
  assumes "handle_request a f = (resp, a')"
  shows "ag_next_file_id a' = ag_next_file_id a \<or> ag_next_file_id a' = ag_next_file_id a + 1"
  using assms
  by (cases rule: handle_request_cases)
    (auto dest!: handle_open_cases handle_read_state simp: handle_close_def split: option.splits)

lemma serve_inv:
  "agent_inv a \<Longrightarrow> serve a fs = (rs, a') \<Longrightarrow> unat (ag_next_file_id a) + length fs < 2 ^ 64 \<Longrightarrow>
   agent_inv a' \<and> foreign_fds a' = foreign_fds a"
proof (induction fs arbitrary: a rs)
  case (Cons f fs)
  obtain resp a1 where hr: "handle_request a f = (resp, a1)" by fastforce
  obtain rs1 where rs: "serve a1 fs = (rs1, a')"
    using Cons.prems(2) hr by (auto split: prod.splits)
  have small: "unat (ag_next_file_id a) < 2 ^ 64 - 1" using Cons.prems(3) by simp
  then have n: "ag_next_file_id a \<noteq> - 1"
    by (auto simp: unsigned_minus_1_eq_mask mask_eq_exp_minus_1)
  have "unat (ag_next_file_id a + 1) = unat (ag_next_file_id a) + 1"
    using small by (simp add: unat_word_ariths)
  with next_id_handle_request [OF hr] Cons.prems(3)
  have "unat (ag_next_file_id a1) + length fs < 2 ^ 64" by auto
  moreover have "agent_inv a1" "foreign_fds a1 = foreign_fds a"
    using handle_request_step [OF Cons.prems(1) n hr] handle_request_foreign [OF Cons.prems(1) hr]
    by simp_all
  ultimately show ?case using Cons.IH [OF _ rs] by simp
qed simp

lemma stop_fds:
  "fst ` set (os_fds (fold (\<lambda>p os. Close os (int (of_fd (snd p)))) fs os)) =
   fst ` set (os_fds os) - (of_fd \<circ> snd) ` set fs"
  by (induction fs arbitrary: os) (auto simp: Close_def sys_close_def)

text \<open>Property C5. No descriptor leaks.  Start from an agent with no open file, serve any sequence of requests,
  well formed or not, and stop it: the process holds exactly the descriptors it held before.\<close>

theorem agent_no_fd_leak:
  assumes "agent_inv a" "ag_files a = []" "serve a fs = (rs, a')"
    "unat (ag_next_file_id a) + length fs < 2 ^ 64"
  shows "fst ` set (os_fds (ag_os (agent_stop a'))) = fst ` set (os_fds (ag_os a)) \<and>
    ag_files (agent_stop a') = []"
proof -
  have "foreign_fds a' = foreign_fds a" using serve_inv assms by blast
  then show ?thesis using assms(2) by (simp add: agent_stop_def stop_fds foreign_fds_def)
qed

lemma agent_no_fd_leak_witness:
  "let a = sample_agent\<lparr>ag_files := [], ag_os := sample_os\<lparr>os_fds := [(0, 9)]\<rparr>\<rparr>;
       req = \<lparr>f_type = kOpenReq, request_id = 1, body = AppendString [] (cstr ''a'')\<rparr>
   in fst ` set (os_fds (ag_os (agent_stop (snd (serve a [req, req]))))) = {0}"
proof -
  let ?a = "sample_agent\<lparr>ag_files := [], ag_os := sample_os\<lparr>os_fds := [(0, 9)]\<rparr>\<rparr>"
  let ?req = "\<lparr>f_type = kOpenReq, request_id = 1, body = AppendString [] (cstr ''a'')\<rparr>"
  obtain rs a' where s: "serve ?a [?req, ?req] = (rs, a')" by fastforce
  have "agent_inv ?a" by (simp add: agent_inv_def fds_ok_def sample_agent_def)
  from agent_no_fd_leak [OF this _ s] show ?thesis
    unfolding s Let_def by (simp add: sample_agent_def)
qed

section \<open>Client sessions\<close>

text \<open>
  The one response whose length the agent does not bound is the failed open: the text of a failing
  canonicalisation repeats the path.  \<open>texts_bounded K\<close> says that no error text of the system is longer
  than \<open>K\<close>, apart from the path it repeats.
\<close>

definition texts_bounded :: "nat \<Rightarrow> agent \<Rightarrow> bool" where
  "texts_bounded K a \<longleftrightarrow> preads_terse (ag_os a) \<and>
     (\<forall>e. os_canon (ag_os a) (ag_root a) = Inl e \<longrightarrow> length e \<le> K) \<and>
     (\<forall>root p e. os_canon (ag_os a) (ag_root a) = Inr root \<and>
        os_canon (ag_os a) (path_join root p) = Inl e \<longrightarrow> length e \<le> length p + K) \<and>
     (\<forall>p e. os_lookup (ag_os a) p = Inl e \<longrightarrow> length e \<le> K) \<and>
     (\<forall>i e. i_fstat_error (os_inode (ag_os a) i) = Some e \<longrightarrow> length e \<le> K)"

lemma ResolvePath_text:
  assumes "texts_bounded K a" "ResolvePath (ag_os a) (ag_root a) p = Inl e"
  shows "length e \<le> length p + K + 64"
proof -
  have *: "length t \<le> length p + K" if "os_canon (ag_os a) (ag_root a) = Inl t" for t
    using assms(1) that by (fastforce simp: texts_bounded_def)
  have **: "length t \<le> length p + K"
    if "os_canon (ag_os a) (ag_root a) = Inr root" "os_canon (ag_os a) (path_join root p) = Inl t" for root t
    using assms(1) that by (fastforce simp: texts_bounded_def)
  from assms(2) show ?thesis
    by (auto simp: ResolvePath_def Let_def split: if_splits sum.splits dest!: * **)
qed

lemma Open_text:
  assumes "texts_bounded K a" "Open (ag_os a) (ag_root a) p = (Inl e, os')"
  shows "length e \<le> length p + K + 64"
proof (cases "ResolvePath (ag_os a) (ag_root a) p")
  case (Inl t)
  with assms ResolvePath_text show ?thesis by (auto simp: Open_def)
next
  case (Inr full)
  have l: "length t \<le> K" if "os_lookup (ag_os a) full = Inl t" for t
    using assms(1) that by (fastforce simp: texts_bounded_def)
  have st: "length t \<le> K" if "i_fstat_error (os_inode (ag_os a) i) = Some t" for i t
    using assms(1) that by (fastforce simp: texts_bounded_def)
  from assms(2) Inr show ?thesis
    by (auto simp: Open_def sys_open_def fd_alloc_def Let_def split: if_splits sum.splits option.splits
        dest!: l st)
qed

lemma frame_ok_open:
  assumes "texts_bounded K a" "length (body f) + K + 128 \<le> kMaxBodySize" "handle_open a f = (resp, a')"
  shows "frame_ok resp"
proof (cases "parse_path (body f)")
  case None
  then have "resp = SendStatus kOpenResp (request_id f) FLUME_ERR_PROTOCOL ''malformed OPEN_REQ''"
    using assms(3) by (simp add: handle_open_def)
  then show ?thesis
    using length_SendStatus [of kOpenResp "request_id f" FLUME_ERR_PROTOCOL "''malformed OPEN_REQ''"]
    by (simp add: frame_ok_def kReadRespFixedBytes_def kMaxBodySize_def)
next
  case (Some p)
  then have p: "length p \<le> length (body f)" by (auto simp: parse_path_iff path_body_def)
  obtain r os' where op: "Open (ag_os a) (ag_root a) p = (r, os')" by fastforce
  show ?thesis
  proof (cases r)
    case (Inl e)
    with Open_text [OF assms(1), of p e os'] op p assms(2,3) Some show ?thesis
      by (auto simp: handle_open_def frame_ok_def Let_def Append_be AppendString_be)
  next
    case (Inr g)
    with op assms(3) Some show ?thesis
      by (auto simp: handle_open_def frame_ok_def Let_def Append_be AppendString_be kMaxBodySize_def)
  qed
qed

lemma handle_request_fits:
  assumes "texts_bounded K a" "length (body f) + K + 128 \<le> kMaxBodySize" "handle_request a f = (resp, a')"
  shows "frame_ok resp"
proof -
  have short: "frame_ok (SendStatus t rid st msg)" if "length msg \<le> 64" for t rid st msg
    using that length_SendStatus [of t rid st msg] by (simp add: frame_ok_def kReadRespFixedBytes_def kMaxBodySize_def)
  have "frame_ok (handle_hello f)"
    by (simp add: frame_ok_def handle_hello_def AppendString_be Append_be kMaxBodySize_def)
  moreover have "frame_ok (fst (handle_read a f))"
    using handle_read_fits assms(1) by (simp add: frame_ok_def texts_bounded_def)
  moreover have "frame_ok (fst (handle_close a f))"
    by (simp add: handle_close_def short split: option.split)
  ultimately show ?thesis
    using assms(3) frame_ok_open [OF assms(1,2)]
    by (auto simp: handle_request_def short split: if_splits)
qed

lemma read_loop_preads:
  "read_loop os fd offset cur todo = (r, os') \<Longrightarrow> preads_terse os \<Longrightarrow> preads_terse os'"
proof (induction os fd offset cur todo arbitrary: r os' rule: read_loop.induct)
  case (1 os fd offset cur todo)
  show ?case
  proof (cases "todo = 0")
    case False
    obtain s os1 where sp: "sys_pread os fd todo (offset + of_nat cur) = (s, os1)" by fastforce
    note t = sys_pread_terse [OF sp 1(4)] and st = read_loop_step [OF False sp]
    show ?thesis
    proof (cases s)
      case (Inl x)
      then show ?thesis using 1(1) [OF False sp [symmetric] Inl] 1(3) st t by (cases x) auto
    next
      case (Inr d)
      obtain r2 os2 where "read_loop os1 fd offset (cur + length d) (todo - length d) = (r2, os2)" by fastforce
      with st Inr 1(2) [OF False sp [symmetric] Inr] 1(3) t show ?thesis by (auto split: if_splits)
    qed
  qed (use 1(3,4) in simp)
qed

lemma handle_read_preads:
  assumes "handle_read a f = (resp, a')" "preads_terse (ag_os a)"
  shows "preads_terse (ag_os a')"
proof -
  have dup: "preads_terse os1" if "sys_dup (ag_os a) g = (r, os1)" for g r os1
    using that assms(2) by (auto simp: sys_dup_def preads_terse_def fd_alloc_def Let_def split: option.splits if_splits)
  have rd: "preads_terse os2" if "Read os1 fd off len = (r, os2)" "preads_terse os1" for os1 fd off len r os2
    using that read_loop_preads by (auto simp: Read_def split: if_splits)
  have cl: "preads_terse (Close os fd) = preads_terse os" for os fd by (simp add: preads_terse_def)
  show ?thesis
    using assms by (auto simp: handle_read_def cl split: option.splits prod.splits sum.splits if_splits
        dest!: dup dest: rd)
qed

lemma texts_bounded_step:
  assumes "texts_bounded K a" "handle_request a f = (resp, a')"
  shows "texts_bounded K a'"
  using assms(2)
proof (cases rule: handle_request_cases)
  case 2
  from handle_open_cases [OF 2] assms(1) show ?thesis by (auto simp: texts_bounded_def preads_terse_def)
next
  case 3
  have "preads_terse (ag_os a')" using handle_read_preads [OF 3] assms(1) by (simp add: texts_bounded_def)
  with handle_read_state [OF 3] assms(1) show ?thesis by (auto simp: texts_bounded_def)
next
  case 4
  with assms(1) show ?thesis
    by (auto simp: handle_close_def texts_bounded_def preads_terse_def split: option.splits)
qed (use assms in simp)

lemma serve_Cons:
  "fst (serve a (f # fs)) = fst (handle_request a f) # fst (serve (snd (handle_request a f)) fs)"
  "snd (serve a (f # fs)) = snd (serve (snd (handle_request a f)) fs)"
  by (simp_all add: case_prod_beta Let_def)

lemma serve_fits:
  "texts_bounded K a \<Longrightarrow> list_all (\<lambda>f. length (body f) + K + 128 \<le> kMaxBodySize) fs \<Longrightarrow>
   list_all frame_ok (fst (serve a fs))"
proof (induction fs arbitrary: a)
  case (Cons f fs)
  obtain resp a1 where hr: "handle_request a f = (resp, a1)" by fastforce
  with Cons handle_request_fits [OF Cons.prems(1) _ hr] texts_bounded_step [OF Cons.prems(1) hr]
  show ?case by (simp add: serve_Cons del: serve.simps(2))
qed simp

lemma length_serve: "length (fst (serve a fs)) = length fs"
  by (induction fs arbitrary: a) (simp_all add: serve_Cons del: serve.simps(2))

text \<open>The loop answers as long as the responses fit in a frame.\<close>

lemma HandleClient_serves:
  assumes "rx_stream (c_rx c) = concat (map encode_frame fs)" "list_all frame_ok fs" "tx_clean c"
  shows "\<exists>c'. HandleClient [] a c =
      (snd (serve a (take (Suc (length (takeWhile frame_ok (fst (serve a fs))))) fs)), c') \<and>
    c_sent c' = c_sent c @ concat (map encode_frame (takeWhile frame_ok (fst (serve a fs))))"
  using assms
proof (induction fs arbitrary: a c)
  case Nil
  then show ?case using HandleClient_end [of c a] by auto
next
  case (Cons f fs)
  obtain resp a1 where hr: "handle_request a f = (resp, a1)" by fastforce
  have ok: "length (body f) \<le> kMaxBodySize" using Cons.prems(2) by (simp add: frame_ok_def)
  have "rx_stream (c_rx c) = frame_header f @ body f @ concat (map encode_frame fs)"
    using Cons.prems(1) encode_frame_def [of f] by simp
  from ReadFrame_complete [OF ok this] obtain es where es: "ReadFrame (c_rx c) = (Inr f, es)"
    "rx_stream es = concat (map encode_frame fs)" .
  note serve = serve_Cons [of a f, unfolded hr fst_conv snd_conv]
  show ?case
  proof (cases "frame_ok resp")
    case True
    then have okr: "length (body resp) \<le> kMaxBodySize" by (simp add: frame_ok_def)
    have "tx_clean (c\<lparr>c_rx := es\<rparr>)" using Cons.prems(3) by (simp add: tx_clean_def)
    from WriteFrame_clean [OF okr this] obtain c1 where c1:
      "WriteFrame (c\<lparr>c_rx := es\<rparr>) resp = (None, c1)" "tx_clean c1" "c_rx c1 = es"
      "c_sent c1 = c_sent c @ encode_frame resp" by (auto simp: encode_frame_def)
    have "HandleClient [] a c = HandleClient [] a1 c1"
      using es c1 hr by (simp add: HandleClient.simps [of "[]" a c])
    with Cons.IH [of c1 a1] c1 es Cons.prems(2) True show ?thesis
      by (auto simp: serve simp del: serve.simps(2))
  next
    case False
    then have "WriteFrame (c\<lparr>c_rx := es\<rparr>) resp = (Some ''frame body is too large'', c\<lparr>c_rx := es\<rparr>)"
      by (simp add: WriteFrame_def frame_ok_def)
    then have "HandleClient [] a c = (a1, c\<lparr>c_rx := es\<rparr>)"
      using es hr by (simp add: HandleClient.simps [of "[]" a c])
    with False show ?thesis by (simp add: serve del: serve.simps(2))
  qed
qed

text \<open>Property C1. A client session.  When a client sends any sequence of frames over any segmentation of the
  stream and then closes, the agent answers the frames in order, one response each, up to the first
  response that does not fit in a frame: that one is not sent, its request has still been carried
  out, and the connection ends there; nothing else is written.  Every frame is answered when the
  requests leave room for an error text that repeats their path.\<close>

theorem HandleClient_session:
  assumes "rx_stream (c_rx c) = concat (map encode_frame fs)" "list_all frame_ok fs" "tx_clean c"
    "sent = takeWhile frame_ok (fst (serve a fs))"
  shows "(\<exists>c'. HandleClient [] a c = (snd (serve a (take (Suc (length sent)) fs)), c') \<and>
      c_sent c' = c_sent c @ concat (map encode_frame sent)) \<and>
    (\<forall>K. texts_bounded K a \<and> list_all (\<lambda>f. length (body f) + K + 128 \<le> kMaxBodySize) fs \<longrightarrow>
      sent = fst (serve a fs) \<and> length sent = length fs)"
proof -
  have "sent = fst (serve a fs) \<and> length sent = length fs"
    if "texts_bounded K a" "list_all (\<lambda>f. length (body f) + K + 128 \<le> kMaxBodySize) fs" for K
    using serve_fits [OF that] length_serve [of a fs] assms(4)
    by (metis list_all_iff takeWhile_eq_all_conv)
  with HandleClient_serves [OF assms(1-3), of a] assms(4) show ?thesis by blast
qed

lemma HandleClient_session_witness:
  "let h = \<lparr>f_type = kHello, request_id = 5, body = []\<rparr>; w = encode_frame h;
       a = \<lparr>ag_root = [], ag_files = [], ag_next_file_id = 1, ag_os = sample_os\<rparr>
   in texts_bounded 64 a \<and> (\<exists>c'. HandleClient [] a \<lparr>c_rx = [Rx (take 11 w), RxIntr, Rx (drop 11 w)],
       c_tx = [TxAccept 3], c_sent = []\<rparr> = (a, c') \<and> c_sent c' = encode_frame (handle_hello h))"
proof -
  let ?h = "\<lparr>f_type = kHello, request_id = 5, body = []\<rparr>"
  let ?a = "\<lparr>ag_root = [], ag_files = [], ag_next_file_id = 1, ag_os = sample_os\<rparr>"
  let ?c = "\<lparr>c_rx = [Rx (take 11 (encode_frame ?h)), RxIntr, Rx (drop 11 (encode_frame ?h))],
    c_tx = [TxAccept 3], c_sent = []\<rparr>"
  have s: "serve ?a [?h] = ([handle_hello ?h], ?a)" by (simp add: handle_request_def)
  have t: "texts_bounded 64 ?a"
    by (auto simp: texts_bounded_def sample_os_def preads_terse_def split: if_splits)
  have ok: "frame_ok (handle_hello ?h)" "frame_ok ?h"
    by (simp_all add: frame_ok_def handle_hello_def AppendString_be Append_be kMaxBodySize_def)
  show ?thesis
    using HandleClient_session [of ?c "[?h]" "[handle_hello ?h]" ?a] ok t s by (simp add: tx_clean_def)
qed

end
