(* ===== verification/Roce_Wire.thy ===== *)
theory Roce_Wire
  imports Flume_Prelude "HOL-Library.Monad_Syntax"
begin

text \<open>
  The RoCE storage protocol: wire formats
  (\<open>src/roce_storage/roce_storage.h\<close>, \<open>roce_storage.cc\<close>).

  The little-endian codecs, one record per message with its encoder and decoder (a decoder threads
  its offset as the C++ does and returns \<open>None\<close> where the C++ returns false), the helper functions on
  path MTUs (the session state machine is in \<open>Roce_Session\<close>).  Enumerations that
  arrive on the wire (\<open>Operation\<close>) are kept as the raw 16-bit value the C++ casts.  The lemmas show
  that each decoder inverts its encoder and accepts nothing else; \<open>wire_codec\<close> is the interface the
  five codecs meet.
\<close>

section \<open>Constants\<close>

definition kProtocolMagic :: u32 where "kProtocolMagic = 0x464c5243"
definition kProtocolVersion :: u16 where "kProtocolVersion = 2"
definition kSessionRequestWireBytes :: nat where "kSessionRequestWireBytes = 64"
definition kSessionResponseWireBytes :: nat where "kSessionResponseWireBytes = 64"
definition kCommandWireBytes :: nat where "kCommandWireBytes = 64"
definition kCompletionWireBytes :: nat where "kCompletionWireBytes = 40"
definition kEndpointWireBytes :: nat where "kEndpointWireBytes = 32"
definition kDefaultPathMtu :: u8 where "kDefaultPathMtu = 3"

definition kMemoryRemoteWrite :: u32 where "kMemoryRemoteWrite = 1"
definition kMemoryRemoteRead :: u32 where "kMemoryRemoteRead = 2"

definition kCompletionStatusSuccess :: u32 where "kCompletionStatusSuccess = 0"
definition kCompletionStatusInvalidRequest :: u32 where "kCompletionStatusInvalidRequest = 1"
definition kCompletionStatusBackendError :: u32 where "kCompletionStatusBackendError = 2"
definition kCompletionStatusUnsupported :: u32 where "kCompletionStatusUnsupported = 3"

definition kServerCapabilityMemoryNamespace :: u32 where "kServerCapabilityMemoryNamespace = 1"
definition kServerCapabilityPosixNamespace :: u32 where "kServerCapabilityPosixNamespace = 2"
definition kServerCapabilityControlProxyUsed :: u32 where "kServerCapabilityControlProxyUsed = 4"
definition kServerCapabilityNpuRaRelay :: u32 where "kServerCapabilityNpuRaRelay = 8"
definition kServerCapabilityStorageWrite :: u32 where "kServerCapabilityStorageWrite = 16"

definition kSessionFlagTcpControl :: u16 where "kSessionFlagTcpControl = 1"
definition kSessionFlagPullTransfer :: u16 where "kSessionFlagPullTransfer = 2"
definition kSessionKnownFlags :: u16 where
  "kSessionKnownFlags = kSessionFlagTcpControl OR kSessionFlagPullTransfer"

lemmas roce_sizes = kSessionRequestWireBytes_def kSessionResponseWireBytes_def
  kCommandWireBytes_def kCompletionWireBytes_def kEndpointWireBytes_def

definition kRead :: u16 where "kRead = 1"
definition kWrite :: u16 where "kWrite = 2"

datatype ControlMode = CtlTcp | CtlNpuRa
datatype TransferMode = TransferPush | TransferPull
datatype DataPlaneRoute = LocalHostVerbs | LocalNpuRaRelay | RemoteRnic

section \<open>Messages\<close>

record Command =
  cmd_request_id :: u64
  cmd_operation :: u16
  cmd_object_id :: u64
  cmd_storage_offset :: u64
  cmd_length :: u64
  cmd_npu_address :: u64
  cmd_npu_rkey :: u32
  cmd_npu_access :: u32

record Completion =
  cpl_request_id :: u64
  cpl_status :: u32
  cpl_bytes :: u64
  cpl_checksum :: u32
  cpl_flags :: u32

record MemoryWindow =
  mw_address :: u64
  mw_length :: u64
  mw_rkey :: u32
  mw_access :: u32

record Endpoint =
  ep_gid :: bytes
  ep_qpn :: u32
  ep_psn :: u32
  ep_port :: u8
  ep_gid_index :: u8
  ep_mtu :: u8

record SessionRequest =
  sr_endpoint :: Endpoint
  sr_completion :: MemoryWindow
  sr_flags :: u16

record SessionResponse =
  sp_endpoint :: Endpoint
  sp_namespace_capacity :: u64
  sp_max_transfer_bytes :: u64
  sp_server_capabilities :: u32
  sp_status :: u16

section \<open>Little-endian integers\<close>

definition LeAppendU16 :: "u16 \<Rightarrow> bytes \<Rightarrow> bytes" where
  "LeAppendU16 v out = out @ [byte_at 0 v, byte_at 8 v]"

definition LeAppendU32 :: "u32 \<Rightarrow> bytes \<Rightarrow> bytes" where
  "LeAppendU32 v out = fold (\<lambda>s acc. acc @ [byte_at s v]) [0, 8, 16, 24] out"

definition LeAppendU64 :: "u64 \<Rightarrow> bytes \<Rightarrow> bytes" where
  "LeAppendU64 v out = fold (\<lambda>s acc. acc @ [byte_at s v]) [0, 8, 16, 24, 32, 40, 48, 56] out"

definition LeReadU16 :: "bytes \<Rightarrow> nat \<Rightarrow> (u16 \<times> nat) option" where
  "LeReadU16 wire off =
    (if length wire < off \<or> length wire - off < 2 then None
     else Some (ucast (wire ! off) OR push_bit 8 (ucast (wire ! (off + 1))), off + 2))"

definition LeReadU32 :: "bytes \<Rightarrow> nat \<Rightarrow> (u32 \<times> nat) option" where
  "LeReadU32 wire off =
    (if length wire < off \<or> length wire - off < 4 then None
     else Some (fold (\<lambda>s v. v OR push_bit s (ucast (wire ! (off + s div 8)))) [0, 8, 16, 24] 0,
                off + 4))"

definition LeReadU64 :: "bytes \<Rightarrow> nat \<Rightarrow> (u64 \<times> nat) option" where
  "LeReadU64 wire off =
    (if length wire < off \<or> length wire - off < 8 then None
     else Some (fold (\<lambda>s v. v OR push_bit s (ucast (wire ! (off + s div 8))))
                  [0, 8, 16, 24, 32, 40, 48, 56] 0, off + 8))"

section \<open>Encoders and decoders\<close>

definition PathMtuFromBytes :: "u32 \<Rightarrow> u8 option" where
  "PathMtuFromBytes b =
    (if b = 1024 then Some 3 else if b = 2048 then Some 4 else if b = 4096 then Some 5 else None)"

definition PathMtuBytes :: "u8 \<Rightarrow> u32" where
  "PathMtuBytes m =
    (if m = 1 then 256 else if m = 2 then 512 else if m = 3 then 1024
     else if m = 4 then 2048 else if m = 5 then 4096 else 0)"

definition required_access :: "u16 \<Rightarrow> u32" where
  "required_access op = (if op = kRead then kMemoryRemoteWrite else kMemoryRemoteRead)"

definition command_ok :: "Command \<Rightarrow> bool" where
  "command_ok c \<longleftrightarrow> cmd_request_id c \<noteq> 0 \<and> cmd_length c \<noteq> 0 \<and> cmd_npu_address c \<noteq> 0 \<and>
     cmd_npu_rkey c \<noteq> 0 \<and> cmd_npu_access c AND required_access (cmd_operation c) \<noteq> 0 \<and>
     (cmd_operation c = kRead \<or> cmd_operation c = kWrite)"

definition EncodeCommand :: "Command \<Rightarrow> bytes option" where
  "EncodeCommand c =
    (if \<not> command_ok c then None
     else
       let w = LeAppendU32 kProtocolMagic [];
           w = LeAppendU16 kProtocolVersion w;
           w = LeAppendU16 (cmd_operation c) w;
           w = LeAppendU64 (cmd_request_id c) w;
           w = LeAppendU64 (cmd_object_id c) w;
           w = LeAppendU64 (cmd_storage_offset c) w;
           w = LeAppendU64 (cmd_length c) w;
           w = LeAppendU64 (cmd_npu_address c) w;
           w = LeAppendU32 (cmd_npu_rkey c) w;
           w = LeAppendU32 (cmd_npu_access c) w
       in Some (LeAppendU64 0 w))"

definition DecodeCommand :: "bytes \<Rightarrow> Command option" where
  "DecodeCommand wire =
    (if length wire \<noteq> kCommandWireBytes then None
     else do {
       (magic, off) \<leftarrow> LeReadU32 wire 0;
       (version, off) \<leftarrow> LeReadU16 wire off;
       (operation, off) \<leftarrow> LeReadU16 wire off;
       (request_id, off) \<leftarrow> LeReadU64 wire off;
       (object_id, off) \<leftarrow> LeReadU64 wire off;
       (storage_offset, off) \<leftarrow> LeReadU64 wire off;
       (len, off) \<leftarrow> LeReadU64 wire off;
       (npu_address, off) \<leftarrow> LeReadU64 wire off;
       (npu_rkey, off) \<leftarrow> LeReadU32 wire off;
       (npu_access, off) \<leftarrow> LeReadU32 wire off;
       (reserved, off) \<leftarrow> LeReadU64 wire off;
       let c = \<lparr>cmd_request_id = request_id, cmd_operation = operation, cmd_object_id = object_id,
                cmd_storage_offset = storage_offset, cmd_length = len,
                cmd_npu_address = npu_address, cmd_npu_rkey = npu_rkey, cmd_npu_access = npu_access\<rparr>;
       if magic = kProtocolMagic \<and> version = kProtocolVersion \<and> reserved = 0 \<and> command_ok c
       then Some c else None
     })"

definition EncodeCompletion :: "Completion \<Rightarrow> bytes option" where
  "EncodeCompletion c =
    (if cpl_request_id c = 0 then None
     else
       let w = LeAppendU32 kProtocolMagic [];
           w = LeAppendU16 kProtocolVersion w;
           w = LeAppendU16 (ucast (cpl_status c)) w;
           w = LeAppendU64 (cpl_request_id c) w;
           w = LeAppendU64 (cpl_bytes c) w;
           w = LeAppendU32 (cpl_checksum c) w;
           w = LeAppendU32 (cpl_flags c) w
       in Some (LeAppendU64 0 w))"

definition DecodeCompletion :: "bytes \<Rightarrow> Completion option" where
  "DecodeCompletion wire =
    (if length wire \<noteq> kCompletionWireBytes then None
     else do {
       (magic, off) \<leftarrow> LeReadU32 wire 0;
       (version, off) \<leftarrow> LeReadU16 wire off;
       (status, off) \<leftarrow> LeReadU16 wire off;
       (request_id, off) \<leftarrow> LeReadU64 wire off;
       (bts, off) \<leftarrow> LeReadU64 wire off;
       (checksum, off) \<leftarrow> LeReadU32 wire off;
       (flags, off) \<leftarrow> LeReadU32 wire off;
       (reserved, off) \<leftarrow> LeReadU64 wire off;
       if magic = kProtocolMagic \<and> version = kProtocolVersion \<and> reserved = 0 \<and> request_id \<noteq> 0
       then Some \<lparr>cpl_request_id = request_id, cpl_status = ucast status, cpl_bytes = bts,
                  cpl_checksum = checksum, cpl_flags = flags\<rparr>
       else None
     })"

definition endpoint_ok :: "Endpoint \<Rightarrow> bool" where
  "endpoint_ok e \<longleftrightarrow> ep_qpn e \<noteq> 0 \<and> ep_psn e \<le> 0x00ffffff \<and> ep_port e \<noteq> 0 \<and> PathMtuBytes (ep_mtu e) \<noteq> 0"

definition EncodeEndpoint :: "Endpoint \<Rightarrow> bytes option" where
  "EncodeEndpoint e =
    (if \<not> endpoint_ok e then None
     else
       let w = ep_gid e;
           w = LeAppendU32 (ep_qpn e) w;
           w = LeAppendU32 (ep_psn e) w
       in Some (w @ [ep_port e, ep_gid_index e, ep_mtu e] @ replicate 5 0))"

definition DecodeEndpoint :: "bytes \<Rightarrow> Endpoint option" where
  "DecodeEndpoint wire =
    (if length wire \<noteq> kEndpointWireBytes then None
     else do {
       (qpn, off) \<leftarrow> LeReadU32 wire 16;
       (psn, off) \<leftarrow> LeReadU32 wire off;
       let e = \<lparr>ep_gid = take 16 wire, ep_qpn = qpn, ep_psn = psn, ep_port = wire ! off,
                ep_gid_index = wire ! (off + 1), ep_mtu = wire ! (off + 2)\<rparr>;
       if off + 8 = length wire \<and> endpoint_ok e \<and> bslice (off + 3) 5 wire = replicate 5 0
       then Some e else None
     })"

definition completion_window_ok :: "SessionRequest \<Rightarrow> bool" where
  "completion_window_ok r \<longleftrightarrow>
    (if sr_flags r AND kSessionFlagTcpControl \<noteq> 0
     then mw_address (sr_completion r) = 0 \<and> mw_length (sr_completion r) = 0 \<and>
          mw_rkey (sr_completion r) = 0 \<and> mw_access (sr_completion r) = 0
     else mw_address (sr_completion r) \<noteq> 0 \<and> of_nat kCompletionWireBytes \<le> mw_length (sr_completion r) \<and>
          mw_rkey (sr_completion r) \<noteq> 0 \<and> mw_access (sr_completion r) AND kMemoryRemoteWrite \<noteq> 0)"

definition EncodeSessionRequest :: "SessionRequest \<Rightarrow> bytes option" where
  "EncodeSessionRequest r =
    (if sr_flags r AND NOT kSessionKnownFlags \<noteq> 0 \<or> \<not> completion_window_ok r then None
     else do {
       ep \<leftarrow> EncodeEndpoint (sr_endpoint r);
       let w = LeAppendU32 kProtocolMagic [];
       let w = LeAppendU16 kProtocolVersion w;
       let w = LeAppendU16 (sr_flags r) w;
       let w = w @ ep;
       let w = LeAppendU64 (mw_address (sr_completion r)) w;
       let w = LeAppendU64 (mw_length (sr_completion r)) w;
       let w = LeAppendU32 (mw_rkey (sr_completion r)) w;
       let w = LeAppendU32 (mw_access (sr_completion r)) w;
       if length w = kSessionRequestWireBytes then Some w else None
     })"

definition DecodeSessionRequest :: "bytes \<Rightarrow> SessionRequest option" where
  "DecodeSessionRequest wire =
    (if length wire \<noteq> kSessionRequestWireBytes then None
     else do {
       (magic, off) \<leftarrow> LeReadU32 wire 0;
       (version, off) \<leftarrow> LeReadU16 wire off;
       (flags, off) \<leftarrow> LeReadU16 wire off;
       if magic \<noteq> kProtocolMagic \<or> version \<noteq> kProtocolVersion then None
       else do {
         ep \<leftarrow> DecodeEndpoint (bslice off kEndpointWireBytes wire);
         let off = off + kEndpointWireBytes;
         (address, off) \<leftarrow> LeReadU64 wire off;
         (len, off) \<leftarrow> LeReadU64 wire off;
         (rkey, off) \<leftarrow> LeReadU32 wire off;
         (access, off) \<leftarrow> LeReadU32 wire off;
         let r = \<lparr>sr_endpoint = ep, sr_completion = \<lparr>mw_address = address, mw_length = len,
                    mw_rkey = rkey, mw_access = access\<rparr>, sr_flags = flags\<rparr>;
         if flags AND NOT kSessionKnownFlags = 0 \<and> completion_window_ok r then Some r else None
       }
     })"

definition EncodeSessionResponse :: "SessionResponse \<Rightarrow> bytes option" where
  "EncodeSessionResponse r =
    (if sp_namespace_capacity r = 0 \<or> sp_max_transfer_bytes r = 0 then None
     else do {
       ep \<leftarrow> EncodeEndpoint (sp_endpoint r);
       let w = LeAppendU32 kProtocolMagic [];
       let w = LeAppendU16 kProtocolVersion w;
       let w = LeAppendU16 (sp_status r) w;
       let w = w @ ep;
       let w = LeAppendU64 (sp_namespace_capacity r) w;
       let w = LeAppendU64 (sp_max_transfer_bytes r) w;
       let w = LeAppendU32 (sp_server_capabilities r) w;
       let w = LeAppendU32 0 w;
       if length w = kSessionResponseWireBytes then Some w else None
     })"

definition DecodeSessionResponse :: "bytes \<Rightarrow> SessionResponse option" where
  "DecodeSessionResponse wire =
    (if length wire \<noteq> kSessionResponseWireBytes then None
     else do {
       (magic, off) \<leftarrow> LeReadU32 wire 0;
       (version, off) \<leftarrow> LeReadU16 wire off;
       (status, off) \<leftarrow> LeReadU16 wire off;
       if magic \<noteq> kProtocolMagic \<or> version \<noteq> kProtocolVersion then None
       else do {
         ep \<leftarrow> DecodeEndpoint (bslice off kEndpointWireBytes wire);
         let off = off + kEndpointWireBytes;
         (cap, off) \<leftarrow> LeReadU64 wire off;
         (max_transfer, off) \<leftarrow> LeReadU64 wire off;
         (caps, off) \<leftarrow> LeReadU32 wire off;
         (reserved, off) \<leftarrow> LeReadU32 wire off;
         if reserved = 0 \<and> cap \<noteq> 0 \<and> max_transfer \<noteq> 0
         then Some \<lparr>sp_endpoint = ep, sp_namespace_capacity = cap, sp_max_transfer_bytes = max_transfer,
                    sp_server_capabilities = caps, sp_status = status\<rparr>
         else None
       }
     })"

section \<open>Integer round trips\<close>

named_theorems wire_simps "offset-wise evaluation of little-endian reads"

definition le16 :: "u16 \<Rightarrow> bytes" where "le16 v = LeAppendU16 v []"
definition le32 :: "u32 \<Rightarrow> bytes" where "le32 v = LeAppendU32 v []"
definition le64 :: "u64 \<Rightarrow> bytes" where "le64 v = LeAppendU64 v []"

lemma length_le [simp]: "length (le16 v) = 2" "length (le32 w) = 4" "length (le64 x) = 8"
  by (simp_all add: le16_def le32_def le64_def LeAppendU16_def LeAppendU32_def LeAppendU64_def)

lemma LeAppend_le:
  "LeAppendU16 v out = out @ le16 v" "LeAppendU32 w out = out @ le32 w" "LeAppendU64 x out = out @ le64 x"
  by (simp_all add: le16_def le32_def le64_def LeAppendU16_def LeAppendU32_def LeAppendU64_def)

text \<open>The value at the front of a byte list.\<close>

definition load16 :: "bytes \<Rightarrow> u16" where
  "load16 d = shift_in (shift_in 0 (d ! 1)) (d ! 0)"
definition load32 :: "bytes \<Rightarrow> u32" where
  "load32 d = shift_in (shift_in (shift_in (shift_in 0 (d ! 3)) (d ! 2)) (d ! 1)) (d ! 0)"
definition load64 :: "bytes \<Rightarrow> u64" where
  "load64 d = fold (\<lambda>i v. shift_in v (d ! i)) [7, 6, 5, 4, 3, 2, 1, 0] 0"

lemma LeReadU16_drop:
  "LeReadU16 wire off = (if length (drop off wire) < 2 then None
     else Some (load16 (drop off wire), off + 2))"
  by (auto simp: LeReadU16_def load16_def shift_in_def or.commute)

lemma LeReadU32_drop:
  "LeReadU32 wire off = (if length (drop off wire) < 4 then None
     else Some (load32 (drop off wire), off + 4))"
  by (auto simp: LeReadU32_def load32_def shift_in_def push_bit_or ac_simps)

lemma LeReadU64_drop:
  "LeReadU64 wire off = (if length (drop off wire) < 8 then None
     else Some (load64 (drop off wire), off + 8))"
  by (auto simp: LeReadU64_def load64_def shift_in_def push_bit_or ac_simps)

lemma load16_le [simp]: "load16 (le16 v @ rest) = v"
  using shift_in_byte_at [of 8 v] shift_in_byte_at [of 0 v]
  by (simp add: load16_def le16_def LeAppendU16_def)

lemma load32_le [simp]: "load32 (le32 v @ rest) = v"
  using shift_in_byte_at [of 24 v] shift_in_byte_at [of 16 v] shift_in_byte_at [of 8 v]
    shift_in_byte_at [of 0 v]
  by (simp add: load32_def le32_def LeAppendU32_def)

lemma load64_le [simp]: "load64 (le64 v @ rest) = v"
  using shift_in_byte_at [of 56 v] shift_in_byte_at [of 48 v] shift_in_byte_at [of 40 v]
    shift_in_byte_at [of 32 v] shift_in_byte_at [of 24 v] shift_in_byte_at [of 16 v]
    shift_in_byte_at [of 8 v] shift_in_byte_at [of 0 v]
  by (simp add: load64_def le64_def LeAppendU64_def)

lemma load_le_all [simp]: "load16 (le16 v) = v" "load32 (le32 w) = w" "load64 (le64 x) = x"
  using load16_le [of v "[]"] load32_le [of w "[]"] load64_le [of x "[]"] by simp_all

lemma le16_load:
  assumes "2 \<le> length d"
  shows "le16 (load16 d) = take 2 d"
proof -
  from assms obtain a b r where "d = a # b # r"
    by (auto simp: numeral_eq_Suc Suc_le_length_iff)
  then show ?thesis by (simp add: load16_def le16_def LeAppendU16_def byte_simps)
qed

lemma le32_load:
  assumes "4 \<le> length d"
  shows "le32 (load32 d) = take 4 d"
proof -
  from assms obtain a b c e r where "d = a # b # c # e # r"
    by (auto simp: numeral_eq_Suc Suc_le_length_iff)
  then show ?thesis by (simp add: load32_def le32_def LeAppendU32_def byte_simps)
qed

lemma le64_load:
  assumes "8 \<le> length d"
  shows "le64 (load64 d) = take 8 d"
proof -
  from assms obtain a0 a1 a2 a3 a4 a5 a6 a7 r where "d = a0 # a1 # a2 # a3 # a4 # a5 # a6 # a7 # r"
    by (auto simp: numeral_eq_Suc Suc_le_length_iff)
  then show ?thesis by (simp add: load64_def le64_def LeAppendU64_def byte_simps)
qed

lemmas le_read [wire_simps] = LeReadU16_drop LeReadU32_drop LeReadU64_drop

section \<open>Message layouts\<close>

lemma EncodeCommand_layout:
  "EncodeCommand c = (if command_ok c then Some (le32 kProtocolMagic @ le16 kProtocolVersion @
     le16 (cmd_operation c) @ le64 (cmd_request_id c) @ le64 (cmd_object_id c) @
     le64 (cmd_storage_offset c) @ le64 (cmd_length c) @ le64 (cmd_npu_address c) @
     le32 (cmd_npu_rkey c) @ le32 (cmd_npu_access c) @ le64 0) else None)"
  by (simp add: EncodeCommand_def LeAppend_le Let_def)

lemma EncodeCompletion_layout:
  "EncodeCompletion c = (if cpl_request_id c \<noteq> 0 then Some (le32 kProtocolMagic @
     le16 kProtocolVersion @ le16 (ucast (cpl_status c)) @ le64 (cpl_request_id c) @
     le64 (cpl_bytes c) @ le32 (cpl_checksum c) @ le32 (cpl_flags c) @ le64 0) else None)"
  by (simp add: EncodeCompletion_def LeAppend_le Let_def)

lemma EncodeEndpoint_layout:
  "EncodeEndpoint e = (if endpoint_ok e then Some (ep_gid e @ le32 (ep_qpn e) @ le32 (ep_psn e) @
     [ep_port e, ep_gid_index e, ep_mtu e] @ replicate 5 0) else None)"
  by (simp add: EncodeEndpoint_def LeAppend_le Let_def)

lemma EncodeSessionRequest_layout:
  assumes "length (ep_gid (sr_endpoint r)) = 16"
  shows "EncodeSessionRequest r =
    (if sr_flags r AND NOT kSessionKnownFlags = 0 \<and> completion_window_ok r
     then (case EncodeEndpoint (sr_endpoint r) of
         None \<Rightarrow> None
       | Some ep \<Rightarrow> Some (le32 kProtocolMagic @ le16 kProtocolVersion @ le16 (sr_flags r) @ ep @
           le64 (mw_address (sr_completion r)) @ le64 (mw_length (sr_completion r)) @
           le32 (mw_rkey (sr_completion r)) @ le32 (mw_access (sr_completion r))))
     else None)"
  using assms
  by (simp add: EncodeSessionRequest_def LeAppend_le Let_def EncodeEndpoint_layout roce_sizes)

lemma EncodeSessionResponse_layout:
  assumes "length (ep_gid (sp_endpoint r)) = 16"
  shows "EncodeSessionResponse r =
    (if sp_namespace_capacity r \<noteq> 0 \<and> sp_max_transfer_bytes r \<noteq> 0
     then (case EncodeEndpoint (sp_endpoint r) of
         None \<Rightarrow> None
       | Some ep \<Rightarrow> Some (le32 kProtocolMagic @ le16 kProtocolVersion @ le16 (sp_status r) @ ep @
           le64 (sp_namespace_capacity r) @ le64 (sp_max_transfer_bytes r) @
           le32 (sp_server_capabilities r) @ le32 0))
     else None)"
  using assms
  by (simp add: EncodeSessionResponse_def LeAppend_le Let_def EncodeEndpoint_layout roce_sizes)

section \<open>Decoders invert encoders\<close>

lemma EncodeCommand_decode: "EncodeCommand c = Some w \<Longrightarrow> DecodeCommand w = Some c"
  by (cases c) (auto simp: EncodeCommand_layout DecodeCommand_def roce_sizes wire_simps Let_def
      split: if_splits)

lemma EncodeCompletion_decode:
  "EncodeCompletion c = Some w \<Longrightarrow> unat (cpl_status c) < 2 ^ 16 \<Longrightarrow> DecodeCompletion w = Some c"
proof -
  assume enc: "EncodeCompletion c = Some w" and "unat (cpl_status c) < 2 ^ 16"
  then have "ucast (ucast (cpl_status c) :: u16) = cpl_status c" by (simp add: narrow_widen_u16)
  with enc show ?thesis
    by (cases c) (auto simp: EncodeCompletion_layout DecodeCompletion_def roce_sizes wire_simps Let_def
      split: if_splits)
qed

lemma EncodeEndpoint_decode:
  "EncodeEndpoint e = Some w \<Longrightarrow> length (ep_gid e) = 16 \<Longrightarrow> DecodeEndpoint w = Some e \<and> length w = 32"
  by (cases e) (auto simp: EncodeEndpoint_layout DecodeEndpoint_def roce_sizes wire_simps Let_def
      bslice_def nth_append split: if_splits)

lemma EncodeSessionRequest_decode:
  assumes "EncodeSessionRequest r = Some w" "length (ep_gid (sr_endpoint r)) = 16"
  shows "DecodeSessionRequest w = Some r"
proof -
  from assms obtain ep where ep: "EncodeEndpoint (sr_endpoint r) = Some ep"
    by (auto simp: EncodeSessionRequest_layout split: if_splits option.splits)
  have "DecodeEndpoint ep = Some (sr_endpoint r)" "length ep = 32"
    using EncodeEndpoint_decode [OF ep assms(2)] by simp_all
  with assms ep show ?thesis
    by (cases r; cases "sr_completion r")
      (auto simp: EncodeSessionRequest_layout DecodeSessionRequest_def roce_sizes wire_simps Let_def
        bslice_def split: if_splits)
qed

lemma EncodeSessionResponse_decode:
  assumes "EncodeSessionResponse r = Some w" "length (ep_gid (sp_endpoint r)) = 16"
  shows "DecodeSessionResponse w = Some r"
proof -
  from assms obtain ep where ep: "EncodeEndpoint (sp_endpoint r) = Some ep"
    by (auto simp: EncodeSessionResponse_layout split: if_splits option.splits)
  have "DecodeEndpoint ep = Some (sp_endpoint r)" "length ep = 32"
    using EncodeEndpoint_decode [OF ep assms(2)] by simp_all
  with assms ep show ?thesis
    by (cases r) (auto simp: EncodeSessionResponse_layout DecodeSessionResponse_def roce_sizes
        wire_simps Let_def bslice_def split: if_splits)
qed

section \<open>Decoders accept nothing else\<close>

lemma bind_Some_iff: "(Option.bind x f = Some y) \<longleftrightarrow> (\<exists>z. x = Some z \<and> f z = Some y)"
  by (cases x) simp_all

lemma DecodeCommand_encode:
  assumes "DecodeCommand w = Some c"
  shows "EncodeCommand c = Some w"
proof -
  have len: "length w = 64" using assms by (auto simp: DecodeCommand_def roce_sizes split: if_splits)
  then have f: "load32 w = kProtocolMagic" "load16 (drop 4 w) = kProtocolVersion"
      "load64 (drop 56 w) = 0" "command_ok c"
      "c = \<lparr>cmd_request_id = load64 (drop 8 w), cmd_operation = load16 (drop 6 w),
        cmd_object_id = load64 (drop 16 w), cmd_storage_offset = load64 (drop 24 w),
        cmd_length = load64 (drop 32 w), cmd_npu_address = load64 (drop 40 w),
        cmd_npu_rkey = load32 (drop 48 w), cmd_npu_access = load32 (drop 52 w)\<rparr>"
    using assms by (auto simp: DecodeCommand_def roce_sizes wire_simps Let_def split: if_splits)
  have "w = le32 (load32 w) @ le16 (load16 (drop 4 w)) @ le16 (load16 (drop 6 w)) @
      le64 (load64 (drop 8 w)) @ le64 (load64 (drop 16 w)) @ le64 (load64 (drop 24 w)) @
      le64 (load64 (drop 32 w)) @ le64 (load64 (drop 40 w)) @ le32 (load32 (drop 48 w)) @
      le32 (load32 (drop 52 w)) @ le64 (load64 (drop 56 w))"
    using fields_whole [of w "[4, 2, 2, 8, 8, 8, 8, 8, 4, 4, 8]"] len
    by (simp add: le16_load le32_load le64_load)
  with f show ?thesis by (simp add: EncodeCommand_layout)
qed

lemma DecodeCompletion_encode:
  assumes "DecodeCompletion w = Some c"
  shows "EncodeCompletion c = Some w \<and> unat (cpl_status c) < 2 ^ 16"
proof -
  have len: "length w = 40" using assms by (auto simp: DecodeCompletion_def roce_sizes split: if_splits)
  then have f: "load32 w = kProtocolMagic" "load16 (drop 4 w) = kProtocolVersion"
      "load64 (drop 32 w) = 0" "cpl_request_id c \<noteq> 0"
      "c = \<lparr>cpl_request_id = load64 (drop 8 w), cpl_status = ucast (load16 (drop 6 w)),
        cpl_bytes = load64 (drop 16 w), cpl_checksum = load32 (drop 24 w),
        cpl_flags = load32 (drop 28 w)\<rparr>"
    using assms by (auto simp: DecodeCompletion_def roce_sizes wire_simps Let_def split: if_splits)
  have "w = le32 (load32 w) @ le16 (load16 (drop 4 w)) @ le16 (load16 (drop 6 w)) @
      le64 (load64 (drop 8 w)) @ le64 (load64 (drop 16 w)) @ le32 (load32 (drop 24 w)) @
      le32 (load32 (drop 28 w)) @ le64 (load64 (drop 32 w))"
    using fields_whole [of w "[4, 2, 2, 8, 8, 4, 4, 8]"] len
    by (simp add: le16_load le32_load le64_load)
  moreover have "unat (ucast (load16 (drop 6 w)) :: u32) < 2 ^ 16"
    by (rule widen_u16_less)
  moreover have "ucast (ucast (load16 (drop 6 w)) :: u32) = load16 (drop 6 w)"
    by (rule widen_narrow_u16)
  ultimately show ?thesis using f by (simp add: EncodeCompletion_layout)
qed

lemma DecodeEndpoint_encode:
  assumes "DecodeEndpoint w = Some e"
  shows "EncodeEndpoint e = Some w \<and> length (ep_gid e) = 16"
proof -
  have len: "length w = 32" using assms by (auto simp: DecodeEndpoint_def roce_sizes split: if_splits)
  then have f: "endpoint_ok e" "take 5 (drop 27 w) = replicate 5 0"
      "e = \<lparr>ep_gid = take 16 w, ep_qpn = load32 (drop 16 w), ep_psn = load32 (drop 20 w),
        ep_port = w ! 24, ep_gid_index = w ! 25, ep_mtu = w ! 26\<rparr>"
    using assms
    by (auto simp: DecodeEndpoint_def roce_sizes wire_simps Let_def bslice_def split: if_splits)
  have one: "take (Suc 0) (drop n w) = [w ! n]" if "n < 32" for n
    using that len by (simp add: take_Suc_conv_app_nth)
  have "w = take 16 w @ le32 (load32 (drop 16 w)) @ le32 (load32 (drop 20 w)) @
      [w ! 24] @ [w ! 25] @ [w ! 26] @ take 5 (drop 27 w)"
    using fields_whole [of w "[16, 4, 4, 1, 1, 1, 5]"] len one [of 24] one [of 25] one [of 26]
    by (simp add: le32_load)
  with f len show ?thesis by (simp add: EncodeEndpoint_layout)
qed

lemma DecodeSessionRequest_encode:
  assumes "DecodeSessionRequest w = Some r"
  shows "EncodeSessionRequest r = Some w \<and> length (ep_gid (sr_endpoint r)) = 16"
proof -
  have len: "length w = 64"
    using assms by (auto simp: DecodeSessionRequest_def roce_sizes split: if_splits)
  then obtain ep where f: "load32 w = kProtocolMagic" "load16 (drop 4 w) = kProtocolVersion"
      "DecodeEndpoint (take 32 (drop 8 w)) = Some ep" "completion_window_ok r"
      "sr_flags r AND NOT kSessionKnownFlags = 0"
      "r = \<lparr>sr_endpoint = ep, sr_completion = \<lparr>mw_address = load64 (drop 40 w),
        mw_length = load64 (drop 48 w), mw_rkey = load32 (drop 56 w), mw_access = load32 (drop 60 w)\<rparr>,
        sr_flags = load16 (drop 6 w)\<rparr>"
    using assms
    by (auto simp: DecodeSessionRequest_def roce_sizes wire_simps Let_def bslice_def bind_Some_iff
        split: if_splits)
  note ep = DecodeEndpoint_encode [OF f(3)]
  have "w = le32 (load32 w) @ le16 (load16 (drop 4 w)) @ le16 (load16 (drop 6 w)) @
      take 32 (drop 8 w) @ le64 (load64 (drop 40 w)) @ le64 (load64 (drop 48 w)) @
      le32 (load32 (drop 56 w)) @ le32 (load32 (drop 60 w))"
    using fields_whole [of w "[4, 2, 2, 32, 8, 8, 4, 4]"] len
    by (simp add: le16_load le32_load le64_load)
  with f ep show ?thesis by (simp add: EncodeSessionRequest_layout)
qed

lemma DecodeSessionResponse_encode:
  assumes "DecodeSessionResponse w = Some r"
  shows "EncodeSessionResponse r = Some w \<and> length (ep_gid (sp_endpoint r)) = 16"
proof -
  have len: "length w = 64"
    using assms by (auto simp: DecodeSessionResponse_def roce_sizes split: if_splits)
  then obtain ep where f: "load32 w = kProtocolMagic" "load16 (drop 4 w) = kProtocolVersion"
      "DecodeEndpoint (take 32 (drop 8 w)) = Some ep" "load32 (drop 60 w) = 0"
      "sp_namespace_capacity r \<noteq> 0" "sp_max_transfer_bytes r \<noteq> 0"
      "r = \<lparr>sp_endpoint = ep, sp_namespace_capacity = load64 (drop 40 w),
        sp_max_transfer_bytes = load64 (drop 48 w), sp_server_capabilities = load32 (drop 56 w),
        sp_status = load16 (drop 6 w)\<rparr>"
    using assms
    by (auto simp: DecodeSessionResponse_def roce_sizes wire_simps Let_def bslice_def bind_Some_iff
        split: if_splits)
  note ep = DecodeEndpoint_encode [OF f(3)]
  have "w = le32 (load32 w) @ le16 (load16 (drop 4 w)) @ le16 (load16 (drop 6 w)) @
      take 32 (drop 8 w) @ le64 (load64 (drop 40 w)) @ le64 (load64 (drop 48 w)) @
      le32 (load32 (drop 56 w)) @ le32 (load32 (drop 60 w))"
    using fields_whole [of w "[4, 2, 2, 32, 8, 8, 4, 4]"] len
    by (simp add: le16_load le32_load le64_load)
  with f ep show ?thesis by (simp add: EncodeSessionResponse_layout)
qed

section \<open>Codecs as an interface\<close>

text \<open>
  A fixed-size message codec: the encoder produces exactly \<open>size\<close> bytes, the decoder inverts it on
  representable messages and accepts only what the encoder produces.
\<close>

locale wire_codec =
  fixes encode :: "'m \<Rightarrow> bytes option"
    and decode :: "bytes \<Rightarrow> 'm option"
    and representable :: "'m \<Rightarrow> bool"
    and wire_size :: nat
  assumes enc_dec: "encode m = Some w \<Longrightarrow> representable m \<Longrightarrow> decode w = Some m"
    and dec_enc: "decode w = Some m \<Longrightarrow> encode m = Some w \<and> representable m"
    and dec_size: "decode w = Some m \<Longrightarrow> length w = wire_size"
begin

lemma decode_iff: "decode w = Some m \<longleftrightarrow> encode m = Some w \<and> representable m"
  using enc_dec dec_enc by blast

lemma encode_size: "encode m = Some w \<Longrightarrow> representable m \<Longrightarrow> length w = wire_size"
  using enc_dec dec_size by blast

lemma decode_inj: "decode w = Some m \<Longrightarrow> decode w' = Some m \<Longrightarrow> w = w'"
  by (metis dec_enc option.inject)

lemma stream_unique:
  assumes "encode m = Some w" "representable m" "encode m' = Some w'" "representable m'"
    "w @ r = w' @ r'"
  shows "m = m' \<and> r = r'"
proof -
  have "length w = length w'" using encode_size assms(1-4) by metis
  with assms(5) have "w = w'" "r = r'" by simp_all
  then show ?thesis using assms enc_dec by (metis option.inject)
qed

end

lemma decode_sizes:
  "DecodeCommand w = Some c \<Longrightarrow> length w = kCommandWireBytes"
  "DecodeCompletion w = Some p \<Longrightarrow> length w = kCompletionWireBytes"
  "DecodeEndpoint w = Some e \<Longrightarrow> length w = kEndpointWireBytes"
  "DecodeSessionRequest w = Some q \<Longrightarrow> length w = kSessionRequestWireBytes"
  "DecodeSessionResponse w = Some r \<Longrightarrow> length w = kSessionResponseWireBytes"
  by (auto simp: DecodeCommand_def DecodeCompletion_def DecodeEndpoint_def DecodeSessionRequest_def
      DecodeSessionResponse_def split: if_splits)

interpretation command_codec:
  wire_codec EncodeCommand DecodeCommand "\<lambda>_. True" kCommandWireBytes
  using EncodeCommand_decode DecodeCommand_encode decode_sizes(1) by unfold_locales blast+

interpretation completion_codec:
  wire_codec EncodeCompletion DecodeCompletion "\<lambda>c. unat (cpl_status c) < 2 ^ 16" kCompletionWireBytes
  using EncodeCompletion_decode DecodeCompletion_encode decode_sizes(2) by unfold_locales blast+

interpretation endpoint_codec:
  wire_codec EncodeEndpoint DecodeEndpoint "\<lambda>e. length (ep_gid e) = 16" kEndpointWireBytes
  using EncodeEndpoint_decode DecodeEndpoint_encode decode_sizes(3) by unfold_locales blast+

interpretation request_codec:
  wire_codec EncodeSessionRequest DecodeSessionRequest "\<lambda>r. length (ep_gid (sr_endpoint r)) = 16"
    kSessionRequestWireBytes
  using EncodeSessionRequest_decode DecodeSessionRequest_encode decode_sizes(4)
  by unfold_locales blast+

interpretation response_codec:
  wire_codec EncodeSessionResponse DecodeSessionResponse "\<lambda>r. length (ep_gid (sp_endpoint r)) = 16"
    kSessionResponseWireBytes
  using EncodeSessionResponse_decode DecodeSessionResponse_encode decode_sizes(5)
  by unfold_locales blast+

text \<open>Commands.  The command codec is a bijection between the valid commands and the accepted
  64-byte blocks: a block decodes to a command exactly when that command encodes to the block, and
  a command is encodable exactly when it names a request, a length, a registered NPU window and an
  access right that suits its operation.\<close>

theorem command_codec_exact:
  "(DecodeCommand w = Some c \<longleftrightarrow> EncodeCommand c = Some w) \<and>
   ((\<exists>v. EncodeCommand c = Some v \<and> length v = kCommandWireBytes) \<longleftrightarrow> command_ok c)"
proof
  show "DecodeCommand w = Some c \<longleftrightarrow> EncodeCommand c = Some w"
    using command_codec.decode_iff by simp
  show "(\<exists>v. EncodeCommand c = Some v \<and> length v = kCommandWireBytes) \<longleftrightarrow> command_ok c"
    by (auto simp: EncodeCommand_layout kCommandWireBytes_def)
qed

text \<open>Property C17. Completions.  A 40-byte block decodes to a completion exactly when that completion has a
  16-bit status and encodes to the block; a status of 16 bits or more is silently truncated on the
  wire, so the peer decodes the completion with the low half of the status.\<close>

theorem completion_codec_exact:
  "(DecodeCompletion w = Some c \<longleftrightarrow> EncodeCompletion c = Some w \<and> unat (cpl_status c) < 2 ^ 16) \<and>
   (cpl_request_id c = 0 \<or> Option.bind (EncodeCompletion c) DecodeCompletion =
      Some (c\<lparr>cpl_status := ucast (ucast (cpl_status c) :: u16)\<rparr>))"
proof
  show "DecodeCompletion w = Some c \<longleftrightarrow> EncodeCompletion c = Some w \<and> unat (cpl_status c) < 2 ^ 16"
    by (rule completion_codec.decode_iff)
  let ?t = "ucast (ucast (cpl_status c) :: u16) :: u32"
  have "EncodeCompletion (c\<lparr>cpl_status := ?t\<rparr>) = EncodeCompletion c"
    by (simp add: EncodeCompletion_layout widen_narrow_u16)
  moreover have "unat ?t < 2 ^ 16" by (rule widen_u16_less)
  ultimately have "DecodeCompletion v = Some (c\<lparr>cpl_status := ?t\<rparr>)" if "EncodeCompletion c = Some v" for v
    using that by (intro EncodeCompletion_decode) simp_all
  then show "cpl_request_id c = 0 \<or> Option.bind (EncodeCompletion c) DecodeCompletion =
      Some (c\<lparr>cpl_status := ?t\<rparr>)"
    by (cases "EncodeCompletion c") (auto simp: EncodeCompletion_layout split: if_splits)
qed

text \<open>Session establishment.  Session requests and responses decode exactly when they are what the
  encoder produces for an endpoint with a 16-byte GID; in particular a decoded request carries a
  usable completion window if and only if it did not ask for TCP control, and only known flags.\<close>

theorem session_codec_exact:
  "(DecodeSessionRequest w = Some q \<longleftrightarrow>
      EncodeSessionRequest q = Some w \<and> length (ep_gid (sr_endpoint q)) = 16) \<and>
   (DecodeSessionResponse v = Some p \<longleftrightarrow>
      EncodeSessionResponse p = Some v \<and> length (ep_gid (sp_endpoint p)) = 16)"
  using request_codec.decode_iff response_codec.decode_iff by blast

end
