(* ===== verification/Roce_Session.thy ===== *)
theory Roce_Session
  imports Roce_Wire
begin

text \<open>
  The lifecycle of a RoCE storage session and the naming functions around it (\<open>SessionLifecycle\<close> and
  the tail of \<open>src/roce_storage/roce_storage.cc\<close>).

  Each method of \<open>SessionLifecycle\<close> is a function from the lifecycle to its result and successor.
  \<open>lc_reachable\<close> relates the calls that an arbitrary caller has made with success to the state they
  leave, with any number of refused calls in between; the theorem at the end characterises it
  exactly.
\<close>

section \<open>Lifecycle\<close>

datatype SessionState = kCreated | kLocalResourcesReady | kBootstrapped | kConnected
  | kRequestInFlight | kClosed | kFailed

record SessionLifecycle =
  lc_state :: SessionState
  lc_active_request_id :: u64

definition new_lifecycle :: SessionLifecycle where
  "new_lifecycle = \<lparr>lc_state = kCreated, lc_active_request_id = 0\<rparr>"

definition LocalResourcesReady :: "SessionLifecycle \<Rightarrow> bool \<times> SessionLifecycle" where
  "LocalResourcesReady l =
    (if lc_state l \<noteq> kCreated then (False, l) else (True, l\<lparr>lc_state := kLocalResourcesReady\<rparr>))"

definition Bootstrapped :: "SessionLifecycle \<Rightarrow> bool \<times> SessionLifecycle" where
  "Bootstrapped l =
    (if lc_state l \<noteq> kLocalResourcesReady then (False, l) else (True, l\<lparr>lc_state := kBootstrapped\<rparr>))"

definition Connected :: "SessionLifecycle \<Rightarrow> bool \<times> SessionLifecycle" where
  "Connected l =
    (if lc_state l \<noteq> kBootstrapped then (False, l) else (True, l\<lparr>lc_state := kConnected\<rparr>))"

definition BeginRequest :: "u64 \<Rightarrow> SessionLifecycle \<Rightarrow> bool \<times> SessionLifecycle" where
  "BeginRequest rid l =
    (if lc_state l \<noteq> kConnected \<or> rid = 0 then (False, l)
     else (True, l\<lparr>lc_active_request_id := rid, lc_state := kRequestInFlight\<rparr>))"

definition CompleteRequest :: "u64 \<Rightarrow> SessionLifecycle \<Rightarrow> bool \<times> SessionLifecycle" where
  "CompleteRequest rid l =
    (if lc_state l \<noteq> kRequestInFlight \<or> rid \<noteq> lc_active_request_id l then (False, l)
     else (True, l\<lparr>lc_active_request_id := 0, lc_state := kConnected\<rparr>))"

definition FailSession :: "SessionLifecycle \<Rightarrow> bool \<times> SessionLifecycle" where
  "FailSession l =
    (if lc_state l = kClosed then (False, l)
     else (True, l\<lparr>lc_active_request_id := 0, lc_state := kFailed\<rparr>))"

definition CloseSession :: "SessionLifecycle \<Rightarrow> bool \<times> SessionLifecycle" where
  "CloseSession l =
    (if lc_state l = kRequestInFlight \<or> lc_state l = kClosed then (False, l)
     else (True, l\<lparr>lc_active_request_id := 0, lc_state := kClosed\<rparr>))"

lemmas lc_defs = LocalResourcesReady_def Bootstrapped_def Connected_def BeginRequest_def
  CompleteRequest_def FailSession_def CloseSession_def

datatype lc_call = CallLocal | CallBootstrapped | CallConnected | CallBegin u64 | CallComplete u64
  | CallFail | CallClose

fun lc_apply :: "lc_call \<Rightarrow> SessionLifecycle \<Rightarrow> bool \<times> SessionLifecycle" where
  "lc_apply CallLocal l = LocalResourcesReady l"
| "lc_apply CallBootstrapped l = Bootstrapped l"
| "lc_apply CallConnected l = Connected l"
| "lc_apply (CallBegin r) l = BeginRequest r l"
| "lc_apply (CallComplete r) l = CompleteRequest r l"
| "lc_apply CallFail l = FailSession l"
| "lc_apply CallClose l = CloseSession l"

text \<open>A caller's history: the calls that succeeded, latest first.\<close>

inductive lc_reachable :: "lc_call list \<Rightarrow> SessionLifecycle \<Rightarrow> bool" where
  lc_new: "lc_reachable [] new_lifecycle"
| lc_ok: "lc_reachable h l \<Longrightarrow> lc_apply c l = (True, l') \<Longrightarrow> lc_reachable (c # h) l'"
| lc_refused: "lc_reachable h l \<Longrightarrow> lc_apply c l = (False, l') \<Longrightarrow> lc_reachable h l'"

section \<open>Names\<close>

fun ControlModeName :: "ControlMode \<Rightarrow> string" where
  "ControlModeName CtlTcp = ''tcp''"
| "ControlModeName CtlNpuRa = ''npu-ra''"

fun TransferModeName :: "TransferMode \<Rightarrow> string" where
  "TransferModeName TransferPush = ''push''"
| "TransferModeName TransferPull = ''pull''"

fun DataPlaneRouteName :: "DataPlaneRoute \<Rightarrow> string" where
  "DataPlaneRouteName LocalHostVerbs = ''local-host-verbs''"
| "DataPlaneRouteName LocalNpuRaRelay = ''npu-ra-relay''"
| "DataPlaneRouteName RemoteRnic = ''remote-rnic''"

definition DataPlaneRouteImplemented :: "DataPlaneRoute \<Rightarrow> bool" where
  "DataPlaneRouteImplemented r \<longleftrightarrow> r = LocalHostVerbs \<or> r = LocalNpuRaRelay \<or> r = RemoteRnic"

definition SessionTransferMode :: "SessionRequest \<Rightarrow> TransferMode" where
  "SessionTransferMode r =
    (if sr_flags r AND kSessionFlagPullTransfer \<noteq> 0 then TransferPull else TransferPush)"

definition MakeHostRaSuccessMarker ::
  "ControlMode \<Rightarrow> TransferMode \<Rightarrow> u16 \<Rightarrow> u32 \<Rightarrow> string" where
  "MakeHostRaSuccessMarker mode transfer op caps =
    (let backend = (if caps AND kServerCapabilityPosixNamespace \<noteq> 0 then ''posix'' else ''memory'');
         proxied = (caps AND kServerCapabilityControlProxyUsed \<noteq> 0)
     in ''roce_storage=host-ra-passed roce_protocol=flume-roce-v2 '' @
        ''control_path='' @ ControlModeName mode @ '' '' @
        ''transfer_mode='' @ TransferModeName transfer @ '' '' @
        ''npu_hbm_mr=registered qp_state=rtr-rts server_rdma_cq=success '' @
        ''compute_host_payload_bytes=0 compute_host_post=used '' @
        (if mode = CtlTcp then ''command_path=tcp completion_path=tcp ''
         else ''command_path=npu-ra-send completion_path=rdma-write-to-npu-hbm '') @
        ''control_proxy='' @ (if proxied then ''used'' else ''not-used'') @ '' '' @
        (if caps AND kServerCapabilityNpuRaRelay \<noteq> 0 then ''data_plane=npu-ra-relay ''
         else if proxied then ''data_plane=remote-rnic ''
         else ''data_plane=local-host-verbs '') @
        ''payload_path='' @
        (if op = kRead then ''server-'' @ backend @ ''->rnic->npu-hbm''
         else ''npu-hbm->rnic->server-'' @ backend) @
        '' storage_side_staging=used fallback=none'')"

section \<open>Histories\<close>

lemma lc_refused_same: "lc_apply c l = (False, l') \<Longrightarrow> l' = l"
  by (cases c) (auto simp: lc_defs split: if_splits)

text \<open>
  The histories a session admits, written down without the code's states: a prefix of the three
  set-up calls; once set-up is complete, requests that begin under a non-zero identifier and
  complete under the same one, the last of which may be pending; then any number of failures; then
  at most one close, which a pending request allows only after a failure.
\<close>

definition lc_lawful :: "nat \<Rightarrow> u64 list \<Rightarrow> u64 option \<Rightarrow> nat \<Rightarrow> bool \<Rightarrow> bool" where
  "lc_lawful n rs pend k closed \<longleftrightarrow> n \<le> 3 \<and> 0 \<notin> set rs \<and> pend \<noteq> Some 0 \<and>
     (n = 3 \<or> rs = [] \<and> pend = None) \<and> (closed \<and> pend \<noteq> None \<longrightarrow> k \<noteq> 0)"

definition lc_requests :: "u64 list \<Rightarrow> lc_call list" where
  "lc_requests rs = concat (map (\<lambda>r. [CallBegin r, CallComplete r]) rs)"

definition lc_word :: "nat \<Rightarrow> u64 list \<Rightarrow> u64 option \<Rightarrow> nat \<Rightarrow> bool \<Rightarrow> lc_call list" where
  "lc_word n rs pend k closed =
     take n [CallLocal, CallBootstrapped, CallConnected] @ lc_requests rs @
     (case pend of None \<Rightarrow> [] | Some r \<Rightarrow> [CallBegin r]) @ replicate k CallFail @
     (if closed then [CallClose] else [])"

text \<open>The lifecycle such a history leaves.\<close>

definition lc_final :: "nat \<Rightarrow> u64 option \<Rightarrow> nat \<Rightarrow> bool \<Rightarrow> SessionLifecycle" where
  "lc_final n pend k closed =
    (if closed then \<lparr>lc_state = kClosed, lc_active_request_id = 0\<rparr>
     else if k \<noteq> 0 then \<lparr>lc_state = kFailed, lc_active_request_id = 0\<rparr>
     else case pend of
       Some r \<Rightarrow> \<lparr>lc_state = kRequestInFlight, lc_active_request_id = r\<rparr>
     | None \<Rightarrow> \<lparr>lc_state = [kCreated, kLocalResourcesReady, kBootstrapped, kConnected] ! n,
                lc_active_request_id = 0\<rparr>)"

lemmas lc_shape = lc_lawful_def lc_word_def lc_final_def lc_requests_def

lemma setup_index: "n \<le> 3 \<longleftrightarrow> n = 0 \<or> n = 1 \<or> n = 2 \<or> n = (3::nat)"
  by auto

text \<open>Every accepted call extends a lawful history to a lawful one.\<close>

lemma lc_apply_lawful:
  assumes "lc_lawful n rs pend k closed" "lc_apply c (lc_final n pend k closed) = (True, l')"
  shows "\<exists>n' rs' pend' k' closed'. lc_lawful n' rs' pend' k' closed' \<and>
    lc_word n rs pend k closed @ [c] = lc_word n' rs' pend' k' closed' \<and> l' = lc_final n' pend' k' closed'"
proof (cases c)
  case CallLocal
  with assms have "n = 0" "rs = []" "pend = None" "k = 0" "\<not> closed"
    by (auto simp: lc_shape lc_defs setup_index split: if_splits option.splits)
  with CallLocal assms show ?thesis
    by (intro exI [of _ 1] exI [of _ "[]"] exI [of _ None] exI [of _ 0] exI [of _ False])
      (auto simp: lc_shape lc_defs)
next
  case CallBootstrapped
  with assms have "n = 1" "rs = []" "pend = None" "k = 0" "\<not> closed"
    by (auto simp: lc_shape lc_defs setup_index split: if_splits option.splits)
  with CallBootstrapped assms show ?thesis
    by (intro exI [of _ 2] exI [of _ "[]"] exI [of _ None] exI [of _ 0] exI [of _ False])
      (auto simp: lc_shape lc_defs)
next
  case CallConnected
  with assms have "n = 2" "rs = []" "pend = None" "k = 0" "\<not> closed"
    by (auto simp: lc_shape lc_defs setup_index split: if_splits option.splits)
  with CallConnected assms show ?thesis
    by (intro exI [of _ 3] exI [of _ "[]"] exI [of _ None] exI [of _ 0] exI [of _ False])
      (auto simp: lc_shape lc_defs)
next
  case (CallBegin r)
  with assms have "n = 3" "pend = None" "k = 0" "\<not> closed" "r \<noteq> 0"
    by (auto simp: lc_shape lc_defs setup_index split: if_splits option.splits)
  with CallBegin assms show ?thesis
    by (intro exI [of _ 3] exI [of _ rs] exI [of _ "Some r"] exI [of _ 0] exI [of _ False])
      (auto simp: lc_shape lc_defs)
next
  case (CallComplete r)
  with assms have "n = 3" "pend = Some r" "k = 0" "\<not> closed"
    by (auto simp: lc_shape lc_defs setup_index split: if_splits option.splits)
  with CallComplete assms show ?thesis
    by (intro exI [of _ 3] exI [of _ "rs @ [r]"] exI [of _ None] exI [of _ 0] exI [of _ False])
      (auto simp: lc_shape lc_defs)
next
  case CallFail
  with assms have "\<not> closed" "l' = \<lparr>lc_state = kFailed, lc_active_request_id = 0\<rparr>"
    by (auto simp: lc_shape lc_defs split: if_splits option.splits)
  with CallFail assms show ?thesis
    by (intro exI [of _ n] exI [of _ rs] exI [of _ pend] exI [of _ "Suc k"] exI [of _ False])
      (auto simp: lc_shape replicate_append_same)
next
  case CallClose
  with assms have "\<not> closed" "pend \<noteq> None \<longrightarrow> k \<noteq> 0" "l' = \<lparr>lc_state = kClosed, lc_active_request_id = 0\<rparr>"
    by (auto simp: lc_shape lc_defs split: if_splits option.splits)
  with CallClose assms show ?thesis
    by (intro exI [of _ n] exI [of _ rs] exI [of _ pend] exI [of _ k] exI [of _ True])
      (auto simp: lc_shape)
qed

text \<open>Conversely a lawful history is accepted call by call.\<close>

lemma lc_reaches:
  "lc_reachable (rev w) l \<Longrightarrow> lc_apply c l = (True, l') \<Longrightarrow> lc_reachable (rev (w @ [c])) l'"
  using lc_ok by simp

lemma setup_reachable:
  assumes "n \<le> 3"
  shows "lc_reachable (rev (lc_word n [] None 0 False)) (lc_final n None 0 False)"
proof -
  have *: "lc_reachable (rev []) (lc_final 0 None 0 False)"
    using lc_new by (simp add: lc_shape new_lifecycle_def)
  have a: "lc_reachable (rev ([] @ [CallLocal])) (lc_final 1 None 0 False)"
    by (rule lc_reaches [OF *]) (simp add: lc_shape lc_defs)
  have b: "lc_reachable (rev (([] @ [CallLocal]) @ [CallBootstrapped])) (lc_final 2 None 0 False)"
    by (rule lc_reaches [OF a]) (simp add: lc_shape lc_defs)
  have "lc_reachable (rev ((([] @ [CallLocal]) @ [CallBootstrapped]) @ [CallConnected])) (lc_final 3 None 0 False)"
    by (rule lc_reaches [OF b]) (simp add: lc_shape lc_defs)
  with * a b assms show ?thesis by (auto simp: setup_index lc_word_def lc_requests_def)
qed

lemma requests_reachable:
  "0 \<notin> set rs \<Longrightarrow> lc_reachable (rev (lc_word 3 rs None 0 False)) (lc_final 3 None 0 False)"
proof (induction rs rule: rev_induct)
  case (snoc r rs)
  have "lc_reachable (rev (lc_word 3 rs None 0 False @ [CallBegin r])) (lc_final 3 (Some r) 0 False)"
    by (rule lc_reaches [OF snoc.IH]) (use snoc.prems in \<open>auto simp: lc_shape lc_defs\<close>)
  then have "lc_reachable (rev ((lc_word 3 rs None 0 False @ [CallBegin r]) @ [CallComplete r]))
      (lc_final 3 None 0 False)"
    by (rule lc_reaches) (simp add: lc_shape lc_defs)
  then show ?case by (simp add: lc_shape)
qed (use setup_reachable [of 3] in simp)

lemma open_reachable:
  assumes "lc_lawful n rs pend k closed"
  shows "lc_reachable (rev (lc_word n rs pend 0 False)) (lc_final n pend 0 False)"
proof (cases pend)
  case None
  with assms show ?thesis
    using setup_reachable [of n] requests_reachable [of rs] by (cases "n = 3") (auto simp: lc_lawful_def)
next
  case (Some r)
  with assms have n: "n = 3" "0 \<notin> set rs" "r \<noteq> 0" by (auto simp: lc_lawful_def)
  have "lc_reachable (rev (lc_word 3 rs None 0 False @ [CallBegin r])) (lc_final 3 (Some r) 0 False)"
    by (rule lc_reaches [OF requests_reachable [OF n(2)]]) (use n in \<open>auto simp: lc_shape lc_defs\<close>)
  with Some n show ?thesis by (simp add: lc_shape)
qed

lemma lawful_reachable:
  assumes "lc_lawful n rs pend k closed"
  shows "lc_reachable (rev (lc_word n rs pend k closed)) (lc_final n pend k closed)"
proof -
  have f: "lc_reachable (rev (lc_word n rs pend j False)) (lc_final n pend j False)" for j
  proof (induction j)
    case (Suc j)
    have "lc_reachable (rev (lc_word n rs pend j False @ [CallFail])) (lc_final n pend (Suc j) False)"
      by (rule lc_reaches [OF Suc]) (use assms in \<open>auto simp: lc_shape lc_defs setup_index split: option.split\<close>)
    then show ?case by (simp add: lc_word_def replicate_append_same)
  qed (rule open_reachable [OF assms])
  show ?thesis
  proof (cases closed)
    case True
    have "lc_reachable (rev (lc_word n rs pend k False @ [CallClose])) (lc_final n pend k True)"
      by (rule lc_reaches [OF f]) (use assms True in \<open>auto simp: lc_shape lc_defs setup_index split: option.split\<close>)
    with True show ?thesis by (simp add: lc_word_def)
  qed (use f in simp)
qed

text \<open>Property C18. The histories of a session.  The sequences of calls that succeed, whatever refused calls come
  between them, are exactly the lawful ones: set-up in order, then requests one at a time, each
  completed under the identifier it was begun with, then failures, then at most one close, which
  never cuts off a request in flight; and the history determines the state and the recorded
  identifier.\<close>

theorem lifecycle_language:
  "lc_reachable h l \<longleftrightarrow> (\<exists>n rs pend k closed. lc_lawful n rs pend k closed \<and>
     rev h = lc_word n rs pend k closed \<and> l = lc_final n pend k closed)"
proof
  assume "lc_reachable h l"
  then show "\<exists>n rs pend k closed. lc_lawful n rs pend k closed \<and>
     rev h = lc_word n rs pend k closed \<and> l = lc_final n pend k closed"
  proof (induction rule: lc_reachable.induct)
    case lc_new
    show ?case
      by (intro exI [of _ 0] exI [of _ "[]"] exI [of _ None] exI [of _ 0] exI [of _ False])
        (simp add: lc_shape new_lifecycle_def)
  next
    case (lc_ok h l c l')
    then obtain n rs pend k closed where "lc_lawful n rs pend k closed" "rev h = lc_word n rs pend k closed"
      "lc_apply c (lc_final n pend k closed) = (True, l')" by blast
    with lc_apply_lawful [OF this(1,3)] show ?case by simp
  next
    case (lc_refused h l c l')
    then show ?case using lc_refused_same by blast
  qed
next
  assume "\<exists>n rs pend k closed. lc_lawful n rs pend k closed \<and>
     rev h = lc_word n rs pend k closed \<and> l = lc_final n pend k closed"
  then obtain n rs pend k closed where w: "lc_lawful n rs pend k closed"
    "h = rev (lc_word n rs pend k closed)" "l = lc_final n pend k closed" by (metis rev_rev_ident)
  from lawful_reachable [OF w(1)] show "lc_reachable h l" by (simp add: w)
qed

text \<open>A closed session stays closed and refuses every call.\<close>

lemma closed_final: "lc_state l = kClosed \<Longrightarrow> lc_apply c l = (False, l)"
  by (cases c) (auto simp: lc_defs)

end
