(* ===== verification/Roce_Control.thy ===== *)
theory Roce_Control
  imports Roce_Session Posix_Socket
begin

text \<open>
  The TCP control channel of the RoCE storage protocol (\<open>src/roce_storage/control_channel.cc\<close>) and the
  transparent control proxy (\<open>control_proxy.cc\<close>).

  The channel's exact read and write loops are interpretations of the stream interfaces; commands
  and completions over them are interpretations of \<open>message_channel\<close>, which combines a stream
  reader, a stream writer and a wire codec.  All callers pass valid sockets and buffers, so the
  argument checks at the top of the C++ functions are not represented; \<open>eno\<close> is the text of the
  \<open>errno\<close> left by earlier calls, which \<open>SetSocketError\<close> prints when \<open>send\<close> returns 0.
\<close>

section \<open>Exact transfers\<close>

datatype control_error = kPeerClosed | CtlError string

function ControlWriteAll :: "string \<Rightarrow> conn \<Rightarrow> bytes \<Rightarrow> string option \<times> conn" where
  "ControlWriteAll eno c data =
    (if data = [] then (None, c)
     else case send c data of
       (Inl EINTR, c') \<Rightarrow> ControlWriteAll ''Interrupted system call'' c' data
     | (Inl (Errno e), c') \<Rightarrow> (Some (''TCP control write failed: '' @ e), c')
     | (Inr n, c') \<Rightarrow>
         if n = 0 then (Some (''TCP control write failed: '' @ eno), c')
         else ControlWriteAll eno c' (drop n data))"
  by pat_completeness auto
termination
  by (relation "measure (\<lambda>(eno, c, data). length (c_tx c) + length data)")
    (auto split: list.splits tx_event.splits)

text \<open>The loop with \<open>received\<close> bytes already stored and \<open>todo\<close> to come.\<close>

function ctl_read_loop ::
  "rx_event list \<Rightarrow> nat \<Rightarrow> nat \<Rightarrow> (control_error + bytes) \<times> rx_event list" where
  "ctl_read_loop es received todo =
    (if todo = 0 then (Inr [], es)
     else case recv es todo of
       (Inl EINTR, es') \<Rightarrow> ctl_read_loop es' received todo
     | (Inl (Errno e), es') \<Rightarrow> (Inl (CtlError (''TCP control read failed: '' @ e)), es')
     | (Inr d, es') \<Rightarrow>
         if d = [] then
           (if received = 0 then (Inl kPeerClosed, es')
            else (Inl (CtlError ''TCP control peer closed mid-frame''), es'))
         else (case ctl_read_loop es' (received + length d) (todo - length d) of
             (Inl e, es'') \<Rightarrow> (Inl e, es'')
           | (Inr r, es'') \<Rightarrow> (Inr (d @ r), es'')))"
  by pat_completeness auto
termination
proof (relation "measure (\<lambda>(es, received, todo). length es + todo)", goal_cases)
  case (2 es received todo x es' e)
  then have "length es' < length es" using recv_progress_eintr by metis
  then show ?case by simp
next
  case (3 es received todo x es' d)
  then have "length es' \<le> length es" using recv_length_script by metis
  with 3 show ?case by (cases d) auto
qed simp

declare ControlWriteAll.simps [simp del] ctl_read_loop.simps [simp del]

definition ControlReadAll :: "rx_event list \<Rightarrow> nat \<Rightarrow> (control_error + bytes) \<times> rx_event list" where
  "ControlReadAll es n = ctl_read_loop es 0 n"

section \<open>Messages\<close>

definition SendCommand :: "string \<Rightarrow> conn \<Rightarrow> Command \<Rightarrow> string option \<times> conn" where
  "SendCommand eno c cmd =
    (case EncodeCommand cmd of
       None \<Rightarrow> (Some ''invalid TCP control command'', c)
     | Some w \<Rightarrow> ControlWriteAll eno c w)"

definition ReceiveCommand :: "rx_event list \<Rightarrow> (control_error + Command) \<times> rx_event list" where
  "ReceiveCommand es =
    (case ControlReadAll es kCommandWireBytes of
       (Inl e, es') \<Rightarrow> (Inl e, es')
     | (Inr w, es') \<Rightarrow>
         (case DecodeCommand w of
            None \<Rightarrow> (Inl (CtlError ''invalid TCP control command frame''), es')
          | Some cmd \<Rightarrow> (Inr cmd, es')))"

definition SendCompletion :: "string \<Rightarrow> conn \<Rightarrow> Completion \<Rightarrow> string option \<times> conn" where
  "SendCompletion eno c cpl =
    (case EncodeCompletion cpl of
       None \<Rightarrow> (Some ''invalid TCP control completion'', c)
     | Some w \<Rightarrow> ControlWriteAll eno c w)"

definition ReceiveCompletion :: "rx_event list \<Rightarrow> (control_error + Completion) \<times> rx_event list" where
  "ReceiveCompletion es =
    (case ControlReadAll es kCompletionWireBytes of
       (Inl e, es') \<Rightarrow> (Inl e, es')
     | (Inr w, es') \<Rightarrow>
         (case DecodeCompletion w of
            None \<Rightarrow> (Inl (CtlError ''invalid TCP control completion frame''), es')
          | Some cpl \<Rightarrow> (Inr cpl, es')))"

section \<open>The loops meet the stream interfaces\<close>

lemma ctl_read_step:
  assumes "todo \<noteq> 0" "recv es todo = (r, es')"
  shows "ctl_read_loop es received todo = (case r of
      Inl EINTR \<Rightarrow> ctl_read_loop es' received todo
    | Inl (Errno e) \<Rightarrow> (Inl (CtlError (''TCP control read failed: '' @ e)), es')
    | Inr d \<Rightarrow> if d = [] then
          (Inl (if received = 0 then kPeerClosed else CtlError ''TCP control peer closed mid-frame''), es')
        else apfst (map_sum id ((@) d)) (ctl_read_loop es' (received + length d) (todo - length d)))"
  using assms
  by (simp add: ctl_read_loop.simps [of es received todo]
      split: sum.splits errno.splits prod.splits)

lemma ctl_read_0 [simp]: "ctl_read_loop es received 0 = (Inr [], es)"
  by (simp add: ctl_read_loop.simps)

lemma ctl_write_step:
  assumes "data \<noteq> []" "send c data = (r, c')"
  shows "ControlWriteAll eno c data = (case r of
      Inl EINTR \<Rightarrow> ControlWriteAll ''Interrupted system call'' c' data
    | Inl (Errno e) \<Rightarrow> (Some (''TCP control write failed: '' @ e), c')
    | Inr n \<Rightarrow> if n = 0 then (Some (''TCP control write failed: '' @ eno), c')
        else ControlWriteAll eno c' (drop n data))"
  using assms
  by (simp add: ControlWriteAll.simps [of eno c data] split: sum.splits errno.splits del: send.simps)

lemma ctl_write_Nil [simp]: "ControlWriteAll eno c [] = (None, c)"
  by (simp add: ControlWriteAll.simps)

interpretation control_recv: recv_loop "\<lambda>received es todo. ctl_read_loop es received todo"
  by unfold_locales (auto simp: ctl_read_step)

interpretation cr: stream_reader ControlReadAll
  using control_recv.is_stream_reader [of 0] by (simp add: ControlReadAll_def [abs_def])

interpretation control_send: send_loop ControlWriteAll
  by unfold_locales (auto simp: ctl_write_step simp del: send.simps)

interpretation cw: stream_writer "ControlWriteAll eno" for eno
  by (rule control_send.is_stream_writer)

text \<open>The end of the stream is reported as an orderly close only when not a single byte of the message
  has arrived.\<close>

lemma ctl_read_closed:
  "ctl_read_loop es received todo = (Inl kPeerClosed, es') \<Longrightarrow> received = 0 \<and> rx_stream es = []"
proof (induction es received todo rule: ctl_read_loop.induct)
  case (1 es received todo)
  show ?case
  proof (cases "todo = 0")
    case False
    obtain r es1 where rc: "recv es todo = (r, es1)" by fastforce
    note st = ctl_read_step [OF False rc, of received]
    show ?thesis
    proof (cases r)
      case (Inl e)
      with st 1(1) [OF False rc [symmetric]] 1(3) rc show ?thesis
        by (cases e) (auto dest: recv_eintr_stream)
    next
      case (Inr d)
      show ?thesis
      proof (cases "d = []")
        case True
        with Inr st 1(3) recv_zero_iff [of es todo es1] rc False show ?thesis
          by (auto split: if_splits)
      next
        case ne: False
        obtain q es2 where "ctl_read_loop es1 (received + length d) (todo - length d) = (q, es2)"
          by fastforce
        with st Inr ne 1(3) 1(2) [OF False rc [symmetric] Inr ne] show ?thesis
          by (cases q) auto
      qed
    qed
  qed (use 1(3) in simp)
qed

lemma ctl_read_clean_end:
  "rx_stream es = [] \<Longrightarrow> rx_clean es \<Longrightarrow> 0 < n \<Longrightarrow>
   \<exists>es'. ctl_read_loop es 0 n = (Inl kPeerClosed, es')"
proof (induction "length es" arbitrary: es rule: less_induct)
  case less
  obtain r es1 where rc: "recv es n = (r, es1)" by fastforce
  have n: "n \<noteq> 0" using less.prems by simp
  show ?case
  proof (cases r)
    case (Inl e)
    then have e: "e = EINTR" using rc less.prems(2) by (cases e) (auto dest: recv_errno_unclean)
    have "length es1 < length es" "rx_stream es1 = []" "rx_clean es1"
      using rc Inl e less.prems recv_progress_eintr recv_eintr_stream recv_clean by fastforce+
    from less.hyps [OF this less.prems(3)] show ?thesis
      using ctl_read_step [OF n rc] Inl e by simp
  next
    case (Inr d)
    then have "d = []" using rc less.prems(1) by (auto dest: recv_stream)
    then show ?thesis using ctl_read_step [OF n rc] Inr by simp
  qed
qed

section \<open>Message channels\<close>

text \<open>
  A channel of messages: a codec over a stream reader and a stream writer.  Its clients get that a
  sent message is received unchanged under every segmentation, and that a received message was sent
  as its encoding.
\<close>

locale message_channel =
  wire_codec encode decode representable wire_size + stream_reader read_all + stream_writer write_all
  for encode :: "'m \<Rightarrow> bytes option"
    and decode :: "bytes \<Rightarrow> 'm option"
    and representable :: "'m \<Rightarrow> bool"
    and wire_size :: nat
    and read_all :: "rx_event list \<Rightarrow> nat \<Rightarrow> ('e + bytes) \<times> rx_event list"
    and write_all :: "conn \<Rightarrow> bytes \<Rightarrow> 's option \<times> conn" +
  fixes send_msg :: "conn \<Rightarrow> 'm \<Rightarrow> 's option \<times> conn"
    and recv_msg :: "rx_event list \<Rightarrow> ('e + 'm) \<times> rx_event list"
  assumes send_msg_ok: "encode m = Some w \<Longrightarrow> send_msg c m = write_all c w"
    and send_msg_bad: "encode m = None \<Longrightarrow> \<exists>e. send_msg c m = (Some e, c)"
    and recv_msg_fail: "read_all es wire_size = (Inl e, es') \<Longrightarrow> recv_msg es = (Inl e, es')"
    and recv_msg_ok: "read_all es wire_size = (Inr w, es') \<Longrightarrow> decode w = Some m \<Longrightarrow>
        recv_msg es = (Inr m, es')"
    and recv_msg_bad: "read_all es wire_size = (Inr w, es') \<Longrightarrow> decode w = None \<Longrightarrow>
        \<exists>e. recv_msg es = (Inl e, es')"
begin

lemma send_exact:
  assumes "encode m = Some w" "tx_clean c"
  obtains c' where "send_msg c m = (None, c')" "tx_clean c'" "c_sent c' = c_sent c @ w"
    "c_rx c' = c_rx c"
  using write_clean [OF assms(2)] send_msg_ok [OF assms(1)] by metis

lemma receive_exact:
  assumes "encode m = Some w" "representable m" "rx_stream es = w @ rest"
  obtains es' where "recv_msg es = (Inr m, es')" "rx_stream es' = rest" "rx_clean es \<Longrightarrow> rx_clean es'"
  using read_exact [OF assms(3) encode_size [OF assms(1,2)]] recv_msg_ok enc_dec [OF assms(1,2)]
  by metis

lemma receive_sound:
  assumes "recv_msg es = (Inr m, es')"
  shows "\<exists>w. encode m = Some w \<and> representable m \<and> length w = wire_size \<and>
    rx_stream es = w @ rx_stream es'"
proof -
  obtain r es1 where r: "read_all es wire_size = (r, es1)" by fastforce
  with assms recv_msg_fail obtain w where w: "r = Inr w" by (cases r) fastforce+
  with r assms recv_msg_bad recv_msg_ok have d: "decode w = Some m" "es1 = es'"
    by (cases "decode w"; fastforce)+
  have "w = take wire_size (rx_stream es)" "rx_stream es' = drop wire_size (rx_stream es)"
    using read_result [of es wire_size w es'] r w d by auto
  then have "rx_stream es = w @ rx_stream es'" by simp
  with dec_enc [OF d(1)] dec_size [OF d(1)] show ?thesis by blast
qed

lemma receive_consumes:
  assumes "recv_msg es = (Inr m, es')" "0 < wire_size"
  shows "length (rx_stream es') < length (rx_stream es)"
  using receive_sound [OF assms(1)] assms(2) by auto

lemma receive_end:
  assumes "length (rx_stream es) < wire_size"
  shows "\<exists>e es'. recv_msg es = (Inl e, es') \<and> read_all es wire_size = (Inl e, es')"
  using short [OF assms] recv_msg_fail by blast

end

interpretation cmd_chan: message_channel EncodeCommand DecodeCommand "\<lambda>_. True" kCommandWireBytes
    ControlReadAll "ControlWriteAll eno" "SendCommand eno" ReceiveCommand for eno
  by unfold_locales (simp_all add: SendCommand_def ReceiveCommand_def)

interpretation cpl_chan: message_channel EncodeCompletion DecodeCompletion
    "\<lambda>c. unat (cpl_status c) < 2 ^ 16" kCompletionWireBytes
    ControlReadAll "ControlWriteAll eno" "SendCompletion eno" ReceiveCompletion for eno
  by unfold_locales (simp_all add: SendCompletion_def ReceiveCompletion_def)

text \<open>Commands over the control channel.  A valid command sent through short and interrupted writes is
  received unchanged under every segmentation of the stream, the receiver consumes exactly its 64
  bytes, and the receiver reports an orderly close only at a message boundary.\<close>

theorem command_channel:
  assumes "command_ok m" "tx_clean c"
  shows "\<exists>c' w. SendCommand eno c m = (None, c') \<and> c_sent c' = c_sent c @ w \<and>
      length w = kCommandWireBytes \<and>
      (\<forall>es rest. rx_stream es = w @ rest \<longrightarrow>
         (\<exists>es'. ReceiveCommand es = (Inr m, es') \<and> rx_stream es' = rest)) \<and>
      (\<forall>es es'. ReceiveCommand es = (Inl kPeerClosed, es') \<longrightarrow> rx_stream es = [])"
proof -
  obtain w where w: "EncodeCommand m = Some w" using assms(1) by (simp add: EncodeCommand_layout)
  obtain c' where "SendCommand eno c m = (None, c')" "c_sent c' = c_sent c @ w"
    using cmd_chan.send_exact [OF w assms(2)] .
  moreover have "length w = kCommandWireBytes" using command_codec.encode_size [OF w] by simp
  moreover have "\<exists>es'. ReceiveCommand es = (Inr m, es') \<and> rx_stream es' = rest"
    if "rx_stream es = w @ rest" for es rest
    using cmd_chan.receive_exact [OF w _ that] by auto
  moreover have "rx_stream es = []" if "ReceiveCommand es = (Inl kPeerClosed, es')" for es es'
    using that ctl_read_closed
    by (auto simp: ReceiveCommand_def ControlReadAll_def split: prod.splits sum.splits option.splits)
  ultimately show ?thesis by blast
qed

definition sample_command :: "u64 \<Rightarrow> u16 \<Rightarrow> Command" where
  "sample_command rid op = \<lparr>cmd_request_id = rid, cmd_operation = op, cmd_object_id = 0,
     cmd_storage_offset = 2, cmd_length = 3, cmd_npu_address = 4096, cmd_npu_rkey = 7,
     cmd_npu_access = 3\<rparr>"

lemma sample_command_ok: "rid \<noteq> 0 \<Longrightarrow> command_ok (sample_command rid kRead)"
  "rid \<noteq> 0 \<Longrightarrow> command_ok (sample_command rid kWrite)"
  by (simp_all add: command_ok_def sample_command_def required_access_def kRead_def kWrite_def
      kMemoryRemoteWrite_def kMemoryRemoteRead_def)

lemma command_channel_witness:
  "\<exists>c' w. SendCommand [] \<lparr>c_rx = [], c_tx = [TxAccept 10, TxIntr], c_sent = []\<rparr>
      (sample_command 5 kRead) = (None, c') \<and> c_sent c' = w \<and>
     (\<exists>es'. ReceiveCommand [Rx (take 1 w), RxIntr, Rx (drop 1 w)] =
       (Inr (sample_command 5 kRead), es') \<and> rx_stream es' = [])"
proof -
  let ?c = "\<lparr>c_rx = [], c_tx = [TxAccept 10, TxIntr], c_sent = []\<rparr>"
  have "command_ok (sample_command 5 kRead)" "tx_clean ?c"
    by (simp_all add: sample_command_ok tx_clean_def)
  from command_channel [OF this, of "[]"] obtain c' w
    where w: "SendCommand [] ?c (sample_command 5 kRead) = (None, c')" "c_sent c' = w"
    and r: "\<And>es rest. rx_stream es = w @ rest \<Longrightarrow>
      \<exists>es'. ReceiveCommand es = (Inr (sample_command 5 kRead), es') \<and> rx_stream es' = rest"
    by auto
  have "rx_stream [Rx (take 1 w), RxIntr, Rx (drop 1 w)] = w @ []" by simp
  from r [OF this] w show ?thesis by auto
qed

section \<open>The control proxy\<close>

text \<open>\<open>ProxyPushControlSession\<close> relays one TCP-controlled push session between two connections and
  counts the control bytes it moves.\<close>

record ControlProxyStats =
  st_session_bytes :: nat
  st_command_bytes :: nat
  st_completion_bytes :: nat
  st_requests :: nat
  st_payload_bytes :: nat

definition zero_stats :: ControlProxyStats where
  "zero_stats = \<lparr>st_session_bytes = 0, st_command_bytes = 0, st_completion_bytes = 0,
     st_requests = 0, st_payload_bytes = 0\<rparr>"

record proxy =
  px_down :: conn
  px_up :: conn
  px_stats :: ControlProxyStats

definition unsupported_completion :: "Command \<Rightarrow> Completion" where
  "unsupported_completion cmd = \<lparr>cpl_request_id = cmd_request_id cmd,
     cpl_status = kCompletionStatusUnsupported, cpl_bytes = 0, cpl_checksum = 0, cpl_flags = 0\<rparr>"

definition count_reply :: "ControlProxyStats \<Rightarrow> ControlProxyStats" where
  "count_reply st = st\<lparr>st_completion_bytes := st_completion_bytes st + kCompletionWireBytes,
     st_requests := st_requests st + 1\<rparr>"

text \<open>One iteration of the proxy's loop after a command has been received: \<open>Inl\<close> ends the session
  with an error.\<close>

definition proxy_command :: "string \<Rightarrow> Command \<Rightarrow> proxy \<Rightarrow> string option \<times> proxy" where
  "proxy_command eno cmd p =
    (if cmd_operation cmd \<noteq> kRead then
       (case SendCompletion eno (px_down p) (unsupported_completion cmd) of
          (Some e, d) \<Rightarrow> (Some e, p\<lparr>px_down := d\<rparr>)
        | (None, d) \<Rightarrow> (None, p\<lparr>px_down := d, px_stats := count_reply (px_stats p)\<rparr>))
     else
       (case SendCommand eno (px_up p) cmd of
          (Some e, u) \<Rightarrow> (Some e, p\<lparr>px_up := u\<rparr>)
        | (None, u) \<Rightarrow>
            let st = (px_stats p)\<lparr>st_command_bytes := st_command_bytes (px_stats p) + kCommandWireBytes\<rparr> in
            (case ReceiveCompletion (c_rx u) of
               (Inl kPeerClosed, es) \<Rightarrow> (Some [], p\<lparr>px_up := u\<lparr>c_rx := es\<rparr>, px_stats := st\<rparr>)
             | (Inl (CtlError e), es) \<Rightarrow> (Some e, p\<lparr>px_up := u\<lparr>c_rx := es\<rparr>, px_stats := st\<rparr>)
             | (Inr cpl, es) \<Rightarrow>
                 let p1 = p\<lparr>px_up := u\<lparr>c_rx := es\<rparr>, px_stats := st\<rparr> in
                 if cpl_request_id cpl \<noteq> cmd_request_id cmd then
                   (Some ''upstream completion request id mismatch'', p1)
                 else (case SendCompletion eno (px_down p) cpl of
                     (Some e, d) \<Rightarrow> (Some e, p1\<lparr>px_down := d\<rparr>)
                   | (None, d) \<Rightarrow> (None, p1\<lparr>px_down := d, px_stats := count_reply st\<rparr>)))))"

lemma SendCompletion_rx: "SendCompletion eno c m = (r, c') \<Longrightarrow> c_rx c' = c_rx c"
  by (auto simp: SendCompletion_def split: option.splits dest: cw.frame)

lemma proxy_command_rx: "proxy_command eno cmd p = (r, p') \<Longrightarrow> c_rx (px_down p') = c_rx (px_down p)"
  by (auto simp: proxy_command_def Let_def split: if_splits prod.splits option.splits sum.splits
      control_error.splits dest: SendCompletion_rx)

text \<open>The loop ends with \<open>None\<close> (the C++ \<open>true\<close>) on an orderly close.\<close>

function proxy_loop :: "string \<Rightarrow> proxy \<Rightarrow> string option \<times> proxy" where
  "proxy_loop eno p =
    (case ReceiveCommand (c_rx (px_down p)) of
       (Inl kPeerClosed, es) \<Rightarrow> (None, p\<lparr>px_down := (px_down p)\<lparr>c_rx := es\<rparr>\<rparr>)
     | (Inl (CtlError e), es) \<Rightarrow> (Some e, p\<lparr>px_down := (px_down p)\<lparr>c_rx := es\<rparr>\<rparr>)
     | (Inr cmd, es) \<Rightarrow>
         (case proxy_command eno cmd (p\<lparr>px_down := (px_down p)\<lparr>c_rx := es\<rparr>\<rparr>) of
            (Some e, p') \<Rightarrow> (Some e, p')
          | (None, p') \<Rightarrow> proxy_loop eno p'))"
  by pat_completeness auto
termination
proof (relation "measure (\<lambda>(eno, p). length (rx_stream (c_rx (px_down p))))", goal_cases)
  case (2 eno p)
  then show ?case
    by (auto dest!: proxy_command_rx [OF sym] cmd_chan.receive_consumes [OF sym]
        simp: kCommandWireBytes_def)
qed simp

declare proxy_loop.simps [simp del]

text \<open>The text left in \<open>error\<close> after a failed read, with the default that fills an empty one.\<close>

fun error_or :: "string \<Rightarrow> control_error \<Rightarrow> string" where
  "error_or d kPeerClosed = d"
| "error_or d (CtlError e) = (if e = [] then d else e)"

definition ProxyPushControlSession :: "string \<Rightarrow> conn \<Rightarrow> conn \<Rightarrow> string option \<times> proxy" where
  "ProxyPushControlSession eno down up =
    (let fail = (\<lambda>e d u st. (Some e, \<lparr>px_down = d, px_up = u, px_stats = st\<rparr>)) in
     case ControlReadAll (c_rx down) kSessionRequestWireBytes of
       (Inl e, es) \<Rightarrow>
         fail (error_or ''invalid downstream session request'' e) (down\<lparr>c_rx := es\<rparr>) up zero_stats
     | (Inr request_wire, es) \<Rightarrow>
         let down = down\<lparr>c_rx := es\<rparr> in
         (case DecodeSessionRequest request_wire of
            None \<Rightarrow> fail ''invalid downstream session request'' down up zero_stats
          | Some request \<Rightarrow>
              if sr_flags request AND kSessionFlagTcpControl = 0 then
                fail ''remote-RNIC proxy requires TCP control mode'' down up zero_stats
              else if SessionTransferMode request \<noteq> TransferPush then
                fail ''pull transfer mode is reserved but not implemented'' down up zero_stats
              else (case ControlWriteAll eno up request_wire of
                  (Some e, up) \<Rightarrow> fail e down up zero_stats
                | (None, up) \<Rightarrow>
                    let st = zero_stats\<lparr>st_session_bytes := length request_wire\<rparr> in
                    (case ControlReadAll (c_rx up) kSessionResponseWireBytes of
                       (Inl e, es) \<Rightarrow>
                         fail (error_or ''invalid upstream session response'' e) down (up\<lparr>c_rx := es\<rparr>) st
                     | (Inr response_wire, es) \<Rightarrow>
                         let up = up\<lparr>c_rx := es\<rparr> in
                         (case DecodeSessionResponse response_wire of
                            None \<Rightarrow> fail ''invalid upstream session response'' down up st
                          | Some response \<Rightarrow>
                              (case EncodeSessionResponse (response\<lparr>sp_server_capabilities :=
                                  sp_server_capabilities response OR kServerCapabilityControlProxyUsed\<rparr>) of
                                 None \<Rightarrow> fail [] down up st
                               | Some wire \<Rightarrow>
                                   (case ControlWriteAll eno down wire of
                                      (Some e, down) \<Rightarrow> fail e down up st
                                    | (None, down) \<Rightarrow>
                                        proxy_loop eno \<lparr>px_down = down, px_up = up, px_stats =
                                          st\<lparr>st_session_bytes := st_session_bytes st + length wire\<rparr>\<rparr>)))))))"

section \<open>What the proxy relays\<close>

text \<open>The completions a client sees, given the completions the upstream node sends.\<close>

fun relayed :: "Command list \<Rightarrow> Completion list \<Rightarrow> Completion list" where
  "relayed [] ps = []"
| "relayed (c # cs) ps =
    (if cmd_operation c \<noteq> kRead then unsupported_completion c # relayed cs ps
     else case ps of [] \<Rightarrow> [] | p # ps' \<Rightarrow> p # relayed cs ps')"

text \<open>The upstream node answers each forwarded command once, under its request identifier.\<close>

fun answers :: "Command list \<Rightarrow> Completion list \<Rightarrow> bool" where
  "answers [] ps = (ps = [])"
| "answers (c # cs) ps = (command_ok c \<and>
    (if cmd_operation c \<noteq> kRead then answers cs ps
     else case ps of [] \<Rightarrow> False
       | p # ps' \<Rightarrow> cpl_request_id p = cmd_request_id c \<and> unat (cpl_status p) < 2 ^ 16 \<and> answers cs ps'))"

definition command_wires :: "Command list \<Rightarrow> bytes" where
  "command_wires cs = concat (map (\<lambda>c. the (EncodeCommand c)) cs)"

definition completion_wires :: "Completion list \<Rightarrow> bytes" where
  "completion_wires ps = concat (map (\<lambda>p. the (EncodeCompletion p)) ps)"

lemma wires_Cons [simp]:
  "command_wires (c # cs) = the (EncodeCommand c) @ command_wires cs"
  "completion_wires (p # ps) = the (EncodeCompletion p) @ completion_wires ps"
  "command_wires [] = []" "completion_wires [] = []"
  by (simp_all add: command_wires_def completion_wires_def)

lemma proxy_loop_relays:
  assumes "answers cs ps" "rx_stream (c_rx (px_down p)) = command_wires cs" "rx_clean (c_rx (px_down p))"
    "rx_stream (c_rx (px_up p)) = completion_wires ps" "tx_clean (px_down p)" "tx_clean (px_up p)"
  shows "\<exists>p'. proxy_loop eno p = (None, p') \<and>
    c_sent (px_down p') = c_sent (px_down p) @ completion_wires (relayed cs ps) \<and>
    c_sent (px_up p') = c_sent (px_up p) @ command_wires (filter (\<lambda>c. cmd_operation c = kRead) cs) \<and>
    st_requests (px_stats p') = st_requests (px_stats p) + length cs \<and>
    st_payload_bytes (px_stats p') = st_payload_bytes (px_stats p)"
  using assms
proof (induction cs arbitrary: p ps)
  case Nil
  then have em: "rx_stream (c_rx (px_down p)) = []" by simp
  have "\<exists>es. ReceiveCommand (c_rx (px_down p)) = (Inl kPeerClosed, es)"
    using ctl_read_clean_end [OF em Nil.prems(3), of kCommandWireBytes]
    by (auto simp: ReceiveCommand_def ControlReadAll_def kCommandWireBytes_def)
  then show ?case using Nil.prems(1) by (auto simp: proxy_loop.simps)
next
  case (Cons c cs)
  then have ok: "command_ok c" by simp
  then obtain w where w: "EncodeCommand c = Some w" by (simp add: EncodeCommand_layout)
  have "rx_stream (c_rx (px_down p)) = w @ command_wires cs" using Cons.prems(2) w by simp
  then obtain es where es: "ReceiveCommand (c_rx (px_down p)) = (Inr c, es)"
    "rx_stream es = command_wires cs" "rx_clean es"
    using cmd_chan.receive_exact [OF w] Cons.prems(3) by metis
  let ?p = "p\<lparr>px_down := (px_down p)\<lparr>c_rx := es\<rparr>\<rparr>"
  have td: "tx_clean (px_down ?p)" using Cons.prems(5) by (simp add: tx_clean_def)
  show ?case
  proof (cases "cmd_operation c = kRead")
    case False
    have "cmd_request_id c \<noteq> 0" using ok by (simp add: command_ok_def)
    then obtain v where v: "EncodeCompletion (unsupported_completion c) = Some v"
      by (simp add: EncodeCompletion_layout unsupported_completion_def)
    obtain d where d: "SendCompletion eno (px_down ?p) (unsupported_completion c) = (None, d)"
      "tx_clean d" "c_sent d = c_sent (px_down p) @ v" "c_rx d = es"
      using cpl_chan.send_exact [OF v td] by auto
    let ?q = "?p\<lparr>px_down := d, px_stats := count_reply (px_stats p)\<rparr>"
    have step: "proxy_loop eno p = proxy_loop eno ?q"
      using es(1) d(1) False by (simp add: proxy_loop.simps [of eno p] proxy_command_def)
    have "answers cs ps" using Cons.prems(1) False by simp
    from Cons.IH [OF this, of ?q] es d Cons.prems(4,6) v False show ?thesis
      unfolding step by (auto simp: count_reply_def)
  next
    case True
    with Cons.prems(1) obtain q ps' where ps: "ps = q # ps'" "cpl_request_id q = cmd_request_id c"
      "unat (cpl_status q) < 2 ^ 16" "answers cs ps'" by (auto split: list.splits)
    have "cmd_request_id c \<noteq> 0" using ok by (simp add: command_ok_def)
    with ps(2) obtain v where v: "EncodeCompletion q = Some v" by (simp add: EncodeCompletion_layout)
    obtain u where u: "SendCommand eno (px_up p) c = (None, u)" "tx_clean u"
      "c_sent u = c_sent (px_up p) @ w" "c_rx u = c_rx (px_up p)"
      using cmd_chan.send_exact [OF w Cons.prems(6)] by auto
    have "rx_stream (c_rx u) = v @ completion_wires ps'" using u Cons.prems(4) ps v by simp
    then obtain es2 where es2: "ReceiveCompletion (c_rx u) = (Inr q, es2)"
      "rx_stream es2 = completion_wires ps'"
      using cpl_chan.receive_exact [OF v ps(3)] by metis
    obtain d where d: "SendCompletion eno (px_down ?p) q = (None, d)" "tx_clean d"
      "c_sent d = c_sent (px_down p) @ v" "c_rx d = es"
      using cpl_chan.send_exact [OF v td] by auto
    let ?st = "(px_stats p)\<lparr>st_command_bytes := st_command_bytes (px_stats p) + kCommandWireBytes\<rparr>"
    let ?q = "?p\<lparr>px_up := u\<lparr>c_rx := es2\<rparr>, px_down := d, px_stats := count_reply ?st\<rparr>"
    have step: "proxy_loop eno p = proxy_loop eno ?q"
      using es(1) u(1) es2(1) d(1) True ps(2)
      by (simp add: proxy_loop.simps [of eno p] proxy_command_def Let_def)
    have "tx_clean (u\<lparr>c_rx := es2\<rparr>)" using u(2) by (simp add: tx_clean_def)
    with Cons.IH [OF ps(4), of ?q] es d u es2 v w True ps(1) show ?thesis
      unfolding step by (auto simp: count_reply_def)
  qed
qed

text \<open>Property C16. The control proxy is transparent.  For a TCP-controlled push session the upstream node receives
  the client's session request byte for byte and exactly the client's read commands, in order; the
  client receives the upstream response with only the proxy capability added, the upstream's
  completions in order, and an \<open>unsupported\<close> completion for each write; every command is answered
  once and no payload passes through the proxy.\<close>

theorem proxy_transparent:
  assumes "DecodeSessionRequest rq = Some request" "sr_flags request AND kSessionFlagTcpControl \<noteq> 0"
    "SessionTransferMode request = TransferPush" "DecodeSessionResponse rs = Some response"
    "answers cs ps"
    "rx_stream (c_rx down) = rq @ command_wires cs" "rx_clean (c_rx down)" "tx_clean down"
    "rx_stream (c_rx up) = rs @ completion_wires ps" "tx_clean up"
  shows "\<exists>p' rs'. ProxyPushControlSession eno down up = (None, p') \<and>
    DecodeSessionResponse rs' = Some (response\<lparr>sp_server_capabilities :=
      sp_server_capabilities response OR kServerCapabilityControlProxyUsed\<rparr>) \<and>
    c_sent (px_up p') = c_sent up @ rq @ command_wires (filter (\<lambda>c. cmd_operation c = kRead) cs) \<and>
    c_sent (px_down p') = c_sent down @ rs' @ completion_wires (relayed cs ps) \<and>
    st_requests (px_stats p') = length cs \<and> st_payload_bytes (px_stats p') = 0"
proof -
  let ?r = "response\<lparr>sp_server_capabilities :=
      sp_server_capabilities response OR kServerCapabilityControlProxyUsed\<rparr>"
  have "length rq = kSessionRequestWireBytes" "length rs = kSessionResponseWireBytes"
    using assms(1,4) decode_sizes by auto
  note len = this
  obtain es1 where es1: "ControlReadAll (c_rx down) kSessionRequestWireBytes = (Inr rq, es1)"
    "rx_stream es1 = command_wires cs" "rx_clean es1"
    using cr.read_exact [OF assms(6) len(1)] assms(7) by metis
  obtain u where u: "ControlWriteAll eno up rq = (None, u)" "tx_clean u"
    "c_sent u = c_sent up @ rq" "c_rx u = c_rx up"
    using cw.write_clean [OF assms(10)] .
  obtain es2 where es2: "ControlReadAll (c_rx u) kSessionResponseWireBytes = (Inr rs, es2)"
    "rx_stream es2 = completion_wires ps"
    using cr.read_exact [OF _ len(2), of "c_rx u"] assms(9) u(4) by metis
  have "length (ep_gid (sp_endpoint response)) = 16" "EncodeSessionResponse response = Some rs"
    using DecodeSessionResponse_encode [OF assms(4)] by simp_all
  then obtain rs' where rs': "EncodeSessionResponse ?r = Some rs'"
    "DecodeSessionResponse rs' = Some ?r"
    using EncodeSessionResponse_decode [of ?r]
    by (auto simp: EncodeSessionResponse_layout split: if_splits option.splits)
  have "tx_clean (down\<lparr>c_rx := es1\<rparr>)" using assms(8) by (simp add: tx_clean_def)
  then obtain d where d: "ControlWriteAll eno (down\<lparr>c_rx := es1\<rparr>) rs' = (None, d)" "tx_clean d"
    "c_sent d = c_sent down @ rs'" "c_rx d = es1"
    using cw.write_clean [of "down\<lparr>c_rx := es1\<rparr>" eno rs'] by auto
  let ?p = "\<lparr>px_down = d, px_up = u\<lparr>c_rx := es2\<rparr>, px_stats =
      zero_stats\<lparr>st_session_bytes := length rq + length rs'\<rparr>\<rparr>"
  have "ProxyPushControlSession eno down up = proxy_loop eno ?p"
    using es1 assms(1-4) u es2 rs' d by (simp add: ProxyPushControlSession_def Let_def)
  moreover have "tx_clean (u\<lparr>c_rx := es2\<rparr>)" using u(2) by (simp add: tx_clean_def)
  ultimately show ?thesis
    using proxy_loop_relays [OF assms(5), of ?p eno] es1 es2 d u rs' by (auto simp: zero_stats_def)
qed

definition sample_endpoint :: Endpoint where
  "sample_endpoint = \<lparr>ep_gid = replicate 16 1, ep_qpn = 9, ep_psn = 5, ep_port = 1,
     ep_gid_index = 0, ep_mtu = kDefaultPathMtu\<rparr>"

definition sample_request :: SessionRequest where
  "sample_request = \<lparr>sr_endpoint = sample_endpoint, sr_completion =
     \<lparr>mw_address = 0, mw_length = 0, mw_rkey = 0, mw_access = 0\<rparr>, sr_flags = kSessionFlagTcpControl\<rparr>"

definition sample_response :: SessionResponse where
  "sample_response = \<lparr>sp_endpoint = sample_endpoint, sp_namespace_capacity = 4096,
     sp_max_transfer_bytes = 1024, sp_server_capabilities = 1, sp_status = 0\<rparr>"

lemma sample_session_wires:
  "\<exists>rq rs. DecodeSessionRequest rq = Some sample_request \<and> DecodeSessionResponse rs = Some sample_response"
proof -
  have ep: "endpoint_ok sample_endpoint" "length (ep_gid sample_endpoint) = 16"
    by (simp_all add: endpoint_ok_def sample_endpoint_def PathMtuBytes_def kDefaultPathMtu_def)
  then have "\<exists>rq. EncodeSessionRequest sample_request = Some rq"
    by (simp add: EncodeSessionRequest_layout EncodeEndpoint_layout sample_request_def
        completion_window_ok_def kSessionFlagTcpControl_def kSessionKnownFlags_def
        kSessionFlagPullTransfer_def)
  moreover have "\<exists>rs. EncodeSessionResponse sample_response = Some rs"
    using ep by (simp add: EncodeSessionResponse_layout EncodeEndpoint_layout sample_response_def)
  ultimately show ?thesis
    using EncodeSessionRequest_decode [of sample_request] EncodeSessionResponse_decode [of sample_response]
      ep(2) by (auto simp: sample_request_def sample_response_def)
qed

lemma proxy_transparent_witness:
  "\<exists>down up p'. ProxyPushControlSession [] down up = (None, p') \<and>
     st_requests (px_stats p') = 2 \<and> st_payload_bytes (px_stats p') = 0"
proof -
  obtain rq rs where q: "DecodeSessionRequest rq = Some sample_request"
    "DecodeSessionResponse rs = Some sample_response" using sample_session_wires by blast
  let ?cs = "[sample_command 5 kRead, sample_command 6 kWrite]"
  let ?ps = "[\<lparr>cpl_request_id = 5, cpl_status = 0, cpl_bytes = 3, cpl_checksum = 1, cpl_flags = 0\<rparr>]"
  let ?down = "\<lparr>c_rx = [Rx rq, RxIntr, Rx (command_wires ?cs)], c_tx = [TxAccept 7], c_sent = []\<rparr>"
  let ?up = "\<lparr>c_rx = [Rx rs, Rx (completion_wires ?ps)], c_tx = [TxIntr], c_sent = []\<rparr>"
  have "answers ?cs ?ps"
    using sample_command_ok [of 5] sample_command_ok [of 6]
    by (simp add: sample_command_def kRead_def kWrite_def)
  moreover have "sr_flags sample_request AND kSessionFlagTcpControl \<noteq> 0"
    "SessionTransferMode sample_request = TransferPush"
    by (simp_all add: sample_request_def SessionTransferMode_def kSessionFlagTcpControl_def
        kSessionFlagPullTransfer_def)
  moreover have "rx_stream (c_rx ?down) = rq @ command_wires ?cs" "rx_clean (c_rx ?down)"
    "tx_clean ?down" "rx_stream (c_rx ?up) = rs @ completion_wires ?ps" "tx_clean ?up"
    by (simp_all add: tx_clean_def del: wires_Cons)
  ultimately have "\<exists>p'. ProxyPushControlSession [] ?down ?up = (None, p') \<and>
      st_requests (px_stats p') = length ?cs \<and> st_payload_bytes (px_stats p') = 0"
    using proxy_transparent [OF q(1) _ _ q(2), of ?cs ?ps ?down ?up "[]"] by blast
  moreover have "length ?cs = 2" by simp
  ultimately show ?thesis by metis
qed

end
