(* ===== verification/Storage_Backend.thy ===== *)
theory Storage_Backend
  imports Flume_Prelude
begin

text \<open>
  The storage node's namespaces (\<open>src/roce_storage/storage_backend.h\<close>, \<open>storage_backend.cc\<close>): the abstract
  class \<open>StorageBackend\<close> is the locale \<open>storage_backend\<close>, the memory and the POSIX backend are its two
  interpretations.

  Offsets are 64-bit words and lengths are those of the caller's buffer, as \<open>size_t\<close> (64 bits); the
  range check is the C++ one, which avoids the overflow of \<open>offset + len\<close>.  The POSIX backend keeps the
  size found when it was opened; its file is what the file system holds now, or nothing if it cannot
  be opened any more.  \<open>Write\<close> goes through a buffered stream and tests it before the buffer is
  flushed, so that an error of the device is reported only if the stream has met it by then; the
  field \<open>ps_stream\<close> says what becomes of the next writes.
\<close>

section \<open>Backends\<close>

definition ValidRange :: "u64 \<Rightarrow> u64 \<Rightarrow> nat \<Rightarrow> bool" where
  "ValidRange sz off len \<longleftrightarrow> off \<le> sz \<and> len \<le> unat (sz - off)"

record MemoryStorageBackend =
  ms_bytes :: bytes

definition new_memory_backend :: "nat \<Rightarrow> MemoryStorageBackend" where
  "new_memory_backend n = \<lparr>ms_bytes = map (\<lambda>i. of_nat (i * 29 + 11)) [0..<n]\<rparr>"

definition memory_size :: "MemoryStorageBackend \<Rightarrow> u64" where
  "memory_size b = of_nat (length (ms_bytes b))"

definition memory_read :: "MemoryStorageBackend \<Rightarrow> u64 \<Rightarrow> nat \<Rightarrow> string + bytes" where
  "memory_read b off len =
    (if \<not> ValidRange (memory_size b) off len then Inl ''memory storage read range is invalid''
     else Inr (bslice (unat off) len (ms_bytes b)))"

definition memory_write :: "MemoryStorageBackend \<Rightarrow> u64 \<Rightarrow> bytes \<Rightarrow> string option \<times> MemoryStorageBackend" where
  "memory_write b off src =
    (if \<not> ValidRange (memory_size b) off (length src) then
       (Some ''memory storage write range is invalid'', b)
     else (None, b\<lparr>ms_bytes := overwrite (unat off) src (ms_bytes b)\<rparr>))"

text \<open>What a write to a \<open>std::fstream\<close> comes to: all bytes reach the file; or an error is met before the
  stream is tested; or only when its destructor flushes the buffer, where nobody sees it.  With an
  error some prefix of the bytes may have reached the file.\<close>

datatype stream_outcome = StreamWrites | FailsBeforeTest nat | FailsAtFlush nat

record PosixStorageBackend =
  ps_size :: u64
  ps_file :: "bytes option"
  ps_stream :: stream_outcome

definition new_posix_backend :: "bytes option \<Rightarrow> stream_outcome \<Rightarrow> PosixStorageBackend" where
  "new_posix_backend f out = \<lparr>ps_size = (case f of None \<Rightarrow> 0 | Some d \<Rightarrow> of_nat (length d)),
     ps_file = f, ps_stream = out\<rparr>"

definition posix_read :: "PosixStorageBackend \<Rightarrow> u64 \<Rightarrow> nat \<Rightarrow> string + bytes" where
  "posix_read b off len =
    (if \<not> ValidRange (ps_size b) off len then Inl ''POSIX storage read range is invalid''
     else case ps_file b of
       None \<Rightarrow> Inl ''failed to open POSIX storage file for read''
     | Some d \<Rightarrow>
         let got = bslice (unat off) len d in
         if length got \<noteq> len then Inl ''failed to read requested POSIX storage bytes'' else Inr got)"

text \<open>Writing at an offset of a file, which pads a file that has become shorter with zeros.\<close>

definition file_write :: "nat \<Rightarrow> bytes \<Rightarrow> bytes \<Rightarrow> bytes" where
  "file_write off src d = take off (d @ replicate (off - length d) 0) @ src @ drop (off + length src) d"

definition posix_write :: "PosixStorageBackend \<Rightarrow> u64 \<Rightarrow> bytes \<Rightarrow> string option \<times> PosixStorageBackend" where
  "posix_write b off src =
    (if \<not> ValidRange (ps_size b) off (length src) then
       (Some ''POSIX storage write range is invalid'', b)
     else case ps_file b of
       None \<Rightarrow> (Some ''failed to open POSIX storage file for write'', b)
     | Some d \<Rightarrow>
         (case ps_stream b of
            StreamWrites \<Rightarrow> (None, b\<lparr>ps_file := Some (file_write (unat off) src d)\<rparr>)
          | FailsBeforeTest k \<Rightarrow> (Some ''failed to write requested POSIX storage bytes'',
              b\<lparr>ps_file := Some (if k = 0 then d else file_write (unat off) (take k src) d)\<rparr>)
          | FailsAtFlush k \<Rightarrow>
              (None, b\<lparr>ps_file := Some (if k = 0 then d else file_write (unat off) (take k src) d)\<rparr>)))"

section \<open>The interface\<close>

text \<open>
  What a backend in good order promises: its contents are an array of its size, a read in range
  returns the bytes there and one out of range is refused, a write in range replaces exactly the
  bytes there and one out of range changes nothing.
\<close>

locale storage_backend =
  fixes bsize :: "'b \<Rightarrow> u64"
    and bread :: "'b \<Rightarrow> u64 \<Rightarrow> nat \<Rightarrow> string + bytes"
    and bwrite :: "'b \<Rightarrow> u64 \<Rightarrow> bytes \<Rightarrow> string option \<times> 'b"
    and contents :: "'b \<Rightarrow> bytes"
    and good :: "'b \<Rightarrow> bool"
  assumes size_contents: "good b \<Longrightarrow> unat (bsize b) = length (contents b)"
    and read_in: "good b \<Longrightarrow> unat off + len \<le> length (contents b) \<Longrightarrow>
        bread b off len = Inr (bslice (unat off) len (contents b))"
    and read_out: "good b \<Longrightarrow> length (contents b) < unat off + len \<Longrightarrow> \<exists>e. bread b off len = Inl e"
    and write_in: "good b \<Longrightarrow> unat off + length src \<le> length (contents b) \<Longrightarrow>
        \<exists>b'. bwrite b off src = (None, b') \<and> good b' \<and>
          contents b' = overwrite (unat off) src (contents b)"
    and write_out: "good b \<Longrightarrow> length (contents b) < unat off + length src \<Longrightarrow>
        \<exists>e. bwrite b off src = (Some e, b)"
begin

lemma write_then_read:
  assumes "good b" "bwrite b off src = (None, b')"
  shows "good b' \<and> bsize b' = bsize b \<and> bread b' off (length src) = Inr src \<and>
    (\<forall>o2 n. unat o2 + n \<le> unat off \<or> unat off + length src \<le> unat o2 \<longrightarrow> bread b' o2 n = bread b o2 n \<or>
       length (contents b) < unat o2 + n)"
proof -
  have fit: "unat off + length src \<le> length (contents b)"
    using write_out [OF assms(1), of off src] assms(2) by fastforce
  obtain b'' where "bwrite b off src = (None, b'')" "good b''"
    "contents b'' = overwrite (unat off) src (contents b)"
    using write_in [OF assms(1) fit] by blast
  with assms(2) have b': "good b'" "contents b' = overwrite (unat off) src (contents b)" by simp_all
  have len: "length (contents b') = length (contents b)" using b' fit by simp
  have "bread b' off (length src) = Inr src"
    using read_in [OF b'(1), of off "length src"] b'(2) len fit by simp
  moreover have "bsize b' = bsize b"
    using size_contents assms(1) b'(1) len by (metis word_unat_eq_iff)
  moreover have "bread b' o2 n = bread b o2 n"
    if "unat o2 + n \<le> unat off \<or> unat off + length src \<le> unat o2" "unat o2 + n \<le> length (contents b)"
    for o2 n
    using read_in [OF b'(1), of o2 n] read_in [OF assms(1), of o2 n] that len b'(2)
      overwrite_frame [OF fit that(2)] by auto
  ultimately show ?thesis using b'(1) by (meson not_le)
qed

end

section \<open>Interpretations\<close>

lemma ValidRange_nat:
  "unat sz = n \<Longrightarrow> ValidRange sz off len \<longleftrightarrow> unat off + len \<le> n"
  by (auto simp: ValidRange_def word_le_nat_alt unat_sub)

interpretation memory_backend: storage_backend memory_size memory_read memory_write ms_bytes
  "\<lambda>b. length (ms_bytes b) < 2 ^ 64"
proof
  fix b :: MemoryStorageBackend and off len and src :: bytes
  assume "length (ms_bytes b) < 2 ^ 64"
  then have sz: "unat (memory_size b) = length (ms_bytes b)"
    by (simp add: memory_size_def unat_of_nat)
  then show "unat (memory_size b) = length (ms_bytes b)" .
  show "unat off + len \<le> length (ms_bytes b) \<Longrightarrow>
      memory_read b off len = Inr (bslice (unat off) len (ms_bytes b))"
    using ValidRange_nat [OF sz] by (simp add: memory_read_def)
  show "length (ms_bytes b) < unat off + len \<Longrightarrow> \<exists>e. memory_read b off len = Inl e"
    using ValidRange_nat [OF sz] by (simp add: memory_read_def)
  show "unat off + length src \<le> length (ms_bytes b) \<Longrightarrow>
      \<exists>b'. memory_write b off src = (None, b') \<and> length (ms_bytes b') < 2 ^ 64 \<and>
        ms_bytes b' = overwrite (unat off) src (ms_bytes b)"
    using ValidRange_nat [OF sz] \<open>length (ms_bytes b) < 2 ^ 64\<close> by (simp add: memory_write_def)
  show "length (ms_bytes b) < unat off + length src \<Longrightarrow> \<exists>e. memory_write b off src = (Some e, b)"
    using ValidRange_nat [OF sz] by (simp add: memory_write_def)
qed

text \<open>A POSIX namespace in good order: the file is there and still has the recorded size, and its device
  takes writes.\<close>

definition posix_good :: "PosixStorageBackend \<Rightarrow> bool" where
  "posix_good b \<longleftrightarrow> ps_stream b = StreamWrites \<and> (case ps_file b of None \<Rightarrow> False | Some d \<Rightarrow> unat (ps_size b) = length d)"

definition posix_contents :: "PosixStorageBackend \<Rightarrow> bytes" where
  "posix_contents b = (case ps_file b of None \<Rightarrow> [] | Some d \<Rightarrow> d)"

lemma file_write_overwrite: "off + length src \<le> length d \<Longrightarrow> file_write off src d = overwrite off src d"
  by (simp add: file_write_def overwrite_def)

interpretation posix_backend: storage_backend ps_size posix_read posix_write posix_contents posix_good
proof
  fix b :: PosixStorageBackend and off len and src :: bytes
  assume "posix_good b"
  then obtain d where d: "ps_file b = Some d" "unat (ps_size b) = length d" "ps_stream b = StreamWrites"
    by (auto simp: posix_good_def split: option.splits)
  then have c: "posix_contents b = d" by (simp add: posix_contents_def)
  note vr = ValidRange_nat [OF d(2)]
  show "unat (ps_size b) = length (posix_contents b)" using d c by simp
  show "unat off + len \<le> length (posix_contents b) \<Longrightarrow>
      posix_read b off len = Inr (bslice (unat off) len (posix_contents b))"
    using vr d c by (simp add: posix_read_def Let_def)
  show "length (posix_contents b) < unat off + len \<Longrightarrow> \<exists>e. posix_read b off len = Inl e"
    using vr c by (simp add: posix_read_def)
  show "unat off + length src \<le> length (posix_contents b) \<Longrightarrow>
      \<exists>b'. posix_write b off src = (None, b') \<and> posix_good b' \<and>
        posix_contents b' = overwrite (unat off) src (posix_contents b)"
    using vr d c
    by (simp add: posix_write_def posix_good_def posix_contents_def file_write_overwrite)
  show "length (posix_contents b) < unat off + length src \<Longrightarrow> \<exists>e. posix_write b off src = (Some e, b)"
    using vr c by (simp add: posix_write_def)
qed



text \<open>The condition on the device is needed: a write that fails only when the stream is flushed is
  reported as done, and leaves the file as it was.\<close>

lemma posix_write_lost:
  assumes "posix_good b" "unat off + length src \<le> length (posix_contents b)"
  shows "posix_write (b\<lparr>ps_stream := FailsAtFlush 0\<rparr>) off src = (None, b\<lparr>ps_stream := FailsAtFlush 0\<rparr>)"
proof -
  obtain d where d: "ps_file b = Some d" "unat (ps_size b) = length d" "posix_contents b = d"
    using assms(1) by (auto simp: posix_good_def posix_contents_def split: option.splits)
  with ValidRange_nat [OF d(2)] assms(2) show ?thesis by (cases b) (simp add: posix_write_def)
qed

end
