(* ===== verification/Roce_Verbs.thy ===== *)
theory Roce_Verbs
  imports Roce_Wire
begin

text \<open>
  The storage node's RDMA endpoint (\<open>src/roce_storage/verbs_backend.h\<close>, \<open>verbs_backend.cc\<close>, the build
  with libibverbs).

  libibverbs, the steady clock and the memory of the process are a parameter: the record \<open>ibverbs\<close>
  of the calls the backend makes, over a state \<open>'v\<close> of the machine that the development never looks
  into.  Objects of the library are named by numbers, a null pointer is \<open>None\<close> (for a host address,
  the address 0).  What the code relies on is stated by three locales: \<open>steady_clock\<close> (sleeping
  advances the clock), \<open>verbs_library\<close> (which objects a call creates and destroys, and that an object
  still used by another is not destroyed) and, in \<open>Roce_Transport\<close>, the order and the effect of
  completions.

  A method of \<open>VerbsBackend\<close> is a function of the same name with \<open>Verbs\<close> in front where the name is
  taken; it returns \<open>None\<close> where the C++ returns true and the text it stores in \<open>*error\<close> where it
  returns false.  The polling loop may run forever on a clock that stands still, so it is partial
  (\<open>None\<close> of the outer option is \<open>does not return\<close>).
\<close>

section \<open>The library\<close>

datatype ibv_access = IBV_ACCESS_LOCAL_WRITE | IBV_ACCESS_REMOTE_WRITE | IBV_ACCESS_REMOTE_READ

datatype ibv_mtu = IBV_MTU_256 | IBV_MTU_512 | IBV_MTU_1024 | IBV_MTU_2048 | IBV_MTU_4096

text \<open>The attributes of the three transitions of a queue pair that the code asks for.\<close>

datatype qp_attr =
    AttrInit (qa_pkey_index: u16) (qa_port_num: u8) (qa_access: "ibv_access list")
  | AttrRtr (qa_path_mtu: ibv_mtu) (qa_dest_qp_num: u32) (qa_rq_psn: u32) (qa_max_dest_rd_atomic: u8)
      (qa_min_rnr_timer: u8) (qa_dgid: bytes) (qa_sgid_index: u8) (qa_hop_limit: u8) (qa_ah_port: u8)
  | AttrRts (qa_sq_psn: u32) (qa_timeout: u8) (qa_retry_cnt: u8) (qa_rnr_retry: u8)
      (qa_max_rd_atomic: u8)

record qp_init_attr =
  qi_send_cq :: nat
  qi_recv_cq :: nat
  qi_max_send_wr :: u32
  qi_max_recv_wr :: u32
  qi_max_send_sge :: u32
  qi_max_recv_sge :: u32

datatype wr_opcode = IBV_WR_RDMA_READ | IBV_WR_RDMA_WRITE

record ibv_sge =
  sge_addr :: u64
  sge_length :: u32
  sge_lkey :: u32

record send_wr =
  wr_sge :: ibv_sge
  wr_op :: wr_opcode
  wr_remote_addr :: u64
  wr_rkey :: u32

text \<open>A work completion; status and opcode are the numbers of the library's enumerations.\<close>

record ibv_wc =
  wc_status :: nat
  wc_opcode :: nat
  wc_vendor_err :: u32
  wc_qp_num :: u32
  wc_byte_len :: u32

definition IBV_WC_SUCCESS :: nat where "IBV_WC_SUCCESS = 0"
definition IBV_WC_RECV :: nat where "IBV_WC_RECV = 128"

datatype poll_result = PollFailed | PollEmpty | Polled ibv_wc

record 'v ibverbs =
  ibv_get_device_list :: "'v \<Rightarrow> (nat \<times> string list) option \<times> 'v"
  ibv_free_device_list :: "nat \<Rightarrow> 'v \<Rightarrow> 'v"
  ibv_open_device :: "nat \<Rightarrow> nat \<Rightarrow> 'v \<Rightarrow> nat option \<times> 'v"
  ibv_close_device :: "nat \<Rightarrow> 'v \<Rightarrow> 'v"
  ibv_alloc_pd :: "nat \<Rightarrow> 'v \<Rightarrow> nat option \<times> 'v"
  ibv_dealloc_pd :: "nat \<Rightarrow> 'v \<Rightarrow> 'v"
  ibv_create_cq :: "nat \<Rightarrow> int \<Rightarrow> 'v \<Rightarrow> nat option \<times> 'v"
  ibv_destroy_cq :: "nat \<Rightarrow> 'v \<Rightarrow> 'v"
  ibv_create_qp :: "nat \<Rightarrow> qp_init_attr \<Rightarrow> 'v \<Rightarrow> (nat \<times> u32) option \<times> 'v"
  ibv_destroy_qp :: "nat \<Rightarrow> 'v \<Rightarrow> 'v"
  ibv_modify_qp :: "nat \<Rightarrow> qp_attr \<Rightarrow> 'v \<Rightarrow> bool \<times> 'v"
  ibv_query_gid :: "nat \<Rightarrow> u8 \<Rightarrow> u8 \<Rightarrow> 'v \<Rightarrow> bytes option \<times> 'v"
  ibv_query_port :: "nat \<Rightarrow> u8 \<Rightarrow> 'v \<Rightarrow> u32 option \<times> 'v"
  ibv_reg_mr :: "nat \<Rightarrow> u64 \<Rightarrow> u64 \<Rightarrow> ibv_access list \<Rightarrow> 'v \<Rightarrow> (nat \<times> u32 \<times> u32) option \<times> 'v"
  ibv_dereg_mr :: "nat \<Rightarrow> 'v \<Rightarrow> bool \<times> 'v"
  ibv_post_recv :: "nat \<Rightarrow> ibv_sge \<Rightarrow> 'v \<Rightarrow> bool \<times> 'v"
  ibv_post_send :: "nat \<Rightarrow> send_wr \<Rightarrow> 'v \<Rightarrow> string option \<times> 'v"
  ibv_poll_cq :: "nat \<Rightarrow> 'v \<Rightarrow> poll_result \<times> 'v"
  ibv_wc_status_str :: "nat \<Rightarrow> string"
  steady_now :: "'v \<Rightarrow> nat"
  sleep_1ms :: "'v \<Rightarrow> 'v"
  host_alloc :: "nat \<Rightarrow> 'v \<Rightarrow> u64 \<times> 'v"
  host_load :: "u64 \<Rightarrow> nat \<Rightarrow> 'v \<Rightarrow> bytes"
  host_store :: "u64 \<Rightarrow> bytes \<Rightarrow> 'v \<Rightarrow> 'v"

text \<open>One millisecond on the clock, which counts nanoseconds.\<close>

definition ms_ticks :: nat where "ms_ticks = 1000000"

section \<open>The backend\<close>

record VerbsEndpoint =
  ve_gid :: bytes
  ve_qpn :: u32
  ve_psn :: u32
  ve_port :: u8
  ve_gid_index :: u8
  ve_mtu :: u8

definition no_endpoint :: VerbsEndpoint where
  "no_endpoint = \<lparr>ve_gid = replicate 16 0, ve_qpn = 0, ve_psn = 0, ve_port = 1, ve_gid_index = 0, ve_mtu = 3\<rparr>"

record VerbsMemoryRegion =
  vm_address :: u64
  vm_length :: u64
  vm_lkey :: u32
  vm_rkey :: u32
  vm_opaque :: "nat option"

definition no_region :: VerbsMemoryRegion where
  "no_region = \<lparr>vm_address = 0, vm_length = 0, vm_lkey = 0, vm_rkey = 0, vm_opaque = None\<rparr>"

record VerbsBackend =
  vb_context :: "nat option"
  vb_pd :: "nat option"
  vb_cq :: "nat option"
  vb_qp :: "nat option"
  vb_endpoint :: VerbsEndpoint
  vb_selected_path_mtu :: u8

definition new_verbs :: VerbsBackend where
  "new_verbs = \<lparr>vb_context = None, vb_pd = None, vb_cq = None, vb_qp = None,
     vb_endpoint = no_endpoint, vb_selected_path_mtu = 0\<rparr>"

definition ToMtu :: "u8 \<Rightarrow> ibv_mtu" where
  "ToMtu x = (if x = 1 then IBV_MTU_256 else if x = 2 then IBV_MTU_512 else if x = 3 then IBV_MTU_1024
     else if x = 4 then IBV_MTU_2048 else IBV_MTU_4096)"

definition NextPsn :: "'v ibverbs \<Rightarrow> 'v \<Rightarrow> u32" where
  "NextPsn lib v = of_nat (steady_now lib v) AND 0x00ffffff"

definition verbs_available :: "VerbsBackend \<Rightarrow> bool" where
  "verbs_available b \<longleftrightarrow> vb_qp b \<noteq> None"

definition selected_path_mtu_bytes :: "VerbsBackend \<Rightarrow> u32" where
  "selected_path_mtu_bytes b = PathMtuBytes (vb_selected_path_mtu b)"

definition on_some :: "('h \<Rightarrow> 'v \<Rightarrow> 'v) \<Rightarrow> 'h option \<Rightarrow> 'v \<Rightarrow> 'v" where
  "on_some f h v = (case h of None \<Rightarrow> v | Some x \<Rightarrow> f x v)"

definition VerbsClose :: "'v ibverbs \<Rightarrow> VerbsBackend \<Rightarrow> 'v \<Rightarrow> VerbsBackend \<times> 'v" where
  "VerbsClose lib b v =
    (let v = on_some (ibv_destroy_qp lib) (vb_qp b) v;
         v = on_some (ibv_destroy_cq lib) (vb_cq b) v;
         v = on_some (ibv_dealloc_pd lib) (vb_pd b) v;
         v = on_some (ibv_close_device lib) (vb_context b) v
     in (new_verbs, v))"

subsection \<open>Open\<close>

text \<open>The first device of the list with the given name.\<close>

fun device_index :: "string \<Rightarrow> string list \<Rightarrow> nat option" where
  "device_index n [] = None"
| "device_index n (x # xs) = (if x = n then Some 0 else map_option Suc (device_index n xs))"

text \<open>The calls that undo a partial set-up, in the order of the error paths.\<close>

definition undo_pd :: "'v ibverbs \<Rightarrow> nat \<Rightarrow> nat \<Rightarrow> 'v \<Rightarrow> 'v" where
  "undo_pd lib c p v = ibv_close_device lib c (ibv_dealloc_pd lib p v)"

definition undo_cq :: "'v ibverbs \<Rightarrow> nat \<Rightarrow> nat \<Rightarrow> nat \<Rightarrow> 'v \<Rightarrow> 'v" where
  "undo_cq lib c p q v = undo_pd lib c p (ibv_destroy_cq lib q v)"

definition undo_qp :: "'v ibverbs \<Rightarrow> nat \<Rightarrow> nat \<Rightarrow> nat \<Rightarrow> nat \<Rightarrow> 'v \<Rightarrow> 'v" where
  "undo_qp lib c p q k v = undo_cq lib c p q (ibv_destroy_qp lib k v)"

text \<open>From the new queue pair to the end of \<open>Open\<close>.\<close>

definition open_finish ::
  "'v ibverbs \<Rightarrow> u8 \<Rightarrow> u8 \<Rightarrow> nat \<Rightarrow> nat \<Rightarrow> nat \<Rightarrow> nat \<times> u32 \<Rightarrow> VerbsBackend \<Rightarrow> 'v \<Rightarrow>
   string option \<times> VerbsBackend \<times> 'v" where
  "open_finish lib port gid_index c p q kn b v =
    (let k = fst kn in
     case ibv_modify_qp lib k (AttrInit 0 port
            [IBV_ACCESS_REMOTE_READ, IBV_ACCESS_REMOTE_WRITE, IBV_ACCESS_LOCAL_WRITE]) v of
       (False, v) \<Rightarrow> (Some ''failed to move RC QP to INIT'', b, undo_qp lib c p q k v)
     | (True, v) \<Rightarrow>
        (case ibv_query_gid lib c port gid_index v of
           (None, v) \<Rightarrow> (Some ''failed to query verbs port GID or attributes'', b, undo_qp lib c p q k v)
         | (Some gid, v) \<Rightarrow>
            (case ibv_query_port lib c port v of
               (None, v) \<Rightarrow>
                 (Some ''failed to query verbs port GID or attributes'', b, undo_qp lib c p q k v)
             | (Some active_mtu, v) \<Rightarrow>
                 (None, b\<lparr>vb_context := Some c, vb_pd := Some p, vb_cq := Some q, vb_qp := Some k,
                    vb_endpoint := \<lparr>ve_gid = take 16 gid, ve_qpn = snd kn, ve_psn = NextPsn lib v,
                      ve_port = port, ve_gid_index = gid_index, ve_mtu = ucast active_mtu\<rparr>\<rparr>, v))))"

text \<open>From the open device to the queue pair.\<close>

definition open_objects ::
  "'v ibverbs \<Rightarrow> u8 \<Rightarrow> u8 \<Rightarrow> u32 \<Rightarrow> nat \<Rightarrow> VerbsBackend \<Rightarrow> 'v \<Rightarrow> string option \<times> VerbsBackend \<times> 'v" where
  "open_objects lib port gid_index queue_depth c b v =
    (let err = Some ''failed to allocate verbs PD, CQ, or RC QP'' in
     case ibv_alloc_pd lib c v of
       (None, v) \<Rightarrow> (err, b, ibv_close_device lib c v)
     | (Some p, v) \<Rightarrow>
        (case ibv_create_cq lib c (sint (queue_depth * 2)) v of
           (None, v) \<Rightarrow> (err, b, undo_pd lib c p v)
         | (Some q, v) \<Rightarrow>
            (case ibv_create_qp lib p \<lparr>qi_send_cq = q, qi_recv_cq = q, qi_max_send_wr = queue_depth,
                    qi_max_recv_wr = queue_depth, qi_max_send_sge = 1, qi_max_recv_sge = 1\<rparr> v of
               (None, v) \<Rightarrow> (err, b, undo_cq lib c p q v)
             | (Some kn, v) \<Rightarrow> open_finish lib port gid_index c p q kn b v)))"

definition VerbsOpen ::
  "'v ibverbs \<Rightarrow> string \<Rightarrow> u8 \<Rightarrow> u8 \<Rightarrow> u32 \<Rightarrow> VerbsBackend \<Rightarrow> 'v \<Rightarrow> string option \<times> VerbsBackend \<times> 'v" where
  "VerbsOpen lib device_name port gid_index queue_depth b0 v0 =
    (let (b, v) = VerbsClose lib b0 v0 in
     if device_name = [] \<or> port = 0 \<or> queue_depth = 0 then
       (Some ''verbs device, port, and queue depth are required'', b, v)
     else case ibv_get_device_list lib v of
       (None, v) \<Rightarrow> (Some ''ibv_get_device_list failed'', b, v)
     | (Some devices, v) \<Rightarrow>
        (case device_index device_name (snd devices) of
           None \<Rightarrow> (Some ''requested verbs device was not found'', b,
                    ibv_free_device_list lib (fst devices) v)
         | Some i \<Rightarrow>
            (case ibv_open_device lib (fst devices) i v of
               (context, v) \<Rightarrow>
                 let v = ibv_free_device_list lib (fst devices) v in
                 case context of
                   None \<Rightarrow> (Some ''ibv_open_device failed'', b, v)
                 | Some c \<Rightarrow> open_objects lib port gid_index queue_depth c b v)))"

subsection \<open>Connect, regions\<close>

definition VerbsConnect ::
  "'v ibverbs \<Rightarrow> VerbsEndpoint \<Rightarrow> VerbsBackend \<Rightarrow> 'v \<Rightarrow> string option \<times> VerbsBackend \<times> 'v" where
  "VerbsConnect lib peer b v =
    (case vb_qp b of
       None \<Rightarrow> (Some ''verbs QP and peer endpoint are required'', b, v)
     | Some k \<Rightarrow>
        if ve_qpn peer = 0 \<or> PathMtuBytes (ve_mtu peer) = 0 \<or> PathMtuBytes (ve_mtu (vb_endpoint b)) = 0 then
          (Some ''verbs QP and peer endpoint are required'', b, v)
        else
          let mtu = min (ve_mtu (vb_endpoint b)) (ve_mtu peer) in
          case ibv_modify_qp lib k (AttrRtr (ToMtu mtu) (ve_qpn peer) (ve_psn peer) 1 12 (ve_gid peer)
                 (ve_gid_index (vb_endpoint b)) 1 (ve_port (vb_endpoint b))) v of
            (False, v) \<Rightarrow> (Some ''failed to move RC QP to RTR'', b\<lparr>vb_selected_path_mtu := 0\<rparr>, v)
          | (True, v) \<Rightarrow>
             (case ibv_modify_qp lib k (AttrRts (ve_psn (vb_endpoint b)) 14 7 7 1) v of
                (False, v) \<Rightarrow> (Some ''failed to move RC QP to RTS'', b\<lparr>vb_selected_path_mtu := 0\<rparr>, v)
              | (True, v) \<Rightarrow> (None, b\<lparr>vb_selected_path_mtu := mtu\<rparr>, v)))"

definition region_access :: "bool \<Rightarrow> bool \<Rightarrow> ibv_access list" where
  "region_access remote_read remote_write = [IBV_ACCESS_LOCAL_WRITE] @
     (if remote_read then [IBV_ACCESS_REMOTE_READ] else []) @
     (if remote_write then [IBV_ACCESS_REMOTE_WRITE] else [])"

definition VerbsRegister ::
  "'v ibverbs \<Rightarrow> VerbsBackend \<Rightarrow> u64 \<Rightarrow> u64 \<Rightarrow> bool \<Rightarrow> bool \<Rightarrow> 'v \<Rightarrow> (string + VerbsMemoryRegion) \<times> 'v" where
  "VerbsRegister lib b address len remote_read remote_write v =
    (if \<not> verbs_available b \<or> address = 0 \<or> len = 0 then
       (Inl ''verbs memory registration requires a QP, address, length, and output'', v)
     else case ibv_reg_mr lib (the (vb_pd b)) address len (region_access remote_read remote_write) v of
       (None, v) \<Rightarrow> (Inl ''ibv_reg_mr failed'', v)
     | (Some (m, lkey, rkey), v) \<Rightarrow>
         (Inr \<lparr>vm_address = address, vm_length = len, vm_lkey = lkey, vm_rkey = rkey,
               vm_opaque = Some m\<rparr>, v))"

definition VerbsDeregister ::
  "'v ibverbs \<Rightarrow> VerbsMemoryRegion \<Rightarrow> 'v \<Rightarrow> string option \<times> VerbsMemoryRegion \<times> 'v" where
  "VerbsDeregister lib region v =
    (case vm_opaque region of
       None \<Rightarrow> (None, region, v)
     | Some m \<Rightarrow>
        (case ibv_dereg_mr lib m v of
           (False, v) \<Rightarrow> (Some ''ibv_dereg_mr failed'', region, v)
         | (True, v) \<Rightarrow> (None, no_region, v)))"

subsection \<open>Transfers\<close>

definition PostReceive ::
  "'v ibverbs \<Rightarrow> VerbsBackend \<Rightarrow> VerbsMemoryRegion \<Rightarrow> 'v \<Rightarrow> string option \<times> 'v" where
  "PostReceive lib b region v =
    (if \<not> verbs_available b \<or> vm_opaque region = None then
       (Some ''registered receive region is required'', v)
     else case ibv_post_recv lib (the (vb_qp b)) \<lparr>sge_addr = vm_address region,
              sge_length = ucast (vm_length region), sge_lkey = vm_lkey region\<rparr> v of
       (False, v) \<Rightarrow> (Some ''ibv_post_recv failed'', v)
     | (True, v) \<Rightarrow> (None, v))"

text \<open>
  Both waiting loops: poll until a completion arrives, the poll fails or the deadline has passed.
  \<open>judge\<close> is the complaint about a completion, if any.
\<close>

partial_function (option) poll_loop ::
  "'v ibverbs \<Rightarrow> nat \<Rightarrow> nat \<Rightarrow> (ibv_wc \<Rightarrow> string option) \<Rightarrow> string \<Rightarrow> string \<Rightarrow> 'v \<Rightarrow>
   (string option \<times> 'v) option" where
  "poll_loop lib cq deadline judge poll_error timeout_error v =
    (if steady_now lib v < deadline then
       (case ibv_poll_cq lib cq v of (r, v') \<Rightarrow>
         (case r of
            PollFailed \<Rightarrow> Some (Some poll_error, v')
          | Polled wc \<Rightarrow> Some (judge wc, v')
          | PollEmpty \<Rightarrow> poll_loop lib cq deadline judge poll_error timeout_error (sleep_1ms lib v')))
     else Some (Some timeout_error, v))"

declare poll_loop.simps [code]

definition wc_detail :: "'v ibverbs \<Rightarrow> ibv_wc \<Rightarrow> string" where
  "wc_detail lib wc = ibv_wc_status_str lib (wc_status wc) @ ''('' @ dec (wc_status wc) @ '') opcode='' @
     dec (wc_opcode wc) @ '' vendor_err='' @ dec (unat (wc_vendor_err wc)) @ '' qp_num='' @
     dec (unat (wc_qp_num wc))"

definition receive_judge :: "'v ibverbs \<Rightarrow> ibv_wc \<Rightarrow> string option" where
  "receive_judge lib wc =
    (if wc_status wc \<noteq> IBV_WC_SUCCESS \<or> wc_opcode wc \<noteq> IBV_WC_RECV then
       Some (''unexpected verbs receive completion status='' @ wc_detail lib wc)
     else None)"

definition transfer_judge :: "'v ibverbs \<Rightarrow> VerbsBackend \<Rightarrow> bool \<Rightarrow> ibv_wc \<Rightarrow> string option" where
  "transfer_judge lib b is_read wc =
    (if wc_status wc \<noteq> IBV_WC_SUCCESS then
       Some (''verbs RDMA '' @ (if is_read then ''read'' else ''write'') @ '' completion failed status='' @
         wc_detail lib wc @ '' byte_len='' @ dec (unat (wc_byte_len wc)) @ '' path_mtu='' @
         dec (unat (PathMtuBytes (vb_selected_path_mtu b))))
     else None)"

definition wait_deadline :: "'v ibverbs \<Rightarrow> u32 \<Rightarrow> 'v \<Rightarrow> nat" where
  "wait_deadline lib timeout_ms v = steady_now lib v + unat timeout_ms * ms_ticks"

definition WaitForReceive :: "'v ibverbs \<Rightarrow> VerbsBackend \<Rightarrow> u32 \<Rightarrow> 'v \<Rightarrow> (string option \<times> 'v) option" where
  "WaitForReceive lib b timeout_ms v =
    (if \<not> verbs_available b \<or> timeout_ms = 0 then
       Some (Some ''verbs CQ and nonzero timeout are required'', v)
     else poll_loop lib (the (vb_cq b)) (wait_deadline lib timeout_ms v) (receive_judge lib)
       ''ibv_poll_cq failed while waiting for receive''
       ''timed out waiting for verbs receive completion'' v)"

definition transfer_wr :: "bool \<Rightarrow> VerbsMemoryRegion \<Rightarrow> u64 \<Rightarrow> u32 \<Rightarrow> u64 \<Rightarrow> send_wr" where
  "transfer_wr is_read local remote_address remote_rkey len =
    \<lparr>wr_sge = \<lparr>sge_addr = vm_address local, sge_length = ucast len, sge_lkey = vm_lkey local\<rparr>,
     wr_op = (if is_read then IBV_WR_RDMA_READ else IBV_WR_RDMA_WRITE),
     wr_remote_addr = remote_address, wr_rkey = remote_rkey\<rparr>"

definition VerbsTransfer ::
  "'v ibverbs \<Rightarrow> VerbsBackend \<Rightarrow> bool \<Rightarrow> VerbsMemoryRegion \<Rightarrow> u64 \<Rightarrow> u32 \<Rightarrow> u64 \<Rightarrow> u32 \<Rightarrow> 'v \<Rightarrow>
   (string option \<times> 'v) option" where
  "VerbsTransfer lib b is_read local remote_address remote_rkey len timeout_ms v =
    (if \<not> verbs_available b \<or> vm_opaque local = None \<or> len = 0 \<or> vm_length local < len \<or> timeout_ms = 0 then
       Some (Some ''invalid verbs RDMA transfer arguments'', v)
     else case ibv_post_send lib (the (vb_qp b))
                 (transfer_wr is_read local remote_address remote_rkey len) v of
       (Some e, v) \<Rightarrow> Some (Some (''ibv_post_send RDMA transfer failed: '' @ e), v)
     | (None, v) \<Rightarrow>
         poll_loop lib (the (vb_cq b)) (wait_deadline lib timeout_ms v) (transfer_judge lib b is_read)
           ''ibv_poll_cq failed while waiting for RDMA transfer''
           ''timed out waiting for verbs RDMA transfer completion'' v)"

definition VerbsRead where "VerbsRead lib b = VerbsTransfer lib b True"
definition VerbsWrite where "VerbsWrite lib b = VerbsTransfer lib b False"

section \<open>What the library promises\<close>

subsection \<open>The clock\<close>

locale steady_clock =
  fixes lib :: "'v ibverbs"
  assumes sleep_advances: "steady_now lib v + ms_ticks \<le> steady_now lib (sleep_1ms lib v)"
    and poll_monotone: "steady_now lib v \<le> steady_now lib (snd (ibv_poll_cq lib cq v))"
begin

lemma poll_loop_returns: "\<exists>r. poll_loop lib cq deadline judge pe te v = Some r"
proof (induction "deadline - steady_now lib v" arbitrary: v rule: less_induct)
  case less
  show ?case
  proof (cases "steady_now lib v < deadline")
    case True
    let ?v = "sleep_1ms lib (snd (ibv_poll_cq lib cq v))"
    have "steady_now lib v < steady_now lib ?v"
      using sleep_advances [of "snd (ibv_poll_cq lib cq v)"] poll_monotone [of v cq]
      by (simp add: ms_ticks_def)
    with True have "deadline - steady_now lib ?v < deadline - steady_now lib v" by simp
    from less [OF this] show ?thesis
      using True by (subst poll_loop.simps) (auto split: prod.splits poll_result.splits)
  next
    case False
    then show ?thesis by (subst poll_loop.simps) simp
  qed
qed

lemma WaitForReceive_returns: "\<exists>r. WaitForReceive lib b timeout_ms v = Some r"
  using poll_loop_returns by (auto simp: WaitForReceive_def)

lemma VerbsTransfer_returns: "\<exists>r. VerbsTransfer lib b rd local ra rk len timeout_ms v = Some r"
  using poll_loop_returns by (auto simp: VerbsTransfer_def split: prod.splits option.splits)

end

text \<open>
  A run of the loop passes through states that satisfy any invariant kept by an empty poll and the
  sleep after it, and ends with a completion, a failing poll or the deadline.
\<close>

lemma poll_loop_rule:
  assumes run: "poll_loop lib cq deadline judge pe te v = Some (r, v')"
    and step: "\<forall>v v1. I v \<and> ibv_poll_cq lib cq v = (PollEmpty, v1) \<longrightarrow> I (sleep_1ms lib v1)"
    and start: "I v"
  shows "\<exists>v1. I v1 \<and> ((\<exists>wc. ibv_poll_cq lib cq v1 = (Polled wc, v') \<and> r = judge wc) \<or>
      ibv_poll_cq lib cq v1 = (PollFailed, v') \<and> r = Some pe \<or>
      v' = v1 \<and> r = Some te \<and> deadline \<le> steady_now lib v1)"
proof -
  let ?Q = "\<lambda>l c d j p t (v :: 'a) rv. l = lib \<and> c = cq \<longrightarrow> I v \<longrightarrow>
    (\<exists>v1. I v1 \<and> ((\<exists>wc. ibv_poll_cq lib cq v1 = (Polled wc, snd rv) \<and> fst rv = j wc) \<or>
      ibv_poll_cq lib cq v1 = (PollFailed, snd rv) \<and> fst rv = Some p \<or>
      snd rv = v1 \<and> fst rv = Some t \<and> d \<le> steady_now lib v1))"
  have "?Q lib cq deadline judge pe te v (r, v')"
  proof (rule poll_loop.raw_induct [where P = ?Q, OF _ run])
    fix loop l c d j p t v and y :: "string option \<times> 'a"
    assume IH: "\<And>l c d j p t v y. loop l c d j p t v = Some y \<Longrightarrow> ?Q l c d j p t v y"
      and body: "(if steady_now l v < d then
          (case ibv_poll_cq l c v of (r, v') \<Rightarrow>
            (case r of PollFailed \<Rightarrow> Some (Some p, v') | PollEmpty \<Rightarrow> loop l c d j p t (sleep_1ms l v')
             | Polled wc \<Rightarrow> Some (j wc, v')))
        else Some (Some t, v)) = Some y"
    show "?Q l c d j p t v y"
    proof (intro impI, elim conjE)
      assume lc: "l = lib" "c = cq" and v: "I v"
      obtain x v1 where x: "ibv_poll_cq lib cq v = (x, v1)" by fastforce
      show "\<exists>v1. I v1 \<and> ((\<exists>wc. ibv_poll_cq lib cq v1 = (Polled wc, snd y) \<and> fst y = j wc) \<or>
          ibv_poll_cq lib cq v1 = (PollFailed, snd y) \<and> fst y = Some p \<or>
          snd y = v1 \<and> fst y = Some t \<and> d \<le> steady_now lib v1)"
      proof (cases "steady_now lib v < d \<and> x = PollEmpty")
        case True
        with body lc x have "loop lib cq d j p t (sleep_1ms lib v1) = Some y" by simp
        from IH [OF this] step v x True show ?thesis by blast
      next
        case False
        with body lc x v show ?thesis by (cases x) (auto split: if_splits)
      qed
    qed
  qed
  then show ?thesis using start by simp
qed

subsection \<open>Objects\<close>

text \<open>
  A live object of the library: its name and the names of the objects it was made from.  A call that
  makes an object gives it a name nobody has or refers to; a call that destroys one succeeds exactly
  when nothing alive was made from it (the library refuses with \<open>EBUSY\<close> otherwise, and the code
  ignores the result).
\<close>

datatype vobj = VObj (vo_name: nat) (vo_uses: "nat list")

definition fresh_name :: "nat \<Rightarrow> vobj set \<Rightarrow> bool" where
  "fresh_name h L \<longleftrightarrow> (\<forall>ob\<in>L. vo_name ob \<noteq> h \<and> h \<notin> set (vo_uses ob))"

definition in_use :: "nat \<Rightarrow> vobj set \<Rightarrow> bool" where
  "in_use h L \<longleftrightarrow> (\<exists>ob\<in>L. h \<in> set (vo_uses ob))"

definition creates :: "('v \<Rightarrow> vobj set) \<Rightarrow> nat list \<Rightarrow> ('v \<Rightarrow> nat option \<times> 'v) \<Rightarrow> bool" where
  "creates live us f \<longleftrightarrow> (\<forall>v h v'.
     (f v = (None, v') \<longrightarrow> live v' = live v) \<and>
     (f v = (Some h, v') \<longrightarrow>
        fresh_name h (live v) \<and> h \<notin> set us \<and> live v' = insert (VObj h us) (live v)))"

definition destroys :: "('v \<Rightarrow> vobj set) \<Rightarrow> nat \<Rightarrow> ('v \<Rightarrow> 'v) \<Rightarrow> bool" where
  "destroys live h f \<longleftrightarrow>
    (\<forall>v. live (f v) = (if in_use h (live v) then live v else {ob \<in> live v. vo_name ob \<noteq> h}))"

definition keeps :: "('v \<Rightarrow> vobj set) \<Rightarrow> ('v \<Rightarrow> 'v) \<Rightarrow> bool" where
  "keeps live f \<longleftrightarrow> (\<forall>v. live (f v) = live v)"

text \<open>\<open>L\<close> is \<open>L0\<close> with the objects of the list added one on the other, the head last.\<close>

fun stacked :: "vobj list \<Rightarrow> vobj set \<Rightarrow> vobj set \<Rightarrow> bool" where
  "stacked [] L0 L \<longleftrightarrow> L = L0"
| "stacked (ob # obs) L0 L \<longleftrightarrow> (\<exists>L1. stacked obs L0 L1 \<and> fresh_name (vo_name ob) L1 \<and>
     vo_name ob \<notin> set (vo_uses ob) \<and> L = insert ob L1)"

lemma stacked_create:
  assumes "creates live us f" "stacked obs L0 (live v)" "f v = (Some h, v')"
  shows "stacked (VObj h us # obs) L0 (live v')"
  using assms by (auto simp: creates_def)

lemma create_fails: "creates live us f \<Longrightarrow> f v = (None, v') \<Longrightarrow> live v' = live v"
  by (auto simp: creates_def)

lemma insert_remove:
  assumes "fresh_name (vo_name ob) L" "vo_name ob \<notin> set (vo_uses ob)"
  shows "\<not> in_use (vo_name ob) (insert ob L)" "{ob' \<in> insert ob L. vo_name ob' \<noteq> vo_name ob} = L"
  using assms by (auto simp: fresh_name_def in_use_def)

lemma stacked_destroy:
  assumes "destroys live (vo_name ob) f" "stacked (ob # obs) L0 (live v)"
  shows "stacked obs L0 (live (f v))"
  using assms insert_remove by (auto simp: destroys_def)

text \<open>The four objects of an open endpoint with the regions registered on it, the latest first.\<close>

definition endpoint_objs :: "nat \<Rightarrow> nat \<Rightarrow> nat \<Rightarrow> nat \<Rightarrow> nat list \<Rightarrow> vobj list" where
  "endpoint_objs c p q k ms =
    map (\<lambda>m. VObj m [p]) ms @ [VObj k [p, q, q], VObj q [c], VObj p [c], VObj c []]"

definition vb_holds :: "('v \<Rightarrow> vobj set) \<Rightarrow> vobj set \<Rightarrow> nat list \<Rightarrow> VerbsBackend \<Rightarrow> 'v \<Rightarrow> bool" where
  "vb_holds live L0 ms b v \<longleftrightarrow> (\<exists>c p q k. vb_context b = Some c \<and> vb_pd b = Some p \<and>
     vb_cq b = Some q \<and> vb_qp b = Some k \<and> stacked (endpoint_objs c p q k ms) L0 (live v))"

lemma stacked_cong: "live v' = live v \<Longrightarrow> stacked obs L0 (live v') = stacked obs L0 (live v)"
  by simp

locale verbs_library =
  fixes lib :: "'v ibverbs" and live :: "'v \<Rightarrow> vobj set"
  assumes get_list: "creates live [] (\<lambda>v. apfst (map_option fst) (ibv_get_device_list lib v))"
    and free_list: "destroys live l (ibv_free_device_list lib l)"
    and open_device: "creates live [] (ibv_open_device lib l i)"
    and close_device: "destroys live c (ibv_close_device lib c)"
    and alloc_pd: "creates live [c] (ibv_alloc_pd lib c)"
    and dealloc_pd: "destroys live p (ibv_dealloc_pd lib p)"
    and create_cq: "creates live [c] (ibv_create_cq lib c n)"
    and destroy_cq: "destroys live q (ibv_destroy_cq lib q)"
    and create_qp: "creates live [p, qi_send_cq ini, qi_recv_cq ini]
          (\<lambda>v. apfst (map_option fst) (ibv_create_qp lib p ini v))"
    and destroy_qp: "destroys live k (ibv_destroy_qp lib k)"
    and reg_mr: "creates live [p] (\<lambda>v. apfst (map_option fst) (ibv_reg_mr lib p a len acc v))"
    and dereg_mr: "destroys live m (\<lambda>v. snd (ibv_dereg_mr lib m v))"
    and modify_qp: "keeps live (\<lambda>v. snd (ibv_modify_qp lib k attr v))"
    and query_gid: "keeps live (\<lambda>v. snd (ibv_query_gid lib c port idx v))"
    and query_port: "keeps live (\<lambda>v. snd (ibv_query_port lib c port v))"
    and post_recv: "keeps live (\<lambda>v. snd (ibv_post_recv lib k sge v))"
    and post_send: "keeps live (\<lambda>v. snd (ibv_post_send lib k wr v))"
    and poll_cq: "keeps live (\<lambda>v. snd (ibv_poll_cq lib cq v))"
    and sleeping: "keeps live (sleep_1ms lib)"
    and allocating: "keeps live (\<lambda>v. snd (host_alloc lib sz v))"
    and storing: "keeps live (host_store lib a d)"
begin

lemma stacked_destroys:
  "stacked (VObj k us # obs) L0 (live v) \<Longrightarrow> stacked obs L0 (live (ibv_destroy_qp lib k v))"
  "stacked (VObj q us # obs) L0 (live v) \<Longrightarrow> stacked obs L0 (live (ibv_destroy_cq lib q v))"
  "stacked (VObj p us # obs) L0 (live v) \<Longrightarrow> stacked obs L0 (live (ibv_dealloc_pd lib p v))"
  "stacked (VObj c us # obs) L0 (live v) \<Longrightarrow> stacked obs L0 (live (ibv_close_device lib c v))"
  "stacked (VObj m us # obs) L0 (live v) \<Longrightarrow> stacked obs L0 (live (snd (ibv_dereg_mr lib m v)))"
  using stacked_destroy [of live "VObj k us" "ibv_destroy_qp lib k", OF _] destroy_qp
    stacked_destroy [of live "VObj q us" "ibv_destroy_cq lib q"] destroy_cq
    stacked_destroy [of live "VObj p us" "ibv_dealloc_pd lib p"] dealloc_pd
    stacked_destroy [of live "VObj c us" "ibv_close_device lib c"] close_device
    stacked_destroy [of live "VObj m us" "\<lambda>v. snd (ibv_dereg_mr lib m v)"] dereg_mr
  by (simp_all del: stacked.simps)

lemma undo_objects:
  "stacked [VObj p [c], VObj c []] L0 (live v) \<Longrightarrow> live (undo_pd lib c p v) = L0"
  "stacked [VObj q [c], VObj p [c], VObj c []] L0 (live v) \<Longrightarrow> live (undo_cq lib c p q v) = L0"
  "stacked (endpoint_objs c p q k []) L0 (live v) \<Longrightarrow> live (undo_qp lib c p q k v) = L0"
proof -
  have 1: "live (undo_pd lib c p v) = L0" if "stacked [VObj p [c], VObj c []] L0 (live v)" for v
    using stacked_destroys(4) [OF stacked_destroys(3) [OF that]] by (simp add: undo_pd_def)
  have 2: "live (undo_cq lib c p q v) = L0"
    if "stacked [VObj q [c], VObj p [c], VObj c []] L0 (live v)" for v
    using 1 [OF stacked_destroys(2) [OF that]] by (simp add: undo_cq_def)
  show "stacked [VObj p [c], VObj c []] L0 (live v) \<Longrightarrow> live (undo_pd lib c p v) = L0" by (rule 1)
  show "stacked [VObj q [c], VObj p [c], VObj c []] L0 (live v) \<Longrightarrow> live (undo_cq lib c p q v) = L0"
    by (rule 2)
  assume "stacked (endpoint_objs c p q k []) L0 (live v)"
  then have "stacked (VObj k [p, q, q] # [VObj q [c], VObj p [c], VObj c []]) L0 (live v)"
    by (simp add: endpoint_objs_def)
  from 2 [OF stacked_destroys(1) [OF this]] show "live (undo_qp lib c p q k v) = L0"
    by (simp add: undo_qp_def)
qed

lemma neutral_calls [simp]:
  "live (snd (ibv_modify_qp lib k attr v)) = live v"
  "live (snd (ibv_query_gid lib c port idx v)) = live v"
  "live (snd (ibv_query_port lib c port v)) = live v"
  "live (snd (ibv_post_recv lib k sge v)) = live v"
  "live (snd (ibv_post_send lib k wr v)) = live v"
  "live (snd (ibv_poll_cq lib cq v)) = live v"
  "live (sleep_1ms lib v) = live v"
  "live (snd (host_alloc lib sz v)) = live v"
  "live (host_store lib a d v) = live v"
  using modify_qp query_gid query_port post_recv post_send poll_cq sleeping allocating storing
  by (simp_all add: keeps_def)

lemma neutral_result:
  "ibv_modify_qp lib k attr v = (b, v') \<Longrightarrow> live v' = live v"
  "ibv_query_gid lib c port idx v = (g, v') \<Longrightarrow> live v' = live v"
  "ibv_query_port lib c port v = (a, v') \<Longrightarrow> live v' = live v"
  "ibv_post_recv lib k sge v = (b, v') \<Longrightarrow> live v' = live v"
  "ibv_post_send lib k wr v = (e, v') \<Longrightarrow> live v' = live v"
  by (metis neutral_calls snd_conv)+

text \<open>A closing endpoint without regions gives back everything it holds; a closed one nothing.\<close>

lemma Close_holds:
  assumes "vb_holds live L0 [] b v"
  shows "live (snd (VerbsClose lib b v)) = L0"
  using assms undo_objects(3)
  by (auto simp: vb_holds_def VerbsClose_def on_some_def Let_def undo_qp_def undo_cq_def undo_pd_def)

lemma open_finish_holds:
  assumes "stacked (endpoint_objs c p q (fst kn) []) L0 (live v)"
    "open_finish lib port gid c p q kn b v = (e, b', v')"
  shows "(e \<noteq> None \<longrightarrow> b' = b \<and> live v' = L0) \<and> (e = None \<longrightarrow> vb_holds live L0 [] b' v')"
  using assms undo_objects(3)
  by (auto simp: open_finish_def Let_def vb_holds_def dest!: neutral_result
      split: prod.splits bool.splits option.splits)

lemma open_objects_holds:
  assumes st: "stacked [VObj c []] L0 (live v)"
    and run: "open_objects lib port gid depth c b v = (e, b', v')"
  shows "(e \<noteq> None \<longrightarrow> b' = b \<and> live v' = L0) \<and> (e = None \<longrightarrow> vb_holds live L0 [] b' v')"
proof -
  obtain pd v1 where pd: "ibv_alloc_pd lib c v = (pd, v1)" by fastforce
  show ?thesis
  proof (cases pd)
    case None
    with st run pd create_fails [OF alloc_pd] stacked_destroys(4) [of c "[]" "[]" L0 v1] show ?thesis
      by (auto simp: open_objects_def Let_def simp del: stacked.simps(2))
  next
    case (Some p)
    with pd st have st1: "stacked [VObj p [c], VObj c []] L0 (live v1)"
      using stacked_create [OF alloc_pd] by blast
    obtain cq v2 where cq: "ibv_create_cq lib c (sint (depth * 2)) v1 = (cq, v2)" by fastforce
    show ?thesis
    proof (cases cq)
      case None
      with Some pd cq run st1 create_fails [OF create_cq] undo_objects(1) show ?thesis
        by (auto simp: open_objects_def Let_def simp del: stacked.simps(2))
    next
      case q: (Some q)
      with cq st1 have st2: "stacked [VObj q [c], VObj p [c], VObj c []] L0 (live v2)"
        using stacked_create [OF create_cq] by blast
      let ?ini = "\<lparr>qi_send_cq = q, qi_recv_cq = q, qi_max_send_wr = depth, qi_max_recv_wr = depth,
        qi_max_send_sge = 1, qi_max_recv_sge = 1\<rparr>"
      obtain qp v3 where qp: "ibv_create_qp lib p ?ini v2 = (qp, v3)" by fastforce
      show ?thesis
      proof (cases qp)
        case None
        with Some q pd cq qp run st2 create_fails [OF create_qp, of p ?ini v2 v3] undo_objects(2)
        show ?thesis by (auto simp: open_objects_def Let_def simp del: stacked.simps(2))
      next
        case k: (Some kn)
        with qp have "(\<lambda>v. apfst (map_option fst) (ibv_create_qp lib p ?ini v)) v2 = (Some (fst kn), v3)"
          by simp
        from stacked_create [OF create_qp st2 this]
        have "stacked (endpoint_objs c p q (fst kn) []) L0 (live v3)" by (simp add: endpoint_objs_def)
        moreover have "open_finish lib port gid c p q kn b v3 = (e, b', v')"
          using run pd cq qp Some q k by (simp add: open_objects_def Let_def)
        ultimately show ?thesis by (rule open_finish_holds)
      qed
    qed
  qed
qed

text \<open>Opening a closed backend: everything made on the way is destroyed again on every error path.\<close>

lemma device_list_freed:
  assumes "ibv_get_device_list lib v = (Some d, v1)"
  shows "live (ibv_free_device_list lib (fst d) v1) = live v"
    and "ibv_open_device lib (fst d) i v1 = (None, v2) \<Longrightarrow>
      live (ibv_free_device_list lib (fst d) v2) = live v"
    and "ibv_open_device lib (fst d) i v1 = (Some c, v2) \<Longrightarrow>
      stacked [VObj c []] (live v) (live (ibv_free_device_list lib (fst d) v2))"
proof -
  have l: "fresh_name (fst d) (live v)" "live v1 = insert (VObj (fst d) []) (live v)"
    using get_list assms by (force simp: creates_def)+
  note free = free_list [of "fst d", unfolded destroys_def, rule_format]
  show 1: "live (ibv_free_device_list lib (fst d) v1) = live v"
    using l free [of v1] insert_remove [of "VObj (fst d) []" "live v"] by simp
  show "live (ibv_free_device_list lib (fst d) v2) = live v"
    if "ibv_open_device lib (fst d) i v1 = (None, v2)"
    using create_fails [OF open_device that] 1 free [of v1] free [of v2] by metis
  show "stacked [VObj c []] (live v) (live (ibv_free_device_list lib (fst d) v2))"
    if "ibv_open_device lib (fst d) i v1 = (Some c, v2)"
  proof -
    have c: "fresh_name c (live v1)" "live v2 = insert (VObj c []) (live v1)"
      using open_device that by (force simp: creates_def)+
    then have "fst d \<noteq> c" "fresh_name c (live v)" using l by (auto simp: fresh_name_def)
    moreover have "live (ibv_free_device_list lib (fst d) v2) = insert (VObj c []) (live v)"
      using free [of v2] c l \<open>fst d \<noteq> c\<close> by (auto simp: fresh_name_def in_use_def)
    ultimately show ?thesis by simp
  qed
qed

lemma Open_holds:
  assumes "VerbsOpen lib name port gid depth new_verbs v = (e, b', v')"
  shows "(e \<noteq> None \<longrightarrow> b' = new_verbs \<and> live v' = live v) \<and> (e = None \<longrightarrow> vb_holds live (live v) [] b' v')"
proof -
  have close: "VerbsClose lib new_verbs v = (new_verbs, v)"
    by (simp add: VerbsClose_def new_verbs_def on_some_def)
  show ?thesis
  proof (cases "name = [] \<or> port = 0 \<or> depth = 0")
    case False
    obtain r v1 where r: "ibv_get_device_list lib v = (r, v1)" by fastforce
    show ?thesis
    proof (cases r)
      case None
      then have "live v1 = live v" using create_fails [OF get_list, of v v1] r by simp
      with None False r assms close show ?thesis by (auto simp: VerbsOpen_def)
    next
      case (Some d)
      show ?thesis
      proof (cases "device_index name (snd d)")
        case None
        with Some False r assms close device_list_freed(1) [of v d v1] show ?thesis
          by (auto simp: VerbsOpen_def)
      next
        case i: (Some i)
        obtain c v2 where c: "ibv_open_device lib (fst d) i v1 = (c, v2)" by fastforce
        show ?thesis
        proof (cases c)
          case None
          with Some i False r c assms close device_list_freed(2) [of v d v1 i v2] show ?thesis
            by (auto simp: VerbsOpen_def Let_def)
        next
          case h: (Some h)
          have "open_objects lib port gid depth h new_verbs (ibv_free_device_list lib (fst d) v2) = (e, b', v')"
            using Some i h False r c assms close by (simp add: VerbsOpen_def Let_def)
          with device_list_freed(3) [of v d v1 i h v2] Some r c h open_objects_holds show ?thesis by blast
        qed
      qed
    qed
  qed (use assms close in \<open>auto simp: VerbsOpen_def\<close>)
qed

lemma Connect_holds:
  assumes "vb_holds live L0 ms b v" "VerbsConnect lib peer b v = (e, b', v')"
  shows "vb_holds live L0 ms b' v'"
  using assms
  by (auto simp: VerbsConnect_def vb_holds_def Let_def dest!: neutral_result
      split: if_splits prod.splits bool.splits)

lemma Register_holds:
  assumes "vb_holds live L0 ms b v" "VerbsRegister lib b a len rr rw v = (r, v')"
  shows "(\<exists>e. r = Inl e \<and> vb_holds live L0 ms b v') \<or>
    (\<exists>m rg. r = Inr rg \<and> vm_opaque rg = Some m \<and> vm_address rg = a \<and> vm_length rg = len \<and>
      vb_holds live L0 (m # ms) b v')"
proof (cases "\<not> verbs_available b \<or> a = 0 \<or> len = 0")
  case False
  obtain c p q k where h: "vb_context b = Some c" "vb_pd b = Some p" "vb_cq b = Some q" "vb_qp b = Some k"
    "stacked (endpoint_objs c p q k ms) L0 (live v)" using assms(1) by (auto simp: vb_holds_def)
  obtain x v1 where x: "ibv_reg_mr lib p a len (region_access rr rw) v = (x, v1)" by fastforce
  show ?thesis
  proof (cases x)
    case None
    then have "live v1 = live v" using create_fails [OF reg_mr, of p a len "region_access rr rw" v v1] x by simp
    with None x h False assms(2) show ?thesis by (auto simp: VerbsRegister_def vb_holds_def)
  next
    case (Some t)
    then have "(\<lambda>v. apfst (map_option fst) (ibv_reg_mr lib p a len (region_access rr rw) v)) v
        = (Some (fst t), v1)" using x by simp
    from stacked_create [OF reg_mr h(5) this]
    have "stacked (endpoint_objs c p q k (fst t # ms)) L0 (live v1)" by (simp add: endpoint_objs_def)
    with Some x h False assms(2) show ?thesis
      by (cases t) (auto simp: VerbsRegister_def vb_holds_def simp del: stacked.simps)
  qed
qed (use assms in \<open>auto simp: VerbsRegister_def\<close>)

lemma Deregister_holds:
  assumes "vb_holds live L0 (m # ms) b v" "vm_opaque rg = Some m"
  shows "vb_holds live L0 ms b (snd (snd (VerbsDeregister lib rg v)))"
proof -
  obtain c p q k where h: "vb_context b = Some c" "vb_pd b = Some p" "vb_cq b = Some q" "vb_qp b = Some k"
    "stacked (VObj m [p] # endpoint_objs c p q k ms) L0 (live v)"
    using assms(1) by (auto simp: vb_holds_def endpoint_objs_def simp del: stacked.simps)
  have "snd (snd (VerbsDeregister lib rg v)) = snd (ibv_dereg_mr lib m v)"
    using assms(2) by (simp add: VerbsDeregister_def split: prod.splits bool.splits)
  with stacked_destroys(5) [OF h(5)] h show ?thesis by (auto simp: vb_holds_def)
qed

lemma PostReceive_live: "PostReceive lib b rg v = (e, v') \<Longrightarrow> live v' = live v"
  by (auto simp: PostReceive_def dest!: neutral_result split: if_splits prod.splits bool.splits)

lemma poll_loop_live:
  assumes "poll_loop lib cq deadline judge pe te v = Some (r, v')"
  shows "live v' = live v"
proof -
  have poll: "live b = live a" if "ibv_poll_cq lib cq a = (x, b)" for a x b
    using neutral_calls(6) [of cq a] that by simp
  then have "\<forall>a b. live a = live v \<and> ibv_poll_cq lib cq a = (PollEmpty, b) \<longrightarrow>
      live (sleep_1ms lib b) = live v"
    by (metis neutral_calls(7))
  from poll_loop_rule [where I = "\<lambda>x. live x = live v", OF assms this refl] show ?thesis
    using poll by metis
qed

lemma WaitForReceive_live: "WaitForReceive lib b t v = Some (e, v') \<Longrightarrow> live v' = live v"
  by (auto simp: WaitForReceive_def dest: poll_loop_live split: if_splits)

lemma VerbsTransfer_live: "VerbsTransfer lib b rd rg ra rk len t v = Some (e, v') \<Longrightarrow> live v' = live v"
  by (auto simp: VerbsTransfer_def dest!: neutral_result poll_loop_live
      split: if_splits prod.splits option.splits)

lemma holds_cong: "live v' = live v \<Longrightarrow> vb_holds live L0 ms b v' = vb_holds live L0 ms b v"
  by (simp add: vb_holds_def)

end

end
