(* ===== verification/Roce_Transport.thy ===== *)
theory Roce_Transport
  imports Roce_Verbs
begin

text \<open>
  What an RDMA transfer of the storage node moves, and a reference adapter.

  \<open>rdma_transport\<close> states the documented behaviour of a reliable connection that the code relies on:
  posted work requests complete in the order of posting, a completion is reported once, and a
  successful completion means that its bytes have been moved.  Under it a transfer that returns
  true with nothing left over from before has moved exactly its own bytes.

  \<open>rnic\<close> is an executable adapter with scripted failures and delays.  It meets the three contracts
  (\<open>steady_clock\<close>, \<open>verbs_library\<close>, \<open>rdma_transport\<close>), so the theorems about the storage server that
  assume them are not vacuous, and the witnesses run the server on it.
\<close>

section \<open>Completions and the bytes they stand for\<close>

definition wr_len :: "send_wr \<Rightarrow> nat" where
  "wr_len wr = unat (sge_length (wr_sge wr))"

definition moved :: "'v ibverbs \<Rightarrow> (u32 \<Rightarrow> u64 \<Rightarrow> nat \<Rightarrow> 'v \<Rightarrow> bytes) \<Rightarrow> send_wr \<Rightarrow> 'v \<Rightarrow> 'v \<Rightarrow> bool" where
  "moved lib remote wr v v' \<longleftrightarrow>
    (let here = host_load lib (sge_addr (wr_sge wr)) (wr_len wr);
         there = remote (wr_rkey wr) (wr_remote_addr wr) (wr_len wr)
     in case wr_op wr of
          IBV_WR_RDMA_WRITE \<Rightarrow> there v' = here v
        | IBV_WR_RDMA_READ \<Rightarrow> here v' = there v')"

text \<open>Nothing on its way can change the memory of the process: no receive is posted, and the work
  requests on their way only read that memory.\<close>

definition quiet :: "('v \<Rightarrow> send_wr list) \<Rightarrow> ('v \<Rightarrow> nat) \<Rightarrow> 'v \<Rightarrow> bool" where
  "quiet outstanding receives v \<longleftrightarrow>
    receives v = 0 \<and> (\<forall>wr\<in>set (outstanding v). wr_op wr = IBV_WR_RDMA_WRITE)"

locale rdma_transport =
  fixes lib :: "'v ibverbs"
    and outstanding :: "'v \<Rightarrow> send_wr list"
    and receives :: "'v \<Rightarrow> nat"
    and remote :: "u32 \<Rightarrow> u64 \<Rightarrow> nat \<Rightarrow> 'v \<Rightarrow> bytes"
  assumes post_ok: "ibv_post_send lib k wr v = (None, v') \<Longrightarrow>
        outstanding v' = outstanding v @ [wr] \<and> receives v' = receives v"
    and post_memory: "ibv_post_send lib k wr v = (None, v') \<Longrightarrow> quiet outstanding receives v' \<Longrightarrow>
        host_load lib a n v' = host_load lib a n v"
    and poll_empty: "ibv_poll_cq lib cq v = (PollEmpty, v') \<Longrightarrow>
        outstanding v' = outstanding v \<and> receives v' = receives v"
    and poll_done: "ibv_poll_cq lib cq v = (Polled wc, v') \<Longrightarrow> receives v = 0 \<Longrightarrow>
        outstanding v = wr # rest \<Longrightarrow>
        outstanding v' = rest \<and> receives v' = 0 \<and> (wc_status wc = IBV_WC_SUCCESS \<longrightarrow> moved lib remote wr v v')"
    and poll_memory: "quiet outstanding receives v \<Longrightarrow>
        host_load lib a n (snd (ibv_poll_cq lib cq v)) = host_load lib a n v"
    and sleep_queue: "outstanding (sleep_1ms lib v) = outstanding v" "receives (sleep_1ms lib v) = receives v"
    and sleep_memory: "quiet outstanding receives v \<Longrightarrow>
        host_load lib a n (sleep_1ms lib v) = host_load lib a n v"
    and register_queue: "outstanding (snd (ibv_reg_mr lib p a len acc v)) = outstanding v"
        "receives (snd (ibv_reg_mr lib p a len acc v)) = receives v"
    and deregister_queue: "outstanding (snd (ibv_dereg_mr lib m v)) = outstanding v"
        "receives (snd (ibv_dereg_mr lib m v)) = receives v"
    and deregister_memory: "quiet outstanding receives v \<Longrightarrow>
        host_load lib a n (snd (ibv_dereg_mr lib m v)) = host_load lib a n v"
        "remote rk ra n (snd (ibv_dereg_mr lib m v)) = remote rk ra n v"
    and alloc_queue: "outstanding (snd (host_alloc lib sz v)) = outstanding v"
        "receives (snd (host_alloc lib sz v)) = receives v"
    and store_queue: "outstanding (host_store lib a d v) = outstanding v"
        "receives (host_store lib a d v) = receives v"
    and load_length: "length (host_load lib a n v) = n"
    and store_load: "length d < 2 ^ 64 \<Longrightarrow> host_load lib a (length d) (host_store lib a d v) = d"
begin

abbreviation idle :: "'v \<Rightarrow> bool" where
  "idle v \<equiv> outstanding v = [] \<and> receives v = 0"

text \<open>The loop, started with one work request on its way.\<close>

lemma poll_loop_moves:
  assumes run: "poll_loop lib cq deadline (transfer_judge lib b rd) pe te v = Some (None, v')"
    and start: "outstanding v = [wr]" "receives v = 0"
  shows "\<exists>v1. moved lib remote wr v1 v' \<and> idle v' \<and>
    (wr_op wr = IBV_WR_RDMA_WRITE \<longrightarrow>
      (\<forall>a n. host_load lib a n v1 = host_load lib a n v \<and> host_load lib a n v' = host_load lib a n v))"
proof -
  let ?I = "\<lambda>x. outstanding x = [wr] \<and> receives x = 0 \<and>
    (wr_op wr = IBV_WR_RDMA_WRITE \<longrightarrow> (\<forall>a n. host_load lib a n x = host_load lib a n v))"
  have q: "quiet outstanding receives x" if "outstanding x = [wr]" "receives x = 0"
    "wr_op wr = IBV_WR_RDMA_WRITE" for x using that by (simp add: quiet_def)
  have mem: "host_load lib a n y = host_load lib a n x" if "quiet outstanding receives x"
    "ibv_poll_cq lib cq x = (r, y)" for x y r a n
    using poll_memory [OF that(1), of a n cq] that(2) by simp
  have "\<forall>x y. ?I x \<and> ibv_poll_cq lib cq x = (PollEmpty, y) \<longrightarrow> ?I (sleep_1ms lib y)"
    using poll_empty q mem sleep_queue sleep_memory by metis
  from poll_loop_rule [where I = ?I, OF run this] start obtain v1 wc where v1: "?I v1"
    "ibv_poll_cq lib cq v1 = (Polled wc, v')" "transfer_judge lib b rd wc = None"
    by (metis option.distinct(1))
  then have "wc_status wc = IBV_WC_SUCCESS" by (simp add: transfer_judge_def split: if_splits)
  with v1 poll_done [of cq v1 wc v' wr "[]"] q mem show ?thesis by metis
qed

text \<open>A transfer that returns true, started with nothing on its way, has moved exactly its bytes.\<close>

lemma Transfer_moves:
  assumes run: "VerbsTransfer lib b rd rg ra rk len t v = Some (None, v')" and idle: "idle v"
  shows "idle v' \<and>
    (rd \<longrightarrow> host_load lib (vm_address rg) (unat (ucast len :: u32)) v' = remote rk ra (unat (ucast len :: u32)) v') \<and>
    (\<not> rd \<longrightarrow> remote rk ra (unat (ucast len :: u32)) v' = host_load lib (vm_address rg) (unat (ucast len :: u32)) v \<and>
       (\<forall>a n. host_load lib a n v' = host_load lib a n v))"
proof -
  let ?wr = "transfer_wr rd rg ra rk len"
  obtain v1 where v1: "ibv_post_send lib (the (vb_qp b)) ?wr v = (None, v1)"
    "poll_loop lib (the (vb_cq b)) (wait_deadline lib t v1) (transfer_judge lib b rd)
       ''ibv_poll_cq failed while waiting for RDMA transfer''
       ''timed out waiting for verbs RDMA transfer completion'' v1 = Some (None, v')"
    using run by (auto simp: VerbsTransfer_def split: if_splits prod.splits option.splits)
  have o: "outstanding v1 = [?wr]" "receives v1 = 0" using post_ok [OF v1(1)] idle by simp_all
  have m: "\<forall>a n. host_load lib a n v1 = host_load lib a n v" if "\<not> rd"
    using post_memory [OF v1(1)] o that by (auto simp: quiet_def transfer_wr_def)
  from poll_loop_moves [OF v1(2) o] obtain v2 where "moved lib remote ?wr v2 v'" "idle v'"
    "wr_op ?wr = IBV_WR_RDMA_WRITE \<longrightarrow>
      (\<forall>a n. host_load lib a n v2 = host_load lib a n v1 \<and> host_load lib a n v' = host_load lib a n v1)"
    by blast
  with m show ?thesis by (cases rd) (auto simp: moved_def transfer_wr_def wr_len_def Let_def)
qed

end

section \<open>A reference adapter\<close>

text \<open>
  Its objects, the outcomes of coming object creations (\<open>True\<close> fails; an exhausted script succeeds),
  the device names, the memories of the process and of the NPU by address, the first free host
  address, the work requests on their way with the number of empty polls before each completes,
  the messages the NPU has sent, the posted receive buffers and the clock.
\<close>

record rnic =
  rn_objs :: "vobj list"
  rn_fails :: "bool list"
  rn_devices :: "string list"
  rn_host :: "u64 \<Rightarrow> u8"
  rn_npu :: "u64 \<Rightarrow> u8"
  rn_brk :: u64
  rn_sends :: "send_wr list"
  rn_delays :: "nat list"
  rn_inbox :: "bytes list"
  rn_recvs :: "ibv_sge list"
  rn_clock :: nat

definition mem_load :: "(u64 \<Rightarrow> u8) \<Rightarrow> u64 \<Rightarrow> nat \<Rightarrow> bytes" where
  "mem_load m a n = map (\<lambda>i. m (a + of_nat i)) [0..<n]"

definition mem_store :: "u64 \<Rightarrow> bytes \<Rightarrow> (u64 \<Rightarrow> u8) \<Rightarrow> (u64 \<Rightarrow> u8)" where
  "mem_store a d m = (\<lambda>x. let i = unat (x - a) in if i < length d then d ! i else m x)"

lemma mem_store_load: "length d < 2 ^ 64 \<Longrightarrow> mem_load (mem_store a d m) a (length d) = d"
  by (rule nth_equalityI) (simp_all add: mem_load_def mem_store_def unat_of_nat)

lemma length_mem_load [simp]: "length (mem_load m a n) = n"
  by (simp add: mem_load_def)

lemma mem_copy_load:
  "n < 2 ^ 64 \<Longrightarrow> mem_load (mem_store a (mem_load m b n) m') a n = mem_load m b n"
  using mem_store_load [of "mem_load m b n" a m'] by simp

lemma wr_len_less: "wr_len wr < 2 ^ 64"
  using unsigned_less [of "sge_length (wr_sge wr)", where 'a = nat] by (simp add: wr_len_def)

text \<open>A name above all those in sight.\<close>

definition new_name :: "nat list \<Rightarrow> vobj list \<Rightarrow> nat" where
  "new_name us obs = Suc (sum_list (us @ concat (map (\<lambda>ob. vo_name ob # vo_uses ob) obs)))"

lemma new_name_fresh: "fresh_name (new_name us obs) (set obs)" "new_name us obs \<notin> set us"
proof -
  have "x < new_name us obs" if "x \<in> set (us @ concat (map (\<lambda>ob. vo_name ob # vo_uses ob) obs))" for x
    unfolding new_name_def less_Suc_eq_le using that by (rule member_le_sum_list) simp
  then show "fresh_name (new_name us obs) (set obs)" "new_name us obs \<notin> set us"
    by (fastforce simp: fresh_name_def)+
qed

definition rn_create :: "nat list \<Rightarrow> rnic \<Rightarrow> nat option \<times> rnic" where
  "rn_create us v =
    (case rn_fails v of
       True # fs \<Rightarrow> (None, v\<lparr>rn_fails := fs\<rparr>)
     | fs \<Rightarrow> (let h = new_name us (rn_objs v)
             in (Some h, v\<lparr>rn_fails := drop 1 fs, rn_objs := VObj h us # rn_objs v\<rparr>)))"

definition rn_destroy :: "nat \<Rightarrow> rnic \<Rightarrow> rnic" where
  "rn_destroy h v =
    (if \<exists>ob\<in>set (rn_objs v). h \<in> set (vo_uses ob) then v
     else v\<lparr>rn_objs := filter (\<lambda>ob. vo_name ob \<noteq> h) (rn_objs v)\<rparr>)"

text \<open>The effect of the oldest work request.\<close>

definition rn_move :: "send_wr \<Rightarrow> rnic \<Rightarrow> rnic" where
  "rn_move wr v =
    (case wr_op wr of
       IBV_WR_RDMA_WRITE \<Rightarrow>
         v\<lparr>rn_npu := mem_store (wr_remote_addr wr) (mem_load (rn_host v) (sge_addr (wr_sge wr)) (wr_len wr)) (rn_npu v)\<rparr>
     | IBV_WR_RDMA_READ \<Rightarrow>
         v\<lparr>rn_host := mem_store (sge_addr (wr_sge wr)) (mem_load (rn_npu v) (wr_remote_addr wr) (wr_len wr)) (rn_host v)\<rparr>)"

definition rn_wc :: "nat \<Rightarrow> ibv_wc" where
  "rn_wc opc = \<lparr>wc_status = 0, wc_opcode = opc, wc_vendor_err = 0, wc_qp_num = 1, wc_byte_len = 0\<rparr>"

definition rn_poll :: "rnic \<Rightarrow> poll_result \<times> rnic" where
  "rn_poll v =
    (case rn_sends v of
       wr # wrs \<Rightarrow>
         (case rn_delays v of
            Suc n # ns \<Rightarrow> (PollEmpty, v\<lparr>rn_delays := n # ns\<rparr>)
          | ns \<Rightarrow> (Polled (rn_wc (if wr_op wr = IBV_WR_RDMA_READ then 2 else 1)),
                  rn_move wr (v\<lparr>rn_sends := wrs, rn_delays := drop 1 ns\<rparr>)))
     | [] \<Rightarrow>
         (case (rn_recvs v, rn_inbox v) of
            (sge # rs, m # ms) \<Rightarrow>
              (Polled (rn_wc IBV_WC_RECV),
               v\<lparr>rn_recvs := rs, rn_inbox := ms,
                 rn_host := mem_store (sge_addr sge) (take (unat (sge_length sge)) m) (rn_host v)\<rparr>)
          | _ \<Rightarrow> (PollEmpty, v)))"

definition rn_alloc :: "nat \<Rightarrow> rnic \<Rightarrow> u64 \<times> rnic" where
  "rn_alloc n v = (rn_brk v, v\<lparr>rn_brk := rn_brk v + of_nat n,
     rn_host := mem_store (rn_brk v) (replicate n 0) (rn_host v)\<rparr>)"

definition rn_lib :: "rnic ibverbs" where
  "rn_lib = \<lparr>
     ibv_get_device_list = (\<lambda>v. apfst (map_option (\<lambda>h. (h, rn_devices v))) (rn_create [] v)),
     ibv_free_device_list = rn_destroy,
     ibv_open_device = (\<lambda>l i. rn_create []),
     ibv_close_device = rn_destroy,
     ibv_alloc_pd = (\<lambda>c. rn_create [c]),
     ibv_dealloc_pd = rn_destroy,
     ibv_create_cq = (\<lambda>c n. rn_create [c]),
     ibv_destroy_cq = rn_destroy,
     ibv_create_qp = (\<lambda>p ini v. apfst (map_option (\<lambda>h. (h, 1)))
        (rn_create [p, qi_send_cq ini, qi_recv_cq ini] v)),
     ibv_destroy_qp = rn_destroy,
     ibv_modify_qp = (\<lambda>k attr v. (True, v)),
     ibv_query_gid = (\<lambda>c port idx v. (Some (replicate 16 0), v)),
     ibv_query_port = (\<lambda>c port v. (Some 3, v)),
     ibv_reg_mr = (\<lambda>p a len acc v. apfst (map_option (\<lambda>h. (h, 5, 6))) (rn_create [p] v)),
     ibv_dereg_mr = (\<lambda>m v. (True, rn_destroy m v)),
     ibv_post_recv = (\<lambda>k sge v. (True, v\<lparr>rn_recvs := rn_recvs v @ [sge]\<rparr>)),
     ibv_post_send = (\<lambda>k wr v. (None, v\<lparr>rn_sends := rn_sends v @ [wr]\<rparr>)),
     ibv_poll_cq = (\<lambda>cq. rn_poll),
     ibv_wc_status_str = (\<lambda>s. ''success''),
     steady_now = rn_clock,
     sleep_1ms = (\<lambda>v. v\<lparr>rn_clock := rn_clock v + ms_ticks\<rparr>),
     host_alloc = rn_alloc,
     host_load = (\<lambda>a n v. mem_load (rn_host v) a n),
     host_store = (\<lambda>a d v. v\<lparr>rn_host := mem_store a d (rn_host v)\<rparr>)\<rparr>"

lemma rn_lib_sel [simp]:
  "ibv_get_device_list rn_lib v = apfst (map_option (\<lambda>h. (h, rn_devices v))) (rn_create [] v)"
  "ibv_free_device_list rn_lib = rn_destroy" "ibv_open_device rn_lib l i = rn_create []"
  "ibv_close_device rn_lib = rn_destroy" "ibv_alloc_pd rn_lib c = rn_create [c]"
  "ibv_dealloc_pd rn_lib = rn_destroy" "ibv_create_cq rn_lib c z = rn_create [c]"
  "ibv_destroy_cq rn_lib = rn_destroy"
  "ibv_create_qp rn_lib p ini v = apfst (map_option (\<lambda>h. (h, 1)))
     (rn_create [p, qi_send_cq ini, qi_recv_cq ini] v)"
  "ibv_destroy_qp rn_lib = rn_destroy" "ibv_modify_qp rn_lib k attr v = (True, v)"
  "ibv_query_gid rn_lib c port idx v = (Some (replicate 16 0), v)"
  "ibv_query_port rn_lib c port v = (Some 3, v)"
  "ibv_reg_mr rn_lib p a len acc v = apfst (map_option (\<lambda>h. (h, 5, 6))) (rn_create [p] v)"
  "ibv_dereg_mr rn_lib m v = (True, rn_destroy m v)"
  "ibv_post_recv rn_lib k sge v = (True, v\<lparr>rn_recvs := rn_recvs v @ [sge]\<rparr>)"
  "ibv_post_send rn_lib k wr v = (None, v\<lparr>rn_sends := rn_sends v @ [wr]\<rparr>)"
  "ibv_poll_cq rn_lib cq = rn_poll" "steady_now rn_lib = rn_clock"
  "sleep_1ms rn_lib v = v\<lparr>rn_clock := rn_clock v + ms_ticks\<rparr>" "host_alloc rn_lib = rn_alloc"
  "host_load rn_lib a n v = mem_load (rn_host v) a n"
  "host_store rn_lib a d v = v\<lparr>rn_host := mem_store a d (rn_host v)\<rparr>"
  by (simp_all add: rn_lib_def)

lemma rn_move_frame [simp]:
  "rn_objs (rn_move wr v) = rn_objs v" "rn_clock (rn_move wr v) = rn_clock v"
  "rn_sends (rn_move wr v) = rn_sends v" "rn_recvs (rn_move wr v) = rn_recvs v"
  "wr_op wr = IBV_WR_RDMA_WRITE \<Longrightarrow> rn_host (rn_move wr v) = rn_host v"
  by (simp_all add: rn_move_def split: wr_opcode.splits)

lemma rn_poll_frame [simp]: "rn_objs (snd (rn_poll v)) = rn_objs v" "rn_clock (snd (rn_poll v)) = rn_clock v"
  by (auto simp: rn_poll_def split: list.splits nat.splits)

lemma rn_create_creates: "creates (\<lambda>v. set (rn_objs v)) us (rn_create us)"
  using new_name_fresh
  by (auto simp: creates_def rn_create_def Let_def split: list.splits bool.splits)

lemma rn_destroy_destroys: "destroys (\<lambda>v. set (rn_objs v)) h (rn_destroy h)"
  by (auto simp: destroys_def rn_destroy_def in_use_def)

lemma apfst_fst_pair [simp]: "apfst (map_option fst) (apfst (map_option (\<lambda>h. (h, x))) r) = r"
  by (cases r) (simp add: option.map_comp o_def option.map_ident)

lemma rn_poll_moves:
  assumes "rn_poll v = (Polled wc, v')" "rn_sends v = wr # rest"
  shows "rn_sends v' = rest \<and> rn_recvs v' = rn_recvs v \<and>
    moved rn_lib (\<lambda>rk ra n v. mem_load (rn_npu v) ra n) wr v v'"
proof -
  obtain ns where v': "v' = rn_move wr (v\<lparr>rn_sends := rest, rn_delays := ns\<rparr>)"
    using assms by (auto simp: rn_poll_def split: list.splits nat.splits)
  have "moved rn_lib (\<lambda>rk ra n v. mem_load (rn_npu v) ra n) wr v v'"
    using wr_len_less [of wr] by (simp add: v' moved_def rn_move_def mem_copy_load split: wr_opcode.splits)
  then show ?thesis by (simp add: v')
qed

interpretation rn_time: steady_clock rn_lib
  by unfold_locales (simp_all add: ms_ticks_def)

interpretation rn_objects: verbs_library rn_lib "\<lambda>v. set (rn_objs v)"
  by unfold_locales
    (simp_all add: rn_create_creates rn_destroy_destroys keeps_def rn_alloc_def)

interpretation rn_data: rdma_transport rn_lib rn_sends "\<lambda>v. length (rn_recvs v)"
  "\<lambda>rk ra n v. mem_load (rn_npu v) ra n"
proof
  fix v v' :: rnic and wr wc rest cq a n
  let ?n = "\<lambda>v :: rnic. length (rn_recvs v)"
  show "ibv_poll_cq rn_lib cq v = (PollEmpty, v') \<Longrightarrow> rn_sends v' = rn_sends v \<and> ?n v' = ?n v"
    by (auto simp: rn_poll_def split: list.splits nat.splits)
  show "ibv_poll_cq rn_lib cq v = (Polled wc, v') \<Longrightarrow> ?n v = 0 \<Longrightarrow> rn_sends v = wr # rest \<Longrightarrow>
      rn_sends v' = rest \<and> ?n v' = 0 \<and> (wc_status wc = IBV_WC_SUCCESS \<longrightarrow>
        moved rn_lib (\<lambda>rk ra n v. mem_load (rn_npu v) ra n) wr v v')"
    using rn_poll_moves [of v wc v' wr rest] by simp
  show "quiet rn_sends ?n v \<Longrightarrow>
      host_load rn_lib a n (snd (ibv_poll_cq rn_lib cq v)) = host_load rn_lib a n v"
    by (auto simp: quiet_def rn_poll_def split: list.splits nat.splits)
qed (auto simp: rn_create_def rn_destroy_def rn_alloc_def Let_def mem_store_load split: list.splits bool.splits)

end
