(* ===== verification/Roce_Server.thy ===== *)
theory Roce_Server
  imports Roce_Control Storage_Backend Roce_Transport
begin

text \<open>
  The RoCE storage server (\<open>apps/flume-roce-storage-server.cc\<close>): one client's session, from the
  session request on the TCP control connection to the destructors that run when the function
  returns.

  The server's state \<open>server\<close> is the control connection, the namespace, the verbs backend and the
  machine (the parameter of \<open>Roce_Verbs\<close>).  \<open>serve_command\<close> is the body of the loop between a decoded
  command and its completion, \<open>serve_iteration\<close> the whole body, \<open>serve_loop\<close> the loop (partial: a
  client on the NPU-RA control path may send commands forever), \<open>ServeOneClient\<close> the function.
  The texts printed to the standard streams are left out; the argument \<open>eno\<close> is that of \<open>Roce_Control\<close>.
  The test \<open>command.length > SIZE_MAX\<close> never holds with 64-bit sizes.  The accepted socket has no receive
  timeout; see \<open>Posix_Socket\<close> for the clients that its scripts represent.
\<close>

section \<open>The server\<close>

definition kDefaultQueueDepth :: u32 where "kDefaultQueueDepth = 32"
definition kDefaultMaxTransferBytes :: u64 where "kDefaultMaxTransferBytes = 64 * 1024 * 1024"

definition RoceChecksum :: "bytes \<Rightarrow> u32" where
  "RoceChecksum data = fnv32 data"

text \<open>The namespace behind the pointer \<open>storage\<close> and its virtual methods.\<close>

datatype storage = MemNs MemoryStorageBackend | PosixNs PosixStorageBackend

fun storage_size :: "storage \<Rightarrow> u64" where
  "storage_size (MemNs m) = memory_size m"
| "storage_size (PosixNs p) = ps_size p"

fun storage_read :: "storage \<Rightarrow> u64 \<Rightarrow> nat \<Rightarrow> string + bytes" where
  "storage_read (MemNs m) off len = memory_read m off len"
| "storage_read (PosixNs p) off len = posix_read p off len"

fun storage_write :: "storage \<Rightarrow> u64 \<Rightarrow> bytes \<Rightarrow> string option \<times> storage" where
  "storage_write (MemNs m) off src = map_prod id MemNs (memory_write m off src)"
| "storage_write (PosixNs p) off src = map_prod id PosixNs (posix_write p off src)"

definition ToWireEndpoint :: "VerbsEndpoint \<Rightarrow> Endpoint" where
  "ToWireEndpoint e = \<lparr>ep_gid = ve_gid e, ep_qpn = ve_qpn e, ep_psn = ve_psn e, ep_port = ve_port e,
     ep_gid_index = ve_gid_index e, ep_mtu = ve_mtu e\<rparr>"

definition ToVerbsEndpoint :: "Endpoint \<Rightarrow> VerbsEndpoint" where
  "ToVerbsEndpoint e = \<lparr>ve_gid = ep_gid e, ve_qpn = ep_qpn e, ve_psn = ep_psn e, ve_port = ep_port e,
     ve_gid_index = ep_gid_index e, ve_mtu = ep_mtu e\<rparr>"

record server_config =
  sc_verbs_device :: string
  sc_verbs_port :: u8
  sc_gid_index :: u8
  sc_timeout_ms :: u32
  sc_allow_writes :: bool

record 'v server =
  sv_fd :: conn
  sv_storage :: storage
  sv_verbs :: VerbsBackend
  sv_machine :: 'v

text \<open>What the session has fixed before its loop.\<close>

record session =
  ss_tcp :: bool
  ss_completion :: MemoryWindow
  ss_max_transfer :: u64
  ss_command_wire :: u64
  ss_completion_wire :: u64
  ss_command_mr :: VerbsMemoryRegion
  ss_completion_mr :: VerbsMemoryRegion

subsection \<open>One command\<close>

definition completion_for :: "Command \<Rightarrow> u32 \<Rightarrow> Completion" where
  "completion_for cmd status = \<lparr>cpl_request_id = cmd_request_id cmd, cpl_status = status, cpl_bytes = 0,
     cpl_checksum = 0, cpl_flags = 0\<rparr>"

text \<open>Moving the payload through the registered staging buffer: whether it worked, the namespace, the
  machine.\<close>

definition move_payload ::
  "'v ibverbs \<Rightarrow> u32 \<Rightarrow> VerbsBackend \<Rightarrow> Command \<Rightarrow> u64 \<Rightarrow> VerbsMemoryRegion \<Rightarrow> storage \<Rightarrow> 'v \<Rightarrow>
   (bool \<times> storage \<times> 'v) option" where
  "move_payload lib timeout_ms b cmd staging mr st v =
    (if cmd_operation cmd = kRead then
       (case storage_read st (cmd_storage_offset cmd) (unat (cmd_length cmd)) of
          Inl e \<Rightarrow> Some (False, st, v)
        | Inr d \<Rightarrow>
           do {
             (e, v) \<leftarrow> VerbsWrite lib b mr (cmd_npu_address cmd) (cmd_npu_rkey cmd) (cmd_length cmd) timeout_ms
               (host_store lib staging d v);
             Some (e = None, st, v)
           })
     else if cmd_operation cmd = kWrite then
       do {
         (e, v) \<leftarrow> VerbsRead lib b mr (cmd_npu_address cmd) (cmd_npu_rkey cmd) (cmd_length cmd) timeout_ms v;
         if e \<noteq> None then Some (False, st, v)
         else case storage_write st (cmd_storage_offset cmd)
                     (host_load lib staging (unat (cmd_length cmd)) v) of
           (e, st) \<Rightarrow> Some (e = None, st, v)
       }
     else Some (True, st, v))"

definition serve_transfer ::
  "'v ibverbs \<Rightarrow> u32 \<Rightarrow> Command \<Rightarrow> 'v server \<Rightarrow> (Completion \<times> 'v server) option" where
  "serve_transfer lib timeout_ms cmd s =
    (case host_alloc lib (unat (cmd_length cmd)) (sv_machine s) of (staging, v) \<Rightarrow>
     case VerbsRegister lib (sv_verbs s) staging (cmd_length cmd) False False v of
       (Inl e, v) \<Rightarrow> Some (completion_for cmd kCompletionStatusBackendError, s\<lparr>sv_machine := v\<rparr>)
     | (Inr mr, v) \<Rightarrow>
        do {
          (ok, st, v) \<leftarrow> move_payload lib timeout_ms (sv_verbs s) cmd staging mr (sv_storage s) v;
          let v = snd (snd (VerbsDeregister lib mr v));
          Some (if ok then completion_for cmd kCompletionStatusSuccess
                    \<lparr>cpl_bytes := cmd_length cmd,
                     cpl_checksum := RoceChecksum (host_load lib staging (unat (cmd_length cmd)) v)\<rparr>
                else completion_for cmd kCompletionStatusBackendError,
                s\<lparr>sv_storage := st, sv_machine := v\<rparr>)
        })"

definition request_in_range :: "u64 \<Rightarrow> storage \<Rightarrow> Command \<Rightarrow> bool" where
  "request_in_range max_transfer st cmd \<longleftrightarrow>
     cmd_object_id cmd = 0 \<and> cmd_length cmd \<le> max_transfer \<and>
     cmd_storage_offset cmd \<le> storage_size st \<and>
     cmd_length cmd \<le> storage_size st - cmd_storage_offset cmd"

definition serve_command ::
  "'v ibverbs \<Rightarrow> server_config \<Rightarrow> u64 \<Rightarrow> Command \<Rightarrow> 'v server \<Rightarrow> (Completion \<times> 'v server) option" where
  "serve_command lib cfg max_transfer cmd s =
    (if \<not> request_in_range max_transfer (sv_storage s) cmd then
       Some (completion_for cmd kCompletionStatusInvalidRequest, s)
     else if cmd_operation cmd = kWrite \<and> \<not> sc_allow_writes cfg then
       Some (completion_for cmd kCompletionStatusUnsupported, s)
     else serve_transfer lib (sc_timeout_ms cfg) cmd s)"

subsection \<open>The loop\<close>

text \<open>The next command: \<open>Inl\<close> is the value the function returns.\<close>

definition next_command ::
  "'v ibverbs \<Rightarrow> server_config \<Rightarrow> session \<Rightarrow> 'v server \<Rightarrow> ((int + Command) \<times> 'v server) option" where
  "next_command lib cfg ss s =
    (if ss_tcp ss then
       (case ReceiveCommand (c_rx (sv_fd s)) of (r, es) \<Rightarrow>
          let s = s\<lparr>sv_fd := (sv_fd s)\<lparr>c_rx := es\<rparr>\<rparr> in
          Some (case r of Inl e \<Rightarrow> Inl (if e = kPeerClosed then 0 else 1) | Inr cmd \<Rightarrow> Inr cmd, s))
     else
       do {
         (e, v) \<leftarrow> WaitForReceive lib (sv_verbs s) (sc_timeout_ms cfg) (sv_machine s);
         let s = s\<lparr>sv_machine := v\<rparr>;
         if e \<noteq> None then Some (Inl 1, s)
         else case DecodeCommand (host_load lib (ss_command_wire ss) kCommandWireBytes v) of
           None \<Rightarrow> Some (Inl 1, s)
         | Some cmd \<Rightarrow> Some (Inr cmd, s)
       })"

text \<open>Publishing the completion: \<open>Some\<close> is the value the function returns.\<close>

definition publish ::
  "string \<Rightarrow> 'v ibverbs \<Rightarrow> server_config \<Rightarrow> session \<Rightarrow> Completion \<Rightarrow> 'v server \<Rightarrow>
   (int option \<times> 'v server) option" where
  "publish eno lib cfg ss cpl s =
    (if ss_tcp ss then
       (case SendCompletion eno (sv_fd s) cpl of (e, c) \<Rightarrow>
          Some (if e = None then None else Some 1, s\<lparr>sv_fd := c\<rparr>))
     else case EncodeCompletion cpl of
       None \<Rightarrow> Some (Some 1, s)
     | Some w \<Rightarrow>
        do {
          (e, v) \<leftarrow> VerbsWrite lib (sv_verbs s) (ss_completion_mr ss) (mw_address (ss_completion ss))
            (mw_rkey (ss_completion ss)) (of_nat (length w)) (sc_timeout_ms cfg)
            (host_store lib (ss_completion_wire ss) w (sv_machine s));
          if e \<noteq> None then Some (Some 1, s\<lparr>sv_machine := v\<rparr>)
          else case PostReceive lib (sv_verbs s) (ss_command_mr ss) v of
            (e, v) \<Rightarrow> Some (if e = None then None else Some 1, s\<lparr>sv_machine := v\<rparr>)
        })"

definition serve_iteration ::
  "string \<Rightarrow> 'v ibverbs \<Rightarrow> server_config \<Rightarrow> session \<Rightarrow> 'v server \<Rightarrow> (int option \<times> 'v server) option" where
  "serve_iteration eno lib cfg ss s =
    do {
      (r, s) \<leftarrow> next_command lib cfg ss s;
      case r of
        Inl rc \<Rightarrow> Some (Some rc, s)
      | Inr cmd \<Rightarrow>
         do {
           (cpl, s) \<leftarrow> serve_command lib cfg (ss_max_transfer ss) cmd s;
           publish eno lib cfg ss cpl s
         }
    }"

partial_function (option) serve_loop ::
  "string \<Rightarrow> 'v ibverbs \<Rightarrow> server_config \<Rightarrow> session \<Rightarrow> 'v server \<Rightarrow> (int \<times> 'v server) option" where
  "serve_loop eno lib cfg ss s =
    do {
      (r, s) \<leftarrow> serve_iteration eno lib cfg ss s;
      (case r of Some rc \<Rightarrow> Some (rc, s) | None \<Rightarrow> serve_loop eno lib cfg ss s)
    }"

declare serve_loop.simps [code]

subsection \<open>The session\<close>

text \<open>The command and completion buffers of the NPU-RA control path: registration, and the destructor
  of \<open>RegionCleanup\<close> (also the order of the error path).\<close>

definition release_buffers :: "'v ibverbs \<Rightarrow> VerbsMemoryRegion \<Rightarrow> VerbsMemoryRegion \<Rightarrow> 'v \<Rightarrow> 'v" where
  "release_buffers lib command_mr completion_mr v =
    (let v = snd (snd (VerbsDeregister lib completion_mr v))
     in snd (snd (VerbsDeregister lib command_mr v)))"

definition prepare_buffers ::
  "'v ibverbs \<Rightarrow> VerbsBackend \<Rightarrow> u64 \<Rightarrow> u64 \<Rightarrow> 'v \<Rightarrow>
   (string + VerbsMemoryRegion \<times> VerbsMemoryRegion) \<times> 'v" where
  "prepare_buffers lib b command_wire completion_wire v =
    (case VerbsRegister lib b command_wire (of_nat kCommandWireBytes) False False v of
       (Inl e, v) \<Rightarrow> (Inl e, v)
     | (Inr command_mr, v) \<Rightarrow>
        (case VerbsRegister lib b completion_wire (of_nat kCompletionWireBytes) False False v of
           (Inl e, v) \<Rightarrow> (Inl e, snd (snd (VerbsDeregister lib command_mr v)))
         | (Inr completion_mr, v) \<Rightarrow>
            (case PostReceive lib b command_mr v of
               (Some e, v) \<Rightarrow> (Inl e, release_buffers lib command_mr completion_mr v)
             | (None, v) \<Rightarrow> (Inr (command_mr, completion_mr), v))))"

definition server_capabilities :: "storage \<Rightarrow> bool \<Rightarrow> u32" where
  "server_capabilities st allow_writes =
    (case st of MemNs m \<Rightarrow> kServerCapabilityMemoryNamespace | PosixNs p \<Rightarrow> kServerCapabilityPosixNamespace)
     OR (if allow_writes then kServerCapabilityStorageWrite else 0)"

definition session_response :: "VerbsBackend \<Rightarrow> storage \<Rightarrow> bool \<Rightarrow> SessionResponse" where
  "session_response b st allow_writes =
    \<lparr>sp_endpoint = ToWireEndpoint (vb_endpoint b), sp_namespace_capacity = storage_size st,
     sp_max_transfer_bytes = min (storage_size st) kDefaultMaxTransferBytes,
     sp_server_capabilities = server_capabilities st allow_writes, sp_status = 0\<rparr>"

text \<open>From the prepared buffers to the end of the loop.\<close>

definition run_session ::
  "string \<Rightarrow> 'v ibverbs \<Rightarrow> server_config \<Rightarrow> session \<Rightarrow> 'v server \<Rightarrow> (int \<times> 'v server) option" where
  "run_session eno lib cfg ss s =
    (case EncodeSessionResponse (session_response (sv_verbs s) (sv_storage s) (sc_allow_writes cfg)) of
       None \<Rightarrow> Some (1, s)
     | Some w \<Rightarrow>
        (case ControlWriteAll eno (sv_fd s) w of
           (Some e, c) \<Rightarrow> Some (1, s\<lparr>sv_fd := c\<rparr>)
         | (None, c) \<Rightarrow> serve_loop eno lib cfg ss (s\<lparr>sv_fd := c\<rparr>)))"

text \<open>From the connected queue pair to the destruction of the buffers.\<close>

definition connected_session ::
  "string \<Rightarrow> 'v ibverbs \<Rightarrow> server_config \<Rightarrow> SessionRequest \<Rightarrow> 'v server \<Rightarrow> (int \<times> 'v server) option" where
  "connected_session eno lib cfg rq s =
    (case host_alloc lib kCommandWireBytes (sv_machine s) of (command_wire, v) \<Rightarrow>
     case host_alloc lib kCompletionWireBytes v of (completion_wire, v) \<Rightarrow>
     let ss = \<lparr>ss_tcp = (sr_flags rq AND kSessionFlagTcpControl \<noteq> 0), ss_completion = sr_completion rq,
               ss_max_transfer = min (storage_size (sv_storage s)) kDefaultMaxTransferBytes,
               ss_command_wire = command_wire, ss_completion_wire = completion_wire,
               ss_command_mr = no_region, ss_completion_mr = no_region\<rparr> in
     if ss_tcp ss then run_session eno lib cfg ss (s\<lparr>sv_machine := v\<rparr>)
     else case prepare_buffers lib (sv_verbs s) command_wire completion_wire v of
       (Inl e, v) \<Rightarrow> Some (1, s\<lparr>sv_machine := v\<rparr>)
     | (Inr (command_mr, completion_mr), v) \<Rightarrow>
        do {
          (rc, s) \<leftarrow> run_session eno lib cfg
            (ss\<lparr>ss_command_mr := command_mr, ss_completion_mr := completion_mr\<rparr>) (s\<lparr>sv_machine := v\<rparr>);
          Some (rc, s\<lparr>sv_machine := release_buffers lib command_mr completion_mr (sv_machine s)\<rparr>)
        })"

text \<open>The destructor of \<open>verbs\<close>.\<close>

definition close_verbs :: "'v ibverbs \<Rightarrow> 'v server \<Rightarrow> 'v server" where
  "close_verbs lib s = (case VerbsClose lib (sv_verbs s) (sv_machine s) of (b, v) \<Rightarrow>
     s\<lparr>sv_verbs := b, sv_machine := v\<rparr>)"

definition serve_request_on ::
  "string \<Rightarrow> 'v ibverbs \<Rightarrow> server_config \<Rightarrow> SessionRequest \<Rightarrow> 'v server \<Rightarrow> (int \<times> 'v server) option" where
  "serve_request_on eno lib cfg rq s =
    (case VerbsOpen lib (sc_verbs_device cfg) (sc_verbs_port cfg) (sc_gid_index cfg) kDefaultQueueDepth
            new_verbs (sv_machine s) of
       (Some e, b, v) \<Rightarrow> Some (1, close_verbs lib (s\<lparr>sv_verbs := b, sv_machine := v\<rparr>))
     | (None, b, v) \<Rightarrow>
        (case VerbsConnect lib (ToVerbsEndpoint (sr_endpoint rq)) b v of
           (Some e, b, v) \<Rightarrow> Some (1, close_verbs lib (s\<lparr>sv_verbs := b, sv_machine := v\<rparr>))
         | (None, b, v) \<Rightarrow>
            do {
              (rc, s) \<leftarrow> connected_session eno lib cfg rq (s\<lparr>sv_verbs := b, sv_machine := v\<rparr>);
              Some (rc, close_verbs lib s)
            }))"

definition ServeOneClient ::
  "string \<Rightarrow> 'v ibverbs \<Rightarrow> server_config \<Rightarrow> 'v server \<Rightarrow> (int \<times> 'v server) option" where
  "ServeOneClient eno lib cfg s =
    (case ControlReadAll (c_rx (sv_fd s)) kSessionRequestWireBytes of (r, es) \<Rightarrow>
     let s = s\<lparr>sv_fd := (sv_fd s)\<lparr>c_rx := es\<rparr>\<rparr> in
     case r of
       Inl e \<Rightarrow> Some (1, s)
     | Inr w \<Rightarrow>
        (case DecodeSessionRequest w of
           None \<Rightarrow> Some (1, s)
         | Some rq \<Rightarrow>
            if SessionTransferMode rq \<noteq> TransferPush then Some (1, s)
            else serve_request_on eno lib cfg rq s))"

section \<open>Rules for the loop\<close>

lemma serve_loop_rule:
  assumes run: "serve_loop eno lib cfg ss s = Some (rc, s')"
    and step: "\<forall>s r s1. I s \<and> serve_iteration eno lib cfg ss s = Some (r, s1) \<longrightarrow> I s1"
    and start: "I s"
  shows "I s'"
proof -
  let ?Q = "\<lambda>e l c x (s :: 'a server) y. e = eno \<and> l = lib \<and> c = cfg \<and> x = ss \<longrightarrow> I s \<longrightarrow> I (snd y)"
  have "?Q eno lib cfg ss s (rc, s')"
  proof (rule serve_loop.raw_induct [where P = ?Q, OF _ run])
    fix loop e l c x s and y :: "int \<times> 'a server"
    assume IH: "\<And>e l c x s y. loop e l c x s = Some y \<Longrightarrow> ?Q e l c x s y"
      and body: "Option.bind (serve_iteration e l c x s)
        (\<lambda>(r, s). case r of None \<Rightarrow> loop e l c x s | Some rc \<Rightarrow> Some (rc, s)) = Some y"
    from body obtain r s1 where it: "serve_iteration e l c x s = Some (r, s1)"
      "(case r of None \<Rightarrow> loop e l c x s1 | Some rc \<Rightarrow> Some (rc, s1)) = Some y"
      by (auto simp: bind_Some_iff)
    show "?Q e l c x s y"
      using it step IH [of e l c x s1 y] by (cases r) auto
  qed
  then show ?thesis using start by simp
qed

lemma serve_command_frame:
  assumes "serve_command lib cfg mx cmd s = Some (cpl, s')"
  shows "sv_verbs s' = sv_verbs s \<and> sv_fd s' = sv_fd s \<and> cpl_request_id cpl = cmd_request_id cmd \<and>
    unat (cpl_status cpl) < 2 ^ 16"
proof -
  note defs = completion_for_def kCompletionStatusInvalidRequest_def kCompletionStatusUnsupported_def
    kCompletionStatusBackendError_def kCompletionStatusSuccess_def
  show ?thesis
    using assms
    by (auto simp: serve_command_def serve_transfer_def bind_Some_iff defs Let_def
        split: if_splits prod.splits sum.splits)
qed

lemma next_command_frame:
  assumes "next_command lib cfg ss s = Some (r, s')"
  shows "sv_verbs s' = sv_verbs s \<and> sv_storage s' = sv_storage s"
  using assms by (auto simp: next_command_def Let_def bind_Some_iff split: if_splits prod.splits option.splits)

lemma publish_frame:
  assumes "publish eno lib cfg ss cpl s = Some (r, s')"
  shows "sv_verbs s' = sv_verbs s \<and> sv_storage s' = sv_storage s"
  using assms by (auto simp: publish_def bind_Some_iff split: if_splits prod.splits option.splits)

text \<open>One iteration: the call returns, or a command is served and its completion published.\<close>

lemma serve_iteration_cases:
  assumes "serve_iteration eno lib cfg ss s = Some (r, s')"
  obtains (ret) rc where "next_command lib cfg ss s = Some (Inl rc, s')" "r = Some rc"
  | (served) cmd s1 cpl s2 where "next_command lib cfg ss s = Some (Inr cmd, s1)"
      "serve_command lib cfg (ss_max_transfer ss) cmd s1 = Some (cpl, s2)"
      "publish eno lib cfg ss cpl s2 = Some (r, s')"
proof -
  from assms obtain q s1 where q: "next_command lib cfg ss s = Some (q, s1)"
    "(case q of Inl rc \<Rightarrow> Some (Some rc, s1) | Inr cmd \<Rightarrow>
       Option.bind (serve_command lib cfg (ss_max_transfer ss) cmd s1)
         (\<lambda>(cpl, s). publish eno lib cfg ss cpl s)) = Some (r, s')"
    by (auto simp: serve_iteration_def bind_Some_iff)
  then show thesis using that by (cases q) (auto simp: bind_Some_iff)
qed

section \<open>The server gives back what it takes\<close>

context verbs_library
begin

lemma move_payload_live:
  assumes "move_payload lib t b cmd a mr st v = Some (ok, st', v')"
  shows "live v' = live v"
proof -
  have "v' = v \<or> (\<exists>rd ra rk len e w. VerbsTransfer lib b rd mr ra rk len t w = Some (e, v') \<and> live w = live v)"
  proof (cases "cmd_operation cmd = kRead")
    case True
    then show ?thesis
      using assms neutral_calls(9)
      by (force simp: move_payload_def bind_Some_iff VerbsWrite_def split: sum.splits)
  next
    case False
    then show ?thesis
      using assms by (force simp: move_payload_def bind_Some_iff VerbsRead_def split: if_splits prod.splits)
  qed
  then show ?thesis using VerbsTransfer_live by metis
qed

lemma serve_command_holds:
  assumes "vb_holds live L0 ms (sv_verbs s) (sv_machine s)"
    "serve_command lib cfg mx cmd s = Some (cpl, s')"
  shows "vb_holds live L0 ms (sv_verbs s') (sv_machine s')"
proof (cases "serve_transfer lib (sc_timeout_ms cfg) cmd s = Some (cpl, s')")
  case True
  obtain a v where a: "host_alloc lib (unat (cmd_length cmd)) (sv_machine s) = (a, v)" by fastforce
  then have "live v = live (sv_machine s)"
    using neutral_calls(8) [of "unat (cmd_length cmd)" "sv_machine s"] by simp
  with assms(1) have h: "vb_holds live L0 ms (sv_verbs s) v" by (simp add: vb_holds_def)
  obtain r v1 where r: "VerbsRegister lib (sv_verbs s) a (cmd_length cmd) False False v = (r, v1)" by fastforce
  from Register_holds [OF h r] show ?thesis
  proof (elim disjE exE conjE)
    fix e assume "r = Inl e" "vb_holds live L0 ms (sv_verbs s) v1"
    with True a r show ?thesis by (auto simp: serve_transfer_def)
  next
    fix m mr assume mr: "r = Inr mr" "vm_opaque mr = Some m" "vb_holds live L0 (m # ms) (sv_verbs s) v1"
    with True a r obtain ok st v2 where
      m: "move_payload lib (sc_timeout_ms cfg) (sv_verbs s) cmd a mr (sv_storage s) v1 = Some (ok, st, v2)"
      and s': "sv_verbs s' = sv_verbs s" "sv_machine s' = snd (snd (VerbsDeregister lib mr v2))"
      by (auto simp: serve_transfer_def bind_Some_iff Let_def)
    have "vb_holds live L0 (m # ms) (sv_verbs s) v2"
      using mr(3) move_payload_live [OF m] by (simp add: vb_holds_def)
    from Deregister_holds [OF this mr(2)] show ?thesis by (simp add: s')
  qed
qed (use assms in \<open>auto simp: serve_command_def split: if_splits\<close>)

lemma next_command_live:
  assumes "next_command lib cfg ss s = Some (r, s')"
  shows "live (sv_machine s') = live (sv_machine s)"
proof (cases "ss_tcp ss")
  case True
  then show ?thesis using assms by (auto simp: next_command_def Let_def split: prod.splits)
next
  case False
  then obtain e where "WaitForReceive lib (sv_verbs s) (sc_timeout_ms cfg) (sv_machine s) = Some (e, sv_machine s')"
    using assms by (auto simp: next_command_def Let_def bind_Some_iff split: if_splits option.splits)
  then show ?thesis by (rule WaitForReceive_live)
qed

lemma publish_live:
  assumes "publish eno lib cfg ss cpl s = Some (r, s')"
  shows "live (sv_machine s') = live (sv_machine s)"
proof (cases "ss_tcp ss \<or> EncodeCompletion cpl = None")
  case True
  then show ?thesis using assms by (auto simp: publish_def split: if_splits prod.splits)
next
  case False
  then obtain w where w: "EncodeCompletion cpl = Some w" by blast
  with False assms obtain e v where v:
    "VerbsTransfer lib (sv_verbs s) False (ss_completion_mr ss) (mw_address (ss_completion ss))
       (mw_rkey (ss_completion ss)) (of_nat (length w)) (sc_timeout_ms cfg)
       (host_store lib (ss_completion_wire ss) w (sv_machine s)) = Some (e, v)"
    "sv_machine s' = v \<or> (\<exists>e. PostReceive lib (sv_verbs s) (ss_command_mr ss) v = (e, sv_machine s'))"
    by (auto simp: publish_def bind_Some_iff VerbsWrite_def split: if_splits prod.splits)
  then show ?thesis using VerbsTransfer_live [OF v(1)] PostReceive_live by (metis neutral_calls(9))
qed

lemma serve_iteration_holds:
  assumes h: "vb_holds live L0 ms (sv_verbs s) (sv_machine s)"
    and it: "serve_iteration eno lib cfg ss s = Some (r, s')"
  shows "vb_holds live L0 ms (sv_verbs s') (sv_machine s')"
  using it
proof (cases rule: serve_iteration_cases)
  case (ret rc)
  then show ?thesis using h next_command_frame next_command_live by (metis holds_cong)
next
  case (served cmd s1 cpl s2)
  have "vb_holds live L0 ms (sv_verbs s1) (sv_machine s1)"
    using h served(1) next_command_frame next_command_live by (metis holds_cong)
  from serve_command_holds [OF this served(2)] show ?thesis
    using served(3) publish_frame publish_live by (metis holds_cong)
qed

lemma run_session_holds:
  assumes h: "vb_holds live L0 ms (sv_verbs s) (sv_machine s)"
    and run: "run_session eno lib cfg ss s = Some (rc, s')"
  shows "vb_holds live L0 ms (sv_verbs s') (sv_machine s')"
proof -
  have loop: "vb_holds live L0 ms (sv_verbs s') (sv_machine s')"
    if "serve_loop eno lib cfg ss (s\<lparr>sv_fd := c\<rparr>) = Some (rc, s')" for c
    using that h serve_iteration_holds
    by (intro serve_loop_rule [where I = "\<lambda>s. vb_holds live L0 ms (sv_verbs s) (sv_machine s)", OF that])
      auto
  show ?thesis
    using run h loop by (auto simp: run_session_def split: option.splits prod.splits)
qed

lemma prepare_buffers_holds:
  assumes h: "vb_holds live L0 [] b v" and run: "prepare_buffers lib b a1 a2 v = (r, v')"
  shows "(\<exists>e. r = Inl e \<and> vb_holds live L0 [] b v') \<or>
    (\<exists>m1 m2 rg1 rg2. r = Inr (rg1, rg2) \<and> vm_opaque rg1 = Some m1 \<and> vm_opaque rg2 = Some m2 \<and>
      vb_holds live L0 [m2, m1] b v')"
proof -
  obtain r1 v1 where r1: "VerbsRegister lib b a1 (of_nat kCommandWireBytes) False False v = (r1, v1)"
    by fastforce
  from Register_holds [OF h r1] show ?thesis
  proof (elim disjE exE conjE)
    fix m1 rg1 assume 1: "r1 = Inr rg1" "vm_opaque rg1 = Some m1" "vb_holds live L0 [m1] b v1"
    obtain r2 v2 where r2: "VerbsRegister lib b a2 (of_nat kCompletionWireBytes) False False v1 = (r2, v2)"
      by fastforce
    from Register_holds [OF 1(3) r2] show ?thesis
    proof (elim disjE exE conjE)
      fix e assume "r2 = Inl e" "vb_holds live L0 [m1] b v2"
      with run r1 r2 1 Deregister_holds [of L0 m1 "[]" b v2 rg1] show ?thesis
        by (auto simp: prepare_buffers_def)
    next
      fix m2 rg2 assume 2: "r2 = Inr rg2" "vm_opaque rg2 = Some m2" "vb_holds live L0 [m2, m1] b v2"
      obtain e v3 where p: "PostReceive lib b rg1 v2 = (e, v3)" by fastforce
      have 3: "vb_holds live L0 [m2, m1] b v3" using 2(3) PostReceive_live [OF p] holds_cong by blast
      have "vb_holds live L0 [] b (release_buffers lib rg1 rg2 v3)"
        using Deregister_holds [OF Deregister_holds [OF 3 2(2)] 1(2)] by (simp add: release_buffers_def Let_def)
      with run r1 r2 p 1 2 3 show ?thesis by (cases e) (auto simp: prepare_buffers_def)
    qed
  qed (use run r1 in \<open>auto simp: prepare_buffers_def\<close>)
qed

lemma connected_session_holds:
  assumes h: "vb_holds live L0 [] (sv_verbs s) (sv_machine s)"
    and run: "connected_session eno lib cfg rq s = Some (rc, s')"
  shows "vb_holds live L0 [] (sv_verbs s') (sv_machine s')"
proof -
  obtain a1 v1 where a1: "host_alloc lib kCommandWireBytes (sv_machine s) = (a1, v1)" by fastforce
  obtain a2 v2 where a2: "host_alloc lib kCompletionWireBytes v1 = (a2, v2)" by fastforce
  let ?s = "s\<lparr>sv_machine := v2\<rparr>"
  have "live v2 = live (sv_machine s)"
    using neutral_calls(8) a1 a2 by (metis snd_conv)
  then have h2: "vb_holds live L0 [] (sv_verbs s) v2" using h holds_cong by blast
  show ?thesis
  proof (cases "sr_flags rq AND kSessionFlagTcpControl \<noteq> 0")
    case True
    with run a1 a2 h2 show ?thesis
      by (auto simp: connected_session_def intro: run_session_holds [of L0 "[]" ?s])
  next
    case False
    obtain r v3 where p: "prepare_buffers lib (sv_verbs s) a1 a2 v2 = (r, v3)" by fastforce
    from prepare_buffers_holds [OF h2 p] show ?thesis
    proof (elim disjE exE conjE)
      fix m1 m2 rg1 rg2
      assume rg: "r = Inr (rg1, rg2)" "vm_opaque rg1 = Some m1" "vm_opaque rg2 = Some m2"
        "vb_holds live L0 [m2, m1] (sv_verbs s) v3"
      with False run a1 a2 p obtain ss s1 where
        s1: "run_session eno lib cfg ss (s\<lparr>sv_machine := v3\<rparr>) = Some (rc, s1)"
        "s' = s1\<lparr>sv_machine := release_buffers lib rg1 rg2 (sv_machine s1)\<rparr>"
        by (auto simp: connected_session_def bind_Some_iff)
      have "vb_holds live L0 [m2, m1] (sv_verbs s1) (sv_machine s1)"
        using run_session_holds [OF _ s1(1)] rg(4) by simp
      from Deregister_holds [OF Deregister_holds [OF this rg(3)] rg(2)] show ?thesis
        by (simp add: s1(2) release_buffers_def Let_def)
    qed (use False run a1 a2 p in \<open>auto simp: connected_session_def\<close>)
  qed
qed

lemma close_verbs_live:
  "vb_holds live L0 [] (sv_verbs s) (sv_machine s) \<Longrightarrow> live (sv_machine (close_verbs lib s)) = L0"
  using Close_holds [of L0 "sv_verbs s" "sv_machine s"]
  by (cases "VerbsClose lib (sv_verbs s) (sv_machine s)") (simp add: close_verbs_def)

lemma serve_request_on_live:
  assumes "serve_request_on eno lib cfg rq s = Some (rc, s')"
  shows "live (sv_machine s') = live (sv_machine s)"
proof -
  obtain e b v where o: "VerbsOpen lib (sc_verbs_device cfg) (sc_verbs_port cfg) (sc_gid_index cfg)
      kDefaultQueueDepth new_verbs (sv_machine s) = (e, b, v)" by (metis prod_cases3)
  show ?thesis
  proof (cases e)
    case (Some x)
    then have b: "b = new_verbs" "live v = live (sv_machine s)" using Open_holds [OF o] by auto
    have "s' = close_verbs lib (s\<lparr>sv_verbs := b, sv_machine := v\<rparr>)"
      using assms o Some by (simp add: serve_request_on_def)
    then have "sv_machine s' = v"
      by (simp add: b(1) close_verbs_def VerbsClose_def new_verbs_def on_some_def)
    with b show ?thesis by simp
  next
    case None
    then have h: "vb_holds live (live (sv_machine s)) [] b v" using Open_holds [OF o] by simp
    obtain e2 b2 v2 where c: "VerbsConnect lib (ToVerbsEndpoint (sr_endpoint rq)) b v = (e2, b2, v2)"
      by (metis prod_cases3)
    note h2 = Connect_holds [OF h c]
    have "\<exists>s1. s' = close_verbs lib s1 \<and> vb_holds live (live (sv_machine s)) [] (sv_verbs s1) (sv_machine s1)"
    proof (cases e2)
      case None
      with assms o \<open>e = None\<close> c obtain s1 where
        s1: "connected_session eno lib cfg rq (s\<lparr>sv_verbs := b2, sv_machine := v2\<rparr>) = Some (rc, s1)"
        "s' = close_verbs lib s1"
        by (auto simp: serve_request_on_def bind_Some_iff)
      from connected_session_holds [OF _ s1(1)] h2 s1(2) show ?thesis by fastforce
    next
      case (Some x)
      with assms o \<open>e = None\<close> c have "s' = close_verbs lib (s\<lparr>sv_verbs := b2, sv_machine := v2\<rparr>)"
        by (simp add: serve_request_on_def)
      with h2 show ?thesis by fastforce
    qed
    then show ?thesis using close_verbs_live by blast
  qed
qed

end

section \<open>The namespace as an interface\<close>

definition storage_contents :: "storage \<Rightarrow> bytes" where
  "storage_contents st = (case st of MemNs m \<Rightarrow> ms_bytes m | PosixNs p \<Rightarrow> posix_contents p)"

definition storage_good :: "storage \<Rightarrow> bool" where
  "storage_good st = (case st of MemNs m \<Rightarrow> length (ms_bytes m) < 2 ^ 64 | PosixNs p \<Rightarrow> posix_good p)"

lemmas storage_defs = storage_contents_def storage_good_def

interpretation namespace: storage_backend storage_size storage_read storage_write storage_contents storage_good
proof
  fix b :: storage and off len and src :: bytes
  assume good: "storage_good b"
  show "unat (storage_size b) = length (storage_contents b)"
    using good memory_backend.size_contents posix_backend.size_contents
    by (cases b) (simp_all add: storage_defs)
  show "unat off + len \<le> length (storage_contents b) \<Longrightarrow>
      storage_read b off len = Inr (bslice (unat off) len (storage_contents b))"
    using good memory_backend.read_in posix_backend.read_in by (cases b) (simp_all add: storage_defs)
  show "length (storage_contents b) < unat off + len \<Longrightarrow> \<exists>e. storage_read b off len = Inl e"
    using good memory_backend.read_out posix_backend.read_out by (cases b) (simp_all add: storage_defs)
  show "unat off + length src \<le> length (storage_contents b) \<Longrightarrow>
      \<exists>b'. storage_write b off src = (None, b') \<and> storage_good b' \<and>
        storage_contents b' = overwrite (unat off) src (storage_contents b)"
    using good memory_backend.write_in [of _ off src] posix_backend.write_in [of _ off src]
    by (cases b) (fastforce simp: storage_defs)+
  show "length (storage_contents b) < unat off + length src \<Longrightarrow> \<exists>e. storage_write b off src = (Some e, b)"
    using good memory_backend.write_out [of _ off src] posix_backend.write_out [of _ off src]
    by (cases b) (fastforce simp: storage_defs)+
qed

text \<open>A command that passes the server's check addresses a range of the namespace.\<close>

lemma request_in_range_nat:
  assumes "request_in_range mx st cmd" "storage_good st"
  shows "unat (cmd_storage_offset cmd) + unat (cmd_length cmd) \<le> length (storage_contents st)"
proof -
  have "unat (cmd_length cmd) \<le> unat (storage_size st) - unat (cmd_storage_offset cmd)"
    "unat (cmd_storage_offset cmd) \<le> unat (storage_size st)"
    using assms(1) by (auto simp: request_in_range_def word_le_nat_alt unat_sub)
  then show ?thesis using namespace.size_contents [OF assms(2)] by simp
qed

lemma small_length:
  assumes "request_in_range mx st cmd" "mx \<le> kDefaultMaxTransferBytes"
  shows "unat (ucast (cmd_length cmd) :: u32) = unat (cmd_length cmd)"
proof (rule unat_narrow_u32)
  have "unat (cmd_length cmd) \<le> unat kDefaultMaxTransferBytes"
    using assms by (auto simp: request_in_range_def word_le_nat_alt)
  then show "unat (cmd_length cmd) < 2 ^ 32" by (simp add: kDefaultMaxTransferBytes_def)
qed

section \<open>What a served request moves\<close>

context rdma_transport
begin

text \<open>The staging buffer is set up without disturbing the queue pair.\<close>

lemma Register_idle:
  assumes "VerbsRegister lib b a len rr rw v = (r, v')" "idle v"
  shows "idle v' \<and> (\<forall>mr. r = Inr mr \<longrightarrow> vm_address mr = a)"
proof -
  have "idle (snd (ibv_reg_mr lib (the (vb_pd b)) a len (region_access rr rw) v))"
    using assms(2) by (simp add: register_queue)
  then show ?thesis
    using assms by (auto simp: VerbsRegister_def split: if_splits prod.splits option.splits)
qed

lemma Deregister_frame:
  assumes "idle v"
  shows "idle (snd (snd (VerbsDeregister lib mr v)))"
    "host_load lib a n (snd (snd (VerbsDeregister lib mr v))) = host_load lib a n v"
    "remote rk ra n (snd (snd (VerbsDeregister lib mr v))) = remote rk ra n v"
proof -
  have "snd (snd (VerbsDeregister lib mr v)) = (case vm_opaque mr of None \<Rightarrow> v
      | Some m \<Rightarrow> snd (ibv_dereg_mr lib m v))"
    by (auto simp: VerbsDeregister_def split: option.splits prod.splits bool.splits)
  moreover have "quiet outstanding receives v" using assms by (simp add: quiet_def)
  ultimately show "idle (snd (snd (VerbsDeregister lib mr v)))"
    "host_load lib a n (snd (snd (VerbsDeregister lib mr v))) = host_load lib a n v"
    "remote rk ra n (snd (snd (VerbsDeregister lib mr v))) = remote rk ra n v"
    using assms by (simp_all add: deregister_queue deregister_memory split: option.splits)
qed

lemma move_payload_read:
  assumes op: "cmd_operation cmd = kRead" and idle: "idle v"
    and st: "storage_read st (cmd_storage_offset cmd) (unat (cmd_length cmd)) = Inr d"
    and len: "length d = unat (cmd_length cmd)" "unat (ucast (cmd_length cmd) :: u32) = unat (cmd_length cmd)"
    and mr: "vm_address mr = a"
    and run: "move_payload lib t b cmd a mr st v = Some (True, st', v')"
  shows "idle v' \<and> st' = st \<and> host_load lib a (length d) v' = d \<and>
    remote (cmd_npu_rkey cmd) (cmd_npu_address cmd) (length d) v' = d"
proof -
  let ?v = "host_store lib a d v"
  have tr: "VerbsTransfer lib b False mr (cmd_npu_address cmd) (cmd_npu_rkey cmd) (cmd_length cmd) t ?v
      = Some (None, v')" and "st' = st"
    using run op st by (auto simp: move_payload_def bind_Some_iff VerbsWrite_def)
  moreover have "idle ?v" using idle by (simp add: store_queue)
  moreover have "host_load lib a (length d) ?v = d"
    using unsigned_less [of "cmd_length cmd", where 'a = nat] len(1) by (intro store_load) simp
  ultimately show ?thesis using Transfer_moves [OF tr] len mr by simp
qed

lemma move_payload_write:
  assumes op: "cmd_operation cmd = kWrite" and idle: "idle v"
    and len: "unat (ucast (cmd_length cmd) :: u32) = unat (cmd_length cmd)"
    and mr: "vm_address mr = a"
    and run: "move_payload lib t b cmd a mr st v = Some (True, st', v')"
  shows "idle v' \<and> (\<exists>d. d = host_load lib a (unat (cmd_length cmd)) v' \<and>
    d = remote (cmd_npu_rkey cmd) (cmd_npu_address cmd) (unat (cmd_length cmd)) v' \<and>
    storage_write st (cmd_storage_offset cmd) d = (None, st'))"
proof -
  have "kWrite \<noteq> kRead" by (simp add: kWrite_def kRead_def)
  with run op have tr: "VerbsTransfer lib b True mr (cmd_npu_address cmd) (cmd_npu_rkey cmd) (cmd_length cmd) t v
      = Some (None, v')" and
    st: "storage_write st (cmd_storage_offset cmd) (host_load lib a (unat (cmd_length cmd)) v') = (None, st')"
    by (auto simp: move_payload_def bind_Some_iff VerbsRead_def split: if_splits prod.splits)
  from Transfer_moves [OF tr idle] len mr st show ?thesis by simp
qed

text \<open>What a completion reports when the payload was moved: success, the length, the checksum.\<close>

lemma serve_transfer_cases:
  assumes run: "serve_transfer lib t cmd s = Some (cpl, s')" and ok: "cpl_status cpl = kCompletionStatusSuccess"
    and idle: "idle (sv_machine s)"
  obtains a mr v v2 where "idle v" "vm_address mr = a"
    "move_payload lib t (sv_verbs s) cmd a mr (sv_storage s) v = Some (True, sv_storage s', v2)"
    "sv_machine s' = snd (snd (VerbsDeregister lib mr v2))"
    "cpl = completion_for cmd kCompletionStatusSuccess\<lparr>cpl_bytes := cmd_length cmd,
       cpl_checksum := RoceChecksum (host_load lib a (unat (cmd_length cmd)) (sv_machine s'))\<rparr>"
proof -
  obtain a v where a: "host_alloc lib (unat (cmd_length cmd)) (sv_machine s) = (a, v)" by fastforce
  have v: "idle v" using alloc_queue [of "unat (cmd_length cmd)" "sv_machine s"] a idle by simp
  obtain r v1 where r: "VerbsRegister lib (sv_verbs s) a (cmd_length cmd) False False v = (r, v1)" by fastforce
  note v1 = Register_idle [OF r v]
  have ne: "cpl_status (completion_for cmd kCompletionStatusBackendError) \<noteq> kCompletionStatusSuccess"
    by (simp add: completion_for_def kCompletionStatusBackendError_def kCompletionStatusSuccess_def)
  show thesis
  proof (cases r)
    case (Inl e)
    with run a r ok ne show thesis by (auto simp: serve_transfer_def)
  next
    case (Inr mr)
    with run a r obtain b st v2 where
      m: "move_payload lib t (sv_verbs s) cmd a mr (sv_storage s) v1 = Some (b, st, v2)"
      and s': "sv_storage s' = st" "sv_machine s' = snd (snd (VerbsDeregister lib mr v2))"
      and cpl: "cpl = (if b then completion_for cmd kCompletionStatusSuccess\<lparr>cpl_bytes := cmd_length cmd,
         cpl_checksum := RoceChecksum (host_load lib a (unat (cmd_length cmd)) (sv_machine s'))\<rparr>
         else completion_for cmd kCompletionStatusBackendError)"
      by (auto simp: serve_transfer_def bind_Some_iff Let_def)
    have b using cpl ok ne by (cases b) simp_all
    with that [of v1 mr a v2] v1 Inr m s' cpl show thesis by simp
  qed
qed

lemma serve_command_moves:
  assumes run: "serve_command lib cfg mx cmd s = Some (cpl, s')"
    and ok: "cpl_status cpl = kCompletionStatusSuccess"
    and idle: "idle (sv_machine s)" and good: "storage_good (sv_storage s)"
    and mx: "mx \<le> kDefaultMaxTransferBytes"
    and op: "cmd_operation cmd = kRead \<or> cmd_operation cmd = kWrite"
  shows "idle (sv_machine s') \<and> storage_good (sv_storage s') \<and>
    (\<exists>d. length d = unat (cmd_length cmd) \<and>
      cpl_bytes cpl = cmd_length cmd \<and> cpl_checksum cpl = fnv32 d \<and>
      d = bslice (unat (cmd_storage_offset cmd)) (unat (cmd_length cmd)) (storage_contents (sv_storage s')) \<and>
      d = remote (cmd_npu_rkey cmd) (cmd_npu_address cmd) (unat (cmd_length cmd)) (sv_machine s') \<and>
      storage_contents (sv_storage s') = (if cmd_operation cmd = kRead then storage_contents (sv_storage s)
        else overwrite (unat (cmd_storage_offset cmd)) d (storage_contents (sv_storage s))))"
proof -
  have rng: "request_in_range mx (sv_storage s) cmd"
    and tr: "serve_transfer lib (sc_timeout_ms cfg) cmd s = Some (cpl, s')"
    using run ok by (auto simp: serve_command_def completion_for_def kCompletionStatusSuccess_def
        kCompletionStatusInvalidRequest_def kCompletionStatusUnsupported_def split: if_splits)
  note fit = request_in_range_nat [OF rng good] and len = small_length [OF rng mx]
  let ?off = "unat (cmd_storage_offset cmd)" and ?n = "unat (cmd_length cmd)"
  from serve_transfer_cases [OF tr ok idle] obtain a mr v v2 where
    m: "idle v" "vm_address mr = a"
    "move_payload lib (sc_timeout_ms cfg) (sv_verbs s) cmd a mr (sv_storage s) v = Some (True, sv_storage s', v2)"
    "sv_machine s' = snd (snd (VerbsDeregister lib mr v2))"
    "cpl = completion_for cmd kCompletionStatusSuccess\<lparr>cpl_bytes := cmd_length cmd,
       cpl_checksum := RoceChecksum (host_load lib a ?n (sv_machine s'))\<rparr>" .
  show ?thesis
  proof (cases "cmd_operation cmd = kRead")
    case True
    let ?d = "bslice ?off ?n (storage_contents (sv_storage s))"
    have rd: "storage_read (sv_storage s) (cmd_storage_offset cmd) ?n = Inr ?d" "length ?d = ?n"
      using namespace.read_in [OF good fit] fit by auto
    from move_payload_read [OF True m(1) rd(1) rd(2) len m(2) m(3)] rd(2)
    have q: "idle v2" "sv_storage s' = sv_storage s" "host_load lib a ?n v2 = ?d"
      "remote (cmd_npu_rkey cmd) (cmd_npu_address cmd) ?n v2 = ?d" by simp_all
    show ?thesis
      using True Deregister_frame [OF q(1)] q good rd(2) m(4,5) by (auto simp: RoceChecksum_def)
  next
    case False
    with op have w: "cmd_operation cmd = kWrite" by simp
    from move_payload_write [OF w m(1) len m(2) m(3)] obtain d where
      q: "idle v2" "d = host_load lib a ?n v2" "d = remote (cmd_npu_rkey cmd) (cmd_npu_address cmd) ?n v2"
      "storage_write (sv_storage s) (cmd_storage_offset cmd) d = (None, sv_storage s')" by blast
    have n: "length d = ?n" using q(2) load_length by simp
    with fit have "?off + length d \<le> length (storage_contents (sv_storage s))" by simp
    from namespace.write_in [OF good this] q(4)
    have st: "storage_good (sv_storage s')"
      "storage_contents (sv_storage s') = overwrite ?off d (storage_contents (sv_storage s))" by auto
    have "bslice ?off ?n (storage_contents (sv_storage s')) = d"
      using bslice_overwrite_same [of ?off d] n fit st(2) by simp
    then show ?thesis
      using False Deregister_frame [OF q(1)] q n st m(4,5) by (auto simp: RoceChecksum_def)
  qed
qed

end

end
