(* ===== verification/Roce_Service.thy ===== *)
theory Roce_Service
  imports Roce_Server
begin

text \<open>
  Whole sessions of the RoCE storage server: a session over the TCP control path always returns and
  answers every command in order, a server that does not allow writes never changes its namespace,
  no object of the verbs library outlives a session, a request reported as successful has moved
  exactly the bytes it names, and what can go wrong after a transfer that timed out.
\<close>

section \<open>Sessions over TCP return\<close>

lemma ReceiveCommand_shrinks:
  "ReceiveCommand es = (Inr cmd, es') \<Longrightarrow> length (rx_stream es') < length (rx_stream es)"
  using cmd_chan.receive_consumes by (simp add: kCommandWireBytes_def)

lemma serve_iteration_shrinks:
  assumes "ss_tcp ss" "serve_iteration eno lib cfg ss s = Some (None, s')"
  shows "length (rx_stream (c_rx (sv_fd s'))) < length (rx_stream (c_rx (sv_fd s)))"
  using assms(2)
proof (cases rule: serve_iteration_cases)
  case (served cmd s1 cpl s2)
  from served(1) assms(1) obtain es where "ReceiveCommand (c_rx (sv_fd s)) = (Inr cmd, es)"
    "c_rx (sv_fd s1) = es"
    by (auto simp: next_command_def Let_def split: prod.splits sum.splits)
  moreover have "sv_fd s2 = sv_fd s1" using serve_command_frame [OF served(2)] by simp
  moreover have "c_rx (sv_fd s') = c_rx (sv_fd s2)"
    using served(3) assms(1) SendCompletion_rx by (auto simp: publish_def split: prod.splits)
  ultimately show ?thesis using ReceiveCommand_shrinks by metis
qed simp

context steady_clock
begin

lemma move_payload_returns: "\<exists>r. move_payload lib t b cmd a mr st v = Some r"
proof (cases "cmd_operation cmd = kRead")
  case True
  show ?thesis
  proof (cases "storage_read st (cmd_storage_offset cmd) (unat (cmd_length cmd))")
    case (Inr d)
    obtain e w where "VerbsWrite lib b mr (cmd_npu_address cmd) (cmd_npu_rkey cmd) (cmd_length cmd) t
        (host_store lib a d v) = Some (e, w)"
      unfolding VerbsWrite_def using VerbsTransfer_returns by (metis surj_pair)
    with True Inr show ?thesis by (simp add: move_payload_def)
  qed (use True in \<open>auto simp: move_payload_def\<close>)
next
  case False
  obtain e w where "VerbsRead lib b mr (cmd_npu_address cmd) (cmd_npu_rkey cmd) (cmd_length cmd) t v = Some (e, w)"
    unfolding VerbsRead_def using VerbsTransfer_returns by (metis surj_pair)
  with False show ?thesis by (auto simp: move_payload_def split: prod.splits)
qed

lemma serve_command_returns: "\<exists>r. serve_command lib cfg mx cmd s = Some r"
proof -
  have "\<exists>r. serve_transfer lib t cmd s = Some r" for t
  proof -
    obtain a v where a: "host_alloc lib (unat (cmd_length cmd)) (sv_machine s) = (a, v)" by fastforce
    obtain r v1 where r: "VerbsRegister lib (sv_verbs s) a (cmd_length cmd) False False v = (r, v1)" by fastforce
    show ?thesis
    proof (cases r)
      case (Inr mr)
      obtain ok st v2 where "move_payload lib t (sv_verbs s) cmd a mr (sv_storage s) v1 = Some (ok, st, v2)"
        using move_payload_returns by (metis prod_cases3)
      with a r Inr show ?thesis by (simp add: serve_transfer_def Let_def)
    qed (use a r in \<open>simp add: serve_transfer_def\<close>)
  qed
  then show ?thesis by (simp add: serve_command_def)
qed

lemma serve_iteration_returns:
  assumes "ss_tcp ss"
  shows "\<exists>r s'. serve_iteration eno lib cfg ss s = Some (r, s')"
proof -
  obtain r s1 where n: "next_command lib cfg ss s = Some (r, s1)"
    using assms by (cases "ReceiveCommand (c_rx (sv_fd s))") (simp add: next_command_def)
  show ?thesis
  proof (cases r)
    case (Inl rc)
    with n show ?thesis by (simp add: serve_iteration_def)
  next
    case (Inr cmd)
    obtain cpl s2 where "serve_command lib cfg (ss_max_transfer ss) cmd s1 = Some (cpl, s2)"
      using serve_command_returns by (metis surj_pair)
    with n Inr assms show ?thesis by (simp add: serve_iteration_def publish_def split: prod.splits)
  qed
qed

lemma serve_loop_returns:
  assumes tcp: "ss_tcp ss"
  shows "\<exists>r. serve_loop eno lib cfg ss s = Some r"
proof (induction "length (rx_stream (c_rx (sv_fd s)))" arbitrary: s rule: less_induct)
  case less
  obtain r s1 where it: "serve_iteration eno lib cfg ss s = Some (r, s1)"
    using serve_iteration_returns [OF tcp] by blast
  show ?case
  proof (cases r)
    case None
    with it have "length (rx_stream (c_rx (sv_fd s1))) < length (rx_stream (c_rx (sv_fd s)))"
      using serve_iteration_shrinks [OF tcp] by simp
    from less [OF this] it None show ?thesis by (subst serve_loop.simps) simp
  next
    case (Some rc)
    with it show ?thesis by (subst serve_loop.simps) simp
  qed
qed

lemma run_session_returns: "ss_tcp ss \<Longrightarrow> \<exists>r. run_session eno lib cfg ss s = Some r"
  using serve_loop_returns by (simp add: run_session_def split: option.splits prod.splits)

lemma serve_request_on_returns:
  assumes "sr_flags rq AND kSessionFlagTcpControl \<noteq> 0"
  shows "\<exists>r. serve_request_on eno lib cfg rq s = Some r"
proof -
  have "\<exists>rc s1. connected_session eno lib cfg rq s = Some (rc, s1)" for s
    using assms run_session_returns by (auto simp: connected_session_def split: prod.splits)
  then obtain f g where "connected_session eno lib cfg rq s = Some (f s, g s)" for s by metis
  then show ?thesis by (auto simp: serve_request_on_def split: prod.splits option.splits)
qed

lemma ServeOneClient_tcp:
  assumes "\<And>rq. DecodeSessionRequest (take kSessionRequestWireBytes (rx_stream (c_rx (sv_fd s)))) = Some rq \<Longrightarrow>
     sr_flags rq AND kSessionFlagTcpControl \<noteq> 0"
  shows "\<exists>r. ServeOneClient eno lib cfg s = Some r"
proof -
  obtain q es where q: "ControlReadAll (c_rx (sv_fd s)) kSessionRequestWireBytes = (q, es)" by fastforce
  show ?thesis
  proof (cases q)
    case (Inr w)
    with q have "w = take kSessionRequestWireBytes (rx_stream (c_rx (sv_fd s)))"
      using cr.read_result by blast
    with assms q Inr serve_request_on_returns show ?thesis
      by (auto simp: ServeOneClient_def Let_def split: option.splits)
  qed (use q in \<open>simp add: ServeOneClient_def\<close>)
qed

end

section \<open>Sessions over TCP answer every command\<close>

text \<open>The commands served one after the other.\<close>

fun serve_all ::
  "'v ibverbs \<Rightarrow> server_config \<Rightarrow> u64 \<Rightarrow> Command list \<Rightarrow> 'v server \<Rightarrow> (Completion list \<times> 'v server) option" where
  "serve_all lib cfg mx [] s = Some ([], s)"
| "serve_all lib cfg mx (cmd # cs) s =
    do {
      (p, s) \<leftarrow> serve_command lib cfg mx cmd s;
      (ps, s) \<leftarrow> serve_all lib cfg mx cs s;
      Some (p # ps, s)
    }"

text \<open>Serving a command does not depend on the control connection.\<close>

lemma serve_command_fd:
  assumes "serve_command lib cfg mx cmd s = Some (p, s')"
  shows "serve_command lib cfg mx cmd (s\<lparr>sv_fd := c\<rparr>) = Some (p, s'\<lparr>sv_fd := c\<rparr>)"
  using assms
  by (auto simp: serve_command_def serve_transfer_def bind_Some_iff Let_def
      split: if_splits prod.splits sum.splits)

lemma serve_all_fd:
  "serve_all lib cfg mx cs s = Some (ps, s') \<Longrightarrow>
   serve_all lib cfg mx cs (s\<lparr>sv_fd := c\<rparr>) = Some (ps, s'\<lparr>sv_fd := c\<rparr>)"
proof (induction cs arbitrary: s ps)
  case (Cons cmd cs)
  then obtain p s1 qs where "serve_command lib cfg mx cmd s = Some (p, s1)"
    "serve_all lib cfg mx cs s1 = Some (qs, s')" "ps = p # qs"
    by (auto simp: bind_Some_iff)
  with Cons.IH serve_command_fd show ?case by fastforce
qed simp

lemma serve_all_ids:
  "serve_all lib cfg mx cs s = Some (ps, s') \<Longrightarrow> map cpl_request_id ps = map cmd_request_id cs"
  by (induction cs arbitrary: s ps) (auto simp: bind_Some_iff dest: serve_command_frame)

lemma completion_encodes:
  assumes "serve_command lib cfg mx cmd s = Some (p, s')" "command_ok cmd"
  shows "\<exists>w. EncodeCompletion p = Some w"
  using serve_command_frame [OF assms(1)] assms(2) by (simp add: EncodeCompletion_layout command_ok_def)

context steady_clock
begin

lemma serve_loop_answers:
  assumes tcp: "ss_tcp ss"
  shows "list_all command_ok cs \<Longrightarrow> rx_stream (c_rx (sv_fd s)) = command_wires cs \<Longrightarrow>
    rx_clean (c_rx (sv_fd s)) \<Longrightarrow> tx_clean (sv_fd s) \<Longrightarrow>
    \<exists>ps s'. serve_loop eno lib cfg ss s = Some (0, s') \<and>
      serve_all lib cfg (ss_max_transfer ss) cs s = Some (ps, s'\<lparr>sv_fd := sv_fd s\<rparr>) \<and>
      c_sent (sv_fd s') = c_sent (sv_fd s) @ completion_wires ps"
proof (induction cs arbitrary: s)
  case Nil
  obtain es where "ctl_read_loop (c_rx (sv_fd s)) 0 kCommandWireBytes = (Inl kPeerClosed, es)"
    using ctl_read_clean_end [of "c_rx (sv_fd s)" kCommandWireBytes] Nil by (auto simp: kCommandWireBytes_def)
  then have "ReceiveCommand (c_rx (sv_fd s)) = (Inl kPeerClosed, es)"
    by (simp add: ReceiveCommand_def ControlReadAll_def)
  then have "serve_loop eno lib cfg ss s = Some (0, s\<lparr>sv_fd := (sv_fd s)\<lparr>c_rx := es\<rparr>\<rparr>)"
    using tcp by (subst serve_loop.simps) (simp add: serve_iteration_def next_command_def)
  then show ?case by simp
next
  case (Cons cmd cs)
  obtain w where w: "EncodeCommand cmd = Some w" using Cons.prems(1) by (simp add: EncodeCommand_layout)
  have "rx_stream (c_rx (sv_fd s)) = w @ command_wires cs" using Cons.prems(2) w by simp
  from cmd_chan.receive_exact [OF w _ this] obtain es where
    es: "ReceiveCommand (c_rx (sv_fd s)) = (Inr cmd, es)" "rx_stream es = command_wires cs" "rx_clean es"
    using Cons.prems(3) by blast
  let ?s1 = "s\<lparr>sv_fd := (sv_fd s)\<lparr>c_rx := es\<rparr>\<rparr>"
  obtain p s2 where sc: "serve_command lib cfg (ss_max_transfer ss) cmd s = Some (p, s2)"
    using serve_command_returns by (metis surj_pair)
  have fd: "sv_fd s2 = sv_fd s" using serve_command_frame [OF sc] by simp
  let ?s2 = "s2\<lparr>sv_fd := (sv_fd s)\<lparr>c_rx := es\<rparr>\<rparr>"
  have sc1: "serve_command lib cfg (ss_max_transfer ss) cmd ?s1 = Some (p, ?s2)"
    by (rule serve_command_fd [OF sc])
  obtain u where u: "EncodeCompletion p = Some u" using completion_encodes [OF sc] Cons.prems(1) by auto
  have "tx_clean (sv_fd ?s2)" using Cons.prems(4) by (simp add: tx_clean_def)
  then obtain c where c: "SendCompletion eno (sv_fd ?s2) p = (None, c)" "tx_clean c"
    "c_sent c = c_sent (sv_fd s) @ u" "c_rx c = es"
    using cpl_chan.send_exact [OF u, of "sv_fd ?s2"] by auto
  let ?s3 = "s2\<lparr>sv_fd := c\<rparr>"
  have it: "serve_iteration eno lib cfg ss s = Some (None, ?s3)"
    using tcp es(1) sc1 c(1) by (simp add: serve_iteration_def next_command_def publish_def)
  from Cons.IH [of ?s3] Cons.prems(1) es c obtain ps s' where
    ih: "serve_loop eno lib cfg ss ?s3 = Some (0, s')"
    "serve_all lib cfg (ss_max_transfer ss) cs ?s3 = Some (ps, s'\<lparr>sv_fd := c\<rparr>)"
    "c_sent (sv_fd s') = c_sent c @ completion_wires ps" by auto
  have "serve_all lib cfg (ss_max_transfer ss) cs s2 = Some (ps, s'\<lparr>sv_fd := sv_fd s\<rparr>)"
    using serve_all_fd [OF ih(2), of "sv_fd s"] fd by (cases s2) simp
  moreover have "serve_loop eno lib cfg ss s = Some (0, s')"
    using it ih(1) by (subst serve_loop.simps) simp
  ultimately show ?case using sc ih(3) c(3) u by auto
qed

end

section \<open>Read-only servers\<close>

lemma ServeOneClient_cases:
  assumes "ServeOneClient eno lib cfg s = Some (rc, s')"
  shows "\<exists>es. s' = s\<lparr>sv_fd := (sv_fd s)\<lparr>c_rx := es\<rparr>\<rparr> \<or>
    (\<exists>rq. serve_request_on eno lib cfg rq (s\<lparr>sv_fd := (sv_fd s)\<lparr>c_rx := es\<rparr>\<rparr>) = Some (rc, s'))"
  using assms
  by (auto simp: ServeOneClient_def Let_def split: prod.splits sum.splits option.splits if_splits)


lemma serve_command_read_only:
  assumes "\<not> sc_allow_writes cfg" "serve_command lib cfg mx cmd s = Some (p, s')"
  shows "sv_storage s' = sv_storage s"
proof -
  have "st' = st" if "cmd_operation cmd \<noteq> kWrite" "move_payload lib t b cmd a mr st v = Some (ok, st', v')"
    for t b a mr st v ok st' v'
    using that by (auto simp: move_payload_def bind_Some_iff split: if_splits sum.splits)
  with assms show ?thesis
    by (auto simp: serve_command_def serve_transfer_def bind_Some_iff Let_def
        split: if_splits prod.splits sum.splits)
qed

lemma serve_iteration_read_only:
  assumes "\<not> sc_allow_writes cfg" "serve_iteration eno lib cfg ss s = Some (r, s')"
  shows "sv_storage s' = sv_storage s"
  using assms(2)
proof (cases rule: serve_iteration_cases)
  case (served cmd s1 cpl s2)
  then show ?thesis
    using next_command_frame [OF served(1)] serve_command_read_only [OF assms(1) served(2)]
      publish_frame [OF served(3)] by simp
qed (use next_command_frame in blast)

lemma run_session_read_only:
  assumes "\<not> sc_allow_writes cfg" "run_session eno lib cfg ss s = Some (rc, s')"
  shows "sv_storage s' = sv_storage s"
proof -
  have "\<forall>a r b. sv_storage a = sv_storage s \<and> serve_iteration eno lib cfg ss a = Some (r, b) \<longrightarrow>
      sv_storage b = sv_storage s"
    using serve_iteration_read_only [OF assms(1)] by metis
  note loop = serve_loop_rule [where I = "\<lambda>a. sv_storage a = sv_storage s", OF _ this]
  show ?thesis
  proof (cases "EncodeSessionResponse (session_response (sv_verbs s) (sv_storage s) (sc_allow_writes cfg))")
    case None
    with assms(2) show ?thesis by (simp add: run_session_def)
  next
    case (Some w)
    obtain e c where "ControlWriteAll eno (sv_fd s) w = (e, c)" by fastforce
    with Some assms(2) loop [of "s\<lparr>sv_fd := c\<rparr>"] show ?thesis by (cases e) (auto simp: run_session_def)
  qed
qed

lemma ServeOneClient_read_only:
  assumes "\<not> sc_allow_writes cfg" "ServeOneClient eno lib cfg s = Some (rc, s')"
  shows "sv_storage s' = sv_storage s"
proof -
  have cs: "sv_storage b = sv_storage a" if "connected_session eno lib cfg rq a = Some (rc, b)" for rq a b
    using that run_session_read_only [OF assms(1)]
    by (force simp: connected_session_def bind_Some_iff Let_def split: prod.splits sum.splits if_splits)
  have cl: "sv_storage (close_verbs lib a) = sv_storage a" for a
    by (simp add: close_verbs_def split: prod.splits)
  have "sv_storage b = sv_storage a" if "serve_request_on eno lib cfg rq a = Some (rc, b)" for rq a b
    using that cs cl
    by (fastforce simp: serve_request_on_def bind_Some_iff split: prod.splits option.splits)
  with ServeOneClient_cases [OF assms(2)] show ?thesis by fastforce
qed

section \<open>Sample servers\<close>

text \<open>
  A server on the reference adapter with a queue pair, a memory namespace of eight bytes and a timeout
  of one millisecond.  The NPU holds 7 at every address up to 8191 and 9 above; work requests complete
  after the given numbers of empty polls.
\<close>

definition sample_adapter :: "nat list \<Rightarrow> rnic" where
  "sample_adapter delays = \<lparr>rn_objs = [], rn_fails = [], rn_devices = [''mlx5_0''], rn_host = (\<lambda>a. 0),
     rn_npu = (\<lambda>a. if a < 8192 then 7 else 9), rn_brk = 65536, rn_sends = [], rn_delays = delays,
     rn_inbox = [], rn_recvs = [], rn_clock = 0\<rparr>"

definition sample_config :: "bool \<Rightarrow> server_config" where
  "sample_config allow = \<lparr>sc_verbs_device = ''mlx5_0'', sc_verbs_port = 1, sc_gid_index = 0,
     sc_timeout_ms = 1, sc_allow_writes = allow\<rparr>"

definition sample_server :: "bytes \<Rightarrow> nat list \<Rightarrow> rnic server" where
  "sample_server rx delays = \<lparr>sv_fd = \<lparr>c_rx = [Rx rx], c_tx = [], c_sent = []\<rparr>,
     sv_storage = MemNs \<lparr>ms_bytes = [1, 2, 3, 4, 5, 6, 7, 8]\<rparr>,
     sv_verbs = new_verbs\<lparr>vb_context := Some 1, vb_pd := Some 2, vb_cq := Some 3, vb_qp := Some 4,
       vb_endpoint := no_endpoint\<lparr>ve_qpn := 1\<rparr>\<rparr>,
     sv_machine = sample_adapter delays\<rparr>"

definition store_command :: "u64 \<Rightarrow> u64 \<Rightarrow> u64 \<Rightarrow> Command" where
  "store_command rid off addr = \<lparr>cmd_request_id = rid, cmd_operation = kWrite, cmd_object_id = 0,
     cmd_storage_offset = off, cmd_length = 2, cmd_npu_address = addr, cmd_npu_rkey = 7, cmd_npu_access = 3\<rparr>"

lemma mem_load_2: "mem_load m a 2 = [m a, m (a + 1)]"
  by (simp add: mem_load_def numeral_2_eq_2)

lemma replicate_2: "replicate 2 x = [x, x]"
  by (simp add: numeral_2_eq_2)

lemmas run_defs = sample_server_def store_command_def sample_config_def sample_adapter_def
  serve_command_def request_in_range_def memory_size_def serve_transfer_def rn_alloc_def
  VerbsRegister_def verbs_available_def new_verbs_def rn_create_def new_name_def Let_def
  kWrite_def kRead_def move_payload_def VerbsRead_def VerbsTransfer_def wait_deadline_def ms_ticks_def
  poll_loop.simps rn_poll_def VerbsDeregister_def rn_destroy_def completion_for_def
  kCompletionStatusBackendError_def kCompletionStatusSuccess_def transfer_judge_def rn_wc_def
  IBV_WC_SUCCESS_def rn_move_def transfer_wr_def memory_write_def ValidRange_def RoceChecksum_def
  storage_contents_def wr_len_def mem_load_2 mem_store_def replicate_2 overwrite_def

definition sample_session :: session where
  "sample_session = \<lparr>ss_tcp = True, ss_completion = \<lparr>mw_address = 0, mw_length = 0, mw_rkey = 0, mw_access = 0\<rparr>,
     ss_max_transfer = 8, ss_command_wire = 1, ss_completion_wire = 2, ss_command_mr = no_region,
     ss_completion_mr = no_region\<rparr>"

lemma sample_response_encodes:
  "\<exists>w. EncodeSessionResponse (session_response (sv_verbs (sample_server rx ds))
     (sv_storage (sample_server rx ds)) allow) = Some w"
  by (simp add: EncodeSessionResponse_layout EncodeEndpoint_layout sample_server_def session_response_def
      ToWireEndpoint_def new_verbs_def no_endpoint_def endpoint_ok_def PathMtuBytes_def memory_size_def
      kDefaultMaxTransferBytes_def min_def)

lemma sample_request_wire:
  obtains w where "length w = kSessionRequestWireBytes" "DecodeSessionRequest w = Some sample_request"
    "sr_flags sample_request AND kSessionFlagTcpControl \<noteq> 0"
proof -
  from sample_session_wires obtain w where w: "DecodeSessionRequest w = Some sample_request" by blast
  moreover have "sr_flags sample_request AND kSessionFlagTcpControl \<noteq> 0"
    by (simp add: sample_request_def kSessionFlagTcpControl_def)
  ultimately show thesis
    using that by (auto simp: DecodeSessionRequest_def split: if_splits)
qed

text \<open>A session of the sample server with a client that asks for TCP control and closes.\<close>

lemma sample_session_runs:
  obtains w rc s' where "DecodeSessionRequest (take kSessionRequestWireBytes w) = Some sample_request"
    "ServeOneClient [] rn_lib (sample_config allow) (sample_server w []) = Some (rc, s')"
proof -
  obtain w where w: "length w = kSessionRequestWireBytes" "DecodeSessionRequest w = Some sample_request"
    "sr_flags sample_request AND kSessionFlagTcpControl \<noteq> 0" by (rule sample_request_wire)
  then have "DecodeSessionRequest (take kSessionRequestWireBytes (rx_stream (c_rx (sv_fd (sample_server w []))))) =
      Some sample_request" by (simp add: sample_server_def)
  with w(3) rn_time.ServeOneClient_tcp [of "sample_server w []" "[]" "sample_config allow"] that [of w] w(1,2)
  show thesis by auto
qed

section \<open>Properties\<close>

text \<open>Property C34. Sessions over TCP.  When the client has sent valid commands and closed its side, the server
  sends its session response and then exactly one completion per command, in the order of the
  commands and under their identifiers, and returns 0; the completions and the final state are those
  of serving the commands one after the other.  This needs only that sleeping advances the clock.\<close>

theorem server_tcp_session:
  assumes "steady_clock lib" "ss_tcp ss" "list_all command_ok cs"
    "rx_stream (c_rx (sv_fd s)) = command_wires cs" "rx_clean (c_rx (sv_fd s))" "tx_clean (sv_fd s)"
    "EncodeSessionResponse (session_response (sv_verbs s) (sv_storage s) (sc_allow_writes cfg)) = Some w"
  shows "\<exists>ps s'. run_session eno lib cfg ss s = Some (0, s') \<and>
      serve_all lib cfg (ss_max_transfer ss) cs s = Some (ps, s'\<lparr>sv_fd := sv_fd s\<rparr>) \<and>
      c_sent (sv_fd s') = c_sent (sv_fd s) @ w @ completion_wires ps \<and>
      map cpl_request_id ps = map cmd_request_id cs"
proof -
  obtain c where c: "ControlWriteAll eno (sv_fd s) w = (None, c)" "tx_clean c"
    "c_sent c = c_sent (sv_fd s) @ w" "c_rx c = c_rx (sv_fd s)" using cw.write_clean [OF assms(6)] .
  from steady_clock.serve_loop_answers [OF assms(1-3), of "s\<lparr>sv_fd := c\<rparr>" eno cfg] c assms(4,5) obtain ps s' where
    s': "serve_loop eno lib cfg ss (s\<lparr>sv_fd := c\<rparr>) = Some (0, s')"
    "serve_all lib cfg (ss_max_transfer ss) cs (s\<lparr>sv_fd := c\<rparr>) = Some (ps, s'\<lparr>sv_fd := c\<rparr>)"
    "c_sent (sv_fd s') = c_sent c @ completion_wires ps" by auto
  have all: "serve_all lib cfg (ss_max_transfer ss) cs s = Some (ps, s'\<lparr>sv_fd := sv_fd s\<rparr>)"
    using serve_all_fd [OF s'(2), of "sv_fd s"] by (cases s) simp
  then have "map cpl_request_id ps = map cmd_request_id cs" by (rule serve_all_ids)
  with all s' c assms(7) show ?thesis by (simp add: run_session_def)
qed

lemma server_tcp_session_witness:
  "\<exists>ps s'. run_session [] rn_lib (sample_config True) sample_session
       (sample_server (command_wires [store_command 2 4 8192]) []) = Some (0, s') \<and>
     map cpl_request_id ps = [2] \<and> (\<exists>w. c_sent (sv_fd s') = w @ completion_wires ps)"
proof -
  let ?s = "sample_server (command_wires [store_command 2 4 8192]) []"
  obtain w where w: "EncodeSessionResponse (session_response (sv_verbs ?s) (sv_storage ?s)
      (sc_allow_writes (sample_config True))) = Some w"
    using sample_response_encodes by blast
  have s: "rx_stream (c_rx (sv_fd ?s)) = command_wires [store_command 2 4 8192]"
    "rx_clean (c_rx (sv_fd ?s))" "tx_clean (sv_fd ?s)" "c_sent (sv_fd ?s) = []"
    by (simp_all add: sample_server_def tx_clean_def)
  have "list_all command_ok [store_command 2 4 8192]" "ss_tcp sample_session"
    by (simp_all add: sample_session_def store_command_def command_ok_def required_access_def kWrite_def kRead_def
        kMemoryRemoteRead_def)
  from server_tcp_session [OF rn_time.steady_clock_axioms this(2,1) s(1-3) w, of "[]"] obtain ps s' where
    r: "run_session [] rn_lib (sample_config True) sample_session ?s = Some (0, s')"
    "c_sent (sv_fd s') = c_sent (sv_fd ?s) @ w @ completion_wires ps"
    "map cpl_request_id ps = map cmd_request_id [store_command 2 4 8192]" by blast
  have "map cpl_request_id ps = [2]" using r(3) by (simp add: store_command_def)
  moreover have "c_sent (sv_fd s') = w @ completion_wires ps" using r(2) s(4) by simp
  ultimately show ?thesis using r(1) by (intro exI [of _ ps] exI [of _ s'] conjI exI [of _ w])
qed

text \<open>The server adds no loop of its own: on the TCP control path it returns for every client whose
  stream ends, that is, which closes its side or whose connection fails, whatever it has sent and
  however the adapter behaves.  The accepted socket has no receive timeout; a client that stays
  connected and silent blocks the real server, and is not among the scripts of \<open>Posix_Socket\<close>.\<close>

theorem server_tcp_returns:
  assumes "steady_clock lib"
    "\<And>rq. DecodeSessionRequest (take kSessionRequestWireBytes (rx_stream (c_rx (sv_fd s)))) = Some rq \<Longrightarrow>
       sr_flags rq AND kSessionFlagTcpControl \<noteq> 0"
  shows "\<exists>rc s'. ServeOneClient eno lib cfg s = Some (rc, s')"
  using steady_clock.ServeOneClient_tcp [OF assms] by (metis surj_pair)

lemma server_tcp_returns_witness:
  "\<exists>w rc s'. DecodeSessionRequest (take kSessionRequestWireBytes w) = Some sample_request \<and>
     ServeOneClient [] rn_lib (sample_config True) (sample_server w []) = Some (rc, s')"
proof -
  obtain w where w: "length w = kSessionRequestWireBytes" "DecodeSessionRequest w = Some sample_request"
    "sr_flags sample_request AND kSessionFlagTcpControl \<noteq> 0" by (rule sample_request_wire)
  have "\<exists>rc s'. ServeOneClient [] rn_lib (sample_config True) (sample_server w []) = Some (rc, s')"
    using w by (intro server_tcp_returns [OF rn_time.steady_clock_axioms]) (simp add: sample_server_def)
  with w show ?thesis by (intro exI [of _ w]) simp
qed

text \<open>Property C33. No object of the verbs library outlives a session.  On every path of the session, over
  either control path, the protection domains, queues and regions alive when the function returns are
  those that were alive before: the regions go before the queue pair, so no destruction is refused.\<close>

theorem server_releases_objects:
  assumes "verbs_library lib live" "ServeOneClient eno lib cfg s = Some (rc, s')"
  shows "live (sv_machine s') = live (sv_machine s)"
  using ServeOneClient_cases [OF assms(2)]
proof (elim exE disjE)
  fix es rq assume "serve_request_on eno lib cfg rq (s\<lparr>sv_fd := (sv_fd s)\<lparr>c_rx := es\<rparr>\<rparr>) = Some (rc, s')"
  from verbs_library.serve_request_on_live [OF assms(1) this] show ?thesis by simp
qed simp

lemma server_releases_objects_witness:
  "\<exists>w rc s'. ServeOneClient [] rn_lib (sample_config True) (sample_server w []) = Some (rc, s') \<and>
     DecodeSessionRequest (take kSessionRequestWireBytes w) = Some sample_request \<and>
     rn_objs (sv_machine s') = []"
proof -
  obtain w rc s' where w: "DecodeSessionRequest (take kSessionRequestWireBytes w) = Some sample_request"
    "ServeOneClient [] rn_lib (sample_config True) (sample_server w []) = Some (rc, s')"
    by (rule sample_session_runs)
  have "set (rn_objs (sv_machine (sample_server w []))) = {}"
    by (simp add: sample_server_def sample_adapter_def)
  with server_releases_objects [OF rn_objects.verbs_library_axioms w(2)] w show ?thesis by auto
qed

text \<open>Which commands the server accepts, in terms of the namespace's contents: no wrap-around of the
  offset hides a range that leaves it.\<close>

lemma request_in_range_iff:
  assumes "storage_good st"
  shows "request_in_range mx st cmd \<longleftrightarrow> cmd_object_id cmd = 0 \<and> unat (cmd_length cmd) \<le> unat mx \<and>
    unat (cmd_storage_offset cmd) + unat (cmd_length cmd) \<le> length (storage_contents st)"
proof -
  have "unat (storage_size st) = length (storage_contents st)" by (rule namespace.size_contents [OF assms])
  then show ?thesis by (auto simp: request_in_range_def word_le_nat_alt unat_sub)
qed

lemma serve_transfer_status:
  assumes "serve_transfer lib t cmd s = Some (cpl, s')"
  shows "cpl_status cpl = kCompletionStatusSuccess \<or> cpl_status cpl = kCompletionStatusBackendError"
  using assms
  by (auto simp: serve_transfer_def completion_for_def bind_Some_iff Let_def
      split: prod.splits sum.splits if_splits)

text \<open>Property C35. Which requests are served.  A command for another object, longer than the transfer limit or
  reaching beyond the end of the namespace is answered as invalid; one inside it that writes where
  writing is not allowed as unsupported; in both cases with no bytes and no checksum, and without
  touching the namespace, the connection or the adapter.  Every other command is carried out: its
  completion reports success or a failure of the backend, never a refusal.  A session of a server
  that does not allow writes leaves the namespace as it was, whatever the client and the adapter do.\<close>

theorem server_refuses:
  assumes "storage_good (sv_storage s)"
    "fits \<longleftrightarrow> cmd_object_id cmd = 0 \<and> unat (cmd_length cmd) \<le> unat mx \<and>
       unat (cmd_storage_offset cmd) + unat (cmd_length cmd) \<le> length (storage_contents (sv_storage s))"
    "allowed \<longleftrightarrow> cmd_operation cmd \<noteq> kWrite \<or> sc_allow_writes cfg"
  shows "(\<not> fits \<longrightarrow> serve_command lib cfg mx cmd s =
      Some (\<lparr>cpl_request_id = cmd_request_id cmd, cpl_status = kCompletionStatusInvalidRequest, cpl_bytes = 0,
        cpl_checksum = 0, cpl_flags = 0\<rparr>, s)) \<and>
   (fits \<and> \<not> allowed \<longrightarrow> serve_command lib cfg mx cmd s =
      Some (\<lparr>cpl_request_id = cmd_request_id cmd, cpl_status = kCompletionStatusUnsupported, cpl_bytes = 0,
        cpl_checksum = 0, cpl_flags = 0\<rparr>, s)) \<and>
   (fits \<and> allowed \<and> serve_command lib cfg mx cmd s = Some (cpl, s1) \<longrightarrow>
      cpl_status cpl = kCompletionStatusSuccess \<or> cpl_status cpl = kCompletionStatusBackendError) \<and>
   (\<not> sc_allow_writes cfg \<and> ServeOneClient eno lib cfg s = Some (rc, s') \<longrightarrow> sv_storage s' = sv_storage s)"
proof -
  have range: "request_in_range mx (sv_storage s) cmd \<longleftrightarrow> fits"
    using request_in_range_iff [OF assms(1)] assms(2) by simp
  have served: "cpl_status cpl = kCompletionStatusSuccess \<or> cpl_status cpl = kCompletionStatusBackendError"
    if "fits" "allowed" "serve_command lib cfg mx cmd s = Some (cpl, s1)"
    using that range assms(3) serve_transfer_status [of lib "sc_timeout_ms cfg" cmd s cpl s1]
    by (auto simp: serve_command_def)
  show ?thesis
    using range assms(3) served ServeOneClient_read_only [of cfg eno lib s rc s']
    by (auto simp: serve_command_def completion_for_def)
qed

lemma server_refuses_witness:
  "storage_good (sv_storage (sample_server [] [])) \<and>
   serve_command rn_lib (sample_config True) 8 (store_command 1 7 4096) (sample_server [] []) =
     Some (\<lparr>cpl_request_id = 1, cpl_status = kCompletionStatusInvalidRequest, cpl_bytes = 0,
        cpl_checksum = 0, cpl_flags = 0\<rparr>, sample_server [] [])"
proof -
  let ?s = "sample_server [] []" and ?c = "store_command 1 7 4096"
  have "storage_good (sv_storage ?s)" by (simp add: sample_server_def storage_good_def)
  moreover have "\<not> (cmd_object_id ?c = 0 \<and> unat (cmd_length ?c) \<le> unat (8 :: u64) \<and>
      unat (cmd_storage_offset ?c) + unat (cmd_length ?c) \<le> length (storage_contents (sv_storage ?s)))"
    "cmd_request_id ?c = 1"
    by (simp_all add: sample_server_def storage_contents_def store_command_def)
  ultimately show ?thesis
    using server_refuses [OF _ refl refl, where s = ?s and cmd = ?c and mx = 8 and cfg = "sample_config True" and lib = rn_lib] by simp
qed



text \<open>A run that shows a defect.  After a timeout the next request can succeed without being done.  The work request of a
  transfer that timed out stays on the queue pair, work requests carry no identifier, and the next
  transfer takes the old one's completion for its own: here the second store command is reported as
  successful, but the namespace has the zeros of its untouched staging buffer instead of the NPU's
  bytes.\<close>

theorem late_completion_misread:
  "\<exists>ps s'. serve_all rn_lib (sample_config True) 8 [store_command 1 0 4096, store_command 2 4 8192]
        (sample_server [] [1]) = Some (ps, s') \<and>
     map cpl_status ps = [kCompletionStatusBackendError, kCompletionStatusSuccess] \<and>
     bslice 4 2 (storage_contents (sv_storage s')) = [0, 0] \<and>
     mem_load (rn_npu (sv_machine s')) 8192 2 = [9, 9]"
  by (simp add: run_defs bslice_def)

end
