(* ===== verification/Cann_Loader.thy ===== *)
theory Cann_Loader
  imports Flume_Prelude "HOL-Library.Multiset"
begin

text \<open>
  The loader of the vendor's RA library (\<open>src/roce_storage/cann_ra_loader.h\<close>, \<open>cann_ra_loader.cc\<close>):
  which libraries are opened, which of the alternative symbol names each function pointer takes, and
  the profiles derived from that.

  The environment, \<open>dlopen\<close>, \<open>dlsym\<close> and \<open>dlclose\<close> are the parameter \<open>dynlib\<close> over a state \<open>'v\<close> of the
  process; a library handle is a number.  The 22 function pointers of \<open>CannRaApi\<close> are one map from the
  field (\<open>ra_fn\<close>) to the name of the symbol it was loaded from, \<open>None\<close> being the null pointer; calls
  through them are in \<open>Host_Ra\<close>.  All callers pass an error string, whose value at the call is the
  argument \<open>err\<close> (it matters once, where the code tests whether it is empty).
\<close>

section \<open>Dynamic libraries\<close>

record 'v dynlib =
  dl_getenv :: "string \<Rightarrow> string option"
  dl_open :: "string \<Rightarrow> 'v \<Rightarrow> (string option + nat) \<times> 'v"
  dl_sym :: "nat \<Rightarrow> string \<Rightarrow> bool"
  dl_close :: "nat \<Rightarrow> 'v \<Rightarrow> 'v"

datatype ra_fn = Ra_init | Ra_deinit | Ra_rdev_init_v2 | Ra_rdev_init_legacy | Ra_rdev_deinit
  | Ra_typical_qp_create | Ra_typical_qp_modify | Ra_qp_destroy | Ra_register_mr | Ra_deregister_mr
  | Ra_typical_send_wr | Ra_poll_cq | Rt_set_device | Rt_open_net_service | Rt_close_net_service
  | Rt_rdma_db_send | Tsd_open | Tsd_close | Acl_get_physical_device | Acl_malloc | Acl_free | Acl_memcpy

datatype CannRaSymbolProfile = SymUnavailable | SymModern | SymLegacyLowercase | SymMixed
datatype CannRaRdevInitProfile = RdevUnavailable | RdevV2 | RdevLegacy
datatype CannRaNetworkBootstrapProfile = NetUnavailable | NetExplicitRuntime | NetLegacyTsd

record CannRaApi =
  api_fns :: "ra_fn \<Rightarrow> string option"
  api_ra_library :: "nat option"
  api_runtime_library :: "nat option"
  api_acl_library :: "nat option"
  api_tsd_library :: "nat option"
  api_symbol_profile :: CannRaSymbolProfile
  api_rdev_init_profile :: CannRaRdevInitProfile
  api_network_profile :: CannRaNetworkBootstrapProfile
  api_available :: bool
  api_command_posting :: bool

definition closed_api :: CannRaApi where
  "closed_api = \<lparr>api_fns = (\<lambda>f. None), api_ra_library = None, api_runtime_library = None,
     api_acl_library = None, api_tsd_library = None, api_symbol_profile = SymUnavailable,
     api_rdev_init_profile = RdevUnavailable, api_network_profile = NetUnavailable,
     api_available = False, api_command_posting = False\<rparr>"

section \<open>The loader\<close>

text \<open>A variable that is set and not empty overrides the library's name.\<close>

definition configured :: "('v, 'z) dynlib_scheme \<Rightarrow> string \<Rightarrow> string option" where
  "configured dl env_name = (case dl_getenv dl env_name of None \<Rightarrow> None
     | Some x \<Rightarrow> if x = [] then None else Some x)"

definition LibraryName :: "('v, 'z) dynlib_scheme \<Rightarrow> string \<Rightarrow> string \<Rightarrow> string" where
  "LibraryName dl env_name fallback =
    (case configured dl env_name of None \<Rightarrow> fallback | Some value \<Rightarrow> value)"

definition load_failure :: "string \<Rightarrow> string option \<Rightarrow> string" where
  "load_failure path detail = ''failed to load '' @ path @
     (case detail of None \<Rightarrow> [] | Some d \<Rightarrow> '': '' @ d)"

definition OpenLibrary :: "('v, 'z) dynlib_scheme \<Rightarrow> string \<Rightarrow> string \<Rightarrow> 'v \<Rightarrow> (string + nat) \<times> 'v" where
  "OpenLibrary dl env_name fallback v =
    (let path = LibraryName dl env_name fallback in
     case dl_open dl path v of
       (Inl detail, v) \<Rightarrow> (Inl (load_failure path detail), v)
     | (Inr h, v) \<Rightarrow> (Inr h, v))"

text \<open>The optional library leaves the error text as it is when it was not configured.\<close>

definition OpenOptionalLibrary :: "('v, 'z) dynlib_scheme \<Rightarrow> string \<Rightarrow> string \<Rightarrow> string \<Rightarrow> 'v \<Rightarrow> (string + nat) \<times> 'v" where
  "OpenOptionalLibrary dl env_name fallback err v =
    (let path = LibraryName dl env_name fallback in
     case dl_open dl path v of
       (Inl detail, v) \<Rightarrow> (Inl (if configured dl env_name = None then err else load_failure path detail), v)
     | (Inr h, v) \<Rightarrow> (Inr h, v))"

text \<open>The first exported name, with whether it is the first of the list (the modern spelling).\<close>

fun load_from :: "('v, 'z) dynlib_scheme \<Rightarrow> nat \<Rightarrow> bool \<Rightarrow> string list \<Rightarrow> (string \<times> bool) option" where
  "load_from dl lib modern [] = None"
| "load_from dl lib modern (name # names) =
    (if dl_sym dl lib name then Some (name, modern) else load_from dl lib False names)"

definition LoadSymbolAny :: "('v, 'z) dynlib_scheme \<Rightarrow> nat \<Rightarrow> string list \<Rightarrow> (string \<times> bool) option" where
  "LoadSymbolAny dl lib names = load_from dl lib True names"

definition missing_symbol :: "string list \<Rightarrow> string" where
  "missing_symbol names = ''missing CANN symbol '' @ sep_concat ''/'' names"

text \<open>The functions loaded so far and which spellings they had.\<close>

record loading =
  ld_fns :: "ra_fn \<Rightarrow> string option"
  ld_modern :: bool
  ld_legacy :: bool

definition UpdateProfile :: "bool \<Rightarrow> loading \<Rightarrow> loading" where
  "UpdateProfile is_modern l = (if is_modern then l\<lparr>ld_modern := True\<rparr> else l\<lparr>ld_legacy := True\<rparr>)"

definition bind_fn :: "ra_fn \<Rightarrow> string \<Rightarrow> loading \<Rightarrow> loading" where
  "bind_fn f name l = l\<lparr>ld_fns := (ld_fns l)(f := Some name)\<rparr>"

text \<open>\<open>FLUME_LOAD_RA\<close> on a list of fields with their names (also the load of the send function), and
  \<open>FLUME_LOAD\<close>, which leaves the profile alone.\<close>

fun load_ra :: "('v, 'z) dynlib_scheme \<Rightarrow> nat \<Rightarrow> (ra_fn \<times> string list) list \<Rightarrow> loading \<Rightarrow> string + loading" where
  "load_ra dl lib [] l = Inr l"
| "load_ra dl lib ((f, names) # fs) l =
    (case LoadSymbolAny dl lib names of
       None \<Rightarrow> Inl (missing_symbol names)
     | Some (name, is_modern) \<Rightarrow> load_ra dl lib fs (UpdateProfile is_modern (bind_fn f name l)))"

fun load_plain :: "('v, 'z) dynlib_scheme \<Rightarrow> nat \<Rightarrow> (ra_fn \<times> string) list \<Rightarrow> loading \<Rightarrow> string + loading" where
  "load_plain dl lib [] l = Inr l"
| "load_plain dl lib ((f, name) # fs) l =
    (if dl_sym dl lib name then load_plain dl lib fs (bind_fn f name l)
     else Inl (missing_symbol [name]))"

definition load_optional :: "('v, 'z) dynlib_scheme \<Rightarrow> nat \<Rightarrow> ra_fn \<Rightarrow> string \<Rightarrow> loading \<Rightarrow> loading" where
  "load_optional dl lib f name l = (if dl_sym dl lib name then bind_fn f name l else l)"

definition ra_first :: "(ra_fn \<times> string list) list" where
  "ra_first = [(Ra_init, [''RaInit'', ''ra_init'']), (Ra_deinit, [''RaDeinit'', ''ra_deinit''])]"

definition ra_rest :: "(ra_fn \<times> string list) list" where
  "ra_rest = [(Ra_rdev_deinit, [''RaRdevDeinit'', ''ra_rdev_deinit'']),
     (Ra_typical_qp_create, [''RaTypicalQpCreate'', ''ra_typical_qp_create'']),
     (Ra_typical_qp_modify, [''RaTypicalQpModify'', ''ra_typical_qp_modify'']),
     (Ra_qp_destroy, [''RaQpDestroy'', ''ra_qp_destroy'']),
     (Ra_register_mr, [''RaRegisterMr'', ''ra_register_mr'']),
     (Ra_deregister_mr, [''RaDeregisterMr'', ''ra_deregister_mr''])]"

definition ra_posting :: "(ra_fn \<times> string list) list" where
  "ra_posting = [(Ra_typical_send_wr, [''RaTypicalSendWr'', ''ra_typical_send_wr'', ''ra_send_wr'']),
     (Ra_poll_cq, [''RaPollCq'', ''ra_poll_cq''])]"

definition acl_posting :: "(ra_fn \<times> string) list" where
  "acl_posting = [(Acl_malloc, ''aclrtMalloc''), (Acl_free, ''aclrtFree''), (Acl_memcpy, ''aclrtMemcpy'')]"

definition load_rdev_init :: "('v, 'z) dynlib_scheme \<Rightarrow> nat \<Rightarrow> loading \<Rightarrow> string + (CannRaRdevInitProfile \<times> loading)" where
  "load_rdev_init dl lib l =
    (case LoadSymbolAny dl lib [''RaRdevInitV2'', ''ra_rdev_init_v2''] of
       Some (name, is_modern) \<Rightarrow> Inr (RdevV2, UpdateProfile is_modern (bind_fn Ra_rdev_init_v2 name l))
     | None \<Rightarrow>
        (case LoadSymbolAny dl lib [''RaRdevInit'', ''ra_rdev_init''] of
           Some (name, is_modern) \<Rightarrow>
             Inr (RdevLegacy, UpdateProfile is_modern (bind_fn Ra_rdev_init_legacy name l))
         | None \<Rightarrow> Inl (missing_symbol [''RaRdevInit'', ''ra_rdev_init''])))"

text \<open>The network bootstrap: the runtime's service, or the legacy library when the runtime has none.
  The result is the profile, the legacy library's handle and the functions; a failure carries the
  handle of a library already opened.\<close>

definition load_network ::
  "('v, 'z) dynlib_scheme \<Rightarrow> nat \<Rightarrow> string \<Rightarrow> loading \<Rightarrow> 'v \<Rightarrow>
   (string \<times> nat option + CannRaNetworkBootstrapProfile \<times> nat option \<times> loading) \<times> 'v" where
  "load_network dl runtime err l v =
    (let have_open = dl_sym dl runtime ''rtOpenNetService'';
         have_close = dl_sym dl runtime ''rtCloseNetService'';
         l = load_optional dl runtime Rt_open_net_service ''rtOpenNetService'' l;
         l = load_optional dl runtime Rt_close_net_service ''rtCloseNetService'' l
     in if have_open \<noteq> have_close then
          (Inl (''incomplete CANN NetService API: rtOpenNetService and rtCloseNetService must be exported together'',
             None), v)
        else if have_open then (Inr (NetExplicitRuntime, None, l), v)
        else
          let describe = (\<lambda>e. if e = [] then
                ''CANN runtime has no NetService API and legacy libtsdclient.so is unavailable'' else e)
          in case OpenOptionalLibrary dl ''FLUME_CANN_TSD_LIBRARY'' ''libtsdclient.so'' err v of
               (Inl e, v) \<Rightarrow> (Inl (describe e, None), v)
             | (Inr tsd, v) \<Rightarrow>
                (case load_plain dl tsd [(Tsd_open, ''TsdOpen''), (Tsd_close, ''TsdClose'')] l of
                   Inl e \<Rightarrow> (Inl (describe e, Some tsd), v)
                 | Inr l \<Rightarrow> (Inr (NetLegacyTsd, Some tsd, l), v)))"

definition load_posting :: "('v, 'z) dynlib_scheme \<Rightarrow> nat \<Rightarrow> nat \<Rightarrow> nat \<Rightarrow> loading \<Rightarrow> string + loading" where
  "load_posting dl ra runtime acl l =
    (case load_ra dl ra ra_posting l of
       Inl e \<Rightarrow> Inl e
     | Inr l \<Rightarrow>
        (case load_plain dl runtime [(Rt_rdma_db_send, ''rtRDMADBSend'')] l of
           Inl e \<Rightarrow> Inl e
         | Inr l \<Rightarrow> load_plain dl acl acl_posting l))"

definition close_handle :: "('v, 'z) dynlib_scheme \<Rightarrow> nat option \<Rightarrow> 'v \<Rightarrow> 'v" where
  "close_handle dl h v = (case h of None \<Rightarrow> v | Some x \<Rightarrow> dl_close dl x v)"

definition LoaderClose :: "('v, 'z) dynlib_scheme \<Rightarrow> CannRaApi \<Rightarrow> 'v \<Rightarrow> CannRaApi \<times> 'v" where
  "LoaderClose dl api v =
    (let v = close_handle dl (api_tsd_library api) v;
         v = close_handle dl (api_acl_library api) v;
         v = close_handle dl (api_runtime_library api) v;
         v = close_handle dl (api_ra_library api) v
     in (closed_api, v))"

definition symbol_profile :: "loading \<Rightarrow> CannRaSymbolProfile" where
  "symbol_profile l = (if ld_modern l \<and> ld_legacy l then SymMixed
     else if ld_legacy l then SymLegacyLowercase else SymModern)"

text \<open>The symbols that every session needs.\<close>

definition load_required ::
  "('v, 'z) dynlib_scheme \<Rightarrow> nat \<Rightarrow> nat \<Rightarrow> string + (CannRaRdevInitProfile \<times> loading)" where
  "load_required dl ra runtime =
    (case load_ra dl ra ra_first \<lparr>ld_fns = (\<lambda>f. None), ld_modern = False, ld_legacy = False\<rparr> of
       Inl e \<Rightarrow> Inl e
     | Inr l \<Rightarrow>
     case load_rdev_init dl ra l of
       Inl e \<Rightarrow> Inl e
     | Inr (rdev, l) \<Rightarrow>
     case load_ra dl ra ra_rest l of
       Inl e \<Rightarrow> Inl e
     | Inr l \<Rightarrow>
     case load_plain dl runtime [(Rt_set_device, ''rtSetDevice'')] l of
       Inl e \<Rightarrow> Inl e
     | Inr l \<Rightarrow> Inr (rdev, l))"

text \<open>All symbols, once the three libraries are open; a failure carries the legacy library's handle.\<close>

definition load_symbols ::
  "('v, 'z) dynlib_scheme \<Rightarrow> bool \<Rightarrow> string \<Rightarrow> nat \<Rightarrow> nat \<Rightarrow> nat \<Rightarrow> 'v \<Rightarrow>
   (string \<times> nat option + CannRaApi) \<times> 'v" where
  "load_symbols dl require_posting err ra runtime acl v =
    (case load_required dl ra runtime of
       Inl e \<Rightarrow> (Inl (e, None), v)
     | Inr (rdev, l) \<Rightarrow>
     case load_network dl runtime err l v of
       (Inl e, v) \<Rightarrow> (Inl e, v)
     | (Inr (net, tsd, l), v) \<Rightarrow>
     let l = load_optional dl acl Acl_get_physical_device ''aclrtGetPhyDevIdByLogicDevId'' l in
     case (if require_posting then load_posting dl ra runtime acl l else Inr l) of
       Inl e \<Rightarrow> (Inl (e, tsd), v)
     | Inr l \<Rightarrow>
        (Inr \<lparr>api_fns = ld_fns l, api_ra_library = Some ra, api_runtime_library = Some runtime,
             api_acl_library = Some acl, api_tsd_library = tsd, api_symbol_profile = symbol_profile l,
             api_rdev_init_profile = rdev, api_network_profile = net, api_available = True,
             api_command_posting = require_posting\<rparr>, v))"

definition LoaderOpen ::
  "('v, 'z) dynlib_scheme \<Rightarrow> bool \<Rightarrow> string \<Rightarrow> CannRaApi \<Rightarrow> 'v \<Rightarrow> string option \<times> CannRaApi \<times> 'v" where
  "LoaderOpen dl require_posting err api0 v0 =
    (case LoaderClose dl api0 v0 of (api, v) \<Rightarrow>
     case OpenLibrary dl ''FLUME_CANN_RA_LIBRARY'' ''libra.so'' v of
       (Inl e, v) \<Rightarrow> (Some e, api, v)
     | (Inr ra, v) \<Rightarrow>
     case OpenLibrary dl ''FLUME_CANN_RUNTIME_LIBRARY'' ''libruntime.so'' v of
       (Inl e, v) \<Rightarrow> (Some e, LoaderClose dl (api\<lparr>api_ra_library := Some ra\<rparr>) v)
     | (Inr runtime, v) \<Rightarrow>
     case OpenLibrary dl ''FLUME_CANN_ACL_LIBRARY'' ''libascendcl.so'' v of
       (Inl e, v) \<Rightarrow> (Some e, LoaderClose dl (api\<lparr>api_ra_library := Some ra, api_runtime_library := Some runtime\<rparr>) v)
     | (Inr acl, v) \<Rightarrow>
     case load_symbols dl require_posting err ra runtime acl v of
       (Inl (e, tsd), v) \<Rightarrow>
         (Some e, LoaderClose dl (api\<lparr>api_ra_library := Some ra, api_runtime_library := Some runtime,
            api_acl_library := Some acl, api_tsd_library := tsd\<rparr>) v)
     | (Inr api, v) \<Rightarrow> (None, api, v))"

definition symbol_profile_name :: "CannRaApi \<Rightarrow> string" where
  "symbol_profile_name api = (case api_symbol_profile api of SymModern \<Rightarrow> ''modern-camelcase''
     | SymLegacyLowercase \<Rightarrow> ''legacy-lowercase'' | SymMixed \<Rightarrow> ''mixed'' | SymUnavailable \<Rightarrow> ''unavailable'')"

definition rdev_init_profile_name :: "CannRaApi \<Rightarrow> string" where
  "rdev_init_profile_name api = (case api_rdev_init_profile api of RdevV2 \<Rightarrow> ''rdev-init-v2''
     | RdevLegacy \<Rightarrow> ''rdev-init-legacy'' | RdevUnavailable \<Rightarrow> ''unavailable'')"

definition network_bootstrap_profile_name :: "CannRaApi \<Rightarrow> string" where
  "network_bootstrap_profile_name api = (case api_network_profile api of NetExplicitRuntime \<Rightarrow> ''explicit-runtime''
     | NetLegacyTsd \<Rightarrow> ''legacy-tsd'' | NetUnavailable \<Rightarrow> ''unavailable'')"

section \<open>Every library opened is closed\<close>

text \<open>What the dynamic linker promises: each successful \<open>dlopen\<close> adds a reference to the handle, each
  \<open>dlclose\<close> drops one.\<close>

definition handle_mset :: "nat option \<Rightarrow> nat multiset" where
  "handle_mset h = (case h of None \<Rightarrow> {#} | Some x \<Rightarrow> {#x#})"

definition api_handles :: "CannRaApi \<Rightarrow> nat multiset" where
  "api_handles api = handle_mset (api_ra_library api) + handle_mset (api_runtime_library api) +
     handle_mset (api_acl_library api) + handle_mset (api_tsd_library api)"

locale dl_library =
  fixes dl :: "('v, 'z) dynlib_scheme" and opened :: "'v \<Rightarrow> nat multiset"
  assumes open_fail: "dl_open dl path v = (Inl e, v') \<Longrightarrow> opened v' = opened v"
    and open_ok: "dl_open dl path v = (Inr h, v') \<Longrightarrow> opened v' = add_mset h (opened v)"
    and close_drops: "opened (dl_close dl h v) = opened v - {#h#}"
begin

lemma OpenLibrary_opened:
  "OpenLibrary dl env fb v = (Inl e, v') \<Longrightarrow> opened v' = opened v"
  "OpenLibrary dl env fb v = (Inr h, v') \<Longrightarrow> opened v' = add_mset h (opened v)"
  by (auto simp: OpenLibrary_def Let_def open_fail open_ok split: prod.splits sum.splits)

lemma OpenOptionalLibrary_opened:
  "OpenOptionalLibrary dl env fb err v = (Inl e, v') \<Longrightarrow> opened v' = opened v"
  "OpenOptionalLibrary dl env fb err v = (Inr h, v') \<Longrightarrow> opened v' = add_mset h (opened v)"
  by (auto simp: OpenOptionalLibrary_def Let_def open_fail open_ok split: prod.splits sum.splits)

lemma close_handle_opened: "opened (close_handle dl h v) = opened v - handle_mset h"
  by (simp add: close_handle_def handle_mset_def close_drops split: option.splits)

lemma LoaderClose_opened: "opened (snd (LoaderClose dl api v)) = opened v - api_handles api"
  by (simp add: LoaderClose_def close_handle_opened api_handles_def ac_simps)

lemma load_network_opened:
  assumes "load_network dl rt err l v = (r, v')"
  shows "\<exists>tsd. opened v' = opened v + handle_mset tsd \<and>
    ((\<exists>e. r = Inl (e, tsd)) \<or> (\<exists>net l'. r = Inr (net, tsd, l')))"
proof (cases "dl_sym dl rt ''rtOpenNetService'' \<or> dl_sym dl rt ''rtCloseNetService''")
  case True
  then have "opened v' = opened v + handle_mset None \<and>
      ((\<exists>e. r = Inl (e, None)) \<or> (\<exists>net l'. r = Inr (net, None, l')))"
    using assms by (auto simp: load_network_def Let_def handle_mset_def split: if_splits)
  then show ?thesis by blast
next
  case False
  obtain q w where q: "OpenOptionalLibrary dl ''FLUME_CANN_TSD_LIBRARY'' ''libtsdclient.so'' err v = (q, w)"
    by fastforce
  show ?thesis
  proof (cases q)
    case (Inl e)
    with q False assms OpenOptionalLibrary_opened(1) show ?thesis
      by (intro exI [of _ None]) (auto simp: load_network_def handle_mset_def)
  next
    case (Inr h)
    have "opened w = opened v + handle_mset (Some h)"
      using OpenOptionalLibrary_opened(2) q Inr by (simp add: handle_mset_def)
    moreover have "w = v'" "(\<exists>e. r = Inl (e, Some h)) \<or> (\<exists>net l'. r = Inr (net, Some h, l'))"
      using Inr q False assms by (auto simp: load_network_def split: sum.splits if_splits)
    ultimately show ?thesis by blast
  qed
qed

lemma load_symbols_opened:
  assumes run: "load_symbols dl req err ra rt acl v = (r, v')"
  shows "\<exists>tsd. opened v' = opened v + handle_mset tsd \<and>
    ((\<exists>e. r = Inl (e, tsd)) \<or>
     (\<exists>api. r = Inr api \<and> api_handles api = {#ra, rt, acl#} + handle_mset tsd))"
proof (cases "load_required dl ra rt")
  case (Inl e)
  with run show ?thesis by (intro exI [of _ None]) (auto simp: load_symbols_def handle_mset_def)
next
  case (Inr p)
  obtain rdev l where p: "p = (rdev, l)" by fastforce
  obtain q w where q: "load_network dl rt err l v = (q, w)" by fastforce
  from load_network_opened [OF q] obtain tsd where
    tsd: "opened w = opened v + handle_mset tsd" and
    c: "(\<exists>e. q = Inl (e, tsd)) \<or> (\<exists>net l'. q = Inr (net, tsd, l'))" by blast
  from c have "w = v' \<and> ((\<exists>e. r = Inl (e, tsd)) \<or>
      (\<exists>api. r = Inr api \<and> api_handles api = {#ra, rt, acl#} + handle_mset tsd))"
    using run Inr p q
    by (auto simp: load_symbols_def Let_def api_handles_def handle_mset_def split: sum.splits)
  with tsd show ?thesis by blast
qed

text \<open>Opening a closed loader: a failure leaves no library open, a success those of its handles.\<close>

lemma LoaderOpen_opened:
  assumes run: "LoaderOpen dl req err closed_api v = (e, api, v')"
  shows "(e \<noteq> None \<longrightarrow> api = closed_api \<and> opened v' = opened v) \<and>
    (e = None \<longrightarrow> opened v' = opened v + api_handles api)"
proof -
  have close: "LoaderClose dl closed_api v = (closed_api, v)"
    by (simp add: LoaderClose_def closed_api_def close_handle_def)
  have undo: "LoaderClose dl a w = (api, v') \<Longrightarrow> opened w = opened v + api_handles a \<Longrightarrow>
      api = closed_api \<and> opened v' = opened v" for a w
    using LoaderClose_opened [of a w] by (auto simp: LoaderClose_def)
  obtain r1 v1 where r1: "OpenLibrary dl ''FLUME_CANN_RA_LIBRARY'' ''libra.so'' v = (r1, v1)" by fastforce
  show ?thesis
  proof (cases r1)
    case (Inl x)
    with run r1 close OpenLibrary_opened(1) show ?thesis by (auto simp: LoaderOpen_def)
  next
    case ra: (Inr ra)
    have o1: "opened v1 = add_mset ra (opened v)" using OpenLibrary_opened(2) r1 ra by simp
    obtain r2 v2 where r2: "OpenLibrary dl ''FLUME_CANN_RUNTIME_LIBRARY'' ''libruntime.so'' v1 = (r2, v2)"
      by fastforce
    show ?thesis
    proof (cases r2)
      case (Inl x)
      then have "opened v2 = opened v + api_handles (closed_api\<lparr>api_ra_library := Some ra\<rparr>)"
        using OpenLibrary_opened(1) r2 o1 by (simp add: api_handles_def handle_mset_def closed_api_def)
      with run r1 ra r2 Inl close undo show ?thesis by (simp add: LoaderOpen_def) blast
    next
      case rt: (Inr rt)
      have o2: "opened v2 = add_mset rt (add_mset ra (opened v))" using OpenLibrary_opened(2) r2 rt o1 by simp
      obtain r3 v3 where r3: "OpenLibrary dl ''FLUME_CANN_ACL_LIBRARY'' ''libascendcl.so'' v2 = (r3, v3)"
        by fastforce
      show ?thesis
      proof (cases r3)
        case (Inl x)
        then have "opened v3 = opened v +
            api_handles (closed_api\<lparr>api_ra_library := Some ra, api_runtime_library := Some rt\<rparr>)"
          using OpenLibrary_opened(1) r3 o2 by (simp add: api_handles_def handle_mset_def closed_api_def)
        with run r1 ra r2 rt r3 Inl close undo show ?thesis by (simp add: LoaderOpen_def) blast
      next
        case acl: (Inr acl)
        have o3: "opened v3 = opened v + {#ra, rt, acl#}" using OpenLibrary_opened(2) r3 acl o2 by simp
        obtain r4 v4 where r4: "load_symbols dl req err ra rt acl v3 = (r4, v4)" by fastforce
        from load_symbols_opened [OF r4] obtain tsd where
          o4: "opened v4 = opened v + {#ra, rt, acl#} + handle_mset tsd" and
          c: "(\<exists>e. r4 = Inl (e, tsd)) \<or>
            (\<exists>api. r4 = Inr api \<and> api_handles api = {#ra, rt, acl#} + handle_mset tsd)"
          using o3 by auto
        have h: "opened v4 = opened v + api_handles (closed_api\<lparr>api_ra_library := Some ra,
            api_runtime_library := Some rt, api_acl_library := Some acl, api_tsd_library := tsd\<rparr>)"
          using o4 by (simp add: api_handles_def handle_mset_def closed_api_def)
        from c show ?thesis
        proof (elim disjE exE conjE)
          fix x assume "r4 = Inl (x, tsd)"
          with run r1 ra r2 rt r3 acl r4 close undo [OF _ h] show ?thesis
            by (simp add: LoaderOpen_def) blast
        next
          fix a assume "r4 = Inr a" "api_handles a = {#ra, rt, acl#} + handle_mset tsd"
          with run r1 ra r2 rt r3 acl r4 close o4 show ?thesis by (simp add: LoaderOpen_def)
        qed
      qed
    qed
  qed
qed

end

section \<open>What a successful load provides\<close>

lemma load_from_SomeD:
  "load_from dl lib m names = Some (name, b) \<Longrightarrow> name \<in> set names \<and> dl_sym dl lib name \<and>
     b = (m \<and> dl_sym dl lib (hd names))"
  by (induction names arbitrary: m) (auto split: if_splits)

lemma LoadSymbolAny_SomeD:
  "LoadSymbolAny dl lib names = Some (name, b) \<Longrightarrow> name \<in> set names \<and> dl_sym dl lib name \<and>
     b = dl_sym dl lib (hd names)"
  unfolding LoadSymbolAny_def by (drule load_from_SomeD) simp

lemma UpdateProfile_sel [simp]:
  "ld_fns (UpdateProfile b l) = ld_fns l" "ld_modern (UpdateProfile b l) = (b \<or> ld_modern l)"
  "ld_legacy (UpdateProfile b l) = (\<not> b \<or> ld_legacy l)"
  by (simp_all add: UpdateProfile_def)

lemma bind_fn_sel [simp]:
  "ld_fns (bind_fn f name l) = (ld_fns l)(f \<mapsto> name)" "ld_modern (bind_fn f name l) = ld_modern l"
  "ld_legacy (bind_fn f name l) = ld_legacy l"
  by (simp_all add: bind_fn_def)

text \<open>A loaded group is bound, and the profile records whether each symbol had its modern spelling.\<close>

lemma load_ra_SomeD:
  "load_ra dl lib fs l = Inr l' \<Longrightarrow>
   dom (ld_fns l') = dom (ld_fns l) \<union> fst ` set fs \<and>
   ld_modern l' = (ld_modern l \<or> (\<exists>g\<in>set fs. dl_sym dl lib (hd (snd g)))) \<and>
   ld_legacy l' = (ld_legacy l \<or> (\<exists>g\<in>set fs. \<not> dl_sym dl lib (hd (snd g))))"
proof (induction dl lib fs l rule: load_ra.induct)
  case (2 dl lib f names fs l)
  then obtain name b where nb: "LoadSymbolAny dl lib names = Some (name, b)"
    by (auto split: option.splits)
  with 2(2) have run: "load_ra dl lib fs (UpdateProfile b (bind_fn f name l)) = Inr l'" by simp
  show ?case
    using 2(1) [OF nb refl run] LoadSymbolAny_SomeD [OF nb] by auto
qed simp

lemma load_plain_SomeD:
  "load_plain dl lib fs l = Inr l' \<Longrightarrow>
   dom (ld_fns l') = dom (ld_fns l) \<union> fst ` set fs \<and> ld_modern l' = ld_modern l \<and> ld_legacy l' = ld_legacy l"
  by (induction dl lib fs l rule: load_plain.induct) (auto split: if_splits)

lemma load_optional_sel:
  "dom (ld_fns l) \<subseteq> dom (ld_fns (load_optional dl lib f name l))"
  "dom (ld_fns (load_optional dl lib f name l)) \<subseteq> insert f (dom (ld_fns l))"
  "ld_modern (load_optional dl lib f name l) = ld_modern l"
  "ld_legacy (load_optional dl lib f name l) = ld_legacy l"
  by (auto simp: load_optional_def)

definition session_fns :: "ra_fn set" where
  "session_fns = {Ra_init, Ra_deinit, Ra_rdev_deinit, Ra_typical_qp_create, Ra_typical_qp_modify,
     Ra_qp_destroy, Ra_register_mr, Ra_deregister_mr, Rt_set_device}"

definition posting_fns :: "ra_fn set" where
  "posting_fns = {Ra_typical_send_wr, Ra_poll_cq, Rt_rdma_db_send, Acl_malloc, Acl_free, Acl_memcpy}"

definition network_fns :: "CannRaNetworkBootstrapProfile \<Rightarrow> ra_fn set" where
  "network_fns p = (case p of NetUnavailable \<Rightarrow> {} | NetExplicitRuntime \<Rightarrow> {Rt_open_net_service, Rt_close_net_service}
     | NetLegacyTsd \<Rightarrow> {Tsd_open, Tsd_close})"

definition rdev_fn :: "CannRaRdevInitProfile \<Rightarrow> ra_fn set" where
  "rdev_fn p = (case p of RdevUnavailable \<Rightarrow> {} | RdevV2 \<Rightarrow> {Ra_rdev_init_v2} | RdevLegacy \<Rightarrow> {Ra_rdev_init_legacy})"

lemmas fn_sets = session_fns_def posting_fns_def network_fns_def rdev_fn_def ra_first_def ra_rest_def
  ra_posting_def acl_posting_def

lemma load_required_fns:
  assumes "load_required dl ra rt = Inr (rdev, l)"
  shows "dom (ld_fns l) = session_fns \<union> rdev_fn rdev \<and> rdev \<noteq> RdevUnavailable"
proof -
  let ?l0 = "\<lparr>ld_fns = (\<lambda>f. None), ld_modern = False, ld_legacy = False\<rparr> :: loading"
  obtain l1 l2 l3 where l: "load_ra dl ra ra_first ?l0 = Inr l1" "load_rdev_init dl ra l1 = Inr (rdev, l2)"
    "load_ra dl ra ra_rest l2 = Inr l3" "load_plain dl rt [(Rt_set_device, ''rtSetDevice'')] l3 = Inr l"
    using assms by (auto simp: load_required_def split: sum.splits)
  have "dom (ld_fns l2) = dom (ld_fns l1) \<union> rdev_fn rdev" "rdev \<noteq> RdevUnavailable"
    using l(2) by (auto simp: load_rdev_init_def rdev_fn_def split: option.splits)
  then show ?thesis
    using load_ra_SomeD [OF l(1)] load_ra_SomeD [OF l(3)] load_plain_SomeD [OF l(4)]
    by (auto simp: fn_sets dom_def)
qed

lemma load_network_fns:
  assumes "load_network dl rt err l v = (Inr (net, tsd, l'), v')"
  shows "dom (ld_fns l') = dom (ld_fns l) \<union> network_fns net \<and> net \<noteq> NetUnavailable"
  using assms
  by (auto simp: load_network_def Let_def load_optional_def network_fns_def dest: load_plain_SomeD
      split: if_splits prod.splits sum.splits)

lemma load_posting_fns:
  assumes "load_posting dl ra rt acl l = Inr l'"
  shows "dom (ld_fns l') = dom (ld_fns l) \<union> posting_fns"
proof -
  obtain l1 l2 where l: "load_ra dl ra ra_posting l = Inr l1"
    "load_plain dl rt [(Rt_rdma_db_send, ''rtRDMADBSend'')] l1 = Inr l2" "load_plain dl acl acl_posting l2 = Inr l'"
    using assms by (auto simp: load_posting_def split: sum.splits)
  then show ?thesis
    using load_ra_SomeD [OF l(1)] load_plain_SomeD [OF l(2)] load_plain_SomeD [OF l(3)]
    by (auto simp: fn_sets)
qed

lemma load_symbols_fns:
  assumes "load_symbols dl req err ra rt acl v = (Inr api, v')"
  shows "dom (api_fns api) - {Acl_get_physical_device} =
      session_fns \<union> rdev_fn (api_rdev_init_profile api) \<union> network_fns (api_network_profile api) \<union>
      (if req then posting_fns else {}) \<and>
    api_rdev_init_profile api \<noteq> RdevUnavailable \<and> api_network_profile api \<noteq> NetUnavailable \<and>
    api_available api \<and> api_command_posting api = req"
proof -
  obtain rdev l where r: "load_required dl ra rt = Inr (rdev, l)"
    using assms by (auto simp: load_symbols_def split: sum.splits)
  obtain net tsd l1 w where n: "load_network dl rt err l v = (Inr (net, tsd, l1), w)"
    using assms r by (auto simp: load_symbols_def split: sum.splits prod.splits)
  let ?l2 = "load_optional dl acl Acl_get_physical_device ''aclrtGetPhyDevIdByLogicDevId'' l1"
  obtain l3 where p: "(if req then load_posting dl ra rt acl ?l2 else Inr ?l2) = Inr l3"
    and api: "api_fns api = ld_fns l3" "api_rdev_init_profile api = rdev" "api_network_profile api = net"
      "api_available api" "api_command_posting api = req"
    using assms r n by (auto simp: load_symbols_def Let_def split: sum.splits)
  have "dom (ld_fns l3) = dom (ld_fns ?l2) \<union> (if req then posting_fns else {})"
    using p by (cases req) (simp_all add: load_posting_fns)
  moreover have "dom (ld_fns ?l2) - {Acl_get_physical_device} = dom (ld_fns l1) - {Acl_get_physical_device}"
    by (auto simp: load_optional_def)
  moreover have "Acl_get_physical_device \<notin> session_fns \<union> rdev_fn rdev \<union> network_fns net \<union> posting_fns"
    by (simp add: fn_sets split: CannRaRdevInitProfile.splits CannRaNetworkBootstrapProfile.splits)
  ultimately show ?thesis
    using load_required_fns [OF r] load_network_fns [OF n] api by auto
qed

lemma LoaderOpen_fns:
  assumes "LoaderOpen dl req err api0 v = (None, api, v')"
  shows "\<exists>ra rt acl w. load_symbols dl req err ra rt acl w = (Inr api, v')"
  using assms by (auto simp: LoaderOpen_def split: prod.splits sum.splits)

section \<open>Properties\<close>

text \<open>A linker that finds every library and exports the given symbols; its state is the multiset of open
  handles.\<close>

definition sample_dl :: "string list \<Rightarrow> nat multiset dynlib" where
  "sample_dl exported = \<lparr>dl_getenv = (\<lambda>n. None), dl_open = (\<lambda>p v. (Inr (length p), add_mset (length p) v)),
     dl_sym = (\<lambda>h n. n \<in> set exported), dl_close = (\<lambda>h v. v - {#h#})\<rparr>"

interpretation sample_linker: dl_library "sample_dl exported" "\<lambda>v. v"
  by unfold_locales (simp_all add: sample_dl_def)

definition modern_symbols :: "string list" where
  "modern_symbols = [''RaInit'', ''RaDeinit'', ''RaRdevInitV2'', ''RaRdevDeinit'', ''RaTypicalQpCreate'',
     ''RaTypicalQpModify'', ''RaQpDestroy'', ''RaRegisterMr'', ''RaDeregisterMr'', ''rtSetDevice'',
     ''rtOpenNetService'', ''rtCloseNetService'', ''RaTypicalSendWr'', ''RaPollCq'', ''rtRDMADBSend'',
     ''aclrtMalloc'', ''aclrtFree'', ''aclrtMemcpy'']"

text \<open>Property C40. The loader.  A failing load leaves no library open and every pointer null.  A successful
  one holds exactly the references of its handles, which closing gives back, and has bound exactly the
  functions a session uses: those of every session, the device initialiser and the network functions
  of its profiles, and those for posting commands when they were required; only the lookup of the
  physical device may be missing.\<close>

theorem loader_sound:
  assumes "dl_library dl opened" "LoaderOpen dl req err closed_api v = (e, api, v')"
  shows "(e \<noteq> None \<longrightarrow> api = closed_api \<and> opened v' = opened v) \<and>
    (e = None \<longrightarrow> opened v' = opened v + api_handles api \<and>
      opened (snd (LoaderClose dl api v')) = opened v \<and>
      dom (api_fns api) - {Acl_get_physical_device} =
        session_fns \<union> rdev_fn (api_rdev_init_profile api) \<union> network_fns (api_network_profile api) \<union>
        (if req then posting_fns else {}) \<and>
      api_rdev_init_profile api \<noteq> RdevUnavailable \<and> api_network_profile api \<noteq> NetUnavailable)"
proof (cases e)
  case None
  have "opened v' = opened v + api_handles api"
    using dl_library.LoaderOpen_opened [OF assms] None by simp
  moreover have "opened (snd (LoaderClose dl api v')) = opened v"
    using dl_library.LoaderClose_opened [OF assms(1), of api v'] calculation by simp
  moreover obtain ra rt acl w where r: "load_symbols dl req err ra rt acl w = (Inr api, v')"
    using LoaderOpen_fns [of dl req err closed_api v api v'] assms(2) None by auto
  ultimately show ?thesis using load_symbols_fns [OF r] None by blast
next
  case (Some x)
  then show ?thesis using dl_library.LoaderOpen_opened [OF assms] by simp
qed

lemma loader_sound_witness:
  "\<exists>api v'. LoaderOpen (sample_dl modern_symbols) True [] closed_api {#} = (None, api, v') \<and>
     v' = api_handles api \<and> snd (LoaderClose (sample_dl modern_symbols) api v') = {#} \<and>
     posting_fns \<subseteq> dom (api_fns api)"
proof -
  let ?dl = "sample_dl modern_symbols"
  obtain e api v' where run: "LoaderOpen ?dl True [] closed_api {#} = (e, api, v')"
    by (metis prod_cases3)
  have "fst (LoaderOpen ?dl True [] closed_api {#}) = None"
    by (simp add: LoaderOpen_def LoaderClose_def close_handle_def closed_api_def OpenLibrary_def LibraryName_def
        configured_def sample_dl_def modern_symbols_def load_symbols_def load_required_def load_rdev_init_def
        load_network_def load_posting_def load_optional_def LoadSymbolAny_def fn_sets)
  with run have e: "e = None" by simp
  note sound = loader_sound [OF sample_linker.dl_library_axioms run]
  then have "dom (api_fns api) - {Acl_get_physical_device} =
      session_fns \<union> rdev_fn (api_rdev_init_profile api) \<union> network_fns (api_network_profile api) \<union> posting_fns"
    using e by simp
  then have "posting_fns \<subseteq> dom (api_fns api)" by blast
  moreover have "v' = api_handles api" "snd (LoaderClose ?dl api v') = {#}" using sound e by auto
  ultimately show ?thesis using run e by blast
qed

end
