(* ===== verification/Cann_Api.thy ===== *)
theory Cann_Api
  imports Cann_Loader Roce_Control
begin

text \<open>
  The RA calls of the NPU side (the methods of \<open>CannRaApi\<close> in \<open>src/roce_storage/cann_ra_loader.cc\<close>, the
  structures of \<open>cann_ra_abi.h\<close>) and the bring-up and tear-down of a queue pair that the Host-RA session
  and the push mover share.

  The vendor libraries, the sockets and the clock are the parameter \<open>cann\<close>, a record of calls over a
  state \<open>'v\<close> of the machine.  A call through a function pointer is given the name the pointer was loaded
  from where there are several; through a null pointer it returns \<open>kUnavailable\<close>.  Handles and device
  addresses are numbers, a null pointer is \<open>None\<close>; an out-parameter is a further component of the result.

  A step of an \<open>Open\<close> is a function of the object and the machine; it returns \<open>None\<close> where the code goes
  on and the text left in \<open>*error\<close> where it returns \<open>Fail()\<close>.  What the code relies on is the locale
  \<open>cann_library\<close>: which objects a call makes and destroys, that an object in use by another is not
  destroyed, and that destroying a live object that nothing uses succeeds.  The definitions keep the
  branches for a failing destruction; the theorems about what is given back say nothing of them.
\<close>

section \<open>The binary interface\<close>

definition kSuccess :: int where "kSuccess = 0"
definition kNetworkOffline :: int where "kNetworkOffline = 1"
definition kNicDeploymentDevice :: u32 where "kNicDeploymentDevice = 1"
definition kNotify :: u32 where "kNotify = 1"
definition kDefaultHdcType :: int where "kDefaultHdcType = 18"
definition kLegacyHdcType :: int where "kLegacyHdcType = 6"
definition kOpbaseQpMode :: int where "kOpbaseQpMode = 2"
definition kRaAccessLocalWrite :: u32 where "kRaAccessLocalWrite = 1"
definition kRaAccessRemoteWrite :: u32 where "kRaAccessRemoteWrite = 2"
definition kRaAccessRemoteRead :: u32 where "kRaAccessRemoteRead = 4"
definition kRaSendSignaled :: int where "kRaSendSignaled = 2"
definition kRaWrRdmaWrite :: u32 where "kRaWrRdmaWrite = 0"
definition kRaWrSend :: u32 where "kRaWrSend = 2"
definition kAclMallocNormalOnly :: int where "kAclMallocNormalOnly = 2"

definition AF_INET :: int where "AF_INET = 2"

record RaInitConfig =
  ri_phy_id :: u32
  ri_nic_position :: u32
  ri_hdc_type :: int
  ri_enable_hdc_async :: bool

record Rdev =
  rd_phy_id :: u32
  rd_family :: int
  rd_local_ip :: u32

record RdevInitInfo =
  rn_mode :: int
  rn_notify_type :: u32
  rn_enabled_910a_lite :: bool
  rn_disabled_lite_thread :: bool
  rn_enabled_2mb_lite :: bool

text \<open>Without the reserved words, which the code leaves zero.\<close>

record TypicalQp =
  tq_qpn :: u32
  tq_psn :: u32
  tq_gid_index :: u32
  tq_gid :: bytes
  tq_traffic_class :: u32
  tq_service_level :: u32
  tq_retry_count :: u32
  tq_retry_time :: u32
  tq_version :: int

definition zero_qp :: TypicalQp where
  "zero_qp = \<lparr>tq_qpn = 0, tq_psn = 0, tq_gid_index = 0, tq_gid = replicate 16 0, tq_traffic_class = 0,
     tq_service_level = 0, tq_retry_count = 0, tq_retry_time = 0, tq_version = 0\<rparr>"

record MrInfo =
  mi_address :: "nat option"
  mi_size :: nat
  mi_access :: u32
  mi_lkey :: u32
  mi_rkey :: u32

definition zero_mr :: MrInfo where
  "zero_mr = \<lparr>mi_address = None, mi_size = 0, mi_access = 0, mi_lkey = 0, mi_rkey = 0\<rparr>"

record SgList =
  sg_address :: u64
  sg_length :: u32
  sg_lkey :: u32

record SendWr =
  sw_buffers :: "SgList list"
  sw_destination_address :: u64
  sw_rkey :: u32
  sw_opcode :: u32
  sw_send_flags :: int

record DbInfo =
  db_index :: u32
  db_info :: u64

record WorkCompletion =
  wcp_wr_id :: u64
  wcp_status :: int
  wcp_opcode :: int
  wcp_vendor_error :: u32
  wcp_byte_length :: u32
  wcp_immediate_data :: u32
  wcp_qp_number :: u32
  wcp_source_qp :: u32
  wcp_flags :: u32
  wcp_pkey_index :: u16
  wcp_source_lid :: u16
  wcp_service_level :: u8
  wcp_destination_path_bits :: u8

definition zero_wc :: WorkCompletion where
  "zero_wc = \<lparr>wcp_wr_id = 0, wcp_status = 0, wcp_opcode = 0, wcp_vendor_error = 0, wcp_byte_length = 0,
     wcp_immediate_data = 0, wcp_qp_number = 0, wcp_source_qp = 0, wcp_flags = 0, wcp_pkey_index = 0,
     wcp_source_lid = 0, wcp_service_level = 0, wcp_destination_path_bits = 0\<rparr>"

text \<open>A pointer as the 64-bit integer the wire carries.\<close>

definition ptr_u64 :: "nat option \<Rightarrow> u64" where
  "ptr_u64 p = (case p of None \<Rightarrow> 0 | Some a \<Rightarrow> of_nat a)"

section \<open>Vendor calls\<close>

text \<open>The fields below the socket calls are the functions \<open>ra_fn\<close> stands for, in the order of the class.
  \<open>aclrtMemcpy\<close> is split by its direction.\<close>

record 'v cann = "'v dynlib" +
  cn_now :: "'v \<Rightarrow> nat"
  cn_sleep_1ms :: "'v \<Rightarrow> 'v"
  cn_inet_pton :: "bytes \<Rightarrow> u32 option"
  cn_getaddrinfo :: "bytes \<Rightarrow> string \<Rightarrow> 'v \<Rightarrow> nat list option \<times> 'v"
  cn_socket :: "nat \<Rightarrow> 'v \<Rightarrow> nat option \<times> 'v"
  cn_set_timeouts :: "nat \<Rightarrow> nat \<times> nat \<Rightarrow> 'v \<Rightarrow> 'v"
  cn_connect :: "nat \<Rightarrow> nat \<Rightarrow> 'v \<Rightarrow> conn option \<times> 'v"
  cn_close_fd :: "nat \<Rightarrow> 'v \<Rightarrow> int \<times> 'v"
  cn_ra_init :: "string \<Rightarrow> RaInitConfig \<Rightarrow> 'v \<Rightarrow> int \<times> RaInitConfig \<times> 'v"
  cn_ra_deinit :: "string \<Rightarrow> RaInitConfig \<Rightarrow> 'v \<Rightarrow> int \<times> RaInitConfig \<times> 'v"
  cn_rdev_init_v2 :: "string \<Rightarrow> RdevInitInfo \<Rightarrow> Rdev \<Rightarrow> 'v \<Rightarrow> int \<times> nat option \<times> 'v"
  cn_rdev_init_legacy :: "string \<Rightarrow> int \<Rightarrow> u32 \<Rightarrow> Rdev \<Rightarrow> 'v \<Rightarrow> int \<times> nat option \<times> 'v"
  cn_rdev_deinit :: "string \<Rightarrow> nat \<Rightarrow> u32 \<Rightarrow> 'v \<Rightarrow> int \<times> 'v"
  cn_qp_create :: "string \<Rightarrow> nat option \<Rightarrow> int \<Rightarrow> int \<Rightarrow> TypicalQp \<Rightarrow> 'v \<Rightarrow> int \<times> TypicalQp \<times> nat option \<times> 'v"
  cn_qp_modify :: "string \<Rightarrow> nat option \<Rightarrow> TypicalQp \<Rightarrow> TypicalQp \<Rightarrow> 'v \<Rightarrow> int \<times> TypicalQp \<times> 'v"
  cn_qp_destroy :: "string \<Rightarrow> nat \<Rightarrow> 'v \<Rightarrow> int \<times> 'v"
  cn_register_mr :: "string \<Rightarrow> nat option \<Rightarrow> MrInfo \<Rightarrow> 'v \<Rightarrow> int \<times> MrInfo \<times> nat option \<times> 'v"
  cn_deregister_mr :: "string \<Rightarrow> nat option \<Rightarrow> nat \<Rightarrow> 'v \<Rightarrow> int \<times> 'v"
  cn_send_wr :: "string \<Rightarrow> nat option \<Rightarrow> SendWr \<Rightarrow> 'v \<Rightarrow> int \<times> DbInfo \<times> 'v"
  cn_poll_cq :: "string \<Rightarrow> nat option \<Rightarrow> bool \<Rightarrow> nat \<Rightarrow> 'v \<Rightarrow> int \<times> WorkCompletion \<times> 'v"
  cn_set_device :: "int \<Rightarrow> 'v \<Rightarrow> int \<times> 'v"
  cn_open_net_service :: "string list \<Rightarrow> 'v \<Rightarrow> int \<times> 'v"
  cn_close_net_service :: "'v \<Rightarrow> int \<times> 'v"
  cn_rdma_db_send :: "u32 \<Rightarrow> u64 \<Rightarrow> nat \<Rightarrow> 'v \<Rightarrow> int \<times> 'v"
  cn_tsd_open :: "u32 \<Rightarrow> u32 \<Rightarrow> 'v \<Rightarrow> int \<times> 'v"
  cn_tsd_close :: "u32 \<Rightarrow> 'v \<Rightarrow> int \<times> 'v"
  cn_get_physical_device :: "int \<Rightarrow> 'v \<Rightarrow> int \<times> int \<times> 'v"
  cn_malloc :: "nat \<Rightarrow> int \<Rightarrow> 'v \<Rightarrow> int \<times> nat option \<times> 'v"
  cn_free :: "nat \<Rightarrow> 'v \<Rightarrow> int \<times> 'v"
  cn_memcpy_to_device :: "nat option \<Rightarrow> nat \<Rightarrow> bytes \<Rightarrow> 'v \<Rightarrow> int \<times> 'v"
  cn_memcpy_to_host :: "nat \<Rightarrow> nat option \<Rightarrow> nat \<Rightarrow> 'v \<Rightarrow> int \<times> bytes \<times> 'v"

definition kUnavailable :: int where "kUnavailable = -1"

text \<open>Calls through a function pointer, by the shape of their result.\<close>

definition via :: "CannRaApi \<Rightarrow> ra_fn \<Rightarrow> (string \<Rightarrow> 'v \<Rightarrow> int \<times> 'v) \<Rightarrow> 'v \<Rightarrow> int \<times> 'v" where
  "via api f call v = (case api_fns api f of None \<Rightarrow> (kUnavailable, v) | Some name \<Rightarrow> call name v)"

definition via_out :: "CannRaApi \<Rightarrow> ra_fn \<Rightarrow> 'a \<Rightarrow> (string \<Rightarrow> 'v \<Rightarrow> int \<times> 'a \<times> 'v) \<Rightarrow> 'v \<Rightarrow> int \<times> 'a \<times> 'v" where
  "via_out api f out call v = (case api_fns api f of None \<Rightarrow> (kUnavailable, out, v) | Some name \<Rightarrow> call name v)"

definition via_handle ::
  "CannRaApi \<Rightarrow> ra_fn \<Rightarrow> 'a \<Rightarrow> (string \<Rightarrow> 'v \<Rightarrow> int \<times> 'a \<times> nat option \<times> 'v) \<Rightarrow> 'v \<Rightarrow> int \<times> 'a \<times> nat option \<times> 'v" where
  "via_handle api f out call v =
    (case api_fns api f of None \<Rightarrow> (kUnavailable, out, None, v) | Some name \<Rightarrow> call name v)"

definition EffectiveHdcType :: "CannRaApi \<Rightarrow> int \<Rightarrow> int" where
  "EffectiveHdcType api requested =
    (if api_network_profile api = NetLegacyTsd then kLegacyHdcType else requested)"

definition SetDevice :: "('v, 'z) cann_scheme \<Rightarrow> CannRaApi \<Rightarrow> int \<Rightarrow> 'v \<Rightarrow> int \<times> 'v" where
  "SetDevice cn api logical = via api Rt_set_device (\<lambda>_. cn_set_device cn logical)"

definition ResolvePhysicalDevice ::
  "('v, 'z) cann_scheme \<Rightarrow> CannRaApi \<Rightarrow> int \<Rightarrow> int \<Rightarrow> 'v \<Rightarrow> (string + u32) \<times> 'v" where
  "ResolvePhysicalDevice cn api logical physical v =
    (if 0 \<le> physical then (Inr (word_of_int physical), v)
     else if api_fns api Acl_get_physical_device = None then
       (Inl ''aclrtGetPhyDevIdByLogicDevId is unavailable in this CANN build; provide an explicit physical device id'', v)
     else case cn_get_physical_device cn logical v of (st, resolved, v) \<Rightarrow>
       if st \<noteq> kSuccess \<or> resolved < 0 then (Inl ''failed to resolve physical device id'', v)
       else (Inr (word_of_int resolved), v))"

text \<open>\<open>std::to_string\<close> of a signed integer.\<close>

definition dec_int :: "int \<Rightarrow> string" where
  "dec_int i = (if i < 0 then CHR ''-'' # dec (nat (- i)) else dec (nat i))"

definition BootstrapNetwork :: "('v, 'z) cann_scheme \<Rightarrow> CannRaApi \<Rightarrow> int \<Rightarrow> int \<Rightarrow> 'v \<Rightarrow> int \<times> 'v" where
  "BootstrapNetwork cn api logical hdc v =
    (case api_network_profile api of
       NetExplicitRuntime \<Rightarrow>
         via api Rt_open_net_service (\<lambda>_. cn_open_net_service cn [''--hdcType='' @ dec_int hdc]) v
     | NetLegacyTsd \<Rightarrow> via api Tsd_open (\<lambda>_. cn_tsd_open cn (word_of_int logical) 2) v
     | NetUnavailable \<Rightarrow> (kUnavailable, v))"

definition ShutdownNetwork :: "('v, 'z) cann_scheme \<Rightarrow> CannRaApi \<Rightarrow> int \<Rightarrow> 'v \<Rightarrow> int \<times> 'v" where
  "ShutdownNetwork cn api logical v =
    (case api_network_profile api of
       NetExplicitRuntime \<Rightarrow> via api Rt_close_net_service (\<lambda>_. cn_close_net_service cn) v
     | NetLegacyTsd \<Rightarrow> via api Tsd_close (\<lambda>_. cn_tsd_close cn (word_of_int logical)) v
     | NetUnavailable \<Rightarrow> (kUnavailable, v))"

definition RaInit :: "('v, 'z) cann_scheme \<Rightarrow> CannRaApi \<Rightarrow> RaInitConfig \<Rightarrow> 'v \<Rightarrow> int \<times> RaInitConfig \<times> 'v" where
  "RaInit cn api config = via_out api Ra_init config (\<lambda>name. cn_ra_init cn name config)"

definition RaDeinit :: "('v, 'z) cann_scheme \<Rightarrow> CannRaApi \<Rightarrow> RaInitConfig \<Rightarrow> 'v \<Rightarrow> int \<times> RaInitConfig \<times> 'v" where
  "RaDeinit cn api config = via_out api Ra_deinit config (\<lambda>name. cn_ra_deinit cn name config)"

definition RdevInit ::
  "('v, 'z) cann_scheme \<Rightarrow> CannRaApi \<Rightarrow> RdevInitInfo \<Rightarrow> Rdev \<Rightarrow> 'v \<Rightarrow> int \<times> nat option \<times> 'v" where
  "RdevInit cn api info rdev v =
    (case api_fns api Ra_rdev_init_v2 of
       Some name \<Rightarrow> cn_rdev_init_v2 cn name info rdev v
     | None \<Rightarrow> via_out api Ra_rdev_init_legacy None
         (\<lambda>name. cn_rdev_init_legacy cn name (rn_mode info) (rn_notify_type info) rdev) v)"

definition RdevDeinit :: "('v, 'z) cann_scheme \<Rightarrow> CannRaApi \<Rightarrow> nat \<Rightarrow> u32 \<Rightarrow> 'v \<Rightarrow> int \<times> 'v" where
  "RdevDeinit cn api h notify = via api Ra_rdev_deinit (\<lambda>name. cn_rdev_deinit cn name h notify)"

definition TypicalQpCreate ::
  "('v, 'z) cann_scheme \<Rightarrow> CannRaApi \<Rightarrow> nat option \<Rightarrow> int \<Rightarrow> int \<Rightarrow> TypicalQp \<Rightarrow> 'v \<Rightarrow> int \<times> TypicalQp \<times> nat option \<times> 'v" where
  "TypicalQpCreate cn api rdma qp_type qp_mode qp =
    via_handle api Ra_typical_qp_create qp (\<lambda>name. cn_qp_create cn name rdma qp_type qp_mode qp)"

definition TypicalQpModify ::
  "('v, 'z) cann_scheme \<Rightarrow> CannRaApi \<Rightarrow> nat option \<Rightarrow> TypicalQp \<Rightarrow> TypicalQp \<Rightarrow> 'v \<Rightarrow> int \<times> TypicalQp \<times> 'v" where
  "TypicalQpModify cn api h loc rem =
    via_out api Ra_typical_qp_modify loc (\<lambda>name. cn_qp_modify cn name h loc rem)"

definition QpDestroy :: "('v, 'z) cann_scheme \<Rightarrow> CannRaApi \<Rightarrow> nat \<Rightarrow> 'v \<Rightarrow> int \<times> 'v" where
  "QpDestroy cn api h = via api Ra_qp_destroy (\<lambda>name. cn_qp_destroy cn name h)"

definition RegisterMr ::
  "('v, 'z) cann_scheme \<Rightarrow> CannRaApi \<Rightarrow> nat option \<Rightarrow> MrInfo \<Rightarrow> 'v \<Rightarrow> int \<times> MrInfo \<times> nat option \<times> 'v" where
  "RegisterMr cn api rdma info = via_handle api Ra_register_mr info (\<lambda>name. cn_register_mr cn name rdma info)"

definition DeregisterMr :: "('v, 'z) cann_scheme \<Rightarrow> CannRaApi \<Rightarrow> nat option \<Rightarrow> nat \<Rightarrow> 'v \<Rightarrow> int \<times> 'v" where
  "DeregisterMr cn api rdma h = via api Ra_deregister_mr (\<lambda>name. cn_deregister_mr cn name rdma h)"

definition TypicalSendWr ::
  "('v, 'z) cann_scheme \<Rightarrow> CannRaApi \<Rightarrow> nat option \<Rightarrow> SendWr \<Rightarrow> 'v \<Rightarrow> int \<times> DbInfo \<times> 'v" where
  "TypicalSendWr cn api qp wr =
    via_out api Ra_typical_send_wr \<lparr>db_index = 0, db_info = 0\<rparr> (\<lambda>name. cn_send_wr cn name qp wr)"

definition PollCq ::
  "('v, 'z) cann_scheme \<Rightarrow> CannRaApi \<Rightarrow> nat option \<Rightarrow> bool \<Rightarrow> nat \<Rightarrow> 'v \<Rightarrow> int \<times> WorkCompletion \<times> 'v" where
  "PollCq cn api qp snd_cq n =
    via_out api Ra_poll_cq zero_wc
      (\<lambda>name. cn_poll_cq cn name qp snd_cq n)"

definition RdmaDbSend :: "('v, 'z) cann_scheme \<Rightarrow> CannRaApi \<Rightarrow> u32 \<Rightarrow> u64 \<Rightarrow> nat \<Rightarrow> 'v \<Rightarrow> int \<times> 'v" where
  "RdmaDbSend cn api index info stream = via api Rt_rdma_db_send (\<lambda>_. cn_rdma_db_send cn index info stream)"

definition DeviceMalloc :: "('v, 'z) cann_scheme \<Rightarrow> CannRaApi \<Rightarrow> nat \<Rightarrow> int \<Rightarrow> 'v \<Rightarrow> int \<times> nat option \<times> 'v" where
  "DeviceMalloc cn api n policy = via_out api Acl_malloc None (\<lambda>_. cn_malloc cn n policy)"

definition DeviceFree :: "('v, 'z) cann_scheme \<Rightarrow> CannRaApi \<Rightarrow> nat \<Rightarrow> 'v \<Rightarrow> int \<times> 'v" where
  "DeviceFree cn api a = via api Acl_free (\<lambda>_. cn_free cn a)"

definition MemcpyToDevice ::
  "('v, 'z) cann_scheme \<Rightarrow> CannRaApi \<Rightarrow> nat option \<Rightarrow> nat \<Rightarrow> bytes \<Rightarrow> 'v \<Rightarrow> int \<times> 'v" where
  "MemcpyToDevice cn api dst n src = via api Acl_memcpy (\<lambda>_. cn_memcpy_to_device cn dst n src)"

definition MemcpyToHost ::
  "('v, 'z) cann_scheme \<Rightarrow> CannRaApi \<Rightarrow> nat \<Rightarrow> nat option \<Rightarrow> nat \<Rightarrow> 'v \<Rightarrow> int \<times> bytes \<times> 'v" where
  "MemcpyToHost cn api n src len = via_out api Acl_memcpy (replicate n 0) (\<lambda>_. cn_memcpy_to_host cn n src len)"

lemmas api_calls = SetDevice_def RaInit_def RaDeinit_def RdevInit_def RdevDeinit_def TypicalQpCreate_def
  TypicalQpModify_def QpDestroy_def RegisterMr_def DeregisterMr_def TypicalSendWr_def PollCq_def
  RdmaDbSend_def DeviceMalloc_def DeviceFree_def MemcpyToDevice_def MemcpyToHost_def

section \<open>Endpoints\<close>

definition ToEndpoint :: "TypicalQp \<Rightarrow> u8 \<Rightarrow> Endpoint" where
  "ToEndpoint qp mtu = \<lparr>ep_gid = tq_gid qp, ep_qpn = tq_qpn qp, ep_psn = tq_psn qp, ep_port = 1,
     ep_gid_index = ucast (tq_gid_index qp), ep_mtu = mtu\<rparr>"

definition ToTypicalQp :: "Endpoint \<Rightarrow> TypicalQp" where
  "ToTypicalQp e = zero_qp\<lparr>tq_qpn := ep_qpn e, tq_psn := ep_psn e, tq_gid_index := ucast (ep_gid_index e),
     tq_gid := ep_gid e, tq_retry_count := 7, tq_retry_time := 14\<rparr>"

section \<open>Bring-up and tear-down of a queue pair\<close>

text \<open>The members that the two classes have in common.\<close>

record ra_core =
  rc_api :: CannRaApi
  rc_physical_device :: u32
  rc_init_config :: RaInitConfig
  rc_local_qp :: TypicalQp
  rc_rdma_handle :: "nat option"
  rc_qp_handle :: "nat option"
  rc_network_bootstrapped :: bool
  rc_ra_initialized :: bool
  rc_capability_loaded :: bool
  rc_effective_hdc_type :: int

definition new_core :: ra_core where
  "new_core = \<lparr>rc_api = closed_api, rc_physical_device = 0,
     rc_init_config = \<lparr>ri_phy_id = 0, ri_nic_position = 0, ri_hdc_type = 0, ri_enable_hdc_async = False\<rparr>,
     rc_local_qp = zero_qp, rc_rdma_handle = None, rc_qp_handle = None, rc_network_bootstrapped = False,
     rc_ra_initialized = False, rc_capability_loaded = False, rc_effective_hdc_type = kDefaultHdcType\<rparr>"

text \<open>The steps of an \<open>Open\<close>: the first that fails ends it.\<close>

fun do_steps :: "('s \<Rightarrow> 'v \<Rightarrow> string option \<times> 's \<times> 'v) list \<Rightarrow> 's \<Rightarrow> 'v \<Rightarrow> string option \<times> 's \<times> 'v" where
  "do_steps [] s v = (None, s, v)"
| "do_steps (f # fs) s v =
    (case f s v of
       (None, s, v) \<Rightarrow> do_steps fs s v
     | (Some e, s, v) \<Rightarrow> (Some e, s, v))"

definition load_api ::
  "('v, 'z) cann_scheme \<Rightarrow> bool \<Rightarrow> string \<Rightarrow> 'c ra_core_scheme \<Rightarrow> 'v \<Rightarrow> string option \<times> 'c ra_core_scheme \<times> 'v" where
  "load_api cn posting err c v =
    (case LoaderOpen cn posting err (rc_api c) v of
       (Some e, api, v) \<Rightarrow> (Some e, c\<lparr>rc_api := api\<rparr>, v)
     | (None, api, v) \<Rightarrow> (None, c\<lparr>rc_api := api, rc_capability_loaded := True\<rparr>, v))"

definition select_device ::
  "('v, 'z) cann_scheme \<Rightarrow> string \<Rightarrow> u32 \<Rightarrow> int \<Rightarrow> string \<Rightarrow> 'c ra_core_scheme \<Rightarrow> 'v \<Rightarrow>
   string option \<times> 'c ra_core_scheme \<times> 'v" where
  "select_device cn text logical physical err c v =
    (case SetDevice cn (rc_api c) (sint logical) v of (st, v) \<Rightarrow>
     if st \<noteq> kSuccess then (Some (if err = [] then text else err), c, v)
     else case ResolvePhysicalDevice cn (rc_api c) (sint logical) physical v of
       (Inl e, v) \<Rightarrow> (Some e, c, v)
     | (Inr p, v) \<Rightarrow> (None, c\<lparr>rc_physical_device := p\<rparr>, v))"

definition bootstrap_network ::
  "('v, 'z) cann_scheme \<Rightarrow> u32 \<Rightarrow> int \<Rightarrow> 'c ra_core_scheme \<Rightarrow> 'v \<Rightarrow> string option \<times> 'c ra_core_scheme \<times> 'v" where
  "bootstrap_network cn logical hdc c v =
    (let c = c\<lparr>rc_effective_hdc_type := EffectiveHdcType (rc_api c) hdc\<rparr> in
     case BootstrapNetwork cn (rc_api c) (sint logical) (rc_effective_hdc_type c) v of (st, v) \<Rightarrow>
     if st \<noteq> kSuccess then
       (Some (''CANN network bootstrap failed via '' @ network_bootstrap_profile_name (rc_api c) @
          '' (status='' @ dec_int st @ '')''), c, v)
     else (None, c\<lparr>rc_network_bootstrapped := True\<rparr>, v))"

definition init_ra ::
  "('v, 'z) cann_scheme \<Rightarrow> string \<Rightarrow> 'c ra_core_scheme \<Rightarrow> 'v \<Rightarrow> string option \<times> 'c ra_core_scheme \<times> 'v" where
  "init_ra cn text c v =
    (case RaInit cn (rc_api c) \<lparr>ri_phy_id = rc_physical_device c, ri_nic_position = kNicDeploymentDevice,
         ri_hdc_type = rc_effective_hdc_type c, ri_enable_hdc_async = False\<rparr> v of (st, config, v) \<Rightarrow>
     let c = c\<lparr>rc_init_config := config\<rparr> in
     if st \<noteq> kSuccess then (Some (text @ '' (status='' @ dec_int st @ '')''), c, v)
     else (None, c\<lparr>rc_ra_initialized := True\<rparr>, v))"

definition open_rdev ::
  "('v, 'z) cann_scheme \<Rightarrow> string \<Rightarrow> string \<Rightarrow> bytes \<Rightarrow> 'c ra_core_scheme \<Rightarrow> 'v \<Rightarrow>
   string option \<times> 'c ra_core_scheme \<times> 'v" where
  "open_rdev cn ip_text text ip c v =
    (case cn_inet_pton cn ip of
       None \<Rightarrow> (Some ip_text, c, v)
     | Some addr \<Rightarrow>
        (case RdevInit cn (rc_api c) \<lparr>rn_mode = kNetworkOffline, rn_notify_type = kNotify,
             rn_enabled_910a_lite = False, rn_disabled_lite_thread = False, rn_enabled_2mb_lite = False\<rparr>
             \<lparr>rd_phy_id = rc_physical_device c, rd_family = AF_INET, rd_local_ip = addr\<rparr> v of (st, h, v) \<Rightarrow>
         let c = c\<lparr>rc_rdma_handle := h\<rparr> in
         if st \<noteq> kSuccess \<or> h = None then (Some (rdev_init_profile_name (rc_api c) @ text), c, v)
         else (None, c, v)))"

definition create_qp ::
  "('v, 'z) cann_scheme \<Rightarrow> string \<Rightarrow> u32 \<Rightarrow> 'c ra_core_scheme \<Rightarrow> 'v \<Rightarrow> string option \<times> 'c ra_core_scheme \<times> 'v" where
  "create_qp cn text gid_index c v =
    (case TypicalQpCreate cn (rc_api c) (rc_rdma_handle c) 0 kOpbaseQpMode
         ((rc_local_qp c)\<lparr>tq_gid_index := gid_index\<rparr>) v of (st, qp, h, v) \<Rightarrow>
     let c = c\<lparr>rc_local_qp := qp, rc_qp_handle := h\<rparr> in
     if st \<noteq> kSuccess \<or> h = None then (Some text, c, v) else (None, c, v))"

definition connect_qp ::
  "('v, 'z) cann_scheme \<Rightarrow> string \<Rightarrow> Endpoint \<Rightarrow> 'c ra_core_scheme \<Rightarrow> 'v \<Rightarrow> string option \<times> 'c ra_core_scheme \<times> 'v" where
  "connect_qp cn text peer c v =
    (case TypicalQpModify cn (rc_api c) (rc_qp_handle c)
         ((rc_local_qp c)\<lparr>tq_retry_count := 7, tq_retry_time := 14\<rparr>) (ToTypicalQp peer) v of (st, qp, v) \<Rightarrow>
     let c = c\<lparr>rc_local_qp := qp\<rparr> in
     if st \<noteq> kSuccess then (Some text, c, v) else (None, c, v))"

text \<open>The tail of both \<open>Cleanup\<close> functions: queue pair, device, library, network and the loaded
  libraries, each if it is there; results are ignored.\<close>

definition free_if :: "('h \<Rightarrow> 'v \<Rightarrow> int \<times> 'v) \<Rightarrow> 'h option \<Rightarrow> 'v \<Rightarrow> 'v" where
  "free_if f h v = (case h of None \<Rightarrow> v | Some x \<Rightarrow> snd (f x v))"

definition core_cleanup ::
  "('v, 'z) cann_scheme \<Rightarrow> u32 \<Rightarrow> 'c ra_core_scheme \<Rightarrow> 'v \<Rightarrow> 'c ra_core_scheme \<times> 'v" where
  "core_cleanup cn logical c v =
    (let v = free_if (QpDestroy cn (rc_api c)) (rc_qp_handle c) v;
         v = free_if (\<lambda>h. RdevDeinit cn (rc_api c) h kNotify) (rc_rdma_handle c) v;
         (config, v) = (if rc_ra_initialized c
            then (case RaDeinit cn (rc_api c) (rc_init_config c) v of (_, config, v) \<Rightarrow> (config, v))
            else (rc_init_config c, v));
         v = (if rc_network_bootstrapped c then snd (ShutdownNetwork cn (rc_api c) (sint logical) v) else v);
         (api, v) = LoaderClose cn (rc_api c) v
     in (c\<lparr>rc_qp_handle := None, rc_rdma_handle := None, rc_init_config := config, rc_ra_initialized := False,
           rc_network_bootstrapped := False, rc_api := api\<rparr>, v))"

section \<open>Objects of the vendor libraries\<close>

text \<open>
  The objects alive, as a map from each to the objects it was made from.  A call that makes an object
  gives it a handle nobody has or refers to; a failing one makes nothing and leaves the handle null.  A
  call that destroys an object succeeds when nothing alive was made from it.
\<close>

datatype rkey = KNet | KInit | KRdev nat | KQp nat | KMem nat | KMr nat | KFd nat

type_synonym objects = "rkey \<Rightarrow> rkey list option"

definition used :: "rkey \<Rightarrow> objects \<Rightarrow> bool" where
  "used k H \<longleftrightarrow> (\<exists>k' us. H k' = Some us \<and> k \<in> set us)"

definition rdev_uses :: "nat option \<Rightarrow> rkey list" where
  "rdev_uses r = (case r of None \<Rightarrow> [] | Some h \<Rightarrow> [KRdev h])"

definition mr_uses :: "nat option \<Rightarrow> nat option \<Rightarrow> rkey list" where
  "mr_uses r a = rdev_uses r @ (case a of None \<Rightarrow> [] | Some x \<Rightarrow> [KMem x])"

definition makes :: "('v \<Rightarrow> nat multiset) \<Rightarrow> ('v \<Rightarrow> objects) \<Rightarrow> (nat \<Rightarrow> rkey) \<Rightarrow> rkey list \<Rightarrow>
    ('v \<Rightarrow> bool \<times> nat option \<times> 'v) \<Rightarrow> bool" where
  "makes opened held k us f \<longleftrightarrow> (\<forall>v ok h v'. f v = (ok, h, v') \<longrightarrow> opened v' = opened v \<and>
     (\<not> ok \<longrightarrow> h = None) \<and>
     (case h of None \<Rightarrow> held v' = held v
      | Some x \<Rightarrow> held v (k x) = None \<and> \<not> used (k x) (held v) \<and> held v' = (held v)(k x \<mapsto> us)))"

text \<open>A service the process has once: it comes up only while it is down.\<close>

definition starts :: "('v \<Rightarrow> nat multiset) \<Rightarrow> ('v \<Rightarrow> objects) \<Rightarrow> rkey \<Rightarrow> rkey list \<Rightarrow> ('v \<Rightarrow> int \<times> 'v) \<Rightarrow> bool" where
  "starts opened held k us f \<longleftrightarrow> (\<forall>v st v'. f v = (st, v') \<longrightarrow> opened v' = opened v \<and>
     (st \<noteq> 0 \<longrightarrow> held v' = held v) \<and>
     (st = 0 \<and> held v k = None \<longrightarrow> held v' = (held v)(k \<mapsto> us)))"

definition destroys_key :: "('v \<Rightarrow> nat multiset) \<Rightarrow> ('v \<Rightarrow> objects) \<Rightarrow> rkey \<Rightarrow> ('v \<Rightarrow> int \<times> 'v) \<Rightarrow> bool" where
  "destroys_key opened held k f \<longleftrightarrow> (\<forall>v st v'. f v = (st, v') \<longrightarrow> opened v' = opened v \<and>
     (held v k \<noteq> None \<and> \<not> used k (held v) \<longrightarrow> st = 0 \<and> held v' = (held v)(k := None)))"

definition calm :: "('v \<Rightarrow> nat multiset) \<Rightarrow> ('v \<Rightarrow> objects) \<Rightarrow> ('v \<Rightarrow> 'v) \<Rightarrow> bool" where
  "calm opened held f \<longleftrightarrow> (\<forall>v. opened (f v) = opened v \<and> held (f v) = held v)"

text \<open>What is alive is what there was before and the objects \<open>M\<close> of one owner, which nothing else uses.\<close>

definition holding :: "('v \<Rightarrow> objects) \<Rightarrow> objects \<Rightarrow> objects \<Rightarrow> 'v \<Rightarrow> bool" where
  "holding held L0 M v \<longleftrightarrow> held v = L0 ++ M \<and> dom L0 \<inter> dom M = {} \<and> (\<forall>k \<in> dom M. \<not> used k L0)"

lemma used_add: "dom A \<inter> dom B = {} \<Longrightarrow> used k (A ++ B) \<longleftrightarrow> used k A \<or> used k B"
proof -
  assume d: "dom A \<inter> dom B = {}"
  have "used k (A ++ B) \<Longrightarrow> used k A \<or> used k B" by (auto simp: used_def map_add_Some_iff)
  moreover have "used k A \<Longrightarrow> used k (A ++ B)"
    using d unfolding used_def by (metis disjoint_iff domI map_add_dom_app_simps(3))
  moreover have "used k B \<Longrightarrow> used k (A ++ B)" unfolding used_def by (metis map_add_find_right)
  ultimately show ?thesis by blast
qed

lemma holding_empty [simp]: "holding held L0 Map.empty v \<longleftrightarrow> held v = L0"
  by (simp add: holding_def)

lemma holding_cong: "held v' = held v \<Longrightarrow> holding held L0 M v' = holding held L0 M v"
  by (simp add: holding_def)

lemma holding_insert:
  assumes "holding held L0 M v" "held v k = None" "\<not> used k L0" "held v' = (held v)(k \<mapsto> us)"
  shows "holding held L0 (M(k \<mapsto> us)) v'"
  using assms by (auto simp: holding_def)

lemma holding_remove:
  assumes "holding held L0 M v" "M k \<noteq> None" "held v' = (held v)(k := None)"
  shows "holding held L0 (M(k := None)) v'"
proof -
  have "L0 k = None" using assms by (auto simp: holding_def)
  then have "(L0 ++ M)(k := None) = L0 ++ M(k := None)" by (auto simp: map_add_def)
  then show ?thesis using assms by (auto simp: holding_def)
qed

lemma makes_holding:
  assumes "makes opened held k us f" "f v = (ok, h, v')" "holding held L0 M v"
  shows "opened v' = opened v \<and> (\<not> ok \<longrightarrow> h = None) \<and>
    (h = None \<longrightarrow> holding held L0 M v') \<and>
    (\<forall>x. h = Some x \<longrightarrow> M (k x) = None \<and> \<not> used (k x) M \<and> holding held L0 (M(k x \<mapsto> us)) v')"
proof (cases h)
  case None
  then have "opened v' = opened v" "held v' = held v" using assms(1,2) unfolding makes_def by fastforce+
  then show ?thesis using None assms(3) by (simp add: holding_def)
next
  case (Some x)
  then have m: "opened v' = opened v" "held v (k x) = None" "\<not> used (k x) (held v)" "held v' = (held v)(k x \<mapsto> us)" "ok"
    using assms(1,2) unfolding makes_def by fastforce+
  moreover have "\<not> used (k x) L0 \<and> \<not> used (k x) M \<and> M (k x) = None"
    using m(2,3) assms(3) by (auto simp: holding_def used_add)
  ultimately show ?thesis using holding_insert [OF assms(3) m(2) _ m(4)] Some by simp
qed

lemma destroys_holding:
  assumes "destroys_key opened held k f" "f v = (st, v')" "holding held L0 M v" "M k \<noteq> None" "\<not> used k M"
  shows "opened v' = opened v \<and> st = 0 \<and> holding held L0 (M(k := None)) v'"
proof -
  have h: "held v = L0 ++ M" "dom L0 \<inter> dom M = {}" "\<not> used k L0" "k \<in> dom M"
    using assms(3,4) by (auto simp: holding_def)
  then have "held v k \<noteq> None" "\<not> used k (held v)" using assms(5) by (auto simp: used_add map_add_Some_iff)
  then have "opened v' = opened v" "st = 0" "held v' = (held v)(k := None)"
    using assms(1,2) unfolding destroys_key_def by blast+
  then show ?thesis using holding_remove [OF assms(3,4)] by simp
qed

lemma free_if_ok:
  assumes "holding held L0 M v" "h = None \<Longrightarrow> M' = M"
    and "\<And>x. h = Some x \<Longrightarrow> destroys_key opened held (k x) (f x) \<and> M (k x) \<noteq> None \<and> \<not> used (k x) M \<and> M(k x := None) = M'"
  shows "opened (free_if f h v) = opened v \<and> holding held L0 M' (free_if f h v)"
proof (cases h)
  case None
  then show ?thesis using assms by (simp add: free_if_def)
next
  case (Some x)
  then show ?thesis
    using destroys_holding [of opened held "k x" "f x" v "fst (f x v)" "snd (f x v)" L0 M] assms(1) assms(3) [OF Some]
    by (simp add: free_if_def)
qed

lemma stop_if_ok:
  assumes "holding held L0 M v" "\<not> b \<Longrightarrow> M' = M"
    and "b \<Longrightarrow> destroys_key opened held k f \<and> M k \<noteq> None \<and> \<not> used k M \<and> M(k := None) = M'"
  shows "opened (if b then snd (f v) else v) = opened v \<and> holding held L0 M' (if b then snd (f v) else v)"
  using free_if_ok [of held L0 M v "if b then Some () else None" M' opened "\<lambda>_. k" "\<lambda>_. f"] assms
  by (cases b) (auto simp: free_if_def)

lemma via_destroys:
  "f \<in> dom (api_fns api) \<Longrightarrow> (\<And>name. destroys_key opened held k (call name)) \<Longrightarrow>
   destroys_key opened held k (via api f call)"
  by (auto simp: destroys_key_def via_def)

section \<open>An owner of a queue pair\<close>

text \<open>A loaded interface: the functions of a session, of its network and, where commands are posted, those
  for posting.\<close>

definition api_ready :: "CannRaApi \<Rightarrow> bool" where
  "api_ready api \<longleftrightarrow> session_fns \<union> network_fns (api_network_profile api) \<subseteq> dom (api_fns api) \<and>
     api_network_profile api \<noteq> NetUnavailable \<and>
     (Acl_malloc \<in> dom (api_fns api) \<longrightarrow> Acl_free \<in> dom (api_fns api))"

definition core_objs :: "'c ra_core_scheme \<Rightarrow> objects" where
  "core_objs c k = (case k of
       KNet \<Rightarrow> if rc_network_bootstrapped c then Some [] else None
     | KInit \<Rightarrow> if rc_ra_initialized c then Some [KNet] else None
     | KRdev h \<Rightarrow> if rc_rdma_handle c = Some h then Some [KInit] else None
     | KQp h \<Rightarrow> if rc_qp_handle c = Some h then Some (rdev_uses (rc_rdma_handle c)) else None
     | _ \<Rightarrow> None)"

text \<open>The libraries open beyond \<open>O0\<close> are those of the object, the objects beyond \<open>L0\<close> are \<open>M\<close>; without a
  loaded interface there are none.\<close>

definition owner :: "('v \<Rightarrow> nat multiset) \<Rightarrow> ('v \<Rightarrow> objects) \<Rightarrow> nat multiset \<Rightarrow> objects \<Rightarrow> objects \<Rightarrow>
    'c ra_core_scheme \<Rightarrow> 'v \<Rightarrow> bool" where
  "owner opened held O0 L0 M c v \<longleftrightarrow> opened v = O0 + api_handles (rc_api c) \<and> holding held L0 M v \<and>
     (api_ready (rc_api c) \<or> rc_api c = closed_api \<and> M = Map.empty)"

text \<open>The process's network and library are down and nothing refers to them.\<close>

definition services_down :: "objects \<Rightarrow> bool" where
  "services_down L0 \<longleftrightarrow> L0 KNet = None \<and> L0 KInit = None \<and> \<not> used KNet L0 \<and> \<not> used KInit L0"

definition core_down :: "'c ra_core_scheme \<Rightarrow> bool" where
  "core_down c \<longleftrightarrow> \<not> rc_network_bootstrapped c \<and> \<not> rc_ra_initialized c \<and> rc_rdma_handle c = None \<and>
     rc_qp_handle c = None"

lemma core_down_objs [simp]: "core_down c \<Longrightarrow> core_objs c = Map.empty"
  by (rule ext) (auto simp: core_objs_def core_down_def split: rkey.splits)

lemma core_objs_update [simp]:
  "core_objs (c\<lparr>rc_api := a\<rparr>) = core_objs c" "core_objs (c\<lparr>rc_physical_device := p\<rparr>) = core_objs c"
  "core_objs (c\<lparr>rc_init_config := i\<rparr>) = core_objs c" "core_objs (c\<lparr>rc_local_qp := q\<rparr>) = core_objs c"
  "core_objs (c\<lparr>rc_capability_loaded := b\<rparr>) = core_objs c"
  "core_objs (c\<lparr>rc_effective_hdc_type := t\<rparr>) = core_objs c"
  by (rule ext, simp add: core_objs_def split: rkey.splits)+

lemma core_objs_at [simp]:
  "core_objs c KNet = (if rc_network_bootstrapped c then Some [] else None)"
  "core_objs c KInit = (if rc_ra_initialized c then Some [KNet] else None)"
  "core_objs c (KRdev h) = (if rc_rdma_handle c = Some h then Some [KInit] else None)"
  "core_objs c (KQp h) = (if rc_qp_handle c = Some h then Some (rdev_uses (rc_rdma_handle c)) else None)"
  "core_objs c (KMem a) = None" "core_objs c (KMr h) = None" "core_objs c (KFd f) = None"
  by (simp_all add: core_objs_def)

lemma core_objs_grow:
  "core_objs (c\<lparr>rc_network_bootstrapped := True\<rparr>) = (core_objs c)(KNet \<mapsto> [])"
  "core_objs (c\<lparr>rc_ra_initialized := True\<rparr>) = (core_objs c)(KInit \<mapsto> [KNet])"
  "rc_rdma_handle c = None \<Longrightarrow> rc_qp_handle c = None \<Longrightarrow>
     core_objs (c\<lparr>rc_rdma_handle := Some h\<rparr>) = (core_objs c)(KRdev h \<mapsto> [KInit])"
  "rc_qp_handle c = None \<Longrightarrow>
     core_objs (c\<lparr>rc_qp_handle := Some h\<rparr>) = (core_objs c)(KQp h \<mapsto> rdev_uses (rc_rdma_handle c))"
  "rc_rdma_handle c = None \<Longrightarrow> core_objs (c\<lparr>rc_rdma_handle := None\<rparr>) = core_objs c"
  "rc_qp_handle c = None \<Longrightarrow> core_objs (c\<lparr>rc_qp_handle := None\<rparr>) = core_objs c"
  "\<not> rc_ra_initialized c \<Longrightarrow> core_objs (c\<lparr>rc_ra_initialized := False\<rparr>) = core_objs c"
  "\<not> rc_network_bootstrapped c \<Longrightarrow> core_objs (c\<lparr>rc_network_bootstrapped := False\<rparr>) = core_objs c"
  by (rule ext, auto simp: core_objs_def split: rkey.splits)+

lemma core_objs_shrink:
  "(core_objs c)(KNet := None) = core_objs (c\<lparr>rc_network_bootstrapped := False\<rparr>)"
  "(core_objs c)(KInit := None) = core_objs (c\<lparr>rc_ra_initialized := False\<rparr>)"
  "rc_rdma_handle c = Some h \<Longrightarrow> rc_qp_handle c = None \<Longrightarrow>
     (core_objs c)(KRdev h := None) = core_objs (c\<lparr>rc_rdma_handle := None\<rparr>)"
  "rc_qp_handle c = Some h \<Longrightarrow> (core_objs c)(KQp h := None) = core_objs (c\<lparr>rc_qp_handle := None\<rparr>)"
  by (rule ext, auto simp: core_objs_def split: rkey.splits)+

lemma core_objs_used:
  "\<not> used (KQp h) (core_objs c)"
  "rc_qp_handle c = None \<Longrightarrow> \<not> used (KRdev h) (core_objs c)"
  "rc_rdma_handle c = None \<Longrightarrow> \<not> used KInit (core_objs c)"
  "\<not> rc_ra_initialized c \<Longrightarrow> \<not> used KNet (core_objs c)"
  by (auto simp: used_def core_objs_def rdev_uses_def split: rkey.splits option.splits if_splits)

text \<open>During the bring-up the object's further members \<open>m\<close> stay as they are.\<close>

definition core_inv :: "('v \<Rightarrow> nat multiset) \<Rightarrow> ('v \<Rightarrow> objects) \<Rightarrow> nat multiset \<Rightarrow> objects \<Rightarrow> 'c \<Rightarrow>
    'c ra_core_scheme \<Rightarrow> 'v \<Rightarrow> bool" where
  "core_inv opened held O0 L0 m c v \<longleftrightarrow> owner opened held O0 L0 (core_objs c) c v \<and> ra_core.more c = m"

text \<open>Triples for the steps: \<open>Q\<close> where a step goes on, \<open>J\<close> where it fails.\<close>

definition triple :: "('s \<Rightarrow> 'v \<Rightarrow> bool) \<Rightarrow> ('s \<Rightarrow> 'v \<Rightarrow> bool) \<Rightarrow> ('s \<Rightarrow> 'v \<Rightarrow> string option \<times> 's \<times> 'v) \<Rightarrow>
    ('s \<Rightarrow> 'v \<Rightarrow> bool) \<Rightarrow> bool" where
  "triple J P f Q \<longleftrightarrow> (\<forall>s v e s' v'. P s v \<and> f s v = (e, s', v') \<longrightarrow> (if e = None then Q s' v' else J s' v'))"

lemma tripleI:
  "(\<And>s v e s' v'. P s v \<Longrightarrow> f s v = (e, s', v') \<Longrightarrow> if e = None then Q s' v' else J s' v') \<Longrightarrow> triple J P f Q"
  by (auto simp: triple_def)

lemma triple_Nil: "triple J P (do_steps []) P"
  by (simp add: triple_def)

lemma triple_Cons:
  assumes "triple J P f Q" "triple J Q (do_steps fs) R"
  shows "triple J P (do_steps (f # fs)) R"
proof (rule tripleI)
  fix s v e s' v' assume p: "P s v" and run: "do_steps (f # fs) s v = (e, s', v')"
  obtain e1 s1 v1 where f: "f s v = (e1, s1, v1)" by (metis prod_cases3)
  have q: "if e1 = None then Q s1 v1 else J s1 v1" using assms(1) p f by (simp add: triple_def)
  show "if e = None then R s' v' else J s' v'"
  proof (cases e1)
    case None
    then show ?thesis using assms(2) q run f by (simp add: triple_def)
  next
    case (Some x)
    then show ?thesis using q run f by auto
  qed
qed

lemma triple_conseq:
  "triple J P f Q \<Longrightarrow> (\<And>s v. P' s v \<Longrightarrow> P s v) \<Longrightarrow> (\<And>s v. Q s v \<Longrightarrow> Q' s v) \<Longrightarrow> (\<And>s v. J s v \<Longrightarrow> J' s v) \<Longrightarrow>
   triple J' P' f Q'"
  unfolding triple_def by metis

lemma triple_append:
  assumes "triple J P (do_steps fs) Q" "triple J Q (do_steps gs) R"
  shows "triple J P (do_steps (fs @ gs)) R"
proof -
  have run: "do_steps (fs @ gs) s v =
      (case do_steps fs s v of (None, s, v) \<Rightarrow> do_steps gs s v | (Some e, s, v) \<Rightarrow> (Some e, s, v))" for s v
    by (induction fs arbitrary: s v) (auto split: prod.splits option.splits)
  show ?thesis
  proof (rule tripleI)
    fix s v e s' v' assume p: "P s v" and r: "do_steps (fs @ gs) s v = (e, s', v')"
    obtain e1 s1 v1 where f: "do_steps fs s v = (e1, s1, v1)" by (metis prod_cases3)
    have q: "if e1 = None then Q s1 v1 else J s1 v1" using assms(1) p f by (simp add: triple_def)
    show "if e = None then R s' v' else J s' v'"
    proof (cases e1)
      case None
      then show ?thesis using assms(2) q r f by (simp add: triple_def run)
    next
      case (Some x)
      then show ?thesis using q r f by (auto simp: run)
    qed
  qed
qed

section \<open>What the vendor libraries promise\<close>

definition flag :: "int \<times> 'a \<times> 'v \<Rightarrow> bool \<times> 'a \<times> 'v" where
  "flag r = (fst r = 0, snd r)"

locale cann_library = dl_library cn opened
  for cn :: "('v, 'z) cann_scheme" and opened :: "'v \<Rightarrow> nat multiset" +
  fixes held :: "'v \<Rightarrow> objects"
  assumes linker_keeps: "held (snd (dl_open cn path v)) = held v" "held (dl_close cn h v) = held v"
    and calm_calls: "calm opened held (cn_sleep_1ms cn)"
      "calm opened held (\<lambda>v. snd (cn_getaddrinfo cn host service v))"
      "calm opened held (cn_set_timeouts cn fd limits)"
      "calm opened held (\<lambda>v. snd (cn_connect cn fd addr v))"
      "calm opened held (\<lambda>v. snd (snd (cn_qp_modify cn name qp loc rem v)))"
      "calm opened held (\<lambda>v. snd (snd (cn_send_wr cn name qp wr v)))"
      "calm opened held (\<lambda>v. snd (snd (cn_poll_cq cn name qp sq n v)))"
      "calm opened held (\<lambda>v. snd (cn_set_device cn dev v))"
      "calm opened held (\<lambda>v. snd (cn_rdma_db_send cn idx info strm v))"
      "calm opened held (\<lambda>v. snd (snd (cn_get_physical_device cn dev v)))"
      "calm opened held (\<lambda>v. snd (cn_memcpy_to_device cn dst n src v))"
      "calm opened held (\<lambda>v. snd (snd (cn_memcpy_to_host cn n from len v)))"
    and makes_fd: "makes opened held KFd [] (\<lambda>v. case cn_socket cn addr v of (fd, v') \<Rightarrow> (True, fd, v'))"
    and makes_rdev: "makes opened held KRdev [KInit] (\<lambda>v. flag (cn_rdev_init_v2 cn name rinfo rdev v))"
      "makes opened held KRdev [KInit] (\<lambda>v. flag (cn_rdev_init_legacy cn name mode notify rdev v))"
    and makes_qp: "makes opened held KQp (rdev_uses rdma)
        (\<lambda>v. case cn_qp_create cn name rdma qtype qmode qp0 v of (st, out, h, v') \<Rightarrow> (st = 0, h, v'))"
    and makes_mr: "makes opened held KMr (mr_uses rdma (mi_address mr))
        (\<lambda>v. case cn_register_mr cn name rdma mr v of (st, out, h, v') \<Rightarrow> (st = 0, h, v'))"
    and makes_mem: "makes opened held KMem [] (\<lambda>v. flag (cn_malloc cn n policy v))"
    and starts_net: "starts opened held KNet [] (cn_open_net_service cn args)"
      "starts opened held KNet [] (cn_tsd_open cn tdev ranks)"
    and starts_init: "starts opened held KInit [KNet]
        (\<lambda>v. case cn_ra_init cn name config v of (st, out, v') \<Rightarrow> (st, v'))"
    and destroys_fd: "destroys_key opened held (KFd fd) (cn_close_fd cn fd)"
    and destroys_rdev: "destroys_key opened held (KRdev h) (cn_rdev_deinit cn name h notify)"
    and destroys_qp: "destroys_key opened held (KQp h) (cn_qp_destroy cn name h)"
    and destroys_mr: "destroys_key opened held (KMr h) (cn_deregister_mr cn name rdma h)"
    and destroys_mem: "destroys_key opened held (KMem a) (cn_free cn a)"
    and destroys_net: "destroys_key opened held KNet (cn_close_net_service cn)"
      "destroys_key opened held KNet (cn_tsd_close cn tdev)"
    and destroys_init: "destroys_key opened held KInit
        (\<lambda>v. case cn_ra_deinit cn name config v of (st, out, v') \<Rightarrow> (st, v'))"
begin

lemma calm_api:
  "SetDevice cn api dev v = (st, v') \<Longrightarrow> opened v' = opened v \<and> held v' = held v"
  "ResolvePhysicalDevice cn api dev phys v = (r, v') \<Longrightarrow> opened v' = opened v \<and> held v' = held v"
  "TypicalQpModify cn api qp loc rem v = (st, q, v') \<Longrightarrow> opened v' = opened v \<and> held v' = held v"
  "TypicalSendWr cn api qp wr v = (st, db, v') \<Longrightarrow> opened v' = opened v \<and> held v' = held v"
  "PollCq cn api qp sq n v = (st, wc, v') \<Longrightarrow> opened v' = opened v \<and> held v' = held v"
  "RdmaDbSend cn api idx info strm v = (st, v') \<Longrightarrow> opened v' = opened v \<and> held v' = held v"
  "MemcpyToDevice cn api dst n src v = (st, v') \<Longrightarrow> opened v' = opened v \<and> held v' = held v"
  "MemcpyToHost cn api n from len v = (st, out, v') \<Longrightarrow> opened v' = opened v \<and> held v' = held v"
  using calm_calls
  by (auto simp: api_calls ResolvePhysicalDevice_def via_def via_out_def calm_def
      split: option.splits if_splits prod.splits) (metis snd_conv)+

lemma loader_held:
  "LoaderOpen cn req err api v = (e, api', v') \<Longrightarrow> held v' = held v"
  "LoaderClose cn api v = (api', v') \<Longrightarrow> held v' = held v"
proof -
  have close: "held (snd (LoaderClose cn api v)) = held v" for api v
    by (simp add: LoaderClose_def close_handle_def linker_keeps split: option.splits)
  then show "LoaderClose cn api v = (api', v') \<Longrightarrow> held v' = held v" by (metis snd_conv)
  have lib: "OpenLibrary cn env fb v = (r, v') \<Longrightarrow> held v' = held v" for env fb v r v'
    using linker_keeps(1) by (auto simp: OpenLibrary_def Let_def split: prod.splits sum.splits) (metis snd_conv)+
  have opt: "OpenOptionalLibrary cn env fb er v = (r, v') \<Longrightarrow> held v' = held v" for env fb er v r v'
    using linker_keeps(1) by (auto simp: OpenOptionalLibrary_def Let_def split: prod.splits sum.splits) (metis snd_conv)+
  have net: "load_network cn rt er l v = (r, v') \<Longrightarrow> held v' = held v" for rt er l v r v'
    by (auto simp: load_network_def Let_def dest: opt split: if_splits prod.splits sum.splits)
  have syms: "load_symbols cn rq er ra rt acl v = (r, v') \<Longrightarrow> held v' = held v" for rq er ra rt acl v r v'
    by (auto simp: load_symbols_def Let_def dest: net split: prod.splits sum.splits)
  show "LoaderOpen cn req err api v = (e, api', v') \<Longrightarrow> held v' = held v"
    using close by (auto simp: LoaderOpen_def dest!: lib syms split: prod.splits sum.splits) (metis snd_conv)+
qed

lemma loaded_ready:
  assumes "LoaderOpen cn req err closed_api v = (None, api, v')"
  shows "api_ready api" "req \<Longrightarrow> posting_fns \<subseteq> dom (api_fns api)"
proof -
  obtain ra rt acl w where "load_symbols cn req err ra rt acl w = (Inr api, v')"
    using LoaderOpen_fns [OF assms] by blast
  from load_symbols_fns [OF this]
  have d: "dom (api_fns api) - {Acl_get_physical_device} = session_fns \<union> rdev_fn (api_rdev_init_profile api) \<union>
      network_fns (api_network_profile api) \<union> (if req then posting_fns else {})"
    and n: "api_network_profile api \<noteq> NetUnavailable" by blast+
  have "Acl_malloc \<in> dom (api_fns api) \<Longrightarrow> Acl_malloc \<in> dom (api_fns api) - {Acl_get_physical_device}" by simp
  then have "Acl_malloc \<in> dom (api_fns api) \<Longrightarrow> req"
    unfolding d by (auto simp: fn_sets split: CannRaRdevInitProfile.splits CannRaNetworkBootstrapProfile.splits if_splits)
  moreover have "req \<Longrightarrow> posting_fns \<subseteq> dom (api_fns api)" using d by auto
  ultimately show "api_ready api" "req \<Longrightarrow> posting_fns \<subseteq> dom (api_fns api)"
    using d n by (auto simp: api_ready_def posting_fns_def)
qed

lemma load_api_ok:
  fixes m :: 'c
  shows "triple (core_inv opened held O0 L0 m)
     (\<lambda>c v. core_inv opened held O0 L0 m c v \<and> core_down c \<and> rc_api c = closed_api) (load_api cn posting err)
     (\<lambda>c v. core_inv opened held O0 L0 m c v \<and> core_down c \<and> api_ready (rc_api c) \<and>
        (posting \<longrightarrow> posting_fns \<subseteq> dom (api_fns (rc_api c))))"
proof (rule tripleI)
  fix c v e c' v'
  assume p: "core_inv opened held O0 L0 m c v \<and> core_down c \<and> rc_api c = closed_api"
    and run: "load_api cn posting err c v = (e, c', v')"
  obtain e1 api w where l: "LoaderOpen cn posting err closed_api v = (e1, api, w)" by (metis prod_cases3)
  have o: "opened v = O0" "held v = L0"
    using p by (auto simp: core_inv_def owner_def closed_api_def api_handles_def handle_mset_def)
  have h: "held w = held v" using loader_held(1) [OF l] .
  note lo = LoaderOpen_opened [OF l]
  show "if e = None then core_inv opened held O0 L0 m c' v' \<and> core_down c' \<and> api_ready (rc_api c') \<and>
      (posting \<longrightarrow> posting_fns \<subseteq> dom (api_fns (rc_api c'))) else core_inv opened held O0 L0 m c' v'"
  proof (cases e1)
    case None
    have c': "e = None" "c' = c\<lparr>rc_api := api, rc_capability_loaded := True\<rparr>" "v' = w"
      using run p l None by (auto simp: load_api_def)
    moreover have "core_down c'" "core_objs c' = Map.empty" using p c' by (auto simp: core_down_def)
    ultimately show ?thesis using lo None loaded_ready [OF l [unfolded None]] o h p
      by (simp add: core_inv_def owner_def)
  next
    case (Some x)
    then have "e = Some x" "c' = c\<lparr>rc_api := closed_api\<rparr>" "v' = w" using run p l lo by (auto simp: load_api_def)
    then show ?thesis using lo Some o h p
      by (simp add: core_inv_def owner_def closed_api_def api_handles_def handle_mset_def)
  qed
qed

lemma owner_calm:
  "owner opened held O0 L0 M c v \<Longrightarrow> opened v' = opened v \<and> held v' = held v \<Longrightarrow> rc_api c' = rc_api c \<Longrightarrow>
   owner opened held O0 L0 M c' v'"
  by (simp add: owner_def holding_def)

lemma select_device_ok:
  fixes m :: 'c
  shows "triple (core_inv opened held O0 L0 m)
     (\<lambda>c v. core_inv opened held O0 L0 m c v \<and> core_down c \<and> api_ready (rc_api c) \<and> A (rc_api c))
     (select_device cn text logical physical err)
     (\<lambda>c v. core_inv opened held O0 L0 m c v \<and> core_down c \<and> api_ready (rc_api c) \<and> A (rc_api c))"
proof (rule tripleI)
  fix c v e c' v'
  assume p: "core_inv opened held O0 L0 m c v \<and> core_down c \<and> api_ready (rc_api c) \<and> A (rc_api c)"
    and run: "select_device cn text logical physical err c v = (e, c', v')"
  have f: "opened v' = opened v \<and> held v' = held v \<and> (c' = c \<or> (\<exists>p. c' = c\<lparr>rc_physical_device := p\<rparr>))"
    using run calm_api(1,2)
    by (auto simp: select_device_def split: prod.splits sum.splits if_splits)
  then have "core_inv opened held O0 L0 m c' v' \<and> core_down c' \<and> api_ready (rc_api c') \<and> A (rc_api c')"
    using p owner_calm [of O0 L0 "core_objs c" c v v' c'] by (auto simp: core_inv_def core_down_def)
  then show "if e = None then core_inv opened held O0 L0 m c' v' \<and> core_down c' \<and> api_ready (rc_api c') \<and> A (rc_api c')
      else core_inv opened held O0 L0 m c' v'" by simp
qed

text \<open>Calls through the pointers of a loaded interface.\<close>

lemma starts_holding:
  assumes "starts opened held k us f" "f v = (st, v')" "holding held L0 M v" "L0 k = None" "\<not> used k L0" "M k = None"
  shows "opened v' = opened v \<and> (st \<noteq> 0 \<longrightarrow> holding held L0 M v') \<and> (st = 0 \<longrightarrow> holding held L0 (M(k \<mapsto> us)) v')"
proof -
  have "held v k = None" using assms(3,4,6) by (simp add: holding_def map_add_None)
  then show ?thesis
    using assms(1,2) holding_insert [OF assms(3) _ assms(5), where v' = v' and us = us] holding_cong [of held v' v L0 M] assms(3)
    unfolding starts_def by blast
qed

lemma network_starts:
  assumes "BootstrapNetwork cn api logical hdc v = (st, v')" "holding held L0 M v" "services_down L0" "M KNet = None"
  shows "opened v' = opened v \<and> (st \<noteq> 0 \<longrightarrow> holding held L0 M v') \<and> (st = 0 \<longrightarrow> holding held L0 (M(KNet \<mapsto> [])) v')"
proof -
  note s = starts_holding [OF starts_net(1) _ assms(2) _ _ assms(4)] starts_holding [OF starts_net(2) _ assms(2) _ _ assms(4)]
  show ?thesis
    using assms(1,3) s assms(2)
    by (auto simp: BootstrapNetwork_def via_def kUnavailable_def services_down_def
        split: CannRaNetworkBootstrapProfile.splits option.splits)
qed

lemma init_starts:
  assumes "RaInit cn api config v = (st, out, v')" "holding held L0 M v" "services_down L0" "M KInit = None"
  shows "opened v' = opened v \<and> (st \<noteq> 0 \<longrightarrow> holding held L0 M v') \<and> (st = 0 \<longrightarrow> holding held L0 (M(KInit \<mapsto> [KNet])) v')"
proof (cases "api_fns api Ra_init")
  case None
  then show ?thesis using assms(1,2) by (auto simp: RaInit_def via_out_def kUnavailable_def)
next
  case (Some name)
  then have "(\<lambda>v. case cn_ra_init cn name config v of (st, out, v') \<Rightarrow> (st, v')) v = (st, v')"
    using assms(1) by (simp add: RaInit_def via_out_def)
  from starts_holding [OF starts_init this assms(2) _ _ assms(4)] assms(3) show ?thesis by (simp add: services_down_def)
qed

lemma rdev_makes:
  assumes "RdevInit cn api info rdev v = (st, h, v')" "holding held L0 M v"
  shows "opened v' = opened v \<and> (st \<noteq> 0 \<longrightarrow> h = None) \<and> (h = None \<longrightarrow> holding held L0 M v') \<and>
    (\<forall>x. h = Some x \<longrightarrow> M (KRdev x) = None \<and> \<not> used (KRdev x) M \<and> holding held L0 (M(KRdev x \<mapsto> [KInit])) v')"
proof (cases "api_fns api Ra_rdev_init_v2")
  case (Some name)
  then have "(\<lambda>v. flag (cn_rdev_init_v2 cn name info rdev v)) v = (st = 0, h, v')"
    using assms(1) by (simp add: RdevInit_def flag_def)
  from makes_holding [OF makes_rdev(1) this assms(2)] show ?thesis by simp
next
  case v1: None
  show ?thesis
  proof (cases "api_fns api Ra_rdev_init_legacy")
    case None
    then show ?thesis using assms v1 by (auto simp: RdevInit_def via_out_def kUnavailable_def)
  next
    case (Some name)
    then have "(\<lambda>v. flag (cn_rdev_init_legacy cn name (rn_mode info) (rn_notify_type info) rdev v)) v = (st = 0, h, v')"
      using assms(1) v1 by (simp add: RdevInit_def via_out_def flag_def)
    from makes_holding [OF makes_rdev(2) this assms(2)] show ?thesis by simp
  qed
qed

lemma qp_makes:
  assumes "TypicalQpCreate cn api rdma t md q v = (st, out, h, v')" "holding held L0 M v"
  shows "opened v' = opened v \<and> (st \<noteq> 0 \<longrightarrow> h = None) \<and> (h = None \<longrightarrow> holding held L0 M v') \<and>
    (\<forall>x. h = Some x \<longrightarrow> M (KQp x) = None \<and> \<not> used (KQp x) M \<and> holding held L0 (M(KQp x \<mapsto> rdev_uses rdma)) v')"
proof (cases "api_fns api Ra_typical_qp_create")
  case None
  then show ?thesis using assms by (auto simp: TypicalQpCreate_def via_handle_def kUnavailable_def)
next
  case (Some name)
  then have "(\<lambda>v. case cn_qp_create cn name rdma t md q v of (st, out, h, v') \<Rightarrow> (st = 0, h, v')) v = (st = 0, h, v')"
    using assms(1) by (simp add: TypicalQpCreate_def via_handle_def)
  from makes_holding [OF makes_qp this assms(2)] show ?thesis by simp
qed

lemma mr_makes:
  assumes "RegisterMr cn api rdma mr v = (st, out, h, v')" "holding held L0 M v"
  shows "opened v' = opened v \<and> (st \<noteq> 0 \<longrightarrow> h = None) \<and> (h = None \<longrightarrow> holding held L0 M v') \<and>
    (\<forall>x. h = Some x \<longrightarrow> M (KMr x) = None \<and> \<not> used (KMr x) M \<and>
       holding held L0 (M(KMr x \<mapsto> mr_uses rdma (mi_address mr))) v')"
proof (cases "api_fns api Ra_register_mr")
  case None
  then show ?thesis using assms by (auto simp: RegisterMr_def via_handle_def kUnavailable_def)
next
  case (Some name)
  then have "(\<lambda>v. case cn_register_mr cn name rdma mr v of (st, out, h, v') \<Rightarrow> (st = 0, h, v')) v = (st = 0, h, v')"
    using assms(1) by (simp add: RegisterMr_def via_handle_def)
  from makes_holding [OF makes_mr this assms(2)] show ?thesis by simp
qed

lemma mem_makes:
  assumes "DeviceMalloc cn api n policy v = (st, h, v')" "holding held L0 M v"
  shows "opened v' = opened v \<and> (st \<noteq> 0 \<longrightarrow> h = None) \<and> (h = None \<longrightarrow> holding held L0 M v') \<and>
    (\<forall>x. h = Some x \<longrightarrow> Acl_malloc \<in> dom (api_fns api) \<and> M (KMem x) = None \<and> \<not> used (KMem x) M \<and>
       holding held L0 (M(KMem x \<mapsto> [])) v')"
proof (cases "api_fns api Acl_malloc")
  case None
  then show ?thesis using assms by (auto simp: DeviceMalloc_def via_out_def kUnavailable_def)
next
  case (Some name)
  then have "(\<lambda>v. flag (cn_malloc cn n policy v)) v = (st = 0, h, v')"
    using assms(1) by (simp add: DeviceMalloc_def via_out_def flag_def)
  from makes_holding [OF makes_mem this assms(2)] Some show ?thesis by auto
qed

lemma fd_makes:
  assumes "cn_socket cn addr v = (fd, v')" "holding held L0 M v"
  shows "opened v' = opened v \<and> (fd = None \<longrightarrow> holding held L0 M v') \<and>
    (\<forall>x. fd = Some x \<longrightarrow> M (KFd x) = None \<and> \<not> used (KFd x) M \<and> holding held L0 (M(KFd x \<mapsto> [])) v')"
proof -
  have "(\<lambda>v. case cn_socket cn addr v of (fd, v') \<Rightarrow> (True, fd, v')) v = (True, fd, v')" using assms(1) by simp
  from makes_holding [OF makes_fd this assms(2)] show ?thesis by simp
qed

text \<open>Destroying through a loaded interface.\<close>

lemma destroys_api:
  "api_ready api \<Longrightarrow> destroys_key opened held (KQp h) (QpDestroy cn api h)"
  "api_ready api \<Longrightarrow> destroys_key opened held (KRdev h) (\<lambda>v. RdevDeinit cn api h notify v)"
  "api_ready api \<Longrightarrow> destroys_key opened held (KMr h) (DeregisterMr cn api rdma h)"
  "api_ready api \<Longrightarrow> Acl_malloc \<in> dom (api_fns api) \<Longrightarrow> destroys_key opened held (KMem a) (DeviceFree cn api a)"
  "api_ready api \<Longrightarrow> destroys_key opened held KNet (ShutdownNetwork cn api logical)"
  "api_ready api \<Longrightarrow> destroys_key opened held KInit
     (\<lambda>v. case RaDeinit cn api config v of (st, out, v') \<Rightarrow> (st, v'))"
proof -
  show "api_ready api \<Longrightarrow> destroys_key opened held (KQp h) (QpDestroy cn api h)"
    unfolding QpDestroy_def by (rule via_destroys) (auto simp: api_ready_def session_fns_def destroys_qp)
  show "api_ready api \<Longrightarrow> destroys_key opened held (KRdev h) (\<lambda>v. RdevDeinit cn api h notify v)"
    unfolding RdevDeinit_def by (rule via_destroys) (auto simp: api_ready_def session_fns_def destroys_rdev)
  show "api_ready api \<Longrightarrow> destroys_key opened held (KMr h) (DeregisterMr cn api rdma h)"
    unfolding DeregisterMr_def by (rule via_destroys) (auto simp: api_ready_def session_fns_def destroys_mr)
  show "api_ready api \<Longrightarrow> Acl_malloc \<in> dom (api_fns api) \<Longrightarrow> destroys_key opened held (KMem a) (DeviceFree cn api a)"
    unfolding DeviceFree_def by (rule via_destroys) (auto simp: api_ready_def destroys_mem)
  show "api_ready api \<Longrightarrow> destroys_key opened held KNet (ShutdownNetwork cn api logical)"
    using destroys_net by (auto simp: api_ready_def ShutdownNetwork_def via_def network_fns_def destroys_key_def
        split: CannRaNetworkBootstrapProfile.splits)
  show "api_ready api \<Longrightarrow> destroys_key opened held KInit
     (\<lambda>v. case RaDeinit cn api config v of (st, out, v') \<Rightarrow> (st, v'))"
    using destroys_init by (auto simp: api_ready_def session_fns_def RaDeinit_def via_out_def)
qed

lemma bootstrap_network_ok:
  fixes m :: 'c
  assumes "services_down L0"
  shows "triple (core_inv opened held O0 L0 m)
     (\<lambda>c v. core_inv opened held O0 L0 m c v \<and> core_down c \<and> api_ready (rc_api c) \<and> A (rc_api c))
     (bootstrap_network cn logical hdc)
     (\<lambda>c v. core_inv opened held O0 L0 m c v \<and> \<not> rc_ra_initialized c \<and> rc_rdma_handle c = None \<and>
        rc_qp_handle c = None \<and> api_ready (rc_api c) \<and> A (rc_api c))"
proof (rule tripleI)
  fix c v e c' v'
  assume p: "core_inv opened held O0 L0 m c v \<and> core_down c \<and> api_ready (rc_api c) \<and> A (rc_api c)"
    and run: "bootstrap_network cn logical hdc c v = (e, c', v')"
  let ?t = "EffectiveHdcType (rc_api c) hdc" and ?c = "c\<lparr>rc_effective_hdc_type := EffectiveHdcType (rc_api c) hdc\<rparr>"
  obtain st w where b: "BootstrapNetwork cn (rc_api c) (sint logical) ?t v = (st, w)" by fastforce
  have h: "holding held L0 (core_objs c) v" "core_objs c KNet = None" "opened v = O0 + api_handles (rc_api c)"
    using p by (auto simp: core_inv_def owner_def)
  have out: "v' = w" "e = None \<longleftrightarrow> st = 0" "c' = (if st = 0 then ?c\<lparr>rc_network_bootstrapped := True\<rparr> else ?c)"
    using run b by (auto simp: bootstrap_network_def Let_def kSuccess_def split: if_splits)
  have "core_inv opened held O0 L0 m c' v'"
    using network_starts [OF b h(1) assms h(2)] h(3) p out
    by (simp add: owner_def core_inv_def core_objs_grow)
  moreover have "\<not> rc_ra_initialized c'" "rc_rdma_handle c' = None" "rc_qp_handle c' = None" "rc_api c' = rc_api c"
    using p out by (simp_all add: core_down_def)
  ultimately show "if e = None then core_inv opened held O0 L0 m c' v' \<and> \<not> rc_ra_initialized c' \<and> rc_rdma_handle c' = None \<and>
        rc_qp_handle c' = None \<and> api_ready (rc_api c') \<and> A (rc_api c') else core_inv opened held O0 L0 m c' v'"
    using p by simp
qed

lemma init_ra_ok:
  fixes m :: 'c
  assumes "services_down L0"
  shows "triple (core_inv opened held O0 L0 m)
     (\<lambda>c v. core_inv opened held O0 L0 m c v \<and> \<not> rc_ra_initialized c \<and> rc_rdma_handle c = None \<and>
        rc_qp_handle c = None \<and> api_ready (rc_api c) \<and> A (rc_api c))
     (init_ra cn text)
     (\<lambda>c v. core_inv opened held O0 L0 m c v \<and> rc_rdma_handle c = None \<and>
        rc_qp_handle c = None \<and> api_ready (rc_api c) \<and> A (rc_api c))"
proof (rule tripleI)
  fix c v e c' v'
  assume p: "core_inv opened held O0 L0 m c v \<and> \<not> rc_ra_initialized c \<and> rc_rdma_handle c = None \<and>
        rc_qp_handle c = None \<and> api_ready (rc_api c) \<and> A (rc_api c)"
    and run: "init_ra cn text c v = (e, c', v')"
  obtain st out w where b: "RaInit cn (rc_api c) \<lparr>ri_phy_id = rc_physical_device c, ri_nic_position = kNicDeploymentDevice,
         ri_hdc_type = rc_effective_hdc_type c, ri_enable_hdc_async = False\<rparr> v = (st, out, w)" by (metis prod_cases3)
  let ?c = "c\<lparr>rc_init_config := out\<rparr>"
  have h: "holding held L0 (core_objs c) v" "core_objs c KInit = None" "opened v = O0 + api_handles (rc_api c)"
    using p by (auto simp: core_inv_def owner_def core_objs_def)
  have out: "v' = w" "e = None \<longleftrightarrow> st = 0" "c' = (if st = 0 then ?c\<lparr>rc_ra_initialized := True\<rparr> else ?c)"
    using run b by (auto simp: init_ra_def Let_def kSuccess_def split: if_splits)
  have "core_inv opened held O0 L0 m c' v'"
    using init_starts [OF b h(1) assms h(2)] h(3) p out
    by (simp add: owner_def core_inv_def core_objs_grow)
  moreover have "rc_rdma_handle c' = None" "rc_qp_handle c' = None" "rc_api c' = rc_api c"
    using p out by simp_all
  ultimately show "if e = None then core_inv opened held O0 L0 m c' v' \<and> rc_rdma_handle c' = None \<and>
        rc_qp_handle c' = None \<and> api_ready (rc_api c') \<and> A (rc_api c') else core_inv opened held O0 L0 m c' v'"
    using p by simp
qed

lemma open_rdev_ok:
  fixes m :: 'c
  shows "triple (core_inv opened held O0 L0 m)
     (\<lambda>c v. core_inv opened held O0 L0 m c v \<and> rc_rdma_handle c = None \<and>
        rc_qp_handle c = None \<and> api_ready (rc_api c) \<and> A (rc_api c))
     (open_rdev cn ip_text text ip)
     (\<lambda>c v. core_inv opened held O0 L0 m c v \<and> rc_qp_handle c = None \<and> api_ready (rc_api c) \<and> A (rc_api c))"
proof (rule tripleI)
  fix c v e c' v'
  assume p: "core_inv opened held O0 L0 m c v \<and> rc_rdma_handle c = None \<and>
        rc_qp_handle c = None \<and> api_ready (rc_api c) \<and> A (rc_api c)"
    and run: "open_rdev cn ip_text text ip c v = (e, c', v')"
  show "if e = None then core_inv opened held O0 L0 m c' v' \<and> rc_qp_handle c' = None \<and> api_ready (rc_api c') \<and> A (rc_api c')
      else core_inv opened held O0 L0 m c' v'"
  proof (cases "cn_inet_pton cn ip")
    case None
    then show ?thesis using run p by (auto simp: open_rdev_def)
  next
    case (Some addr)
    obtain st h w where b: "RdevInit cn (rc_api c) \<lparr>rn_mode = kNetworkOffline, rn_notify_type = kNotify,
             rn_enabled_910a_lite = False, rn_disabled_lite_thread = False, rn_enabled_2mb_lite = False\<rparr>
             \<lparr>rd_phy_id = rc_physical_device c, rd_family = AF_INET, rd_local_ip = addr\<rparr> v = (st, h, w)" by (metis prod_cases3)
    have out: "v' = w" "c' = c\<lparr>rc_rdma_handle := h\<rparr>"
      using run b Some by (auto simp: open_rdev_def Let_def split: if_splits)
    have "holding held L0 (core_objs c) v" "opened v = O0 + api_handles (rc_api c)"
      using p by (auto simp: core_inv_def owner_def)
    then have "owner opened held O0 L0 (core_objs c') c' v'"
      using rdev_makes [OF b] p out
      by (cases h) (auto simp: owner_def core_objs_grow)
    then show ?thesis using p out by (simp add: core_inv_def)
  qed
qed

lemma create_qp_ok:
  fixes m :: 'c
  shows "triple (core_inv opened held O0 L0 m)
     (\<lambda>c v. core_inv opened held O0 L0 m c v \<and> rc_qp_handle c = None \<and> api_ready (rc_api c) \<and> A (rc_api c))
     (create_qp cn text gid)
     (\<lambda>c v. core_inv opened held O0 L0 m c v \<and> api_ready (rc_api c) \<and> A (rc_api c))"
proof (rule tripleI)
  fix c v e c' v'
  assume p: "core_inv opened held O0 L0 m c v \<and> rc_qp_handle c = None \<and> api_ready (rc_api c) \<and> A (rc_api c)"
    and run: "create_qp cn text gid c v = (e, c', v')"
  obtain st q h w where b: "TypicalQpCreate cn (rc_api c) (rc_rdma_handle c) 0 kOpbaseQpMode
      ((rc_local_qp c)\<lparr>tq_gid_index := gid\<rparr>) v = (st, q, h, w)" by (metis prod_cases4)
  have out: "v' = w" "c' = c\<lparr>rc_local_qp := q, rc_qp_handle := h\<rparr>"
    using run b by (auto simp: create_qp_def Let_def split: if_splits)
  have "holding held L0 (core_objs c) v" "opened v = O0 + api_handles (rc_api c)"
    using p by (auto simp: core_inv_def owner_def)
  then have "owner opened held O0 L0 (core_objs c') c' v'"
    using qp_makes [OF b] p out by (cases h) (auto simp: owner_def core_objs_grow)
  then show "if e = None then core_inv opened held O0 L0 m c' v' \<and> api_ready (rc_api c') \<and> A (rc_api c')
      else core_inv opened held O0 L0 m c' v'"
    using p out by (simp add: core_inv_def)
qed

lemma connect_qp_calm:
  assumes "connect_qp cn text peer c v = (e, c', v')"
  shows "opened v' = opened v \<and> held v' = held v \<and> (\<exists>q. c' = c\<lparr>rc_local_qp := q\<rparr>)"
  using assms calm_api(3) by (auto simp: connect_qp_def Let_def split: prod.splits if_splits)

text \<open>The bring-up as a whole, from an object that holds nothing.\<close>

lemma bring_up_ok:
  fixes m :: 'c
  assumes "services_down L0"
  shows "triple (core_inv opened held O0 L0 m)
     (\<lambda>c v. core_inv opened held O0 L0 m c v \<and> core_down c \<and> rc_api c = closed_api)
     (do_steps [load_api cn posting err, select_device cn t1 logical physical err, bootstrap_network cn logical hdc,
        init_ra cn t2, open_rdev cn t3 t4 ip, create_qp cn t5 gid])
     (\<lambda>c v. core_inv opened held O0 L0 m c v \<and> api_ready (rc_api c) \<and>
        (posting \<longrightarrow> posting_fns \<subseteq> dom (api_fns (rc_api c))))"
  by (rule triple_Cons [OF load_api_ok triple_Cons [OF select_device_ok triple_Cons [OF bootstrap_network_ok [OF assms]
      triple_Cons [OF init_ra_ok [OF assms] triple_Cons [OF open_rdev_ok triple_Cons [OF create_qp_ok triple_Nil]]]]]])

text \<open>The tear-down gives everything back.\<close>

lemma core_cleanup_ok:
  assumes own: "owner opened held O0 L0 (core_objs c) c v"
    and run: "core_cleanup cn logical c v = (c', v')"
  shows "opened v' = O0 \<and> held v' = L0 \<and> core_down c' \<and> rc_api c' = closed_api \<and> ra_core.more c' = ra_core.more c"
proof -
  let ?api = "rc_api c"
  define w1 where "w1 = free_if (QpDestroy cn ?api) (rc_qp_handle c) v"
  define w2 where "w2 = free_if (\<lambda>h. RdevDeinit cn ?api h kNotify) (rc_rdma_handle c) w1"
  define w3 where "w3 = (if rc_ra_initialized c then snd (snd (RaDeinit cn ?api (rc_init_config c) w2)) else w2)"
  define w4 where "w4 = (if rc_network_bootstrapped c then snd (ShutdownNetwork cn ?api (sint logical) w3) else w3)"
  have out: "v' = snd (LoaderClose cn ?api w4)" "core_down c'" "rc_api c' = closed_api" "ra_core.more c' = ra_core.more c"
    using run by (auto simp: core_cleanup_def Let_def w1_def w2_def w3_def w4_def LoaderClose_def core_down_def
        split: prod.splits if_splits)
  have "opened w4 = opened v \<and> held w4 = L0"
  proof (cases "api_ready ?api")
    case True
    note d = destroys_api [OF True]
    let ?c1 = "c\<lparr>rc_qp_handle := None\<rparr>" let ?c2 = "?c1\<lparr>rc_rdma_handle := None\<rparr>"
    let ?c3 = "?c2\<lparr>rc_ra_initialized := False\<rparr>" let ?c4 = "?c3\<lparr>rc_network_bootstrapped := False\<rparr>"
    have 0: "holding held L0 (core_objs c) v" using own by (simp add: owner_def)
    have 1: "opened w1 = opened v \<and> holding held L0 (core_objs ?c1) w1" unfolding w1_def
      by (rule free_if_ok [where k = KQp, OF 0]) (auto simp: core_objs_grow d core_objs_used core_objs_shrink)
    have 2: "opened w2 = opened w1 \<and> holding held L0 (core_objs ?c2) w2" unfolding w2_def
      by (rule free_if_ok [where k = KRdev, OF conjunct2 [OF 1]])
        (auto simp: core_objs_grow d core_objs_used core_objs_shrink)
    have 3: "opened w3 = opened w2 \<and> holding held L0 (core_objs ?c3) w3"
    proof -
      let ?f = "\<lambda>v. case RaDeinit cn ?api (rc_init_config c) v of (st, out, v') \<Rightarrow> (st, v')"
      have w3: "w3 = (if rc_ra_initialized c then snd (?f w2) else w2)" by (simp add: w3_def split: prod.splits)
      show ?thesis unfolding w3
        by (rule stop_if_ok [where k = KInit, OF conjunct2 [OF 2]])
          (simp_all add: core_objs_grow d core_objs_used core_objs_shrink)
    qed
    have 4: "opened w4 = opened w3 \<and> holding held L0 (core_objs ?c4) w4" unfolding w4_def
      by (rule stop_if_ok [where k = KNet, OF conjunct2 [OF 3]])
        (auto simp: core_objs_grow d core_objs_used core_objs_shrink)
    have "core_objs ?c4 = Map.empty" by (rule core_down_objs) (simp add: core_down_def)
    then show ?thesis using 1 2 3 4 by simp
  next
    case False
    then have "core_objs c = Map.empty" using own by (simp add: owner_def)
    then have "core_down c"
      by (auto simp: core_down_def core_objs_def fun_eq_iff split: rkey.splits if_splits) (metis not_None_eq)+
    then show ?thesis using own by (simp add: w1_def w2_def w3_def w4_def free_if_def core_down_def owner_def)
  qed
  then show ?thesis using out own LoaderClose_opened [of ?api w4] loader_held(2) [of ?api w4 "fst (LoaderClose cn ?api w4)" v']
    by (simp add: owner_def)
qed

end

end
