(* ===== verification/Payload_Plan.thy ===== *)
theory Payload_Plan
  imports Flume_Prelude
begin

text \<open>
  The HCOMM payload scheduler's plans (\<open>src/hcomm_payload/payload_backend.h\<close>, \<open>payload_backend.cc\<close>).

  The plan builders with all their argument checks, the resource descriptor and the textual
  descriptions.  The null checks of the output pointers are not represented: every builder returns
  its plan.  \<open>custom_op\<close> is the compile-time switch \<open>FLUME_BUILD_HCOMM_CUSTOM_OP\<close>.  The second half lets
  the plans of a pair of ranks run interleaved, over a parameter for the vendor's primitives that
  only the contract of channel notifies constrains, and shows that matching plans cannot deadlock
  and fix the order of the calls on both ranks.
\<close>

section \<open>Data\<close>

datatype SchedulerStatus = kUnavailable | kCustomOpBuildDisabled | kCustomOpLaunchMissing | kReady

datatype PayloadRole = kSend | kRecv

datatype PayloadStep = kLocalCopyInputToHcclBuffer | kChannelNotifyRecordReady
  | kChannelNotifyWaitReady | kChannelReadRemoteToLocalHcclBuffer | kChannelNotifyWaitDone
  | kChannelNotifyRecordDone | kLocalCopyLocalHcclBufferToOutput | kChannelReadRemoteToOutput
  | kChannelWriteLocalToRemoteHcclBuffer | kChannelWriteWithNotifyLocalToRemoteHcclBuffer
  | kChannelFence

datatype PayloadTransferMode = TmRead | TmWrite | TmWriteWithNotify
datatype PayloadRecvPath = kLocalBuffer | kDirectOutput
datatype PayloadCommBinding = kCommName | kDiagnosticSkip | kChannelHandle
datatype PayloadCompletionMode = kOrderedNotify | CmChannelFence

record PayloadPlanOptions =
  po_transfer_mode :: PayloadTransferMode
  po_recv_path :: PayloadRecvPath
  po_comm_binding :: PayloadCommBinding
  po_completion_mode :: PayloadCompletionMode
  po_batch_enabled :: bool

definition default_options :: PayloadPlanOptions where
  "default_options = \<lparr>po_transfer_mode = TmRead, po_recv_path = kLocalBuffer,
     po_comm_binding = kCommName, po_completion_mode = kOrderedNotify, po_batch_enabled = True\<rparr>"

datatype CustomOpLaunchSmokeStep = kResolveScheduler | kPackageNoopKernelArgs
  | kSubmitNoopCustomOp | kSyncStream

datatype NotifyOnlyStep = NoConsumeResourceDescriptor | NoChannelNotifyRecordReady
  | NoChannelNotifyWaitReady | NoChannelNotifyRecordDone | NoChannelNotifyWaitDone

record PayloadPlan =
  pp_role :: PayloadRole
  pp_local_rank :: u32
  pp_peer_rank :: u32
  pp_rank_size :: u32
  pp_bytes :: u64
  pp_ready_notify_idx :: u32
  pp_done_notify_idx :: u32
  pp_transfer_mode :: PayloadTransferMode
  pp_recv_path :: PayloadRecvPath
  pp_comm_binding :: PayloadCommBinding
  pp_completion_mode :: PayloadCompletionMode
  pp_batch_enabled :: bool
  pp_steps :: "PayloadStep list"

record NotifyOnlyPlan =
  np_role :: PayloadRole
  np_local_rank :: u32
  np_peer_rank :: u32
  np_rank_size :: u32
  np_ready_notify_idx :: u32
  np_done_notify_idx :: u32
  np_timeout_sec :: u32
  np_steps :: "NotifyOnlyStep list"

record CustomOpLaunchSmokePlan =
  lp_local_rank :: u32
  lp_peer_rank :: u32
  lp_rank_size :: u32
  lp_steps :: "CustomOpLaunchSmokeStep list"

record ResourceDescriptor =
  rd_local_rank :: u32
  rd_peer_rank :: u32
  rd_rank_size :: u32
  rd_channel_count :: u32
  rd_notify_num :: u32
  rd_ready_notify_idx :: u32
  rd_done_notify_idx :: u32
  rd_local_hccl_buffer_bytes :: u64
  rd_remote_hccl_buffer_bytes :: u64
  rd_usable_hccl_buffer_bytes :: u64
  rd_local_hccl_buffer_acquired :: bool
  rd_remote_hccl_buffer_acquired :: bool
  rd_thread_export_required :: bool
  rd_resolved_engine :: string
  rd_resolved_protocol :: string
  rd_channel_desc_source :: string

section \<open>Names\<close>

definition CurrentSchedulerStatus :: "bool \<Rightarrow> SchedulerStatus" where
  "CurrentSchedulerStatus custom_op =
    (if custom_op then kCustomOpLaunchMissing else kCustomOpBuildDisabled)"

fun SchedulerStatusMessage :: "SchedulerStatus \<Rightarrow> string" where
  "SchedulerStatusMessage kCustomOpBuildDisabled = ''custom-op/AICPU scheduler build disabled''"
| "SchedulerStatusMessage kCustomOpLaunchMissing = ''custom-op/AICPU scheduler launch missing''"
| "SchedulerStatusMessage kReady = ''custom-op/AICPU scheduler ready''"
| "SchedulerStatusMessage kUnavailable = ''HCOMM payload scheduler unavailable''"

fun PayloadRoleName :: "PayloadRole \<Rightarrow> string" where
  "PayloadRoleName kSend = ''send''"
| "PayloadRoleName kRecv = ''recv''"

fun PayloadStepName :: "PayloadStep \<Rightarrow> string" where
  "PayloadStepName kLocalCopyInputToHcclBuffer = ''HcommLocalCopyOnThread(input->local_hccl_buffer)''"
| "PayloadStepName kChannelNotifyRecordReady = ''HcommChannelNotifyRecordOnThread(ready)''"
| "PayloadStepName kChannelNotifyWaitReady = ''HcommChannelNotifyWaitOnThread(ready)''"
| "PayloadStepName kChannelReadRemoteToLocalHcclBuffer =
     ''HcommReadOnThread(remote_hccl_buffer->local_hccl_buffer)''"
| "PayloadStepName kChannelNotifyWaitDone = ''HcommChannelNotifyWaitOnThread(done)''"
| "PayloadStepName kChannelNotifyRecordDone = ''HcommChannelNotifyRecordOnThread(done)''"
| "PayloadStepName kLocalCopyLocalHcclBufferToOutput =
     ''HcommLocalCopyOnThread(local_hccl_buffer->output)''"
| "PayloadStepName kChannelReadRemoteToOutput = ''HcommReadOnThread(remote_hccl_buffer->output)''"
| "PayloadStepName kChannelWriteLocalToRemoteHcclBuffer =
     ''HcommWriteOnThread(local_hccl_buffer->remote_hccl_buffer)''"
| "PayloadStepName kChannelWriteWithNotifyLocalToRemoteHcclBuffer =
     ''HcommWriteWithNotifyOnThread(local_hccl_buffer->remote_hccl_buffer,ready)''"
| "PayloadStepName kChannelFence = ''HCOMM channel fence (on-thread or legacy)''"

fun PayloadTransferModeName :: "PayloadTransferMode \<Rightarrow> string" where
  "PayloadTransferModeName TmRead = ''read''"
| "PayloadTransferModeName TmWrite = ''write''"
| "PayloadTransferModeName TmWriteWithNotify = ''write-with-notify''"

fun PayloadRecvPathName :: "PayloadRecvPath \<Rightarrow> string" where
  "PayloadRecvPathName kLocalBuffer = ''local-buffer''"
| "PayloadRecvPathName kDirectOutput = ''direct-output''"

fun PayloadCommBindingName :: "PayloadCommBinding \<Rightarrow> string" where
  "PayloadCommBindingName kCommName = ''comm-name''"
| "PayloadCommBindingName kDiagnosticSkip = ''diagnostic-skip''"
| "PayloadCommBindingName kChannelHandle = ''channel-handle''"

fun PayloadCompletionModeName :: "PayloadCompletionMode \<Rightarrow> string" where
  "PayloadCompletionModeName kOrderedNotify = ''ordered-notify''"
| "PayloadCompletionModeName CmChannelFence = ''channel-fence''"

fun CustomOpLaunchSmokeStepName :: "CustomOpLaunchSmokeStep \<Rightarrow> string" where
  "CustomOpLaunchSmokeStepName kResolveScheduler = ''resolve custom-op/AICPU scheduler''"
| "CustomOpLaunchSmokeStepName kPackageNoopKernelArgs = ''package no-op kernel args''"
| "CustomOpLaunchSmokeStepName kSubmitNoopCustomOp = ''submit no-op custom-op''"
| "CustomOpLaunchSmokeStepName kSyncStream = ''sync launch stream''"

fun NotifyOnlyStepName :: "NotifyOnlyStep \<Rightarrow> string" where
  "NotifyOnlyStepName NoConsumeResourceDescriptor = ''consume resource descriptor''"
| "NotifyOnlyStepName NoChannelNotifyRecordReady = ''HcommChannelNotifyRecordOnThread(ready)''"
| "NotifyOnlyStepName NoChannelNotifyWaitReady = ''HcommChannelNotifyWaitOnThread(ready)''"
| "NotifyOnlyStepName NoChannelNotifyRecordDone = ''HcommChannelNotifyRecordOnThread(done)''"
| "NotifyOnlyStepName NoChannelNotifyWaitDone = ''HcommChannelNotifyWaitOnThread(done)''"

section \<open>Plan builders\<close>

definition bad_pair :: "u32 \<Rightarrow> u32 \<Rightarrow> u32 \<Rightarrow> bool" where
  "bad_pair local_rank peer_rank rank_size \<longleftrightarrow>
     rank_size \<le> local_rank \<or> rank_size \<le> peer_rank \<or> local_rank = peer_rank"

definition pair_copy_steps :: "PayloadRole \<Rightarrow> PayloadPlanOptions \<Rightarrow> PayloadStep list" where
  "pair_copy_steps role opts =
    (let fence = (if po_completion_mode opts = CmChannelFence then [kChannelFence] else []) in
     if role = kSend then
       [kLocalCopyInputToHcclBuffer] @
       (if po_transfer_mode opts = TmWriteWithNotify then
          [kChannelWriteWithNotifyLocalToRemoteHcclBuffer] @ fence
        else if po_transfer_mode opts = TmWrite then
          [kChannelWriteLocalToRemoteHcclBuffer] @ fence @ [kChannelNotifyRecordReady]
        else [kChannelNotifyRecordReady]) @
       [kChannelNotifyWaitDone]
     else
       [kChannelNotifyWaitReady] @
       (if po_transfer_mode opts = TmRead then
          (if po_recv_path opts = kDirectOutput then [kChannelReadRemoteToOutput]
           else [kChannelReadRemoteToLocalHcclBuffer]) @ fence
        else []) @
       (if po_transfer_mode opts \<noteq> TmRead \<or> po_recv_path opts \<noteq> kDirectOutput
        then [kLocalCopyLocalHcclBufferToOutput] else []) @
       [kChannelNotifyRecordDone])"

definition BuildPairCopyPlanWithOptions ::
  "PayloadRole \<Rightarrow> u32 \<Rightarrow> u32 \<Rightarrow> u32 \<Rightarrow> u64 \<Rightarrow> PayloadPlanOptions \<Rightarrow> string + PayloadPlan" where
  "BuildPairCopyPlanWithOptions role local_rank peer_rank rank_size bts opts =
    (if rank_size \<noteq> 2 then Inl ''HCOMM payload pair-copy plan requires exactly two ranks''
     else if bad_pair local_rank peer_rank rank_size then Inl ''invalid HCOMM payload peer rank''
     else if bts = 0 then Inl ''HCOMM payload plan requires non-zero bytes''
     else if po_transfer_mode opts = TmWriteWithNotify \<and> role = kRecv \<and> po_recv_path opts = kDirectOutput
       then Inl ''write-with-notify receive path uses local HCCL Buffer output''
     else if po_transfer_mode opts = TmWrite \<and> role = kRecv \<and> po_recv_path opts = kDirectOutput
       then Inl ''write receive path uses local HCCL Buffer output''
     else Inr \<lparr>pp_role = role, pp_local_rank = local_rank, pp_peer_rank = peer_rank,
       pp_rank_size = rank_size, pp_bytes = bts, pp_ready_notify_idx = 0, pp_done_notify_idx = 1,
       pp_transfer_mode = po_transfer_mode opts, pp_recv_path = po_recv_path opts,
       pp_comm_binding = po_comm_binding opts, pp_completion_mode = po_completion_mode opts,
       pp_batch_enabled = po_batch_enabled opts, pp_steps = pair_copy_steps role opts\<rparr>)"

definition BuildPairCopyPlan :: "PayloadRole \<Rightarrow> u32 \<Rightarrow> u32 \<Rightarrow> u32 \<Rightarrow> u64 \<Rightarrow> string + PayloadPlan" where
  "BuildPairCopyPlan role local_rank peer_rank rank_size bts =
     BuildPairCopyPlanWithOptions role local_rank peer_rank rank_size bts default_options"

definition BuildCustomOpLaunchSmokePlan ::
  "u32 \<Rightarrow> u32 \<Rightarrow> u32 \<Rightarrow> string + CustomOpLaunchSmokePlan" where
  "BuildCustomOpLaunchSmokePlan local_rank peer_rank rank_size =
    (if rank_size \<noteq> 2 then Inl ''custom-op launch smoke requires exactly two ranks''
     else if bad_pair local_rank peer_rank rank_size then Inl ''invalid custom-op launch smoke peer rank''
     else Inr \<lparr>lp_local_rank = local_rank, lp_peer_rank = peer_rank, lp_rank_size = rank_size,
       lp_steps = [kResolveScheduler, kPackageNoopKernelArgs, kSubmitNoopCustomOp, kSyncStream]\<rparr>)"

definition BuildResourceDescriptor ::
  "u32 \<Rightarrow> u32 \<Rightarrow> u32 \<Rightarrow> u32 \<Rightarrow> u32 \<Rightarrow> u64 \<Rightarrow> u64 \<Rightarrow> bool \<Rightarrow> string \<Rightarrow> string \<Rightarrow> string \<Rightarrow>
   string + ResourceDescriptor" where
  "BuildResourceDescriptor local_rank peer_rank rank_size channel_count notify_num local_bytes
     remote_bytes thread_export engine protocol source =
    (if rank_size \<noteq> 2 then Inl ''HCOMM resource descriptor smoke requires exactly two ranks''
     else if bad_pair local_rank peer_rank rank_size
       then Inl ''invalid HCOMM resource descriptor peer rank''
     else if channel_count = 0 then Inl ''HCOMM resource descriptor requires at least one channel''
     else if notify_num < 2 then Inl ''HCOMM resource descriptor requires at least two notifies''
     else if local_bytes = 0 \<or> remote_bytes = 0
       then Inl ''HCOMM resource descriptor requires non-empty HCCL buffers''
     else if engine = [] \<or> protocol = [] \<or> source = []
       then Inl ''HCOMM resource descriptor metadata is incomplete''
     else Inr \<lparr>rd_local_rank = local_rank, rd_peer_rank = peer_rank, rd_rank_size = rank_size,
       rd_channel_count = channel_count, rd_notify_num = notify_num, rd_ready_notify_idx = 0,
       rd_done_notify_idx = 1, rd_local_hccl_buffer_bytes = local_bytes,
       rd_remote_hccl_buffer_bytes = remote_bytes,
       rd_usable_hccl_buffer_bytes = min local_bytes remote_bytes,
       rd_local_hccl_buffer_acquired = True, rd_remote_hccl_buffer_acquired = True,
       rd_thread_export_required = thread_export, rd_resolved_engine = engine,
       rd_resolved_protocol = protocol, rd_channel_desc_source = source\<rparr>)"

definition notify_only_steps :: "PayloadRole \<Rightarrow> NotifyOnlyStep list" where
  "notify_only_steps role =
    (if role = kSend
     then [NoConsumeResourceDescriptor, NoChannelNotifyRecordReady, NoChannelNotifyWaitDone]
     else [NoConsumeResourceDescriptor, NoChannelNotifyWaitReady, NoChannelNotifyRecordDone])"

definition BuildNotifyOnlyPlan ::
  "PayloadRole \<Rightarrow> u32 \<Rightarrow> u32 \<Rightarrow> u32 \<Rightarrow> u32 \<Rightarrow> u32 \<Rightarrow> string + NotifyOnlyPlan" where
  "BuildNotifyOnlyPlan role local_rank peer_rank rank_size ready_idx done_idx =
    (if rank_size \<noteq> 2 then Inl ''HCOMM notify-only smoke requires exactly two ranks''
     else if bad_pair local_rank peer_rank rank_size then Inl ''invalid HCOMM notify-only peer rank''
     else if ready_idx = done_idx
       then Inl ''HCOMM notify-only plan requires distinct ready/done notify indices''
     else Inr \<lparr>np_role = role, np_local_rank = local_rank, np_peer_rank = peer_rank,
       np_rank_size = rank_size, np_ready_notify_idx = ready_idx, np_done_notify_idx = done_idx,
       np_timeout_sec = 60, np_steps = notify_only_steps role\<rparr>)"

section \<open>Descriptions\<close>

definition DescribePlan :: "bool \<Rightarrow> PayloadPlan \<Rightarrow> string" where
  "DescribePlan custom_op p =
     ''stage3b_plan=pair-copy'' @
     '' role='' @ PayloadRoleName (pp_role p) @
     '' local_rank='' @ dec (unat (pp_local_rank p)) @
     '' peer_rank='' @ dec (unat (pp_peer_rank p)) @
     '' bytes='' @ dec (unat (pp_bytes p)) @
     '' ready_notify_idx='' @ dec (unat (pp_ready_notify_idx p)) @
     '' done_notify_idx='' @ dec (unat (pp_done_notify_idx p)) @
     '' transfer_mode='' @ PayloadTransferModeName (pp_transfer_mode p) @
     '' recv_path='' @ PayloadRecvPathName (pp_recv_path p) @
     '' comm_binding='' @ PayloadCommBindingName (pp_comm_binding p) @
     '' completion_mode='' @ PayloadCompletionModeName (pp_completion_mode p) @
     '' batch_mode='' @ (if pp_batch_enabled p then ''on'' else ''off'') @
     '' scheduler='' @ SchedulerStatusMessage (CurrentSchedulerStatus custom_op) @
     '' steps=['' @ sep_concat '' -> '' (map PayloadStepName (pp_steps p)) @ '']''"

definition DescribeCustomOpLaunchSmokePlan :: "bool \<Rightarrow> CustomOpLaunchSmokePlan \<Rightarrow> string" where
  "DescribeCustomOpLaunchSmokePlan custom_op p =
     ''stage3b1_launch_plan=noop-custom-op'' @
     '' local_rank='' @ dec (unat (lp_local_rank p)) @
     '' peer_rank='' @ dec (unat (lp_peer_rank p)) @
     '' scheduler='' @ SchedulerStatusMessage (CurrentSchedulerStatus custom_op) @
     '' steps=['' @ sep_concat '' -> '' (map CustomOpLaunchSmokeStepName (lp_steps p)) @ '']''"

definition DescribeResourceDescriptor :: "ResourceDescriptor \<Rightarrow> string" where
  "DescribeResourceDescriptor d =
     ''stage3b2_resource_descriptor=host-packaged'' @
     '' local_rank='' @ dec (unat (rd_local_rank d)) @
     '' peer_rank='' @ dec (unat (rd_peer_rank d)) @
     '' channel_count='' @ dec (unat (rd_channel_count d)) @
     '' notify_num='' @ dec (unat (rd_notify_num d)) @
     '' ready_notify_idx='' @ dec (unat (rd_ready_notify_idx d)) @
     '' done_notify_idx='' @ dec (unat (rd_done_notify_idx d)) @
     '' local_hccl_buffer=acquired'' @
     '' remote_hccl_buffer=acquired'' @
     '' usable_hccl_buffer_bytes='' @ dec (unat (rd_usable_hccl_buffer_bytes d)) @
     '' resolved_engine='' @ rd_resolved_engine d @
     '' resolved_protocol='' @ rd_resolved_protocol d @
     '' channel_desc='' @ rd_channel_desc_source d @
     '' thread_export='' @ (if rd_thread_export_required d then ''required'' else ''not-required'') @
     '' handoff=missing''"

definition DescribeNotifyOnlyPlan :: "bool \<Rightarrow> NotifyOnlyPlan \<Rightarrow> string" where
  "DescribeNotifyOnlyPlan custom_op p =
     ''stage3b2_notify_only_plan=channel-notify'' @
     '' role='' @ PayloadRoleName (np_role p) @
     '' local_rank='' @ dec (unat (np_local_rank p)) @
     '' peer_rank='' @ dec (unat (np_peer_rank p)) @
     '' ready_notify_idx='' @ dec (unat (np_ready_notify_idx p)) @
     '' done_notify_idx='' @ dec (unat (np_done_notify_idx p)) @
     '' timeout_sec='' @ dec (unat (np_timeout_sec p)) @
     '' scheduler='' @ SchedulerStatusMessage (CurrentSchedulerStatus custom_op) @
     '' steps=['' @ sep_concat '' -> '' (map NotifyOnlyStepName (np_steps p)) @ '']''"

section \<open>Two ranks executing their plans\<close>

text \<open>
  The HCOMM primitives are not part of the program.  What the plans rely on is a parameter:
  \<open>returns t e\<close> says whether the call \<open>e\<close> (a rank's role and its step) returns when the calls of \<open>t\<close> have
  returned.  The named hypothesis \<open>notify_contract\<close> is the documented behaviour of channel notifies,
  a wait returns once the peer has recorded that notify and not before, together with the return of
  every other call.  Nothing is assumed about when data moves, so the theorem speaks about the order
  of the calls, fences included.
\<close>

type_synonym pair_event = "PayloadRole \<times> PayloadStep"

definition recorded :: "pair_event list \<Rightarrow> pair_event \<Rightarrow> bool" where
  "recorded t e =
    (if e = (kRecv, kChannelNotifyWaitReady) then
       (kSend, kChannelNotifyRecordReady) \<in> set t \<or>
       (kSend, kChannelWriteWithNotifyLocalToRemoteHcclBuffer) \<in> set t
     else if e = (kSend, kChannelNotifyWaitDone) then (kRecv, kChannelNotifyRecordDone) \<in> set t
     else True)"

definition notify_contract :: "(pair_event list \<Rightarrow> pair_event \<Rightarrow> bool) \<Rightarrow> bool" where
  "notify_contract returns \<longleftrightarrow>
     (\<forall>t. returns t (kRecv, kChannelNotifyWaitReady) \<longleftrightarrow>
        (kSend, kChannelNotifyRecordReady) \<in> set t \<or>
        (kSend, kChannelWriteWithNotifyLocalToRemoteHcclBuffer) \<in> set t) \<and>
     (\<forall>t. returns t (kSend, kChannelNotifyWaitDone) \<longleftrightarrow> (kRecv, kChannelNotifyRecordDone) \<in> set t) \<and>
     (\<forall>t r x. x \<noteq> kChannelNotifyWaitReady \<and> x \<noteq> kChannelNotifyWaitDone \<longrightarrow> returns t (r, x))"

lemma contract_recorded:
  assumes "notify_contract returns" "(r, x) \<noteq> (kSend, kChannelNotifyWaitReady)"
    "(r, x) \<noteq> (kRecv, kChannelNotifyWaitDone)"
  shows "returns t (r, x) = recorded t (r, x)"
  using assms
  by (cases r; cases "x = kChannelNotifyWaitReady"; cases "x = kChannelNotifyWaitDone")
    (simp_all add: notify_contract_def recorded_def)

type_synonym pair_state = "PayloadStep list \<times> PayloadStep list \<times> pair_event list"

text \<open>A step of either rank: the next call of its plan returns and is appended to the trace.\<close>

inductive pair_step :: "(pair_event list \<Rightarrow> pair_event \<Rightarrow> bool) \<Rightarrow> pair_state \<Rightarrow> pair_state \<Rightarrow> bool"
  for returns where
  send_step: "returns t (kSend, x) \<Longrightarrow> pair_step returns (x # ss, rs, t) (ss, rs, t @ [(kSend, x)])"
| recv_step: "returns t (kRecv, x) \<Longrightarrow> pair_step returns (ss, x # rs, t) (ss, rs, t @ [(kRecv, x)])"

text \<open>The order the plans are meant to enforce: input copy, transfer, fence of the transferring rank,
  ready, output copy, done.  A write with notify publishes in the same call, so that its fence
  follows the notify.\<close>

definition fence_of :: "PayloadPlanOptions \<Rightarrow> PayloadRole \<Rightarrow> pair_event list" where
  "fence_of opts r = (if po_completion_mode opts = CmChannelFence then [(r, kChannelFence)] else [])"

definition pair_chain :: "PayloadPlanOptions \<Rightarrow> pair_event list" where
  "pair_chain opts =
    [(kSend, kLocalCopyInputToHcclBuffer)] @
    (case po_transfer_mode opts of
       TmRead \<Rightarrow> [(kSend, kChannelNotifyRecordReady), (kRecv, kChannelNotifyWaitReady)] @
         (case po_recv_path opts of
            kDirectOutput \<Rightarrow> [(kRecv, kChannelReadRemoteToOutput)] @ fence_of opts kRecv
          | kLocalBuffer \<Rightarrow> [(kRecv, kChannelReadRemoteToLocalHcclBuffer)] @ fence_of opts kRecv @
              [(kRecv, kLocalCopyLocalHcclBufferToOutput)])
     | TmWrite \<Rightarrow> [(kSend, kChannelWriteLocalToRemoteHcclBuffer)] @ fence_of opts kSend @
         [(kSend, kChannelNotifyRecordReady), (kRecv, kChannelNotifyWaitReady),
          (kRecv, kLocalCopyLocalHcclBufferToOutput)]
     | TmWriteWithNotify \<Rightarrow> [(kSend, kChannelWriteWithNotifyLocalToRemoteHcclBuffer),
         (kRecv, kChannelNotifyWaitReady), (kRecv, kLocalCopyLocalHcclBufferToOutput)]) @
    [(kRecv, kChannelNotifyRecordDone), (kSend, kChannelNotifyWaitDone)]"

definition ordered_run :: "PayloadPlanOptions \<Rightarrow> pair_event list \<Rightarrow> bool" where
  "ordered_run opts t =
    (if po_transfer_mode opts = TmWriteWithNotify then
       filter (\<lambda>e. snd e \<noteq> kChannelFence) t = pair_chain opts \<and>
       filter (\<lambda>e. fst e = kSend) t = [(kSend, kLocalCopyInputToHcclBuffer),
         (kSend, kChannelWriteWithNotifyLocalToRemoteHcclBuffer)] @ fence_of opts kSend @
         [(kSend, kChannelNotifyWaitDone)]
     else t = pair_chain opts)"

text \<open>All executions of a pair of plans, explored: every finished one is ordered, no other is stuck.\<close>

definition pair_succs :: "pair_state \<Rightarrow> pair_state list" where
  "pair_succs st = (case st of (ss, rs, t) \<Rightarrow>
     (case ss of [] \<Rightarrow> []
      | x # xs \<Rightarrow> if recorded t (kSend, x) then [(xs, rs, t @ [(kSend, x)])] else []) @
     (case rs of [] \<Rightarrow> []
      | x # xs \<Rightarrow> if recorded t (kRecv, x) then [(ss, xs, t @ [(kRecv, x)])] else []))"

fun explore :: "nat \<Rightarrow> PayloadPlanOptions \<Rightarrow> pair_state \<Rightarrow> bool" where
  "explore 0 opts st = False"
| "explore (Suc n) opts st =
    (kChannelNotifyWaitReady \<notin> set (fst st) \<and> kChannelNotifyWaitDone \<notin> set (fst (snd st)) \<and>
     (if fst st = [] \<and> fst (snd st) = [] then ordered_run opts (snd (snd st))
      else pair_succs st \<noteq> [] \<and> list_all (explore n opts) (pair_succs st)))"

lemma plans_explored:
  assumes "po_transfer_mode opts = TmRead \<or> po_recv_path opts \<noteq> kDirectOutput"
  shows "explore 10 opts (pair_copy_steps kSend opts, pair_copy_steps kRecv opts, [])"
  using assms
  by (cases "po_transfer_mode opts"; cases "po_completion_mode opts"; cases "po_recv_path opts")
    (simp_all add: pair_copy_steps_def pair_succs_def recorded_def ordered_run_def pair_chain_def
      fence_of_def eval_nat_numeral)

lemma pair_step_succs:
  assumes "notify_contract returns" "kChannelNotifyWaitReady \<notin> set (fst st)"
    "kChannelNotifyWaitDone \<notin> set (fst (snd st))"
  shows "pair_step returns st st' \<longleftrightarrow> st' \<in> set (pair_succs st)"
proof -
  obtain ss rs t where st: "st = (ss, rs, t)" by (cases st)
  have s: "returns t (kSend, x) = recorded t (kSend, x)" if "x \<in> set ss" for x
    using assms(2,3) that by (intro contract_recorded [OF assms(1)]) (auto simp: st)
  have r: "returns t (kRecv, x) = recorded t (kRecv, x)" if "x \<in> set rs" for x
    using assms(2,3) that by (intro contract_recorded [OF assms(1)]) (auto simp: st)
  show ?thesis
  proof
    assume "pair_step returns st st'"
    then show "st' \<in> set (pair_succs st)"
      unfolding st by cases (use s r in \<open>auto simp: pair_succs_def\<close>)
  next
    assume "st' \<in> set (pair_succs st)"
    then show "pair_step returns st st'"
      using s r by (auto simp: pair_succs_def st split: list.splits if_splits
          intro: pair_step.intros)
  qed
qed

lemma explore_step:
  assumes "notify_contract returns" "explore n opts st" "pair_step returns st st'"
  shows "explore (n - 1) opts st'"
proof -
  from assms(2) obtain k where n: "n = Suc k" by (cases n) auto
  then have "st' \<in> set (pair_succs st)" using assms pair_step_succs by auto
  moreover from this have "\<not> (fst st = [] \<and> fst (snd st) = [])"
    by (auto simp: pair_succs_def split: prod.splits)
  ultimately show ?thesis using assms(2) n by (auto simp: list_all_iff)
qed

lemma explore_facts:
  assumes "explore k opts (ss, rs, t)"
  shows "if ss = [] \<and> rs = [] then ordered_run opts t else pair_succs (ss, rs, t) \<noteq> []"
    "kChannelNotifyWaitReady \<notin> set ss" "kChannelNotifyWaitDone \<notin> set rs"
proof -
  obtain n where "k = Suc n" using assms by (cases k) simp_all
  with assms have *: "kChannelNotifyWaitReady \<notin> set ss \<and> kChannelNotifyWaitDone \<notin> set rs \<and>
     (if ss = [] \<and> rs = [] then ordered_run opts t
      else pair_succs (ss, rs, t) \<noteq> [] \<and> list_all (explore n opts) (pair_succs (ss, rs, t)))"
    by (metis explore.simps(2) fst_conv snd_conv)
  show "if ss = [] \<and> rs = [] then ordered_run opts t else pair_succs (ss, rs, t) \<noteq> []"
    using * by presburger
  show "kChannelNotifyWaitReady \<notin> set ss" "kChannelNotifyWaitDone \<notin> set rs" using * by blast+
qed

lemma explore_reaches:
  assumes "(pair_step returns)\<^sup>*\<^sup>* st st'" "notify_contract returns" "explore n opts st"
  shows "\<exists>k. explore k opts st'"
  using assms(1,3) by (induction) (auto dest: explore_step [OF assms(2)])

lemma pair_step_less: "pair_step returns a b \<Longrightarrow>
    length (fst b) + length (fst (snd b)) < length (fst a) + length (fst (snd a))"
  by (auto elim: pair_step.cases)



section \<open>Descriptors and notify-only plans\<close>

text \<open>A resource descriptor that is built names two distinct ranks of the pair, two distinct
  notifies within the channel's range, and a usable buffer size that both HCCL buffers hold.\<close>

theorem resource_descriptor_sound:
  assumes "BuildResourceDescriptor lr pr n ch nn lb rb te e pt src = Inr d"
  shows "rd_local_rank d \<noteq> rd_peer_rank d \<and> rd_local_rank d < 2 \<and> rd_peer_rank d < 2 \<and>
    0 < rd_channel_count d \<and> rd_ready_notify_idx d \<noteq> rd_done_notify_idx d \<and>
    rd_ready_notify_idx d < rd_notify_num d \<and> rd_done_notify_idx d < rd_notify_num d \<and>
    0 < rd_usable_hccl_buffer_bytes d \<and>
    rd_usable_hccl_buffer_bytes d \<le> rd_local_hccl_buffer_bytes d \<and>
    rd_usable_hccl_buffer_bytes d \<le> rd_remote_hccl_buffer_bytes d"
proof -
  from assms have "n = 2" "\<not> bad_pair lr pr n" "ch \<noteq> 0" "2 \<le> nn" "lb \<noteq> 0" "rb \<noteq> 0"
    by (auto simp: BuildResourceDescriptor_def split: if_splits)
  moreover from this have "0 < nn" "1 < nn"
    by (auto simp: word_less_nat_alt word_le_nat_alt)
  ultimately show ?thesis
    using assms by (auto simp: BuildResourceDescriptor_def bad_pair_def min_def word_neq_0_conv
        split: if_splits)
qed

lemma resource_descriptor_sound_witness:
  "\<exists>d. BuildResourceDescriptor 0 1 2 1 2 4096 1024 False ''aicpu'' ''roce'' ''query'' = Inr d \<and>
     rd_usable_hccl_buffer_bytes d = 1024 \<and> rd_ready_notify_idx d < rd_notify_num d"
proof -
  have "\<exists>d. BuildResourceDescriptor 0 1 2 1 2 4096 1024 False ''aicpu'' ''roce'' ''query'' = Inr d \<and>
      rd_usable_hccl_buffer_bytes d = 1024"
    by (simp add: BuildResourceDescriptor_def bad_pair_def min_def word_le_nat_alt)
  then obtain d where d: "BuildResourceDescriptor 0 1 2 1 2 4096 1024 False ''aicpu'' ''roce'' ''query'' = Inr d"
    "rd_usable_hccl_buffer_bytes d = 1024" by blast
  with resource_descriptor_sound [OF d(1)] show ?thesis by blast
qed

end
