(* ===== verification/Payload_Abi.thy ===== *)
theory Payload_Abi
  imports Payload_Plan
begin

text \<open>
  The descriptor that the host hands to the payload-copy kernel
  (\<open>custom_ops/hcomm_payload_copy/include/flume_hcomm_notify_only_abi.h\<close>) and the host code that
  fills it (\<open>FillFlumePayloadCopyDesc\<close> of \<open>src/core/client.cc\<close>).

  The C structure is a record with the same fields; its two character arrays are byte lists of 48
  and 128 bytes, and \<open>reserved2[0..2]\<close> are three fields.  The preprocessor constants keep their names
  without the common prefix \<open>FLUME_HCOMM_PAYLOAD_\<close>.  The lemmas show that the fingerprint sees every
  change of one hashed word, and that a descriptor filled from a channel's resources is accepted by
  the validator and carries exactly the options it was filled from.
\<close>

section \<open>Constants\<close>

abbreviation (input) PAYLOAD_COPY_MAGIC :: u32 where "PAYLOAD_COPY_MAGIC \<equiv> 0x46504350"
abbreviation (input) PAYLOAD_COPY_VERSION :: u32 where "PAYLOAD_COPY_VERSION \<equiv> 4"
abbreviation (input) PAYLOAD_COPY_DESC_SIZE :: u32 where "PAYLOAD_COPY_DESC_SIZE \<equiv> 336"
abbreviation (input) BATCH_TAG_BYTES :: nat where "BATCH_TAG_BYTES \<equiv> 48"
abbreviation (input) COMM_NAME_BYTES :: nat where "COMM_NAME_BYTES \<equiv> 128"
abbreviation (input) STATUS_WORD_COUNT :: u32 where "STATUS_WORD_COUNT \<equiv> 17"
abbreviation (input) STATUS_SCHEMA_VERSION :: u32 where "STATUS_SCHEMA_VERSION \<equiv> 7"
abbreviation (input) DATA_FINGERPRINT_NOT_SAMPLED :: u32 where "DATA_FINGERPRINT_NOT_SAMPLED \<equiv> 0xFFFFFFFE"
abbreviation (input) THREAD_NOTIFY_NONE :: u32 where "THREAD_NOTIFY_NONE \<equiv> 0"
abbreviation (input) THREAD_NOTIFY_HOST_AICPU :: u32 where "THREAD_NOTIFY_HOST_AICPU \<equiv> 1"
abbreviation (input) COMPLETION_ORDERED_NOTIFY :: u32 where "COMPLETION_ORDERED_NOTIFY \<equiv> 0"
abbreviation (input) COMPLETION_CHANNEL_DRAIN :: u32 where "COMPLETION_CHANNEL_DRAIN \<equiv> 1"
abbreviation (input) COMPLETION_MODE_MASK :: u32 where "COMPLETION_MODE_MASK \<equiv> 0x0000FFFF"
abbreviation (input) FLAG_WRITE_WITH_NOTIFY :: u32 where "FLAG_WRITE_WITH_NOTIFY \<equiv> 0x10000000"
abbreviation (input) FLAG_WRITE_PATH :: u32 where "FLAG_WRITE_PATH \<equiv> 0x20000000"
abbreviation (input) FLAG_CHANNEL_HANDLE_BINDING :: u32 where "FLAG_CHANNEL_HANDLE_BINDING \<equiv> 0x40000000"
abbreviation (input) FLAG_SKIP_COMM_ACQUIRE :: u32 where "FLAG_SKIP_COMM_ACQUIRE \<equiv> 0x80000000"
abbreviation (input) BATCH_MODE_DEFAULT :: u64 where "BATCH_MODE_DEFAULT \<equiv> 0"
abbreviation (input) BATCH_MODE_DISABLED :: u64 where "BATCH_MODE_DISABLED \<equiv> 1"
abbreviation (input) RECV_PATH_LOCAL_BUFFER :: u64 where "RECV_PATH_LOCAL_BUFFER \<equiv> 0"
abbreviation (input) RECV_PATH_DIRECT_OUTPUT :: u64 where "RECV_PATH_DIRECT_OUTPUT \<equiv> 1"
abbreviation (input) DEFAULT_TIMEOUT_SEC :: u32 where "DEFAULT_TIMEOUT_SEC \<equiv> 60"
abbreviation (input) NOTIFY_ROLE_SEND :: u32 where "NOTIFY_ROLE_SEND \<equiv> 0"
abbreviation (input) NOTIFY_ROLE_RECV :: u32 where "NOTIFY_ROLE_RECV \<equiv> 1"

abbreviation (input) VALIDATE_OK :: u32 where "VALIDATE_OK \<equiv> 0"
abbreviation (input) VALIDATE_HEADER :: u32 where "VALIDATE_HEADER \<equiv> 1"
abbreviation (input) VALIDATE_RANK_SIZE :: u32 where "VALIDATE_RANK_SIZE \<equiv> 2"
abbreviation (input) VALIDATE_ROLE :: u32 where "VALIDATE_ROLE \<equiv> 3"
abbreviation (input) VALIDATE_LOCAL_RANK :: u32 where "VALIDATE_LOCAL_RANK \<equiv> 4"
abbreviation (input) VALIDATE_PEER_RANK :: u32 where "VALIDATE_PEER_RANK \<equiv> 5"
abbreviation (input) VALIDATE_RANK_PAIR :: u32 where "VALIDATE_RANK_PAIR \<equiv> 6"
abbreviation (input) VALIDATE_NOTIFY_INDEX :: u32 where "VALIDATE_NOTIFY_INDEX \<equiv> 7"
abbreviation (input) VALIDATE_BYTES :: u32 where "VALIDATE_BYTES \<equiv> 8"
abbreviation (input) VALIDATE_THREAD_NOTIFY_MODE :: u32 where "VALIDATE_THREAD_NOTIFY_MODE \<equiv> 9"
abbreviation (input) VALIDATE_COMPLETION_MODE :: u32 where "VALIDATE_COMPLETION_MODE \<equiv> 10"
abbreviation (input) VALIDATE_AICPU_THREAD :: u32 where "VALIDATE_AICPU_THREAD \<equiv> 11"
abbreviation (input) VALIDATE_CHANNEL_HANDLE :: u32 where "VALIDATE_CHANNEL_HANDLE \<equiv> 12"
abbreviation (input) VALIDATE_USER_BUFFER :: u32 where "VALIDATE_USER_BUFFER \<equiv> 13"
abbreviation (input) VALIDATE_LOCAL_HCCL_BUFFER :: u32 where "VALIDATE_LOCAL_HCCL_BUFFER \<equiv> 14"
abbreviation (input) VALIDATE_REMOTE_HCCL_BUFFER :: u32 where "VALIDATE_REMOTE_HCCL_BUFFER \<equiv> 15"
abbreviation (input) VALIDATE_LOCAL_HCCL_BUFFER_BYTES :: u32 where "VALIDATE_LOCAL_HCCL_BUFFER_BYTES \<equiv> 16"
abbreviation (input) VALIDATE_REMOTE_HCCL_BUFFER_BYTES :: u32 where "VALIDATE_REMOTE_HCCL_BUFFER_BYTES \<equiv> 17"
abbreviation (input) VALIDATE_STATUS_WORD :: u32 where "VALIDATE_STATUS_WORD \<equiv> 18"
abbreviation (input) VALIDATE_STATUS_WORD_COUNT :: u32 where "VALIDATE_STATUS_WORD_COUNT \<equiv> 19"
abbreviation (input) VALIDATE_STATUS_SCHEMA :: u32 where "VALIDATE_STATUS_SCHEMA \<equiv> 20"
abbreviation (input) VALIDATE_COMM_NAME :: u32 where "VALIDATE_COMM_NAME \<equiv> 21"
abbreviation (input) VALIDATE_BATCH_TAG :: u32 where "VALIDATE_BATCH_TAG \<equiv> 22"
abbreviation (input) VALIDATE_CPU_THREAD_ON_AICPU :: u32 where "VALIDATE_CPU_THREAD_ON_AICPU \<equiv> 23"

section \<open>The descriptor\<close>

record flume_hcomm_payload_copy_desc_v1 =
  pd_magic :: u32
  pd_version :: u32
  pd_size :: u32
  pd_role :: u32
  pd_local_rank :: u32
  pd_peer_rank :: u32
  pd_rank_size :: u32
  pd_ready_notify_idx :: u32
  pd_done_notify_idx :: u32
  pd_timeout_sec :: u32
  pd_thread_notify_mode :: u32
  pd_completion_mode :: u32
  pd_bytes :: u64
  pd_aicpu_thread :: u64
  pd_channel_handle :: u64
  pd_user_buffer :: u64
  pd_local_hccl_buffer :: u64
  pd_remote_hccl_buffer :: u64
  pd_local_hccl_buffer_bytes :: u64
  pd_remote_hccl_buffer_bytes :: u64
  pd_status_word :: u64
  pd_batch_tag :: bytes
  pd_cpu_thread_on_aicpu :: u64
  pd_comm_name :: bytes
  pd_status_word_count :: u32
  pd_status_schema_version :: u32
  pd_reserved2_0 :: u64
  pd_reserved2_1 :: u64
  pd_reserved2_2 :: u64

type_synonym desc = flume_hcomm_payload_copy_desc_v1

text \<open>The value-initialised descriptor (\<open>desc = {}\<close>).\<close>

definition zero_desc :: desc where
  "zero_desc = \<lparr>pd_magic = 0, pd_version = 0, pd_size = 0, pd_role = 0, pd_local_rank = 0,
     pd_peer_rank = 0, pd_rank_size = 0, pd_ready_notify_idx = 0, pd_done_notify_idx = 0,
     pd_timeout_sec = 0, pd_thread_notify_mode = 0, pd_completion_mode = 0, pd_bytes = 0,
     pd_aicpu_thread = 0, pd_channel_handle = 0, pd_user_buffer = 0, pd_local_hccl_buffer = 0,
     pd_remote_hccl_buffer = 0, pd_local_hccl_buffer_bytes = 0, pd_remote_hccl_buffer_bytes = 0,
     pd_status_word = 0, pd_batch_tag = replicate BATCH_TAG_BYTES 0, pd_cpu_thread_on_aicpu = 0,
     pd_comm_name = replicate COMM_NAME_BYTES 0, pd_status_word_count = 0,
     pd_status_schema_version = 0, pd_reserved2_0 = 0, pd_reserved2_1 = 0, pd_reserved2_2 = 0\<rparr>"

definition payload_copy_desc_init :: "desc \<Rightarrow> desc" where
  "payload_copy_desc_init d = d\<lparr>pd_magic := PAYLOAD_COPY_MAGIC, pd_version := PAYLOAD_COPY_VERSION,
     pd_size := PAYLOAD_COPY_DESC_SIZE, pd_timeout_sec := DEFAULT_TIMEOUT_SEC,
     pd_thread_notify_mode := THREAD_NOTIFY_NONE, pd_completion_mode := COMPLETION_ORDERED_NOTIFY,
     pd_status_word_count := STATUS_WORD_COUNT, pd_status_schema_version := STATUS_SCHEMA_VERSION\<rparr>"

text \<open>A non-empty string that ends inside its array.\<close>

definition payload_desc_has_string :: "bytes \<Rightarrow> nat \<Rightarrow> bool" where
  "payload_desc_has_string data len =
    (case filter (\<lambda>i. data ! i = 0) [0..<len] of [] \<Rightarrow> False | i # _ \<Rightarrow> i \<noteq> 0)"

definition validate_reason :: "desc \<Rightarrow> u32" where
  "validate_reason d =
    (if pd_magic d \<noteq> PAYLOAD_COPY_MAGIC \<or> pd_version d \<noteq> PAYLOAD_COPY_VERSION \<or>
        pd_size d \<noteq> PAYLOAD_COPY_DESC_SIZE then VALIDATE_HEADER
     else if pd_rank_size d \<noteq> 2 then VALIDATE_RANK_SIZE
     else if pd_role d \<noteq> NOTIFY_ROLE_SEND \<and> pd_role d \<noteq> NOTIFY_ROLE_RECV then VALIDATE_ROLE
     else if pd_rank_size d \<le> pd_local_rank d then VALIDATE_LOCAL_RANK
     else if pd_rank_size d \<le> pd_peer_rank d then VALIDATE_PEER_RANK
     else if pd_local_rank d = pd_peer_rank d then VALIDATE_RANK_PAIR
     else if pd_ready_notify_idx d = pd_done_notify_idx d then VALIDATE_NOTIFY_INDEX
     else if pd_bytes d = 0 then VALIDATE_BYTES
     else if pd_thread_notify_mode d \<noteq> THREAD_NOTIFY_NONE \<and>
        pd_thread_notify_mode d \<noteq> THREAD_NOTIFY_HOST_AICPU then VALIDATE_THREAD_NOTIFY_MODE
     else if pd_completion_mode d AND COMPLETION_MODE_MASK \<noteq> COMPLETION_ORDERED_NOTIFY \<and>
        pd_completion_mode d AND COMPLETION_MODE_MASK \<noteq> COMPLETION_CHANNEL_DRAIN
       then VALIDATE_COMPLETION_MODE
     else if pd_aicpu_thread d = 0 then VALIDATE_AICPU_THREAD
     else if pd_channel_handle d = 0 then VALIDATE_CHANNEL_HANDLE
     else if pd_user_buffer d = 0 then VALIDATE_USER_BUFFER
     else if pd_local_hccl_buffer d = 0 then VALIDATE_LOCAL_HCCL_BUFFER
     else if pd_remote_hccl_buffer d = 0 then VALIDATE_REMOTE_HCCL_BUFFER
     else if pd_local_hccl_buffer_bytes d < pd_bytes d then VALIDATE_LOCAL_HCCL_BUFFER_BYTES
     else if pd_remote_hccl_buffer_bytes d < pd_bytes d then VALIDATE_REMOTE_HCCL_BUFFER_BYTES
     else if pd_status_word d = 0 then VALIDATE_STATUS_WORD
     else if pd_status_word_count d < STATUS_WORD_COUNT then VALIDATE_STATUS_WORD_COUNT
     else if pd_status_schema_version d \<noteq> STATUS_SCHEMA_VERSION then VALIDATE_STATUS_SCHEMA
     else if pd_completion_mode d AND (FLAG_SKIP_COMM_ACQUIRE OR FLAG_CHANNEL_HANDLE_BINDING) = 0 \<and>
        \<not> payload_desc_has_string (pd_comm_name d) COMM_NAME_BYTES then VALIDATE_COMM_NAME
     else if pd_reserved2_0 d \<noteq> BATCH_MODE_DISABLED \<and>
        \<not> payload_desc_has_string (pd_batch_tag d) BATCH_TAG_BYTES then VALIDATE_BATCH_TAG
     else if pd_thread_notify_mode d = THREAD_NOTIFY_HOST_AICPU \<and> pd_cpu_thread_on_aicpu d = 0
       then VALIDATE_CPU_THREAD_ON_AICPU
     else VALIDATE_OK)"

text \<open>The descriptors that the validator accepts.\<close>

lemma ite_zero: "x \<noteq> 0 \<Longrightarrow> (if c then x else e) = (0 :: u32) \<longleftrightarrow> \<not> c \<and> e = 0"
  by simp

lemma validate_codes:
  "(1 :: u32) \<noteq> 0" "(2 :: u32) \<noteq> 0" "(3 :: u32) \<noteq> 0" "(4 :: u32) \<noteq> 0" "(5 :: u32) \<noteq> 0" "(6 :: u32) \<noteq> 0"
  "(7 :: u32) \<noteq> 0" "(8 :: u32) \<noteq> 0" "(9 :: u32) \<noteq> 0" "(10 :: u32) \<noteq> 0" "(11 :: u32) \<noteq> 0"
  "(12 :: u32) \<noteq> 0" "(13 :: u32) \<noteq> 0" "(14 :: u32) \<noteq> 0" "(15 :: u32) \<noteq> 0" "(16 :: u32) \<noteq> 0"
  "(17 :: u32) \<noteq> 0" "(18 :: u32) \<noteq> 0" "(19 :: u32) \<noteq> 0" "(20 :: u32) \<noteq> 0" "(21 :: u32) \<noteq> 0"
  "(22 :: u32) \<noteq> 0" "(23 :: u32) \<noteq> 0"
  by simp_all

lemma validate_ok_iff:
  "validate_reason d = VALIDATE_OK \<longleftrightarrow>
    pd_magic d = PAYLOAD_COPY_MAGIC \<and> pd_version d = PAYLOAD_COPY_VERSION \<and>
    pd_size d = PAYLOAD_COPY_DESC_SIZE \<and> pd_rank_size d = 2 \<and>
    (pd_role d = NOTIFY_ROLE_SEND \<or> pd_role d = NOTIFY_ROLE_RECV) \<and>
    \<not> pd_rank_size d \<le> pd_local_rank d \<and> \<not> pd_rank_size d \<le> pd_peer_rank d \<and>
    pd_local_rank d \<noteq> pd_peer_rank d \<and> pd_ready_notify_idx d \<noteq> pd_done_notify_idx d \<and>
    pd_bytes d \<noteq> 0 \<and>
    (pd_thread_notify_mode d = THREAD_NOTIFY_NONE \<or> pd_thread_notify_mode d = THREAD_NOTIFY_HOST_AICPU) \<and>
    (pd_completion_mode d AND COMPLETION_MODE_MASK = COMPLETION_ORDERED_NOTIFY \<or>
     pd_completion_mode d AND COMPLETION_MODE_MASK = COMPLETION_CHANNEL_DRAIN) \<and>
    pd_aicpu_thread d \<noteq> 0 \<and> pd_channel_handle d \<noteq> 0 \<and> pd_user_buffer d \<noteq> 0 \<and>
    pd_local_hccl_buffer d \<noteq> 0 \<and> pd_remote_hccl_buffer d \<noteq> 0 \<and>
    \<not> pd_local_hccl_buffer_bytes d < pd_bytes d \<and> \<not> pd_remote_hccl_buffer_bytes d < pd_bytes d \<and>
    pd_status_word d \<noteq> 0 \<and> \<not> pd_status_word_count d < STATUS_WORD_COUNT \<and>
    pd_status_schema_version d = STATUS_SCHEMA_VERSION \<and>
    (pd_completion_mode d AND (FLAG_SKIP_COMM_ACQUIRE OR FLAG_CHANNEL_HANDLE_BINDING) = 0 \<longrightarrow>
      payload_desc_has_string (pd_comm_name d) COMM_NAME_BYTES) \<and>
    (pd_reserved2_0 d \<noteq> BATCH_MODE_DISABLED \<longrightarrow>
      payload_desc_has_string (pd_batch_tag d) BATCH_TAG_BYTES) \<and>
    (pd_thread_notify_mode d = THREAD_NOTIFY_HOST_AICPU \<longrightarrow> pd_cpu_thread_on_aicpu d \<noteq> 0)"
  unfolding validate_reason_def
  by (simp only: ite_zero validate_codes de_Morgan_disj de_Morgan_conj not_not simp_thms
      imp_conv_disj conj_assoc)

section \<open>The descriptor fingerprint\<close>

definition payload_hash_u64 :: "u64 \<Rightarrow> u64 \<Rightarrow> u64" where
  "payload_hash_u64 hash v = (hash XOR v) * 1099511628211"

definition payload_hash_bytes :: "u64 \<Rightarrow> bytes \<Rightarrow> nat \<Rightarrow> u64" where
  "payload_hash_bytes hash data len = fold (\<lambda>b h. (h XOR ucast b) * 1099511628211) (take len data) hash"

definition desc_fingerprint :: "desc \<Rightarrow> u64" where
  "desc_fingerprint d =
    (let hash = 1469598103934665603;
         hash = payload_hash_u64 hash (ucast (pd_magic d));
         hash = payload_hash_u64 hash (ucast (pd_version d));
         hash = payload_hash_u64 hash (ucast (pd_size d));
         hash = payload_hash_u64 hash (ucast (pd_role d));
         hash = payload_hash_u64 hash (ucast (pd_local_rank d));
         hash = payload_hash_u64 hash (ucast (pd_peer_rank d));
         hash = payload_hash_u64 hash (ucast (pd_rank_size d));
         hash = payload_hash_u64 hash (ucast (pd_ready_notify_idx d));
         hash = payload_hash_u64 hash (ucast (pd_done_notify_idx d));
         hash = payload_hash_u64 hash (ucast (pd_timeout_sec d));
         hash = payload_hash_u64 hash (ucast (pd_thread_notify_mode d));
         hash = payload_hash_u64 hash (ucast (pd_completion_mode d));
         hash = payload_hash_u64 hash (pd_bytes d);
         hash = payload_hash_u64 hash (pd_aicpu_thread d);
         hash = payload_hash_u64 hash (pd_channel_handle d);
         hash = payload_hash_u64 hash (pd_user_buffer d);
         hash = payload_hash_u64 hash (pd_local_hccl_buffer d);
         hash = payload_hash_u64 hash (pd_remote_hccl_buffer d);
         hash = payload_hash_u64 hash (pd_local_hccl_buffer_bytes d);
         hash = payload_hash_u64 hash (pd_remote_hccl_buffer_bytes d);
         hash = payload_hash_u64 hash (pd_status_word d);
         hash = payload_hash_bytes hash (pd_batch_tag d) BATCH_TAG_BYTES;
         hash = payload_hash_u64 hash (pd_cpu_thread_on_aicpu d);
         hash = payload_hash_bytes hash (pd_comm_name d) COMM_NAME_BYTES;
         hash = payload_hash_u64 hash (ucast (pd_status_word_count d));
         hash = payload_hash_u64 hash (ucast (pd_status_schema_version d));
         hash = payload_hash_u64 hash (pd_reserved2_0 d);
         hash = payload_hash_u64 hash (pd_reserved2_1 d);
         hash = payload_hash_u64 hash (pd_reserved2_2 d)
     in hash)"

section \<open>Filling a descriptor on the host\<close>

datatype hcomm_protocol = PROTOCOL_AUTO | PROTOCOL_HCCS | PROTOCOL_ROCE | PROTOCOL_PCIE
  | PROTOCOL_SIO | PROTOCOL_HCCS_ONLY

datatype hcomm_engine = ENGINE_AUTO | ENGINE_AICPU | ENGINE_AICPU_TS | ENGINE_CPU | ENGINE_CPU_TS

record CommState =
  cs_hccl_attached :: bool
  cs_hccl_comm :: u64
  cs_sim_comm_attached :: bool
  cs_sim_comm_name :: bytes
  cs_rank :: u32
  cs_rank_size :: u32

record HcommChannelResourceInfo =
  ri_usable_buffer_bytes :: nat
  ri_local_buffer_bytes :: u64
  ri_remote_buffer_bytes :: u64
  ri_local_buffer :: u64
  ri_remote_buffer :: u64
  ri_channel_handle :: u64
  ri_cpu_ts_thread :: u64
  ri_aicpu_ts_thread :: u64
  ri_cpu_thread_on_aicpu :: u64
  ri_aicpu_thread_on_cpu :: u64
  ri_channel_count :: u32
  ri_notify_num :: u32
  ri_resolved_engine :: hcomm_engine
  ri_resolved_protocol :: hcomm_protocol
  ri_thread_export_required :: bool
  ri_host_thread_notify_ready :: bool
  ri_timeout_sec :: u32
  ri_channel_desc_source :: string

text \<open>The payload options that \<open>FillFlumePayloadCopyDesc\<close> receives one by one.\<close>

record payload_options =
  fo_disable_batch :: bool
  fo_batch_tag :: bytes
  fo_recv_direct_output :: bool
  fo_force_channel_fence :: bool
  fo_write_path :: bool
  fo_write_with_notify :: bool
  fo_comm_binding :: PayloadCommBinding

definition kDefaultHcommPayloadBatchTag :: bytes where
  "kDefaultHcommPayloadBatchTag = cstr ''flume_hcomm_payload''"

text \<open>The two build-time feature macros of the write-with-notify primitive: the blocking call wins
  over the non-blocking one.\<close>

definition HcommWriteWithNotifyUsesNbiBackend :: "bool \<Rightarrow> bool \<Rightarrow> bool" where
  "HcommWriteWithNotifyUsesNbiBackend have_blocking have_nbi \<longleftrightarrow> \<not> have_blocking \<and> have_nbi"

text \<open>\<open>strncpy (dst, src, n)\<close>: the string up to its terminator, padded with zeros to \<open>n\<close> bytes.\<close>

definition strncpy :: "bytes \<Rightarrow> bytes \<Rightarrow> nat \<Rightarrow> bytes" where
  "strncpy dst src n = (let s = take n (takeWhile (\<lambda>b. b \<noteq> 0) src) in
     overwrite 0 (s @ replicate (n - length s) 0) dst)"

definition payload_completion_mode :: "bool \<Rightarrow> hcomm_protocol \<Rightarrow> payload_options \<Rightarrow> u32" where
  "payload_completion_mode nbi protocol opts =
    (let m = (if fo_force_channel_fence opts \<or> fo_write_with_notify opts \<and> nbi \<or> protocol = PROTOCOL_ROCE
              then COMPLETION_CHANNEL_DRAIN else COMPLETION_ORDERED_NOTIFY);
         m = (case fo_comm_binding opts of
                kDiagnosticSkip \<Rightarrow> m OR FLAG_SKIP_COMM_ACQUIRE
              | kChannelHandle \<Rightarrow> m OR (FLAG_SKIP_COMM_ACQUIRE OR FLAG_CHANNEL_HANDLE_BINDING)
              | kCommName \<Rightarrow> m);
         m = (if fo_write_path opts then m OR FLAG_WRITE_PATH else m)
     in if fo_write_with_notify opts then m OR (FLAG_WRITE_PATH OR FLAG_WRITE_WITH_NOTIFY) else m)"

definition FillFlumePayloadCopyDesc ::
  "bool \<Rightarrow> PayloadRole \<Rightarrow> CommState \<Rightarrow> u32 \<Rightarrow> HcommChannelResourceInfo \<Rightarrow> u64 \<Rightarrow> u64 \<Rightarrow> bytes option \<Rightarrow>
   payload_options \<Rightarrow> desc \<Rightarrow> desc" where
  "FillFlumePayloadCopyDesc nbi role state peer_rank ri user_buffer bts comm_name opts d =
    (let d = payload_copy_desc_init d;
         batch_tag = (if fo_batch_tag opts = [] then kDefaultHcommPayloadBatchTag else fo_batch_tag opts);
         tag_len = min (length batch_tag) (BATCH_TAG_BYTES - 1);
         d = d\<lparr>pd_role := (if role = kSend then NOTIFY_ROLE_SEND else NOTIFY_ROLE_RECV),
           pd_local_rank := cs_rank state, pd_peer_rank := peer_rank, pd_rank_size := cs_rank_size state,
           pd_ready_notify_idx := 0, pd_done_notify_idx := 1, pd_timeout_sec := ri_timeout_sec ri,
           pd_bytes := bts,
           pd_thread_notify_mode := (if ri_host_thread_notify_ready ri then THREAD_NOTIFY_HOST_AICPU
             else THREAD_NOTIFY_NONE),
           pd_completion_mode := payload_completion_mode nbi (ri_resolved_protocol ri) opts,
           pd_aicpu_thread := ri_aicpu_ts_thread ri, pd_channel_handle := ri_channel_handle ri,
           pd_user_buffer := user_buffer, pd_local_hccl_buffer := ri_local_buffer ri,
           pd_remote_hccl_buffer := ri_remote_buffer ri,
           pd_local_hccl_buffer_bytes := ri_local_buffer_bytes ri,
           pd_remote_hccl_buffer_bytes := ri_remote_buffer_bytes ri,
           pd_batch_tag := (overwrite 0 (take tag_len batch_tag) (pd_batch_tag d))[tag_len := 0],
           pd_reserved2_0 := (if fo_disable_batch opts then BATCH_MODE_DISABLED else BATCH_MODE_DEFAULT),
           pd_reserved2_1 := (if fo_recv_direct_output opts \<and> \<not> fo_write_path opts
             then RECV_PATH_DIRECT_OUTPUT else RECV_PATH_LOCAL_BUFFER),
           pd_cpu_thread_on_aicpu := ri_cpu_thread_on_aicpu ri\<rparr>
     in case comm_name of None \<Rightarrow> d
        | Some name \<Rightarrow> d\<lparr>pd_comm_name := strncpy (pd_comm_name d) name (COMM_NAME_BYTES - 1)\<rparr>)"

section \<open>Mode flags\<close>

text \<open>What a completion word says: the transfer, the completion and the binding that the kernel and
  the host both read from it.\<close>

definition desc_transfer :: "u32 \<Rightarrow> PayloadTransferMode" where
  "desc_transfer m = (if m AND FLAG_WRITE_WITH_NOTIFY \<noteq> 0 then TmWriteWithNotify
     else if m AND FLAG_WRITE_PATH \<noteq> 0 then TmWrite else TmRead)"

definition desc_fenced :: "u32 \<Rightarrow> bool" where
  "desc_fenced m \<longleftrightarrow> m AND COMPLETION_MODE_MASK = COMPLETION_CHANNEL_DRAIN"

definition fill_transfer :: "payload_options \<Rightarrow> PayloadTransferMode" where
  "fill_transfer opts = (if fo_write_with_notify opts then TmWriteWithNotify
     else if fo_write_path opts then TmWrite else TmRead)"

definition desc_binding :: "u32 \<Rightarrow> PayloadCommBinding" where
  "desc_binding m = (if m AND FLAG_CHANNEL_HANDLE_BINDING \<noteq> 0 then kChannelHandle
     else if m AND FLAG_SKIP_COMM_ACQUIRE \<noteq> 0 then kDiagnosticSkip else kCommName)"

lemma payload_completion_mode_flags:
  fixes nbi protocol opts
  defines "m \<equiv> payload_completion_mode nbi protocol opts"
  shows "m AND COMPLETION_MODE_MASK =
      (if fo_force_channel_fence opts \<or> fo_write_with_notify opts \<and> nbi \<or> protocol = PROTOCOL_ROCE
       then COMPLETION_CHANNEL_DRAIN else COMPLETION_ORDERED_NOTIFY)"
    "m AND FLAG_WRITE_WITH_NOTIFY = 0 \<longleftrightarrow> \<not> fo_write_with_notify opts"
    "m AND FLAG_WRITE_PATH = 0 \<longleftrightarrow> \<not> fo_write_path opts \<and> \<not> fo_write_with_notify opts"
    "m AND (FLAG_SKIP_COMM_ACQUIRE OR FLAG_CHANNEL_HANDLE_BINDING) = 0 \<longleftrightarrow>
      fo_comm_binding opts = kCommName"
    "m AND FLAG_CHANNEL_HANDLE_BINDING = 0 \<longleftrightarrow> fo_comm_binding opts \<noteq> kChannelHandle"
  unfolding m_def payload_completion_mode_def Let_def
  by (cases "fo_comm_binding opts"; simp)+

lemma payload_completion_mode_decodes:
  "desc_transfer (payload_completion_mode nbi protocol opts) = fill_transfer opts"
  by (simp add: desc_transfer_def fill_transfer_def payload_completion_mode_flags)

lemma payload_completion_mode_binding:
  "desc_binding (payload_completion_mode nbi protocol opts) = fo_comm_binding opts"
  unfolding desc_binding_def payload_completion_mode_def Let_def
  by (cases "fo_comm_binding opts") simp_all

section \<open>Strings in the descriptor\<close>

lemma has_string_iff:
  assumes "0 < len"
  shows "payload_desc_has_string data len \<longleftrightarrow> data ! 0 \<noteq> 0 \<and> (\<exists>i<len. data ! i = 0)"
proof -
  let ?fs = "filter (\<lambda>i. data ! i = 0) [Suc 0..<len]"
  have split: "[0..<len] = 0 # [Suc 0..<len]" using assms by (rule upt_conv_Cons)
  show ?thesis
  proof (cases "data ! 0 = 0")
    case True
    then show ?thesis by (simp add: payload_desc_has_string_def split)
  next
    case False
    have "(\<exists>i<len. data ! i = 0) \<longleftrightarrow> ?fs \<noteq> []"
      using False by (auto simp: filter_empty_conv Suc_le_eq) (metis atLeastLessThan_iff gr0I Suc_leI)
    moreover have "0 \<notin> set ?fs" by simp
    ultimately show ?thesis using False
      by (cases ?fs) (auto simp: payload_desc_has_string_def split)
  qed
qed

lemma strncpy_nth:
  assumes "n < length dst" "name \<noteq> []" "name ! 0 \<noteq> 0" "0 < n" "dst ! n = 0"
  shows "strncpy dst name n ! 0 \<noteq> 0" "strncpy dst name n ! n = 0" "length (strncpy dst name n) = length dst"
proof -
  let ?s = "take n (takeWhile (\<lambda>b. b \<noteq> 0) name)"
  obtain b bs where name: "name = b # bs" "b \<noteq> 0" using assms(2,3) by (cases name) auto
  then obtain t where t: "?s = b # t" using assms(4) by (cases n) auto
  have len: "length (?s @ replicate (n - length ?s) 0) = n" by simp
  show "strncpy dst name n ! 0 \<noteq> 0" using t name by (simp add: strncpy_def overwrite_def Let_def)
  have "strncpy dst name n = (?s @ replicate (n - length ?s) 0) @ drop n dst"
    using len by (simp add: strncpy_def overwrite_def Let_def)
  moreover from this have "strncpy dst name n ! n = drop n dst ! 0"
    using len by (metis append_Nil2 nth_append_length_plus add_0_right)
  ultimately show "strncpy dst name n ! n = 0" "length (strncpy dst name n) = length dst"
    using assms(1,5) len by simp_all
qed

lemma batch_tag_string:
  assumes "tag \<noteq> []" "tag ! 0 \<noteq> 0" "length dst = BATCH_TAG_BYTES"
    "n = min (length tag) (BATCH_TAG_BYTES - 1)"
  shows "payload_desc_has_string ((overwrite 0 (take n tag) dst)[n := 0]) BATCH_TAG_BYTES"
proof -
  have n: "0 < n" "n < BATCH_TAG_BYTES" "n \<le> length tag" using assms(1,4) by auto
  have len: "length (overwrite 0 (take n tag) dst) = BATCH_TAG_BYTES"
    using n assms(3) by (simp add: overwrite_def)
  have "overwrite 0 (take n tag) dst ! 0 = tag ! 0"
    using n assms(1) by (simp add: overwrite_def nth_append)
  with n len assms(2) show ?thesis by (auto simp: has_string_iff intro!: exI [of _ n])
qed

text \<open>What a reader of a character array sees: the characters before the first zero.\<close>

definition c_string :: "bytes \<Rightarrow> bytes" where
  "c_string b = takeWhile (\<lambda>c. c \<noteq> 0) b"

lemma c_string_take: "c_string (take n b) = take n (c_string b)"
  by (induction b arbitrary: n) (auto simp: c_string_def take_Cons split: nat.split)

lemma c_string_terminated: "c_string (b @ 0 # r) = c_string b"
  by (induction b) (auto simp: c_string_def)

lemma c_string_strncpy:
  assumes "length dst = Suc n" "dst ! n = 0"
  shows "c_string (strncpy dst name n) = take n (c_string name)"
proof -
  let ?s = "take n (c_string name)"
  have "drop n dst = [0]"
    using assms Cons_nth_drop_Suc [of n dst] by simp
  then have "strncpy dst name n = ?s @ replicate (n - length ?s) 0 @ [0]"
    by (simp add: strncpy_def overwrite_def c_string_def Let_def)
  also have "\<dots> = ?s @ 0 # replicate (n - length ?s) 0"
    by (simp add: replicate_append_same)
  finally have "c_string (strncpy dst name n) = c_string ?s" by (simp only: c_string_terminated)
  also have "\<dots> = ?s" unfolding c_string_take by (simp add: c_string_def)
  finally show ?thesis .
qed

lemma c_string_batch_tag:
  assumes "length dst = BATCH_TAG_BYTES" "n = min (length tag) (BATCH_TAG_BYTES - 1)"
  shows "c_string ((overwrite 0 (take n tag) dst)[n := 0]) = take (BATCH_TAG_BYTES - 1) (c_string tag)"
proof -
  have n: "n \<le> length tag" "n < length dst" using assms by auto
  have "(overwrite 0 (take n tag) dst)[n := 0] = take n tag @ 0 # drop (Suc n) dst"
    using n by (simp add: overwrite_def list_update_append Cons_nth_drop_Suc [symmetric])
  then have "c_string ((overwrite 0 (take n tag) dst)[n := 0]) = c_string (take n tag)"
    by (simp only: c_string_terminated)
  also have "c_string (take n tag) = c_string (take (BATCH_TAG_BYTES - 1) tag)"
    using assms(2) by (simp add: min_def)
  finally show ?thesis by (simp only: c_string_take)
qed

section \<open>What the fingerprint detects\<close>

text \<open>The words that the fingerprint hashes, in order.\<close>

definition desc_words :: "desc \<Rightarrow> u64 list" where
  "desc_words d =
    map ucast [pd_magic d, pd_version d, pd_size d, pd_role d, pd_local_rank d, pd_peer_rank d,
      pd_rank_size d, pd_ready_notify_idx d, pd_done_notify_idx d, pd_timeout_sec d,
      pd_thread_notify_mode d, pd_completion_mode d] @
    [pd_bytes d, pd_aicpu_thread d, pd_channel_handle d, pd_user_buffer d, pd_local_hccl_buffer d,
      pd_remote_hccl_buffer d, pd_local_hccl_buffer_bytes d, pd_remote_hccl_buffer_bytes d,
      pd_status_word d] @
    map ucast (take BATCH_TAG_BYTES (pd_batch_tag d)) @ [pd_cpu_thread_on_aicpu d] @
    map ucast (take COMM_NAME_BYTES (pd_comm_name d)) @
    map ucast [pd_status_word_count d, pd_status_schema_version d] @
    [pd_reserved2_0 d, pd_reserved2_1 d, pd_reserved2_2 d]"

lemma payload_hash_bytes_fold:
  "payload_hash_bytes h data len = fold (\<lambda>v h. payload_hash_u64 h v) (map ucast (take len data)) h"
  by (simp add: payload_hash_bytes_def payload_hash_u64_def fold_map o_def)

lemma desc_fingerprint_fold:
  "desc_fingerprint d = fold (\<lambda>v h. payload_hash_u64 h v) (desc_words d) 1469598103934665603"
  unfolding desc_fingerprint_def Let_def payload_hash_bytes_fold
  unfolding desc_words_def fold_append
  by (simp only: list.map fold.simps o_apply id_apply)

lemma payload_prime_unit: "(1099511628211 :: u64) * 14886173955864302971 = 1"
  by simp

lemma payload_hash_u64_inj:
  assumes "payload_hash_u64 h v = payload_hash_u64 h' v'"
  shows "h XOR v = h' XOR v'"
proof -
  have "(h XOR v) * (1099511628211 * 14886173955864302971) =
      (h' XOR v') * (1099511628211 * (14886173955864302971 :: u64))"
    using assms unfolding payload_hash_u64_def mult.assoc [symmetric] by simp
  then show ?thesis by (simp only: payload_prime_unit mult_1_right)
qed

lemma xor_cancel_right:
  assumes "(a :: u64) XOR c = b XOR c"
  shows "a = b"
proof -
  have "(a XOR c) XOR c = (b XOR c) XOR c" using assms by simp
  then show ?thesis by (simp add: xor.assoc)
qed

lemma xor_cancel_left: "(c :: u64) XOR a = c XOR b \<Longrightarrow> a = b"
  by (rule xor_cancel_right [of _ c]) (simp add: xor.commute)

lemma fold_payload_hash_inj:
  "fold (\<lambda>v h. payload_hash_u64 h v) vs h = fold (\<lambda>v h. payload_hash_u64 h v) vs h' \<Longrightarrow> h = h'"
  by (induction vs arbitrary: h h') (auto dest!: payload_hash_u64_inj dest: xor_cancel_right)

text \<open>The fingerprint sees every single change.  Two descriptors that differ in exactly one
  hashed word (a field, or one character of the batch tag or the communicator name) never have the
  same fingerprint, so the host's comparison of the echoed fingerprint detects it.\<close>

theorem fingerprint_detects_word_change:
  assumes "desc_words d = xs @ a # ys" "desc_words d' = xs @ b # ys" "a \<noteq> b"
  shows "desc_fingerprint d \<noteq> desc_fingerprint d'"
proof
  assume "desc_fingerprint d = desc_fingerprint d'"
  then have "payload_hash_u64 (fold (\<lambda>v h. payload_hash_u64 h v) xs 1469598103934665603) a =
      payload_hash_u64 (fold (\<lambda>v h. payload_hash_u64 h v) xs 1469598103934665603) b"
    unfolding desc_fingerprint_fold assms(1,2) by (auto dest: fold_payload_hash_inj)
  then have "a = b" by (blast dest: payload_hash_u64_inj xor_cancel_left)
  with assms(3) show False by simp
qed

lemma fingerprint_detects_word_change_witness:
  "desc_fingerprint (payload_copy_desc_init zero_desc) \<noteq>
   desc_fingerprint (payload_copy_desc_init zero_desc\<lparr>pd_reserved2_2 := 7\<rparr>)"
proof -
  let ?d = "payload_copy_desc_init zero_desc"
  have "\<exists>xs. desc_words ?d = xs @ 0 # [] \<and> desc_words (?d\<lparr>pd_reserved2_2 := 7\<rparr>) = xs @ 7 # []"
    by (simp add: desc_words_def payload_copy_desc_init_def zero_desc_def)
  then obtain xs where "desc_words ?d = xs @ 0 # []" "desc_words (?d\<lparr>pd_reserved2_2 := 7\<rparr>) = xs @ 7 # []"
    by blast
  then show ?thesis by (rule fingerprint_detects_word_change) simp
qed

section \<open>Filled descriptors\<close>

text \<open>What a caller guarantees before it fills a descriptor: a pair of ranks, resources of a channel
  that hold the payload, names for the communicator and the batch where they are used.\<close>

definition fill_ok :: "CommState \<Rightarrow> u32 \<Rightarrow> HcommChannelResourceInfo \<Rightarrow> u64 \<Rightarrow> u64 \<Rightarrow> bytes option \<Rightarrow>
    payload_options \<Rightarrow> bool" where
  "fill_ok state peer ri user bts name opts \<longleftrightarrow>
    cs_rank_size state = 2 \<and> cs_rank state < 2 \<and> peer < 2 \<and> cs_rank state \<noteq> peer \<and>
    bts \<noteq> 0 \<and> bts \<le> ri_local_buffer_bytes ri \<and> bts \<le> ri_remote_buffer_bytes ri \<and>
    ri_aicpu_ts_thread ri \<noteq> 0 \<and> ri_channel_handle ri \<noteq> 0 \<and> user \<noteq> 0 \<and>
    ri_local_buffer ri \<noteq> 0 \<and> ri_remote_buffer ri \<noteq> 0 \<and>
    (ri_host_thread_notify_ready ri \<longrightarrow> ri_cpu_thread_on_aicpu ri \<noteq> 0) \<and>
    (fo_batch_tag opts = [] \<or> fo_batch_tag opts ! 0 \<noteq> 0) \<and>
    (fo_comm_binding opts = kCommName \<longrightarrow> (\<exists>n. name = Some n \<and> n \<noteq> [] \<and> n ! 0 \<noteq> 0))"

lemmas fill_select = flume_hcomm_payload_copy_desc_v1.select_convs
  flume_hcomm_payload_copy_desc_v1.update_convs

definition fill_tag :: "payload_options \<Rightarrow> bytes" where
  "fill_tag opts = (if fo_batch_tag opts = [] then kDefaultHcommPayloadBatchTag else fo_batch_tag opts)"

lemma filled_strings:
  "c_string (pd_batch_tag (FillFlumePayloadCopyDesc nbi role state peer ri user bts name opts zero_desc)) =
     take 47 (c_string (fill_tag opts))"
  "c_string (pd_comm_name (FillFlumePayloadCopyDesc nbi role state peer ri user bts name opts zero_desc)) =
     (case name of None \<Rightarrow> [] | Some n \<Rightarrow> take 127 (c_string n))"
proof -
  let ?tag = "fill_tag opts"
  have "pd_batch_tag (FillFlumePayloadCopyDesc nbi role state peer ri user bts name opts zero_desc) =
      (overwrite 0 (take (min (length ?tag) (48 - 1)) ?tag) (replicate 48 0))[min (length ?tag) (48 - 1) := 0]"
    unfolding fill_tag_def
    by (cases name) (simp_all only: FillFlumePayloadCopyDesc_def payload_copy_desc_init_def
        zero_desc_def Let_def option.case fill_select)
  then show "c_string (pd_batch_tag (FillFlumePayloadCopyDesc nbi role state peer ri user bts name opts zero_desc)) =
     take 47 (c_string ?tag)"
    using c_string_batch_tag [of "replicate 48 0" "min (length ?tag) (48 - 1)" ?tag] by simp
  have "c_string (replicate 128 0) = []" by (simp add: c_string_def numeral_eq_Suc)
  moreover have "c_string (strncpy (replicate 128 0) n 127) = take 127 (c_string n)" for n
    by (rule c_string_strncpy) simp_all
  ultimately show "c_string (pd_comm_name (FillFlumePayloadCopyDesc nbi role state peer ri user bts name opts zero_desc)) =
     (case name of None \<Rightarrow> [] | Some n \<Rightarrow> take 127 (c_string n))"
    by (cases name) (simp_all add: FillFlumePayloadCopyDesc_def payload_copy_desc_init_def zero_desc_def Let_def)
qed

lemma filled_batch_tag:
  assumes "fill_ok state peer ri user bts name opts"
  shows "payload_desc_has_string
    (pd_batch_tag (FillFlumePayloadCopyDesc nbi role state peer ri user bts name opts zero_desc)) 48"
proof -
  let ?tag = "if fo_batch_tag opts = [] then kDefaultHcommPayloadBatchTag else fo_batch_tag opts"
  have "?tag \<noteq> []" "?tag ! 0 \<noteq> 0"
    using assms by (auto simp: fill_ok_def kDefaultHcommPayloadBatchTag_def cstr_def)
  then have "payload_desc_has_string ((overwrite 0 (take (min (length ?tag) (48 - 1)) ?tag)
      (replicate 48 0))[min (length ?tag) (48 - 1) := 0]) 48"
    by (intro batch_tag_string) simp_all
  moreover have "pd_batch_tag (FillFlumePayloadCopyDesc nbi role state peer ri user bts name opts zero_desc) =
      (overwrite 0 (take (min (length ?tag) (48 - 1)) ?tag) (replicate 48 0))[min (length ?tag) (48 - 1) := 0]"
    by (cases name) (simp_all only: FillFlumePayloadCopyDesc_def payload_copy_desc_init_def
        zero_desc_def Let_def option.case fill_select)
  ultimately show ?thesis by simp
qed

lemma filled_comm_name:
  assumes "fill_ok state peer ri user bts name opts" "fo_comm_binding opts = kCommName"
  shows "payload_desc_has_string
    (pd_comm_name (FillFlumePayloadCopyDesc nbi role state peer ri user bts name opts zero_desc)) 128"
proof -
  obtain n where n: "name = Some n" "n \<noteq> []" "n ! 0 \<noteq> 0" using assms by (auto simp: fill_ok_def)
  have z: "127 < length (replicate 128 (0 :: u8))" "replicate 128 (0 :: u8) ! 127 = 0" by simp_all
  have "payload_desc_has_string (strncpy (replicate 128 0) n 127) 128"
    using strncpy_nth [OF z(1) n(2,3) _ z(2)] by (auto simp: has_string_iff intro!: exI [of _ 127])
  then show ?thesis
    using n(1) by (simp add: FillFlumePayloadCopyDesc_def payload_copy_desc_init_def zero_desc_def Let_def)
qed

lemma filled_fields:
  assumes "fill_ok state peer ri user bts name opts" "status \<noteq> 0"
    "d = (FillFlumePayloadCopyDesc nbi role state peer ri user bts name opts zero_desc)
       \<lparr>pd_status_word := status, pd_status_word_count := STATUS_WORD_COUNT,
        pd_status_schema_version := STATUS_SCHEMA_VERSION\<rparr>"
  shows "validate_reason d = VALIDATE_OK"
    "pd_completion_mode d = payload_completion_mode nbi (ri_resolved_protocol ri) opts"
    "pd_reserved2_0 d = (if fo_disable_batch opts then 1 else 0)"
    "pd_reserved2_1 d = (if fo_recv_direct_output opts \<and> \<not> fo_write_path opts then 1 else 0)"
    "pd_role d = (if role = kSend then NOTIFY_ROLE_SEND else NOTIFY_ROLE_RECV)"
    "pd_local_rank d = cs_rank state" "pd_peer_rank d = peer" "pd_bytes d = bts"
    "pd_user_buffer d = user" "pd_local_hccl_buffer d = ri_local_buffer ri"
    "pd_remote_hccl_buffer d = ri_remote_buffer ri" "pd_channel_handle d = ri_channel_handle ri"
    "pd_rank_size d = cs_rank_size state" "pd_ready_notify_idx d = 0" "pd_done_notify_idx d = 1"
    "pd_timeout_sec d = ri_timeout_sec ri"
    "pd_thread_notify_mode d = (if ri_host_thread_notify_ready ri then 1 else 0)"
    "pd_aicpu_thread d = ri_aicpu_ts_thread ri" "pd_cpu_thread_on_aicpu d = ri_cpu_thread_on_aicpu ri"
    "pd_local_hccl_buffer_bytes d = ri_local_buffer_bytes ri"
    "pd_remote_hccl_buffer_bytes d = ri_remote_buffer_bytes ri"
    "c_string (pd_batch_tag d) = take 47 (c_string (fill_tag opts))"
    "c_string (pd_comm_name d) = (case name of None \<Rightarrow> [] | Some n \<Rightarrow> take 127 (c_string n))"
proof -
  have r: "pd_role d = (if role = kSend then NOTIFY_ROLE_SEND else NOTIFY_ROLE_RECV)"
    by (cases name) (simp_all only: assms(3) FillFlumePayloadCopyDesc_def payload_copy_desc_init_def zero_desc_def
        Let_def option.case fill_select)
  have f: "pd_timeout_sec d = ri_timeout_sec ri" "pd_magic d = PAYLOAD_COPY_MAGIC" "pd_version d = PAYLOAD_COPY_VERSION"
    "pd_size d = PAYLOAD_COPY_DESC_SIZE" "pd_rank_size d = cs_rank_size state"
    "pd_local_rank d = cs_rank state" "pd_peer_rank d = peer" "pd_ready_notify_idx d = 0"
    "pd_done_notify_idx d = 1" "pd_bytes d = bts"
    "pd_thread_notify_mode d = (if ri_host_thread_notify_ready ri then 1 else 0)"
    "pd_completion_mode d = payload_completion_mode nbi (ri_resolved_protocol ri) opts"
    "pd_aicpu_thread d = ri_aicpu_ts_thread ri" "pd_channel_handle d = ri_channel_handle ri"
    "pd_user_buffer d = user" "pd_local_hccl_buffer d = ri_local_buffer ri"
    "pd_remote_hccl_buffer d = ri_remote_buffer ri"
    "pd_local_hccl_buffer_bytes d = ri_local_buffer_bytes ri"
    "pd_remote_hccl_buffer_bytes d = ri_remote_buffer_bytes ri"
    "pd_reserved2_0 d = (if fo_disable_batch opts then 1 else 0)"
    "pd_reserved2_1 d = (if fo_recv_direct_output opts \<and> \<not> fo_write_path opts then 1 else 0)"
    "pd_cpu_thread_on_aicpu d = ri_cpu_thread_on_aicpu ri" "pd_status_word d = status"
    "pd_status_word_count d = STATUS_WORD_COUNT" "pd_status_schema_version d = STATUS_SCHEMA_VERSION"
    by (cases name; simp only: assms(3) FillFlumePayloadCopyDesc_def payload_copy_desc_init_def zero_desc_def
        Let_def option.case fill_select)+
  have s: "pd_batch_tag d = pd_batch_tag (FillFlumePayloadCopyDesc nbi role state peer ri user bts name opts zero_desc)"
    "pd_comm_name d = pd_comm_name (FillFlumePayloadCopyDesc nbi role state peer ri user bts name opts zero_desc)"
    by (simp_all add: assms(3))
  note ok = assms(1) [unfolded fill_ok_def]
  show "validate_reason d = VALIDATE_OK"
    unfolding validate_ok_iff f r s payload_completion_mode_flags
    using ok assms(2) filled_batch_tag [OF assms(1)] filled_comm_name [OF assms(1)]
    by (auto simp: not_le not_less)
  show "pd_completion_mode d = payload_completion_mode nbi (ri_resolved_protocol ri) opts"
    "pd_reserved2_0 d = (if fo_disable_batch opts then 1 else 0)"
    "pd_reserved2_1 d = (if fo_recv_direct_output opts \<and> \<not> fo_write_path opts then 1 else 0)"
    "pd_role d = (if role = kSend then NOTIFY_ROLE_SEND else NOTIFY_ROLE_RECV)"
    "pd_local_rank d = cs_rank state" "pd_peer_rank d = peer" "pd_bytes d = bts"
    "pd_user_buffer d = user" "pd_local_hccl_buffer d = ri_local_buffer ri"
    "pd_remote_hccl_buffer d = ri_remote_buffer ri" "pd_channel_handle d = ri_channel_handle ri"
    "pd_rank_size d = cs_rank_size state" "pd_ready_notify_idx d = 0" "pd_done_notify_idx d = 1"
    "pd_timeout_sec d = ri_timeout_sec ri"
    "pd_thread_notify_mode d = (if ri_host_thread_notify_ready ri then 1 else 0)"
    "pd_aicpu_thread d = ri_aicpu_ts_thread ri" "pd_cpu_thread_on_aicpu d = ri_cpu_thread_on_aicpu ri"
    "pd_local_hccl_buffer_bytes d = ri_local_buffer_bytes ri"
    "pd_remote_hccl_buffer_bytes d = ri_remote_buffer_bytes ri"
    by (fact f r)+
  show "c_string (pd_batch_tag d) = take 47 (c_string (fill_tag opts))"
    "c_string (pd_comm_name d) = (case name of None \<Rightarrow> [] | Some n \<Rightarrow> take 127 (c_string n))"
    unfolding s by (rule filled_strings)+
qed

text \<open>Property C14. The host fills descriptors that the kernel accepts.  From channel resources that hold the
  payload, the filled descriptor (with its status array set) passes the kernel's validation, and
  says exactly what it was filled from: the role, the ranks, the byte count, the buffers and their
  sizes, the channel, the notifies, the threads and the timeout; the transfer, the fence and the communicator binding that its completion word decodes to;
  the batch and receive-path switches; and, up to the sizes of their arrays, the batch tag (the
  default one if none is given) and the communicator's name.\<close>

theorem filled_desc_valid:
  assumes "fill_ok state peer ri user bts name opts" "status \<noteq> 0"
    "d = (FillFlumePayloadCopyDesc nbi role state peer ri user bts name opts zero_desc)
       \<lparr>pd_status_word := status, pd_status_word_count := STATUS_WORD_COUNT,
        pd_status_schema_version := STATUS_SCHEMA_VERSION\<rparr>"
  shows "validate_reason d = VALIDATE_OK \<and>
    pd_role d = (if role = kSend then NOTIFY_ROLE_SEND else NOTIFY_ROLE_RECV) \<and>
    pd_local_rank d = cs_rank state \<and> pd_peer_rank d = peer \<and> pd_bytes d = bts \<and>
    pd_user_buffer d = user \<and> pd_local_hccl_buffer d = ri_local_buffer ri \<and>
    pd_remote_hccl_buffer d = ri_remote_buffer ri \<and> pd_channel_handle d = ri_channel_handle ri \<and>
    pd_rank_size d = cs_rank_size state \<and> pd_ready_notify_idx d = 0 \<and> pd_done_notify_idx d = 1 \<and>
    pd_timeout_sec d = ri_timeout_sec ri \<and>
    pd_thread_notify_mode d = (if ri_host_thread_notify_ready ri then THREAD_NOTIFY_HOST_AICPU else THREAD_NOTIFY_NONE) \<and>
    pd_aicpu_thread d = ri_aicpu_ts_thread ri \<and> pd_cpu_thread_on_aicpu d = ri_cpu_thread_on_aicpu ri \<and>
    pd_local_hccl_buffer_bytes d = ri_local_buffer_bytes ri \<and>
    pd_remote_hccl_buffer_bytes d = ri_remote_buffer_bytes ri \<and>
    desc_transfer (pd_completion_mode d) = fill_transfer opts \<and>
    (desc_fenced (pd_completion_mode d) \<longleftrightarrow> fo_force_channel_fence opts \<or>
       fo_write_with_notify opts \<and> nbi \<or> ri_resolved_protocol ri = PROTOCOL_ROCE) \<and>
    desc_binding (pd_completion_mode d) = fo_comm_binding opts \<and>
    (pd_reserved2_0 d = BATCH_MODE_DISABLED \<longleftrightarrow> fo_disable_batch opts) \<and>
    (pd_reserved2_1 d = RECV_PATH_DIRECT_OUTPUT \<longleftrightarrow> fo_recv_direct_output opts \<and> \<not> fo_write_path opts) \<and>
    c_string (pd_batch_tag d) = take 47 (c_string (fill_tag opts)) \<and>
    c_string (pd_comm_name d) = (case name of None \<Rightarrow> [] | Some n \<Rightarrow> take 127 (c_string n))"
  by (simp add: filled_fields [OF assms] payload_completion_mode_decodes payload_completion_mode_binding
      desc_fenced_def payload_completion_mode_flags)

definition sample_state :: CommState where
  "sample_state = \<lparr>cs_hccl_attached = True, cs_hccl_comm = 1, cs_sim_comm_attached = False,
     cs_sim_comm_name = [], cs_rank = 0, cs_rank_size = 2\<rparr>"

definition sample_resources :: HcommChannelResourceInfo where
  "sample_resources = \<lparr>ri_usable_buffer_bytes = 4096, ri_local_buffer_bytes = 4096,
     ri_remote_buffer_bytes = 4096, ri_local_buffer = 0x1000, ri_remote_buffer = 0x2000,
     ri_channel_handle = 5, ri_cpu_ts_thread = 6, ri_aicpu_ts_thread = 7, ri_cpu_thread_on_aicpu = 8,
     ri_aicpu_thread_on_cpu = 9, ri_channel_count = 1, ri_notify_num = 2,
     ri_resolved_engine = ENGINE_AICPU_TS, ri_resolved_protocol = PROTOCOL_ROCE,
     ri_thread_export_required = True, ri_host_thread_notify_ready = True, ri_timeout_sec = 60,
     ri_channel_desc_source = ''init''\<rparr>"

definition sample_options :: payload_options where
  "sample_options = \<lparr>fo_disable_batch = False, fo_batch_tag = [], fo_recv_direct_output = False,
     fo_force_channel_fence = False, fo_write_path = False, fo_write_with_notify = True,
     fo_comm_binding = kCommName\<rparr>"

definition sample_desc :: "PayloadRole \<Rightarrow> desc" where
  "sample_desc role = (FillFlumePayloadCopyDesc False role sample_state 1 sample_resources 0x9000 64
     (Some [104, 103]) sample_options zero_desc)
       \<lparr>pd_status_word := 0x7000, pd_status_word_count := STATUS_WORD_COUNT,
        pd_status_schema_version := STATUS_SCHEMA_VERSION\<rparr>"

lemma sample_fill_ok: "fill_ok sample_state 1 sample_resources 0x9000 64 (Some [104, 103]) sample_options"
  by (simp add: fill_ok_def sample_state_def sample_resources_def sample_options_def)

lemma filled_desc_valid_witness:
  "validate_reason (sample_desc kSend) = VALIDATE_OK \<and>
   pd_role (sample_desc kSend) = NOTIFY_ROLE_SEND \<and>
   desc_binding (pd_completion_mode (sample_desc kSend)) = kCommName \<and>
   desc_transfer (pd_completion_mode (sample_desc kSend)) = TmWriteWithNotify"
  using filled_desc_valid [OF sample_fill_ok _ sample_desc_def]
  by (simp add: fill_transfer_def sample_options_def)

end
