(* ===== verification/Client_Store.thy ===== *)
theory Client_Store
  imports Payload_Abi Framing
begin

text \<open>
  The objects of the client library and the operations on them that every transfer uses
  (\<open>src/core/client.cc\<close>, first part; the enumerations are those of \<open>include/flume/flume.h\<close>).

  Clients, buffers and I/O handles are C++ objects that the caller and the library share by
  pointer, and two registered buffers may cover the same memory.  The model is therefore an explicit
  heap: partial maps from addresses to the three kinds of objects, with address 0 for
  \<open>nullptr\<close>, and a byte memory that a buffer's \<open>ptr\<close> points into.  \<open>new\<close> takes the next unused
  address.  Reading an object that was deleted is undefined in C++; here it is the value of \<open>the\<close>
  on \<open>None\<close>, about which nothing can be proved, so each theorem on a result also shows that the
  objects it touches are alive.

  The two reference counters, of type \<open>size_t\<close> in the program, are integers: a decrement below zero,
  which would wrap around in the program, shows as a negative number.  \<open>Client_Safety\<close> proves them equal
  to the number of references held, so that neither end of the range of \<open>size_t\<close> is met with fewer
  than \<open>2 ^ 64\<close> references.  The central notion is the ledger: the counters
  of all buffers and handles agree with a given account of who holds a reference, everything that
  is referenced is alive, and a handle is incomplete exactly while somebody will complete it.
\<close>

named_theorems heap_simps "fields of the heap after one operation on objects"

section \<open>Enumerations\<close>

text \<open>An enumeration of the C interface can hold any integer; the last constructor stands for the
  values without an enumerator, which the \<open>default\<close> branches of the code handle.\<close>

datatype flume_buffer_type = FLUME_BUFFER_HOST | FLUME_BUFFER_ASCEND_HBM | FLUME_BUFFER_HCCL_COMM
  | FLUME_BUFFER_SIM_HBM | FLUME_BUFFER_SIM_HCCL_COMM | FLUME_BUFFER_RAW nat

datatype flume_data_type = FLUME_DTYPE_INT8 | FLUME_DTYPE_INT16 | FLUME_DTYPE_INT32
  | FLUME_DTYPE_FP16 | FLUME_DTYPE_FP32 | FLUME_DTYPE_INT64 | FLUME_DTYPE_UINT64
  | FLUME_DTYPE_UINT8 | FLUME_DTYPE_UINT16 | FLUME_DTYPE_UINT32 | FLUME_DTYPE_FP64
  | FLUME_DTYPE_BFP16 | FLUME_DTYPE_RAW nat

datatype flume_reduce_op = FLUME_REDUCE_SUM | FLUME_REDUCE_PROD | FLUME_REDUCE_MAX
  | FLUME_REDUCE_MIN | FLUME_REDUCE_RAW nat

definition IsSimBufferType :: "flume_buffer_type \<Rightarrow> bool" where
  "IsSimBufferType t \<longleftrightarrow> t = FLUME_BUFFER_SIM_HBM \<or> t = FLUME_BUFFER_SIM_HCCL_COMM"

definition IsReadableLocalType :: "flume_buffer_type \<Rightarrow> bool" where
  "IsReadableLocalType t \<longleftrightarrow> t = FLUME_BUFFER_HOST \<or> IsSimBufferType t"

definition IsSimHbmCopyType :: "flume_buffer_type \<Rightarrow> bool" where
  "IsSimHbmCopyType t = IsSimBufferType t"

definition IsRealHcclBufferType :: "flume_buffer_type \<Rightarrow> bool" where
  "IsRealHcclBufferType t \<longleftrightarrow> t = FLUME_BUFFER_ASCEND_HBM \<or> t = FLUME_BUFFER_HCCL_COMM"

text \<open>The flag is the build option \<open>FLUME_ENABLE_HCCL\<close>.\<close>

definition IsRegisterableBufferType :: "bool \<Rightarrow> flume_buffer_type \<Rightarrow> bool" where
  "IsRegisterableBufferType enable_hccl t \<longleftrightarrow>
    t = FLUME_BUFFER_HOST \<or> IsSimBufferType t \<or> (enable_hccl \<and> IsRealHcclBufferType t)"

definition IsCollectiveBufferType :: "flume_buffer_type \<Rightarrow> bool" where
  "IsCollectiveBufferType t \<longleftrightarrow> IsSimBufferType t \<or> IsRealHcclBufferType t"

fun IsSupportedReduceOp :: "flume_reduce_op \<Rightarrow> bool" where
  "IsSupportedReduceOp (FLUME_REDUCE_RAW n) = False"
| "IsSupportedReduceOp _ = True"

fun DataTypeBytes :: "flume_data_type \<Rightarrow> nat" where
  "DataTypeBytes FLUME_DTYPE_INT8 = 1"
| "DataTypeBytes FLUME_DTYPE_UINT8 = 1"
| "DataTypeBytes FLUME_DTYPE_INT16 = 2"
| "DataTypeBytes FLUME_DTYPE_UINT16 = 2"
| "DataTypeBytes FLUME_DTYPE_FP16 = 2"
| "DataTypeBytes FLUME_DTYPE_BFP16 = 2"
| "DataTypeBytes FLUME_DTYPE_INT32 = 4"
| "DataTypeBytes FLUME_DTYPE_UINT32 = 4"
| "DataTypeBytes FLUME_DTYPE_FP32 = 4"
| "DataTypeBytes FLUME_DTYPE_INT64 = 8"
| "DataTypeBytes FLUME_DTYPE_UINT64 = 8"
| "DataTypeBytes FLUME_DTYPE_FP64 = 8"
| "DataTypeBytes (FLUME_DTYPE_RAW n) = 0"

text \<open>\<open>std::numeric_limits<size_t>::max()\<close>; sizes are natural numbers below its successor.\<close>

abbreviation (input) SIZE_MAX :: nat where "SIZE_MAX \<equiv> 18446744073709551615"

definition CheckedBytes :: "u64 \<Rightarrow> flume_data_type \<Rightarrow> nat option" where
  "CheckedBytes count data_type =
    (if count = 0 then None
     else let elem = DataTypeBytes data_type in
       if elem = 0 \<or> unat count > SIZE_MAX div elem then None
       else Some (unat count * elem))"

definition CheckedMul :: "nat \<Rightarrow> nat \<Rightarrow> nat option" where
  "CheckedMul lhs rhs = (if rhs \<noteq> 0 \<and> lhs > SIZE_MAX div rhs then None else Some (lhs * rhs))"

section \<open>Objects and the heap\<close>

record flume_client =
  cl_fd :: int
  cl_next_request_id :: u64
  cl_hccl_attached :: bool
  cl_hccl_comm :: u64
  cl_sim_comm_attached :: bool
  cl_sim_comm_name :: bytes
  cl_rank :: u32
  cl_rank_size :: u32
  cl_allreduce_seq :: u64
  cl_allgather_seq :: u64
  cl_p2p_send_seq :: u64
  cl_p2p_recv_seq :: u64
  cl_payload_send_seq :: u64
  cl_payload_recv_seq :: u64
  cl_a3_register_seq :: u64

definition new_client :: flume_client where
  "new_client = \<lparr>cl_fd = - 1, cl_next_request_id = 1, cl_hccl_attached = False, cl_hccl_comm = 0,
    cl_sim_comm_attached = False, cl_sim_comm_name = [], cl_rank = 0, cl_rank_size = 0,
    cl_allreduce_seq = 0, cl_allgather_seq = 0, cl_p2p_send_seq = 0, cl_p2p_recv_seq = 0,
    cl_payload_send_seq = 0, cl_payload_recv_seq = 0, cl_a3_register_seq = 0\<rparr>"

record flume_buffer =
  bf_client :: nat
  bf_ptr :: nat
  bf_len :: nat
  bf_type :: flume_buffer_type
  bf_a3_refs :: int
  bf_pending :: int

record flume_io =
  io_done :: bool
  io_status :: u32
  io_bytes :: nat
  io_checksum :: u32
  io_error :: bytes
  io_pending :: int
  io_sync_acl_stream :: bool
  io_sync_started :: bool
  io_acl_stream :: nat

definition new_io :: flume_io where
  "new_io = \<lparr>io_done = True, io_status = status_u32 FLUME_OK, io_bytes = 0, io_checksum = 0,
    io_error = [], io_pending = 0, io_sync_acl_stream = False, io_sync_started = False,
    io_acl_stream = 0\<rparr>"

record heap =
  hp_mem :: "nat \<Rightarrow> u8"
  hp_brk :: nat
  hp_next :: nat
  hp_clients :: "nat \<rightharpoonup> flume_client"
  hp_buffers :: "nat \<rightharpoonup> flume_buffer"
  hp_ios :: "nat \<rightharpoonup> flume_io"

abbreviation client_at :: "heap \<Rightarrow> nat \<Rightarrow> flume_client" where
  "client_at h c \<equiv> the (hp_clients h c)"

abbreviation buffer_at :: "heap \<Rightarrow> nat \<Rightarrow> flume_buffer" where
  "buffer_at h b \<equiv> the (hp_buffers h b)"

abbreviation io_at :: "heap \<Rightarrow> nat \<Rightarrow> flume_io" where
  "io_at h i \<equiv> the (hp_ios h i)"

definition upd_client :: "nat \<Rightarrow> (flume_client \<Rightarrow> flume_client) \<Rightarrow> heap \<Rightarrow> heap" where
  "upd_client c f h = h\<lparr>hp_clients := (hp_clients h)(c := map_option f (hp_clients h c))\<rparr>"

definition upd_buffer :: "nat \<Rightarrow> (flume_buffer \<Rightarrow> flume_buffer) \<Rightarrow> heap \<Rightarrow> heap" where
  "upd_buffer b f h = h\<lparr>hp_buffers := (hp_buffers h)(b := map_option f (hp_buffers h b))\<rparr>"

definition upd_io :: "nat \<Rightarrow> (flume_io \<Rightarrow> flume_io) \<Rightarrow> heap \<Rightarrow> heap" where
  "upd_io i f h = h\<lparr>hp_ios := (hp_ios h)(i := map_option f (hp_ios h i))\<rparr>"

text \<open>\<open>memcpy\<close> out of and into the byte memory.\<close>

definition mem_read :: "(nat \<Rightarrow> u8) \<Rightarrow> nat \<Rightarrow> nat \<Rightarrow> bytes" where
  "mem_read m a n = map m [a..<a + n]"

definition mem_write :: "nat \<Rightarrow> bytes \<Rightarrow> (nat \<Rightarrow> u8) \<Rightarrow> nat \<Rightarrow> u8" where
  "mem_write a bs m = (\<lambda>x. if a \<le> x \<and> x < a + length bs then bs ! (x - a) else m x)"

definition SnapshotCommState :: "heap \<Rightarrow> nat \<Rightarrow> CommState" where
  "SnapshotCommState h c =
    (let cl = client_at h c in
     \<lparr>cs_hccl_attached = cl_hccl_attached cl, cs_hccl_comm = cl_hccl_comm cl,
      cs_sim_comm_attached = cl_sim_comm_attached cl, cs_sim_comm_name = cl_sim_comm_name cl,
      cs_rank = cl_rank cl, cs_rank_size = cl_rank_size cl\<rparr>)"

definition ValidateRange :: "heap \<Rightarrow> nat \<Rightarrow> nat \<Rightarrow> nat \<Rightarrow> bool" where
  "ValidateRange h buffer offset len \<longleftrightarrow>
    buffer \<noteq> 0 \<and> offset \<le> bf_len (buffer_at h buffer) \<and> len \<le> bf_len (buffer_at h buffer) - offset"

section \<open>I/O handles and reference counts\<close>

definition alloc_io :: "flume_io \<Rightarrow> heap \<Rightarrow> nat \<times> heap" where
  "alloc_io io h = (hp_next h, h\<lparr>hp_ios := (hp_ios h)(hp_next h \<mapsto> io), hp_next := hp_next h + 1\<rparr>)"

definition MakeIo :: "flume_status \<Rightarrow> nat \<Rightarrow> u32 \<Rightarrow> bytes \<Rightarrow> heap \<Rightarrow> nat \<times> heap" where
  "MakeIo status n checksum error =
    alloc_io (new_io\<lparr>io_done := True, io_status := status_u32 status, io_bytes := n,
      io_checksum := checksum, io_error := error\<rparr>)"

definition MakePendingIo :: "heap \<Rightarrow> nat \<times> heap" where
  "MakePendingIo = alloc_io (new_io\<lparr>io_done := False, io_status := status_u32 FLUME_PENDING\<rparr>)"

definition MakeAclStreamIo :: "nat \<Rightarrow> nat \<Rightarrow> heap \<Rightarrow> nat \<times> heap" where
  "MakeAclStreamIo acl_stream n h =
    (case MakePendingIo h of (io, h) \<Rightarrow>
      (io, upd_io io (\<lambda>x. x\<lparr>io_sync_acl_stream := True, io_acl_stream := acl_stream,
        io_bytes := n\<rparr>) h))"

definition completed :: "flume_status \<Rightarrow> nat \<Rightarrow> u32 \<Rightarrow> bytes \<Rightarrow> flume_io \<Rightarrow> flume_io" where
  "completed status n checksum error x = x\<lparr>io_status := status_u32 status, io_bytes := n,
    io_checksum := checksum, io_error := error, io_done := True\<rparr>"

definition CompleteIo :: "nat \<Rightarrow> flume_status \<Rightarrow> nat \<Rightarrow> u32 \<Rightarrow> bytes \<Rightarrow> heap \<Rightarrow> heap" where
  "CompleteIo io status n checksum error h =
    (if io = 0 then h else upd_io io (completed status n checksum error) h)"

definition RetainPendingBuffer :: "nat \<Rightarrow> heap \<Rightarrow> heap" where
  "RetainPendingBuffer b h =
    (if b \<noteq> 0 then upd_buffer b (\<lambda>x. x\<lparr>bf_pending := bf_pending x + 1\<rparr>) h else h)"

definition ReleasePendingBuffer :: "nat \<Rightarrow> heap \<Rightarrow> heap" where
  "ReleasePendingBuffer b h =
    (if b \<noteq> 0 then upd_buffer b (\<lambda>x. x\<lparr>bf_pending := bf_pending x - 1\<rparr>) h else h)"

definition RetainPendingIo :: "nat \<Rightarrow> heap \<Rightarrow> heap" where
  "RetainPendingIo io h =
    (if io \<noteq> 0 then upd_io io (\<lambda>x. x\<lparr>io_pending := io_pending x + 1\<rparr>) h else h)"

definition CompletePendingIo :: "nat \<Rightarrow> flume_status \<Rightarrow> nat \<Rightarrow> u32 \<Rightarrow> bytes \<Rightarrow> heap \<Rightarrow> heap" where
  "CompletePendingIo io status n checksum error h =
    (if io = 0 then h
     else upd_io io (\<lambda>x. (completed status n checksum error x)\<lparr>io_pending := io_pending x - 1\<rparr>) h)"

text \<open>\<open>memcpy(static_cast<uint8_t*>(buffer->ptr) + offset, data, n)\<close> and the reverse copy.\<close>

definition buffer_write :: "nat \<Rightarrow> nat \<Rightarrow> bytes \<Rightarrow> heap \<Rightarrow> heap" where
  "buffer_write b offset data h = h\<lparr>hp_mem := mem_write (bf_ptr (buffer_at h b) + offset) data (hp_mem h)\<rparr>"

definition buffer_read :: "heap \<Rightarrow> nat \<Rightarrow> nat \<Rightarrow> nat \<Rightarrow> bytes" where
  "buffer_read h b offset n = mem_read (hp_mem h) (bf_ptr (buffer_at h b) + offset) n"

section \<open>Memory lemmas\<close>

lemma length_mem_read [simp]: "length (mem_read m a n) = n"
  by (simp add: mem_read_def)

lemma mem_read_write_same [simp]: "n = length bs \<Longrightarrow> mem_read (mem_write a bs m) a n = bs"
  by (auto simp: mem_read_def mem_write_def intro: nth_equalityI)

lemma mem_read_write_other:
  "a + n \<le> d \<or> d + length bs \<le> a \<Longrightarrow> mem_read (mem_write d bs m) a n = mem_read m a n"
  by (auto simp: mem_read_def mem_write_def)

lemma mem_read_write_inside:
  "off + n \<le> length bs \<Longrightarrow> mem_read (mem_write a bs m) (a + off) n = bslice off n bs"
  by (auto simp: mem_read_def mem_write_def bslice_def intro!: nth_equalityI)

text \<open>A checked size is positive, fits in a \<open>size_t\<close> and is the exact product.\<close>

lemma CheckedBytes_Some:
  "CheckedBytes count t = Some n \<longleftrightarrow>
    n = unat count * DataTypeBytes t \<and> 0 < n \<and> n \<le> SIZE_MAX"
proof (cases "count = 0 \<or> DataTypeBytes t = 0")
  case True
  then show ?thesis by (auto simp: CheckedBytes_def Let_def)
next
  case False
  then have pos: "0 < DataTypeBytes t" "0 < unat count" by (auto simp: unat_gt_0)
  have "unat count * DataTypeBytes t \<le> SIZE_MAX \<longleftrightarrow> unat count \<le> SIZE_MAX div DataTypeBytes t"
    using pos(1) by (rule less_eq_div_iff_mult_less_eq [symmetric])
  with False pos show ?thesis by (auto simp: CheckedBytes_def Let_def not_less)
qed

lemma CheckedMul_Some: "CheckedMul a b = Some n \<longleftrightarrow> n = a * b \<and> n \<le> SIZE_MAX"
proof (cases "b = 0")
  case False
  then have "a * b \<le> SIZE_MAX \<longleftrightarrow> a \<le> SIZE_MAX div b"
    by (intro less_eq_div_iff_mult_less_eq [symmetric]) simp
  with False show ?thesis by (auto simp: CheckedMul_def not_less)
qed (auto simp: CheckedMul_def)

section \<open>Fields after one operation\<close>

lemmas heap_defs = upd_client_def upd_buffer_def upd_io_def alloc_io_def CompleteIo_def
  RetainPendingBuffer_def ReleasePendingBuffer_def RetainPendingIo_def CompletePendingIo_def
  buffer_write_def

lemma upd_client_fields [heap_simps]:
  "hp_mem (upd_client c f h) = hp_mem h" "hp_brk (upd_client c f h) = hp_brk h"
  "hp_next (upd_client c f h) = hp_next h"
  "hp_clients (upd_client c f h) = (hp_clients h)(c := map_option f (hp_clients h c))"
  "hp_buffers (upd_client c f h) = hp_buffers h" "hp_ios (upd_client c f h) = hp_ios h"
  by (simp_all add: upd_client_def)

lemma CompleteIo_fields [heap_simps]:
  "hp_mem (CompleteIo i s n k e h) = hp_mem h" "hp_brk (CompleteIo i s n k e h) = hp_brk h"
  "hp_next (CompleteIo i s n k e h) = hp_next h"
  "hp_clients (CompleteIo i s n k e h) = hp_clients h"
  "hp_buffers (CompleteIo i s n k e h) = hp_buffers h"
  "i \<noteq> 0 \<Longrightarrow> hp_ios (CompleteIo i s n k e h) =
    (hp_ios h)(i := map_option (completed s n k e) (hp_ios h i))"
  by (simp_all add: heap_defs)

lemma CompletePendingIo_fields [heap_simps]:
  "hp_mem (CompletePendingIo i s n k e h) = hp_mem h"
  "hp_brk (CompletePendingIo i s n k e h) = hp_brk h"
  "hp_next (CompletePendingIo i s n k e h) = hp_next h"
  "hp_clients (CompletePendingIo i s n k e h) = hp_clients h"
  "hp_buffers (CompletePendingIo i s n k e h) = hp_buffers h"
  "i \<noteq> 0 \<Longrightarrow> hp_ios (CompletePendingIo i s n k e h) =
    (hp_ios h)(i := map_option (\<lambda>x. (completed s n k e x)\<lparr>io_pending := io_pending x - 1\<rparr>)
      (hp_ios h i))"
  by (simp_all add: heap_defs)

lemma RetainPendingIo_fields [heap_simps]:
  "hp_mem (RetainPendingIo i h) = hp_mem h" "hp_brk (RetainPendingIo i h) = hp_brk h"
  "hp_next (RetainPendingIo i h) = hp_next h" "hp_clients (RetainPendingIo i h) = hp_clients h"
  "hp_buffers (RetainPendingIo i h) = hp_buffers h"
  "i \<noteq> 0 \<Longrightarrow> hp_ios (RetainPendingIo i h) =
    (hp_ios h)(i := map_option (\<lambda>x. x\<lparr>io_pending := io_pending x + 1\<rparr>) (hp_ios h i))"
  by (simp_all add: heap_defs)

lemma RetainPendingBuffer_fields [heap_simps]:
  "hp_mem (RetainPendingBuffer b h) = hp_mem h" "hp_brk (RetainPendingBuffer b h) = hp_brk h"
  "hp_next (RetainPendingBuffer b h) = hp_next h"
  "hp_clients (RetainPendingBuffer b h) = hp_clients h" "hp_ios (RetainPendingBuffer b h) = hp_ios h"
  "b \<noteq> 0 \<Longrightarrow> hp_buffers (RetainPendingBuffer b h) =
    (hp_buffers h)(b := map_option (\<lambda>x. x\<lparr>bf_pending := bf_pending x + 1\<rparr>) (hp_buffers h b))"
  by (simp_all add: heap_defs)

lemma ReleasePendingBuffer_fields [heap_simps]:
  "hp_mem (ReleasePendingBuffer b h) = hp_mem h" "hp_brk (ReleasePendingBuffer b h) = hp_brk h"
  "hp_next (ReleasePendingBuffer b h) = hp_next h"
  "hp_clients (ReleasePendingBuffer b h) = hp_clients h" "hp_ios (ReleasePendingBuffer b h) = hp_ios h"
  "b \<noteq> 0 \<Longrightarrow> hp_buffers (ReleasePendingBuffer b h) =
    (hp_buffers h)(b := map_option (\<lambda>x. x\<lparr>bf_pending := bf_pending x - 1\<rparr>) (hp_buffers h b))"
  by (simp_all add: heap_defs)

lemma buffer_write_fields [heap_simps]:
  "hp_mem (buffer_write b off d h) = mem_write (bf_ptr (buffer_at h b) + off) d (hp_mem h)"
  "hp_brk (buffer_write b off d h) = hp_brk h" "hp_next (buffer_write b off d h) = hp_next h"
  "hp_clients (buffer_write b off d h) = hp_clients h" "hp_ios (buffer_write b off d h) = hp_ios h"
  "hp_buffers (buffer_write b off d h) = hp_buffers h"
  by (simp_all add: heap_defs)

lemma alloc_io_fields [heap_simps]:
  "fst (alloc_io x h) = hp_next h" "hp_mem (snd (alloc_io x h)) = hp_mem h"
  "hp_brk (snd (alloc_io x h)) = hp_brk h" "hp_next (snd (alloc_io x h)) = hp_next h + 1"
  "hp_clients (snd (alloc_io x h)) = hp_clients h" "hp_buffers (snd (alloc_io x h)) = hp_buffers h"
  "hp_ios (snd (alloc_io x h)) = (hp_ios h)(hp_next h \<mapsto> x)"
  by (simp_all add: heap_defs)

lemma completed_fields [heap_simps]:
  "io_done (completed s n k e x)" "io_status (completed s n k e x) = status_u32 s"
  "io_bytes (completed s n k e x) = n" "io_checksum (completed s n k e x) = k"
  "io_error (completed s n k e x) = e" "io_pending (completed s n k e x) = io_pending x"
  by (simp_all add: completed_def)

section \<open>The ledger\<close>

text \<open>
  \<open>ledger RB RI F h\<close>: \<open>RB\<close> and \<open>RI\<close> give the number of references the library holds on each buffer
  and each handle.  The counters agree with them, only live objects are referenced, a handle has at
  most one completer, and it is incomplete exactly when it has one or is one of the handles \<open>F\<close> that
  are completed in another way (the one being submitted, those that wait for an ACL stream).
\<close>

definition ledger :: "(nat \<Rightarrow> int) \<Rightarrow> (nat \<Rightarrow> int) \<Rightarrow> nat set \<Rightarrow> heap \<Rightarrow> bool" where
  "ledger RB RI F h \<longleftrightarrow>
    0 < hp_next h \<and> hp_buffers h 0 = None \<and> hp_ios h 0 = None \<and>
    (\<forall>a\<ge>hp_next h. hp_buffers h a = None \<and> hp_ios h a = None) \<and>
    (\<forall>b. 0 \<le> RB b) \<and> (\<forall>b. hp_buffers h b = None \<longrightarrow> RB b = 0) \<and>
    (\<forall>b x. hp_buffers h b = Some x \<longrightarrow> bf_pending x = RB b) \<and>
    (\<forall>i. 0 \<le> RI i \<and> RI i \<le> 1) \<and> (\<forall>i\<in>F. RI i = 0) \<and>
    (\<forall>i. hp_ios h i = None \<longrightarrow> RI i = 0 \<and> i \<notin> F) \<and>
    (\<forall>i x. hp_ios h i = Some x \<longrightarrow> io_pending x = RI i \<and> (io_done x \<longleftrightarrow> RI i = 0 \<and> i \<notin> F))"

lemma ledger_buffer: "ledger RB RI F h \<Longrightarrow> hp_buffers h b = Some x \<Longrightarrow> bf_pending x = RB b"
  by (auto simp: ledger_def)

lemma ledger_io: "ledger RB RI F h \<Longrightarrow> hp_ios h i = Some x \<Longrightarrow>
    io_pending x = RI i \<and> (io_done x \<longleftrightarrow> RI i = 0 \<and> i \<notin> F)"
  by (auto simp: ledger_def)

lemma ledger_buffer_live: "ledger RB RI F h \<Longrightarrow> RB b \<noteq> 0 \<Longrightarrow> \<exists>x. hp_buffers h b = Some x"
  by (cases "hp_buffers h b") (auto simp: ledger_def)

lemma ledger_io_live: "ledger RB RI F h \<Longrightarrow> RI i \<noteq> 0 \<or> i \<in> F \<Longrightarrow> \<exists>x. hp_ios h i = Some x"
  by (cases "hp_ios h i") (auto simp: ledger_def)

lemma ledger_null:
  assumes "ledger RB RI F h"
  shows "RB 0 = 0 \<and> RI 0 = 0 \<and> 0 \<notin> F \<and> hp_buffers h 0 = None \<and> hp_ios h 0 = None"
proof -
  have "hp_buffers h 0 = None" "hp_ios h 0 = None" using assms by (simp_all add: ledger_def)
  then show ?thesis using ledger_buffer_live [OF assms, of 0] ledger_io_live [OF assms, of 0] by auto
qed

lemma ledger_cong:
  "ledger RB RI F h \<Longrightarrow> hp_next h' = hp_next h \<Longrightarrow> hp_buffers h' = hp_buffers h \<Longrightarrow>
    hp_ios h' = hp_ios h \<Longrightarrow> ledger RB RI F h'"
  by (simp add: ledger_def)

lemma ledger_buffer_write: "ledger RB RI F h \<Longrightarrow> ledger RB RI F (buffer_write b off d h)"
  by (erule ledger_cong) (simp_all add: heap_simps)

lemma ledger_upd_client: "ledger RB RI F h \<Longrightarrow> ledger RB RI F (upd_client c f h)"
  by (erule ledger_cong) (simp_all add: heap_simps)

lemma ledger_retain_buffer:
  assumes "ledger RB RI F h" "hp_buffers h b = Some x"
  shows "ledger (RB(b := RB b + 1)) RI F (RetainPendingBuffer b h)"
proof -
  have "b \<noteq> 0" using assms ledger_null [OF assms(1)] by (intro notI) simp
  with assms show ?thesis by (auto simp: ledger_def heap_simps)
qed

lemma ledger_release_buffer:
  assumes "ledger RB RI F h" "0 < RB b"
  shows "ledger (RB(b := RB b - 1)) RI F (ReleasePendingBuffer b h)"
proof -
  obtain x where "hp_buffers h b = Some x" using ledger_buffer_live assms by (metis less_irrefl)
  moreover have "b \<noteq> 0" using assms ledger_null by (metis less_irrefl)
  ultimately show ?thesis using assms by (auto simp: ledger_def heap_simps)
qed

lemma ledger_retain_io:
  assumes "ledger RB RI F h" "i \<in> F"
  shows "ledger RB (RI(i := 1)) (F - {i}) (RetainPendingIo i h)"
proof -
  obtain x where "hp_ios h i = Some x" using ledger_io_live assms by blast
  moreover have "i \<noteq> 0" using assms(2) ledger_null [OF assms(1)] by (intro notI) simp
  ultimately show ?thesis using assms by (auto simp: ledger_def heap_simps)
qed

lemma ledger_complete_pending:
  assumes "ledger RB RI F h" "RI i = 1"
  shows "ledger RB (RI(i := 0)) F (CompletePendingIo i s n k e h)"
proof -
  obtain x where "hp_ios h i = Some x" using ledger_io_live [OF assms(1), of i] assms(2) by auto
  moreover have "i \<noteq> 0" using assms(2) ledger_null [OF assms(1)] by (intro notI) simp
  moreover have "i \<notin> F" using assms by (auto simp: ledger_def)
  ultimately show ?thesis using assms by (auto simp: ledger_def heap_simps)
qed

lemma ledger_complete:
  assumes "ledger RB RI F h" "i \<in> F"
  shows "ledger RB RI (F - {i}) (CompleteIo i s n k e h)"
proof -
  obtain x where "hp_ios h i = Some x" using ledger_io_live assms by blast
  moreover have "i \<noteq> 0" using assms(2) ledger_null [OF assms(1)] by (intro notI) simp
  ultimately show ?thesis using assms by (auto simp: ledger_def heap_simps)
qed

lemma ledger_fresh:
  assumes "ledger RB RI F h"
  shows "RI (hp_next h) = 0 \<and> hp_next h \<notin> F \<and> hp_next h \<noteq> 0"
proof -
  have "hp_ios h (hp_next h) = None" "0 < hp_next h" using assms by (auto simp: ledger_def)
  then show ?thesis using ledger_io_live [OF assms, of "hp_next h"] by auto
qed

lemma ledger_make_pending:
  assumes "ledger RB RI F h"
  shows "ledger RB RI (insert (hp_next h) F) (snd (MakePendingIo h))"
  using assms ledger_fresh [OF assms]
  by (auto simp: ledger_def heap_simps MakePendingIo_def new_io_def)

lemma ledger_make_io:
  assumes "ledger RB RI F h"
  shows "ledger RB RI F (snd (MakeIo s n k e h))"
  using assms ledger_fresh [OF assms] by (auto simp: ledger_def heap_simps MakeIo_def new_io_def)

text \<open>The same steps for accounts written as a rest plus one reference.\<close>

lemma ledger_take_buffer:
  assumes "ledger R S F h" "hp_buffers h x \<noteq> None"
  shows "ledger (\<lambda>b. R b + of_bool (b = x)) S F (RetainPendingBuffer x h)"
proof -
  obtain y where "hp_buffers h x = Some y" using assms(2) by auto
  moreover have "R(x := R x + 1) = (\<lambda>b. R b + of_bool (b = x))" by auto
  ultimately show ?thesis using ledger_retain_buffer [OF assms(1)] by metis
qed

lemma ledger_drop_buffer:
  assumes "ledger (\<lambda>b. R b + of_bool (b = x)) S F h" "0 \<le> R x"
  shows "ledger R S F (ReleasePendingBuffer x h)"
proof -
  have "0 < R x + of_bool (x = x)" using assms(2) by simp
  from ledger_release_buffer [OF assms(1) this] show ?thesis
    by (rule back_subst [where P = "\<lambda>f. ledger f _ _ _"]) auto
qed

lemma ledger_take_io:
  assumes "ledger R S (insert x F) h" "x \<notin> F"
  shows "ledger R (\<lambda>i. S i + of_bool (i = x)) F (RetainPendingIo x h)"
proof -
  have "S x = 0" using assms(1) by (simp add: ledger_def)
  then have "S(x := 1) = (\<lambda>i. S i + of_bool (i = x))" by auto
  moreover have "insert x F - {x} = F" using assms(2) by auto
  ultimately show ?thesis using ledger_retain_io [OF assms(1), of x] by simp
qed

lemma ledger_drop_io:
  assumes "ledger R (\<lambda>i. S i + of_bool (i = x)) F h" "0 \<le> S x"
  shows "ledger R S F (CompletePendingIo x s n k e h)"
proof -
  have "S x + of_bool (x = x) \<le> 1" using assms(1) unfolding ledger_def by blast
  then have "S x = 0" using assms(2) by simp
  moreover from this have "(\<lambda>i. S i + of_bool (i = x))(x := 0) = S" by auto
  ultimately show ?thesis using ledger_complete_pending [OF assms(1), of x s n k e] by simp
qed

lemma ledger_finish_io:
  assumes "ledger R S (insert x F) h" "x \<notin> F"
  shows "ledger R S F (CompleteIo x s n k e h)"
proof -
  have "insert x F - {x} = F" using assms(2) by auto
  then show ?thesis using ledger_complete [OF assms(1), of x s n k e] by simp
qed

section \<open>Tables of pending transfers\<close>

text \<open>The references held by all entries of a table of pending transfers.\<close>

definition total_refs :: "('p \<Rightarrow> int) \<Rightarrow> ('k \<rightharpoonup> 'p) \<Rightarrow> int" where
  "total_refs w m = (\<Sum>k\<in>dom m. w (the (m k)))"

definition entry :: "('p \<Rightarrow> int) \<Rightarrow> 'p option \<Rightarrow> int" where
  "entry w e = (case e of None \<Rightarrow> 0 | Some p \<Rightarrow> w p)"

lemma entry_simps [simp]: "entry w None = 0" "entry w (Some p) = w p"
  by (simp_all add: entry_def)

lemma total_remove:
  assumes "finite (dom m)"
  shows "total_refs w (m(k := None)) = total_refs w m - entry w (m k)"
proof (cases "m k")
  case None
  then have "m(k := None) = m" by auto
  with None show ?thesis by simp
next
  case (Some p)
  have "total_refs w (m(k := None)) = (\<Sum>j\<in>dom m - {k}. w (the (m j)))"
    unfolding total_refs_def by (rule sum.cong) auto
  also have "\<dots> = total_refs w m - w p"
    unfolding total_refs_def using assms Some by (subst sum_diff1) auto
  finally show ?thesis using Some by simp
qed

lemma total_put:
  assumes "finite (dom m)"
  shows "total_refs w (m(k \<mapsto> p)) = total_refs w m - entry w (m k) + w p"
proof -
  have "total_refs w (m(k \<mapsto> p)) = w p + (\<Sum>j\<in>dom m - {k}. w (the (m j)))"
    unfolding total_refs_def using assms by (subst sum.remove [of _ k]) (auto intro!: sum.cong)
  also have "(\<Sum>j\<in>dom m - {k}. w (the (m j))) = total_refs w (m(k := None))"
    unfolding total_refs_def by (rule sum.cong) auto
  also have "\<dots> = total_refs w m - entry w (m k)" by (rule total_remove [OF assms])
  finally show ?thesis by linarith
qed

lemma total_nonneg: "(\<And>p. 0 \<le> w p) \<Longrightarrow> 0 \<le> total_refs w m"
  unfolding total_refs_def by (rule sum_nonneg) simp

lemma total_ge:
  assumes "finite (dom m)" "\<And>p. 0 \<le> w p" "m k = Some p"
  shows "w p \<le> total_refs w m"
  using total_remove [OF assms(1), of w k] total_nonneg [of w "m(k := None)"] assms(2,3) by simp

end
