(* ===== verification/Client_P2p.thy ===== *)
theory Client_P2p
  imports Client_Store
begin

text \<open>
  The simulated point-to-point transfers of the client library (\<open>src/core/client.cc\<close>):
  \<open>SubmitSimP2p\<close> and \<open>SubmitSimHcommPayload\<close> with the tables of half-submitted transfers
  \<open>SimP2ps()\<close> and \<open>SimHcommPayloads()\<close>.

  A submission first takes a sequence number under the client's mutex and then, under the table's
  mutex, joins or creates the entry of its key.  The second part is the same code twice
  in the source, with other texts and another table; it is one definition here,
  \<open>sim_pair_publish\<close>, with the varying words as a parameter.  Since it is one critical section and
  preserves the invariant for every key and heap, the invariant holds under every interleaving of
  submissions.

  The lemmas show that a table's entries and the reference counters stay in balance on every path,
  that a matched pair delivers the sender's bytes to the receiver and the same result to both
  handles whichever side came first, and that a mismatch fails both sides.
\<close>

section \<open>Keys and pending transfers\<close>

text \<open>\<open>std::string\<close> compares as unsigned bytes, lexicographically.\<close>

fun string_less :: "bytes \<Rightarrow> bytes \<Rightarrow> bool" where
  "string_less xs [] = False"
| "string_less [] (y # ys) = True"
| "string_less (x # xs) (y # ys) = (x < y \<or> (x = y \<and> string_less xs ys))"

record SimP2pKey =
  pk_comm_name :: bytes
  pk_rank_size :: u32
  pk_src_rank :: u32
  pk_dst_rank :: u32
  pk_seq :: u64

definition SimP2pKey_less :: "SimP2pKey \<Rightarrow> SimP2pKey \<Rightarrow> bool" where
  "SimP2pKey_less a b =
    (if pk_comm_name a \<noteq> pk_comm_name b then string_less (pk_comm_name a) (pk_comm_name b)
     else if pk_rank_size a \<noteq> pk_rank_size b then pk_rank_size a < pk_rank_size b
     else if pk_src_rank a \<noteq> pk_src_rank b then pk_src_rank a < pk_src_rank b
     else if pk_dst_rank a \<noteq> pk_dst_rank b then pk_dst_rank a < pk_dst_rank b
     else pk_seq a < pk_seq b)"

record PendingSimP2p =
  sp_metadata_set :: bool
  sp_count :: u64
  sp_data_type :: flume_data_type
  sp_bytes :: nat
  sp_has_send :: bool
  sp_has_recv :: bool
  sp_payload :: bytes
  sp_dst :: nat
  sp_dst_offset :: nat
  sp_send_io :: nat
  sp_recv_io :: nat

definition new_pending_p2p :: PendingSimP2p where
  "new_pending_p2p = \<lparr>sp_metadata_set = False, sp_count = 0, sp_data_type = FLUME_DTYPE_INT8,
    sp_bytes = 0, sp_has_send = False, sp_has_recv = False, sp_payload = [], sp_dst = 0,
    sp_dst_offset = 0, sp_send_io = 0, sp_recv_io = 0\<rparr>"

type_synonym p2p_table = "SimP2pKey \<rightharpoonup> PendingSimP2p"

definition PendingSimP2pMatches ::
    "PendingSimP2p \<Rightarrow> u64 \<Rightarrow> flume_data_type \<Rightarrow> nat \<Rightarrow> bool" where
  "PendingSimP2pMatches p count data_type n \<longleftrightarrow>
    \<not> sp_metadata_set p \<or> (sp_count p = count \<and> sp_data_type p = data_type \<and> sp_bytes p = n)"

definition MaybeSetPendingSimP2pMetadata ::
    "PendingSimP2p \<Rightarrow> u64 \<Rightarrow> flume_data_type \<Rightarrow> nat \<Rightarrow> PendingSimP2p" where
  "MaybeSetPendingSimP2pMetadata p count data_type n =
    (if sp_metadata_set p then p
     else p\<lparr>sp_metadata_set := True, sp_count := count, sp_data_type := data_type, sp_bytes := n\<rparr>)"

definition FailPendingSimP2p :: "PendingSimP2p \<Rightarrow> flume_status \<Rightarrow> bytes \<Rightarrow> heap \<Rightarrow> heap" where
  "FailPendingSimP2p p status error h =
    (let h = (if sp_has_recv p \<and> sp_dst p \<noteq> 0 then ReleasePendingBuffer (sp_dst p) h else h);
         h = (if sp_send_io p \<noteq> 0 then CompletePendingIo (sp_send_io p) status 0 0 error h else h)
     in if sp_recv_io p \<noteq> 0 then CompletePendingIo (sp_recv_io p) status 0 0 error h else h)"

text \<open>\<open>memcpy\<close> copies \<open>pending.bytes\<close> bytes of the payload vector.\<close>

definition CompletePendingSimP2p :: "PendingSimP2p \<Rightarrow> heap \<Rightarrow> heap" where
  "CompletePendingSimP2p p h =
    (let h = buffer_write (sp_dst p) (sp_dst_offset p) (take (sp_bytes p) (sp_payload p)) h;
         checksum = Checksum32 (buffer_read h (sp_dst p) (sp_dst_offset p) (sp_bytes p));
         h = ReleasePendingBuffer (sp_dst p) h;
         h = CompletePendingIo (sp_recv_io p) FLUME_OK (sp_bytes p) checksum [] h
     in CompletePendingIo (sp_send_io p) FLUME_OK (sp_bytes p) checksum [] h)"

section \<open>Submission\<close>

datatype SimP2pRole = SimSend | SimRecv

text \<open>The critical section of the table's mutex; \<open>name\<close> is \<open>sim p2p\<close> or \<open>sim HCOMM payload\<close>.\<close>

definition sim_pair_publish ::
    "string \<Rightarrow> SimP2pRole \<Rightarrow> SimP2pKey \<Rightarrow> u64 \<Rightarrow> flume_data_type \<Rightarrow> nat \<Rightarrow> bytes \<Rightarrow> nat \<Rightarrow> nat \<Rightarrow>
     nat \<Rightarrow> heap \<times> p2p_table \<Rightarrow> heap \<times> p2p_table" where
  "sim_pair_publish name role key count data_type n payload buffer offset io = (\<lambda>(h, m).
    let p = (case m key of None \<Rightarrow> new_pending_p2p | Some p \<Rightarrow> p);
        reject = (\<lambda>p error. (CompleteIo io FLUME_ERR_INVALID_ARGUMENT 0 0 error
                    (FailPendingSimP2p p FLUME_ERR_INVALID_ARGUMENT error h), m(key := None)));
        publish = (\<lambda>p h. if sp_has_send p \<and> sp_has_recv p
                         then (CompletePendingSimP2p p h, m(key := None)) else (h, m(key \<mapsto> p)))
    in if \<not> PendingSimP2pMatches p count data_type n
       then reject p (cstr (name @ '' parameters do not match peer submission''))
       else let p = MaybeSetPendingSimP2pMetadata p count data_type n in
         case role of
           SimSend \<Rightarrow>
             if sp_has_send p then reject p (cstr (''duplicate '' @ name @ '' send submission''))
             else publish (p\<lparr>sp_has_send := True, sp_payload := payload, sp_send_io := io\<rparr>)
               (RetainPendingIo io h)
         | SimRecv \<Rightarrow>
             if sp_has_recv p then reject p (cstr (''duplicate '' @ name @ '' recv submission''))
             else publish (p\<lparr>sp_has_recv := True, sp_dst := buffer, sp_dst_offset := offset,
                             sp_recv_io := io\<rparr>)
               (RetainPendingIo io (RetainPendingBuffer buffer h)))"

definition p2p_key :: "flume_client \<Rightarrow> SimP2pRole \<Rightarrow> u32 \<Rightarrow> u64 \<Rightarrow> SimP2pKey" where
  "p2p_key cl role peer_rank seq =
    \<lparr>pk_comm_name = cl_sim_comm_name cl, pk_rank_size = cl_rank_size cl,
     pk_src_rank = (if role = SimSend then cl_rank cl else peer_rank),
     pk_dst_rank = (if role = SimSend then peer_rank else cl_rank cl), pk_seq = seq\<rparr>"

text \<open>The first component of the result is the returned status and the handle stored in \<open>*out\<close>
  (0 when the function stores none).\<close>

definition SubmitSimP2p ::
    "nat \<Rightarrow> SimP2pRole \<Rightarrow> nat \<Rightarrow> nat \<Rightarrow> u64 \<Rightarrow> flume_data_type \<Rightarrow> u32 \<Rightarrow> heap \<times> p2p_table \<Rightarrow>
     (flume_status \<times> nat) \<times> heap \<times> p2p_table" where
  "SubmitSimP2p client role buffer offset count data_type peer_rank = (\<lambda>(h, m).
    let cl = client_at h client; invalid = ((FLUME_ERR_INVALID_ARGUMENT, 0), h, m) in
    if \<not> cl_sim_comm_attached cl \<or> cl_rank_size cl = 0 then
      (case MakeIo FLUME_ERR_UNSUPPORTED 0 0 (cstr ''sim p2p requires flume_attach_sim_comm'') h of
         (io, h) \<Rightarrow> ((FLUME_OK, io), h, m))
    else if peer_rank \<ge> cl_rank_size cl \<or> peer_rank = cl_rank cl then invalid
    else case CheckedBytes count data_type of None \<Rightarrow> invalid | Some n \<Rightarrow>
      if \<not> ValidateRange h buffer offset n then invalid
      else if bf_client (buffer_at h buffer) \<noteq> client \<or> \<not> IsSimBufferType (bf_type (buffer_at h buffer))
      then invalid
      else
        let seq = (if role = SimSend then cl_p2p_send_seq cl else cl_p2p_recv_seq cl);
            h = upd_client client (\<lambda>cl. if role = SimSend
                  then cl\<lparr>cl_p2p_send_seq := cl_p2p_send_seq cl + 1\<rparr>
                  else cl\<lparr>cl_p2p_recv_seq := cl_p2p_recv_seq cl + 1\<rparr>) h;
            payload = (if role = SimSend then buffer_read h buffer offset n else [])
        in case MakePendingIo h of (io, h) \<Rightarrow>
          ((FLUME_OK, io),
           sim_pair_publish ''sim p2p'' role (p2p_key cl role peer_rank seq) count data_type n payload
             buffer offset io (h, m)))"

definition SubmitSimHcommPayload ::
    "nat \<Rightarrow> SimP2pRole \<Rightarrow> nat \<Rightarrow> nat \<Rightarrow> u64 \<Rightarrow> flume_data_type \<Rightarrow> u32 \<Rightarrow> heap \<times> p2p_table \<Rightarrow>
     (flume_status \<times> nat) \<times> heap \<times> p2p_table" where
  "SubmitSimHcommPayload client role buffer offset count data_type peer_rank = (\<lambda>(h, m).
    let cl = client_at h client; invalid = ((FLUME_ERR_INVALID_ARGUMENT, 0), h, m) in
    if \<not> cl_sim_comm_attached cl \<or> cl_rank_size cl = 0 then
      (case MakeIo FLUME_ERR_UNSUPPORTED 0 0
          (cstr ''sim HCOMM payload requires flume_attach_sim_comm'') h of
         (io, h) \<Rightarrow> ((FLUME_OK, io), h, m))
    else if cl_rank_size cl \<noteq> 2 then
      (case MakeIo FLUME_ERR_UNSUPPORTED 0 0
          (cstr ''sim HCOMM payload copy is pair-only and requires exactly two ranks'') h of
         (io, h) \<Rightarrow> ((FLUME_OK, io), h, m))
    else if peer_rank \<ge> cl_rank_size cl \<or> peer_rank = cl_rank cl then invalid
    else case CheckedBytes count data_type of None \<Rightarrow> invalid | Some n \<Rightarrow>
      if \<not> ValidateRange h buffer offset n then invalid
      else if bf_client (buffer_at h buffer) \<noteq> client \<or> bf_type (buffer_at h buffer) \<noteq> FLUME_BUFFER_SIM_HBM
      then invalid
      else
        let seq = (if role = SimSend then cl_payload_send_seq cl else cl_payload_recv_seq cl);
            h = upd_client client (\<lambda>cl. if role = SimSend
                  then cl\<lparr>cl_payload_send_seq := cl_payload_send_seq cl + 1\<rparr>
                  else cl\<lparr>cl_payload_recv_seq := cl_payload_recv_seq cl + 1\<rparr>) h;
            staging = (if role = SimSend then buffer_read h buffer offset n else [])
        in case MakePendingIo h of (io, h) \<Rightarrow>
          ((FLUME_OK, io),
           sim_pair_publish ''sim HCOMM payload'' role (p2p_key cl role peer_rank seq) count data_type
             n staging buffer offset io (h, m)))"

section \<open>References held by a pending transfer\<close>

definition p2p_bufs :: "nat \<Rightarrow> PendingSimP2p \<Rightarrow> int" where
  "p2p_bufs b p = (if sp_has_recv p then of_bool (b = sp_dst p) else 0)"

definition p2p_ios :: "nat \<Rightarrow> PendingSimP2p \<Rightarrow> int" where
  "p2p_ios i p = (if sp_has_recv p then of_bool (i = sp_recv_io p) else 0) +
    (if sp_has_send p then of_bool (i = sp_send_io p) else 0)"

text \<open>What is constant of a buffer while it lives.\<close>

definition shape :: "heap \<Rightarrow> nat \<Rightarrow> (nat \<times> nat \<times> nat \<times> flume_buffer_type) option" where
  "shape h b = map_option (\<lambda>x. (bf_client x, bf_ptr x, bf_len x, bf_type x)) (hp_buffers h b)"

definition sides_ok :: "heap \<Rightarrow> PendingSimP2p \<Rightarrow> bool" where
  "sides_ok h p \<longleftrightarrow> (sp_has_send p \<longleftrightarrow> sp_send_io p \<noteq> 0) \<and> (sp_has_recv p \<longleftrightarrow> sp_recv_io p \<noteq> 0) \<and>
    (sp_has_recv p \<longleftrightarrow> sp_dst p \<noteq> 0) \<and>
    (sp_metadata_set p \<longrightarrow> CheckedBytes (sp_count p) (sp_data_type p) = Some (sp_bytes p)) \<and>
    (sp_has_send p \<longrightarrow> length (sp_payload p) = sp_bytes p) \<and>
    (sp_has_recv p \<longrightarrow> hp_buffers h (sp_dst p) \<noteq> None \<and> ValidateRange h (sp_dst p) (sp_dst_offset p) (sp_bytes p))"

definition p2p_table_ok :: "heap \<Rightarrow> p2p_table \<Rightarrow> bool" where
  "p2p_table_ok h m \<longleftrightarrow> finite (dom m) \<and>
    (\<forall>k p. m k = Some p \<longrightarrow> sides_ok h p \<and> sp_metadata_set p \<and> sp_has_send p \<noteq> sp_has_recv p)"

lemma p2p_refs_nonneg [simp]: "0 \<le> p2p_bufs b p" "0 \<le> p2p_ios i p"
  by (simp_all add: p2p_bufs_def p2p_ios_def)

lemma p2p_refs_new [simp]: "p2p_bufs b new_pending_p2p = 0" "p2p_ios i new_pending_p2p = 0"
  by (simp_all add: p2p_bufs_def p2p_ios_def new_pending_p2p_def)

lemma p2p_refs_metadata [simp]:
  "p2p_bufs b (MaybeSetPendingSimP2pMetadata p c t n) = p2p_bufs b p"
  "p2p_ios i (MaybeSetPendingSimP2pMetadata p c t n) = p2p_ios i p"
  by (simp_all add: p2p_bufs_def p2p_ios_def MaybeSetPendingSimP2pMetadata_def)

lemma p2p_refs_send:
  "\<not> sp_has_send q \<Longrightarrow> p2p_bufs b (q\<lparr>sp_has_send := True, sp_payload := d, sp_send_io := i\<rparr>) = p2p_bufs b q"
  "\<not> sp_has_send q \<Longrightarrow> p2p_ios j (q\<lparr>sp_has_send := True, sp_payload := d, sp_send_io := i\<rparr>) =
    p2p_ios j q + of_bool (j = i)"
  by (simp_all add: p2p_bufs_def p2p_ios_def)

lemma p2p_refs_recv:
  "\<not> sp_has_recv q \<Longrightarrow> p2p_bufs b (q\<lparr>sp_has_recv := True, sp_dst := x, sp_dst_offset := off, sp_recv_io := i\<rparr>) =
    p2p_bufs b q + of_bool (b = x)"
  "\<not> sp_has_recv q \<Longrightarrow> p2p_ios j (q\<lparr>sp_has_recv := True, sp_dst := x, sp_dst_offset := off, sp_recv_io := i\<rparr>) =
    p2p_ios j q + of_bool (j = i)"
  by (simp_all add: p2p_bufs_def p2p_ios_def)

lemma shape_live: "shape h' b = shape h b \<Longrightarrow> (hp_buffers h' b = None) = (hp_buffers h b = None)"
  by (cases "hp_buffers h b"; cases "hp_buffers h' b") (auto simp: shape_def)

lemma shape_fields:
  assumes "shape h' b = shape h b" "hp_buffers h b \<noteq> None"
  shows "bf_len (buffer_at h' b) = bf_len (buffer_at h b)" "bf_ptr (buffer_at h' b) = bf_ptr (buffer_at h b)"
    "bf_client (buffer_at h' b) = bf_client (buffer_at h b)" "bf_type (buffer_at h' b) = bf_type (buffer_at h b)"
  using assms by (auto simp: shape_def)

lemma sides_ok_cong:
  assumes "sides_ok h p" "\<And>b. shape h' b = shape h b"
  shows "sides_ok h' p"
  using assms(1) shape_live [OF assms(2)] shape_fields [OF assms(2)]
  by (auto simp: sides_ok_def ValidateRange_def)

lemma p2p_table_ok_cong:
  "p2p_table_ok h m \<Longrightarrow> (\<And>b. shape h' b = shape h b) \<Longrightarrow> p2p_table_ok h' m"
  unfolding p2p_table_ok_def using sides_ok_cong by blast

lemma shape_ops [heap_simps]:
  "shape (RetainPendingBuffer b h) = shape h" "shape (ReleasePendingBuffer b h) = shape h"
  "shape (RetainPendingIo i h) = shape h" "shape (CompleteIo i s n k e h) = shape h"
  "shape (CompletePendingIo i s n k e h) = shape h" "shape (buffer_write b off d h) = shape h"
  "shape (upd_client c f h) = shape h" "shape (snd (alloc_io x h)) = shape h"
  by (auto simp: shape_def heap_defs option.map_comp o_def)

section \<open>The ledger through a pending transfer\<close>

lemma ledger_fail_p2p:
  assumes l: "ledger (\<lambda>b. R b + p2p_bufs b p) (\<lambda>i. S i + p2p_ios i p) F h" and ok: "sides_ok h p"
    and pos: "\<And>b. 0 \<le> R b" "\<And>i. 0 \<le> S i"
  shows "ledger R S F (FailPendingSimP2p p st e h)"
proof -
  define h1 where "h1 = (if sp_has_recv p \<and> sp_dst p \<noteq> 0 then ReleasePendingBuffer (sp_dst p) h else h)"
  define S1 where "S1 = (\<lambda>i. S i + (if sp_has_recv p then of_bool (i = sp_recv_io p) else 0))"
  have "ledger R (\<lambda>i. S1 i + (if sp_has_send p then of_bool (i = sp_send_io p) else 0)) F h1"
    using l ok ledger_drop_buffer [of R "sp_dst p" _ F h] pos
    by (cases "sp_has_recv p")
      (auto simp: h1_def S1_def p2p_bufs_def p2p_ios_def sides_ok_def add.assoc)
  then have "ledger R S1 F
      (if sp_send_io p \<noteq> 0 then CompletePendingIo (sp_send_io p) st 0 0 e h1 else h1)"
    using ok ledger_drop_io [of R S1 "sp_send_io p" F h1] pos
    by (cases "sp_has_send p") (auto simp: S1_def sides_ok_def)
  then show ?thesis
    using ok ledger_drop_io [of R S "sp_recv_io p" F] pos
    by (cases "sp_has_recv p") (auto simp: FailPendingSimP2p_def Let_def h1_def S1_def sides_ok_def)
qed

lemma ledger_complete_p2p:
  assumes l: "ledger (\<lambda>b. R b + p2p_bufs b p) (\<lambda>i. S i + p2p_ios i p) F h"
    and both: "sp_has_send p" "sp_has_recv p" and pos: "\<And>b. 0 \<le> R b" "\<And>i. 0 \<le> S i"
  shows "ledger R S F (CompletePendingSimP2p p h)"
proof -
  let ?h1 = "buffer_write (sp_dst p) (sp_dst_offset p) (take (sp_bytes p) (sp_payload p)) h"
  let ?S1 = "\<lambda>i. S i + of_bool (i = sp_send_io p)"
  have "ledger (\<lambda>b. R b + of_bool (b = sp_dst p)) (\<lambda>i. ?S1 i + of_bool (i = sp_recv_io p)) F ?h1"
    using ledger_buffer_write [OF l] both by (simp add: p2p_bufs_def p2p_ios_def ac_simps)
  then have "ledger R (\<lambda>i. ?S1 i + of_bool (i = sp_recv_io p)) F (ReleasePendingBuffer (sp_dst p) ?h1)"
    by (rule ledger_drop_buffer) (rule pos)
  then have "ledger R ?S1 F (CompletePendingIo (sp_recv_io p) FLUME_OK (sp_bytes p) c []
      (ReleasePendingBuffer (sp_dst p) ?h1))" for c
    by (rule ledger_drop_io) (use pos in simp)
  then show ?thesis unfolding CompletePendingSimP2p_def Let_def by (rule ledger_drop_io) (rule pos)
qed

lemma shape_fail_complete [heap_simps]:
  "shape (FailPendingSimP2p p st e h) = shape h" "shape (CompletePendingSimP2p p h) = shape h"
  by (simp_all add: FailPendingSimP2p_def CompletePendingSimP2p_def Let_def heap_simps)

text \<open>The handles that wait for a stream, all live handles, and the windows' references on the buffers.\<close>

definition sync_of :: "heap \<Rightarrow> nat set" where
  "sync_of h = {i. \<exists>x. hp_ios h i = Some x \<and> io_sync_acl_stream x}"

definition live_ios :: "heap \<Rightarrow> nat set" where
  "live_ios h = dom (hp_ios h)"

definition a3_of :: "heap \<Rightarrow> nat \<Rightarrow> int option" where
  "a3_of h b = map_option bf_a3_refs (hp_buffers h b)"

lemma sync_of_ops [heap_simps]:
  "sync_of (RetainPendingBuffer b h) = sync_of h" "sync_of (ReleasePendingBuffer b h) = sync_of h"
  "sync_of (RetainPendingIo i h) = sync_of h" "sync_of (CompleteIo i s n k e h) = sync_of h"
  "sync_of (CompletePendingIo i s n k e h) = sync_of h" "sync_of (buffer_write b off d h) = sync_of h"
  "sync_of (upd_client c f h) = sync_of h"
  by (auto simp: sync_of_def heap_defs completed_def)

lemma live_ios_ops [heap_simps]:
  "live_ios (RetainPendingBuffer b h) = live_ios h" "live_ios (ReleasePendingBuffer b h) = live_ios h"
  "live_ios (RetainPendingIo i h) = live_ios h" "live_ios (CompleteIo i s n k e h) = live_ios h"
  "live_ios (CompletePendingIo i s n k e h) = live_ios h" "live_ios (buffer_write b off d h) = live_ios h"
  "live_ios (upd_client c f h) = live_ios h" "live_ios (snd (alloc_io x h)) = insert (hp_next h) (live_ios h)"
  by (auto simp: live_ios_def heap_defs split: if_splits)

lemma a3_of_ops [heap_simps]:
  "a3_of (RetainPendingBuffer b h) = a3_of h" "a3_of (ReleasePendingBuffer b h) = a3_of h"
  "a3_of (RetainPendingIo i h) = a3_of h" "a3_of (CompleteIo i s n k e h) = a3_of h"
  "a3_of (CompletePendingIo i s n k e h) = a3_of h" "a3_of (buffer_write b off d h) = a3_of h"
  "a3_of (upd_client c f h) = a3_of h" "a3_of (snd (alloc_io x h)) = a3_of h"
  by (auto simp: a3_of_def heap_defs option.map_comp o_def)

lemma sync_of_alloc:
  "hp_ios h (hp_next h) = None \<Longrightarrow>
    sync_of (snd (alloc_io x h)) = (if io_sync_acl_stream x then insert (hp_next h) (sync_of h) else sync_of h)"
  by (auto simp: sync_of_def alloc_io_def)

text \<open>What a failure or completion leaves alone, and what a whole submission keeps.\<close>

definition same_objects :: "heap \<Rightarrow> heap \<Rightarrow> bool" where
  "same_objects h h' \<longleftrightarrow> shape h' = shape h \<and> hp_clients h' = hp_clients h \<and> hp_next h' = hp_next h \<and>
    hp_brk h' = hp_brk h \<and> sync_of h' = sync_of h \<and> a3_of h' = a3_of h \<and> live_ios h' = live_ios h"

definition kept :: "heap \<Rightarrow> heap \<Rightarrow> bool" where
  "kept h h' \<longleftrightarrow> shape h' = shape h \<and> a3_of h' = a3_of h \<and> sync_of h' = sync_of h \<and>
    live_ios h \<subseteq> live_ios h' \<and> hp_next h \<le> hp_next h' \<and> hp_brk h' = hp_brk h \<and> dom (hp_clients h') = dom (hp_clients h)"

lemma kept_refl [simp]: "kept h h" by (simp add: kept_def)

lemma kept_trans: "kept h h1 \<Longrightarrow> kept h1 h2 \<Longrightarrow> kept h h2" by (auto simp: kept_def)

lemma kept_shape: "kept h h' \<Longrightarrow> shape h' = shape h" by (simp add: kept_def)

lemma kept_same_objects: "same_objects h h' \<Longrightarrow> kept h h'" by (simp add: same_objects_def kept_def)

lemma kept_upd_client: "kept h (upd_client c f h)"
  by (auto simp: kept_def heap_simps split: if_splits)

lemma kept_alloc_io:
  "hp_ios h (hp_next h) = None \<Longrightarrow> \<not> io_sync_acl_stream x \<Longrightarrow> kept h (snd (alloc_io x h))"
  by (auto simp: kept_def heap_simps sync_of_alloc)

text \<open>A submission adds at most the reference of its own handle to a table.\<close>

definition grows :: "(nat \<Rightarrow> 'p \<Rightarrow> int) \<Rightarrow> nat \<Rightarrow> ('k \<rightharpoonup> 'p) \<Rightarrow> ('k \<rightharpoonup> 'p) \<Rightarrow> bool" where
  "grows w io m m' \<longleftrightarrow> (\<forall>i. total_refs (w i) m' \<le> total_refs (w i) m + of_bool (i = io))"

lemma grows_refl [simp]: "grows w io m m" by (simp add: grows_def)

lemma grows_remove:
  assumes "finite (dom m)" "\<And>i p. 0 \<le> w i p"
  shows "grows w io m (m(key := None))"
proof -
  have "0 \<le> entry (w i) (m key)" for i using assms(2) by (cases "m key") simp_all
  moreover have "0 \<le> (of_bool (i = io) :: int)" for i by simp
  ultimately have "total_refs (w i) m - entry (w i) (m key) \<le> total_refs (w i) m + of_bool (i = io)" for i
    by (meson add_increasing2 diff_le_eq le_add_same_cancel1 order_trans)
  then show ?thesis using assms(1) by (simp add: grows_def total_remove)
qed

lemma grows_put:
  assumes "finite (dom m)" "\<And>i. w i q \<le> entry (w i) (m key) + of_bool (i = io)"
  shows "grows w io m (m(key \<mapsto> q))"
proof -
  have "total_refs (w i) m - entry (w i) (m key) + w i q \<le> total_refs (w i) m + of_bool (i = io)" for i
    using assms(2) [of i] by linarith
  then show ?thesis using assms(1) by (simp add: grows_def total_put)
qed

lemma same_objects_refl [simp]: "same_objects h h"
  by (simp add: same_objects_def)

lemma same_objects_trans: "same_objects h h1 \<Longrightarrow> same_objects h1 h2 \<Longrightarrow> same_objects h h2"
  by (simp add: same_objects_def)

lemma same_objects_ops [simp]:
  "same_objects h (RetainPendingBuffer b h') = same_objects h h'"
  "same_objects h (ReleasePendingBuffer b h') = same_objects h h'"
  "same_objects h (RetainPendingIo i h') = same_objects h h'"
  "same_objects h (CompleteIo i s n k e h') = same_objects h h'"
  "same_objects h (CompletePendingIo i s n k e h') = same_objects h h'"
  "same_objects h (buffer_write b off d h') = same_objects h h'"
  by (simp_all add: same_objects_def heap_simps)

lemma same_objects_p2p [simp]:
  "same_objects h (FailPendingSimP2p p st e h') = same_objects h h'"
  "same_objects h (CompletePendingSimP2p p h') = same_objects h h'"
  by (simp_all add: FailPendingSimP2p_def CompletePendingSimP2p_def Let_def)

section \<open>The critical section\<close>

lemma sides_ok_new [simp]: "sides_ok h new_pending_p2p"
  by (simp add: sides_ok_def new_pending_p2p_def)

lemma sides_ok_metadata:
  "sides_ok h p \<Longrightarrow> CheckedBytes c t = Some n \<Longrightarrow> sp_metadata_set p \<or> \<not> sp_has_send p \<and> \<not> sp_has_recv p \<Longrightarrow>
    PendingSimP2pMatches p c t n \<Longrightarrow>
    sides_ok h (MaybeSetPendingSimP2pMetadata p c t n) \<and>
    sp_metadata_set (MaybeSetPendingSimP2pMetadata p c t n) \<and>
    sp_bytes (MaybeSetPendingSimP2pMetadata p c t n) = n"
  by (auto simp: MaybeSetPendingSimP2pMetadata_def sides_ok_def PendingSimP2pMatches_def)

lemma metadata_sides [simp]:
  "sp_has_send (MaybeSetPendingSimP2pMetadata p c t n) = sp_has_send p"
  "sp_has_recv (MaybeSetPendingSimP2pMetadata p c t n) = sp_has_recv p"
  by (simp_all add: MaybeSetPendingSimP2pMetadata_def)

text \<open>The references in the table, as the rest of the table plus those of one key's entry.\<close>

lemma table_split:
  assumes "p2p_table_ok h m"
  shows "total_refs (p2p_bufs b) m =
      total_refs (p2p_bufs b) (m(key := None)) + p2p_bufs b (case m key of None \<Rightarrow> new_pending_p2p | Some p \<Rightarrow> p)"
    and "total_refs (p2p_ios i) m =
      total_refs (p2p_ios i) (m(key := None)) + p2p_ios i (case m key of None \<Rightarrow> new_pending_p2p | Some p \<Rightarrow> p)"
  using assms total_remove [of m _ key] unfolding p2p_table_ok_def
  by (cases "m key"; simp)+

lemma p2p_table_ok_remove: "p2p_table_ok h m \<Longrightarrow> p2p_table_ok h (m(key := None))"
  by (auto simp: p2p_table_ok_def)

lemma p2p_table_ok_put:
  "p2p_table_ok h m \<Longrightarrow> sides_ok h p \<Longrightarrow> sp_metadata_set p \<Longrightarrow> sp_has_send p \<noteq> sp_has_recv p \<Longrightarrow>
    p2p_table_ok h (m(key \<mapsto> p))"
  by (auto simp: p2p_table_ok_def)

text \<open>The accounts of a table next to references \<open>rb\<close>, \<open>ri\<close> that other parts of the library hold.\<close>

abbreviation p2p_ledger ::
    "(nat \<Rightarrow> int) \<Rightarrow> (nat \<Rightarrow> int) \<Rightarrow> nat set \<Rightarrow> p2p_table \<Rightarrow> heap \<Rightarrow> bool" where
  "p2p_ledger rb ri F m h \<equiv>
    ledger (\<lambda>b. rb b + total_refs (p2p_bufs b) m) (\<lambda>i. ri i + total_refs (p2p_ios i) m) F h"

lemma publish_accept:
  assumes l: "ledger (\<lambda>b. rb b + total_refs (p2p_bufs b) (m(key := None)) + p2p_bufs b p)
      (\<lambda>i. ri i + total_refs (p2p_ios i) (m(key := None)) + p2p_ios i p) F h"
    and pos: "\<And>b. 0 \<le> rb b" "\<And>i. 0 \<le> ri i" and tab: "p2p_table_ok h m"
    and p: "sides_ok h p" "sp_metadata_set p" "sp_has_send p \<or> sp_has_recv p"
    and res: "(h', m') = (if sp_has_send p \<and> sp_has_recv p then (CompletePendingSimP2p p h, m(key := None))
      else (h, m(key \<mapsto> p)))"
  shows "p2p_ledger rb ri F m' h' \<and> p2p_table_ok h' m' \<and> same_objects h h'"
proof (cases "sp_has_send p \<and> sp_has_recv p")
  case True
  have "ledger (\<lambda>b. rb b + total_refs (p2p_bufs b) (m(key := None)))
      (\<lambda>i. ri i + total_refs (p2p_ios i) (m(key := None))) F (CompletePendingSimP2p p h)"
    by (rule ledger_complete_p2p [OF l]) (use True pos in \<open>auto intro!: add_nonneg_nonneg total_nonneg\<close>)
  moreover have "p2p_table_ok (CompletePendingSimP2p p h) (m(key := None))"
    by (rule p2p_table_ok_cong [OF p2p_table_ok_remove [OF tab]]) (simp add: heap_simps)
  ultimately show ?thesis using True res by simp
next
  case False
  have "finite (dom m)" using tab by (simp add: p2p_table_ok_def)
  then have "total_refs w (m(key \<mapsto> p)) = total_refs w (m(key := None)) + w p" for w
    by (simp add: total_put total_remove)
  moreover have "p2p_table_ok h (m(key \<mapsto> p))" using p False by (intro p2p_table_ok_put [OF tab]) auto
  moreover have "h' = h" "m' = m(key \<mapsto> p)" using False res by (auto split: if_splits)
  ultimately show ?thesis using l by (simp add: add.assoc)
qed

lemma publish_reject:
  assumes l: "ledger (\<lambda>b. rb b + total_refs (p2p_bufs b) (m(key := None)) + p2p_bufs b p)
      (\<lambda>i. ri i + total_refs (p2p_ios i) (m(key := None)) + p2p_ios i p) (insert io F) h"
    and pos: "\<And>b. 0 \<le> rb b" "\<And>i. 0 \<le> ri i" and tab: "p2p_table_ok h m" and p: "sides_ok h p"
    and io: "io \<notin> F"
  shows "p2p_ledger rb ri F (m(key := None)) (CompleteIo io st 0 0 e (FailPendingSimP2p p st e h)) \<and>
    p2p_table_ok (CompleteIo io st 0 0 e (FailPendingSimP2p p st e h)) (m(key := None))"
proof -
  have "ledger (\<lambda>b. rb b + total_refs (p2p_bufs b) (m(key := None)))
      (\<lambda>i. ri i + total_refs (p2p_ios i) (m(key := None))) (insert io F) (FailPendingSimP2p p st e h)"
    by (rule ledger_fail_p2p [OF l p]) (use pos in \<open>auto intro!: add_nonneg_nonneg total_nonneg\<close>)
  from ledger_finish_io [OF this io] p2p_table_ok_cong [OF p2p_table_ok_remove [OF tab]] show ?thesis
    by (simp add: heap_simps)
qed

text \<open>Joining an entry from the sender's and from the receiver's side.\<close>

lemma publish_send:
  assumes l: "ledger (\<lambda>b. rb b + total_refs (p2p_bufs b) (m(key := None)) + p2p_bufs b q)
      (\<lambda>i. ri i + total_refs (p2p_ios i) (m(key := None)) + p2p_ios i q) (insert io F) h"
    and pos: "\<And>b. 0 \<le> rb b" "\<And>i. 0 \<le> ri i" and tab: "p2p_table_ok h m" and io: "io \<notin> F"
    and q: "sides_ok h q" "sp_metadata_set q" "\<not> sp_has_send q" "length d = sp_bytes q"
    and r: "r = q\<lparr>sp_has_send := True, sp_payload := d, sp_send_io := io\<rparr>"
    and h1: "h1 = RetainPendingIo io h"
    and res: "(h', m') = (if sp_has_send r \<and> sp_has_recv r then (CompletePendingSimP2p r h1, m(key := None))
      else (h1, m(key \<mapsto> r)))"
  shows "p2p_ledger rb ri F m' h' \<and> p2p_table_ok h' m' \<and> same_objects h h'"
proof -
  have "io \<noteq> 0" using ledger_null [OF l] by auto
  then have "sides_ok h r" using q by (auto simp: r sides_ok_def)
  then have "sides_ok h1 r" "p2p_table_ok h1 m"
    by (auto intro: sides_ok_cong p2p_table_ok_cong [OF tab] simp: h1 heap_simps)
  moreover have "ledger (\<lambda>b. rb b + total_refs (p2p_bufs b) (m(key := None)) + p2p_bufs b r)
      (\<lambda>i. ri i + total_refs (p2p_ios i) (m(key := None)) + p2p_ios i r) F h1"
    using ledger_take_io [OF l io] q(3) by (simp add: r h1 p2p_refs_send add.assoc)
  moreover have "sp_metadata_set r" "sp_has_send r \<or> sp_has_recv r" using q by (simp_all add: r)
  ultimately have "p2p_ledger rb ri F m' h' \<and> p2p_table_ok h' m' \<and> same_objects h1 h'"
    by (intro publish_accept [where key = key and p = r]) (use pos res in auto)
  then show ?thesis using same_objects_trans [of h h1 h'] by (simp add: h1)
qed

lemma publish_recv:
  assumes l: "ledger (\<lambda>b. rb b + total_refs (p2p_bufs b) (m(key := None)) + p2p_bufs b q)
      (\<lambda>i. ri i + total_refs (p2p_ios i) (m(key := None)) + p2p_ios i q) (insert io F) h"
    and pos: "\<And>b. 0 \<le> rb b" "\<And>i. 0 \<le> ri i" and tab: "p2p_table_ok h m" and io: "io \<notin> F"
    and q: "sides_ok h q" "sp_metadata_set q" "\<not> sp_has_recv q"
    and live: "hp_buffers h buffer \<noteq> None" "ValidateRange h buffer offset (sp_bytes q)"
    and r: "r = q\<lparr>sp_has_recv := True, sp_dst := buffer, sp_dst_offset := offset, sp_recv_io := io\<rparr>"
    and h1: "h1 = RetainPendingIo io (RetainPendingBuffer buffer h)"
    and res: "(h', m') = (if sp_has_send r \<and> sp_has_recv r then (CompletePendingSimP2p r h1, m(key := None))
      else (h1, m(key \<mapsto> r)))"
  shows "p2p_ledger rb ri F m' h' \<and> p2p_table_ok h' m' \<and> same_objects h h'"
proof -
  have "io \<noteq> 0" using ledger_null [OF l] by auto
  then have "sides_ok h r" using q live by (auto simp: r sides_ok_def ValidateRange_def)
  then have "sides_ok h1 r" "p2p_table_ok h1 m"
    by (auto intro: sides_ok_cong p2p_table_ok_cong [OF tab] simp: h1 heap_simps)
  moreover have "ledger (\<lambda>b. rb b + total_refs (p2p_bufs b) (m(key := None)) + p2p_bufs b r)
      (\<lambda>i. ri i + total_refs (p2p_ios i) (m(key := None)) + p2p_ios i r) F h1"
    using ledger_take_io [OF ledger_take_buffer [OF l live(1)] io] q(3)
    by (simp add: r h1 p2p_refs_recv add.assoc)
  moreover have "sp_metadata_set r" "sp_has_send r \<or> sp_has_recv r" using q by (simp_all add: r)
  ultimately have "p2p_ledger rb ri F m' h' \<and> p2p_table_ok h' m' \<and> same_objects h1 h'"
    by (intro publish_accept [where key = key and p = r]) (use pos res in auto)
  then show ?thesis using same_objects_trans [of h h1 h'] by (simp add: h1)
qed

lemma publish_inv:
  assumes l: "p2p_ledger rb ri (insert io F) m h" and io: "io \<notin> F"
    and pos: "\<And>b. 0 \<le> rb b" "\<And>i. 0 \<le> ri i" and tab: "p2p_table_ok h m"
    and n: "CheckedBytes count t = Some n"
    and side: "role = SimSend \<Longrightarrow> length payload = n"
      "role = SimRecv \<Longrightarrow> hp_buffers h buffer \<noteq> None \<and> ValidateRange h buffer offset n"
    and res: "sim_pair_publish name role key count t n payload buffer offset io (h, m) = (h', m')"
  shows "p2p_ledger rb ri F m' h' \<and> p2p_table_ok h' m' \<and> same_objects h h'"
proof -
  define p where "p = (case m key of None \<Rightarrow> new_pending_p2p | Some p \<Rightarrow> p)"
  define q where "q = MaybeSetPendingSimP2pMetadata p count t n"
  have lp: "ledger (\<lambda>b. rb b + total_refs (p2p_bufs b) (m(key := None)) + p2p_bufs b p)
      (\<lambda>i. ri i + total_refs (p2p_ios i) (m(key := None)) + p2p_ios i p) (insert io F) h"
    using l unfolding p_def table_split [OF tab, where key = key] by (simp add: add.assoc)
  have okp: "sides_ok h p"
    and meta: "sp_metadata_set p \<or> \<not> sp_has_send p \<and> \<not> sp_has_recv p"
    using tab by (cases "m key"; auto simp: p_def p2p_table_ok_def; simp add: new_pending_p2p_def)+
  note unf = sim_pair_publish_def Let_def prod.case p_def [symmetric] q_def [symmetric]
  show ?thesis
  proof (cases "PendingSimP2pMatches p count t n")
    case False
    then show ?thesis using res publish_reject [OF lp pos tab okp io] by (auto simp: unf)
  next
    case True
    have okq: "sides_ok h q" "sp_metadata_set q" "sp_bytes q = n"
      using sides_ok_metadata [OF okp n meta True] by (simp_all add: q_def)
    have lq: "ledger (\<lambda>b. rb b + total_refs (p2p_bufs b) (m(key := None)) + p2p_bufs b q)
        (\<lambda>i. ri i + total_refs (p2p_ios i) (m(key := None)) + p2p_ios i q) (insert io F) h"
      using lp by (simp add: q_def)
    show ?thesis
    proof (cases "if role = SimSend then sp_has_send q else sp_has_recv q")
      case dup: True
      then show ?thesis using res True publish_reject [OF lq pos tab okq(1) io]
        by (cases role) (auto simp: unf)
    next
      case fresh: False
      show ?thesis
      proof (cases role)
        case SimSend
        show ?thesis
          by (rule publish_send [OF lq pos tab io okq(1,2) _ _ refl refl, where d = payload])
            (use res True SimSend fresh okq side in \<open>auto simp: unf split: if_splits\<close>)
      next
        case SimRecv
        show ?thesis
          by (rule publish_recv [OF lq pos tab io okq(1,2) _ _ _ refl refl, where buffer = buffer and offset = offset])
            (use res True SimRecv fresh okq side in \<open>auto simp: unf split: if_splits\<close>)
      qed
    qed
  qed
qed

section \<open>The submissions keep the accounts\<close>

lemma case_MakePendingIo:
  "(case MakePendingIo h of (io, h) \<Rightarrow> f io h) = f (hp_next h) (snd (MakePendingIo h))"
  by (simp add: MakePendingIo_def alloc_io_def)

lemma case_MakeIo:
  "(case MakeIo s n k e h of (io, h) \<Rightarrow> f io h) = f (hp_next h) (snd (MakeIo s n k e h))"
  by (simp add: MakeIo_def alloc_io_def)

lemma shape_make [heap_simps]:
  "shape (snd (MakePendingIo h)) = shape h" "shape (snd (MakeIo s n k e h)) = shape h"
  by (simp_all add: MakePendingIo_def MakeIo_def heap_simps)

text \<open>The common part: take a number, allocate the handle, publish.\<close>

lemma publish_grows:
  assumes fin: "finite (dom m)" and res: "sim_pair_publish name role key count t n d buffer offset io (h, m) = (h', m')"
  shows "grows p2p_ios io m m'"
proof -
  define p where "p = (case m key of None \<Rightarrow> new_pending_p2p | Some p \<Rightarrow> p)"
  let ?q = "MaybeSetPendingSimP2pMetadata p count t n"
  have e: "entry (p2p_ios i) (m key) = p2p_ios i ?q" for i by (cases "m key") (simp_all add: p_def)
  have "m' = m(key := None) \<or> (\<exists>q. m' = m(key \<mapsto> q) \<and> (\<forall>i. p2p_ios i q \<le> p2p_ios i ?q + of_bool (i = io)))"
    using res unfolding sim_pair_publish_def Let_def prod.case p_def [symmetric]
    by (auto simp: p2p_refs_send p2p_refs_recv split: if_splits SimP2pRole.splits)
  then show ?thesis
  proof (elim disjE exE conjE)
    assume "m' = m(key := None)"
    then show ?thesis using grows_remove [where w = p2p_ios, OF fin] by simp
  next
    fix q assume "m' = m(key \<mapsto> q)" "\<forall>i. p2p_ios i q \<le> p2p_ios i ?q + of_bool (i = io)"
    then show ?thesis using grows_put [where w = p2p_ios, OF fin] e by simp
  qed
qed

lemma submit_inv:
  assumes l: "p2p_ledger rb ri F m h" and pos: "\<And>b. 0 \<le> rb b" "\<And>i. 0 \<le> ri i" and tab: "p2p_table_ok h m"
    and n: "CheckedBytes count t = Some n" and live: "hp_buffers h buffer \<noteq> None" "ValidateRange h buffer offset n"
    and h1: "h1 = snd (MakePendingIo (upd_client c f h))"
    and res: "sim_pair_publish name role key count t n
      (if role = SimSend then buffer_read (upd_client c f h) buffer offset n else []) buffer offset
      (hp_next h) (h1, m) = (h', m')"
  shows "p2p_ledger rb ri F m' h' \<and> p2p_table_ok h' m' \<and> kept h h' \<and> grows p2p_ios (hp_next h) m m'"
proof -
  have gr: "grows p2p_ios (hp_next h) m m'" by (rule publish_grows [OF _ res]) (use tab in \<open>simp add: p2p_table_ok_def\<close>)
  have sh: "shape h1 = shape h" by (simp add: h1 heap_simps)
  have k: "kept h h1" unfolding h1 MakePendingIo_def
    by (rule kept_trans [OF kept_upd_client kept_alloc_io]) (use l in \<open>simp_all add: ledger_def heap_simps new_io_def\<close>)
  have "p2p_ledger rb ri (insert (hp_next h) F) m h1"
    using ledger_make_pending [OF ledger_upd_client [OF l, of c f]] by (simp add: h1 heap_simps)
  moreover have "hp_next h \<notin> F" using ledger_fresh [OF l] by simp
  moreover have "p2p_table_ok h1 m" by (rule p2p_table_ok_cong [OF tab]) (simp add: sh)
  moreover have "hp_buffers h1 buffer \<noteq> None \<and> ValidateRange h1 buffer offset n"
    using live by (simp add: h1 MakePendingIo_def heap_simps ValidateRange_def)
  ultimately have "p2p_ledger rb ri F m' h' \<and> p2p_table_ok h' m' \<and> same_objects h1 h'"
    by (intro publish_inv [OF _ _ pos _ n _ _ res]) (auto simp: buffer_read_def)
  then show ?thesis using kept_trans [OF k kept_same_objects] gr by simp
qed

text \<open>A submission is rejected at once, answered with a completed handle, or published.\<close>

definition submit_outcome ::
    "string \<Rightarrow> SimP2pRole \<Rightarrow> nat \<Rightarrow> nat \<Rightarrow> u64 \<Rightarrow> flume_data_type \<Rightarrow> heap \<times> p2p_table \<Rightarrow> heap \<times> p2p_table \<Rightarrow> bool" where
  "submit_outcome name role buffer offset count t hm hm' \<longleftrightarrow>
    hm' = hm \<or> (\<exists>e. hm' = (snd (MakeIo FLUME_ERR_UNSUPPORTED 0 0 e (fst hm)), snd hm)) \<or>
    (\<exists>n key c f. CheckedBytes count t = Some n \<and> ValidateRange (fst hm) buffer offset n \<and>
      hm' = sim_pair_publish name role key count t n
        (if role = SimSend then buffer_read (upd_client c f (fst hm)) buffer offset n else [])
        buffer offset (hp_next (fst hm)) (snd (MakePendingIo (upd_client c f (fst hm))), snd hm))"

lemma submit_outcome_inv:
  assumes l: "p2p_ledger rb ri F m h" and pos: "\<And>b. 0 \<le> rb b" "\<And>i. 0 \<le> ri i" and tab: "p2p_table_ok h m"
    and live: "hp_buffers h buffer \<noteq> None"
    and res: "submit_outcome name role buffer offset count t (h, m) (h', m')"
  shows "p2p_ledger rb ri F m' h' \<and> p2p_table_ok h' m' \<and> kept h h' \<and> grows p2p_ios (hp_next h) m m'"
  using res unfolding submit_outcome_def fst_conv snd_conv
proof (elim disjE exE conjE)
  assume "(h', m') = (h, m)"
  then show ?thesis using l tab by simp
next
  fix e assume "(h', m') = (snd (MakeIo FLUME_ERR_UNSUPPORTED 0 0 e h), m)"
  moreover have "kept h (snd (MakeIo FLUME_ERR_UNSUPPORTED 0 0 e h))"
    unfolding MakeIo_def by (rule kept_alloc_io) (use l in \<open>simp_all add: ledger_def new_io_def\<close>)
  ultimately show ?thesis using ledger_make_io [OF l] p2p_table_ok_cong [OF tab] by (simp add: heap_simps)
next
  fix n key c f
  assume "CheckedBytes count t = Some n" "ValidateRange h buffer offset n"
    "(h', m') = sim_pair_publish name role key count t n
      (if role = SimSend then buffer_read (upd_client c f h) buffer offset n else []) buffer offset
      (hp_next h) (snd (MakePendingIo (upd_client c f h)), m)"
  then show ?thesis using submit_inv [OF l pos tab _ live _ refl] by (metis (no_types, lifting))
qed

lemma SubmitSimP2p_outcome:
  "submit_outcome ''sim p2p'' role buffer offset count t hm
    (snd (SubmitSimP2p client role buffer offset count t peer hm))"
proof (cases hm)
  case (Pair h m)
  show ?thesis
    unfolding Pair SubmitSimP2p_def Let_def prod.case submit_outcome_def fst_conv snd_conv
      case_MakePendingIo case_MakeIo upd_client_fields(3)
    by (simp split: option.split) blast
qed

lemma SubmitSimHcommPayload_outcome:
  "submit_outcome ''sim HCOMM payload'' role buffer offset count t hm
    (snd (SubmitSimHcommPayload client role buffer offset count t peer hm))"
proof (cases hm)
  case (Pair h m)
  show ?thesis
    unfolding Pair SubmitSimHcommPayload_def Let_def prod.case submit_outcome_def fst_conv snd_conv
      case_MakePendingIo case_MakeIo upd_client_fields(3)
    by (simp split: option.split) blast
qed

section \<open>A matched pair delivers\<close>

text \<open>The conditions under which a submission is published.\<close>

definition p2p_ready ::
    "heap \<Rightarrow> nat \<Rightarrow> nat \<Rightarrow> nat \<Rightarrow> u64 \<Rightarrow> flume_data_type \<Rightarrow> u32 \<Rightarrow> nat \<Rightarrow> bool" where
  "p2p_ready h client buffer offset count t peer n \<longleftrightarrow>
    cl_sim_comm_attached (client_at h client) \<and> cl_rank_size (client_at h client) \<noteq> 0 \<and>
    peer < cl_rank_size (client_at h client) \<and> peer \<noteq> cl_rank (client_at h client) \<and>
    CheckedBytes count t = Some n \<and> hp_buffers h buffer \<noteq> None \<and> ValidateRange h buffer offset n \<and>
    bf_client (buffer_at h buffer) = client \<and> IsSimBufferType (bf_type (buffer_at h buffer))"

definition p2p_seq :: "heap \<Rightarrow> nat \<Rightarrow> SimP2pRole \<Rightarrow> u64" where
  "p2p_seq h c role = (if role = SimSend then cl_p2p_send_seq (client_at h c) else cl_p2p_recv_seq (client_at h c))"

lemma length_buffer_read [simp]: "length (buffer_read h b off n) = n"
  by (simp add: buffer_read_def)

lemma SubmitSimP2p_ready:
  assumes "p2p_ready h client buffer offset count t peer n"
  shows "\<exists>f. SubmitSimP2p client role buffer offset count t peer (h, m) = ((FLUME_OK, hp_next h),
    sim_pair_publish ''sim p2p'' role (p2p_key (client_at h client) role peer (p2p_seq h client role)) count t n
      (if role = SimSend then buffer_read h buffer offset n else []) buffer offset (hp_next h)
      (snd (MakePendingIo (upd_client client f h)), m))"
  using assms unfolding p2p_ready_def SubmitSimP2p_def Let_def prod.case case_MakePendingIo
  by (intro exI [of _ "\<lambda>cl. if role = SimSend then cl\<lparr>cl_p2p_send_seq := cl_p2p_send_seq cl + 1\<rparr>
        else cl\<lparr>cl_p2p_recv_seq := cl_p2p_recv_seq cl + 1\<rparr>"])
    (simp add: heap_simps p2p_seq_def buffer_read_def not_le)

text \<open>An entry that holds only the sender's or only the receiver's half.\<close>

definition half_send :: "u64 \<Rightarrow> flume_data_type \<Rightarrow> nat \<Rightarrow> bytes \<Rightarrow> nat \<Rightarrow> PendingSimP2p" where
  "half_send count t n d io = new_pending_p2p\<lparr>sp_metadata_set := True, sp_count := count,
    sp_data_type := t, sp_bytes := n, sp_has_send := True, sp_payload := d, sp_send_io := io\<rparr>"

definition half_recv :: "u64 \<Rightarrow> flume_data_type \<Rightarrow> nat \<Rightarrow> nat \<Rightarrow> nat \<Rightarrow> nat \<Rightarrow> PendingSimP2p" where
  "half_recv count t n b off io = new_pending_p2p\<lparr>sp_metadata_set := True, sp_count := count,
    sp_data_type := t, sp_bytes := n, sp_has_recv := True, sp_dst := b, sp_dst_offset := off, sp_recv_io := io\<rparr>"

definition both_halves ::
    "u64 \<Rightarrow> flume_data_type \<Rightarrow> nat \<Rightarrow> bytes \<Rightarrow> nat \<Rightarrow> nat \<Rightarrow> nat \<Rightarrow> nat \<Rightarrow> PendingSimP2p" where
  "both_halves count t n d io1 b off io2 = (half_send count t n d io1)\<lparr>sp_has_recv := True,
    sp_dst := b, sp_dst_offset := off, sp_recv_io := io2\<rparr>"

lemmas halves = half_send_def half_recv_def both_halves_def new_pending_p2p_def

lemma publish_first:
  assumes "m key = None"
  shows "sim_pair_publish name SimSend key c t n d b off io (h, m) =
      (RetainPendingIo io h, m(key \<mapsto> half_send c t n d io))"
    and "sim_pair_publish name SimRecv key c t n d b off io (h, m) =
      (RetainPendingIo io (RetainPendingBuffer b h), m(key \<mapsto> half_recv c t n b off io))"
  using assms by (simp_all add: sim_pair_publish_def Let_def PendingSimP2pMatches_def
    MaybeSetPendingSimP2pMetadata_def halves)

lemma publish_second:
  "m key = Some (half_send c t n d io1) \<Longrightarrow> sim_pair_publish name SimRecv key c t n d' b off io2 (h, m) =
      (CompletePendingSimP2p (both_halves c t n d io1 b off io2)
        (RetainPendingIo io2 (RetainPendingBuffer b h)), m(key := None))"
  "m key = Some (half_recv c t n b off io2) \<Longrightarrow> sim_pair_publish name SimSend key c t n d b' off' io1 (h, m) =
      (CompletePendingSimP2p (both_halves c t n d io1 b off io2) (RetainPendingIo io1 h), m(key := None))"
  by (simp_all add: sim_pair_publish_def Let_def PendingSimP2pMatches_def
    MaybeSetPendingSimP2pMetadata_def halves)

text \<open>What both sides see of a completed transfer of \<open>d\<close> into buffer \<open>b\<close>.\<close>

definition delivered :: "bytes \<Rightarrow> nat \<Rightarrow> nat \<Rightarrow> nat \<Rightarrow> nat \<Rightarrow> heap \<Rightarrow> heap \<Rightarrow> bool" where
  "delivered d io1 io2 b off h h' \<longleftrightarrow>
    hp_mem h' = mem_write (bf_ptr (buffer_at h b) + off) d (hp_mem h) \<and>
    buffer_read h' b off (length d) = d \<and>
    (\<forall>i\<in>{io1, io2}. \<exists>x. hp_ios h' i = Some x \<and> io_done x \<and> io_status x = status_u32 FLUME_OK \<and>
      io_bytes x = length d \<and> io_checksum x = Checksum32 d \<and> io_pending x = 0)"

lemma CompletePendingSimP2p_delivers:
  assumes "hp_ios h io1 = Some x1" "io_pending x1 = 1" "hp_ios h io2 = Some x2" "io_pending x2 = 1"
    "io1 \<noteq> io2" "io1 \<noteq> 0" "io2 \<noteq> 0" "b \<noteq> 0" "hp_buffers h b = Some y"
    "length d = n"
  shows "delivered d io1 io2 b off h (CompletePendingSimP2p (both_halves c t n d io1 b off io2) h)"
  using assms
  by (simp add: delivered_def CompletePendingSimP2p_def Let_def halves heap_simps buffer_read_def)

fun opposite :: "SimP2pRole \<Rightarrow> SimP2pRole" where
  "opposite SimSend = SimRecv"
| "opposite SimRecv = SimSend"

lemma MakePendingIo_fields [heap_simps]:
  "hp_mem (snd (MakePendingIo h)) = hp_mem h" "hp_buffers (snd (MakePendingIo h)) = hp_buffers h"
  "hp_clients (snd (MakePendingIo h)) = hp_clients h" "hp_next (snd (MakePendingIo h)) = hp_next h + 1"
  "hp_ios (snd (MakePendingIo h)) = (hp_ios h)(hp_next h \<mapsto>
    new_io\<lparr>io_done := False, io_status := status_u32 FLUME_PENDING\<rparr>)"
  by (simp_all add: MakePendingIo_def heap_simps)

text \<open>The handle of the half that waits in the table is alive and referenced once.\<close>

lemma waiting_io:
  assumes l: "p2p_ledger rb ri F m h" and pos: "\<And>i. 0 \<le> ri i" and tab: "p2p_table_ok h m"
    and k: "m k = Some p" "p2p_ios i p = 1"
  shows "\<exists>x. hp_ios h i = Some x \<and> io_pending x = 1" and "i \<noteq> 0" and "i \<noteq> hp_next h"
proof -
  have "p2p_ios i p \<le> total_refs (p2p_ios i) m"
    using tab k(1) by (intro total_ge) (simp_all add: p2p_table_ok_def)
  moreover have "ri i + total_refs (p2p_ios i) m \<le> 1" using l by (simp add: ledger_def)
  ultimately have one: "ri i + total_refs (p2p_ios i) m = 1" using k(2) pos [of i] by linarith
  then show "\<exists>x. hp_ios h i = Some x \<and> io_pending x = 1"
    using ledger_io_live [OF l, of i] ledger_io [OF l, of i] by fastforce
  show "i \<noteq> 0" using one ledger_null [OF l] by (intro notI) simp
  show "i \<noteq> hp_next h" using one ledger_fresh [OF l] by (intro notI) simp
qed

lemma second_recv_delivers:
  assumes l: "p2p_ledger rb ri F m h" and pos: "\<And>i. 0 \<le> ri i" and tab: "p2p_table_ok h m"
    and k: "m key = Some (half_send c t n d io1)" and b: "hp_buffers h b = Some y"
    and h2: "sim_pair_publish name SimRecv key c t n d' b off (hp_next h)
      (snd (MakePendingIo (upd_client cl f h)), m) = (h2, m2)"
  shows "m2 = m(key := None) \<and> delivered d io1 (hp_next h) b off h h2"
proof -
  let ?h1 = "RetainPendingIo (hp_next h) (RetainPendingBuffer b (snd (MakePendingIo (upd_client cl f h))))"
  have "p2p_ios io1 (half_send c t n d io1) = 1" by (simp add: p2p_ios_def halves)
  note w = waiting_io [OF l pos tab k this]
  have "length d = n" using tab k by (force simp: p2p_table_ok_def sides_ok_def halves)
  moreover have "b \<noteq> 0" using ledger_null [OF l] b by (intro notI) simp
  moreover have "hp_next h \<noteq> 0" using ledger_fresh [OF l] by simp
  moreover obtain x where "hp_ios h io1 = Some x" "io_pending x = 1" using w(1) by blast
  ultimately have "delivered d io1 (hp_next h) b off ?h1
      (CompletePendingSimP2p (both_halves c t n d io1 b off (hp_next h)) ?h1)"
    using w b CompletePendingSimP2p_delivers [where h = ?h1 and ?io1.0 = io1 and ?io2.0 = "hp_next h" and b = b]
    by (simp add: heap_simps new_io_def)
  then have "delivered d io1 (hp_next h) b off h
      (CompletePendingSimP2p (both_halves c t n d io1 b off (hp_next h)) ?h1)"
    using b \<open>b \<noteq> 0\<close> by (simp add: delivered_def heap_simps)
  then show ?thesis using h2 publish_second(1) [where m = m, OF k] by auto
qed

lemma second_send_delivers:
  assumes l: "p2p_ledger rb ri F m h" and pos: "\<And>i. 0 \<le> ri i" and tab: "p2p_table_ok h m"
    and k: "m key = Some (half_recv c t n b off io2)" and d: "length d = n"
    and h2: "sim_pair_publish name SimSend key c t n d b' off' (hp_next h)
      (snd (MakePendingIo (upd_client cl f h)), m) = (h2, m2)"
  shows "m2 = m(key := None) \<and> delivered d (hp_next h) io2 b off h h2"
proof -
  let ?h1 = "RetainPendingIo (hp_next h) (snd (MakePendingIo (upd_client cl f h)))"
  have "p2p_ios io2 (half_recv c t n b off io2) = 1" by (simp add: p2p_ios_def halves)
  note w = waiting_io [OF l pos tab k this]
  obtain y where b: "hp_buffers h b = Some y" "b \<noteq> 0"
    using tab k by (force simp: p2p_table_ok_def sides_ok_def halves)
  moreover have "hp_next h \<noteq> 0" using ledger_fresh [OF l] by auto
  moreover obtain x where "hp_ios h io2 = Some x" "io_pending x = 1" using w(1) by blast
  ultimately have "delivered d (hp_next h) io2 b off ?h1
      (CompletePendingSimP2p (both_halves c t n d (hp_next h) b off io2) ?h1)"
    using w d CompletePendingSimP2p_delivers [where h = ?h1 and ?io1.0 = "hp_next h" and ?io2.0 = io2 and b = b]
    by (simp add: heap_simps new_io_def)
  then have "delivered d (hp_next h) io2 b off h
      (CompletePendingSimP2p (both_halves c t n d (hp_next h) b off io2) ?h1)"
    by (simp add: delivered_def heap_simps)
  then show ?thesis using h2 publish_second(2) [where m = m, OF k] by auto
qed

text \<open>Property C23. Two clients submit the two halves of a transfer, in either order and with
  any operations of the library in between that leave the waiting half in the table.  Then the second
  submission copies the bytes that the sender's buffer had at the time of the send into the
  receiver's buffer, changes no other memory, removes the entry, and completes both handles with
  success, the same size and the checksum of those bytes.\<close>

theorem p2p_pair_delivers:
  assumes ready1: "p2p_ready h c1 b1 o1 count t r2 n"
    and key: "k = p2p_key (client_at h c1) role r2 (p2p_seq h c1 role)" "m k = None"
    and sub1: "SubmitSimP2p c1 role b1 o1 count t r2 (h, m) = ((st1, io1), h1, m1)"
    and later: "p2p_ledger rb ri F m' h'" "\<And>i. 0 \<le> ri i" "p2p_table_ok h' m'" "m' k = m1 k"
    and ready2: "p2p_ready h' c2 b2 o2 count t r1 n"
      "p2p_key (client_at h' c2) (opposite role) r1 (p2p_seq h' c2 (opposite role)) = k"
    and sub2: "SubmitSimP2p c2 (opposite role) b2 o2 count t r1 (h', m') = ((st2, io2), h2, m2)"
  shows "st1 = FLUME_OK \<and> st2 = FLUME_OK \<and> m2 = m'(k := None) \<and>
    (case role of SimSend \<Rightarrow> delivered (buffer_read h b1 o1 n) io1 io2 b2 o2 h' h2
     | SimRecv \<Rightarrow> delivered (buffer_read h' b2 o2 n) io2 io1 b1 o1 h' h2)"
proof -
  obtain f1 where f1: "SubmitSimP2p c1 role b1 o1 count t r2 (h, m) = ((FLUME_OK, hp_next h),
    sim_pair_publish ''sim p2p'' role k count t n (if role = SimSend then buffer_read h b1 o1 n else [])
      b1 o1 (hp_next h) (snd (MakePendingIo (upd_client c1 f1 h)), m))"
    using SubmitSimP2p_ready [OF ready1] unfolding key(1) by blast
  obtain f2 where f2: "SubmitSimP2p c2 (opposite role) b2 o2 count t r1 (h', m') = ((FLUME_OK, hp_next h'),
    sim_pair_publish ''sim p2p'' (opposite role) k count t n
      (if opposite role = SimSend then buffer_read h' b2 o2 n else [])
      b2 o2 (hp_next h') (snd (MakePendingIo (upd_client c2 f2 h')), m'))"
    using SubmitSimP2p_ready [OF ready2(1), of "opposite role"] unfolding ready2(2) by blast
  show ?thesis
  proof (cases role)
    case SimSend
    then have "m' k = Some (half_send count t n (buffer_read h b1 o1 n) io1)"
      using f1 sub1 later(4) publish_first [of m, OF key(2)] by auto
    moreover obtain y where "hp_buffers h' b2 = Some y" using ready2(1) by (auto simp: p2p_ready_def)
    ultimately show ?thesis
      using SimSend f1 f2 sub1 sub2 second_recv_delivers [OF later(1-3)] by auto
  next
    case SimRecv
    then have "m' k = Some (half_recv count t n b1 o1 io1)"
      using f1 sub1 later(4) publish_first [of m, OF key(2)] by auto
    then show ?thesis
      using SimRecv f1 f2 sub1 sub2 second_send_delivers [OF later(1-3) _ length_buffer_read] by auto
  qed
qed

text \<open>A communicator of ranks with one client and one buffer of 16 bytes each: client \<open>c\<close> at
  address \<open>c\<close> has rank \<open>c - 1\<close> and the buffer at address \<open>10 + c\<close> over the memory from \<open>100 * c\<close>.\<close>

definition sample_client :: "u32 \<Rightarrow> u32 \<Rightarrow> flume_client" where
  "sample_client n r = new_client\<lparr>cl_fd := 7, cl_sim_comm_attached := True, cl_sim_comm_name := cstr ''world'',
    cl_rank := r, cl_rank_size := n\<rparr>"

definition sample_buffer :: "nat \<Rightarrow> flume_buffer" where
  "sample_buffer c = \<lparr>bf_client = c, bf_ptr = 100 * c, bf_len = 16, bf_type = FLUME_BUFFER_SIM_HBM,
    bf_a3_refs = 0, bf_pending = 0\<rparr>"

definition sample_heap :: "u32 \<Rightarrow> heap" where
  "sample_heap n = \<lparr>hp_mem = of_nat, hp_brk = 1000, hp_next = 20,
    hp_clients = [1 \<mapsto> sample_client n 0, 2 \<mapsto> sample_client n 1, 3 \<mapsto> sample_client n 2],
    hp_buffers = [11 \<mapsto> sample_buffer 1, 12 \<mapsto> sample_buffer 2, 13 \<mapsto> sample_buffer 3],
    hp_ios = Map.empty\<rparr>"

lemmas sample_simps = sample_heap_def sample_client_def sample_buffer_def new_client_def

lemma total_refs_empty [simp]: "total_refs w Map.empty = 0"
  by (simp add: total_refs_def)

lemma sample_accounts: "p2p_ledger (\<lambda>b. 0) (\<lambda>i. 0) {} Map.empty (sample_heap n)"
  by (simp add: ledger_def sample_heap_def sample_buffer_def)

lemma sample_table: "p2p_table_ok h Map.empty"
  by (simp add: p2p_table_ok_def)

lemma sample_ready:
  "p2p_ready (sample_heap 2) 1 11 0 4 FLUME_DTYPE_UINT8 1 4"
  by (simp add: p2p_ready_def sample_simps CheckedBytes_def ValidateRange_def IsSimBufferType_def)

text \<open>The state after rank 0 has sent the four bytes 100 to 103 to rank 1.\<close>

definition sample_sent :: "heap \<times> p2p_table" where
  "sample_sent = snd (SubmitSimP2p 1 SimSend 11 0 4 FLUME_DTYPE_UINT8 1 (sample_heap 2, Map.empty))"

definition sample_key :: SimP2pKey where
  "sample_key = p2p_key (client_at (sample_heap 2) 1) SimSend 1 (p2p_seq (sample_heap 2) 1 SimSend)"

lemma sample_sent_inv:
  "p2p_ledger (\<lambda>b. 0) (\<lambda>i. 0) {} (snd sample_sent) (fst sample_sent)"
  "p2p_table_ok (fst sample_sent) (snd sample_sent)"
proof -
  have "submit_outcome ''sim p2p'' SimSend 11 0 4 FLUME_DTYPE_UINT8 (sample_heap 2, Map.empty)
      (fst sample_sent, snd sample_sent)"
    using SubmitSimP2p_outcome [of SimSend 11 0 4 FLUME_DTYPE_UINT8 "(sample_heap 2, Map.empty)" 1 1]
    by (simp add: sample_sent_def)
  from submit_outcome_inv [OF sample_accounts _ _ sample_table _ this]
  show "p2p_ledger (\<lambda>b. 0) (\<lambda>i. 0) {} (snd sample_sent) (fst sample_sent)"
    "p2p_table_ok (fst sample_sent) (snd sample_sent)" by (simp_all add: sample_heap_def)
qed

lemma sample_sent_state:
  "SubmitSimP2p 1 SimSend 11 0 4 FLUME_DTYPE_UINT8 1 (sample_heap 2, Map.empty) =
    ((FLUME_OK, 20), fst sample_sent, snd sample_sent)"
  "hp_clients (fst sample_sent) 2 = hp_clients (sample_heap 2) 2"
  "hp_buffers (fst sample_sent) = hp_buffers (sample_heap 2)"
  "snd sample_sent sample_key = Some (half_send 4 FLUME_DTYPE_UINT8 4 (buffer_read (sample_heap 2) 11 0 4) 20)"
proof -
  have next20: "hp_next (sample_heap 2) = 20" by (simp add: sample_heap_def)
  obtain f where f: "SubmitSimP2p 1 SimSend 11 0 4 FLUME_DTYPE_UINT8 1 (sample_heap 2, Map.empty) =
      ((FLUME_OK, 20), RetainPendingIo 20 (snd (MakePendingIo (upd_client 1 f (sample_heap 2)))),
       [sample_key \<mapsto> half_send 4 FLUME_DTYPE_UINT8 4 (buffer_read (sample_heap 2) 11 0 4) 20])"
    using SubmitSimP2p_ready [OF sample_ready, of SimSend Map.empty]
    by (auto simp: publish_first sample_key_def next20)
  then show "SubmitSimP2p 1 SimSend 11 0 4 FLUME_DTYPE_UINT8 1 (sample_heap 2, Map.empty) =
    ((FLUME_OK, 20), fst sample_sent, snd sample_sent)"
    "hp_clients (fst sample_sent) 2 = hp_clients (sample_heap 2) 2"
    "hp_buffers (fst sample_sent) = hp_buffers (sample_heap 2)"
    "snd sample_sent sample_key = Some (half_send 4 FLUME_DTYPE_UINT8 4 (buffer_read (sample_heap 2) 11 0 4) 20)"
    by (simp_all add: sample_sent_def heap_simps)
qed

lemma sample_recv_ready:
  "p2p_ready (fst sample_sent) 2 12 8 4 FLUME_DTYPE_UINT8 0 4"
  "p2p_ready (fst sample_sent) 2 12 8 5 FLUME_DTYPE_UINT8 0 5"
  "p2p_key (client_at (fst sample_sent) 2) SimRecv 0 (p2p_seq (fst sample_sent) 2 SimRecv) = sample_key"
  by (simp_all add: sample_sent_state p2p_ready_def CheckedBytes_def ValidateRange_def IsSimBufferType_def
    p2p_key_def p2p_seq_def sample_key_def sample_simps)

theorem p2p_pair_delivers_witness:
  "buffer_read (fst (snd (SubmitSimP2p 2 SimRecv 12 8 4 FLUME_DTYPE_UINT8 0 sample_sent))) 12 8 4 =
    [100, 101, 102, 103]"
proof -
  obtain st io h m where sub: "SubmitSimP2p 2 SimRecv 12 8 4 FLUME_DTYPE_UINT8 0 (fst sample_sent, snd sample_sent) =
      ((st, io), h, m)" by (metis prod.collapse)
  have "delivered (buffer_read (sample_heap 2) 11 0 4) 20 io 12 8 (fst sample_sent) h"
    using p2p_pair_delivers [OF sample_ready sample_key_def _ sample_sent_state(1) sample_sent_inv(1) _
        sample_sent_inv(2) refl sample_recv_ready(1) _ _] sample_recv_ready(3) sub by simp
  then have "buffer_read h 12 8 4 = buffer_read (sample_heap 2) 11 0 4" by (simp add: delivered_def)
  also have "\<dots> = [100, 101, 102, 103]" by (simp add: sample_simps buffer_read_def mem_read_def upt_conv_Cons)
  finally show ?thesis using sub by simp
qed

section \<open>A mismatch fails both sides\<close>

text \<open>A handle that was completed with a failure and is no longer referenced.\<close>

definition failed_io :: "heap \<Rightarrow> flume_status \<Rightarrow> bytes \<Rightarrow> nat \<Rightarrow> bool" where
  "failed_io h st e i \<longleftrightarrow> (\<exists>x. hp_ios h i = Some x \<and> io_done x \<and> io_status x = status_u32 st \<and>
    io_bytes x = 0 \<and> io_error x = e \<and> io_pending x = 0)"

lemma FailPendingSimP2p_frame:
  "hp_mem (FailPendingSimP2p p st e h) = hp_mem h"
  "p2p_ios i p = 0 \<Longrightarrow> sides_ok h p \<Longrightarrow> hp_ios (FailPendingSimP2p p st e h) i = hp_ios h i"
  by (auto simp: FailPendingSimP2p_def Let_def heap_simps sides_ok_def p2p_ios_def of_bool_def split: if_splits)

lemma FailPendingSimP2p_fails:
  assumes "sides_ok h p" "sp_has_send p \<noteq> sp_has_recv p" "p2p_ios i p = 1"
    "hp_ios h i = Some x" "io_pending x = 1"
  shows "failed_io (FailPendingSimP2p p st e h) st e i"
  using assms by (cases "sp_has_send p")
    (auto simp: FailPendingSimP2p_def Let_def heap_simps sides_ok_def p2p_ios_def failed_io_def)

text \<open>Property C24. When the second half of a transfer disagrees with the waiting half in the count,
  the data type or the size, the submission itself reports success, both handles complete
  with the status \<open>invalid argument\<close> and the same message, no memory is written and the
  entry is gone; nobody is left waiting.\<close>

theorem p2p_mismatch_fails_both:
  assumes inv: "p2p_ledger rb ri F m h" "\<And>i. 0 \<le> ri i" "p2p_table_ok h m"
    and ready: "p2p_ready h client buffer offset count t peer n"
    and k: "k = p2p_key (client_at h client) role peer (p2p_seq h client role)"
    and waiting: "m k = Some p" "\<not> PendingSimP2pMatches p count t n"
    and sub: "SubmitSimP2p client role buffer offset count t peer (h, m) = ((st, io), h', m')"
  shows "st = FLUME_OK \<and> m' = m(k := None) \<and> hp_mem h' = hp_mem h \<and>
    (\<forall>i. i = io \<or> p2p_ios i p = 1 \<longrightarrow> failed_io h' FLUME_ERR_INVALID_ARGUMENT
      (cstr ''sim p2p parameters do not match peer submission'') i)"
proof -
  let ?e = "cstr ''sim p2p parameters do not match peer submission''"
  obtain f where "SubmitSimP2p client role buffer offset count t peer (h, m) = ((FLUME_OK, hp_next h),
    sim_pair_publish ''sim p2p'' role k count t n (if role = SimSend then buffer_read h buffer offset n else [])
      buffer offset (hp_next h) (snd (MakePendingIo (upd_client client f h)), m))"
    using SubmitSimP2p_ready [OF ready] unfolding k by blast
  then have res: "st = FLUME_OK" "io = hp_next h" "m' = m(k := None)"
    and h': "h' = CompleteIo io FLUME_ERR_INVALID_ARGUMENT 0 0 ?e (FailPendingSimP2p p
      FLUME_ERR_INVALID_ARGUMENT ?e (snd (MakePendingIo (upd_client client f h))))" (is "_ = CompleteIo _ _ _ _ _ ?h2")
    using sub waiting by (simp_all add: sim_pair_publish_def Let_def)
  have p: "sides_ok h p" "sp_has_send p \<noteq> sp_has_recv p"
    using inv(3) waiting(1) by (simp_all add: p2p_table_ok_def)
  have p1: "sides_ok (snd (MakePendingIo (upd_client client f h))) p"
    by (rule sides_ok_cong [OF p(1)]) (simp add: heap_simps)
  have fresh: "io \<noteq> 0" "p2p_ios io p = 0"
  proof -
    show "io \<noteq> 0" using ledger_fresh [OF inv(1)] res by simp
    have "ri io + total_refs (p2p_ios io) m = 0" using ledger_fresh [OF inv(1)] res by simp
    moreover have "p2p_ios io p \<le> total_refs (p2p_ios io) m"
      using inv(3) waiting(1) by (intro total_ge) (simp_all add: p2p_table_ok_def)
    ultimately show "p2p_ios io p = 0"
      using inv(2) [of io] p2p_refs_nonneg(2) [of io p] by linarith
  qed
  have io: "failed_io h' FLUME_ERR_INVALID_ARGUMENT ?e io"
    using fresh res(2) FailPendingSimP2p_frame(2) [OF fresh(2) p1]
    unfolding h' by (simp add: failed_io_def heap_simps new_io_def)
  have "failed_io h' FLUME_ERR_INVALID_ARGUMENT ?e i" if i: "p2p_ios i p = 1" for i
  proof -
    obtain x where "hp_ios h i = Some x" "io_pending x = 1" "i \<noteq> io"
      using waiting_io [OF inv waiting(1) i] res(2) by blast
    then have "failed_io ?h2 FLUME_ERR_INVALID_ARGUMENT ?e i"
      by (intro FailPendingSimP2p_fails [OF p1 p(2) i]) (simp_all add: heap_simps res(2) [symmetric])
    then show ?thesis using \<open>i \<noteq> io\<close> fresh(1) unfolding h' by (simp add: failed_io_def heap_simps)
  qed
  with io res show ?thesis by (auto simp: h' heap_simps FailPendingSimP2p_frame)
qed

theorem p2p_mismatch_fails_both_witness:
  "failed_io (fst (snd (SubmitSimP2p 2 SimRecv 12 8 5 FLUME_DTYPE_UINT8 0 sample_sent)))
    FLUME_ERR_INVALID_ARGUMENT (cstr ''sim p2p parameters do not match peer submission'') 20"
proof -
  obtain st io h m where sub: "SubmitSimP2p 2 SimRecv 12 8 5 FLUME_DTYPE_UINT8 0 (fst sample_sent, snd sample_sent) =
      ((st, io), h, m)" by (metis prod.collapse)
  have "\<not> PendingSimP2pMatches (half_send 4 FLUME_DTYPE_UINT8 4 d 20) 5 FLUME_DTYPE_UINT8 5"
    "p2p_ios 20 (half_send 4 FLUME_DTYPE_UINT8 4 d 20) = 1" for d
    by (simp_all add: PendingSimP2pMatches_def p2p_ios_def halves)
  then show ?thesis
    using p2p_mismatch_fails_both [OF sample_sent_inv(1) _ sample_sent_inv(2) sample_recv_ready(2)
        sample_recv_ready(3) [symmetric] sample_sent_state(4) _ sub] sub by simp
qed

section \<open>Sequence numbers are per client\<close>

text \<open>The number in a key counts all sends (or all receives) of one client, not those to one peer.
  With three ranks, the second send of rank 0, to rank 2, has number 1, while the first receive of
  rank 2 from rank 0 has number 0: the transfer that both sides asked for never happens.\<close>

definition first_heap :: "nat \<Rightarrow> SimP2pRole \<Rightarrow> nat \<Rightarrow> heap \<Rightarrow> heap" where
  "first_heap client role buffer h =
    (let h1 = snd (MakePendingIo (upd_client client (\<lambda>cl. if role = SimSend
        then cl\<lparr>cl_p2p_send_seq := cl_p2p_send_seq cl + 1\<rparr>
        else cl\<lparr>cl_p2p_recv_seq := cl_p2p_recv_seq cl + 1\<rparr>) h))
     in RetainPendingIo (hp_next h) (if role = SimSend then h1 else RetainPendingBuffer buffer h1))"

lemma submit_unmatched:
  assumes "p2p_ready h client buffer offset count t peer n"
    "m (p2p_key (client_at h client) role peer (p2p_seq h client role)) = None"
  shows "\<exists>p. SubmitSimP2p client role buffer offset count t peer (h, m) = ((FLUME_OK, hp_next h),
    first_heap client role buffer h, m(p2p_key (client_at h client) role peer (p2p_seq h client role) \<mapsto> p))"
proof -
  have "SubmitSimP2p client role buffer offset count t peer (h, m) = ((FLUME_OK, hp_next h),
    sim_pair_publish ''sim p2p'' role (p2p_key (client_at h client) role peer (p2p_seq h client role)) count t n
      (if role = SimSend then buffer_read h buffer offset n else []) buffer offset (hp_next h)
      (snd (MakePendingIo (upd_client client (\<lambda>cl. if role = SimSend
        then cl\<lparr>cl_p2p_send_seq := cl_p2p_send_seq cl + 1\<rparr>
        else cl\<lparr>cl_p2p_recv_seq := cl_p2p_recv_seq cl + 1\<rparr>) h)), m))"
    using assms(1) unfolding p2p_ready_def SubmitSimP2p_def Let_def prod.case case_MakePendingIo
    by (simp add: heap_simps p2p_seq_def buffer_read_def not_le)
  then show ?thesis using publish_first [of m, OF assms(2)]
    by (cases role) (auto simp: first_heap_def Let_def)
qed

definition three_sends :: "heap \<times> p2p_table" where
  "three_sends = snd (SubmitSimP2p 1 SimSend 11 0 4 FLUME_DTYPE_UINT8 2
    (snd (SubmitSimP2p 1 SimSend 11 0 4 FLUME_DTYPE_UINT8 1 (sample_heap 3, Map.empty))))"

lemma p2p_three_ranks_unmatched:
  "let hm = snd (SubmitSimP2p 3 SimRecv 13 0 4 FLUME_DTYPE_UINT8 0 three_sends) in
   \<not> io_done (io_at (fst hm) 21) \<and> \<not> io_done (io_at (fst hm) 22)"
proof -
  define h1 where "h1 = first_heap 1 SimSend 11 (sample_heap 3)"
  define h2 where "h2 = first_heap 1 SimSend 11 h1"
  let ?key = "\<lambda>d s. p2p_key (sample_client 3 0) SimSend d s"
  have nx: "hp_next (sample_heap 3) = 20" by (simp add: sample_heap_def)
  have s1: "hp_next h1 = 21" "hp_buffers h1 = hp_buffers (sample_heap 3)"
    "client_at h1 1 = (sample_client 3 0)\<lparr>cl_p2p_send_seq := 1\<rparr>" "hp_clients h1 3 = Some (sample_client 3 2)"
    by (simp_all add: h1_def first_heap_def Let_def heap_simps nx sample_heap_def; simp add: sample_client_def new_client_def)+
  have s2: "hp_next h2 = 22" "hp_buffers h2 = hp_buffers (sample_heap 3)"
    "hp_clients h2 3 = Some (sample_client 3 2)" "\<not> io_done (io_at h2 21)"
    using s1 by (simp_all add: h2_def first_heap_def Let_def heap_simps new_io_def)
  obtain p1 where p1: "snd (SubmitSimP2p 1 SimSend 11 0 4 FLUME_DTYPE_UINT8 1 (sample_heap 3, Map.empty)) =
      (h1, [?key 1 0 \<mapsto> p1])"
    using submit_unmatched [of "sample_heap 3" 1 11 0 4 FLUME_DTYPE_UINT8 1 4 Map.empty SimSend]
    by (auto simp: p2p_ready_def CheckedBytes_def ValidateRange_def IsSimBufferType_def h1_def
      p2p_seq_def p2p_key_def sample_simps)
  obtain p2 where p2: "three_sends = (h2, [?key 1 0 \<mapsto> p1, ?key 2 1 \<mapsto> p2])"
    using submit_unmatched [of h1 1 11 0 4 FLUME_DTYPE_UINT8 2 4 "[?key 1 0 \<mapsto> p1]" SimSend] s1
    unfolding three_sends_def p1
    by (auto simp: p2p_ready_def CheckedBytes_def ValidateRange_def IsSimBufferType_def h2_def
      p2p_seq_def p2p_key_def sample_simps)
  have "fst (snd (SubmitSimP2p 3 SimRecv 13 0 4 FLUME_DTYPE_UINT8 0 three_sends)) = first_heap 3 SimRecv 13 h2"
    using submit_unmatched [of h2 3 13 0 4 FLUME_DTYPE_UINT8 0 4 "[?key 1 0 \<mapsto> p1, ?key 2 1 \<mapsto> p2]" SimRecv] s2
    unfolding p2
    by (auto simp: p2p_ready_def CheckedBytes_def ValidateRange_def IsSimBufferType_def
      p2p_seq_def p2p_key_def sample_simps)
  then show ?thesis using s2 by (simp add: first_heap_def Let_def heap_simps new_io_def)
qed

section \<open>The order of the keys\<close>

text \<open>\<open>std::map\<close> keeps one entry per class of keys that are not ordered either way; the order is
  strict and total, so these classes are single keys and a function on keys is a faithful table.\<close>

lemma string_less_irrefl: "\<not> string_less xs xs"
  by (induction xs) auto

lemma string_less_trans: "string_less xs ys \<Longrightarrow> string_less ys zs \<Longrightarrow> string_less xs zs"
proof (induction xs ys arbitrary: zs rule: string_less.induct)
  case (2 y ys)
  then show ?case by (cases zs) auto
next
  case (3 x xs y ys)
  then show ?case by (cases zs) (auto dest: less_trans)
qed simp

lemma string_less_total: "string_less xs ys \<or> xs = ys \<or> string_less ys xs"
proof (induction xs ys rule: string_less.induct)
  case (1 xs)
  then show ?case by (cases xs) simp_all
qed auto

locale strict_order_keys =
  fixes lt :: "'k \<Rightarrow> 'k \<Rightarrow> bool"
  assumes irrefl: "\<not> lt a a"
    and trans: "lt a b \<Longrightarrow> lt b c \<Longrightarrow> lt a c"
    and total: "lt a b \<or> a = b \<or> lt b a"
begin

lemma equivalent_iff_eq: "\<not> lt a b \<and> \<not> lt b a \<longleftrightarrow> a = b"
  using irrefl total by blast

lemma asym: "lt a b \<Longrightarrow> \<not> lt b a"
  using irrefl trans by blast

end

interpretation p2p_keys: strict_order_keys SimP2pKey_less
proof unfold_locales
  show "\<not> SimP2pKey_less a a" for a by (simp add: SimP2pKey_less_def)
  show "SimP2pKey_less a b \<or> a = b \<or> SimP2pKey_less b a" for a b
    using string_less_total [of "pk_comm_name a" "pk_comm_name b"]
    by (cases a; cases b) (auto simp: SimP2pKey_less_def)
  show "SimP2pKey_less a c" if "SimP2pKey_less a b" "SimP2pKey_less b c" for a b c
    using that string_less_trans [of "pk_comm_name a" "pk_comm_name b" "pk_comm_name c"]
      string_less_trans [of "pk_comm_name b" "pk_comm_name a" "pk_comm_name b"] string_less_irrefl
    by (auto simp: SimP2pKey_less_def split: if_splits)
qed

end
