(* ===== verification/Client_Collective.thy ===== *)
theory Client_Collective
  imports Client_P2p
begin

text \<open>
  The simulated collectives of the client library (\<open>src/core/client.cc\<close>): \<open>SubmitSimCollective\<close>
  for all-reduce and all-gather with the table \<open>SimCollectives()\<close>, the typed reduction loops, and the
  collective registration of symmetric memory \<open>SubmitSimA3Registration\<close>.

  The template parameter \<open>T\<close> of the reduction is the triple of its \<open>ReadValue\<close>, \<open>WriteValue\<close> and
  \<open>ApplyReduce\<close>.  For the integer types these are defined on machine words in the little-endian
  layout of the supported hosts, with two's-complement wrap-around (for the signed 32- and 64-bit types
  an overflow is undefined in C++, and the model says what the usual compilation does; a result in
  range is the same in both); floating-point addition,
  multiplication and comparison are the parameter \<open>fp\<close>, functions on the byte representation.

  The lemmas show that the accounts stay in balance, that when the last rank arrives every rank's
  destination holds the reduction or the concatenation of the bytes that the ranks submitted, in
  whatever order they arrived, and that every failure completes all waiting handles.
\<close>

section \<open>Elements of a payload\<close>

fun le_word :: "bytes \<Rightarrow> 'a::len word" where
  "le_word [] = 0"
| "le_word (b # bs) = shift_in (le_word bs) b"

definition le_bytes :: "'a::len word \<Rightarrow> bytes" where
  "le_bytes v = map (\<lambda>i. byte_at (8 * i) v) [0..<LENGTH('a) div 8]"

definition ReadValue :: "bytes \<Rightarrow> nat \<Rightarrow> 'a::len word" where
  "ReadValue payload index = le_word (bslice (index * (LENGTH('a) div 8)) (LENGTH('a) div 8) payload)"

definition WriteValue :: "bytes \<Rightarrow> nat \<Rightarrow> 'a::len word \<Rightarrow> bytes" where
  "WriteValue payload index value = overwrite (index * (LENGTH('a) div 8)) (le_bytes value) payload"

text \<open>\<open>lt\<close> is the comparison of the type: signed or unsigned.\<close>

fun ApplyReduce :: "('a::len word \<Rightarrow> 'a word \<Rightarrow> bool) \<Rightarrow> flume_reduce_op \<Rightarrow> 'a word \<Rightarrow> 'a word \<Rightarrow> 'a word" where
  "ApplyReduce lt FLUME_REDUCE_SUM lhs rhs = lhs + rhs"
| "ApplyReduce lt FLUME_REDUCE_PROD lhs rhs = lhs * rhs"
| "ApplyReduce lt FLUME_REDUCE_MAX lhs rhs = (if lt lhs rhs then rhs else lhs)"
| "ApplyReduce lt FLUME_REDUCE_MIN lhs rhs = (if lt rhs lhs then rhs else lhs)"
| "ApplyReduce lt (FLUME_REDUCE_RAW n) lhs rhs = lhs"

definition signed_less :: "'a::len word \<Rightarrow> 'a word \<Rightarrow> bool" where
  "signed_less a b \<longleftrightarrow> sint a < sint b"

definition unsigned_less :: "'a::len word \<Rightarrow> 'a word \<Rightarrow> bool" where
  "unsigned_less a b \<longleftrightarrow> a < b"

text \<open>Floating-point reduction of two values of 4 or 8 bytes.\<close>

type_synonym fp_arith = "nat \<Rightarrow> flume_reduce_op \<Rightarrow> bytes \<Rightarrow> bytes \<Rightarrow> bytes"

section \<open>Pending collectives\<close>

datatype SimCollectiveKind = kAllReduce | kAllGather

record SimCollectiveKey =
  ck_comm_name :: bytes
  ck_rank_size :: u32
  ck_seq :: u64
  ck_kind :: SimCollectiveKind

definition SimCollectiveKey_less :: "SimCollectiveKey \<Rightarrow> SimCollectiveKey \<Rightarrow> bool" where
  "SimCollectiveKey_less a b =
    (if ck_comm_name a \<noteq> ck_comm_name b then string_less (ck_comm_name a) (ck_comm_name b)
     else if ck_rank_size a \<noteq> ck_rank_size b then ck_rank_size a < ck_rank_size b
     else if ck_seq a \<noteq> ck_seq b then ck_seq a < ck_seq b
     else ck_kind a = kAllReduce \<and> ck_kind b = kAllGather)"

record PendingSimCollective =
  pc_kind :: SimCollectiveKind
  pc_rank_size :: u32
  pc_count :: u64
  pc_data_type :: flume_data_type
  pc_reduce_op :: flume_reduce_op
  pc_input_bytes :: nat
  pc_output_bytes :: nat
  pc_arrivals :: nat
  pc_arrived :: "bool list"
  pc_payloads :: "bytes list"
  pc_dsts :: "nat list"
  pc_dst_offsets :: "nat list"
  pc_ios :: "nat list"

type_synonym coll_table = "SimCollectiveKey \<rightharpoonup> PendingSimCollective"

definition SimReduceTyped ::
    "(bytes \<Rightarrow> nat \<Rightarrow> 't) \<Rightarrow> (bytes \<Rightarrow> nat \<Rightarrow> 't \<Rightarrow> bytes) \<Rightarrow> ('t \<Rightarrow> 't \<Rightarrow> 't) \<Rightarrow> PendingSimCollective \<Rightarrow> bytes" where
  "SimReduceTyped rd wr red p =
    fold (\<lambda>i output.
        let acc = fold (\<lambda>rank acc. red acc (rd (pc_payloads p ! rank) i)) [1..<unat (pc_rank_size p)]
              (rd (pc_payloads p ! 0) i)
        in wr output i acc)
      [0..<unat (pc_count p)] (replicate (pc_input_bytes p) 0)"

text \<open>The reduction at an integer type and at a floating-point type of \<open>n\<close> bytes.\<close>

definition reduce_int :: "('a::len word \<Rightarrow> 'a word \<Rightarrow> bool) \<Rightarrow> PendingSimCollective \<Rightarrow> bytes" where
  "reduce_int lt p = SimReduceTyped ReadValue WriteValue (ApplyReduce lt (pc_reduce_op p)) p"

definition reduce_fp :: "fp_arith \<Rightarrow> nat \<Rightarrow> PendingSimCollective \<Rightarrow> bytes" where
  "reduce_fp fp n p = SimReduceTyped (\<lambda>payload i. bslice (i * n) n payload)
    (\<lambda>payload i v. overwrite (i * n) v payload) (fp n (pc_reduce_op p)) p"

fun SimReducePayloads :: "fp_arith \<Rightarrow> PendingSimCollective \<Rightarrow> string + bytes" where
  "SimReducePayloads fp p =
    (if pc_rank_size p = 1 then Inr (pc_payloads p ! 0)
     else case pc_data_type p of
       FLUME_DTYPE_INT8 \<Rightarrow> Inr (reduce_int (signed_less :: 8 word \<Rightarrow> _) p)
     | FLUME_DTYPE_UINT8 \<Rightarrow> Inr (reduce_int (unsigned_less :: 8 word \<Rightarrow> _) p)
     | FLUME_DTYPE_INT16 \<Rightarrow> Inr (reduce_int (signed_less :: 16 word \<Rightarrow> _) p)
     | FLUME_DTYPE_UINT16 \<Rightarrow> Inr (reduce_int (unsigned_less :: 16 word \<Rightarrow> _) p)
     | FLUME_DTYPE_INT32 \<Rightarrow> Inr (reduce_int (signed_less :: 32 word \<Rightarrow> _) p)
     | FLUME_DTYPE_UINT32 \<Rightarrow> Inr (reduce_int (unsigned_less :: 32 word \<Rightarrow> _) p)
     | FLUME_DTYPE_INT64 \<Rightarrow> Inr (reduce_int (signed_less :: 64 word \<Rightarrow> _) p)
     | FLUME_DTYPE_UINT64 \<Rightarrow> Inr (reduce_int (unsigned_less :: 64 word \<Rightarrow> _) p)
     | FLUME_DTYPE_FP32 \<Rightarrow> Inr (reduce_fp fp 4 p)
     | FLUME_DTYPE_FP64 \<Rightarrow> Inr (reduce_fp fp 8 p)
     | FLUME_DTYPE_FP16 \<Rightarrow>
         Inl ''sim allreduce for fp16/bfp16 with more than one rank is not implemented''
     | FLUME_DTYPE_BFP16 \<Rightarrow>
         Inl ''sim allreduce for fp16/bfp16 with more than one rank is not implemented''
     | FLUME_DTYPE_RAW n \<Rightarrow> Inl ''unsupported sim allreduce data type'')"

declare SimReducePayloads.simps [simp del]

definition fail_rank :: "PendingSimCollective \<Rightarrow> flume_status \<Rightarrow> bytes \<Rightarrow> nat \<Rightarrow> heap \<Rightarrow> heap" where
  "fail_rank p status error rank h =
    (if pc_ios p ! rank \<noteq> 0
     then CompletePendingIo (pc_ios p ! rank) status 0 0 error
       (ReleasePendingBuffer (pc_dsts p ! rank) h)
     else h)"

definition FailPendingSimCollective ::
    "PendingSimCollective \<Rightarrow> flume_status \<Rightarrow> bytes \<Rightarrow> heap \<Rightarrow> heap" where
  "FailPendingSimCollective p status error h =
    fold (fail_rank p status error) [0..<unat (pc_rank_size p)] h"

definition deliver_rank :: "PendingSimCollective \<Rightarrow> bytes \<Rightarrow> nat \<Rightarrow> heap \<Rightarrow> heap" where
  "deliver_rank p output rank h =
    (let dst = pc_dsts p ! rank; offset = pc_dst_offsets p ! rank;
         h = buffer_write dst offset output h;
         checksum = Checksum32 (buffer_read h dst offset (length output));
         h = ReleasePendingBuffer dst h
     in CompletePendingIo (pc_ios p ! rank) FLUME_OK (length output) checksum [] h)"

definition gather_output :: "PendingSimCollective \<Rightarrow> bytes" where
  "gather_output p =
    fold (\<lambda>rank output. overwrite (rank * pc_input_bytes p)
        (take (pc_input_bytes p) (pc_payloads p ! rank)) output)
      [0..<unat (pc_rank_size p)] (replicate (pc_output_bytes p) 0)"

definition CompletePendingSimCollective ::
    "fp_arith \<Rightarrow> PendingSimCollective \<Rightarrow> heap \<Rightarrow> string + heap" where
  "CompletePendingSimCollective fp p h =
    (case pc_kind p of
       kAllReduce \<Rightarrow>
         (case SimReducePayloads fp p of Inl error \<Rightarrow> Inl error
          | Inr output \<Rightarrow> Inr (fold (deliver_rank p output) [0..<unat (pc_rank_size p)] h))
     | kAllGather \<Rightarrow> Inr (fold (deliver_rank p (gather_output p)) [0..<unat (pc_rank_size p)] h))"

definition InitPendingSimCollective ::
    "SimCollectiveKind \<Rightarrow> u32 \<Rightarrow> u64 \<Rightarrow> flume_data_type \<Rightarrow> flume_reduce_op \<Rightarrow> nat \<Rightarrow> nat \<Rightarrow> PendingSimCollective" where
  "InitPendingSimCollective kind rank_size count data_type reduce_op input_bytes output_bytes =
    \<lparr>pc_kind = kind, pc_rank_size = rank_size, pc_count = count, pc_data_type = data_type,
     pc_reduce_op = reduce_op, pc_input_bytes = input_bytes, pc_output_bytes = output_bytes,
     pc_arrivals = 0, pc_arrived = replicate (unat rank_size) False,
     pc_payloads = replicate (unat rank_size) [], pc_dsts = replicate (unat rank_size) 0,
     pc_dst_offsets = replicate (unat rank_size) 0, pc_ios = replicate (unat rank_size) 0\<rparr>"

definition PendingMatches ::
    "PendingSimCollective \<Rightarrow> SimCollectiveKind \<Rightarrow> u64 \<Rightarrow> flume_data_type \<Rightarrow> flume_reduce_op \<Rightarrow> nat \<Rightarrow> nat \<Rightarrow> bool" where
  "PendingMatches p kind count data_type reduce_op input_bytes output_bytes \<longleftrightarrow>
    pc_kind p = kind \<and> pc_count p = count \<and> pc_data_type p = data_type \<and> pc_reduce_op p = reduce_op \<and>
    pc_input_bytes p = input_bytes \<and> pc_output_bytes p = output_bytes"

section \<open>Submission\<close>

text \<open>A rank's contribution is stored in its slot of the vectors.\<close>

definition arrive :: "nat \<Rightarrow> bytes \<Rightarrow> nat \<Rightarrow> nat \<Rightarrow> nat \<Rightarrow> PendingSimCollective \<Rightarrow> PendingSimCollective" where
  "arrive rank payload dst dst_offset io p =
    p\<lparr>pc_arrived := (pc_arrived p)[rank := True], pc_payloads := (pc_payloads p)[rank := payload],
      pc_dsts := (pc_dsts p)[rank := dst], pc_dst_offsets := (pc_dst_offsets p)[rank := dst_offset],
      pc_ios := (pc_ios p)[rank := io], pc_arrivals := pc_arrivals p + 1\<rparr>"

text \<open>The critical section of the table's mutex.\<close>

definition coll_publish ::
    "fp_arith \<Rightarrow> SimCollectiveKey \<Rightarrow> u32 \<Rightarrow> u64 \<Rightarrow> flume_data_type \<Rightarrow> flume_reduce_op \<Rightarrow> nat \<Rightarrow> nat \<Rightarrow> bytes \<Rightarrow>
     nat \<Rightarrow> nat \<Rightarrow> nat \<Rightarrow> heap \<times> coll_table \<Rightarrow> heap \<times> coll_table" where
  "coll_publish fp key rank count data_type reduce_op input_bytes output_bytes payload dst dst_offset io =
    (\<lambda>(h, m).
      let p = (case m key of
                 None \<Rightarrow> InitPendingSimCollective (ck_kind key) (ck_rank_size key) count data_type
                   reduce_op input_bytes output_bytes
               | Some p \<Rightarrow> p);
          reject = (\<lambda>error. (CompleteIo io FLUME_ERR_INVALID_ARGUMENT 0 0 error
              (FailPendingSimCollective p FLUME_ERR_INVALID_ARGUMENT error h), m(key := None)))
      in if \<not> PendingMatches p (ck_kind key) count data_type reduce_op input_bytes output_bytes
         then reject (cstr ''sim collective parameters do not match prior rank submission'')
         else if rank \<ge> pc_rank_size p \<or> pc_arrived p ! unat rank
         then reject (cstr ''duplicate or invalid sim collective rank submission'')
         else
           let h = RetainPendingIo io (RetainPendingBuffer dst h);
               p = arrive (unat rank) payload dst dst_offset io p
           in if pc_arrivals p = unat (pc_rank_size p) then
                ((case CompletePendingSimCollective fp p h of
                    Inl error \<Rightarrow> FailPendingSimCollective p FLUME_ERR_UNSUPPORTED (cstr error) h
                  | Inr h \<Rightarrow> h), m(key := None))
              else (h, m(key \<mapsto> p)))"

definition SubmitSimCollective ::
    "fp_arith \<Rightarrow> nat \<Rightarrow> SimCollectiveKind \<Rightarrow> nat \<Rightarrow> nat \<Rightarrow> nat \<Rightarrow> nat \<Rightarrow> u64 \<Rightarrow> flume_data_type \<Rightarrow> flume_reduce_op \<Rightarrow>
     heap \<times> coll_table \<Rightarrow> (flume_status \<times> nat) \<times> heap \<times> coll_table" where
  "SubmitSimCollective fp client kind dst dst_offset src src_offset count data_type reduce_op = (\<lambda>(h, m).
    let cl = client_at h client; invalid = ((FLUME_ERR_INVALID_ARGUMENT, 0), h, m) in
    if \<not> cl_sim_comm_attached cl \<or> cl_rank_size cl = 0 then
      (case MakeIo FLUME_ERR_UNSUPPORTED 0 0
          (cstr ''sim collective requires flume_attach_sim_comm'') h of
         (io, h) \<Rightarrow> ((FLUME_OK, io), h, m))
    else if kind = kAllReduce \<and> \<not> IsSupportedReduceOp reduce_op then invalid
    else case CheckedBytes count data_type of None \<Rightarrow> invalid | Some input_bytes \<Rightarrow>
      case (if kind = kAllGather then CheckedMul input_bytes (unat (cl_rank_size cl)) else Some input_bytes) of
        None \<Rightarrow> invalid
      | Some output_bytes \<Rightarrow>
        if \<not> ValidateRange h src src_offset input_bytes \<or> \<not> ValidateRange h dst dst_offset output_bytes
        then invalid
        else if \<not> IsSimBufferType (bf_type (buffer_at h src)) \<or> \<not> IsSimBufferType (bf_type (buffer_at h dst))
        then
          (case MakeIo FLUME_ERR_UNSUPPORTED 0 0
              (cstr ''sim collective requires simulated HBM buffers'') h of
             (io, h) \<Rightarrow> ((FLUME_OK, io), h, m))
        else
          let seq = (if kind = kAllReduce then cl_allreduce_seq cl else cl_allgather_seq cl);
              h = upd_client client (\<lambda>cl. if kind = kAllReduce
                    then cl\<lparr>cl_allreduce_seq := cl_allreduce_seq cl + 1\<rparr>
                    else cl\<lparr>cl_allgather_seq := cl_allgather_seq cl + 1\<rparr>) h;
              payload = buffer_read h src src_offset input_bytes
          in case MakePendingIo h of (io, h) \<Rightarrow>
            ((FLUME_OK, io),
             coll_publish fp \<lparr>ck_comm_name = cl_sim_comm_name cl, ck_rank_size = cl_rank_size cl,
                 ck_seq = seq, ck_kind = kind\<rparr>
               (cl_rank cl) count data_type reduce_op input_bytes output_bytes payload dst dst_offset io
               (h, m)))"

section \<open>Collective registration of symmetric memory\<close>

record SimA3RegistrationKey =
  ak_comm_name :: bytes
  ak_rank_size :: u32
  ak_seq :: u64

definition SimA3RegistrationKey_less :: "SimA3RegistrationKey \<Rightarrow> SimA3RegistrationKey \<Rightarrow> bool" where
  "SimA3RegistrationKey_less a b =
    (if ak_comm_name a \<noteq> ak_comm_name b then string_less (ak_comm_name a) (ak_comm_name b)
     else if ak_rank_size a \<noteq> ak_rank_size b then ak_rank_size a < ak_rank_size b
     else ak_seq a < ak_seq b)"

record PendingSimA3Registration =
  pa_rank_size :: u32
  pa_offset :: nat
  pa_len :: nat
  pa_arrivals :: nat
  pa_arrived :: "bool list"

type_synonym a3_table = "SimA3RegistrationKey \<rightharpoonup> PendingSimA3Registration"

definition SubmitSimA3Registration ::
    "bytes \<Rightarrow> u32 \<Rightarrow> u32 \<Rightarrow> u64 \<Rightarrow> nat \<Rightarrow> nat \<Rightarrow> a3_table \<Rightarrow> flume_status \<times> a3_table" where
  "SubmitSimA3Registration comm_name rank rank_size seq offset len m =
    (let key = \<lparr>ak_comm_name = comm_name, ak_rank_size = rank_size, ak_seq = seq\<rparr>;
         p = (case m key of
                None \<Rightarrow> \<lparr>pa_rank_size = rank_size, pa_offset = offset, pa_len = len, pa_arrivals = 0,
                         pa_arrived = replicate (unat rank_size) False\<rparr>
              | Some p \<Rightarrow> p)
     in if rank \<ge> pa_rank_size p \<or> pa_arrived p ! unat rank \<or> pa_offset p \<noteq> offset \<or> pa_len p \<noteq> len
        then (FLUME_ERR_INVALID_ARGUMENT, m(key := None))
        else
          let p = p\<lparr>pa_arrived := (pa_arrived p)[unat rank := True], pa_arrivals := pa_arrivals p + 1\<rparr>
          in if pa_arrivals p = unat (pa_rank_size p) then (FLUME_OK, m(key := None))
             else (FLUME_OK, m(key \<mapsto> p)))"

section \<open>References held by a pending collective\<close>

definition rank_bufs :: "PendingSimCollective \<Rightarrow> nat \<Rightarrow> nat \<Rightarrow> int" where
  "rank_bufs p b r = (if pc_ios p ! r \<noteq> 0 then of_bool (b = pc_dsts p ! r) else 0)"

definition rank_ios :: "PendingSimCollective \<Rightarrow> nat \<Rightarrow> nat \<Rightarrow> int" where
  "rank_ios p i r = (if pc_ios p ! r \<noteq> 0 then of_bool (i = pc_ios p ! r) else 0)"

definition coll_bufs :: "nat \<Rightarrow> PendingSimCollective \<Rightarrow> int" where
  "coll_bufs b p = sum_list (map (rank_bufs p b) [0..<unat (pc_rank_size p)])"

definition coll_ios :: "nat \<Rightarrow> PendingSimCollective \<Rightarrow> int" where
  "coll_ios i p = sum_list (map (rank_ios p i) [0..<unat (pc_rank_size p)])"

lemma rank_refs_nonneg [simp]: "0 \<le> rank_bufs p b r" "0 \<le> rank_ios p i r"
  by (simp_all add: rank_bufs_def rank_ios_def)

lemma coll_refs_nonneg [simp]: "0 \<le> coll_bufs b p" "0 \<le> coll_ios i p"
  by (auto simp: coll_bufs_def coll_ios_def intro!: sum_list_nonneg)

lemma ledger_fail_ranks:
  assumes "ledger (\<lambda>b. R b + sum_list (map (rank_bufs p b) rs)) (\<lambda>i. S i + sum_list (map (rank_ios p i) rs)) F h"
    "\<And>b. 0 \<le> R b" "\<And>i. 0 \<le> S i"
  shows "ledger R S F (fold (fail_rank p st e) rs h)"
  using assms
proof (induction rs arbitrary: h)
  case (Cons r rs)
  let ?R = "\<lambda>b. R b + sum_list (map (rank_bufs p b) rs)" and ?S = "\<lambda>i. S i + sum_list (map (rank_ios p i) rs)"
  have pos: "0 \<le> ?R b" "0 \<le> ?S i" for b i
    using Cons.prems(2) [of b] Cons.prems(3) [of i] by (auto intro!: add_nonneg_nonneg sum_list_nonneg)
  have l: "ledger (\<lambda>b. ?R b + rank_bufs p b r) (\<lambda>i. ?S i + rank_ios p i r) F h"
    using Cons.prems(1) by (simp add: ac_simps)
  have "ledger ?R ?S F (fail_rank p st e r h)"
  proof (cases "pc_ios p ! r = 0")
    case True
    then show ?thesis using l by (simp add: rank_bufs_def rank_ios_def fail_rank_def)
  next
    case False
    then have "ledger (\<lambda>b. ?R b + of_bool (b = pc_dsts p ! r)) (\<lambda>i. ?S i + of_bool (i = pc_ios p ! r)) F h"
      using l by (simp add: rank_bufs_def rank_ios_def)
    from ledger_drop_io [OF ledger_drop_buffer [OF this pos(1)] pos(2)] show ?thesis
      using False by (simp add: fail_rank_def)
  qed
  from Cons.IH [OF this Cons.prems(2,3)] show ?case by simp
qed simp

lemma ledger_deliver_ranks:
  assumes "ledger (\<lambda>b. R b + sum_list (map (rank_bufs p b) rs)) (\<lambda>i. S i + sum_list (map (rank_ios p i) rs)) F h"
    "\<And>b. 0 \<le> R b" "\<And>i. 0 \<le> S i" "\<forall>r\<in>set rs. pc_ios p ! r \<noteq> 0"
  shows "ledger R S F (fold (deliver_rank p out) rs h)"
  using assms
proof (induction rs arbitrary: h)
  case (Cons r rs)
  let ?R = "\<lambda>b. R b + sum_list (map (rank_bufs p b) rs)" and ?S = "\<lambda>i. S i + sum_list (map (rank_ios p i) rs)"
  have pos: "0 \<le> ?R b" "0 \<le> ?S i" for b i
    using Cons.prems(2) [of b] Cons.prems(3) [of i] by (auto intro!: add_nonneg_nonneg sum_list_nonneg)
  have "rank_bufs p b r = of_bool (b = pc_dsts p ! r)" "rank_ios p i r = of_bool (i = pc_ios p ! r)" for b i
    using Cons.prems(4) by (simp_all add: rank_bufs_def rank_ios_def)
  then have "ledger (\<lambda>b. ?R b + of_bool (b = pc_dsts p ! r)) (\<lambda>i. ?S i + of_bool (i = pc_ios p ! r)) F h"
    using Cons.prems(1) by (simp add: ac_simps)
  from ledger_drop_io [OF ledger_drop_buffer [OF ledger_buffer_write [OF this] pos(1)] pos(2)]
  have "ledger ?R ?S F (deliver_rank p out r h)" by (simp add: deliver_rank_def Let_def)
  from Cons.IH [OF this Cons.prems(2,3)] Cons.prems(4) show ?case by simp
qed simp

lemma same_objects_ranks:
  "same_objects h0 (fold (fail_rank p st e) rs h) = same_objects h0 h"
  "same_objects h0 (fold (deliver_rank p out) rs h) = same_objects h0 h"
  by (induction rs arbitrary: h) (simp_all add: fail_rank_def deliver_rank_def Let_def)

section \<open>The invariant of the table\<close>

definition coll_ok :: "heap \<Rightarrow> PendingSimCollective \<Rightarrow> bool" where
  "coll_ok h p \<longleftrightarrow> (let n = unat (pc_rank_size p) in
    0 < n \<and> length (pc_arrived p) = n \<and> length (pc_payloads p) = n \<and> length (pc_dsts p) = n \<and>
    length (pc_dst_offsets p) = n \<and> length (pc_ios p) = n \<and>
    pc_arrivals p = card {r. r < n \<and> pc_arrived p ! r} \<and>
    CheckedBytes (pc_count p) (pc_data_type p) = Some (pc_input_bytes p) \<and>
    pc_output_bytes p = (if pc_kind p = kAllGather then pc_input_bytes p * n else pc_input_bytes p) \<and>
    (\<forall>r<n. (pc_arrived p ! r \<longleftrightarrow> pc_ios p ! r \<noteq> 0) \<and>
      (pc_arrived p ! r \<longrightarrow> length (pc_payloads p ! r) = pc_input_bytes p \<and> hp_buffers h (pc_dsts p ! r) \<noteq> None \<and>
        ValidateRange h (pc_dsts p ! r) (pc_dst_offsets p ! r) (pc_output_bytes p))))"

definition coll_table_ok :: "heap \<Rightarrow> coll_table \<Rightarrow> bool" where
  "coll_table_ok h m \<longleftrightarrow> finite (dom m) \<and>
    (\<forall>k p. m k = Some p \<longrightarrow> coll_ok h p \<and> pc_arrivals p < unat (ck_rank_size k) \<and>
      pc_kind p = ck_kind k \<and> pc_rank_size p = ck_rank_size k)"

abbreviation coll_ledger :: "(nat \<Rightarrow> int) \<Rightarrow> (nat \<Rightarrow> int) \<Rightarrow> nat set \<Rightarrow> coll_table \<Rightarrow> heap \<Rightarrow> bool" where
  "coll_ledger rb ri F m h \<equiv>
    ledger (\<lambda>b. rb b + total_refs (coll_bufs b) m) (\<lambda>i. ri i + total_refs (coll_ios i) m) F h"

lemma coll_ok_cong:
  assumes "coll_ok h p" "\<And>b. shape h' b = shape h b"
  shows "coll_ok h' p"
  using assms(1) shape_live [OF assms(2)] shape_fields(1) [OF assms(2)]
  by (auto simp: coll_ok_def ValidateRange_def Let_def)

lemma coll_table_ok_cong:
  "coll_table_ok h m \<Longrightarrow> (\<And>b. shape h' b = shape h b) \<Longrightarrow> coll_table_ok h' m"
  unfolding coll_table_ok_def using coll_ok_cong by blast

lemma coll_table_ok_remove: "coll_table_ok h m \<Longrightarrow> coll_table_ok h (m(key := None))"
  unfolding coll_table_ok_def by (metis dom_fun_upd finite_Diff fun_upd_apply option.distinct(1))

lemma init_ok:
  assumes "CheckedBytes count t = Some n" "rs \<noteq> 0" "ob = (if kind = kAllGather then n * unat rs else n)"
  shows "coll_ok h (InitPendingSimCollective kind rs count t op n ob)"
  using assms by (auto simp: coll_ok_def InitPendingSimCollective_def Let_def unat_gt_0)

lemma sum_list_zeros: "(\<And>r. r \<in> set rs \<Longrightarrow> f r = 0) \<Longrightarrow> sum_list (map f rs) = (0 :: int)"
  by (induction rs) auto

lemma init_refs [simp]:
  "coll_bufs b (InitPendingSimCollective kind rs count t op n ob) = 0"
  "coll_ios i (InitPendingSimCollective kind rs count t op n ob) = 0"
  by (auto simp: coll_bufs_def coll_ios_def rank_bufs_def rank_ios_def InitPendingSimCollective_def
    intro!: sum_list_zeros)

section \<open>Arrival of a rank\<close>

lemma sum_list_upd:
  assumes "r0 < n" "\<And>r. r < n \<Longrightarrow> r \<noteq> r0 \<Longrightarrow> g r = f r"
  shows "sum_list (map g [0..<n]) = sum_list (map f [0..<n]) - f r0 + (g r0 :: int)"
proof -
  have "sum_list (map g [0..<n]) = g r0 + sum g ({0..<n} - {r0})"
    "sum_list (map f [0..<n]) = f r0 + sum f ({0..<n} - {r0})"
    using assms(1) by (simp_all add: interv_sum_list_conv_sum_set_nat sum.remove [of _ r0])
  moreover have "sum g ({0..<n} - {r0}) = sum f ({0..<n} - {r0})"
    by (rule sum.cong) (use assms(2) in auto)
  ultimately show ?thesis by simp
qed

lemma arrive_simps [simp]:
  "pc_kind (arrive r d b off i p) = pc_kind p" "pc_rank_size (arrive r d b off i p) = pc_rank_size p"
  "pc_count (arrive r d b off i p) = pc_count p" "pc_data_type (arrive r d b off i p) = pc_data_type p"
  "pc_reduce_op (arrive r d b off i p) = pc_reduce_op p"
  "pc_input_bytes (arrive r d b off i p) = pc_input_bytes p"
  "pc_output_bytes (arrive r d b off i p) = pc_output_bytes p"
  "pc_arrivals (arrive r d b off i p) = pc_arrivals p + 1"
  by (simp_all add: arrive_def)

lemma arrive_refs:
  assumes ok: "coll_ok h p" and r: "r0 < unat (pc_rank_size p)" "\<not> pc_arrived p ! r0" and io: "io \<noteq> 0"
  shows "coll_bufs b (arrive r0 d dst off io p) = coll_bufs b p + of_bool (b = dst)"
    and "coll_ios i (arrive r0 d dst off io p) = coll_ios i p + of_bool (i = io)"
proof -
  have len: "length (pc_ios p) = unat (pc_rank_size p)" "length (pc_dsts p) = unat (pc_rank_size p)"
    "pc_ios p ! r0 = 0" using ok r by (auto simp: coll_ok_def Let_def)
  have other: "rank_bufs (arrive r0 d dst off io p) b r = rank_bufs p b r"
    "rank_ios (arrive r0 d dst off io p) i r = rank_ios p i r" if "r \<noteq> r0" for r
    using that by (simp_all add: rank_bufs_def rank_ios_def arrive_def)
  have own: "rank_bufs (arrive r0 d dst off io p) b r0 = of_bool (b = dst)" "rank_bufs p b r0 = 0"
    "rank_ios (arrive r0 d dst off io p) i r0 = of_bool (i = io)" "rank_ios p i r0 = 0"
    using len r io by (simp_all add: rank_bufs_def rank_ios_def arrive_def)
  show "coll_bufs b (arrive r0 d dst off io p) = coll_bufs b p + of_bool (b = dst)"
    using sum_list_upd [OF r(1) other(1)] own by (simp add: coll_bufs_def)
  show "coll_ios i (arrive r0 d dst off io p) = coll_ios i p + of_bool (i = io)"
    using sum_list_upd [OF r(1) other(2)] own by (simp add: coll_ios_def)
qed

lemma arrive_ok:
  assumes ok: "coll_ok h p" and r: "r0 < unat (pc_rank_size p)" "\<not> pc_arrived p ! r0" and io: "io \<noteq> 0"
    and d: "length d = pc_input_bytes p"
    and dst: "hp_buffers h dst \<noteq> None" "ValidateRange h dst off (pc_output_bytes p)"
  shows "coll_ok h (arrive r0 d dst off io p)"
proof -
  let ?n = "unat (pc_rank_size p)"
  have "{r. r < ?n \<and> (pc_arrived p)[r0 := True] ! r} = insert r0 {r. r < ?n \<and> pc_arrived p ! r}"
    using ok r by (auto simp: coll_ok_def Let_def nth_list_update)
  then have "card {r. r < ?n \<and> (pc_arrived p)[r0 := True] ! r} = Suc (card {r. r < ?n \<and> pc_arrived p ! r})"
    using r by simp
  then show ?thesis using assms by (auto simp: coll_ok_def Let_def arrive_def nth_list_update)
qed

lemma all_arrived:
  assumes ok: "coll_ok h p" and full: "pc_arrivals p = unat (pc_rank_size p)" and r: "r < unat (pc_rank_size p)"
  shows "pc_arrived p ! r" and "pc_ios p ! r \<noteq> 0"
proof -
  let ?A = "{r. r < unat (pc_rank_size p) \<and> pc_arrived p ! r}"
  have "card ?A = card {..<unat (pc_rank_size p)}" using ok full by (simp add: coll_ok_def Let_def)
  then have "?A = {..<unat (pc_rank_size p)}" by (intro card_subset_eq) auto
  then show "pc_arrived p ! r" using r by auto
  with ok r show "pc_ios p ! r \<noteq> 0" by (auto simp: coll_ok_def Let_def)
qed

section \<open>The critical section keeps the accounts\<close>

lemma coll_table_split:
  assumes "coll_table_ok h m"
  shows "total_refs (coll_bufs b) m = total_refs (coll_bufs b) (m(key := None)) + entry (coll_bufs b) (m key)"
    and "total_refs (coll_ios i) m = total_refs (coll_ios i) (m(key := None)) + entry (coll_ios i) (m key)"
  using assms total_remove [of m _ key] by (simp_all add: coll_table_ok_def)

lemma same_objects_collective [simp]:
  "same_objects h (FailPendingSimCollective p st e h') = same_objects h h'"
  by (simp add: FailPendingSimCollective_def same_objects_ranks)

lemma coll_reject:
  assumes l: "ledger (\<lambda>b. rb b + total_refs (coll_bufs b) (m(key := None)) + coll_bufs b p)
      (\<lambda>i. ri i + total_refs (coll_ios i) (m(key := None)) + coll_ios i p) F h"
    and pos: "\<And>b. 0 \<le> rb b" "\<And>i. 0 \<le> ri i" and tab: "coll_table_ok h m"
  shows "coll_ledger rb ri F (m(key := None)) (FailPendingSimCollective p st e h) \<and>
    coll_table_ok (FailPendingSimCollective p st e h) (m(key := None))"
proof
  show "coll_ledger rb ri F (m(key := None)) (FailPendingSimCollective p st e h)"
    unfolding FailPendingSimCollective_def
    by (rule ledger_fail_ranks) (use l pos in \<open>auto simp: coll_bufs_def coll_ios_def intro!: add_nonneg_nonneg total_nonneg sum_list_nonneg\<close>)
  show "coll_table_ok (FailPendingSimCollective p st e h) (m(key := None))"
    using coll_table_ok_cong [OF coll_table_ok_remove [OF tab]] same_objects_collective [of h p st e h]
    by (simp add: same_objects_def)
qed

lemma coll_complete:
  assumes l: "ledger (\<lambda>b. rb b + total_refs (coll_bufs b) (m(key := None)) + coll_bufs b p)
      (\<lambda>i. ri i + total_refs (coll_ios i) (m(key := None)) + coll_ios i p) F h"
    and pos: "\<And>b. 0 \<le> rb b" "\<And>i. 0 \<le> ri i" and tab: "coll_table_ok h m"
    and p: "coll_ok h p" "pc_arrivals p = unat (pc_rank_size p)"
    and res: "CompletePendingSimCollective fp p h = Inr h'"
  shows "coll_ledger rb ri F (m(key := None)) h' \<and> coll_table_ok h' (m(key := None)) \<and> same_objects h h'"
proof -
  obtain out where h': "h' = fold (deliver_rank p out) [0..<unat (pc_rank_size p)] h"
    using res by (auto simp: CompletePendingSimCollective_def split: SimCollectiveKind.splits sum.splits)
  have "coll_ledger rb ri F (m(key := None)) h'" unfolding h'
    by (rule ledger_deliver_ranks)
      (use l pos all_arrived(2) [OF p] in
        \<open>auto simp: coll_bufs_def coll_ios_def intro!: add_nonneg_nonneg total_nonneg sum_list_nonneg\<close>)
  moreover have "same_objects h h'" by (simp add: h' same_objects_ranks)
  ultimately show ?thesis
    using coll_table_ok_cong [OF coll_table_ok_remove [OF tab]] by (simp add: same_objects_def)
qed

text \<open>A rank that is accepted either waits, or completes or fails the whole collective.\<close>

lemma coll_accept:
  assumes l: "ledger (\<lambda>b. rb b + total_refs (coll_bufs b) (m(key := None)) + coll_bufs b p)
      (\<lambda>i. ri i + total_refs (coll_ios i) (m(key := None)) + coll_ios i p) (insert io F) h"
    and io: "io \<notin> F" and pos: "\<And>b. 0 \<le> rb b" "\<And>i. 0 \<le> ri i" and tab: "coll_table_ok h m"
    and p: "coll_ok h p" "pc_arrivals p < unat (pc_rank_size p)" "pc_kind p = ck_kind key" "pc_rank_size p = ck_rank_size key"
    and r: "r0 < unat (pc_rank_size p)" "\<not> pc_arrived p ! r0" and d: "length d = pc_input_bytes p"
    and dst: "hp_buffers h dst \<noteq> None" "ValidateRange h dst off (pc_output_bytes p)"
    and h1: "h1 = RetainPendingIo io (RetainPendingBuffer dst h)" and q: "q = arrive r0 d dst off io p"
    and res: "(h', m') = (if pc_arrivals q = unat (pc_rank_size q) then
        ((case CompletePendingSimCollective fp q h1 of
            Inl error \<Rightarrow> FailPendingSimCollective q FLUME_ERR_UNSUPPORTED (cstr error) h1 | Inr h2 \<Rightarrow> h2), m(key := None))
      else (h1, m(key \<mapsto> q)))"
  shows "coll_ledger rb ri F m' h' \<and> coll_table_ok h' m' \<and> same_objects h h'"
proof -
  have ion: "io \<noteq> 0" using ledger_null [OF l] by auto
  have so: "same_objects h h1" by (simp add: h1)
  have lq: "ledger (\<lambda>b. rb b + total_refs (coll_bufs b) (m(key := None)) + coll_bufs b q)
      (\<lambda>i. ri i + total_refs (coll_ios i) (m(key := None)) + coll_ios i q) F h1"
    using ledger_take_io [OF ledger_take_buffer [OF l dst(1)] io]
    by (simp add: h1 q arrive_refs [OF p(1) r ion] add.assoc)
  have okq: "coll_ok h1 q" and tab1: "coll_table_ok h1 m"
    using coll_ok_cong [OF arrive_ok [OF p(1) r ion d dst]] coll_table_ok_cong [OF tab] so
    by (simp_all add: q same_objects_def)
  show ?thesis
  proof (cases "pc_arrivals q = unat (pc_rank_size q)")
    case True
    show ?thesis
    proof (cases "CompletePendingSimCollective fp q h1")
      case (Inl e)
      then show ?thesis using True res coll_reject [OF lq pos tab1] so by auto
    next
      case (Inr h2)
      then show ?thesis using True res coll_complete [OF lq pos tab1 okq True Inr] same_objects_trans [OF so] by auto
    qed
  next
    case False
    have "finite (dom m)" using tab by (simp add: coll_table_ok_def)
    then have "total_refs w (m(key \<mapsto> q)) = total_refs w (m(key := None)) + w q" for w
      by (simp add: total_put total_remove)
    moreover have "pc_arrivals q < unat (pc_rank_size q)" using False p(2) by (simp add: q)
    then have "coll_table_ok h1 (m(key \<mapsto> q))"
      using okq tab1 p(3,4) unfolding coll_table_ok_def by (auto simp: q)
    moreover have "h' = h1" "m' = m(key \<mapsto> q)" using False res by (auto split: if_splits)
    ultimately show ?thesis using lq so by (simp add: add.assoc)
  qed
qed

lemma coll_publish_inv:
  assumes l: "coll_ledger rb ri (insert io F) m h" and io: "io \<notin> F"
    and pos: "\<And>b. 0 \<le> rb b" "\<And>i. 0 \<le> ri i" and tab: "coll_table_ok h m"
    and n: "CheckedBytes count t = Some n" "ck_rank_size key \<noteq> 0"
      "ob = (if ck_kind key = kAllGather then n * unat (ck_rank_size key) else n)"
    and d: "length payload = n" and dst: "hp_buffers h dst \<noteq> None" "ValidateRange h dst off ob"
    and res: "coll_publish fp key rank count t op n ob payload dst off io (h, m) = (h', m')"
  shows "coll_ledger rb ri F m' h' \<and> coll_table_ok h' m' \<and> same_objects h h'"
proof -
  define p where "p = (case m key of
      None \<Rightarrow> InitPendingSimCollective (ck_kind key) (ck_rank_size key) count t op n ob | Some p \<Rightarrow> p)"
  have p: "coll_ok h p" "pc_arrivals p < unat (pc_rank_size p)" "pc_kind p = ck_kind key"
      "pc_rank_size p = ck_rank_size key"
    using tab n init_ok [OF n, of h op]
    by (cases "m key"; simp add: p_def coll_table_ok_def InitPendingSimCollective_def unat_gt_0)+
  have "entry (coll_bufs b) (m key) = coll_bufs b p" "entry (coll_ios i) (m key) = coll_ios i p" for b i
    by (cases "m key"; simp add: p_def)+
  then have lp: "ledger (\<lambda>b. rb b + total_refs (coll_bufs b) (m(key := None)) + coll_bufs b p)
      (\<lambda>i. ri i + total_refs (coll_ios i) (m(key := None)) + coll_ios i p) (insert io F) h"
    using l unfolding coll_table_split [OF tab, where key = key] by (simp add: add.assoc)
  have reject: "coll_ledger rb ri F (m(key := None)) h2 \<and> coll_table_ok h2 (m(key := None)) \<and> same_objects h h2"
    if "h2 = CompleteIo io st 0 0 e (FailPendingSimCollective p st' e' h)" for h2 st e st' e'
    using coll_reject [OF lp pos tab, of st' e'] io that
    by (auto intro: ledger_finish_io coll_table_ok_cong simp: heap_simps)
  note res' = res [unfolded coll_publish_def Let_def prod.case, folded p_def]
  show ?thesis
  proof (cases "PendingMatches p (ck_kind key) count t op n ob \<and> rank < pc_rank_size p \<and> \<not> pc_arrived p ! unat rank")
    case True
    then have r: "unat rank < unat (pc_rank_size p)" by (simp add: word_less_nat_alt)
    have m: "pc_input_bytes p = n" "pc_output_bytes p = ob" using True by (simp_all add: PendingMatches_def)
    show ?thesis
    proof (rule coll_accept [OF lp io pos tab p r _ _ dst(1) _ refl refl, where d = payload and fp = fp])
      show "\<not> pc_arrived p ! unat rank" "length payload = pc_input_bytes p"
        "ValidateRange h dst off (pc_output_bytes p)" using True d m dst by simp_all
    next
      have "\<not> pc_rank_size p \<le> rank" using True by (simp add: not_le)
      with True show "(h', m') = (if pc_arrivals (arrive (unat rank) payload dst off io p) =
          unat (pc_rank_size (arrive (unat rank) payload dst off io p)) then
          ((case CompletePendingSimCollective fp (arrive (unat rank) payload dst off io p)
                (RetainPendingIo io (RetainPendingBuffer dst h)) of
              Inl error \<Rightarrow> FailPendingSimCollective (arrive (unat rank) payload dst off io p)
                FLUME_ERR_UNSUPPORTED (cstr error) (RetainPendingIo io (RetainPendingBuffer dst h))
            | Inr h2 \<Rightarrow> h2), m(key := None))
          else (RetainPendingIo io (RetainPendingBuffer dst h), m(key \<mapsto> arrive (unat rank) payload dst off io p)))"
        using res' by auto
    qed
  next
    case False
    then have "\<exists>st e. h' = CompleteIo io st 0 0 e (FailPendingSimCollective p st e h) \<and> m' = m(key := None)"
      using res' by (auto simp: not_less split: if_splits)
    then show ?thesis using reject by auto
  qed
qed

lemma coll_publish_grows:
  assumes tab: "coll_table_ok h m" and n: "CheckedBytes count t = Some n" "ck_rank_size key \<noteq> 0"
      "ob = (if ck_kind key = kAllGather then n * unat (ck_rank_size key) else n)" and io: "io \<noteq> 0"
    and res: "coll_publish fp key rank count t op n ob payload dst off io (h, m) = (h', m')"
  shows "grows coll_ios io m m'"
proof -
  have fin: "finite (dom m)" using tab by (simp add: coll_table_ok_def)
  define p where "p = (case m key of
      None \<Rightarrow> InitPendingSimCollective (ck_kind key) (ck_rank_size key) count t op n ob | Some p \<Rightarrow> p)"
  have p: "coll_ok h p" using tab init_ok [OF n, of h op] by (cases "m key") (auto simp: p_def coll_table_ok_def)
  have e: "entry (coll_ios i) (m key) = coll_ios i p" for i by (cases "m key") (simp_all add: p_def)
  have "m' = m(key := None) \<or> (unat rank < unat (pc_rank_size p) \<and> \<not> pc_arrived p ! unat rank \<and>
      m' = m(key \<mapsto> arrive (unat rank) payload dst off io p))"
    using res unfolding coll_publish_def Let_def prod.case p_def [symmetric]
    by (auto simp: word_less_nat_alt not_le split: if_splits)
  then show ?thesis
  proof (elim disjE conjE)
    assume "m' = m(key := None)"
    then show ?thesis using grows_remove [where w = coll_ios, OF fin] by simp
  next
    assume "unat rank < unat (pc_rank_size p)" "\<not> pc_arrived p ! unat rank"
      "m' = m(key \<mapsto> arrive (unat rank) payload dst off io p)"
    then show ?thesis using grows_put [where w = coll_ios, OF fin] e arrive_refs(2) [OF p _ _ io] by simp
  qed
qed

text \<open>A submission is rejected at once, answered with a completed handle, or published.\<close>

definition coll_outcome ::
    "fp_arith \<Rightarrow> SimCollectiveKind \<Rightarrow> nat \<Rightarrow> nat \<Rightarrow> u64 \<Rightarrow> flume_data_type \<Rightarrow> flume_reduce_op \<Rightarrow>
     heap \<times> coll_table \<Rightarrow> heap \<times> coll_table \<Rightarrow> bool" where
  "coll_outcome fp kind dst dst_offset count t op hm hm' \<longleftrightarrow>
    hm' = hm \<or> (\<exists>e. hm' = (snd (MakeIo FLUME_ERR_UNSUPPORTED 0 0 e (fst hm)), snd hm)) \<or>
    (\<exists>n ob key rank src src_offset c f. CheckedBytes count t = Some n \<and> ck_kind key = kind \<and> ck_rank_size key \<noteq> 0 \<and>
      ob = (if kind = kAllGather then n * unat (ck_rank_size key) else n) \<and> ValidateRange (fst hm) dst dst_offset ob \<and>
      hm' = coll_publish fp key rank count t op n ob (buffer_read (upd_client c f (fst hm)) src src_offset n)
        dst dst_offset (hp_next (fst hm)) (snd (MakePendingIo (upd_client c f (fst hm))), snd hm))"

lemma SubmitSimCollective_outcome:
  "coll_outcome fp kind dst dst_offset count t op hm
    (snd (SubmitSimCollective fp client kind dst dst_offset src src_offset count t op hm))"
proof (cases hm)
  case (Pair h m)
  let ?cl = "client_at h client"
  show ?thesis
  proof (cases "\<exists>n ob. \<not> (\<not> cl_sim_comm_attached ?cl \<or> cl_rank_size ?cl = 0) \<and>
      \<not> (kind = kAllReduce \<and> \<not> IsSupportedReduceOp op) \<and> CheckedBytes count t = Some n \<and>
      (if kind = kAllGather then CheckedMul n (unat (cl_rank_size ?cl)) else Some n) = Some ob \<and>
      \<not> (\<not> ValidateRange h src src_offset n \<or> \<not> ValidateRange h dst dst_offset ob) \<and>
      \<not> (\<not> IsSimBufferType (bf_type (buffer_at h src)) \<or> \<not> IsSimBufferType (bf_type (buffer_at h dst)))")
    case True
    then obtain n ob where c: "\<not> (\<not> cl_sim_comm_attached ?cl \<or> cl_rank_size ?cl = 0)"
      "\<not> (kind = kAllReduce \<and> \<not> IsSupportedReduceOp op)" "CheckedBytes count t = Some n"
      "(if kind = kAllGather then CheckedMul n (unat (cl_rank_size ?cl)) else Some n) = Some ob"
      "\<not> (\<not> ValidateRange h src src_offset n \<or> \<not> ValidateRange h dst dst_offset ob)"
      "\<not> (\<not> IsSimBufferType (bf_type (buffer_at h src)) \<or> \<not> IsSimBufferType (bf_type (buffer_at h dst)))" by auto
    have ob: "ob = (if kind = kAllGather then n * unat (cl_rank_size ?cl) else n)"
      using c(4) by (auto simp: CheckedMul_Some split: if_splits)
    show ?thesis
      unfolding Pair coll_outcome_def SubmitSimCollective_def Let_def prod.case fst_conv snd_conv
        case_MakePendingIo upd_client_fields(3) if_not_P [OF c(1)] if_not_P [OF c(2)] c(3,4) option.case
        if_not_P [OF c(5)] if_not_P [OF c(6)]
      by (rule disjI2, rule disjI2, (rule exI)+, intro conjI refl) (use c ob in auto)
  next
    case False
    let ?early = "\<lambda>r. r = hm \<or> (\<exists>e. r = (snd (MakeIo FLUME_ERR_UNSUPPORTED 0 0 e (fst hm)), snd hm))"
    have mk: "?early (snd (case MakeIo FLUME_ERR_UNSUPPORTED 0 0 e h of (io, h') \<Rightarrow> ((FLUME_OK, io), h', m)))" for e
      unfolding case_MakeIo by (auto simp: Pair)
    have inv: "?early (snd ((s :: flume_status, i :: nat), h, m))" for s i by (simp add: Pair)
    have "?early (snd (SubmitSimCollective fp client kind dst dst_offset src src_offset count t op (h, m)))"
    proof (cases "\<not> cl_sim_comm_attached ?cl \<or> cl_rank_size ?cl = 0")
      case True
      show ?thesis unfolding SubmitSimCollective_def Let_def prod.case if_P [OF True] by (rule mk)
    next
      case a: False
      show ?thesis
      proof (cases "kind = kAllReduce \<and> \<not> IsSupportedReduceOp op")
        case True
        show ?thesis unfolding SubmitSimCollective_def Let_def prod.case if_not_P [OF a] if_P [OF True] by (rule inv)
      next
        case b: False
        note sub = SubmitSimCollective_def Let_def prod.case if_not_P [OF a] if_not_P [OF b]
        show ?thesis
        proof (cases "CheckedBytes count t")
          case None
          show ?thesis unfolding sub None option.case by (rule inv)
        next
          case n: (Some n)
          show ?thesis
          proof (cases "if kind = kAllGather then CheckedMul n (unat (cl_rank_size ?cl)) else Some n")
            case None
            show ?thesis unfolding sub n None option.case by (rule inv)
          next
            case ob: (Some ob)
            show ?thesis
            proof (cases "\<not> ValidateRange h src src_offset n \<or> \<not> ValidateRange h dst dst_offset ob")
              case True
              show ?thesis unfolding sub n ob option.case if_P [OF True] by (rule inv)
            next
              case c: False
              have d: "\<not> IsSimBufferType (bf_type (buffer_at h src)) \<or> \<not> IsSimBufferType (bf_type (buffer_at h dst))"
                using False a b n ob c by blast
              show ?thesis unfolding sub n ob option.case if_not_P [OF c] if_P [OF d] by (rule mk)
            qed
          qed
        qed
      qed
    qed
    then show ?thesis unfolding coll_outcome_def Pair by blast
  qed
qed

lemma coll_outcome_inv:
  assumes l: "coll_ledger rb ri F m h" and pos: "\<And>b. 0 \<le> rb b" "\<And>i. 0 \<le> ri i" and tab: "coll_table_ok h m"
    and live: "hp_buffers h dst \<noteq> None"
    and res: "coll_outcome fp kind dst dst_offset count t op (h, m) (h', m')"
  shows "coll_ledger rb ri F m' h' \<and> coll_table_ok h' m' \<and> kept h h' \<and> grows coll_ios (hp_next h) m m'"
  using res unfolding coll_outcome_def fst_conv snd_conv
proof (elim disjE exE conjE)
  assume "(h', m') = (h, m)"
  then show ?thesis using l tab by simp
next
  fix e assume "(h', m') = (snd (MakeIo FLUME_ERR_UNSUPPORTED 0 0 e h), m)"
  moreover have "kept h (snd (MakeIo FLUME_ERR_UNSUPPORTED 0 0 e h))"
    unfolding MakeIo_def by (rule kept_alloc_io) (use l in \<open>simp_all add: ledger_def new_io_def\<close>)
  ultimately show ?thesis using ledger_make_io [OF l] coll_table_ok_cong [OF tab] by (simp add: heap_simps)
next
  fix n ob key rank src src_offset c f
  let ?h = "snd (MakePendingIo (upd_client c f h))"
  assume n: "CheckedBytes count t = Some n" "ck_kind key = kind" "ck_rank_size key \<noteq> 0"
    "ob = (if kind = kAllGather then n * unat (ck_rank_size key) else n)" "ValidateRange h dst dst_offset ob"
    and r: "(h', m') = coll_publish fp key rank count t op n ob (buffer_read (upd_client c f h) src src_offset n)
      dst dst_offset (hp_next h) (?h, m)"
  have sh: "shape ?h = shape h" by (simp add: heap_simps)
  have k: "kept h ?h" unfolding MakePendingIo_def
    by (rule kept_trans [OF kept_upd_client kept_alloc_io]) (use l in \<open>simp_all add: ledger_def heap_simps new_io_def\<close>)
  have l1: "coll_ledger rb ri (insert (hp_next h) F) m ?h"
    using ledger_make_pending [OF ledger_upd_client [OF l, of c f]] by (simp add: heap_simps)
  have tab1: "coll_table_ok ?h m" by (rule coll_table_ok_cong [OF tab]) (simp add: sh)
  have d: "hp_buffers ?h dst \<noteq> None" "ValidateRange ?h dst dst_offset ob"
    using live n(5) by (simp_all add: MakePendingIo_def heap_simps ValidateRange_def)
  have "coll_ledger rb ri F m' h' \<and> coll_table_ok h' m' \<and> same_objects ?h h'"
    by (rule coll_publish_inv [OF l1 _ pos tab1 n(1,3) _ _ d r [symmetric]])
      (use ledger_fresh [OF l] n in \<open>auto simp: buffer_read_def\<close>)
  moreover have "grows coll_ios (hp_next h) m m'"
    by (rule coll_publish_grows [OF tab1 n(1,3) _ _ r [symmetric]]) (use ledger_fresh [OF l] n in auto)
  ultimately show ?thesis using kept_trans [OF k kept_same_objects] by simp
qed

section \<open>The order of the keys\<close>

interpretation coll_keys: strict_order_keys SimCollectiveKey_less
proof unfold_locales
  show "\<not> SimCollectiveKey_less a a" for a by (simp add: SimCollectiveKey_less_def)
  show "SimCollectiveKey_less a b \<or> a = b \<or> SimCollectiveKey_less b a" for a b
    using string_less_total [of "ck_comm_name a" "ck_comm_name b"]
    by (cases a; cases b; cases "ck_kind a"; cases "ck_kind b") (auto simp: SimCollectiveKey_less_def)
  show "SimCollectiveKey_less a c" if "SimCollectiveKey_less a b" "SimCollectiveKey_less b c" for a b c
    using that string_less_trans [of "ck_comm_name a" "ck_comm_name b" "ck_comm_name c"]
      string_less_trans [of "ck_comm_name b" "ck_comm_name a" "ck_comm_name b"] string_less_irrefl
    by (auto simp: SimCollectiveKey_less_def split: if_splits)
qed

interpretation a3_keys: strict_order_keys SimA3RegistrationKey_less
proof unfold_locales
  show "\<not> SimA3RegistrationKey_less a a" for a by (simp add: SimA3RegistrationKey_less_def)
  show "SimA3RegistrationKey_less a b \<or> a = b \<or> SimA3RegistrationKey_less b a" for a b
    using string_less_total [of "ak_comm_name a" "ak_comm_name b"]
    by (cases a; cases b) (auto simp: SimA3RegistrationKey_less_def)
  show "SimA3RegistrationKey_less a c" if "SimA3RegistrationKey_less a b" "SimA3RegistrationKey_less b c" for a b c
    using that string_less_trans [of "ak_comm_name a" "ak_comm_name b" "ak_comm_name c"]
      string_less_trans [of "ak_comm_name b" "ak_comm_name a" "ak_comm_name b"] string_less_irrefl
    by (auto simp: SimA3RegistrationKey_less_def split: if_splits)
qed

section \<open>Collective registration\<close>

text \<open>The ranks \<open>rs\<close> register the same range one after the other: their statuses and the table.\<close>

definition a3_run ::
    "bytes \<Rightarrow> u32 \<Rightarrow> u64 \<Rightarrow> nat \<Rightarrow> nat \<Rightarrow> nat list \<Rightarrow> a3_table \<Rightarrow> flume_status list \<times> a3_table" where
  "a3_run name nranks seq offset len rs m =
    fold (\<lambda>r (sts, m). case SubmitSimA3Registration name (of_nat r) nranks seq offset len m of (st, m) \<Rightarrow> (sts @ [st], m))
      rs ([], m)"

definition a3_entry :: "u32 \<Rightarrow> nat \<Rightarrow> nat \<Rightarrow> nat list \<Rightarrow> PendingSimA3Registration" where
  "a3_entry nranks offset len rs = \<lparr>pa_rank_size = nranks, pa_offset = offset, pa_len = len, pa_arrivals = length rs,
    pa_arrived = map (\<lambda>r. r \<in> set rs) [0..<unat nranks]\<rparr>"

definition a3_key :: "bytes \<Rightarrow> u32 \<Rightarrow> u64 \<Rightarrow> SimA3RegistrationKey" where
  "a3_key name nranks seq = \<lparr>ak_comm_name = name, ak_rank_size = nranks, ak_seq = seq\<rparr>"

text \<open>The table while the ranks \<open>rs\<close> have registered.\<close>

definition a3_state :: "bytes \<Rightarrow> u32 \<Rightarrow> u64 \<Rightarrow> nat \<Rightarrow> nat \<Rightarrow> nat list \<Rightarrow> a3_table \<Rightarrow> a3_table" where
  "a3_state name nranks seq offset len rs m =
    (if rs = [] \<or> length rs = unat nranks then m else m(a3_key name nranks seq \<mapsto> a3_entry nranks offset len rs))"

lemma unat_of_rank: "r < unat (nranks :: u32) \<Longrightarrow> unat (of_nat r :: u32) = r"
  by (metis le_unat_uoi order_less_imp_le)

lemma a3_entry_of:
  assumes "m (a3_key name nranks seq) = None" "length rs < unat nranks"
  shows "(case a3_state name nranks seq offset len rs m (a3_key name nranks seq) of
      None \<Rightarrow> \<lparr>pa_rank_size = nranks, pa_offset = offset', pa_len = len', pa_arrivals = 0,
        pa_arrived = replicate (unat nranks) False\<rparr> | Some p \<Rightarrow> p) =
    (if rs = [] then a3_entry nranks offset' len' [] else a3_entry nranks offset len rs)"
  using assms by (auto simp: a3_state_def a3_entry_def map_replicate_const)

lemma a3_arrive:
  assumes "r < unat nranks" "length rs < unat nranks"
  shows "(a3_entry nranks offset len rs)\<lparr>pa_arrived := (pa_arrived (a3_entry nranks offset len rs))[r := True],
      pa_arrivals := pa_arrivals (a3_entry nranks offset len rs) + 1\<rparr> = a3_entry nranks offset len (rs @ [r])"
  using assms by (auto simp: a3_entry_def intro!: nth_equalityI simp: nth_list_update split: if_splits)

lemma a3_state_step:
  assumes m: "m (a3_key name nranks seq) = None" and rs: "length rs < unat nranks" and r: "r < unat nranks" "r \<notin> set rs"
  shows "SubmitSimA3Registration name (of_nat r) nranks seq offset len (a3_state name nranks seq offset len rs m) =
    (FLUME_OK, a3_state name nranks seq offset len (rs @ [r]) m)"
proof -
  let ?p = "a3_entry nranks offset len rs"
  have e: "(case a3_state name nranks seq offset len rs m (a3_key name nranks seq) of
      None \<Rightarrow> \<lparr>pa_rank_size = nranks, pa_offset = offset, pa_len = len, pa_arrivals = 0,
        pa_arrived = replicate (unat nranks) False\<rparr> | Some p \<Rightarrow> p) = ?p"
    using a3_entry_of [where m = m, OF m rs] by simp
  have g: "\<not> (of_nat r \<ge> pa_rank_size ?p \<or> pa_arrived ?p ! unat (of_nat r :: u32) \<or> pa_offset ?p \<noteq> offset \<or> pa_len ?p \<noteq> len)"
    using r unat_of_rank [OF r(1)] by (simp add: a3_entry_def word_le_nat_alt)
  have m1: "(a3_state name nranks seq offset len rs m)(a3_key name nranks seq := x) = m(a3_key name nranks seq := x)" for x
    by (simp add: a3_state_def)
  have m0: "m(a3_key name nranks seq := None) = m" using m by auto
  show ?thesis
    unfolding SubmitSimA3Registration_def a3_key_def [symmetric] Let_def e if_not_P [OF g]
    unfolding unat_of_rank [OF r(1)] a3_arrive [OF r(1) rs] m1
    using m0 by (simp add: a3_entry_def a3_state_def)
qed

text \<open>Property C22. The ranks of a communicator register a range of symmetric memory, in any order: each is
  accepted, the entry of the table lists exactly the ranks that have registered, and it is gone
  after the last.  Before that, a rank that is out of range, has already registered or names
  another range is rejected, and the entry is dropped.\<close>

theorem a3_registration:
  assumes "m (a3_key name nranks seq) = None" "distinct rs" "set rs \<subseteq> {..<unat nranks}"
  shows "a3_run name nranks seq offset len rs m =
      (replicate (length rs) FLUME_OK, a3_state name nranks seq offset len rs m) \<and>
    (rs \<noteq> [] \<and> length rs < unat nranks \<and> (rank \<ge> nranks \<or> unat rank \<in> set rs \<or> offset' \<noteq> offset \<or> len' \<noteq> len) \<longrightarrow>
      SubmitSimA3Registration name rank nranks seq offset' len' (a3_state name nranks seq offset len rs m) =
        (FLUME_ERR_INVALID_ARGUMENT, m))"
proof
  show "a3_run name nranks seq offset len rs m =
      (replicate (length rs) FLUME_OK, a3_state name nranks seq offset len rs m)"
    using assms(2,3)
  proof (induction rs rule: rev_induct)
    case (snoc r rs)
    have "length (rs @ [r]) \<le> card {..<unat nranks}"
      using snoc.prems distinct_card card_mono finite_lessThan by metis
    then show ?case using snoc a3_state_step [where m = m, OF assms(1), of rs r offset len]
      by (simp add: a3_run_def replicate_append_same)
  qed (simp add: a3_run_def a3_state_def)
  show "rs \<noteq> [] \<and> length rs < unat nranks \<and> (rank \<ge> nranks \<or> unat rank \<in> set rs \<or> offset' \<noteq> offset \<or> len' \<noteq> len) \<longrightarrow>
      SubmitSimA3Registration name rank nranks seq offset' len' (a3_state name nranks seq offset len rs m) =
        (FLUME_ERR_INVALID_ARGUMENT, m)"
  proof
    assume a: "rs \<noteq> [] \<and> length rs < unat nranks \<and> (rank \<ge> nranks \<or> unat rank \<in> set rs \<or> offset' \<noteq> offset \<or> len' \<noteq> len)"
    let ?p = "a3_entry nranks offset len rs"
    have e: "(case a3_state name nranks seq offset len rs m (a3_key name nranks seq) of
        None \<Rightarrow> \<lparr>pa_rank_size = nranks, pa_offset = offset', pa_len = len', pa_arrivals = 0,
          pa_arrived = replicate (unat nranks) False\<rparr> | Some p \<Rightarrow> p) = ?p"
      using a3_entry_of [where m = m, OF assms(1), of rs offset' len' offset len] a by simp
    have g: "rank \<ge> pa_rank_size ?p \<or> pa_arrived ?p ! unat rank \<or> pa_offset ?p \<noteq> offset' \<or> pa_len ?p \<noteq> len'"
      using a assms(3) by (auto simp: a3_entry_def)
    have "(a3_state name nranks seq offset len rs m)(a3_key name nranks seq := None) = m"
      using assms(1) by (auto simp: a3_state_def)
    then show "SubmitSimA3Registration name rank nranks seq offset' len' (a3_state name nranks seq offset len rs m) =
        (FLUME_ERR_INVALID_ARGUMENT, m)"
      unfolding SubmitSimA3Registration_def a3_key_def [symmetric] Let_def e if_P [OF g] by simp
  qed
qed

theorem a3_registration_witness:
  "a3_run (cstr ''world'') 3 0 0 64 [2, 0, 1] Map.empty = ([FLUME_OK, FLUME_OK, FLUME_OK], Map.empty) \<and>
   SubmitSimA3Registration (cstr ''world'') 2 3 0 0 64 (a3_state (cstr ''world'') 3 0 0 64 [2, 0] Map.empty) =
     (FLUME_ERR_INVALID_ARGUMENT, Map.empty)"
  using a3_registration [of Map.empty "cstr ''world''" 3 0 "[2, 0, 1]" 0 64]
    a3_registration [of Map.empty "cstr ''world''" 3 0 "[2, 0]" 0 64 2 0 64]
  by (simp add: a3_state_def)

end
