(* ===== verification/Client_Reduce.thy ===== *)
theory Client_Reduce
  imports Client_Collective
begin

text \<open>
  What the simulated collectives compute.

  \<open>reduce_ref\<close> is the reference definition of an all-reduce: the concatenation over the elements of
  the left fold of the element's values in rank order.  The loops of \<open>SimReduceTyped\<close>, which read
  and write through \<open>memcpy\<close> at computed offsets, are equal to it at every supported type.  An
  all-gather is the concatenation of the contributions.  The last part follows a whole collective:
  the ranks submit in any order, and after the last of them every destination holds that result
  and every handle reports it.
\<close>

section \<open>The reductions compute element by element\<close>

lemma fold_overwrite_chunks:
  assumes "\<And>i. i < k \<Longrightarrow> length (f i) = sz" "j \<le> k"
  shows "fold (\<lambda>i out. overwrite (i * sz) (f i) out) [0..<j] (replicate (k * sz) z) =
    concat (map f [0..<j]) @ replicate ((k - j) * sz) z"
  using assms(2)
proof (induction j)
  case (Suc j)
  have "length (concat (map f [0..<j])) = j * sz"
    using assms(1) Suc.prems by (simp add: length_concat o_def interv_sum_list_conv_sum_set_nat)
  moreover have "replicate ((k - j) * sz) z = replicate sz z @ replicate ((k - Suc j) * sz) z"
  proof -
    have "(k - j) * sz = sz + (k - Suc j) * sz"
      using Suc.prems by (metis Suc_diff_Suc Suc_le_lessD mult_Suc)
    then show ?thesis by (simp add: replicate_add)
  qed
  ultimately show ?case using Suc assms(1) [of j] by (simp add: overwrite_def)
qed simp

lemma fold_overwrite_all:
  assumes "\<And>i. i < k \<Longrightarrow> length (f i) = sz"
  shows "fold (\<lambda>i out. overwrite (i * sz) (f i) out) [0..<k] (replicate (k * sz) z) = concat (map f [0..<k])"
  using fold_overwrite_chunks [of k f sz k z] assms by simp

lemma bit_le_word:
  "bit (le_word bs :: 'a::len word) n \<longleftrightarrow>
    n < LENGTH('a) \<and> n div 8 < length bs \<and> bit (bs ! (n div 8)) (n mod 8)"
proof (induction bs arbitrary: n)
  case (Cons b bs)
  show ?case
  proof (cases "n < 8")
    case True
    then show ?thesis by (auto simp: shift_in_def bit_simps dest: bit_imp_le_length)
  next
    case False
    then have e: "n div 8 = Suc ((n - 8) div 8)" "n mod 8 = (n - 8) mod 8"
      by (simp_all add: le_div_geq le_mod_geq)
    have "\<not> bit b n" using False by (auto dest: bit_imp_le_length)
    then have "bit (le_word (b # bs) :: 'a word) n \<longleftrightarrow> n < LENGTH('a) \<and> bit (le_word bs :: 'a word) (n - 8)"
      using False by (auto simp: shift_in_def bit_simps)
    also have "\<dots> \<longleftrightarrow> n < LENGTH('a) \<and> (n - 8) div 8 < length bs \<and> bit (bs ! ((n - 8) div 8)) ((n - 8) mod 8)"
      unfolding Cons.IH by auto
    finally show ?thesis unfolding e by simp
  qed
qed simp

lemma length_le_bytes [simp]: "length (le_bytes (v :: 'a::len word)) = LENGTH('a) div 8"
  by (simp add: le_bytes_def)

lemma le_word_le_bytes:
  assumes "8 dvd LENGTH('a)"
  shows "le_word (le_bytes v) = (v :: 'a::len word)"
proof (rule bit_word_eqI)
  fix n assume n: "n < LENGTH('a)"
  obtain k where "LENGTH('a) = k * 8" using assms by (auto elim: dvdE)
  then have "n div 8 < LENGTH('a) div 8" using n by (simp add: less_mult_imp_div_less)
  then show "bit (le_word (le_bytes v) :: 'a word) n = bit v n"
    using n by (simp add: bit_le_word le_bytes_def byte_simps)
qed

lemma le_bytes_le_word:
  assumes "length bs = LENGTH('a) div 8"
  shows "le_bytes (le_word bs :: 'a::len word) = bs"
proof (rule nth_equalityI)
  fix i assume "i < length (le_bytes (le_word bs :: 'a word))"
  then have i: "i < LENGTH('a) div 8" by simp
  have "byte_at (8 * i) (le_word bs :: 'a word) = bs ! i"
  proof (rule bit_word_eqI)
    fix j assume j: "j < LENGTH(8)"
    then have "8 * i + j < LENGTH('a)" using i by simp
    then show "bit (byte_at (8 * i) (le_word bs :: 'a word)) j = bit (bs ! i) j"
      using i j assms by (simp add: bit_le_word byte_simps)
  qed
  then show "le_bytes (le_word bs :: 'a word) ! i = bs ! i" using i by (simp add: le_bytes_def)
qed (simp add: assms)

section \<open>The reference definition\<close>

definition elem :: "nat \<Rightarrow> nat \<Rightarrow> bytes \<Rightarrow> bytes" where
  "elem sz i d = bslice (i * sz) sz d"

definition combine_int :: "('a::len word \<Rightarrow> 'a word \<Rightarrow> bool) \<Rightarrow> flume_reduce_op \<Rightarrow> bytes \<Rightarrow> bytes \<Rightarrow> bytes" where
  "combine_int lt op a b = le_bytes (ApplyReduce lt op (le_word a) (le_word b))"

fun combine :: "fp_arith \<Rightarrow> flume_data_type \<Rightarrow> flume_reduce_op \<Rightarrow> bytes \<Rightarrow> bytes \<Rightarrow> bytes" where
  "combine fp FLUME_DTYPE_INT8 op = combine_int (signed_less :: 8 word \<Rightarrow> _) op"
| "combine fp FLUME_DTYPE_UINT8 op = combine_int (unsigned_less :: 8 word \<Rightarrow> _) op"
| "combine fp FLUME_DTYPE_INT16 op = combine_int (signed_less :: 16 word \<Rightarrow> _) op"
| "combine fp FLUME_DTYPE_UINT16 op = combine_int (unsigned_less :: 16 word \<Rightarrow> _) op"
| "combine fp FLUME_DTYPE_INT32 op = combine_int (signed_less :: 32 word \<Rightarrow> _) op"
| "combine fp FLUME_DTYPE_UINT32 op = combine_int (unsigned_less :: 32 word \<Rightarrow> _) op"
| "combine fp FLUME_DTYPE_INT64 op = combine_int (signed_less :: 64 word \<Rightarrow> _) op"
| "combine fp FLUME_DTYPE_UINT64 op = combine_int (unsigned_less :: 64 word \<Rightarrow> _) op"
| "combine fp FLUME_DTYPE_FP32 op = fp 4 op"
| "combine fp FLUME_DTYPE_FP64 op = fp 8 op"
| "combine fp _ op = (\<lambda>a b. a)"

definition reduce_elem :: "(bytes \<Rightarrow> bytes \<Rightarrow> bytes) \<Rightarrow> nat \<Rightarrow> bytes list \<Rightarrow> nat \<Rightarrow> bytes" where
  "reduce_elem f sz payloads i = foldl f (elem sz i (hd payloads)) (map (elem sz i) (tl payloads))"

definition reduce_ref :: "(bytes \<Rightarrow> bytes \<Rightarrow> bytes) \<Rightarrow> nat \<Rightarrow> nat \<Rightarrow> bytes list \<Rightarrow> bytes" where
  "reduce_ref f sz count payloads = concat (map (reduce_elem f sz payloads) [0..<count])"

text \<open>The types with a reduction in the code; the floating-point parameter keeps the size of a value.\<close>

fun reducible :: "flume_data_type \<Rightarrow> bool" where
  "reducible FLUME_DTYPE_FP16 = False"
| "reducible FLUME_DTYPE_BFP16 = False"
| "reducible (FLUME_DTYPE_RAW n) = False"
| "reducible _ = True"

definition fp_sized :: "fp_arith \<Rightarrow> bool" where
  "fp_sized fp \<longleftrightarrow> (\<forall>n op a b. length (fp n op a b) = n)"

lemma fold_ranks:
  assumes "xs \<noteq> []"
  shows "fold (\<lambda>r acc. g acc (xs ! r)) [1..<length xs] a = foldl g a (tl xs)"
proof -
  have "0 < length xs" using assms by simp
  then have "xs ! 0 # map ((!) xs) [1..<length xs] = xs"
    using map_nth [of xs] by (subst (asm) upt_conv_Cons) simp_all
  then have "map ((!) xs) [1..<length xs] = tl xs" by (metis list.sel(3))
  then have "foldl g a (tl xs) = fold (\<lambda>x acc. g acc x) (map ((!) xs) [1..<length xs]) a"
    by (simp add: foldl_conv_fold)
  then show ?thesis by (simp add: fold_map o_def)
qed

lemma length_elem: "length d = count * sz \<Longrightarrow> i < count \<Longrightarrow> length (elem sz i d) = sz"
proof -
  assume d: "length d = count * sz" "i < count"
  then have "Suc i * sz \<le> count * sz" by (intro mult_le_mono1) simp
  then show ?thesis using d by (simp add: elem_def)
qed

lemma foldl_transfer:
  assumes "\<And>a x. x \<in> set xs \<Longrightarrow> enc (red a (rd x)) = f (enc a) (g x)"
  shows "enc (foldl (\<lambda>a x. red a (rd x)) a xs) = foldl f (enc a) (map g xs)"
  using assms by (induction xs arbitrary: a) simp_all

lemma reduce_int_ref:
  assumes "8 dvd LENGTH('a)" "pc_payloads p \<noteq> []" "length (pc_payloads p) = unat (pc_rank_size p)"
    "\<forall>d\<in>set (pc_payloads p). length d = pc_input_bytes p"
    "pc_input_bytes p = unat (pc_count p) * (LENGTH('a) div 8)"
  shows "reduce_int (lt :: 'a::len word \<Rightarrow> _) p =
    reduce_ref (combine_int lt (pc_reduce_op p)) (LENGTH('a) div 8) (unat (pc_count p)) (pc_payloads p)"
proof -
  let ?sz = "LENGTH('a) div 8" and ?op = "pc_reduce_op p"
  define acc :: "nat \<Rightarrow> 'a word" where
    "acc i = foldl (\<lambda>a d. ApplyReduce lt ?op a (ReadValue d i)) (ReadValue (hd (pc_payloads p)) i) (tl (pc_payloads p))" for i
  have "reduce_int lt p = fold (\<lambda>i out. overwrite (i * ?sz) (le_bytes (acc i)) out) [0..<unat (pc_count p)]
      (replicate (unat (pc_count p) * ?sz) 0)"
    using assms(2,5) fold_ranks [OF assms(2), where g = "\<lambda>a d. ApplyReduce lt ?op a (ReadValue d _)"]
    by (simp add: reduce_int_def SimReduceTyped_def WriteValue_def acc_def assms(3) [symmetric] hd_conv_nth)
  also have "\<dots> = concat (map (\<lambda>i. le_bytes (acc i)) [0..<unat (pc_count p)])"
    by (rule fold_overwrite_all) simp
  also have "\<dots> = concat (map (reduce_elem (combine_int lt ?op) ?sz (pc_payloads p)) [0..<unat (pc_count p)])"
  proof (rule arg_cong [where f = concat], rule map_cong [OF refl])
    fix i assume i: "i \<in> set [0..<unat (pc_count p)]"
    have el: "length (elem ?sz i d) = ?sz" if "d \<in> set (pc_payloads p)" for d
      using that i assms(4,5) by (intro length_elem [where count = "unat (pc_count p)"]) auto
    have "le_bytes (acc i) = foldl (combine_int lt ?op) (le_bytes (ReadValue (hd (pc_payloads p)) i :: 'a word))
        (map (elem ?sz i) (tl (pc_payloads p)))"
      unfolding acc_def
      by (rule foldl_transfer) (simp add: combine_int_def le_word_le_bytes [OF assms(1)] ReadValue_def elem_def)
    also have "le_bytes (ReadValue (hd (pc_payloads p)) i :: 'a word) = elem ?sz i (hd (pc_payloads p))"
      using el [of "hd (pc_payloads p)"] assms(2) le_bytes_le_word [where 'a = 'a] by (simp add: ReadValue_def elem_def)
    finally show "le_bytes (acc i) = reduce_elem (combine_int lt ?op) ?sz (pc_payloads p) i"
      by (simp add: reduce_elem_def)
  qed
  finally show ?thesis by (simp add: reduce_ref_def)
qed

lemma reduce_fp_ref:
  assumes "fp_sized fp" "pc_payloads p \<noteq> []" "length (pc_payloads p) = unat (pc_rank_size p)"
    "\<forall>d\<in>set (pc_payloads p). length d = pc_input_bytes p" "pc_input_bytes p = unat (pc_count p) * n"
  shows "reduce_fp fp n p = reduce_ref (fp n (pc_reduce_op p)) n (unat (pc_count p)) (pc_payloads p)"
proof -
  let ?f = "reduce_elem (fp n (pc_reduce_op p)) n (pc_payloads p)"
  have len: "length (foldl (fp n op) a xs) = n" if "length a = n" for op a xs
    using that assms(1) by (induction xs arbitrary: a) (simp_all add: fp_sized_def)
  have "reduce_fp fp n p = fold (\<lambda>i out. overwrite (i * n) (?f i) out) [0..<unat (pc_count p)]
      (replicate (unat (pc_count p) * n) 0)"
    using assms(2,5) fold_ranks [OF assms(2), where g = "\<lambda>a d. fp n (pc_reduce_op p) a (elem n _ d)"]
    by (simp add: reduce_fp_def SimReduceTyped_def assms(3) [symmetric] reduce_elem_def elem_def hd_conv_nth foldl_map)
  also have "\<dots> = concat (map ?f [0..<unat (pc_count p)])"
    using assms(2,4,5)
    by (intro fold_overwrite_all) (auto simp: reduce_elem_def intro!: len length_elem [where count = "unat (pc_count p)"])
  finally show ?thesis by (simp add: reduce_ref_def)
qed

lemma concat_elems:
  assumes "length d = count * sz"
  shows "concat (map (\<lambda>i. elem sz i d) [0..<count]) = d"
proof -
  have "concat (map (\<lambda>i. elem sz i d) [0..<k]) = take (k * sz) d" for k
    by (induction k) (simp_all add: elem_def bslice_def take_add [symmetric] add.commute)
  then show ?thesis using assms by simp
qed

lemma SimReducePayloads_ref:
  assumes "reducible (pc_data_type p) \<or> pc_rank_size p = 1" "fp_sized fp"
    "0 < unat (pc_rank_size p)" "length (pc_payloads p) = unat (pc_rank_size p)"
    "\<forall>d\<in>set (pc_payloads p). length d = pc_input_bytes p"
    "CheckedBytes (pc_count p) (pc_data_type p) = Some (pc_input_bytes p)"
  shows "SimReducePayloads fp p = Inr (reduce_ref (combine fp (pc_data_type p) (pc_reduce_op p))
    (DataTypeBytes (pc_data_type p)) (unat (pc_count p)) (pc_payloads p))"
proof (cases "pc_rank_size p = 1")
  case True
  then obtain d where "pc_payloads p = [d]" using assms(4) by (cases "pc_payloads p") auto
  then show ?thesis using True assms(5,6)
    by (simp add: SimReducePayloads.simps reduce_ref_def reduce_elem_def [abs_def] CheckedBytes_Some concat_elems)
next
  case False
  have ne: "pc_payloads p \<noteq> []" using assms(3,4) by auto
  have n: "pc_input_bytes p = unat (pc_count p) * DataTypeBytes (pc_data_type p)"
    using assms(6) by (simp add: CheckedBytes_Some)
  show ?thesis using False assms(1) n
    by (cases "pc_data_type p")
      (simp_all add: SimReducePayloads.simps reduce_int_ref [OF _ ne assms(4,5)] reduce_fp_ref [OF assms(2) ne assms(4,5)])
qed

lemma gather_output_ref:
  assumes "length (pc_payloads p) = unat (pc_rank_size p)"
    "\<forall>d\<in>set (pc_payloads p). length d = pc_input_bytes p"
    "pc_output_bytes p = pc_input_bytes p * unat (pc_rank_size p)"
  shows "gather_output p = concat (pc_payloads p)"
proof -
  have "gather_output p = fold (\<lambda>r out. overwrite (r * pc_input_bytes p) (take (pc_input_bytes p) (pc_payloads p ! r)) out)
      [0..<length (pc_payloads p)] (replicate (length (pc_payloads p) * pc_input_bytes p) 0)"
    using assms by (simp add: gather_output_def mult.commute)
  also have "\<dots> = concat (map (\<lambda>r. take (pc_input_bytes p) (pc_payloads p ! r)) [0..<length (pc_payloads p)])"
    by (rule fold_overwrite_all) (use assms(2) in auto)
  also have "map (\<lambda>r. take (pc_input_bytes p) (pc_payloads p ! r)) [0..<length (pc_payloads p)] = pc_payloads p"
    using assms(2) by (intro nth_equalityI) auto
  finally show ?thesis .
qed

section \<open>Delivery to all ranks\<close>

text \<open>A handle that reports the successful transfer of \<open>out\<close>.\<close>

definition reports :: "bytes \<Rightarrow> heap \<Rightarrow> nat \<Rightarrow> bool" where
  "reports out h i \<longleftrightarrow> (\<exists>x. hp_ios h i = Some x \<and> io_done x \<and> io_status x = status_u32 FLUME_OK \<and>
    io_bytes x = length out \<and> io_checksum x = Checksum32 out)"

definition dst_addr :: "heap \<Rightarrow> PendingSimCollective \<Rightarrow> nat \<Rightarrow> nat" where
  "dst_addr h p r = bf_ptr (buffer_at h (pc_dsts p ! r)) + pc_dst_offsets p ! r"

lemma deliver_rank_ios:
  assumes "pc_ios p ! r \<noteq> 0"
  shows "hp_ios h (pc_ios p ! r) \<noteq> None \<Longrightarrow> reports out (deliver_rank p out r h) (pc_ios p ! r)"
    and "reports out h i \<Longrightarrow> reports out (deliver_rank p out r h) i"
    and "hp_ios h i \<noteq> None \<Longrightarrow> hp_ios (deliver_rank p out r h) i \<noteq> None"
  using assms by (auto simp: reports_def deliver_rank_def Let_def heap_simps buffer_read_def)

lemma deliver_ranks_keep:
  "\<forall>r\<in>set rs. pc_ios p ! r \<noteq> 0 \<Longrightarrow> reports out h i \<Longrightarrow> reports out (fold (deliver_rank p out) rs h) i"
  by (induction rs arbitrary: h) (simp_all add: deliver_rank_ios)

lemma deliver_ranks_report:
  assumes "\<forall>r\<in>set rs. pc_ios p ! r \<noteq> 0 \<and> hp_ios h (pc_ios p ! r) \<noteq> None" "r \<in> set rs"
  shows "reports out (fold (deliver_rank p out) rs h) (pc_ios p ! r)"
  using assms
proof (induction rs arbitrary: h)
  case (Cons s rs)
  show ?case
  proof (cases "r = s")
    case True
    then show ?thesis using Cons.prems deliver_rank_ios(1) [of p s h out] by (simp add: deliver_ranks_keep)
  next
    case False
    then show ?thesis using Cons.prems deliver_rank_ios(3) [of p s h] by (auto intro!: Cons.IH)
  qed
qed simp

lemma dst_addr_cong: "shape h' = shape h \<Longrightarrow> hp_buffers h (pc_dsts p ! r) \<noteq> None \<Longrightarrow> dst_addr h' p r = dst_addr h p r"
  using shape_fields(2) [of h' "pc_dsts p ! r" h] by (simp add: dst_addr_def)

lemma deliver_ranks_mem:
  assumes "\<forall>r\<in>set rs. hp_buffers h (pc_dsts p ! r) \<noteq> None"
  shows "hp_mem (fold (deliver_rank p out) rs h) = fold (\<lambda>r. mem_write (dst_addr h p r) out) rs (hp_mem h)"
  using assms
proof (induction rs arbitrary: h)
  case (Cons s rs)
  have sh: "shape (deliver_rank p out s h) = shape h" by (simp add: deliver_rank_def Let_def heap_simps)
  have "hp_mem (deliver_rank p out s h) = mem_write (dst_addr h p s) out (hp_mem h)"
    by (simp add: deliver_rank_def Let_def heap_simps dst_addr_def)
  moreover have "\<forall>r\<in>set rs. hp_buffers (deliver_rank p out s h) (pc_dsts p ! r) \<noteq> None"
    using Cons.prems shape_live [OF fun_cong [OF sh]] by auto
  moreover have "fold (\<lambda>r. mem_write (dst_addr (deliver_rank p out s h) p r) out) rs m =
      fold (\<lambda>r. mem_write (dst_addr h p r) out) rs m" for m
    using Cons.prems dst_addr_cong [OF sh] by (intro fold_cong) auto
  ultimately show ?case using Cons.IH [of "deliver_rank p out s h"] by simp
qed simp

lemma fold_mem_write_read:
  assumes "distinct rs" "r \<in> set rs"
    "\<And>s. s \<in> set rs \<Longrightarrow> s \<noteq> r \<Longrightarrow> a r + length out \<le> a s \<or> a s + length out \<le> a r"
  shows "mem_read (fold (\<lambda>r. mem_write (a r) out) rs m) (a r) (length out) = out"
  using assms
proof (induction rs rule: rev_induct)
  case (snoc s rs)
  show ?case
  proof (cases "r = s")
    case False
    then show ?thesis using snoc mem_read_write_other [of "a r" "length out" "a s" out] by auto
  qed simp
qed simp

lemma fold_mem_write_frame:
  assumes "\<And>s. s \<in> set rs \<Longrightarrow> \<not> (a s \<le> x \<and> x < a s + length out)"
  shows "fold (\<lambda>r. mem_write (a r) out) rs m x = m x"
  using assms by (induction rs arbitrary: m) (auto simp: mem_write_def)

section \<open>A whole collective\<close>

text \<open>What each rank submits, as functions of the rank.\<close>

record ranks =
  rk_client :: "nat \<Rightarrow> nat"
  rk_dst :: "nat \<Rightarrow> nat"
  rk_dst_offset :: "nat \<Rightarrow> nat"
  rk_src :: "nat \<Rightarrow> nat"
  rk_src_offset :: "nat \<Rightarrow> nat"

definition submit_rank ::
    "fp_arith \<Rightarrow> SimCollectiveKind \<Rightarrow> u64 \<Rightarrow> flume_data_type \<Rightarrow> flume_reduce_op \<Rightarrow> ranks \<Rightarrow> nat \<Rightarrow>
     heap \<times> coll_table \<Rightarrow> heap \<times> coll_table" where
  "submit_rank fp kind count t op k r hm =
    snd (SubmitSimCollective fp (rk_client k r) kind (rk_dst k r) (rk_dst_offset k r)
      (rk_src k r) (rk_src_offset k r) count t op hm)"

text \<open>Rank \<open>r\<close> is ready: its client is attached with that rank and the expected sequence number, its
  buffers are simulated and large enough.\<close>

definition client_ready :: "SimCollectiveKey \<Rightarrow> nat \<Rightarrow> flume_client \<Rightarrow> bool" where
  "client_ready key r cl \<longleftrightarrow> cl_sim_comm_attached cl \<and> cl_sim_comm_name cl = ck_comm_name key \<and>
    cl_rank_size cl = ck_rank_size key \<and> cl_rank cl = of_nat r \<and>
    (if ck_kind key = kAllReduce then cl_allreduce_seq cl else cl_allgather_seq cl) = ck_seq key"

definition buffers_ready :: "ranks \<Rightarrow> nat \<Rightarrow> nat \<Rightarrow> heap \<Rightarrow> nat \<Rightarrow> bool" where
  "buffers_ready k n ob h r \<longleftrightarrow>
    hp_buffers h (rk_src k r) \<noteq> None \<and> hp_buffers h (rk_dst k r) \<noteq> None \<and>
    ValidateRange h (rk_src k r) (rk_src_offset k r) n \<and> ValidateRange h (rk_dst k r) (rk_dst_offset k r) ob \<and>
    IsSimBufferType (bf_type (buffer_at h (rk_src k r))) \<and> IsSimBufferType (bf_type (buffer_at h (rk_dst k r)))"

definition sizes_ok :: "SimCollectiveKey \<Rightarrow> u64 \<Rightarrow> flume_data_type \<Rightarrow> flume_reduce_op \<Rightarrow> nat \<Rightarrow> nat \<Rightarrow> bool" where
  "sizes_ok key count t op n ob \<longleftrightarrow> ck_rank_size key \<noteq> 0 \<and> CheckedBytes count t = Some n \<and>
    (ck_kind key = kAllReduce \<longrightarrow> IsSupportedReduceOp op) \<and>
    ob = (if ck_kind key = kAllGather then n * unat (ck_rank_size key) else n) \<and> ob \<le> SIZE_MAX"

lemma buffers_ready_cong:
  assumes "buffers_ready k n ob h r" "shape h' = shape h"
  shows "buffers_ready k n ob h' r"
  using assms(1) shape_live [OF fun_cong [OF assms(2)]] shape_fields [OF fun_cong [OF assms(2)]]
  by (auto simp: buffers_ready_def ValidateRange_def)

lemma submit_rank_publishes:
  assumes "hp_clients h (rk_client k r) = Some cl" "client_ready key r cl" "buffers_ready k n ob h r"
    "sizes_ok key count t op n ob"
  shows "\<exists>f. submit_rank fp (ck_kind key) count t op k r (h, m) =
    coll_publish fp key (of_nat r) count t op n ob (buffer_read h (rk_src k r) (rk_src_offset k r) n)
      (rk_dst k r) (rk_dst_offset k r) (hp_next h) (snd (MakePendingIo (upd_client (rk_client k r) f h)), m)"
proof -
  have mul: "(if ck_kind key = kAllGather then CheckedMul n (unat (ck_rank_size key)) else Some n) = Some ob"
    using assms(4) by (auto simp: sizes_ok_def CheckedMul_Some)
  show ?thesis
    using assms mul
    by (intro exI [of _ "\<lambda>cl. if ck_kind key = kAllReduce then cl\<lparr>cl_allreduce_seq := cl_allreduce_seq cl + 1\<rparr>
        else cl\<lparr>cl_allgather_seq := cl_allgather_seq cl + 1\<rparr>"], cases key, cases "ck_kind key")
      (auto simp: submit_rank_def SubmitSimCollective_def Let_def case_MakePendingIo client_ready_def
        buffers_ready_def sizes_ok_def heap_simps buffer_read_def)
qed

text \<open>An entry that holds the contributions of the ranks \<open>rs\<close>, with their handles.\<close>

definition holds :: "SimCollectiveKey \<Rightarrow> u64 \<Rightarrow> flume_data_type \<Rightarrow> flume_reduce_op \<Rightarrow> nat \<Rightarrow> nat \<Rightarrow> ranks \<Rightarrow>
    (nat \<Rightarrow> bytes) \<Rightarrow> (nat \<Rightarrow> nat) \<Rightarrow> nat list \<Rightarrow> PendingSimCollective \<Rightarrow> bool" where
  "holds key count t op n ob k data io rs p \<longleftrightarrow> (let N = unat (ck_rank_size key) in
    PendingMatches p (ck_kind key) count t op n ob \<and> pc_rank_size p = ck_rank_size key \<and>
    pc_arrivals p = length rs \<and>
    length (pc_arrived p) = N \<and> length (pc_payloads p) = N \<and> length (pc_dsts p) = N \<and>
    length (pc_dst_offsets p) = N \<and> length (pc_ios p) = N \<and>
    (\<forall>r<N. pc_arrived p ! r = (r \<in> set rs)) \<and>
    (\<forall>r\<in>set rs. pc_payloads p ! r = data r \<and> pc_dsts p ! r = rk_dst k r \<and>
      pc_dst_offsets p ! r = rk_dst_offset k r \<and> pc_ios p ! r = io r))"

lemma holds_init: "holds key count t op n ob k data io []
    (InitPendingSimCollective (ck_kind key) (ck_rank_size key) count t op n ob)"
  by (simp add: holds_def Let_def InitPendingSimCollective_def PendingMatches_def)

lemma holds_arrive:
  assumes "holds key count t op n ob k data io rs p" "r < unat (ck_rank_size key)" "r \<notin> set rs" "\<forall>s\<in>set rs. io' s = io s"
  shows "holds key count t op n ob k data io' (rs @ [r])
    (arrive r (data r) (rk_dst k r) (rk_dst_offset k r) (io' r) p)"
  using assms by (auto simp: holds_def Let_def arrive_def PendingMatches_def nth_list_update)

lemma holds_all:
  assumes "holds key count t op n ob k data io rs p" "set rs = {..<unat (ck_rank_size key)}"
  shows "pc_payloads p = map data [0..<unat (ck_rank_size key)]" "\<forall>r<unat (ck_rank_size key). pc_ios p ! r = io r"
    "\<forall>r<unat (ck_rank_size key). pc_dsts p ! r = rk_dst k r \<and> pc_dst_offsets p ! r = rk_dst_offset k r"
  using assms by (auto simp: holds_def Let_def intro!: nth_equalityI)

lemma unat_rank: "r < unat (w :: u32) \<Longrightarrow> unat (of_nat r :: u32) = r \<and> (of_nat r :: u32) < w"
proof -
  assume r: "r < unat w"
  then have "r < 2 ^ 32" using unsigned_less [of w, where 'a = nat] by simp
  then have "unat (of_nat r :: u32) = r" by (simp add: unat_of_nat)
  with r show ?thesis by (simp add: word_less_nat_alt)
qed

lemma publish_holds:
  assumes p: "holds key count t op n ob k data io rs p"
    "m key = Some p \<or> m key = None \<and> p = InitPendingSimCollective (ck_kind key) (ck_rank_size key) count t op n ob"
    and r: "r < unat (ck_rank_size key)" "r \<notin> set rs"
  shows "coll_publish fp key (of_nat r) count t op n ob d dst off i (h, m) =
    (let h = RetainPendingIo i (RetainPendingBuffer dst h); q = arrive r d dst off i p
     in if length rs + 1 = unat (ck_rank_size key) then
       ((case CompletePendingSimCollective fp q h of
           Inl error \<Rightarrow> FailPendingSimCollective q FLUME_ERR_UNSUPPORTED (cstr error) h | Inr h \<Rightarrow> h), m(key := None))
     else (h, m(key \<mapsto> q)))"
proof -
  have "(case m key of None \<Rightarrow> InitPendingSimCollective (ck_kind key) (ck_rank_size key) count t op n ob
      | Some p \<Rightarrow> p) = p" using p(2) by auto
  moreover have "\<not> pc_rank_size p \<le> (of_nat r :: u32)" "\<not> pc_arrived p ! unat (of_nat r :: u32)"
    using p(1) r unat_rank [OF r(1)] by (auto simp: holds_def Let_def)
  ultimately show ?thesis
    using p(1) unat_rank [OF r(1)] by (simp add: coll_publish_def holds_def Let_def)
qed

text \<open>The position of a rank in the order of submission.\<close>

definition pos :: "nat list \<Rightarrow> nat \<Rightarrow> nat" where
  "pos rs r = length (takeWhile (\<lambda>x. x \<noteq> r) rs)"

lemma pos_append: "s \<in> set rs \<Longrightarrow> pos (rs @ qs) s = pos rs s" "r \<notin> set rs \<Longrightarrow> pos (rs @ r # qs) r = length rs"
proof -
  show "s \<in> set rs \<Longrightarrow> pos (rs @ qs) s = pos rs s" unfolding pos_def by (induction rs) auto
  show "r \<notin> set rs \<Longrightarrow> pos (rs @ r # qs) r = length rs" unfolding pos_def by (induction rs) auto
qed

lemma pos_less: "r \<in> set rs \<Longrightarrow> pos rs r < length rs"
  unfolding pos_def by (induction rs) auto

lemma pos_nth: "distinct rs \<Longrightarrow> j < length rs \<Longrightarrow> pos rs (rs ! j) = j"
proof -
  assume "distinct rs" "j < length rs"
  then have "rs ! j \<notin> set (take j rs)"
    by (metis append_is_Nil_conv disjoint_insert(1) distinct_append id_take_nth_drop list.simps(15))
  then show "pos rs (rs ! j) = j"
    using pos_append(2) [of "rs ! j" "take j rs" "drop (Suc j) rs"] \<open>j < length rs\<close>
    by (simp add: id_take_nth_drop [symmetric])
qed

definition all_ready :: "SimCollectiveKey \<Rightarrow> ranks \<Rightarrow> nat \<Rightarrow> nat \<Rightarrow> heap \<Rightarrow> bool" where
  "all_ready key k n ob h \<longleftrightarrow> inj_on (rk_client k) {..<unat (ck_rank_size key)} \<and>
    (\<forall>r<unat (ck_rank_size key). buffers_ready k n ob h r \<and>
      (\<exists>cl. hp_clients h (rk_client k r) = Some cl \<and> client_ready key r cl))"

abbreviation rank_data :: "heap \<Rightarrow> ranks \<Rightarrow> nat \<Rightarrow> nat \<Rightarrow> bytes" where
  "rank_data h k n r \<equiv> buffer_read h (rk_src k r) (rk_src_offset k r) n"

text \<open>The state while ranks are still missing.\<close>

definition waiting :: "SimCollectiveKey \<Rightarrow> u64 \<Rightarrow> flume_data_type \<Rightarrow> flume_reduce_op \<Rightarrow> nat \<Rightarrow> nat \<Rightarrow> ranks \<Rightarrow>
    heap \<times> coll_table \<Rightarrow> nat list \<Rightarrow> heap \<times> coll_table \<Rightarrow> PendingSimCollective \<Rightarrow> bool" where
  "waiting key count t op n ob k hm rs hm' p \<longleftrightarrow>
    holds key count t op n ob k (rank_data (fst hm) k n) (\<lambda>r. hp_next (fst hm) + pos rs r) rs p \<and>
    (snd hm' = (snd hm)(key \<mapsto> p) \<or>
     snd hm' = snd hm \<and> p = InitPendingSimCollective (ck_kind key) (ck_rank_size key) count t op n ob) \<and>
    hp_mem (fst hm') = hp_mem (fst hm) \<and> shape (fst hm') = shape (fst hm) \<and>
    hp_next (fst hm') = hp_next (fst hm) + length rs \<and>
    (\<forall>i. hp_next (fst hm) \<le> i \<and> i < hp_next (fst hm) + length rs \<longrightarrow> hp_ios (fst hm') i \<noteq> None) \<and>
    (\<forall>c. c \<notin> rk_client k ` set rs \<longrightarrow> hp_clients (fst hm') c = hp_clients (fst hm) c)"

lemma rank_data_cong:
  assumes "shape h' = shape h" "hp_mem h' = hp_mem h" "buffers_ready k n ob h r"
  shows "rank_data h' k n r = rank_data h k n r"
  using assms shape_fields(2) [OF fun_cong [OF assms(1)], of "rk_src k r"]
  by (simp add: buffer_read_def buffers_ready_def)

lemma hp_ios_retain: "hp_ios (RetainPendingIo i h) j = None \<longleftrightarrow> hp_ios h j = None"
  by (cases "i = 0") (auto simp: RetainPendingIo_def upd_io_def)

lemma waiting_submit:
  assumes w: "waiting key count t op n ob k (h, m) rs (h1, m1) p" and m: "m key = None"
    and ready: "all_ready key k n ob h" "sizes_ok key count t op n ob"
    and r: "r < unat (ck_rank_size key)" "r \<notin> set rs" "set rs \<subseteq> {..<unat (ck_rank_size key)}"
  shows "\<exists>h2. submit_rank fp (ck_kind key) count t op k r (h1, m1) =
    (let q = arrive r (rank_data h k n r) (rk_dst k r) (rk_dst_offset k r) (hp_next h1) p
     in if length rs + 1 = unat (ck_rank_size key) then
       ((case CompletePendingSimCollective fp q h2 of
           Inl error \<Rightarrow> FailPendingSimCollective q FLUME_ERR_UNSUPPORTED (cstr error) h2 | Inr h \<Rightarrow> h), m)
     else (h2, m(key \<mapsto> q))) \<and>
    hp_mem h2 = hp_mem h \<and> shape h2 = shape h \<and> hp_next h2 = hp_next h + length rs + 1 \<and>
    (\<forall>i. hp_next h \<le> i \<and> i < hp_next h + length rs + 1 \<longrightarrow> hp_ios h2 i \<noteq> None) \<and>
    (\<forall>c. c \<notin> rk_client k ` set (rs @ [r]) \<longrightarrow> hp_clients h2 c = hp_clients h c)"
proof -
  have cl: "rk_client k r \<notin> rk_client k ` set rs"
    using ready(1) r by (auto simp: all_ready_def inj_on_def)
  obtain c where c: "hp_clients h1 (rk_client k r) = Some c" "client_ready key r c"
    using ready(1) r(1) w cl by (auto simp: all_ready_def waiting_def)
  have b: "buffers_ready k n ob h1 r"
    by (rule buffers_ready_cong [where h = h]) (use ready(1) r(1) w in \<open>simp_all add: all_ready_def waiting_def\<close>)
  obtain f where "submit_rank fp (ck_kind key) count t op k r (h1, m1) =
    coll_publish fp key (of_nat r) count t op n ob (rank_data h1 k n r) (rk_dst k r) (rk_dst_offset k r)
      (hp_next h1) (snd (MakePendingIo (upd_client (rk_client k r) f h1)), m1)"
    using submit_rank_publishes [OF c b ready(2)] by blast
  moreover have "rank_data h1 k n r = rank_data h k n r"
    using w ready(1) r(1) by (intro rank_data_cong [where ob = ob]) (simp_all add: waiting_def all_ready_def)
  moreover have m1: "m1(key := None) = m" "m1(key \<mapsto> q) = m(key \<mapsto> q)" for q
    using w m by (auto simp: waiting_def)
  moreover have e: "m1 key = Some p \<or>
      m1 key = None \<and> p = InitPendingSimCollective (ck_kind key) (ck_rank_size key) count t op n ob"
    using w m by (auto simp: waiting_def)
  moreover have hol: "holds key count t op n ob k (rank_data h k n) (\<lambda>r. hp_next h + pos rs r) rs p"
    and st: "hp_mem h1 = hp_mem h" "shape h1 = shape h" "hp_next h1 = hp_next h + length rs"
      "\<forall>i. hp_next h \<le> i \<and> i < hp_next h + length rs \<longrightarrow> hp_ios h1 i \<noteq> None"
      "\<forall>c. c \<notin> rk_client k ` set rs \<longrightarrow> hp_clients h1 c = hp_clients h c"
    using w by (simp_all add: waiting_def)
  ultimately show ?thesis
    using st
    by (intro exI [of _ "RetainPendingIo (hp_next h + length rs) (RetainPendingBuffer (rk_dst k r)
        (snd (MakePendingIo (upd_client (rk_client k r) f h1))))"])
      (simp add: publish_holds [where m = m1, OF hol e r(1,2)] Let_def heap_simps hp_ios_retain)
qed

lemma run_waiting:
  assumes m: "m key = None" and ready: "all_ready key k n ob h" "sizes_ok key count t op n ob"
    and rs: "distinct rs" "set rs \<subseteq> {..<unat (ck_rank_size key)}" "length rs < unat (ck_rank_size key)"
  shows "\<exists>p. waiting key count t op n ob k (h, m) rs
    (fold (submit_rank fp (ck_kind key) count t op k) rs (h, m)) p"
  using rs
proof (induction rs rule: rev_induct)
  case Nil
  then show ?case by (intro exI) (auto simp: waiting_def holds_init)
next
  case (snoc r rs)
  obtain h1 m1 where hm1: "fold (submit_rank fp (ck_kind key) count t op k) rs (h, m) = (h1, m1)" by fastforce
  then obtain p where w: "waiting key count t op n ob k (h, m) rs (h1, m1) p" using snoc by auto
  obtain h2 where h2: "submit_rank fp (ck_kind key) count t op k r (h1, m1) =
      (h2, m(key \<mapsto> arrive r (rank_data h k n r) (rk_dst k r) (rk_dst_offset k r) (hp_next h1) p))"
    "hp_mem h2 = hp_mem h" "shape h2 = shape h" "hp_next h2 = hp_next h + length rs + 1"
    "\<forall>i. hp_next h \<le> i \<and> i < hp_next h + length rs + 1 \<longrightarrow> hp_ios h2 i \<noteq> None"
    "\<forall>c. c \<notin> rk_client k ` set (rs @ [r]) \<longrightarrow> hp_clients h2 c = hp_clients h c"
    using waiting_submit [OF w m ready, of r fp] snoc.prems by (auto simp: Let_def)
  have "hp_next h1 = hp_next h + pos (rs @ [r]) r" using w snoc.prems by (simp add: waiting_def pos_append)
  then have "holds key count t op n ob k (rank_data h k n) (\<lambda>r'. hp_next h + pos (rs @ [r]) r') (rs @ [r])
      (arrive r (rank_data h k n r) (rk_dst k r) (rk_dst_offset k r) (hp_next h1) p)"
    using holds_arrive [of key count t op n ob k "rank_data h k n" "\<lambda>r. hp_next h + pos rs r" rs p r
        "\<lambda>r'. hp_next h + pos (rs @ [r]) r'"] w snoc.prems
    by (simp add: waiting_def pos_append)
  then show ?case using h2 hm1 by (auto simp: waiting_def)
qed


definition collective_result ::
    "fp_arith \<Rightarrow> SimCollectiveKind \<Rightarrow> flume_data_type \<Rightarrow> flume_reduce_op \<Rightarrow> nat \<Rightarrow> bytes list \<Rightarrow> bytes" where
  "collective_result fp kind t op count payloads =
    (case kind of kAllGather \<Rightarrow> concat payloads
     | kAllReduce \<Rightarrow> reduce_ref (combine fp t op) (DataTypeBytes t) count payloads)"

lemma length_combine: "reducible t \<Longrightarrow> fp_sized fp \<Longrightarrow> length (combine fp t op a b) = DataTypeBytes t"
  by (cases t) (simp_all add: combine_int_def fp_sized_def)

lemma length_collective_result:
  assumes "\<forall>d\<in>set pl. length d = count * DataTypeBytes t" "pl \<noteq> []" "fp_sized fp" "kind = kAllReduce \<longrightarrow> reducible t \<or> length pl = 1"
  shows "length (collective_result fp kind t op count pl) =
    (if kind = kAllGather then count * DataTypeBytes t * length pl else count * DataTypeBytes t)"
proof (cases kind)
  case kAllGather
  have "sum_list (map length pl) = sum_list (map (\<lambda>d. count * DataTypeBytes t) pl)"
    by (rule arg_cong [where f = sum_list], rule map_cong) (use assms(1) in auto)
  then show ?thesis using kAllGather by (simp add: collective_result_def length_concat sum_list_triv mult.commute)
next
  case kAllReduce
  have fl: "length (foldl (combine fp t op) a xs) = DataTypeBytes t" if "length a = DataTypeBytes t" "reducible t" for a xs
    using that length_combine [OF that(2) assms(3)] by (induction xs arbitrary: a) simp_all
  have "length (reduce_elem (combine fp t op) (DataTypeBytes t) pl i) = DataTypeBytes t" if i: "i < count" for i
  proof -
    have h: "length (elem (DataTypeBytes t) i (hd pl)) = DataTypeBytes t" using assms(1,2) i by (intro length_elem) auto
    show ?thesis
    proof (cases "reducible t")
      case True
      then show ?thesis using fl [OF h] by (simp add: reduce_elem_def)
    next
      case False
      then have "tl pl = []" using assms(4) kAllReduce by (cases pl) auto
      then show ?thesis using h by (simp add: reduce_elem_def)
    qed
  qed
  then have "sum_list (map (length \<circ> reduce_elem (combine fp t op) (DataTypeBytes t) pl) [0..<count]) =
      sum_list (map (\<lambda>i. DataTypeBytes t) [0..<count])"
    by (intro arg_cong [where f = sum_list] map_cong) auto
  then show ?thesis using kAllReduce by (simp add: collective_result_def reduce_ref_def length_concat sum_list_triv)
qed

text \<open>The completed entry produces exactly the reference result.\<close>

lemma CompletePending_result:
  assumes q: "holds key count t op n ob k data io rs q" "set rs = {..<unat (ck_rank_size key)}"
    and sizes: "sizes_ok key count t op n ob" and data: "\<forall>r<unat (ck_rank_size key). length (data r) = n"
    and fp: "fp_sized fp" "ck_kind key = kAllReduce \<longrightarrow> reducible t \<or> ck_rank_size key = 1"
  shows "CompletePendingSimCollective fp q h = Inr (fold (deliver_rank q
      (collective_result fp (ck_kind key) t op (unat count) (map data [0..<unat (ck_rank_size key)])))
      [0..<unat (ck_rank_size key)] h)"
proof -
  have fields: "pc_kind q = ck_kind key" "pc_count q = count" "pc_data_type q = t" "pc_reduce_op q = op"
    "pc_input_bytes q = n" "pc_output_bytes q = ob" "pc_rank_size q = ck_rank_size key"
    using q(1) by (simp_all add: holds_def Let_def PendingMatches_def)
  have pl: "pc_payloads q = map data [0..<unat (ck_rank_size key)]" by (rule holds_all(1) [OF q])
  have N: "0 < unat (ck_rank_size key)" using sizes by (simp add: sizes_ok_def unat_gt_0)
  show ?thesis
  proof (cases "ck_kind key")
    case kAllReduce
    then have "SimReducePayloads fp q = Inr (reduce_ref (combine fp t op) (DataTypeBytes t) (unat count) (pc_payloads q))"
      using SimReducePayloads_ref [of q fp] fields pl data fp sizes N by (auto simp: sizes_ok_def)
    then show ?thesis using kAllReduce fields pl
      by (simp add: CompletePendingSimCollective_def collective_result_def)
  next
    case kAllGather
    then have "gather_output q = concat (pc_payloads q)"
      using fields pl data sizes by (intro gather_output_ref) (auto simp: sizes_ok_def)
    then show ?thesis using kAllGather fields pl
      by (simp add: CompletePendingSimCollective_def collective_result_def)
  qed
qed

lemma run_last:
  assumes m: "m key = None" and ready: "all_ready key k n ob h" "sizes_ok key count t op n ob"
    and order: "distinct order" "set order = {..<unat (ck_rank_size key)}"
    and fp: "fp_sized fp" "ck_kind key = kAllReduce \<longrightarrow> reducible t \<or> ck_rank_size key = 1"
  shows "\<exists>h2 q. fold (submit_rank fp (ck_kind key) count t op k) order (h, m) =
      (fold (deliver_rank q (collective_result fp (ck_kind key) t op (unat count)
        (map (rank_data h k n) [0..<unat (ck_rank_size key)]))) [0..<unat (ck_rank_size key)] h2, m) \<and>
    holds key count t op n ob k (rank_data h k n) (\<lambda>r. hp_next h + pos order r) order q \<and>
    hp_mem h2 = hp_mem h \<and> shape h2 = shape h \<and>
    (\<forall>i. hp_next h \<le> i \<and> i < hp_next h + unat (ck_rank_size key) \<longrightarrow> hp_ios h2 i \<noteq> None)"
proof -
  let ?N = "unat (ck_rank_size key)"
  have N0: "0 < ?N" using ready(2) by (simp add: sizes_ok_def unat_gt_0)
  have len: "length order = ?N" using order by (metis card_lessThan distinct_card)
  then obtain rs r where rs: "order = rs @ [r]"
    using N0 by (cases order rule: rev_cases) auto
  have r: "r < ?N" "r \<notin> set rs" "distinct rs" "set rs \<subseteq> {..<?N}" "length rs + 1 = ?N" "length rs < ?N"
    using order rs len by auto
  obtain h1 m1 where hm1: "fold (submit_rank fp (ck_kind key) count t op k) rs (h, m) = (h1, m1)" by fastforce
  then obtain p where w: "waiting key count t op n ob k (h, m) rs (h1, m1) p"
    using run_waiting [where m = m, OF m ready r(3,4,6), of fp] by auto
  define q where "q = arrive r (rank_data h k n r) (rk_dst k r) (rk_dst_offset k r) (hp_next h1) p"
  obtain h2 where h2: "submit_rank fp (ck_kind key) count t op k r (h1, m1) =
      ((case CompletePendingSimCollective fp q h2 of
         Inl error \<Rightarrow> FailPendingSimCollective q FLUME_ERR_UNSUPPORTED (cstr error) h2 | Inr h \<Rightarrow> h), m)"
    "hp_mem h2 = hp_mem h" "shape h2 = shape h"
    "\<forall>i. hp_next h \<le> i \<and> i < hp_next h + ?N \<longrightarrow> hp_ios h2 i \<noteq> None"
    using waiting_submit [OF w m ready r(1,2,4), of fp] r(5) unfolding Let_def q_def [symmetric] by auto
  have q: "holds key count t op n ob k (rank_data h k n) (\<lambda>r. hp_next h + pos order r) order q"
    using holds_arrive [of key count t op n ob k "rank_data h k n" "\<lambda>r. hp_next h + pos rs r" rs p r
        "\<lambda>r. hp_next h + pos order r"] w r
    by (simp add: waiting_def pos_append rs q_def)
  have "CompletePendingSimCollective fp q h2 = Inr (fold (deliver_rank q
      (collective_result fp (ck_kind key) t op (unat count) (map (rank_data h k n) [0..<?N]))) [0..<?N] h2)"
    by (rule CompletePending_result [OF q order(2) ready(2) _ fp]) simp
  then show ?thesis using h2 q hm1 rs by auto
qed

text \<open>Property C21. All ranks of a communicator submit an all-reduce or an all-gather, in any order and
  each from its own buffers, with disjoint destinations.  Every submission reports success; after
  the last one the table is as before, every destination holds the element-wise reduction in rank
  order (or the concatenation) of the bytes the ranks submitted, no other memory has changed, and
  every handle reports success with the size and the checksum of the result.\<close>

theorem collective_completes:
  assumes m: "m key = None" and ready: "0 < hp_next h" "all_ready key k n ob h" "sizes_ok key count t op n ob"
    and order: "distinct order" "set order = {..<unat (ck_rank_size key)}"
    and fp: "fp_sized fp" "ck_kind key = kAllReduce \<longrightarrow> reducible t \<or> ck_rank_size key = 1"
    and disj: "\<forall>r<unat (ck_rank_size key). \<forall>s<unat (ck_rank_size key). r \<noteq> s \<longrightarrow>
      addr r + ob \<le> addr s \<or> addr s + ob \<le> addr r"
    and addr: "addr = (\<lambda>r. bf_ptr (buffer_at h (rk_dst k r)) + rk_dst_offset k r)"
    and out: "out = collective_result fp (ck_kind key) t op (unat count)
      (map (rank_data h k n) [0..<unat (ck_rank_size key)])"
    and run: "fold (submit_rank fp (ck_kind key) count t op k) order (h, m) = (h', m')"
  shows "m' = m \<and> length out = ob \<and>
    (\<forall>r<unat (ck_rank_size key). buffer_read h' (rk_dst k r) (rk_dst_offset k r) ob = out) \<and>
    (\<forall>x. (\<forall>r<unat (ck_rank_size key). \<not> (addr r \<le> x \<and> x < addr r + ob)) \<longrightarrow> hp_mem h' x = hp_mem h x) \<and>
    (\<forall>i. hp_next h \<le> i \<and> i < hp_next h + unat (ck_rank_size key) \<longrightarrow> reports out h' i)"
proof -
  let ?N = "unat (ck_rank_size key)"
  obtain h2 q where r: "h' = fold (deliver_rank q out) [0..<?N] h2" "m' = m"
    "holds key count t op n ob k (rank_data h k n) (\<lambda>r. hp_next h + pos order r) order q"
    "hp_mem h2 = hp_mem h" "shape h2 = shape h"
    "\<forall>i. hp_next h \<le> i \<and> i < hp_next h + ?N \<longrightarrow> hp_ios h2 i \<noteq> None"
    using run_last [where m = m, OF m ready(2,3) order fp] run unfolding out by auto
  have N: "0 < ?N" "n = unat count * DataTypeBytes t" "ob = (if ck_kind key = kAllGather then n * ?N else n)"
    using ready(3) by (auto simp: sizes_ok_def CheckedBytes_Some unat_gt_0)
  have len: "length out = ob" unfolding out
    by (subst length_collective_result) (use N fp in auto)
  have io: "pc_ios q ! r = hp_next h + pos order r" "pc_dsts q ! r = rk_dst k r"
    "pc_dst_offsets q ! r = rk_dst_offset k r" if "r < ?N" for r
    using holds_all [OF r(3) order(2)] that by auto
  have live: "hp_buffers h (rk_dst k r) \<noteq> None" if "r < ?N" for r
    using ready(2) that by (simp add: all_ready_def buffers_ready_def)
  have live2: "\<forall>r\<in>set [0..<?N]. hp_buffers h2 (pc_dsts q ! r) \<noteq> None"
    using live io shape_live [OF fun_cong [OF r(5)]] by auto
  have da: "dst_addr h2 q r = addr r" if "r < ?N" for r
    using shape_fields(2) [OF fun_cong [OF r(5)], of "rk_dst k r"] live [OF that] io that by (simp add: dst_addr_def addr)
  have mem: "hp_mem h' = fold (\<lambda>r. mem_write (addr r) out) [0..<?N] (hp_mem h)"
    unfolding r(1) deliver_ranks_mem [OF live2] r(4) by (rule fold_cong) (use da in auto)
  have ptr: "bf_ptr (buffer_at h' (rk_dst k s)) = bf_ptr (buffer_at h (rk_dst k s))" if "s < ?N" for s
    using shape_fields(2) [of h' "rk_dst k s" h] live [OF that] r(5) same_objects_ranks(2) [of h2 q out _ h2]
    by (simp add: r(1) same_objects_def)
  have "buffer_read h' (rk_dst k s) (rk_dst_offset k s) ob = out" if s: "s < ?N" for s
  proof -
    have "mem_read (hp_mem h') (addr s) (length out) = out"
      unfolding mem by (rule fold_mem_write_read) (use disj s len in auto)
    then show ?thesis using ptr [OF s] len by (simp add: buffer_read_def addr)
  qed
  moreover have "hp_mem h' x = hp_mem h x" if "\<forall>r<?N. \<not> (addr r \<le> x \<and> x < addr r + ob)" for x
    unfolding mem by (rule fold_mem_write_frame) (use that len in auto)
  moreover have "reports out h' i" if i: "hp_next h \<le> i" "i < hp_next h + ?N" for i
  proof -
    have lo: "length order = ?N" using order by (metis card_lessThan distinct_card)
    define s where "s = order ! (i - hp_next h)"
    have s: "s < ?N" "pos order s = i - hp_next h" 
      using i lo order(2) nth_mem [of "i - hp_next h" order] pos_nth [OF order(1), of "i - hp_next h"] by (auto simp: s_def)
    then have "pc_ios q ! s = i" using io i by simp
    moreover have "\<forall>r\<in>set [0..<?N]. pc_ios q ! r \<noteq> 0 \<and> hp_ios h2 (pc_ios q ! r) \<noteq> None"
      using io ready(1) r(6) pos_less [of _ order] order(2) lo by auto
    ultimately show ?thesis using deliver_ranks_report [of "[0..<?N]" q h2 s out] s r(1) by auto
  qed
  ultimately show ?thesis using r(2) len by auto
qed

text \<open>Two ranks add the bytes 4 to 7 of their buffers, rank 1 first; each has its own destination.\<close>

definition sample_ranks :: ranks where
  "sample_ranks = \<lparr>rk_client = Suc, rk_dst = (\<lambda>r. 11 + r), rk_dst_offset = (\<lambda>r. 0),
    rk_src = (\<lambda>r. 11 + r), rk_src_offset = (\<lambda>r. 4)\<rparr>"

definition sample_coll_key :: SimCollectiveKey where
  "sample_coll_key = \<lparr>ck_comm_name = cstr ''world'', ck_rank_size = 2, ck_seq = 0, ck_kind = kAllReduce\<rparr>"

lemma sample_coll_ready:
  "all_ready sample_coll_key sample_ranks 4 4 (sample_heap 2)"
  "sizes_ok sample_coll_key 4 FLUME_DTYPE_UINT8 FLUME_REDUCE_SUM 4 4"
proof -
  have "\<forall>r<2. r = 0 \<or> r = (1::nat)" by auto
  then show "all_ready sample_coll_key sample_ranks 4 4 (sample_heap 2)"
    by (auto simp: all_ready_def buffers_ready_def client_ready_def sample_coll_key_def sample_ranks_def
        sample_simps ValidateRange_def IsSimBufferType_def)
  show "sizes_ok sample_coll_key 4 FLUME_DTYPE_UINT8 FLUME_REDUCE_SUM 4 4"
    by (simp add: sizes_ok_def sample_coll_key_def CheckedBytes_def)
qed

lemma sample_coll_sum:
  "collective_result (\<lambda>n op a b. replicate n 0) kAllReduce FLUME_DTYPE_UINT8 FLUME_REDUCE_SUM 4
    (map (rank_data (sample_heap 2) sample_ranks 4) [0..<2]) = [52, 54, 56, 58]"
  by (simp add: collective_result_def reduce_ref_def reduce_elem_def elem_def combine_int_def
      buffer_read_def sample_ranks_def sample_simps mem_read_def le_bytes_def bslice_def shift_in_def upt_rec)

theorem collective_completes_witness:
  "let r = fold (submit_rank (\<lambda>n op a b. replicate n 0) kAllReduce 4 FLUME_DTYPE_UINT8 FLUME_REDUCE_SUM sample_ranks)
      [1, 0] (sample_heap 2, Map.empty) in
    snd r = Map.empty \<and> buffer_read (fst r) 11 0 4 = [52, 54, 56, 58] \<and>
    buffer_read (fst r) 12 0 4 = [52, 54, 56, 58] \<and>
    reports [52, 54, 56, 58] (fst r) 20 \<and> reports [52, 54, 56, 58] (fst r) 21"
proof -
  let ?fp = "\<lambda>n op a b. replicate n 0 :: bytes"
  obtain h' m' where run: "fold (submit_rank ?fp kAllReduce 4 FLUME_DTYPE_UINT8 FLUME_REDUCE_SUM sample_ranks)
      [1, 0] (sample_heap 2, Map.empty) = (h', m')" by fastforce
  let ?addr = "\<lambda>r. bf_ptr (buffer_at (sample_heap 2) (rk_dst sample_ranks r)) + rk_dst_offset sample_ranks r"
  have two: "{..<2} = {0, Suc 0}" by auto
  have disj: "\<forall>r<2. \<forall>s<2. r \<noteq> s \<longrightarrow> ?addr r + 4 \<le> ?addr s \<or> ?addr s + 4 \<le> ?addr r"
    unfolding lessThan_iff [symmetric] two by (simp add: sample_ranks_def sample_simps)
  have "m' = Map.empty \<and> (\<forall>r<2. buffer_read h' (rk_dst sample_ranks r) (rk_dst_offset sample_ranks r) 4 = [52, 54, 56, 58]) \<and>
    (\<forall>i. 20 \<le> i \<and> i < 20 + 2 \<longrightarrow> reports [52, 54, 56, 58] h' i)"
    using collective_completes [of Map.empty sample_coll_key "sample_heap 2" sample_ranks 4 4 4 FLUME_DTYPE_UINT8
      FLUME_REDUCE_SUM "[1, 0]" ?fp ?addr "[52, 54, 56, 58]" h' m', OF _ _ sample_coll_ready] sample_coll_sum run two disj
    by (simp add: sample_coll_key_def fp_sized_def sample_heap_def insert_commute)
  then show ?thesis unfolding run lessThan_iff [symmetric] two by (simp add: sample_ranks_def)
qed

end
