(* ===== verification/Client_Session.thy ===== *)
theory Client_Session
  imports Client_Store Storage_Agent
begin

text \<open>
  The client's side of the framed protocol (\<open>src/core/client.cc\<close>): \<open>flume_client_open\<close>,
  \<open>flume_open\<close>, \<open>flume_pread_async\<close>, \<open>flume_close\<close> and \<open>flume_client_close\<close>.

  The state is the heap of client objects, the open files, and the open sockets by descriptor.  The
  socket calls of \<open>ConnectEndpoint\<close> are the parameter \<open>net\<close>: the answers of the system.  An operation
  that can pass a status of the agent through returns the 32-bit value of the C \<open>int\<close>.

  The lemmas follow the paths of \<open>flume_client_open\<close> (no failure keeps a socket or a client) and
  compose \<open>flume_pread_async\<close> with the agent's request handler: the bytes that end up in the
  buffer are the bytes of the file.
\<close>

section \<open>State\<close>

record flume_file =
  fl_client :: nat
  fl_file_id :: u64
  fl_size :: u64
  fl_path :: bytes

record session_state =
  ss_heap :: heap
  ss_files :: "nat \<rightharpoonup> flume_file"
  ss_conns :: "int \<rightharpoonup> conn"

text \<open>What the system answers: the descriptor of a new socket, whether the host is a dotted address, the
  connection to a listening peer, and the results of the two \<open>setsockopt\<close> calls.\<close>

record net_env =
  ne_socket :: "(int \<rightharpoonup> conn) \<Rightarrow> int option"
  ne_inet_pton :: "bytes \<Rightarrow> bool"
  ne_connect :: "bytes \<Rightarrow> u16 \<Rightarrow> conn option"
  ne_rcvtimeo :: bool
  ne_sndtimeo :: bool

section \<open>Connecting\<close>

definition is_digit :: "u8 \<Rightarrow> bool" where
  "is_digit b \<longleftrightarrow> 48 \<le> b \<and> b \<le> 57"

definition is_space :: "u8 \<Rightarrow> bool" where
  "is_space b \<longleftrightarrow> b = 32 \<or> (9 \<le> b \<and> b \<le> 13)"

definition dec_value :: "bytes \<Rightarrow> nat" where
  "dec_value ds = foldl (\<lambda>n d. 10 * n + (unat d - 48)) 0 ds"

text \<open>\<open>std::stoi\<close>: white space, an optional sign, the longest run of digits; \<open>None\<close> where it throws.\<close>

definition stoi :: "bytes \<Rightarrow> int option" where
  "stoi s =
    (let s = dropWhile is_space s;
         negative = (s \<noteq> [] \<and> hd s = 45);
         s = (if s \<noteq> [] \<and> (hd s = 45 \<or> hd s = 43) then tl s else s);
         ds = takeWhile is_digit s;
         v = (if negative then - int (dec_value ds) else int (dec_value ds))
     in if ds = [] \<or> v < - (2 ^ 31) \<or> 2 ^ 31 \<le> v then None else Some v)"

text \<open>The part of \<open>ConnectEndpoint\<close> before the first system call: host and port of an endpoint.\<close>

definition parse_endpoint :: "bytes \<Rightarrow> (bytes \<times> u16) option" where
  "parse_endpoint endpoint =
    (let prefix = cstr ''tcp://'';
         spec = (if take (length prefix) endpoint = prefix then drop (length prefix) endpoint else endpoint);
         after = takeWhile (\<lambda>b. b \<noteq> 58) (rev spec)
     in if length after = length spec then None
        else
          let colon = length spec - length after - 1
          in if colon = 0 \<or> colon + 1 \<ge> length spec then None
             else case stoi (drop (colon + 1) spec) of
               None \<Rightarrow> None
             | Some port \<Rightarrow>
                 if port \<le> 0 \<or> 65535 < port then None else Some (take colon spec, of_int port))"

definition SetSocketTimeouts :: "net_env \<Rightarrow> bool" where
  "SetSocketTimeouts net \<longleftrightarrow> ne_rcvtimeo net \<and> ne_sndtimeo net"

definition fresh_conn :: conn where
  "fresh_conn = \<lparr>c_rx = [], c_tx = [], c_sent = []\<rparr>"

definition ConnectEndpoint ::
    "net_env \<Rightarrow> bytes option \<Rightarrow> (int \<rightharpoonup> conn) \<Rightarrow> (flume_status + int) \<times> (int \<rightharpoonup> conn)" where
  "ConnectEndpoint net endpoint conns =
    (case endpoint of None \<Rightarrow> (Inl FLUME_ERR_INVALID_ARGUMENT, conns) | Some spec \<Rightarrow>
     (case parse_endpoint spec of None \<Rightarrow> (Inl FLUME_ERR_INVALID_ARGUMENT, conns) | Some (host, port) \<Rightarrow>
      (case ne_socket net conns of None \<Rightarrow> (Inl FLUME_ERR_IO, conns) | Some fd \<Rightarrow>
       let conns = conns(fd \<mapsto> fresh_conn) in
       if \<not> ne_inet_pton net host then (Inl FLUME_ERR_INVALID_ARGUMENT, conns(fd := None))
       else case ne_connect net host port of
         None \<Rightarrow> (Inl FLUME_ERR_IO, conns(fd := None))
       | Some c \<Rightarrow>
           if \<not> SetSocketTimeouts net then (Inl FLUME_ERR_IO, conns(fd := None))
           else (Inr fd, conns(fd \<mapsto> c)))))"

section \<open>Frames on a descriptor\<close>

text \<open>A descriptor that is not open answers every call with \<open>EBADF\<close>.\<close>

definition conn_at :: "(int \<rightharpoonup> conn) \<Rightarrow> int \<Rightarrow> conn" where
  "conn_at conns fd = (case conns fd of Some c \<Rightarrow> c
    | None \<Rightarrow> \<lparr>c_rx = [RxFail ''Bad file descriptor''], c_tx = [TxFail ''Bad file descriptor''], c_sent = []\<rparr>)"

definition put_conn :: "int \<Rightarrow> conn \<Rightarrow> (int \<rightharpoonup> conn) \<Rightarrow> int \<rightharpoonup> conn" where
  "put_conn fd c conns = (if conns fd = None then conns else conns(fd \<mapsto> c))"

definition fd_WriteFrame :: "int \<Rightarrow> Frame \<Rightarrow> (int \<rightharpoonup> conn) \<Rightarrow> string option \<times> (int \<rightharpoonup> conn)" where
  "fd_WriteFrame fd f conns = (case WriteFrame (conn_at conns fd) f of (r, c) \<Rightarrow> (r, put_conn fd c conns))"

definition fd_ReadFrame :: "int \<Rightarrow> (int \<rightharpoonup> conn) \<Rightarrow> (string + Frame) \<times> (int \<rightharpoonup> conn)" where
  "fd_ReadFrame fd conns = (case ReadFrame (c_rx (conn_at conns fd)) of
     (r, es) \<Rightarrow> (r, put_conn fd ((conn_at conns fd)\<lparr>c_rx := es\<rparr>) conns))"

definition NextRequestId :: "nat \<Rightarrow> heap \<Rightarrow> u64 \<times> heap" where
  "NextRequestId client h = (cl_next_request_id (client_at h client),
    upd_client client (\<lambda>cl. cl\<lparr>cl_next_request_id := cl_next_request_id cl + 1\<rparr>) h)"

definition ReadStatusString :: "Frame \<Rightarrow> flume_status \<times> u32 option" where
  "ReadStatusString f = (case ReadU32 (reader (body f)) of
     (None, r) \<Rightarrow> (FLUME_ERR_PROTOCOL, None) | (Some raw_status, r) \<Rightarrow> (FLUME_OK, Some raw_status))"

section \<open>Opening and closing a client\<close>

definition flume_client_close :: "nat \<Rightarrow> session_state \<Rightarrow> flume_status \<times> session_state" where
  "flume_client_close client s =
    (if client = 0 then (FLUME_OK, s)
     else
       let fd = cl_fd (client_at (ss_heap s) client);
           s = (if 0 \<le> fd then s\<lparr>ss_conns := (ss_conns s)(fd := None)\<rparr> else s)
       in (FLUME_OK, s\<lparr>ss_heap := ss_heap s\<lparr>hp_clients := (hp_clients (ss_heap s))(client := None)\<rparr>\<rparr>))"

definition alloc_client :: "flume_client \<Rightarrow> heap \<Rightarrow> nat \<times> heap" where
  "alloc_client cl h =
    (hp_next h, h\<lparr>hp_clients := (hp_clients h)(hp_next h \<mapsto> cl), hp_next := hp_next h + 1\<rparr>)"

definition parse_hello_ack :: "bytes \<Rightarrow> u32 option" where
  "parse_hello_ack b =
    (case ReadU32 (reader b) of (None, r) \<Rightarrow> None | (Some status, r) \<Rightarrow>
     (case ReadString r of (None, r) \<Rightarrow> None | (Some capabilities, r) \<Rightarrow> Some status))"

text \<open>The result is the status and the client, 0 for none.\<close>

definition flume_client_open ::
    "net_env \<Rightarrow> bytes option \<Rightarrow> session_state \<Rightarrow> (u32 \<times> nat) \<times> session_state" where
  "flume_client_open net endpoint s =
    (case ConnectEndpoint net endpoint (ss_conns s) of
       (Inl ret, conns) \<Rightarrow> ((status_u32 ret, 0), s\<lparr>ss_conns := conns\<rparr>)
     | (Inr fd, conns) \<Rightarrow>
         (case alloc_client (new_client\<lparr>cl_fd := fd\<rparr>) (ss_heap s) of (client, h) \<Rightarrow>
          (case NextRequestId client h of (rid, h) \<Rightarrow>
           let hello = \<lparr>f_type = kHello, request_id = rid, body = AppendString [] (cstr ''flume-client'')\<rparr>;
               give_up = (\<lambda>st conns. ((st, 0), snd (flume_client_close client (s\<lparr>ss_heap := h, ss_conns := conns\<rparr>))))
           in case fd_WriteFrame fd hello conns of
             (Some error, conns) \<Rightarrow> give_up (status_u32 FLUME_ERR_IO) conns
           | (None, conns) \<Rightarrow>
               (case fd_ReadFrame fd conns of
                  (Inl error, conns) \<Rightarrow> give_up (status_u32 FLUME_ERR_PROTOCOL) conns
                | (Inr ack, conns) \<Rightarrow>
                    if f_type ack \<noteq> kHelloAck then give_up (status_u32 FLUME_ERR_PROTOCOL) conns
                    else case parse_hello_ack (body ack) of
                      None \<Rightarrow> give_up (status_u32 FLUME_ERR_PROTOCOL) conns
                    | Some status \<Rightarrow>
                        if status \<noteq> status_u32 FLUME_OK then give_up status conns
                        else ((status_u32 FLUME_OK, client), s\<lparr>ss_heap := h, ss_conns := conns\<rparr>)))))"

section \<open>Files\<close>

definition parse_open_resp :: "bytes \<Rightarrow> (u32 \<times> u64 \<times> u64 \<times> bytes) option" where
  "parse_open_resp b =
    (case ReadU32 (reader b) of (None, r) \<Rightarrow> None | (Some status, r) \<Rightarrow>
     (case ReadU64 r of (None, r) \<Rightarrow> None | (Some file_id, r) \<Rightarrow>
      (case ReadU64 r of (None, r) \<Rightarrow> None | (Some file_size, r) \<Rightarrow>
       (case ReadString r of (None, r) \<Rightarrow> None | (Some error, r) \<Rightarrow>
        Some (status, file_id, file_size, error)))))"

definition flume_open :: "nat \<Rightarrow> bytes option \<Rightarrow> session_state \<Rightarrow> (u32 \<times> nat) \<times> session_state" where
  "flume_open client path s =
    (case path of None \<Rightarrow> ((status_u32 FLUME_ERR_INVALID_ARGUMENT, 0), s) | Some path \<Rightarrow>
     if client = 0 then ((status_u32 FLUME_ERR_INVALID_ARGUMENT, 0), s)
     else case NextRequestId client (ss_heap s) of (rid, h) \<Rightarrow>
       let fd = cl_fd (client_at h client);
           req = \<lparr>f_type = kOpenReq, request_id = rid, body = AppendString [] path\<rparr>;
           s = s\<lparr>ss_heap := h\<rparr>
       in case fd_WriteFrame fd req (ss_conns s) of
         (Some error, conns) \<Rightarrow> ((status_u32 FLUME_ERR_IO, 0), s\<lparr>ss_conns := conns\<rparr>)
       | (None, conns) \<Rightarrow>
           (case fd_ReadFrame fd conns of
              (Inl error, conns) \<Rightarrow> ((status_u32 FLUME_ERR_PROTOCOL, 0), s\<lparr>ss_conns := conns\<rparr>)
            | (Inr resp, conns) \<Rightarrow>
                let s = s\<lparr>ss_conns := conns\<rparr> in
                if f_type resp \<noteq> kOpenResp then ((status_u32 FLUME_ERR_PROTOCOL, 0), s)
                else case parse_open_resp (body resp) of
                  None \<Rightarrow> ((status_u32 FLUME_ERR_PROTOCOL, 0), s)
                | Some (status, file_id, file_size, remote_error) \<Rightarrow>
                    if status \<noteq> status_u32 FLUME_OK then ((status, 0), s)
                    else
                      let file = \<lparr>fl_client = client, fl_file_id = file_id, fl_size = file_size, fl_path = path\<rparr>
                      in ((status_u32 FLUME_OK, hp_next h),
                          s\<lparr>ss_files := (ss_files s)(hp_next h \<mapsto> file),
                            ss_heap := h\<lparr>hp_next := hp_next h + 1\<rparr>\<rparr>)))"

definition file_at :: "session_state \<Rightarrow> nat \<Rightarrow> flume_file" where
  "file_at s file = the (ss_files s file)"

definition flume_close :: "nat \<Rightarrow> session_state \<Rightarrow> flume_status \<times> session_state" where
  "flume_close file s =
    (if file = 0 then (FLUME_OK, s)
     else
       let client = fl_client (file_at s file);
           fd = cl_fd (client_at (ss_heap s) client);
           s = (if client \<noteq> 0 \<and> 0 \<le> fd then
                  (case NextRequestId client (ss_heap s) of (rid, h) \<Rightarrow>
                   (case fd_WriteFrame fd \<lparr>f_type = kCloseReq, request_id = rid,
                       body = AppendU64 [] (fl_file_id (file_at s file))\<rparr> (ss_conns s) of (r, conns) \<Rightarrow>
                    (case fd_ReadFrame fd conns of (r, conns) \<Rightarrow> s\<lparr>ss_heap := h, ss_conns := conns\<rparr>)))
                else s)
       in (FLUME_OK, s\<lparr>ss_files := (ss_files s)(file := None)\<rparr>))"

section \<open>Reading\<close>

definition parse_read_resp :: "bytes \<Rightarrow> (u32 \<times> u64 \<times> u32 \<times> bytes \<times> Reader) option" where
  "parse_read_resp b =
    (case ReadU32 (reader b) of (None, r) \<Rightarrow> None | (Some status, r) \<Rightarrow>
     (case ReadU64 r of (None, r) \<Rightarrow> None | (Some n, r) \<Rightarrow>
      (case ReadU32 r of (None, r) \<Rightarrow> None | (Some checksum, r) \<Rightarrow>
       (case ReadString r of (None, r) \<Rightarrow> None | (Some error, r) \<Rightarrow>
        Some (status, n, checksum, error, r)))))"

text \<open>The handle and the memory after the response: \<open>put\<close> receives the payload.\<close>

definition read_resp_io :: "Frame \<Rightarrow> nat \<Rightarrow> flume_io \<times> bytes option" where
  "read_resp_io resp len =
    (if f_type resp \<noteq> kReadResp
     then (new_io\<lparr>io_status := status_u32 FLUME_ERR_PROTOCOL, io_error := cstr ''invalid READ_RESP''\<rparr>, None)
     else case parse_read_resp (body resp) of
       None \<Rightarrow> (new_io\<lparr>io_status := status_u32 FLUME_ERR_PROTOCOL, io_error := cstr ''malformed READ_RESP''\<rparr>, None)
     | Some (status, n, checksum, remote_error, r) \<Rightarrow>
         let k = min (unat n) len;
             io = new_io\<lparr>io_status := status, io_bytes := k, io_checksum := checksum, io_error := remote_error\<rparr>
         in if status = status_u32 FLUME_OK then
              (case ReadRaw r k of
                 (None, r) \<Rightarrow> (io\<lparr>io_status := status_u32 FLUME_ERR_PROTOCOL,
                   io_error := cstr ''READ_RESP payload length mismatch''\<rparr>, None)
               | (Some payload, r) \<Rightarrow> (io, Some payload))
            else (io, None))"

definition flume_pread_async ::
    "nat \<Rightarrow> nat \<Rightarrow> nat \<Rightarrow> u64 \<Rightarrow> nat \<Rightarrow> session_state \<Rightarrow> (flume_status \<times> nat) \<times> session_state" where
  "flume_pread_async file dst len file_offset buffer_offset s =
    (if file = 0 \<or> dst = 0 then ((FLUME_ERR_INVALID_ARGUMENT, 0), s)
     else if buffer_offset > bf_len (buffer_at (ss_heap s) dst) \<or>
       len > bf_len (buffer_at (ss_heap s) dst) - buffer_offset then ((FLUME_ERR_INVALID_ARGUMENT, 0), s)
     else if \<not> IsReadableLocalType (bf_type (buffer_at (ss_heap s) dst)) then ((FLUME_ERR_UNSUPPORTED, 0), s)
     else
       let client = fl_client (file_at s file) in
       case NextRequestId client (ss_heap s) of (rid, h) \<Rightarrow>
         let fd = cl_fd (client_at h client);
             req = \<lparr>f_type = kReadReq, request_id = rid,
               body = AppendU64 (AppendU64 (AppendU64 [] (fl_file_id (file_at s file))) file_offset) (of_nat len)\<rparr>;
             finish = (\<lambda>(io, payload) conns.
               let h = (case payload of None \<Rightarrow> h | Some d \<Rightarrow> buffer_write dst buffer_offset d h)
               in case alloc_io io h of (i, h) \<Rightarrow> ((FLUME_OK, i), s\<lparr>ss_heap := h, ss_conns := conns\<rparr>))
         in case fd_WriteFrame fd req (ss_conns s) of
           (Some error, conns) \<Rightarrow>
             finish (new_io\<lparr>io_status := status_u32 FLUME_ERR_IO, io_error := cstr error\<rparr>, None) conns
         | (None, conns) \<Rightarrow>
             (case fd_ReadFrame fd conns of
                (Inl error, conns) \<Rightarrow>
                  finish (new_io\<lparr>io_status := status_u32 FLUME_ERR_PROTOCOL, io_error := cstr error\<rparr>, None) conns
              | (Inr resp, conns) \<Rightarrow> finish (read_resp_io resp len) conns))"

section \<open>No failure keeps a socket or a client\<close>

lemma fd_ops_dom:
  "fd_WriteFrame fd f conns = (r, conns') \<Longrightarrow> \<forall>k. k \<noteq> fd \<longrightarrow> conns' k = conns k"
  "fd_ReadFrame fd conns = (q, conns') \<Longrightarrow> \<forall>k. k \<noteq> fd \<longrightarrow> conns' k = conns k"
  "fd_WriteFrame fd f conns = (r, conns') \<Longrightarrow> (conns' fd = None) = (conns fd = None)"
  "fd_ReadFrame fd conns = (q, conns') \<Longrightarrow> (conns' fd = None) = (conns fd = None)"
  by (auto simp: fd_WriteFrame_def fd_ReadFrame_def put_conn_def split: prod.splits if_splits)

lemma ConnectEndpoint_cases:
  assumes "ConnectEndpoint net endpoint conns = (r, conns')"
    "\<And>fd. ne_socket net conns = Some fd \<Longrightarrow> conns fd = None \<and> 0 \<le> fd"
  shows "(\<exists>st. r = Inl st \<and> st \<noteq> FLUME_OK \<and> conns' = conns) \<or>
    (\<exists>fd c. r = Inr fd \<and> 0 \<le> fd \<and> conns fd = None \<and> conns' = conns(fd \<mapsto> c))"
proof -
  have "conns(fd := None) = conns" if "ne_socket net conns = Some fd" for fd
    using assms(2) [OF that] by auto
  then show ?thesis using assms
    by (auto simp: ConnectEndpoint_def Let_def split: option.splits prod.splits if_splits)
qed

text \<open>\<open>flume_client_close\<close> undoes what \<open>flume_client_open\<close> has done so far.\<close>

lemma close_undoes_open:
  assumes "hp_clients h (hp_next h) = None" "conns fd = None" "0 \<le> fd" "\<forall>k. k \<noteq> fd \<longrightarrow> conns' k = conns k"
    "alloc_client (new_client\<lparr>cl_fd := fd\<rparr>) h = (client, h1)" "NextRequestId client h1 = (rid, h2)" "client \<noteq> 0"
  shows "ss_conns (snd (flume_client_close client (s\<lparr>ss_heap := h2, ss_conns := conns'\<rparr>))) = conns \<and>
    hp_clients (ss_heap (snd (flume_client_close client (s\<lparr>ss_heap := h2, ss_conns := conns'\<rparr>)))) = hp_clients h"
  using assms
  by (auto simp: flume_client_close_def alloc_client_def NextRequestId_def heap_simps Let_def fun_eq_iff)

text \<open>Property C29. Opening a client, with any answers of the system and any bytes from the peer: either a
  new client is returned with status success, holding the one new open socket, or no client is
  returned, the status is an error, and the sockets and clients are those from before.  The
  hypothesis is what \<open>socket\<close> guarantees: a new descriptor is nonnegative and not in use.\<close>

theorem client_open_no_leak:
  assumes "\<And>fd. ne_socket net (ss_conns s) = Some fd \<Longrightarrow> ss_conns s fd = None \<and> 0 \<le> fd"
    "hp_clients (ss_heap s) (hp_next (ss_heap s)) = None" "0 < hp_next (ss_heap s)"
    "flume_client_open net endpoint s = ((st, client), s')"
  shows "(client = 0 \<and> st \<noteq> status_u32 FLUME_OK \<and> ss_conns s' = ss_conns s \<and>
      hp_clients (ss_heap s') = hp_clients (ss_heap s)) \<or>
    (\<exists>fd. client = hp_next (ss_heap s) \<and> st = status_u32 FLUME_OK \<and> ss_conns s fd = None \<and>
      dom (ss_conns s') = insert fd (dom (ss_conns s)) \<and>
      hp_clients (ss_heap s') =
        (hp_clients (ss_heap s))(client \<mapsto> new_client\<lparr>cl_fd := fd, cl_next_request_id := 2\<rparr>))"
proof -
  obtain r conns where ce: "ConnectEndpoint net endpoint (ss_conns s) = (r, conns)" by fastforce
  consider (fail) ret where "r = Inl ret" "ret \<noteq> FLUME_OK" "conns = ss_conns s"
    | (ok) fd c where "r = Inr fd" "0 \<le> fd" "ss_conns s fd = None" "conns = (ss_conns s)(fd \<mapsto> c)"
    using ConnectEndpoint_cases [OF ce assms(1)] by auto
  then show ?thesis
  proof cases
    case fail
    have "status_u32 ret \<noteq> status_u32 FLUME_OK" using fail(2) by (cases ret) (simp_all add: status_u32_def)
    then show ?thesis using assms(4) ce fail by (auto simp: flume_client_open_def)
  next
    case ok
    let ?cl = "hp_next (ss_heap s)"
    obtain h1 where al: "alloc_client (new_client\<lparr>cl_fd := fd\<rparr>) (ss_heap s) = (?cl, h1)" by (simp add: alloc_client_def)
    obtain rid h2 where h2: "NextRequestId ?cl h1 = (rid, h2)" by fastforce
    have others: "\<forall>k. k \<noteq> fd \<longrightarrow> conns k = ss_conns s k" using ok by simp
    define give_up where "give_up st conns' \<longleftrightarrow> st \<noteq> status_u32 FLUME_OK \<and> (\<forall>k. k \<noteq> fd \<longrightarrow> conns' k = ss_conns s k) \<and>
      ((st, client), s') = ((st, 0), snd (flume_client_close ?cl (s\<lparr>ss_heap := h2, ss_conns := conns'\<rparr>)))" for st conns'
    have give_up: ?thesis if "give_up st' conns'" "st' = st" for st' conns'
      using that close_undoes_open [where conns = "ss_conns s" and conns' = conns', OF assms(2) ok(3,2) _ al h2] assms(3) by (auto simp: give_up_def)
    have err: "status_u32 FLUME_ERR_IO \<noteq> status_u32 FLUME_OK" "status_u32 FLUME_ERR_PROTOCOL \<noteq> status_u32 FLUME_OK"
      by (simp_all add: status_u32_def)
    have "(\<exists>conns'. give_up st conns') \<or> (st = status_u32 FLUME_OK \<and> client = ?cl \<and>
        (\<exists>conns'. s' = s\<lparr>ss_heap := h2, ss_conns := conns'\<rparr> \<and> conns' fd \<noteq> None \<and> (\<forall>k. k \<noteq> fd \<longrightarrow> conns' k = ss_conns s k)))"
    proof -
      let ?hello = "\<lparr>f_type = kHello, request_id = rid, body = AppendString [] (cstr ''flume-client'')\<rparr>"
      obtain w conns1 where w: "fd_WriteFrame fd ?hello conns = (w, conns1)" by fastforce
      obtain q conns2 where q: "fd_ReadFrame fd conns1 = (q, conns2)" by fastforce
      have c: "\<forall>k. k \<noteq> fd \<longrightarrow> conns1 k = ss_conns s k" "\<forall>k. k \<noteq> fd \<longrightarrow> conns2 k = ss_conns s k" "conns2 fd \<noteq> None"
        using fd_ops_dom(1,3) [OF w] fd_ops_dom(2,4) [OF q] others ok(4) by auto
      note run = assms(4) [unfolded flume_client_open_def ce ok(1) prod.case sum.case al h2 Let_def w]
      show ?thesis
      proof (cases w)
        case (Some e)
        then show ?thesis using run c err by (auto simp: give_up_def)
      next
        case None
        note run' = run [unfolded None option.case prod.case q]
        show ?thesis
        proof (cases q)
          case (Inl e)
          then show ?thesis using run' c err by (auto simp: give_up_def)
        next
          case (Inr ack)
          then show ?thesis using run' c err
            by (cases "f_type ack = kHelloAck"; cases "parse_hello_ack (body ack)")
              (auto simp: give_up_def split: if_splits)
        qed
      qed
    qed
    then show ?thesis
    proof (elim disjE exE conjE)
      show ?thesis if "give_up st conns'" for conns' using give_up [OF that] by simp
    next
      fix conns'
      assume r: "st = status_u32 FLUME_OK" "client = ?cl" "s' = s\<lparr>ss_heap := h2, ss_conns := conns'\<rparr>"
        "conns' fd \<noteq> None" "\<forall>k. k \<noteq> fd \<longrightarrow> conns' k = ss_conns s k"
      have "dom conns' = insert fd (dom (ss_conns s))" using r(4,5) by (auto simp: dom_def)
      then show ?thesis using r ok h2 al
        by (intro disjI2 exI [of _ fd]) (auto simp: NextRequestId_def alloc_client_def heap_simps new_client_def)
    qed
  qed
qed

text \<open>A peer that answers the hello, and a system that hands out descriptor 7.\<close>

definition sample_net :: "conn \<Rightarrow> net_env" where
  "sample_net c = \<lparr>ne_socket = (\<lambda>conns. if conns 7 = None then Some 7 else None), ne_inet_pton = (\<lambda>host. True),
    ne_connect = (\<lambda>host port. Some c), ne_rcvtimeo = True, ne_sndtimeo = True\<rparr>"

definition sample_session :: session_state where
  "sample_session = \<lparr>ss_heap = \<lparr>hp_mem = of_nat, hp_brk = 1000, hp_next = 20, hp_clients = Map.empty,
    hp_buffers = Map.empty, hp_ios = Map.empty\<rparr>, ss_files = Map.empty, ss_conns = Map.empty\<rparr>"

theorem client_open_no_leak_witness:
  "\<exists>st client s'. flume_client_open (sample_net fresh_conn) (Some (cstr ''127.0.0.1:9000'')) sample_session =
      ((st, client), s') \<and>
    (client = 0 \<and> ss_conns s' = Map.empty \<and> hp_clients (ss_heap s') = Map.empty \<or>
     client = 20 \<and> (\<exists>fd. dom (ss_conns s') = {fd}))"
proof -
  obtain st client s' where r: "flume_client_open (sample_net fresh_conn) (Some (cstr ''127.0.0.1:9000''))
      sample_session = ((st, client), s')" by (metis prod.exhaust)
  have "ne_socket (sample_net fresh_conn) (ss_conns sample_session) = Some fd \<Longrightarrow>
      ss_conns sample_session fd = None \<and> 0 \<le> fd" for fd by (simp add: sample_net_def sample_session_def)
  from client_open_no_leak [OF this _ _ r] r show ?thesis by (auto simp: sample_session_def)
qed

section \<open>An exchange with the agent\<close>

lemma exchange_clean:
  assumes "conns fd = Some c" "tx_clean c" "length (body req) \<le> kMaxBodySize" "length (body resp) \<le> kMaxBodySize"
    "rx_stream (c_rx c) = encode_frame resp @ rest"
  obtains conns1 c2 where "fd_WriteFrame fd req conns = (None, conns1)"
    "fd_ReadFrame fd conns1 = (Inr resp, conns(fd \<mapsto> c2))" "c_sent c2 = c_sent c @ encode_frame req"
    "rx_stream (c_rx c2) = rest" "tx_clean c2"
proof -
  obtain c1 where c1: "WriteFrame c req = (None, c1)" "tx_clean c1" "c_rx c1 = c_rx c"
    "c_sent c1 = c_sent c @ frame_header req @ body req" using WriteFrame_clean [OF assms(3,2)] .
  have "rx_stream (c_rx c) = frame_header resp @ body resp @ rest" using assms(5) by (simp add: encode_frame_def)
  from ReadFrame_complete [OF assms(4) this] obtain es where es: "ReadFrame (c_rx c) = (Inr resp, es)" "rx_stream es = rest" .
  show thesis
  proof
    show "fd_WriteFrame fd req conns = (None, conns(fd \<mapsto> c1))"
      using assms(1) c1(1) by (simp add: fd_WriteFrame_def conn_at_def put_conn_def)
    show "fd_ReadFrame fd (conns(fd \<mapsto> c1)) = (Inr resp, conns(fd \<mapsto> c1\<lparr>c_rx := es\<rparr>))"
      using c1(3) es(1) by (simp add: fd_ReadFrame_def conn_at_def put_conn_def)
  qed (use c1 es in \<open>simp_all add: encode_frame_def tx_clean_def\<close>)
qed

lemma parse_read_resp_ok:
  "\<exists>r. parse_read_resp (read_resp_body (Inr p)) =
      Some (status_u32 FLUME_OK, of_nat (length p), Checksum32 p, [], r) \<and> unread r = p"
proof -
  have b: "read_resp_body (Inr p) = be32 (status_u32 FLUME_OK) @ be64 (of_nat (length p)) @ be32 (Checksum32 p) @
      be32 (of_nat (length ([] :: bytes))) @ [] @ p"
    by (simp add: read_resp_body_def Let_def Append_be AppendString_be AppendBytes_def StatusFromBool_def)
  obtain r1 where r1: "ReadU32 (reader (read_resp_body (Inr p))) = (Some (status_u32 FLUME_OK), r1)" "reader_inv r1"
    "unread r1 = be64 (of_nat (length p)) @ be32 (Checksum32 p) @ be32 (of_nat (length ([] :: bytes))) @ [] @ p"
    using ReadU32_be [of "reader (read_resp_body (Inr p))"] b by force
  obtain r2 where r2: "ReadU64 r1 = (Some (of_nat (length p)), r2)" "reader_inv r2"
    "unread r2 = be32 (Checksum32 p) @ be32 (of_nat (length ([] :: bytes))) @ [] @ p" using ReadU64_be [OF r1(3,2)] by auto
  obtain r3 where r3: "ReadU32 r2 = (Some (Checksum32 p), r3)" "reader_inv r3"
    "unread r3 = be32 (of_nat (length ([] :: bytes))) @ [] @ p" using ReadU32_be [OF r2(3,2)] by auto
  obtain r4 where "ReadString r3 = (Some [], r4)" "unread r4 = p" using ReadString_be [OF r3(3,2)] by auto
  then show ?thesis using r1 r2 r3 by (simp add: parse_read_resp_def)
qed

lemma read_resp_io_ok:
  assumes "length p \<le> len" "length p < 2 ^ 64"
  shows "read_resp_io \<lparr>f_type = kReadResp, request_id = rid, body = read_resp_body (Inr p)\<rparr> len =
    (new_io\<lparr>io_bytes := length p, io_checksum := Checksum32 p\<rparr>, Some p)"
proof -
  obtain r where r: "parse_read_resp (read_resp_body (Inr p)) =
      Some (status_u32 FLUME_OK, of_nat (length p), Checksum32 p, [], r)" "unread r = p" using parse_read_resp_ok by blast
  have "unat (of_nat (length p) :: u64) = length p" using assms(2) by (simp add: unat_of_nat)
  then show ?thesis using r assms(1) by (simp add: read_resp_io_def ReadRaw_unread Let_def new_io_def)
qed

text \<open>The handle and the payload that a response of any content gives.\<close>

lemma read_resp_io_bounds:
  assumes "read_resp_io resp len = (io, p)"
  shows "io_done io \<and> io_pending io = 0 \<and> io_bytes io \<le> len \<and>
    (case p of None \<Rightarrow> io_status io \<noteq> status_u32 FLUME_OK
     | Some d \<Rightarrow> io_status io = status_u32 FLUME_OK \<and> length d = io_bytes io)"
proof -
  have "status_u32 FLUME_ERR_PROTOCOL \<noteq> status_u32 FLUME_OK" by (simp add: status_u32_def)
  then show ?thesis using assms
    by (auto simp: read_resp_io_def Let_def new_io_def ReadRaw_unread split: if_splits option.splits prod.splits)
qed

text \<open>What \<open>flume_pread_async\<close> does in every case: it is rejected, or it finishes a handle.\<close>

definition pread_done :: "nat \<Rightarrow> nat \<Rightarrow> nat \<Rightarrow> flume_io \<times> bytes option \<Rightarrow> session_state \<Rightarrow> session_state \<Rightarrow> bool" where
  "pread_done client dst buffer_offset res s s' \<longleftrightarrow>
    (\<exists>rid h. NextRequestId client (ss_heap s) = (rid, h) \<and>
      ss_heap s' = snd (alloc_io (fst res) (case snd res of None \<Rightarrow> h | Some d \<Rightarrow> buffer_write dst buffer_offset d h)))"

lemma pread_cases:
  assumes "flume_pread_async file dst len off boff s = ((r, io), s')"
  shows "(r \<noteq> FLUME_OK \<and> s' = s) \<or>
    (r = FLUME_OK \<and> io = hp_next (ss_heap s) \<and> ss_files s' = ss_files s \<and>
     dst \<noteq> 0 \<and> boff + len \<le> bf_len (buffer_at (ss_heap s) dst) \<and>
     (\<exists>res. pread_done (fl_client (file_at s file)) dst boff res s s' \<and>
       ((\<exists>st e. res = (new_io\<lparr>io_status := status_u32 st, io_error := e\<rparr>, None) \<and> st \<noteq> FLUME_OK) \<or>
        (\<exists>resp. res = read_resp_io resp len))))"
proof (cases "file = 0 \<or> dst = 0 \<or> boff > bf_len (buffer_at (ss_heap s) dst) \<or>
    len > bf_len (buffer_at (ss_heap s) dst) - boff \<or> \<not> IsReadableLocalType (bf_type (buffer_at (ss_heap s) dst))")
  case True
  then show ?thesis using assms by (auto simp: flume_pread_async_def split: if_splits)
next
  case False
  then have g: "\<not> (file = 0 \<or> dst = 0)" "\<not> (boff > bf_len (buffer_at (ss_heap s) dst) \<or>
      len > bf_len (buffer_at (ss_heap s) dst) - boff)"
    "\<not> \<not> IsReadableLocalType (bf_type (buffer_at (ss_heap s) dst))" by auto
  let ?c = "fl_client (file_at s file)"
  obtain rid h where h: "NextRequestId ?c (ss_heap s) = (rid, h)" by fastforce
  let ?req = "\<lparr>f_type = kReadReq, request_id = rid,
      body = AppendU64 (AppendU64 (AppendU64 [] (fl_file_id (file_at s file))) off) (of_nat len)\<rparr>"
  obtain w conns1 where w: "fd_WriteFrame (cl_fd (client_at h ?c)) ?req (ss_conns s) = (w, conns1)" by fastforce
  obtain q conns2 where q: "fd_ReadFrame (cl_fd (client_at h ?c)) conns1 = (q, conns2)" by fastforce
  have nx: "hp_next (case p of None \<Rightarrow> h | Some d \<Rightarrow> buffer_write dst boff d h) = hp_next (ss_heap s)" for p
    using h by (auto simp: NextRequestId_def heap_simps split: option.splits)
  note run = assms [unfolded flume_pread_async_def if_not_P [OF g(1)] if_not_P [OF g(2)] if_not_P [OF g(3)]
      Let_def h prod.case w]
  have fin: "r = FLUME_OK \<and> io = hp_next (ss_heap s) \<and> ss_files s' = ss_files s \<and> pread_done ?c dst boff res s s'"
    if "(case alloc_io (fst res) (case snd res of None \<Rightarrow> h | Some d \<Rightarrow> buffer_write dst boff d h) of
        (i, h) \<Rightarrow> ((FLUME_OK, i), s\<lparr>ss_heap := h, ss_conns := conns'\<rparr>)) = ((r, io), s')" for res conns'
    using that nx by (auto simp: alloc_io_def pread_done_def h)
  note fin' = fin [where res = "(a, b)" for a b, unfolded fst_conv snd_conv]
  show ?thesis
  proof (cases w)
    case (Some e)
    have "r = FLUME_OK \<and> io = hp_next (ss_heap s) \<and> ss_files s' = ss_files s \<and> pread_done ?c dst boff
        (new_io\<lparr>io_status := status_u32 FLUME_ERR_IO, io_error := cstr e\<rparr>, None) s s'"
      using run [unfolded Some option.case prod.case] by (intro fin) simp
    then show ?thesis using g by (intro disjI2) auto
  next
    case None
    note run' = run [unfolded None option.case prod.case q]
    show ?thesis
    proof (cases q)
      case (Inl e)
      have "r = FLUME_OK \<and> io = hp_next (ss_heap s) \<and> ss_files s' = ss_files s \<and> pread_done ?c dst boff
          (new_io\<lparr>io_status := status_u32 FLUME_ERR_PROTOCOL, io_error := cstr e\<rparr>, None) s s'"
        using run' [unfolded Inl sum.case prod.case] by (intro fin) simp
      then show ?thesis using g by (intro disjI2) auto
    next
      case (Inr resp)
      have "r = FLUME_OK \<and> io = hp_next (ss_heap s) \<and> ss_files s' = ss_files s \<and> pread_done ?c dst boff
          (read_resp_io resp len) s s'"
        using run' [unfolded Inr sum.case prod.case] by (intro fin [where conns' = conns2]) (simp add: case_prod_beta)
      then show ?thesis using g by (intro disjI2) (auto simp del: split_paired_Ex)
    qed
  qed
qed

text \<open>Property C30. Reading is confined, whatever the peer sends.  \<open>flume_pread_async\<close> is rejected and changes
  nothing, or returns a completed handle that reports at most the requested number of bytes; only
  memory of the requested range of the destination buffer, which lies inside the buffer, can have
  changed, and not even that when the handle reports an error.\<close>

theorem pread_confined:
  assumes "flume_pread_async file dst len off boff s = ((r, io), s')" "hp_buffers (ss_heap s) dst \<noteq> None"
  shows "(r \<noteq> FLUME_OK \<and> s' = s) \<or>
    (\<exists>x. r = FLUME_OK \<and> hp_ios (ss_heap s') io = Some x \<and> io_done x \<and> io_bytes x \<le> len \<and>
      boff + len \<le> bf_len (buffer_at (ss_heap s) dst) \<and> hp_buffers (ss_heap s') = hp_buffers (ss_heap s) \<and>
      (\<forall>a. hp_mem (ss_heap s') a \<noteq> hp_mem (ss_heap s) a \<longrightarrow> io_status x = status_u32 FLUME_OK \<and>
        bf_ptr (buffer_at (ss_heap s) dst) + boff \<le> a \<and> a < bf_ptr (buffer_at (ss_heap s) dst) + boff + io_bytes x))"
proof (cases "r \<noteq> FLUME_OK \<and> s' = s")
  case False
  then obtain res where a: "r = FLUME_OK" "io = hp_next (ss_heap s)" "boff + len \<le> bf_len (buffer_at (ss_heap s) dst)"
    and d: "pread_done (fl_client (file_at s file)) dst boff res s s'"
    and res: "(\<exists>st e. res = (new_io\<lparr>io_status := status_u32 st, io_error := e\<rparr>, None) \<and> st \<noteq> FLUME_OK) \<or>
      (\<exists>resp. res = read_resp_io resp len)"
    using pread_cases [OF assms(1)] by blast
  have b: "io_done (fst res) \<and> io_bytes (fst res) \<le> len \<and>
      (case snd res of None \<Rightarrow> True | Some p \<Rightarrow> io_status (fst res) = status_u32 FLUME_OK \<and> length p = io_bytes (fst res))"
    using res
  proof (elim disjE exE conjE)
    fix resp assume "res = read_resp_io resp len"
    then show ?thesis using read_resp_io_bounds [of resp len "fst res" "snd res"] by (auto split: option.splits)
  qed (simp add: new_io_def)
  show ?thesis
    using d a b by (auto simp: pread_done_def NextRequestId_def heap_simps mem_write_def split: option.splits if_splits)
qed simp

text \<open>A client connected to \<open>sample_agent\<close>, with file 1 open and a buffer of 16 bytes at address 100.\<close>

definition reading_session :: "conn \<Rightarrow> session_state" where
  "reading_session c = \<lparr>ss_heap = \<lparr>hp_mem = (\<lambda>a. 0), hp_brk = 1000, hp_next = 20,
      hp_clients = [1 \<mapsto> new_client\<lparr>cl_fd := 7, cl_next_request_id := 3\<rparr>],
      hp_buffers = [11 \<mapsto> \<lparr>bf_client = 1, bf_ptr = 100, bf_len = 16, bf_type = FLUME_BUFFER_SIM_HBM,
        bf_a3_refs = 0, bf_pending = 0\<rparr>], hp_ios = Map.empty\<rparr>,
    ss_files = [5 \<mapsto> \<lparr>fl_client = 1, fl_file_id = 1, fl_size = 5, fl_path = cstr ''a''\<rparr>], ss_conns = [7 \<mapsto> c]\<rparr>"

theorem pread_confined_witness:
  "\<exists>r io s'. flume_pread_async 5 11 4 1 8 (reading_session fresh_conn) = ((r, io), s') \<and>
    (\<forall>a. a < 108 \<or> 112 \<le> a \<longrightarrow> hp_mem (ss_heap s') a = 0)"
proof -
  obtain r io s' where run: "flume_pread_async 5 11 4 1 8 (reading_session fresh_conn) = ((r, io), s')"
    by (metis prod.exhaust)
  have "hp_buffers (ss_heap (reading_session fresh_conn)) 11 \<noteq> None" by (simp add: reading_session_def)
  from pread_confined [OF run this] have "hp_mem (ss_heap s') a = hp_mem (ss_heap (reading_session fresh_conn)) a"
    if "a < 108 \<or> 112 \<le> a" for a using that by (fastforce simp: reading_session_def)
  then show ?thesis using run by (auto simp: reading_session_def)
qed

text \<open>Property C31. Reading a file through the agent, end to end.  When the agent's answer to the very request that
  the client sends arrives in any segmentation, \<open>flume_pread_async\<close> succeeds, and the handle and the buffer hold
  exactly the bytes of the file in the range, cut at its end, with their checksum; one request frame
  has been sent and nothing after the response was consumed.\<close>

theorem pread_reads_file:
  assumes objs: "ss_files s file = Some f" "hp_clients (ss_heap s) (fl_client f) = Some cl"
      "hp_buffers (ss_heap s) dst = Some b" "file \<noteq> 0" "dst \<noteq> 0"
    and range: "boff + len \<le> bf_len b" "IsReadableLocalType (bf_type b)" "len < 2 ^ 64"
    and conn: "ss_conns s (cl_fd cl) = Some c" "tx_clean c"
    and agent: "agent_inv a" "agent_view a (fl_file_id f) = Some ino" "preads_clean (ag_os a)"
      "unat off + len < 2 ^ 63" "len \<le> kMaxReadPayloadSize" "len \<le> os_alloc_max (ag_os a)"
      "length (os_fds (ag_os a)) < os_max_fds (ag_os a)"
    and req: "req = \<lparr>f_type = kReadReq, request_id = cl_next_request_id cl,
      body = AppendU64 (AppendU64 (AppendU64 [] (fl_file_id f)) off) (of_nat len)\<rparr>"
    and resp: "rx_stream (c_rx c) = encode_frame (fst (handle_request a req)) @ rest"
    and data: "d = bslice (unat off) len (i_data (os_inode (ag_os a) ino))"
  shows "\<exists>s' x c'. flume_pread_async file dst len off boff s = ((FLUME_OK, hp_next (ss_heap s)), s') \<and>
    hp_ios (ss_heap s') (hp_next (ss_heap s)) = Some x \<and> io_done x \<and> io_status x = status_u32 FLUME_OK \<and>
    io_bytes x = length d \<and> io_checksum x = Checksum32 d \<and>
    buffer_read (ss_heap s') dst boff (length d) = d \<and>
    ss_conns s' = (ss_conns s)(cl_fd cl \<mapsto> c') \<and> c_sent c' = c_sent c @ encode_frame req \<and>
    rx_stream (c_rx c') = rest"
proof -
  let ?h = "upd_client (fl_client f) (\<lambda>cl. cl\<lparr>cl_next_request_id := cl_next_request_id cl + 1\<rparr>) (ss_heap s)"
  let ?resp = "\<lparr>f_type = kReadResp, request_id = cl_next_request_id cl, body = read_resp_body (Inr d)\<rparr>"
  have len: "unat (of_nat len :: u64) = len" using range(3) by (simp add: unat_of_nat)
  have "parse_read (body req) = Some (fl_file_id f, off, of_nat len)"
    using parse_read_be by (simp add: req Append_be)
  from handle_read_ok [OF agent(1) this agent(2,3)] have "fst (handle_request a req) = ?resp"
    using agent(4-7) len by (simp add: handle_request_def req data frame_type_defs)
  then have r: "rx_stream (c_rx c) = encode_frame ?resp @ rest" using resp by simp
  have ld: "length d \<le> len" by (simp add: data bslice_def)
  have "length (body req) \<le> kMaxBodySize" "length (body ?resp) \<le> kMaxBodySize"
    using ld agent(5) by (simp_all add: req Append_be kMaxBodySize_def length_read_resp_ok kMaxReadPayloadSize_def kReadRespFixedBytes_def)
  from exchange_clean [where conns = "ss_conns s", OF conn this r] obtain conns1 c2 where ex:
    "fd_WriteFrame (cl_fd cl) req (ss_conns s) = (None, conns1)"
    "fd_ReadFrame (cl_fd cl) conns1 = (Inr ?resp, (ss_conns s)(cl_fd cl \<mapsto> c2))"
    "c_sent c2 = c_sent c @ encode_frame req" "rx_stream (c_rx c2) = rest" by blast
  have io: "read_resp_io ?resp len = (new_io\<lparr>io_bytes := length d, io_checksum := Checksum32 d\<rparr>, Some d)"
    using read_resp_io_ok [OF ld] ld range(3) by simp
  define s' where "s' = s\<lparr>ss_heap := snd (alloc_io (new_io\<lparr>io_bytes := length d, io_checksum := Checksum32 d\<rparr>)
      (buffer_write dst boff d ?h)), ss_conns := (ss_conns s)(cl_fd cl \<mapsto> c2)\<rparr>"
  have "flume_pread_async file dst len off boff s = ((FLUME_OK, hp_next (ss_heap s)), s')"
    using objs range ex(1,2) io
    by (simp add: s'_def flume_pread_async_def file_at_def NextRequestId_def heap_simps req [symmetric] Let_def alloc_io_def)
  moreover have "hp_ios (ss_heap s') (hp_next (ss_heap s)) = Some (new_io\<lparr>io_bytes := length d, io_checksum := Checksum32 d\<rparr>)"
    "buffer_read (ss_heap s') dst boff (length d) = d" "ss_conns s' = (ss_conns s)(cl_fd cl \<mapsto> c2)"
    by (simp_all add: s'_def heap_simps buffer_read_def)
  ultimately show ?thesis using ex(3,4) by (auto simp: new_io_def)
qed

theorem pread_reads_file_witness:
  "let req = \<lparr>f_type = kReadReq, request_id = 3, body = AppendU64 (AppendU64 (AppendU64 [] 1) 1) (of_nat 9)\<rparr>;
       s = reading_session \<lparr>c_rx = [Rx (take 10 (encode_frame (fst (handle_request sample_agent req)))), RxIntr,
         Rx (drop 10 (encode_frame (fst (handle_request sample_agent req))))], c_tx = [TxAccept 5], c_sent = []\<rparr>
   in \<exists>s' x. flume_pread_async 5 11 9 1 2 s = ((FLUME_OK, 20), s') \<and> hp_ios (ss_heap s') 20 = Some x \<and>
     io_bytes x = 4 \<and> io_checksum x = Checksum32 [20, 30, 40, 50] \<and> buffer_read (ss_heap s') 11 2 4 = [20, 30, 40, 50]"
proof -
  define req where "req = \<lparr>f_type = kReadReq, request_id = 3, body = AppendU64 (AppendU64 (AppendU64 [] 1) 1) (of_nat 9)\<rparr>"
  define w where "w = encode_frame (fst (handle_request sample_agent req))"
  define c where "c = \<lparr>c_rx = [Rx (take 10 w), RxIntr, Rx (drop 10 w)], c_tx = [TxAccept 5], c_sent = []\<rparr>"
  let ?f = "\<lparr>fl_client = 1, fl_file_id = 1, fl_size = 5, fl_path = cstr ''a''\<rparr>"
  let ?cl = "new_client\<lparr>cl_fd := 7, cl_next_request_id := 3\<rparr>"
  let ?b = "\<lparr>bf_client = 1, bf_ptr = 100, bf_len = 16, bf_type = FLUME_BUFFER_SIM_HBM, bf_a3_refs = 0, bf_pending = 0\<rparr>"
  have objs: "ss_files (reading_session c) 5 = Some ?f" "hp_clients (ss_heap (reading_session c)) (fl_client ?f) = Some ?cl"
    "hp_buffers (ss_heap (reading_session c)) 11 = Some ?b" "(5::nat) \<noteq> 0" "(11::nat) \<noteq> 0"
    "2 + 9 \<le> bf_len ?b" "IsReadableLocalType (bf_type ?b)" "(9::nat) < 2 ^ 64"
    "ss_conns (reading_session c) (cl_fd ?cl) = Some c" "tx_clean c"
    by (simp_all add: reading_session_def IsReadableLocalType_def IsSimBufferType_def c_def tx_clean_def)
  have ag: "agent_view sample_agent (fl_file_id ?f) = Some 0" "preads_clean (ag_os sample_agent)"
    "unat (1 :: u64) + 9 < 2 ^ 63" "9 \<le> kMaxReadPayloadSize" "9 \<le> os_alloc_max (ag_os sample_agent)"
    "length (os_fds (ag_os sample_agent)) < os_max_fds (ag_os sample_agent)"
    by (simp_all add: agent_view_def sample_agent_def sample_os_def preads_clean_def
        kMaxReadPayloadSize_def kMaxBodySize_def kReadRespFixedBytes_def)
  have req: "req = \<lparr>f_type = kReadReq, request_id = cl_next_request_id ?cl,
      body = AppendU64 (AppendU64 (AppendU64 [] (fl_file_id ?f)) 1) (of_nat 9)\<rparr>" by (simp add: req_def)
  have rx: "rx_stream (c_rx c) = encode_frame (fst (handle_request sample_agent req)) @ []" by (simp add: c_def w_def)
  have d: "[20, 30, 40, 50] = bslice (unat (1 :: u64)) 9 (i_data (os_inode (ag_os sample_agent) 0))"
    by (simp add: sample_agent_def sample_os_def bslice_def)
  have "hp_next (ss_heap (reading_session c)) = 20" by (simp add: reading_session_def)
  with pread_reads_file [OF objs sample_agent_inv ag req rx d] show ?thesis
    unfolding Let_def req_def [symmetric] w_def [symmetric] c_def [symmetric] by (auto simp: eval_nat_numeral)
qed

end
