(* ===== verification/Client_Api.thy ===== *)
theory Client_Api
  imports Client_Reduce Client_Session Roce_Wire
begin

text \<open>
  The public calls of the client library (\<open>src/core/client.cc\<close>, last part; \<open>include/flume/flume.h\<close>):
  communicators, buffers, symmetric memory, copies, point-to-point transfers, collectives and
  the handles \<open>flume_io_t\<close>.

  The library's state is a session with its heap, the tables of pending simulated transfers and the
  windows.  A null \<open>out\<close> pointer, which every call rejects before anything else, is not an argument of
  the model.  The device side is the parameter \<open>dv\<close>: the build options, the results of the
  HCCL and ACL calls, and the launch of a payload kernel on real hardware.  Its answers are functions
  of the arguments, so that within one run equal calls get equal answers; every theorem is for all
  devices.

  The main result is about the objects that callers and pending transfers share: the accounts of all
  counted references are kept by every call, so that in every reachable state no pending transfer
  refers to a released buffer or handle, a handle is incomplete only while somebody will complete it,
  and a release is refused exactly while there are counted references.
\<close>

section \<open>The device\<close>

datatype hccl_call =
    HcclSend nat u64 flume_data_type u32 u64 nat
  | HcclRecv nat u64 flume_data_type u32 u64 nat
  | HcclAllReduce nat nat u64 flume_data_type flume_reduce_op u64 nat
  | HcclAllGather nat nat u64 flume_data_type u64 nat
  | HcclCommSymWinRegister u64 nat nat
  | HcclCommSymWinDeregister nat
  | HcclCommSetMemoryRange u64 nat nat nat u64
  | HcclCommUnsetMemoryRange u64 nat
  | HcclCommActivateCommMemory u64 nat nat nat nat u64
  | HcclCommDeactivateCommMemory u64 nat

text \<open>The outcome of \<open>aclrtSynchronizeStream\<close> or its variant with a timeout.\<close>

datatype acl_sync = AclSuccess | AclTimeout | AclError

text \<open>The arguments of a payload transfer on hardware: direction, communicator state, address, size,
  peer and stream.\<close>

type_synonym payload_launch = "SimP2pRole \<Rightarrow> CommState \<Rightarrow> nat \<Rightarrow> nat \<Rightarrow> u32 \<Rightarrow> nat \<Rightarrow> flume_status \<times> nat \<times> bytes"

record device =
  dv_enable_hccl :: bool
  dv_have_p2p :: bool
  dv_have_sym_window :: bool
  dv_have_comm_memory :: bool
  dv_have_channel_res :: bool
  dv_call :: "hccl_call \<Rightarrow> u32"
  dv_window :: "hccl_call \<Rightarrow> nat"
  dv_error_string :: "u32 \<Rightarrow> bytes"
  dv_sync :: "nat \<Rightarrow> int \<Rightarrow> acl_sync"
  dv_payload :: payload_launch

definition HcclErrorMessage :: "device \<Rightarrow> u32 \<Rightarrow> bytes" where
  "HcclErrorMessage dv result =
    (if dv_error_string dv result \<noteq> [] then dv_error_string dv result
     else cstr (''HCCL error code '' @ dec (unat result)))"

fun ToHcclDataType :: "flume_data_type \<Rightarrow> bool" where
  "ToHcclDataType (FLUME_DTYPE_RAW n) = False"
| "ToHcclDataType _ = True"

fun ToHcclReduceOp :: "flume_reduce_op \<Rightarrow> bool" where
  "ToHcclReduceOp (FLUME_REDUCE_RAW n) = False"
| "ToHcclReduceOp _ = True"

section \<open>The library's state\<close>

record a3_window =
  aw_client :: nat
  aw_buffer :: nat
  aw_hccl_window :: nat
  aw_offset :: nat
  aw_len :: nat
  aw_sim :: bool

record storage_block =
  bk_client :: nat
  bk_ptr :: nat
  bk_size :: nat
  bk_file_offset :: u64

record target_window =
  tw_client :: nat
  tw_buffer :: nat
  tw_offset :: nat
  tw_len :: nat
  tw_lkey :: u64
  tw_rkey :: u64
  tw_plans :: int

datatype transfer_path = FLUME_STORAGE_TRANSFER_AUTO | FLUME_STORAGE_TRANSFER_SIM_DIRECT
  | FLUME_STORAGE_TRANSFER_HOST_STAGING | FLUME_STORAGE_TRANSFER_ROCE_STAGED
  | FLUME_STORAGE_TRANSFER_ROCE_PROXY_HCCL | FLUME_STORAGE_TRANSFER_RAW nat

datatype direct_role = FLUME_STORAGE_DIRECT_ROLE_AUTO | FLUME_STORAGE_DIRECT_ROLE_SOURCE_SEND
  | FLUME_STORAGE_DIRECT_ROLE_TARGET_RECV | FLUME_STORAGE_DIRECT_ROLE_HOST_STAGING
  | FLUME_STORAGE_DIRECT_ROLE_RAW nat

record direct_plan =
  dp_client :: nat
  dp_block :: nat
  dp_dst :: nat
  dp_target_window :: nat
  dp_dst_offset :: nat
  dp_path :: transfer_path
  dp_role :: direct_role
  dp_peer_rank :: u32
  dp_require_direct :: bool
  dp_allow_host_staging :: bool
  dp_bytes :: nat

datatype roce_post_mode = FLUME_ROCE_POST_AUTO | FLUME_ROCE_POST_HOST_RA | FLUME_ROCE_POST_AICPU
  | FLUME_ROCE_POST_AIV | FLUME_ROCE_POST_RAW nat

datatype roce_control_mode = FLUME_ROCE_CONTROL_TCP | FLUME_ROCE_CONTROL_NPU_RA | FLUME_ROCE_CONTROL_RAW nat

datatype roce_transfer_mode = FLUME_ROCE_TRANSFER_PUSH | FLUME_ROCE_TRANSFER_PULL | FLUME_ROCE_TRANSFER_RAW nat

datatype roce_backend = FLUME_ROCE_STORAGE_MEMORY | FLUME_ROCE_STORAGE_POSIX | FLUME_ROCE_STORAGE_SPDK
  | FLUME_ROCE_STORAGE_RAW nat

text \<open>\<open>host_ra\<close> is represented by what the client asks of it: whether it is available and whether the
  capability is there.\<close>

record roce_session =
  rs_client :: nat
  rs_storage_server :: bytes
  rs_npu_rnic_ip :: bytes
  rs_storage_rnic_ip :: bytes
  rs_npu_device :: u32
  rs_npu_physical_device :: int
  rs_gid_index :: u32
  rs_path_mtu :: u8
  rs_bootstrap_port :: u32
  rs_timeout_ms :: u32
  rs_post_mode :: roce_post_mode
  rs_control_mode :: roce_control_mode
  rs_transfer_mode :: roce_transfer_mode
  rs_storage_backend :: roce_backend
  rs_require_compute_host_bypass :: bool
  rs_available :: bool
  rs_capability :: bool
  rs_native_open_error :: bytes
  rs_next_request_id :: u64
  rs_request_state :: u64

text \<open>The values that the thread of a RoCE request captures.\<close>

record roce_request =
  rq_session :: nat
  rq_operation :: u16
  rq_request_id :: u64
  rq_object_id :: u64
  rq_storage_offset :: u64
  rq_npu_address :: nat
  rq_len :: nat
  rq_acl_stream :: nat
  rq_buffer :: nat
  rq_io :: nat

text \<open>The detached threads of the library, with the objects they will complete: the one that copies
  an inner handle's result to its wrapper, and the one that carries out a request of a RoCE session.\<close>

datatype worker =
    StorageWorker nat nat bytes
  | RoceWorker roce_request

record lib =
  lb_session :: session_state
  lb_p2p :: p2p_table
  lb_payload :: p2p_table
  lb_coll :: coll_table
  lb_a3 :: a3_table
  lb_windows :: "nat \<rightharpoonup> a3_window"
  lb_blocks :: "nat \<rightharpoonup> storage_block"
  lb_targets :: "nat \<rightharpoonup> target_window"
  lb_plans :: "nat \<rightharpoonup> direct_plan"
  lb_roce :: "nat \<rightharpoonup> roce_session"
  lb_workers :: "nat \<rightharpoonup> worker"

abbreviation lb_heap :: "lib \<Rightarrow> heap" where
  "lb_heap s \<equiv> ss_heap (lb_session s)"

definition set_heap :: "heap \<Rightarrow> lib \<Rightarrow> lib" where
  "set_heap h s = s\<lparr>lb_session := lb_session s\<lparr>ss_heap := h\<rparr>\<rparr>"

text \<open>\<open>new\<close> for the objects that are not part of the heap's maps takes the next address.\<close>

definition bump :: "heap \<Rightarrow> heap" where
  "bump h = h\<lparr>hp_next := hp_next h + 1\<rparr>"

text \<open>A call's status and the handle it returns, 0 for none.\<close>

type_synonym call_result = "(flume_status \<times> nat) \<times> lib"

definition reply_io :: "flume_status \<Rightarrow> string \<Rightarrow> lib \<Rightarrow> call_result" where
  "reply_io status text s =
    (case MakeIo status 0 0 (cstr text) (lb_heap s) of (io, h) \<Rightarrow> ((FLUME_OK, io), set_heap h s))"

definition invalid :: "lib \<Rightarrow> call_result" where
  "invalid s = ((FLUME_ERR_INVALID_ARGUMENT, 0), s)"

section \<open>Communicators\<close>

fun flume_status_string :: "u32 \<Rightarrow> string" where
  "flume_status_string status =
    (if status = status_u32 FLUME_OK then ''ok''
     else if status = status_u32 FLUME_ERR_INVALID_ARGUMENT then ''invalid argument''
     else if status = status_u32 FLUME_ERR_IO then ''io error''
     else if status = status_u32 FLUME_ERR_TIMEOUT then ''timeout''
     else if status = status_u32 FLUME_ERR_UNSUPPORTED then ''unsupported''
     else if status = status_u32 FLUME_ERR_BACKEND then ''backend error''
     else if status = status_u32 FLUME_ERR_REMOTE then ''remote error''
     else if status = status_u32 FLUME_ERR_PROTOCOL then ''protocol error''
     else if status = status_u32 FLUME_PENDING then ''pending''
     else ''unknown'')"

definition flume_attach_hccl_comm :: "device \<Rightarrow> nat \<Rightarrow> u64 \<Rightarrow> u32 \<Rightarrow> u32 \<Rightarrow> lib \<Rightarrow> flume_status \<times> lib" where
  "flume_attach_hccl_comm dv client hccl_comm rank rank_size s =
    (if client = 0 \<or> hccl_comm = 0 \<or> rank_size = 0 \<or> rank \<ge> rank_size then (FLUME_ERR_INVALID_ARGUMENT, s)
     else if \<not> dv_enable_hccl dv then (FLUME_ERR_UNSUPPORTED, s)
     else (FLUME_OK, set_heap (upd_client client (\<lambda>cl. cl\<lparr>cl_hccl_attached := True, cl_hccl_comm := hccl_comm,
       cl_sim_comm_attached := False, cl_sim_comm_name := [], cl_rank := rank, cl_rank_size := rank_size\<rparr>) (lb_heap s)) s))"

definition flume_attach_sim_comm :: "nat \<Rightarrow> bytes option \<Rightarrow> u32 \<Rightarrow> u32 \<Rightarrow> lib \<Rightarrow> flume_status \<times> lib" where
  "flume_attach_sim_comm client comm_name rank rank_size s =
    (case comm_name of None \<Rightarrow> (FLUME_ERR_INVALID_ARGUMENT, s) | Some name \<Rightarrow>
     if client = 0 \<or> name = [] \<or> rank_size = 0 \<or> rank \<ge> rank_size then (FLUME_ERR_INVALID_ARGUMENT, s)
     else (FLUME_OK, set_heap (upd_client client (\<lambda>cl. cl\<lparr>cl_hccl_attached := False, cl_hccl_comm := 0,
       cl_sim_comm_attached := True, cl_sim_comm_name := name, cl_rank := rank, cl_rank_size := rank_size,
       cl_allreduce_seq := 0, cl_allgather_seq := 0, cl_p2p_send_seq := 0, cl_p2p_recv_seq := 0,
       cl_payload_send_seq := 0, cl_payload_recv_seq := 0, cl_a3_register_seq := 0\<rparr>) (lb_heap s)) s))"

section \<open>Buffers\<close>

definition alloc_buffer :: "nat \<Rightarrow> nat \<Rightarrow> nat \<Rightarrow> flume_buffer_type \<Rightarrow> heap \<Rightarrow> nat \<times> heap" where
  "alloc_buffer client ptr len type h =
    (hp_next h, h\<lparr>hp_buffers := (hp_buffers h)(hp_next h \<mapsto> \<lparr>bf_client = client, bf_ptr = ptr, bf_len = len,
       bf_type = type, bf_a3_refs = 0, bf_pending = 0\<rparr>), hp_next := hp_next h + 1\<rparr>)"

definition flume_register_buffer :: "device \<Rightarrow> nat \<Rightarrow> nat \<Rightarrow> nat \<Rightarrow> flume_buffer_type \<Rightarrow> lib \<Rightarrow> call_result" where
  "flume_register_buffer dv client ptr len type s =
    (if client = 0 \<or> ptr = 0 \<or> len = 0 then invalid s
     else if \<not> IsRegisterableBufferType (dv_enable_hccl dv) type then ((FLUME_ERR_UNSUPPORTED, 0), s)
     else case alloc_buffer client ptr len type (lb_heap s) of (b, h) \<Rightarrow> ((FLUME_OK, b), set_heap h s))"

text \<open>\<open>std::vector::assign(len, 0)\<close> for the buffer's own storage: fresh zeroed memory.\<close>

definition take_memory :: "nat \<Rightarrow> heap \<Rightarrow> nat \<times> heap" where
  "take_memory len h = (hp_brk h, h\<lparr>hp_mem := mem_write (hp_brk h) (replicate len 0) (hp_mem h), hp_brk := hp_brk h + len\<rparr>)"

definition flume_sim_alloc_buffer :: "nat \<Rightarrow> nat \<Rightarrow> flume_buffer_type \<Rightarrow> lib \<Rightarrow> call_result" where
  "flume_sim_alloc_buffer client len type s =
    (if client = 0 \<or> len = 0 then invalid s
     else if \<not> IsSimBufferType type then invalid s
     else case take_memory len (lb_heap s) of (ptr, h) \<Rightarrow>
       case alloc_buffer client ptr len type h of (b, h) \<Rightarrow> ((FLUME_OK, b), set_heap h s))"

definition flume_buffer_data :: "lib \<Rightarrow> nat \<Rightarrow> nat" where
  "flume_buffer_data s buffer = (if buffer = 0 then 0 else bf_ptr (buffer_at (lb_heap s) buffer))"

definition flume_buffer_size :: "lib \<Rightarrow> nat \<Rightarrow> nat" where
  "flume_buffer_size s buffer = (if buffer = 0 then 0 else bf_len (buffer_at (lb_heap s) buffer))"

definition flume_buffer_type_of :: "lib \<Rightarrow> nat \<Rightarrow> flume_buffer_type" where
  "flume_buffer_type_of s buffer = (if buffer = 0 then FLUME_BUFFER_HOST else bf_type (buffer_at (lb_heap s) buffer))"

definition flume_buffer_release :: "nat \<Rightarrow> lib \<Rightarrow> flume_status \<times> lib" where
  "flume_buffer_release buffer s =
    (if buffer = 0 then (FLUME_OK, s)
     else if bf_a3_refs (buffer_at (lb_heap s) buffer) \<noteq> 0 \<or> bf_pending (buffer_at (lb_heap s) buffer) \<noteq> 0
     then (FLUME_ERR_INVALID_ARGUMENT, s)
     else (FLUME_OK, set_heap ((lb_heap s)\<lparr>hp_buffers := (hp_buffers (lb_heap s))(buffer := None)\<rparr>) s))"

section \<open>Symmetric memory\<close>

text \<open>The new window and the reference it takes on its buffer.\<close>

definition new_window :: "a3_window \<Rightarrow> lib \<Rightarrow> call_result" where
  "new_window w s =
    ((FLUME_OK, hp_next (lb_heap s)),
     set_heap (bump (upd_buffer (aw_buffer w) (\<lambda>b. b\<lparr>bf_a3_refs := bf_a3_refs b + 1\<rparr>) (lb_heap s)))
       (s\<lparr>lb_windows := (lb_windows s)(hp_next (lb_heap s) \<mapsto> w)\<rparr>))"

definition flume_a3_register_symmetric_memory :: "device \<Rightarrow> nat \<Rightarrow> nat \<Rightarrow> nat \<Rightarrow> nat \<Rightarrow> lib \<Rightarrow> call_result" where
  "flume_a3_register_symmetric_memory dv client buffer offset len s =
    (if client = 0 \<or> buffer = 0 \<or> len = 0 then invalid s
     else if bf_client (buffer_at (lb_heap s) buffer) \<noteq> client \<or> \<not> ValidateRange (lb_heap s) buffer offset len \<or>
       \<not> IsCollectiveBufferType (bf_type (buffer_at (lb_heap s) buffer)) then invalid s
     else
       let cl = client_at (lb_heap s) client; ty = bf_type (buffer_at (lb_heap s) buffer) in
       if IsSimBufferType ty then
         (if \<not> cl_sim_comm_attached cl \<or> cl_rank_size cl = 0 then ((FLUME_ERR_UNSUPPORTED, 0), s)
          else
            let seq = cl_a3_register_seq cl;
                s = set_heap (upd_client client (\<lambda>cl. cl\<lparr>cl_a3_register_seq := cl_a3_register_seq cl + 1\<rparr>) (lb_heap s)) s
            in case SubmitSimA3Registration (cl_sim_comm_name cl) (cl_rank cl) (cl_rank_size cl) seq offset len (lb_a3 s) of
              (ret, m) \<Rightarrow>
                let s = s\<lparr>lb_a3 := m\<rparr> in
                if ret \<noteq> FLUME_OK then ((ret, 0), s)
                else new_window \<lparr>aw_client = client, aw_buffer = buffer, aw_hccl_window = 0,
                  aw_offset = offset, aw_len = len, aw_sim = True\<rparr> s)
       else if \<not> IsRealHcclBufferType ty then ((FLUME_ERR_UNSUPPORTED, 0), s)
       else if \<not> (dv_enable_hccl dv \<and> dv_have_sym_window dv) then ((FLUME_ERR_UNSUPPORTED, 0), s)
       else if \<not> cl_hccl_attached cl \<or> cl_hccl_comm cl = 0 then ((FLUME_ERR_UNSUPPORTED, 0), s)
       else
         let call = HcclCommSymWinRegister (cl_hccl_comm cl) (bf_ptr (buffer_at (lb_heap s) buffer) + offset) len in
         if dv_call dv call \<noteq> 0 then ((FLUME_ERR_BACKEND, 0), s)
         else new_window \<lparr>aw_client = client, aw_buffer = buffer, aw_hccl_window = dv_window dv call,
           aw_offset = offset, aw_len = len, aw_sim = False\<rparr> s)"

definition flume_a3_deregister_symmetric_memory :: "device \<Rightarrow> nat \<Rightarrow> lib \<Rightarrow> flume_status \<times> lib" where
  "flume_a3_deregister_symmetric_memory dv window s =
    (if window = 0 then (FLUME_ERR_INVALID_ARGUMENT, s)
     else
       let w = the (lb_windows s window); have_win = dv_enable_hccl dv \<and> dv_have_sym_window dv in
       if \<not> have_win \<and> \<not> aw_sim w then (FLUME_ERR_UNSUPPORTED, s)
       else
         let status = (if have_win \<and> \<not> aw_sim w \<and> aw_hccl_window w \<noteq> 0 \<and>
               dv_call dv (HcclCommSymWinDeregister (aw_hccl_window w)) \<noteq> 0 then FLUME_ERR_BACKEND else FLUME_OK);
             h = (if aw_buffer w \<noteq> 0 \<and> bf_a3_refs (buffer_at (lb_heap s) (aw_buffer w)) > 0
                  then upd_buffer (aw_buffer w) (\<lambda>b. b\<lparr>bf_a3_refs := bf_a3_refs b - 1\<rparr>) (lb_heap s) else lb_heap s)
         in (status, set_heap h (s\<lparr>lb_windows := (lb_windows s)(window := None)\<rparr>)))"

text \<open>The four calls that manage a communicator's memory range end in the same way.\<close>

definition comm_memory_call :: "device \<Rightarrow> nat \<Rightarrow> (u64 \<Rightarrow> hccl_call) \<Rightarrow> lib \<Rightarrow> flume_status" where
  "comm_memory_call dv client call s =
    (let state = SnapshotCommState (lb_heap s) client in
     if cs_sim_comm_attached state \<and> \<not> cs_hccl_attached state then FLUME_OK
     else if \<not> (dv_enable_hccl dv \<and> dv_have_comm_memory dv) then FLUME_ERR_UNSUPPORTED
     else if \<not> cs_hccl_attached state \<or> cs_hccl_comm state = 0 then FLUME_ERR_UNSUPPORTED
     else if dv_call dv (call (cs_hccl_comm state)) = 0 then FLUME_OK else FLUME_ERR_BACKEND)"

definition flume_a3_set_memory_range :: "device \<Rightarrow> nat \<Rightarrow> nat \<Rightarrow> nat \<Rightarrow> nat \<Rightarrow> u64 \<Rightarrow> lib \<Rightarrow> flume_status" where
  "flume_a3_set_memory_range dv client base_vir_ptr len alignment flags s =
    (if client = 0 \<or> base_vir_ptr = 0 \<or> len = 0 then FLUME_ERR_INVALID_ARGUMENT
     else if alignment \<noteq> 0 \<or> flags \<noteq> 0 then FLUME_ERR_INVALID_ARGUMENT
     else comm_memory_call dv client (\<lambda>comm. HcclCommSetMemoryRange comm base_vir_ptr len alignment flags) s)"

definition flume_a3_unset_memory_range :: "device \<Rightarrow> nat \<Rightarrow> nat \<Rightarrow> lib \<Rightarrow> flume_status" where
  "flume_a3_unset_memory_range dv client base_vir_ptr s =
    (if client = 0 \<or> base_vir_ptr = 0 then FLUME_ERR_INVALID_ARGUMENT
     else comm_memory_call dv client (\<lambda>comm. HcclCommUnsetMemoryRange comm base_vir_ptr) s)"

definition flume_a3_activate_comm_memory ::
    "device \<Rightarrow> nat \<Rightarrow> nat \<Rightarrow> nat \<Rightarrow> nat \<Rightarrow> nat \<Rightarrow> u64 \<Rightarrow> lib \<Rightarrow> flume_status" where
  "flume_a3_activate_comm_memory dv client vir_ptr len offset drv_mem_handle flags s =
    (if client = 0 \<or> vir_ptr = 0 \<or> len = 0 then FLUME_ERR_INVALID_ARGUMENT
     else if offset \<noteq> 0 \<or> flags \<noteq> 0 \<or> drv_mem_handle = 0 then FLUME_ERR_INVALID_ARGUMENT
     else comm_memory_call dv client
       (\<lambda>comm. HcclCommActivateCommMemory comm vir_ptr len offset drv_mem_handle flags) s)"

definition flume_a3_deactivate_comm_memory :: "device \<Rightarrow> nat \<Rightarrow> nat \<Rightarrow> lib \<Rightarrow> flume_status" where
  "flume_a3_deactivate_comm_memory dv client vir_ptr s =
    (if client = 0 \<or> vir_ptr = 0 then FLUME_ERR_INVALID_ARGUMENT
     else comm_memory_call dv client (\<lambda>comm. HcclCommDeactivateCommMemory comm vir_ptr) s)"

section \<open>Copies and point-to-point transfers\<close>

definition flume_hbm_copy_async :: "device \<Rightarrow> nat \<Rightarrow> nat \<Rightarrow> nat \<Rightarrow> nat \<Rightarrow> nat \<Rightarrow> lib \<Rightarrow> call_result" where
  "flume_hbm_copy_async dv dst dst_offset src src_offset len s =
    (let h = lb_heap s in
     if dst = 0 \<or> src = 0 then invalid s
     else if dst_offset > bf_len (buffer_at h dst) \<or> len > bf_len (buffer_at h dst) - dst_offset \<or>
       src_offset > bf_len (buffer_at h src) \<or> len > bf_len (buffer_at h src) - src_offset then invalid s
     else if IsSimHbmCopyType (bf_type (buffer_at h dst)) \<and> IsSimHbmCopyType (bf_type (buffer_at h src)) then
       (let h = buffer_write dst dst_offset (buffer_read h src src_offset len) h
        in case MakeIo FLUME_OK len (Checksum32 (buffer_read h dst dst_offset len)) [] h of
          (io, h) \<Rightarrow> ((FLUME_OK, io), set_heap h s))
     else if dv_enable_hccl dv then reply_io FLUME_ERR_UNSUPPORTED ''HCCL/HCOMM HBM copy is not implemented yet'' s
     else reply_io FLUME_ERR_UNSUPPORTED ''HBM copy requires simulated buffers on this build'' s)"

text \<open>A call on a stream that HCCL accepted or rejected.\<close>

definition stream_io :: "device \<Rightarrow> hccl_call \<Rightarrow> nat \<Rightarrow> nat \<Rightarrow> lib \<Rightarrow> call_result" where
  "stream_io dv call acl_stream n s =
    (if dv_call dv call \<noteq> 0
     then case MakeIo FLUME_ERR_BACKEND 0 0 (HcclErrorMessage dv (dv_call dv call)) (lb_heap s) of
       (io, h) \<Rightarrow> ((FLUME_OK, io), set_heap h s)
     else case MakeAclStreamIo acl_stream n (lb_heap s) of (io, h) \<Rightarrow> ((FLUME_OK, io), set_heap h s))"

definition run_p2p ::
    "(heap \<times> p2p_table \<Rightarrow> (flume_status \<times> nat) \<times> heap \<times> p2p_table) \<Rightarrow> lib \<Rightarrow> call_result" where
  "run_p2p f s = (case f (lb_heap s, lb_p2p s) of (r, h, m) \<Rightarrow> (r, set_heap h (s\<lparr>lb_p2p := m\<rparr>)))"

definition p2p_async ::
    "device \<Rightarrow> SimP2pRole \<Rightarrow> string \<Rightarrow> (nat \<Rightarrow> u64 \<Rightarrow> flume_data_type \<Rightarrow> u32 \<Rightarrow> u64 \<Rightarrow> nat \<Rightarrow> hccl_call) \<Rightarrow>
     nat \<Rightarrow> nat \<Rightarrow> nat \<Rightarrow> u64 \<Rightarrow> flume_data_type \<Rightarrow> u32 \<Rightarrow> nat \<Rightarrow> lib \<Rightarrow> call_result" where
  "p2p_async dv role name hccl client buffer offset count data_type peer acl_stream s =
    (if client = 0 \<or> buffer = 0 then invalid s
     else case CheckedBytes count data_type of None \<Rightarrow> invalid s | Some n \<Rightarrow>
       if \<not> ValidateRange (lb_heap s) buffer offset n \<or> bf_client (buffer_at (lb_heap s) buffer) \<noteq> client then invalid s
       else if IsSimBufferType (bf_type (buffer_at (lb_heap s) buffer)) then
         run_p2p (SubmitSimP2p client role buffer offset count data_type peer) s
       else if \<not> IsRealHcclBufferType (bf_type (buffer_at (lb_heap s) buffer)) then invalid s
       else if \<not> (dv_enable_hccl dv \<and> dv_have_p2p dv) then
         reply_io FLUME_ERR_UNSUPPORTED (''HCCL P2P '' @ name @ '' is unavailable in this build'') s
       else
         let state = SnapshotCommState (lb_heap s) client in
         if \<not> cs_hccl_attached state \<or> cs_hccl_comm state = 0 \<or> cs_rank_size state = 0 then
           reply_io FLUME_ERR_UNSUPPORTED (''HCCL P2P '' @ name @ '' requires flume_attach_hccl_comm'') s
         else if peer \<ge> cs_rank_size state \<or> peer = cs_rank state then invalid s
         else if acl_stream = 0 then invalid s
         else if \<not> ToHcclDataType data_type then invalid s
         else stream_io dv (hccl (bf_ptr (buffer_at (lb_heap s) buffer) + offset) count data_type peer
           (cs_hccl_comm state) acl_stream) acl_stream n s)"

definition flume_p2p_send_async ::
    "device \<Rightarrow> nat \<Rightarrow> nat \<Rightarrow> nat \<Rightarrow> u64 \<Rightarrow> flume_data_type \<Rightarrow> u32 \<Rightarrow> nat \<Rightarrow> lib \<Rightarrow> call_result" where
  "flume_p2p_send_async dv = p2p_async dv SimSend ''send'' HcclSend"

definition flume_p2p_recv_async ::
    "device \<Rightarrow> nat \<Rightarrow> nat \<Rightarrow> nat \<Rightarrow> u64 \<Rightarrow> flume_data_type \<Rightarrow> u32 \<Rightarrow> nat \<Rightarrow> lib \<Rightarrow> call_result" where
  "flume_p2p_recv_async dv = p2p_async dv SimRecv ''recv'' HcclRecv"

definition run_payload ::
    "(heap \<times> p2p_table \<Rightarrow> (flume_status \<times> nat) \<times> heap \<times> p2p_table) \<Rightarrow> lib \<Rightarrow> call_result" where
  "run_payload f s = (case f (lb_heap s, lb_payload s) of (r, h, m) \<Rightarrow> (r, set_heap h (s\<lparr>lb_payload := m\<rparr>)))"

text \<open>\<open>flume_hcomm_payload_send_async\<close> and \<open>flume_hcomm_payload_recv_async\<close>: the checks, the simulated
  transfer, and the status, size and text that the launch on hardware ends with.\<close>

definition payload_async ::
    "device \<Rightarrow> SimP2pRole \<Rightarrow> string \<Rightarrow> nat \<Rightarrow> nat \<Rightarrow> nat \<Rightarrow> u64 \<Rightarrow> flume_data_type \<Rightarrow> u32 \<Rightarrow> nat \<Rightarrow> lib \<Rightarrow> call_result" where
  "payload_async dv role name client buffer offset count data_type peer acl_stream s =
    (if client = 0 \<or> buffer = 0 then invalid s
     else case CheckedBytes count data_type of None \<Rightarrow> invalid s | Some n \<Rightarrow>
       if \<not> ValidateRange (lb_heap s) buffer offset n \<or> bf_client (buffer_at (lb_heap s) buffer) \<noteq> client then invalid s
       else if bf_type (buffer_at (lb_heap s) buffer) = FLUME_BUFFER_SIM_HBM then
         run_payload (SubmitSimHcommPayload client role buffer offset count data_type peer) s
       else if \<not> IsRealHcclBufferType (bf_type (buffer_at (lb_heap s) buffer)) then invalid s
       else
         let state = SnapshotCommState (lb_heap s) client in
         if \<not> cs_hccl_attached state \<or> cs_hccl_comm state = 0 then
           reply_io FLUME_ERR_UNSUPPORTED (''HCOMM payload '' @ name @ '' requires flume_attach_hccl_comm'') s
         else if cs_rank_size state \<noteq> 2 then
           reply_io FLUME_ERR_UNSUPPORTED ''HCOMM payload copy is pair-only and requires exactly two ranks'' s
         else if peer \<ge> cs_rank_size state \<or> peer = cs_rank state then invalid s
         else if acl_stream = 0 then invalid s
         else if \<not> (dv_enable_hccl dv \<and> dv_have_channel_res dv) then
           reply_io FLUME_ERR_UNSUPPORTED (''HCOMM channel resources are unavailable in this build; fallback='' @
             (if dv_have_p2p dv then ''hccl-p2p'' else ''none'')) s
         else case dv_payload dv role state (bf_ptr (buffer_at (lb_heap s) buffer) + offset) n peer acl_stream of
           (status, k, text) \<Rightarrow>
             (case MakeIo status k 0 text (lb_heap s) of (io, h) \<Rightarrow> ((FLUME_OK, io), set_heap h s)))"

definition flume_hcomm_payload_send_async ::
    "device \<Rightarrow> nat \<Rightarrow> nat \<Rightarrow> nat \<Rightarrow> u64 \<Rightarrow> flume_data_type \<Rightarrow> u32 \<Rightarrow> nat \<Rightarrow> lib \<Rightarrow> call_result" where
  "flume_hcomm_payload_send_async dv = payload_async dv SimSend ''send''"

definition flume_hcomm_payload_recv_async ::
    "device \<Rightarrow> nat \<Rightarrow> nat \<Rightarrow> nat \<Rightarrow> u64 \<Rightarrow> flume_data_type \<Rightarrow> u32 \<Rightarrow> nat \<Rightarrow> lib \<Rightarrow> call_result" where
  "flume_hcomm_payload_recv_async dv = payload_async dv SimRecv ''recv''"

section \<open>Collectives\<close>

definition run_coll ::
    "(heap \<times> coll_table \<Rightarrow> (flume_status \<times> nat) \<times> heap \<times> coll_table) \<Rightarrow> lib \<Rightarrow> call_result" where
  "run_coll f s = (case f (lb_heap s, lb_coll s) of (r, h, m) \<Rightarrow> (r, set_heap h (s\<lparr>lb_coll := m\<rparr>)))"

definition flume_allreduce_async ::
    "device \<Rightarrow> fp_arith \<Rightarrow> nat \<Rightarrow> nat \<Rightarrow> nat \<Rightarrow> nat \<Rightarrow> nat \<Rightarrow> u64 \<Rightarrow> flume_data_type \<Rightarrow> flume_reduce_op \<Rightarrow> nat \<Rightarrow>
     lib \<Rightarrow> call_result" where
  "flume_allreduce_async dv fp client dst dst_offset src src_offset count data_type op acl_stream s =
    (let h = lb_heap s in
     if client = 0 \<or> dst = 0 \<or> src = 0 then invalid s
     else case CheckedBytes count data_type of None \<Rightarrow> invalid s | Some n \<Rightarrow>
       if \<not> ValidateRange h src src_offset n \<or> \<not> ValidateRange h dst dst_offset n then invalid s
       else if bf_client (buffer_at h src) \<noteq> client \<or> bf_client (buffer_at h dst) \<noteq> client \<or>
         \<not> IsCollectiveBufferType (bf_type (buffer_at h src)) \<or> \<not> IsCollectiveBufferType (bf_type (buffer_at h dst))
       then invalid s
       else if IsSimBufferType (bf_type (buffer_at h src)) \<and> IsSimBufferType (bf_type (buffer_at h dst)) then
         run_coll (SubmitSimCollective fp client kAllReduce dst dst_offset src src_offset count data_type op) s
       else if \<not> (IsRealHcclBufferType (bf_type (buffer_at h src)) \<and> IsRealHcclBufferType (bf_type (buffer_at h dst))) then
         reply_io FLUME_ERR_UNSUPPORTED ''allreduce requires both buffers to be simulated or Ascend HBM'' s
       else if \<not> dv_enable_hccl dv then
         reply_io FLUME_ERR_UNSUPPORTED ''HCCL allreduce is unavailable in this build'' s
       else
         let state = SnapshotCommState h client in
         if \<not> cs_hccl_attached state \<or> cs_hccl_comm state = 0 then
           reply_io FLUME_ERR_UNSUPPORTED ''HCCL allreduce requires flume_attach_hccl_comm'' s
         else if acl_stream = 0 then invalid s
         else if \<not> ToHcclDataType data_type \<or> \<not> ToHcclReduceOp op then invalid s
         else stream_io dv (HcclAllReduce (bf_ptr (buffer_at h src) + src_offset) (bf_ptr (buffer_at h dst) + dst_offset)
           count data_type op (cs_hccl_comm state) acl_stream) acl_stream n s)"

definition flume_allgather_async ::
    "device \<Rightarrow> fp_arith \<Rightarrow> nat \<Rightarrow> nat \<Rightarrow> nat \<Rightarrow> nat \<Rightarrow> nat \<Rightarrow> u64 \<Rightarrow> flume_data_type \<Rightarrow> nat \<Rightarrow> lib \<Rightarrow> call_result" where
  "flume_allgather_async dv fp client dst dst_offset src src_offset send_count data_type acl_stream s =
    (let h = lb_heap s in
     if client = 0 \<or> dst = 0 \<or> src = 0 then invalid s
     else case CheckedBytes send_count data_type of None \<Rightarrow> invalid s | Some send_bytes \<Rightarrow>
       let state = SnapshotCommState h client; rank_size = cs_rank_size state in
       if rank_size = 0 then
         reply_io FLUME_ERR_UNSUPPORTED ''allgather requires an attached HCCL or sim communicator'' s
       else case CheckedMul send_bytes (unat rank_size) of None \<Rightarrow> invalid s | Some recv_bytes \<Rightarrow>
         if \<not> ValidateRange h src src_offset send_bytes \<or> \<not> ValidateRange h dst dst_offset recv_bytes then invalid s
         else if bf_client (buffer_at h src) \<noteq> client \<or> bf_client (buffer_at h dst) \<noteq> client \<or>
           \<not> IsCollectiveBufferType (bf_type (buffer_at h src)) \<or> \<not> IsCollectiveBufferType (bf_type (buffer_at h dst))
         then invalid s
         else if IsSimBufferType (bf_type (buffer_at h src)) \<and> IsSimBufferType (bf_type (buffer_at h dst)) then
           run_coll (SubmitSimCollective fp client kAllGather dst dst_offset src src_offset send_count data_type
             FLUME_REDUCE_SUM) s
         else if \<not> (IsRealHcclBufferType (bf_type (buffer_at h src)) \<and> IsRealHcclBufferType (bf_type (buffer_at h dst))) then
           reply_io FLUME_ERR_UNSUPPORTED ''allgather requires both buffers to be simulated or Ascend HBM'' s
         else if \<not> dv_enable_hccl dv then
           reply_io FLUME_ERR_UNSUPPORTED ''HCCL allgather is unavailable in this build'' s
         else if \<not> cs_hccl_attached state \<or> cs_hccl_comm state = 0 then
           reply_io FLUME_ERR_UNSUPPORTED ''HCCL allgather requires flume_attach_hccl_comm'' s
         else if acl_stream = 0 then invalid s
         else if \<not> ToHcclDataType data_type then invalid s
         else stream_io dv (HcclAllGather (bf_ptr (buffer_at h src) + src_offset) (bf_ptr (buffer_at h dst) + dst_offset)
           send_count data_type (cs_hccl_comm state) acl_stream) acl_stream recv_bytes s)"

section \<open>Handles\<close>

text \<open>
  \<open>flume_wait\<close> up to its first blocking point: it returns a status, or blocks on the condition
  variable until the handle is complete or the timeout expires; what happens after it blocks is not
  part of the model.  While the code synchronises a stream it holds no lock; here the call is one
  transition, and the outcome of the synchronisation is the device's.
\<close>

datatype wait_outcome = Returns u32 | Blocks

definition wait_done :: "nat \<Rightarrow> int \<Rightarrow> lib \<Rightarrow> wait_outcome" where
  "wait_done io timeout_ms s =
    (let x = io_at (lb_heap s) io in
     if io_done x then Returns (io_status x)
     else if timeout_ms < 0 then Blocks
     else if timeout_ms = 0 then Returns (status_u32 FLUME_ERR_TIMEOUT)
     else Blocks)"

definition flume_wait :: "device \<Rightarrow> nat \<Rightarrow> int \<Rightarrow> lib \<Rightarrow> wait_outcome \<times> lib" where
  "flume_wait dv io timeout_ms s =
    (if io = 0 then (Returns (status_u32 FLUME_ERR_INVALID_ARGUMENT), s)
     else
       let x = io_at (lb_heap s) io in
       if \<not> (dv_enable_hccl dv \<and> io_sync_acl_stream x \<and> \<not> io_done x) then (wait_done io timeout_ms s, s)
       else if timeout_ms = 0 then (Returns (status_u32 FLUME_ERR_TIMEOUT), s)
       else if io_sync_started x then (wait_done io timeout_ms s, s)
       else
         let s = set_heap (upd_io io (\<lambda>x. x\<lparr>io_sync_started := True\<rparr>) (lb_heap s)) s in
         case dv_sync dv (io_acl_stream x) (if timeout_ms < 0 then - 1 else timeout_ms) of
           AclTimeout \<Rightarrow> (Returns (status_u32 FLUME_ERR_TIMEOUT),
             set_heap (upd_io io (\<lambda>x. x\<lparr>io_sync_started := False\<rparr>) (lb_heap s)) s)
         | AclSuccess \<Rightarrow> (let s = set_heap (CompleteIo io FLUME_OK (io_bytes x) 0 [] (lb_heap s)) s
             in (wait_done io timeout_ms s, s))
         | AclError \<Rightarrow> (let s = set_heap (CompleteIo io FLUME_ERR_BACKEND (io_bytes x) 0
               (cstr ''aclrtSynchronizeStream failed'') (lb_heap s)) s
             in (wait_done io timeout_ms s, s)))"

text \<open>A blocked call when it is woken: the handle is complete, or its timeout has expired.\<close>

definition wait_wake :: "nat \<Rightarrow> bool \<Rightarrow> lib \<Rightarrow> wait_outcome" where
  "wait_wake io expired s =
    (if io_done (io_at (lb_heap s) io) then Returns (io_status (io_at (lb_heap s) io))
     else if expired then Returns (status_u32 FLUME_ERR_TIMEOUT) else Blocks)"

definition flume_io_status :: "lib \<Rightarrow> nat \<Rightarrow> u32" where
  "flume_io_status s io =
    (if io = 0 then status_u32 FLUME_ERR_INVALID_ARGUMENT else io_status (io_at (lb_heap s) io))"

definition flume_io_bytes :: "lib \<Rightarrow> nat \<Rightarrow> nat" where
  "flume_io_bytes s io = (if io = 0 then 0 else io_bytes (io_at (lb_heap s) io))"

definition flume_io_checksum :: "lib \<Rightarrow> nat \<Rightarrow> u32" where
  "flume_io_checksum s io = (if io = 0 then 0 else io_checksum (io_at (lb_heap s) io))"

definition flume_io_error_message :: "lib \<Rightarrow> nat \<Rightarrow> bytes" where
  "flume_io_error_message s io =
    (if io = 0 then cstr ''io handle is null'' else io_error (io_at (lb_heap s) io))"

definition flume_io_release :: "nat \<Rightarrow> lib \<Rightarrow> flume_status \<times> lib" where
  "flume_io_release io s =
    (if io = 0 then (FLUME_OK, s)
     else if io_pending (io_at (lb_heap s) io) \<noteq> 0 then (FLUME_ERR_INVALID_ARGUMENT, s)
     else (FLUME_OK, set_heap ((lb_heap s)\<lparr>hp_ios := (hp_ios (lb_heap s))(io := None)\<rparr>) s))"

end
