(* ===== verification/Client_Storage.thy ===== *)
theory Client_Storage
  imports Client_Api
begin

text \<open>
  Storage transfers of the client library (\<open>src/core/client.cc\<close>): blocks read from the agent, windows
  of target memory, plans for the direct path, and requests of a RoCE session.

  The threads that the library starts are entries of \<open>lb_workers\<close>; \<open>storage_worker_step\<close> and
  \<open>roce_worker_step\<close> are what such a thread does when the event it waits for has happened.  The latter
  is one transition, although the code releases the buffer, marks the session idle and completes the
  handle one after the other, each under its own lock; the states between are not represented.  The
  RoCE session behind \<open>HostRaSession\<close> is the parameter \<open>ra\<close>, whose \<open>SubmitAndWait\<close> is a total function:
  that the session's own \<open>SubmitAndWait\<close> returns is shown in \<open>Host_Session\<close>.
\<close>

section \<open>Names\<close>

fun StorageDirectRoleName :: "direct_role \<Rightarrow> string" where
  "StorageDirectRoleName FLUME_STORAGE_DIRECT_ROLE_AUTO = ''auto''"
| "StorageDirectRoleName FLUME_STORAGE_DIRECT_ROLE_SOURCE_SEND = ''source-send''"
| "StorageDirectRoleName FLUME_STORAGE_DIRECT_ROLE_TARGET_RECV = ''target-recv''"
| "StorageDirectRoleName FLUME_STORAGE_DIRECT_ROLE_HOST_STAGING = ''host-staging''"
| "StorageDirectRoleName (FLUME_STORAGE_DIRECT_ROLE_RAW n) = ''unknown''"

fun RocePostModeName :: "roce_post_mode \<Rightarrow> string" where
  "RocePostModeName FLUME_ROCE_POST_AUTO = ''auto''"
| "RocePostModeName FLUME_ROCE_POST_HOST_RA = ''host-ra''"
| "RocePostModeName FLUME_ROCE_POST_AICPU = ''aicpu''"
| "RocePostModeName FLUME_ROCE_POST_AIV = ''aiv''"
| "RocePostModeName (FLUME_ROCE_POST_RAW n) = ''unknown''"

section \<open>Storage blocks\<close>

text \<open>\<open>MakeIo\<close> and \<open>CompletePendingIo\<close> with a status that was read from another handle.\<close>

definition MakeIo_int :: "u32 \<Rightarrow> nat \<Rightarrow> u32 \<Rightarrow> bytes \<Rightarrow> heap \<Rightarrow> nat \<times> heap" where
  "MakeIo_int status n checksum error =
    alloc_io (new_io\<lparr>io_done := True, io_status := status, io_bytes := n, io_checksum := checksum, io_error := error\<rparr>)"

definition CompletePendingIo_int :: "nat \<Rightarrow> u32 \<Rightarrow> nat \<Rightarrow> u32 \<Rightarrow> bytes \<Rightarrow> heap \<Rightarrow> heap" where
  "CompletePendingIo_int io status n checksum error h =
    (if io = 0 then h
     else upd_io io (\<lambda>x. x\<lparr>io_status := status, io_bytes := n, io_checksum := checksum, io_error := error,
       io_done := True, io_pending := io_pending x - 1\<rparr>) h)"

definition delete_buffer :: "nat \<Rightarrow> heap \<Rightarrow> heap" where
  "delete_buffer b h = h\<lparr>hp_buffers := (hp_buffers h)(b := None)\<rparr>"

definition delete_io :: "nat \<Rightarrow> heap \<Rightarrow> heap" where
  "delete_io i h = h\<lparr>hp_ios := (hp_ios h)(i := None)\<rparr>"

text \<open>The stack buffer \<open>temp\<close> over the block's payload exists only during the call.  The handle of the
  read is complete when \<open>flume_pread_async\<close> returns, so that waiting for it returns its status.\<close>

definition flume_prepare_storage_block_async ::
    "nat \<Rightarrow> u64 \<Rightarrow> nat \<Rightarrow> lib \<Rightarrow> (flume_status \<times> nat \<times> nat) \<times> lib" where
  "flume_prepare_storage_block_async file file_offset len s =
    (if file = 0 \<or> len = 0 \<or> fl_client (file_at (lb_session s) file) = 0
     then ((FLUME_ERR_INVALID_ARGUMENT, 0, 0), s)
     else
       let client = fl_client (file_at (lb_session s) file) in
       case take_memory len (lb_heap s) of (ptr, h) \<Rightarrow>
       case alloc_buffer client ptr len FLUME_BUFFER_SIM_HCCL_COMM h of (temp, h) \<Rightarrow>
       case flume_pread_async file temp len file_offset 0 (lb_session s\<lparr>ss_heap := h\<rparr>) of ((submit_ret, read_io), ss) \<Rightarrow>
         let s = s\<lparr>lb_session := ss\<lparr>ss_heap := delete_buffer temp (ss_heap ss)\<rparr>\<rparr> in
         if submit_ret \<noteq> FLUME_OK then ((submit_ret, 0, 0), s)
         else
           let x = io_at (lb_heap s) read_io;
               h = delete_io read_io (lb_heap s)
           in if io_status x \<noteq> status_u32 FLUME_OK then
                (case MakeIo_int (io_status x) (io_bytes x) (io_checksum x) (io_error x) h of
                   (io, h) \<Rightarrow> ((FLUME_OK, 0, io), set_heap h s))
              else
                let block = hp_next h;
                    s = s\<lparr>lb_blocks := (lb_blocks s)(block \<mapsto> \<lparr>bk_client = client, bk_ptr = ptr,
                      bk_size = io_bytes x, bk_file_offset = file_offset\<rparr>)\<rparr>
                in case MakeIo FLUME_OK (io_bytes x) (io_checksum x)
                    (cstr ''storage_hbm=sim-partial path=file->SIM_HCCL_COMM'') (bump h) of
                  (io, h) \<Rightarrow> ((FLUME_OK, block, io), set_heap h s))"

definition block_at :: "lib \<Rightarrow> nat \<Rightarrow> storage_block" where
  "block_at s b = the (lb_blocks s b)"

definition flume_storage_block_size :: "lib \<Rightarrow> nat \<Rightarrow> nat" where
  "flume_storage_block_size s block = (if block = 0 then 0 else bk_size (block_at s block))"

definition flume_storage_block_release :: "nat \<Rightarrow> lib \<Rightarrow> flume_status \<times> lib" where
  "flume_storage_block_release block s = (FLUME_OK, s\<lparr>lb_blocks := (lb_blocks s)(block := None)\<rparr>)"

definition block_data :: "lib \<Rightarrow> nat \<Rightarrow> bytes" where
  "block_data s b = mem_read (hp_mem (lb_heap s)) (bk_ptr (block_at s b)) (bk_size (block_at s b))"

definition flume_read_to_hbm_async :: "nat \<Rightarrow> nat \<Rightarrow> nat \<Rightarrow> nat \<Rightarrow> lib \<Rightarrow> call_result" where
  "flume_read_to_hbm_async client block dst dst_offset s =
    (if client = 0 \<or> block = 0 \<or> dst = 0 then invalid s
     else if bk_client (block_at s block) \<noteq> client \<or> bf_client (buffer_at (lb_heap s) dst) \<noteq> client \<or>
       \<not> ValidateRange (lb_heap s) dst dst_offset (bk_size (block_at s block)) then invalid s
     else if bf_type (buffer_at (lb_heap s) dst) = FLUME_BUFFER_SIM_HBM then
       (let h = buffer_write dst dst_offset (block_data s block) (lb_heap s)
        in case MakeIo FLUME_OK (bk_size (block_at s block))
            (Checksum32 (buffer_read h dst dst_offset (bk_size (block_at s block))))
            (cstr ''storage_hbm=sim-partial path=SIM_HCCL_COMM->SIM_HBM'') h of
          (io, h) \<Rightarrow> ((FLUME_OK, io), set_heap h s))
     else if IsRealHcclBufferType (bf_type (buffer_at (lb_heap s) dst)) then
       reply_io FLUME_ERR_UNSUPPORTED ''storage->HBM direct path not implemented; fallback=runtime-staging|none'' s
     else invalid s)"

section \<open>Windows of target memory\<close>

definition flume_register_storage_target_memory :: "nat \<Rightarrow> nat \<Rightarrow> nat \<Rightarrow> nat \<Rightarrow> lib \<Rightarrow> call_result" where
  "flume_register_storage_target_memory client buffer offset len s =
    (if client = 0 \<or> buffer = 0 \<or> len = 0 then invalid s
     else if bf_client (buffer_at (lb_heap s) buffer) \<noteq> client \<or>
       bf_type (buffer_at (lb_heap s) buffer) \<noteq> FLUME_BUFFER_SIM_HBM \<or>
       \<not> ValidateRange (lb_heap s) buffer offset len then invalid s
     else
       let lkey = push_bit 32 (of_nat offset) XOR of_nat len;
           w = \<lparr>tw_client = client, tw_buffer = buffer, tw_offset = offset, tw_len = len, tw_lkey = lkey,
             tw_rkey = lkey XOR 0x5f1d000000000001, tw_plans = 0\<rparr>
       in ((FLUME_OK, hp_next (lb_heap s)),
           set_heap (bump (RetainPendingBuffer buffer (lb_heap s)))
             (s\<lparr>lb_targets := (lb_targets s)(hp_next (lb_heap s) \<mapsto> w)\<rparr>)))"

definition target_at :: "lib \<Rightarrow> nat \<Rightarrow> target_window" where
  "target_at s w = the (lb_targets s w)"

definition flume_storage_target_window_release :: "nat \<Rightarrow> lib \<Rightarrow> flume_status \<times> lib" where
  "flume_storage_target_window_release window s =
    (if window = 0 then (FLUME_OK, s)
     else if tw_plans (target_at s window) \<noteq> 0 then (FLUME_ERR_INVALID_ARGUMENT, s)
     else (FLUME_OK, set_heap (ReleasePendingBuffer (tw_buffer (target_at s window)) (lb_heap s))
       (s\<lparr>lb_targets := (lb_targets s)(window := None)\<rparr>)))"

text \<open>\<open>flume_get_storage_transfer_caps\<close>: the fields that are not constant.\<close>

record storage_transfer_caps =
  stc_storage_direct_sim :: bool
  stc_storage_host_staging :: bool
  stc_hcomm_payload_sim :: bool
  stc_future_rdma_hbm :: bool
  stc_default_path :: transfer_path
  stc_roce_storage_protocol :: bool
  stc_roce_storage_native :: bool

definition flume_get_storage_transfer_caps ::
    "bool \<Rightarrow> nat \<Rightarrow> lib \<Rightarrow> flume_status + storage_transfer_caps" where
  "flume_get_storage_transfer_caps native client s =
    (if client = 0 then Inl FLUME_ERR_INVALID_ARGUMENT
     else
       let sim = cl_sim_comm_attached (client_at (lb_heap s) client)
       in Inr \<lparr>stc_storage_direct_sim = sim, stc_storage_host_staging = True, stc_hcomm_payload_sim = sim,
         stc_future_rdma_hbm = False,
         stc_default_path = (if sim then FLUME_STORAGE_TRANSFER_SIM_DIRECT else FLUME_STORAGE_TRANSFER_HOST_STAGING),
         stc_roce_storage_protocol = True, stc_roce_storage_native = native\<rparr>)"

section \<open>Plans for the direct path\<close>

record direct_options =
  do_path :: transfer_path
  do_role :: direct_role
  do_peer_rank :: u32
  do_require_direct :: bool
  do_allow_host_staging :: bool
  do_len :: nat
  do_target_window :: nat

definition default_direct_options :: direct_options where
  "default_direct_options = \<lparr>do_path = FLUME_STORAGE_TRANSFER_AUTO, do_role = FLUME_STORAGE_DIRECT_ROLE_AUTO,
    do_peer_rank = 0, do_require_direct = False, do_allow_host_staging = True, do_len = 0, do_target_window = 0\<rparr>"

text \<open>The path and the role after the automatic choices.\<close>

definition choose_path :: "bool \<Rightarrow> direct_options \<Rightarrow> transfer_path" where
  "choose_path sim_attached opts =
    (if do_path opts = FLUME_STORAGE_TRANSFER_AUTO then
       (if sim_attached then FLUME_STORAGE_TRANSFER_SIM_DIRECT
        else if do_require_direct opts then FLUME_STORAGE_TRANSFER_SIM_DIRECT
        else FLUME_STORAGE_TRANSFER_HOST_STAGING)
     else do_path opts)"

definition choose_role :: "transfer_path \<Rightarrow> nat \<Rightarrow> direct_options \<Rightarrow> direct_role" where
  "choose_role path block opts =
    (if do_role opts = FLUME_STORAGE_DIRECT_ROLE_AUTO then
       (if path = FLUME_STORAGE_TRANSFER_HOST_STAGING then FLUME_STORAGE_DIRECT_ROLE_HOST_STAGING
        else if block \<noteq> 0 then FLUME_STORAGE_DIRECT_ROLE_SOURCE_SEND
        else FLUME_STORAGE_DIRECT_ROLE_TARGET_RECV)
     else do_role opts)"

text \<open>The size of the transfer when the arguments fit the role, \<open>None\<close> where they are rejected.\<close>

definition plan_bytes ::
    "nat \<Rightarrow> nat \<Rightarrow> nat \<Rightarrow> nat \<Rightarrow> transfer_path \<Rightarrow> direct_role \<Rightarrow> direct_options \<Rightarrow> lib \<Rightarrow> nat option" where
  "plan_bytes client block dst dst_offset path role opts s =
    (let bk = block_at s block; b = buffer_at (lb_heap s) dst in
     if role = FLUME_STORAGE_DIRECT_ROLE_SOURCE_SEND then
       (if block = 0 \<or> bk_client bk \<noteq> client \<or> dst \<noteq> 0 then None
        else let n = (if do_len opts = 0 then bk_size bk else do_len opts)
             in if n = 0 \<or> n > bk_size bk then None else Some n)
     else if role = FLUME_STORAGE_DIRECT_ROLE_TARGET_RECV then
       (if dst = 0 \<or> bf_client b \<noteq> client \<or> block \<noteq> 0 then None
        else if do_len opts = 0 \<and> dst_offset > bf_len b then None
        else
          let n = (if do_len opts = 0 then bf_len b - dst_offset else do_len opts);
              w = target_at s (do_target_window opts)
          in if n = 0 \<or> \<not> ValidateRange (lb_heap s) dst dst_offset n then None
             else if path = FLUME_STORAGE_TRANSFER_SIM_DIRECT \<and>
               (do_target_window opts = 0 \<or> tw_client w \<noteq> client \<or> tw_buffer w \<noteq> dst) then None
             else if path = FLUME_STORAGE_TRANSFER_SIM_DIRECT \<and>
               (dst_offset < tw_offset w \<or> n > tw_len w \<or> dst_offset - tw_offset w > tw_len w - n) then None
             else Some n)
     else if role = FLUME_STORAGE_DIRECT_ROLE_HOST_STAGING then
       (if block = 0 \<or> dst = 0 \<or> bk_client bk \<noteq> client \<or> bf_client b \<noteq> client then None
        else let n = (if do_len opts = 0 then bk_size bk else do_len opts)
             in if n = 0 \<or> n > bk_size bk \<or> \<not> ValidateRange (lb_heap s) dst dst_offset n then None else Some n)
     else None)"

definition flume_storage_direct_plan_create ::
    "nat \<Rightarrow> nat \<Rightarrow> nat \<Rightarrow> nat \<Rightarrow> direct_options option \<Rightarrow> lib \<Rightarrow> call_result" where
  "flume_storage_direct_plan_create client block dst dst_offset options s =
    (if client = 0 then invalid s
     else
       let opts = (case options of None \<Rightarrow> default_direct_options | Some x \<Rightarrow> x);
           cl = client_at (lb_heap s) client;
           path = choose_path (cl_sim_comm_attached cl) opts;
           role = choose_role path block opts;
           path = (if role = FLUME_STORAGE_DIRECT_ROLE_HOST_STAGING then FLUME_STORAGE_TRANSFER_HOST_STAGING else path)
       in if path = FLUME_STORAGE_TRANSFER_HOST_STAGING \<and> role \<noteq> FLUME_STORAGE_DIRECT_ROLE_HOST_STAGING then invalid s
          else if do_require_direct opts \<and> path \<noteq> FLUME_STORAGE_TRANSFER_SIM_DIRECT then ((FLUME_ERR_UNSUPPORTED, 0), s)
          else if \<not> do_allow_host_staging opts \<and> path = FLUME_STORAGE_TRANSFER_HOST_STAGING then ((FLUME_ERR_UNSUPPORTED, 0), s)
          else case plan_bytes client block dst dst_offset path role opts s of None \<Rightarrow> invalid s | Some n \<Rightarrow>
            if path = FLUME_STORAGE_TRANSFER_SIM_DIRECT \<and> \<not> cl_sim_comm_attached cl then ((FLUME_ERR_UNSUPPORTED, 0), s)
            else if path = FLUME_STORAGE_TRANSFER_SIM_DIRECT \<and>
              (cl_rank_size cl \<noteq> 2 \<or> do_peer_rank opts \<ge> cl_rank_size cl \<or> do_peer_rank opts = cl_rank cl) then invalid s
            else if path = FLUME_STORAGE_TRANSFER_SIM_DIRECT \<and> role = FLUME_STORAGE_DIRECT_ROLE_TARGET_RECV \<and>
              bf_type (buffer_at (lb_heap s) dst) \<noteq> FLUME_BUFFER_SIM_HBM then invalid s
            else
              let plan = \<lparr>dp_client = client, dp_block = block, dp_dst = dst, dp_target_window = do_target_window opts,
                    dp_dst_offset = dst_offset, dp_path = path, dp_role = role, dp_peer_rank = do_peer_rank opts,
                    dp_require_direct = do_require_direct opts, dp_allow_host_staging = do_allow_host_staging opts,
                    dp_bytes = n\<rparr>;
                  targets = (if do_target_window opts \<noteq> 0
                    then (lb_targets s)(do_target_window opts :=
                      map_option (\<lambda>w. w\<lparr>tw_plans := tw_plans w + 1\<rparr>) (lb_targets s (do_target_window opts)))
                    else lb_targets s)
              in ((FLUME_OK, hp_next (lb_heap s)), set_heap (bump (lb_heap s))
                (s\<lparr>lb_plans := (lb_plans s)(hp_next (lb_heap s) \<mapsto> plan), lb_targets := targets\<rparr>)))"

definition plan_at :: "lib \<Rightarrow> nat \<Rightarrow> direct_plan" where
  "plan_at s p = the (lb_plans s p)"

definition flume_storage_direct_plan_release :: "nat \<Rightarrow> lib \<Rightarrow> flume_status \<times> lib" where
  "flume_storage_direct_plan_release plan s =
    (let w = dp_target_window (plan_at s plan);
         targets = (if plan \<noteq> 0 \<and> w \<noteq> 0
           then (lb_targets s)(w := map_option (\<lambda>x. x\<lparr>tw_plans := tw_plans x - 1\<rparr>) (lb_targets s w)) else lb_targets s)
     in (FLUME_OK, s\<lparr>lb_targets := targets, lb_plans := (lb_plans s)(plan := None)\<rparr>))"

section \<open>Running a plan\<close>

text \<open>Starting a thread: a new entry of the workers, and the pending handle it will complete.\<close>

definition spawn :: "worker \<Rightarrow> lib \<Rightarrow> lib" where
  "spawn w s = set_heap (bump (lb_heap s)) (s\<lparr>lb_workers := (lb_workers s)(hp_next (lb_heap s) \<mapsto> w)\<rparr>)"

definition wrap_inner :: "nat \<Rightarrow> bytes \<Rightarrow> lib \<Rightarrow> call_result" where
  "wrap_inner inner marker s =
    (case MakePendingIo (lb_heap s) of (wrapper, h) \<Rightarrow>
      ((FLUME_OK, wrapper), spawn (StorageWorker wrapper inner marker) (set_heap (RetainPendingIo wrapper h) s)))"

definition host_staging_marker :: string where
  "host_staging_marker = ''storage_direct_sim=off storage_hbm_path=host-staging '' @
    ''storage_host_payload_copy=used hcomm_payload_backend=none '' @
    ''fallback=host-staging completion_notify=local-complete''"

definition sim_direct_marker :: "direct_plan \<Rightarrow> lib \<Rightarrow> string" where
  "sim_direct_marker p s =
    ''storage_direct_sim=on storage_hbm_path=sim-direct '' @
    ''storage_host_payload_copy=not-used hcomm_payload_backend=sim '' @
    ''storage_fabric=sim-rdma '' @
    ''storage_memory_registration=sim-hbm-window '' @
    ''storage_dma_direction=storage-to-hbm '' @
    ''storage_submit=doorbell storage_completion_queue=sim '' @
    ''storage_completion_status=success '' @
    ''storage_notify_order=submit->fabric-write->cq-complete->target-visible '' @
    ''fallback=none completion_notify=sim-channel '' @
    ''storage_direct_role='' @ StorageDirectRoleName (dp_role p) @
    '' storage_direct_peer_rank='' @ dec (unat (dp_peer_rank p)) @
    '' storage_direct_bytes='' @ dec (dp_bytes p) @
    (if dp_target_window p \<noteq> 0 then
       '' storage_target_window=registered'' @
       '' storage_target_lkey='' @ dec (unat (tw_lkey (target_at s (dp_target_window p)))) @
       '' storage_target_rkey='' @ dec (unat (tw_rkey (target_at s (dp_target_window p))))
     else [])"

definition flume_read_storage_to_hbm_async :: "device \<Rightarrow> nat \<Rightarrow> nat \<Rightarrow> nat \<Rightarrow> lib \<Rightarrow> call_result" where
  "flume_read_storage_to_hbm_async dv client plan acl_stream s =
    (if client = 0 \<or> plan = 0 \<or> dp_client (plan_at s plan) \<noteq> client then invalid s
     else
       let p = plan_at s plan in
       if dp_path p = FLUME_STORAGE_TRANSFER_HOST_STAGING then
         (if dp_require_direct p \<or> \<not> dp_allow_host_staging p then
            reply_io FLUME_ERR_UNSUPPORTED (''storage_direct_sim=off storage_hbm_path=unsupported '' @
              ''storage_host_payload_copy=not-used hcomm_payload_backend=none '' @
              ''fallback=none reason=strict-direct-only-rejects-host-staging'') s
          else case flume_read_to_hbm_async client (dp_block p) (dp_dst p) (dp_dst_offset p) s of ((ret, inner), s) \<Rightarrow>
            if ret \<noteq> FLUME_OK then ((ret, 0), s) else wrap_inner inner (cstr host_staging_marker) s)
       else if dp_path p \<noteq> FLUME_STORAGE_TRANSFER_SIM_DIRECT then
         reply_io FLUME_ERR_UNSUPPORTED (''storage_direct_sim=off storage_hbm_path=unsupported '' @
           ''storage_host_payload_copy=not-used '' @ ''hcomm_payload_backend=none fallback=none'') s
       else
         case (if dp_role p = FLUME_STORAGE_DIRECT_ROLE_SOURCE_SEND then
                 (case alloc_buffer client (bk_ptr (block_at s (dp_block p))) (bk_size (block_at s (dp_block p)))
                     FLUME_BUFFER_SIM_HBM (lb_heap s) of (temp, h) \<Rightarrow>
                  (case flume_hcomm_payload_send_async dv client temp 0 (of_nat (dp_bytes p)) FLUME_DTYPE_UINT8
                      (dp_peer_rank p) acl_stream (set_heap h s) of (r, s) \<Rightarrow>
                    Some (r, set_heap (delete_buffer temp (lb_heap s)) s)))
               else if dp_role p = FLUME_STORAGE_DIRECT_ROLE_TARGET_RECV then
                 Some (flume_hcomm_payload_recv_async dv client (dp_dst p) (dp_dst_offset p) (of_nat (dp_bytes p))
                   FLUME_DTYPE_UINT8 (dp_peer_rank p) acl_stream s)
               else None) of
           None \<Rightarrow> invalid s
         | Some ((submit_ret, inner), s) \<Rightarrow>
             if submit_ret \<noteq> FLUME_OK then ((submit_ret, 0), s)
             else wrap_inner inner (cstr (sim_direct_marker p s)) s)"

text \<open>The thread of a plan, once its inner handle is complete (\<open>CompleteStorageDirectFromInner\<close>).\<close>

definition storage_worker_step :: "nat \<Rightarrow> lib \<Rightarrow> lib option" where
  "storage_worker_step t s =
    (case lb_workers s t of
       Some (StorageWorker wrapper inner marker) \<Rightarrow>
         (if \<not> io_done (io_at (lb_heap s) inner) then None
          else
            let x = io_at (lb_heap s) inner;
                detail = marker @ (if io_error x \<noteq> [] then cstr '' inner_detail=\"'' @ io_error x @ cstr ''\"'' else []);
                s = snd (flume_io_release inner s)
            in Some (set_heap (CompletePendingIo_int wrapper (io_status x) (io_bytes x) (io_checksum x) detail (lb_heap s))
              (s\<lparr>lb_workers := (lb_workers s)(t := None)\<rparr>)))
     | _ \<Rightarrow> None)"

section \<open>RoCE sessions\<close>

definition kIdle :: u64 where "kIdle = 0"
definition kActive :: u64 where "kActive = 1"
definition kClosing :: u64 where "kClosing = - 1"

record HostRaConfig =
  hc_storage_server :: bytes
  hc_npu_rnic_ip :: bytes
  hc_logical_device :: u32
  hc_physical_device :: int
  hc_gid_index :: u32
  hc_path_mtu :: u8
  hc_bootstrap_port :: u32
  hc_timeout_ms :: u32
  hc_hdc_type :: int
  hc_control_mode :: ControlMode
  hc_transfer_mode :: TransferMode

text \<open>The session behind \<open>HostRaSession\<close> and the creation of a thread: \<open>Open\<close> leaves it available or not,
  with or without the capability and with an error text; \<open>SubmitAndWait\<close> fails with a text or gives size,
  checksum and marker.\<close>

record host_ra =
  hr_open :: "HostRaConfig \<Rightarrow> bool \<times> bool \<times> bytes"
  hr_close :: "nat \<Rightarrow> bool"
  hr_submit :: "roce_request \<Rightarrow> bytes + (nat \<times> u32 \<times> bytes)"
  hr_thread :: "roce_request \<Rightarrow> bool"
  hr_native_reason :: bytes

text \<open>\<open>flume_roce_storage_options_t\<close>, with the size that the caller's structure has.\<close>

record roce_options =
  ro_size :: u32
  ro_storage_server :: "bytes option"
  ro_npu_rnic_ip :: "bytes option"
  ro_storage_rnic_ip :: "bytes option"
  ro_npu_device :: u32
  ro_gid_index :: u32
  ro_bootstrap_port :: u32
  ro_timeout_ms :: u32
  ro_post_mode :: roce_post_mode
  ro_storage_backend :: roce_backend
  ro_require_compute_host_bypass :: u32
  ro_control_mode :: roce_control_mode
  ro_transfer_mode :: roce_transfer_mode
  ro_npu_physical_device_valid :: u32
  ro_npu_physical_device :: u32
  ro_path_mtu_bytes :: u32

text \<open>Offsets of the structure on a 64-bit host: \<open>npu_physical_device_valid\<close> at 68, the end of
  \<open>path_mtu_bytes\<close> and of the structure at 80.\<close>

definition roce_options_ok :: "roce_options \<Rightarrow> bool" where
  "roce_options_ok opts \<longleftrightarrow> 68 \<le> ro_size opts \<and>
    ro_storage_server opts \<noteq> None \<and> ro_storage_server opts \<noteq> Some [] \<and>
    ro_npu_rnic_ip opts \<noteq> None \<and> ro_npu_rnic_ip opts \<noteq> Some [] \<and>
    ro_bootstrap_port opts \<noteq> 0 \<and> ro_timeout_ms opts \<noteq> 0 \<and>
    ro_post_mode opts \<in> {FLUME_ROCE_POST_AUTO, FLUME_ROCE_POST_HOST_RA, FLUME_ROCE_POST_AICPU, FLUME_ROCE_POST_AIV} \<and>
    ro_control_mode opts \<in> {FLUME_ROCE_CONTROL_TCP, FLUME_ROCE_CONTROL_NPU_RA} \<and>
    ro_transfer_mode opts \<in> {FLUME_ROCE_TRANSFER_PUSH, FLUME_ROCE_TRANSFER_PULL} \<and>
    ro_storage_backend opts \<in> {FLUME_ROCE_STORAGE_MEMORY, FLUME_ROCE_STORAGE_POSIX, FLUME_ROCE_STORAGE_SPDK}"

definition flume_roce_storage_session_open :: "host_ra \<Rightarrow> nat \<Rightarrow> roce_options option \<Rightarrow> lib \<Rightarrow> call_result" where
  "flume_roce_storage_session_open ra client options s =
    (case options of None \<Rightarrow> invalid s | Some opts \<Rightarrow>
     if client = 0 \<or> \<not> roce_options_ok opts then invalid s
     else if 80 \<le> ro_size opts \<and> ro_npu_physical_device_valid opts \<noteq> 0 \<and>
       2 ^ 31 \<le> unat (ro_npu_physical_device opts) then invalid s
     else case (if 80 \<le> ro_size opts \<and> ro_path_mtu_bytes opts \<noteq> 0
         then PathMtuFromBytes (ro_path_mtu_bytes opts) else Some kDefaultPathMtu) of None \<Rightarrow> invalid s | Some mtu \<Rightarrow>
       let physical = (if 80 \<le> ro_size opts \<and> ro_npu_physical_device_valid opts \<noteq> 0
             then int (unat (ro_npu_physical_device opts)) else - 1);
           config = \<lparr>hc_storage_server = the (ro_storage_server opts), hc_npu_rnic_ip = the (ro_npu_rnic_ip opts),
             hc_logical_device = ro_npu_device opts, hc_physical_device = physical, hc_gid_index = ro_gid_index opts,
             hc_path_mtu = mtu, hc_bootstrap_port = ro_bootstrap_port opts, hc_timeout_ms = ro_timeout_ms opts,
             hc_hdc_type = 18,
             hc_control_mode = (if ro_control_mode opts = FLUME_ROCE_CONTROL_TCP then CtlTcp else CtlNpuRa),
             hc_transfer_mode = (if ro_transfer_mode opts = FLUME_ROCE_TRANSFER_PUSH then TransferPush else TransferPull)\<rparr>;
           (available, capability, open_error) =
             (if ro_post_mode opts = FLUME_ROCE_POST_AICPU \<or> ro_post_mode opts = FLUME_ROCE_POST_AIV
              then (False, False, cstr ''requested NPU-side post mode is not implemented; use host-ra'')
              else hr_open ra config);
           session = \<lparr>rs_client = client, rs_storage_server = the (ro_storage_server opts),
             rs_npu_rnic_ip = the (ro_npu_rnic_ip opts),
             rs_storage_rnic_ip = (case ro_storage_rnic_ip opts of None \<Rightarrow> [] | Some ip \<Rightarrow> ip),
             rs_npu_device = ro_npu_device opts, rs_npu_physical_device = physical, rs_gid_index = ro_gid_index opts,
             rs_path_mtu = mtu, rs_bootstrap_port = ro_bootstrap_port opts, rs_timeout_ms = ro_timeout_ms opts,
             rs_post_mode = ro_post_mode opts, rs_control_mode = ro_control_mode opts,
             rs_transfer_mode = ro_transfer_mode opts, rs_storage_backend = ro_storage_backend opts,
             rs_require_compute_host_bypass = (ro_require_compute_host_bypass opts \<noteq> 0),
             rs_available = available, rs_capability = capability, rs_native_open_error = open_error,
             rs_next_request_id = 1, rs_request_state = kIdle\<rparr>
       in ((FLUME_OK, hp_next (lb_heap s)), set_heap (bump (lb_heap s))
         (s\<lparr>lb_roce := (lb_roce s)(hp_next (lb_heap s) \<mapsto> session)\<rparr>)))"

definition session_at :: "lib \<Rightarrow> nat \<Rightarrow> roce_session" where
  "session_at s i = the (lb_roce s i)"

definition upd_session :: "nat \<Rightarrow> (roce_session \<Rightarrow> roce_session) \<Rightarrow> lib \<Rightarrow> lib" where
  "upd_session i f s = s\<lparr>lb_roce := (lb_roce s)(i := map_option f (lb_roce s i))\<rparr>"

definition flume_roce_storage_session_close :: "host_ra \<Rightarrow> nat \<Rightarrow> lib \<Rightarrow> flume_status \<times> lib" where
  "flume_roce_storage_session_close ra session s =
    (if session = 0 then (FLUME_OK, s)
     else if rs_request_state (session_at s session) \<noteq> kIdle then (FLUME_ERR_INVALID_ARGUMENT, s)
     else if rs_available (session_at s session) \<and> \<not> hr_close ra session
     then (FLUME_ERR_BACKEND, upd_session session (\<lambda>x. x\<lparr>rs_request_state := kIdle\<rparr>) s)
     else (FLUME_OK, s\<lparr>lb_roce := (lb_roce s)(session := None)\<rparr>))"

definition roce_unavailable_marker :: "host_ra \<Rightarrow> roce_session \<Rightarrow> bytes" where
  "roce_unavailable_marker ra x =
    cstr (''storage_hbm_path=roce-direct roce_storage='' @
      (if rs_capability x then ''backend-failed'' else ''unsupported'') @ '' '' @
      ''roce_protocol=flume-roce-v2 roce_post_mode='' @ RocePostModeName (rs_post_mode x) @
      '' compute_host_payload=not-used fallback=none reason=\"'') @
    (if rs_native_open_error x = [] then hr_native_reason ra else rs_native_open_error x) @ cstr ''\"''"

text \<open>What the thread of a request does after \<open>SubmitAndWait\<close>, and what the caller does when no thread
  could be started: release the buffer, leave the active state, complete the handle.\<close>

definition finish_request :: "roce_request \<Rightarrow> flume_status \<Rightarrow> nat \<Rightarrow> u32 \<Rightarrow> bytes \<Rightarrow> lib \<Rightarrow> lib" where
  "finish_request rq status n checksum text s =
    (let s = upd_session (rq_session rq) (\<lambda>x. x\<lparr>rs_request_state := kIdle\<rparr>) s
     in set_heap (CompletePendingIo (rq_io rq) status n checksum text (ReleasePendingBuffer (rq_buffer rq) (lb_heap s))) s)"

definition SubmitRoceStorage ::
    "host_ra \<Rightarrow> nat \<Rightarrow> u16 \<Rightarrow> u64 \<Rightarrow> u64 \<Rightarrow> nat \<Rightarrow> nat \<Rightarrow> nat \<Rightarrow> nat \<Rightarrow> lib \<Rightarrow> call_result" where
  "SubmitRoceStorage ra session operation object_id storage_offset buffer buffer_offset len acl_stream s =
    (if session = 0 \<or> buffer = 0 then invalid s
     else if rs_request_state (session_at s session) \<noteq> kIdle then invalid s
     else if bf_client (buffer_at (lb_heap s) buffer) \<noteq> rs_client (session_at s session) \<or> len = 0 \<or>
       \<not> ValidateRange (lb_heap s) buffer buffer_offset len then invalid s
     else if bf_type (buffer_at (lb_heap s) buffer) \<noteq> FLUME_BUFFER_ASCEND_HBM \<and>
       bf_type (buffer_at (lb_heap s) buffer) \<noteq> FLUME_BUFFER_HCCL_COMM then invalid s
     else if \<not> rs_available (session_at s session) then
       (case MakeIo (if rs_capability (session_at s session) then FLUME_ERR_BACKEND else FLUME_ERR_UNSUPPORTED) 0 0
           (roce_unavailable_marker ra (session_at s session)) (lb_heap s) of
          (io, h) \<Rightarrow> ((FLUME_OK, io), set_heap h s))
     else
       let request_id = rs_next_request_id (session_at s session);
           s = upd_session session (\<lambda>x. x\<lparr>rs_next_request_id := rs_next_request_id x + 1, rs_request_state := kActive\<rparr>) s
       in case MakePendingIo (lb_heap s) of (io, h) \<Rightarrow>
         let h = RetainPendingBuffer buffer (RetainPendingIo io h);
             rq = \<lparr>rq_session = session, rq_operation = operation, rq_request_id = request_id, rq_object_id = object_id,
               rq_storage_offset = storage_offset, rq_npu_address = bf_ptr (buffer_at h buffer) + buffer_offset,
               rq_len = len, rq_acl_stream = acl_stream, rq_buffer = buffer, rq_io = io\<rparr>;
             s = set_heap h s
         in ((FLUME_OK, io),
             if hr_thread ra rq then spawn (RoceWorker rq) s
             else finish_request rq FLUME_ERR_BACKEND 0 0 (cstr ''failed to start Host-RA request worker'') s))"

definition roce_worker_step :: "host_ra \<Rightarrow> nat \<Rightarrow> lib \<Rightarrow> lib option" where
  "roce_worker_step ra t s =
    (case lb_workers s t of
       Some (RoceWorker rq) \<Rightarrow>
         (let s = s\<lparr>lb_workers := (lb_workers s)(t := None)\<rparr> in
          Some (case hr_submit ra rq of
              Inl error \<Rightarrow> finish_request rq FLUME_ERR_BACKEND 0 0 (cstr ''Host-RA request failed: '' @ error) s
            | Inr (n, checksum, marker) \<Rightarrow> finish_request rq FLUME_OK n checksum marker s))
     | _ \<Rightarrow> None)"

definition flume_roce_storage_read_async ::
    "host_ra \<Rightarrow> nat \<Rightarrow> u64 \<Rightarrow> u64 \<Rightarrow> nat \<Rightarrow> nat \<Rightarrow> nat \<Rightarrow> nat \<Rightarrow> lib \<Rightarrow> call_result" where
  "flume_roce_storage_read_async ra session object_id storage_offset dst dst_offset len acl_stream =
    SubmitRoceStorage ra session kRead object_id storage_offset dst dst_offset len acl_stream"

definition flume_roce_storage_write_async ::
    "host_ra \<Rightarrow> nat \<Rightarrow> u64 \<Rightarrow> u64 \<Rightarrow> nat \<Rightarrow> nat \<Rightarrow> nat \<Rightarrow> nat \<Rightarrow> lib \<Rightarrow> call_result" where
  "flume_roce_storage_write_async ra session object_id storage_offset src src_offset len acl_stream =
    SubmitRoceStorage ra session kWrite object_id storage_offset src src_offset len acl_stream"

definition flume_swap_in_async :: "host_ra \<Rightarrow> nat \<Rightarrow> u64 \<Rightarrow> nat \<Rightarrow> nat \<Rightarrow> nat \<Rightarrow> nat \<Rightarrow> lib \<Rightarrow> call_result" where
  "flume_swap_in_async ra session storage_offset dst_hbm dst_offset len acl_stream =
    flume_roce_storage_read_async ra session 0 storage_offset dst_hbm dst_offset len acl_stream"

definition flume_swap_out_async :: "host_ra \<Rightarrow> nat \<Rightarrow> nat \<Rightarrow> nat \<Rightarrow> u64 \<Rightarrow> nat \<Rightarrow> nat \<Rightarrow> lib \<Rightarrow> call_result" where
  "flume_swap_out_async ra session src_hbm src_offset storage_offset len acl_stream =
    flume_roce_storage_write_async ra session 0 storage_offset src_hbm src_offset len acl_stream"

end
