(* ===== verification/Host_Ra.thy ===== *)
theory Host_Ra
  imports Cann_Api Client_Storage Roce_Verbs
begin

text \<open>
  The NPU side of a RoCE storage session (\<open>HostRaSession::Impl\<close> of
  \<open>src/roce_storage/host_ra_session.cc\<close>): bring-up, the exchange with the storage server, one request
  at a time, and the tear-down.

  The mutex is held by every method, so a call is one transition of the object and the machine.  Calls
  return the text left in \<open>*error\<close> where the C++ returns false; \<open>err\<close> is the text the caller's string has
  before the call.  The control connection is its descriptor and the socket script of \<open>Posix_Socket\<close>.  The
  printed lines are not modelled; the result structure of a request is always given.
\<close>

section \<open>State\<close>

record HostRaImpl = ra_core +
  hi_config :: HostRaConfig
  hi_lifecycle :: SessionLifecycle
  hi_command_mr :: MrInfo
  hi_completion_mr :: MrInfo
  hi_command_device :: "nat option"
  hi_completion_device :: "nat option"
  hi_command_mr_handle :: "nat option"
  hi_completion_mr_handle :: "nat option"
  hi_control :: "(nat \<times> conn) option"
  hi_namespace_bytes :: u64
  hi_max_transfer :: u64
  hi_server_capabilities :: u32

definition default_config :: HostRaConfig where
  "default_config = \<lparr>hc_storage_server = [], hc_npu_rnic_ip = [], hc_logical_device = 0, hc_physical_device = -1,
     hc_gid_index = 0, hc_path_mtu = kDefaultPathMtu, hc_bootstrap_port = 0, hc_timeout_ms = 30000,
     hc_hdc_type = 18, hc_control_mode = CtlTcp, hc_transfer_mode = TransferPush\<rparr>"

definition new_host :: HostRaImpl where
  "new_host = ra_core.extend new_core
     \<lparr>hi_config = default_config, hi_lifecycle = new_lifecycle, hi_command_mr = zero_mr, hi_completion_mr = zero_mr,
      hi_command_device = None, hi_completion_device = None, hi_command_mr_handle = None,
      hi_completion_mr_handle = None, hi_control = None, hi_namespace_bytes = 0, hi_max_transfer = 0,
      hi_server_capabilities = 0\<rparr>"

definition npu_command_posting :: "HostRaConfig \<Rightarrow> bool" where
  "npu_command_posting cfg \<longleftrightarrow> hc_control_mode cfg = CtlNpuRa"

section \<open>The control connection\<close>

definition socket_timeouts :: "u32 \<Rightarrow> nat \<times> nat" where
  "socket_timeouts timeout_ms = (unat timeout_ms div 1000, (unat timeout_ms mod 1000) * 1000)"

fun try_addresses :: "('v, 'z) cann_scheme \<Rightarrow> nat \<times> nat \<Rightarrow> nat list \<Rightarrow> 'v \<Rightarrow> (nat \<times> conn) option \<times> 'v" where
  "try_addresses cn limits [] v = (None, v)"
| "try_addresses cn limits (a # as) v =
    (case cn_socket cn a v of
       (None, v) \<Rightarrow> try_addresses cn limits as v
     | (Some fd, v) \<Rightarrow>
        (case cn_connect cn fd a (cn_set_timeouts cn fd limits v) of
           (Some c, v) \<Rightarrow> (Some (fd, c), v)
         | (None, v) \<Rightarrow> try_addresses cn limits as (snd (cn_close_fd cn fd v))))"

definition ConnectTcp :: "('v, 'z) cann_scheme \<Rightarrow> bytes \<Rightarrow> u32 \<Rightarrow> u32 \<Rightarrow> 'v \<Rightarrow> (string + nat \<times> conn) \<times> 'v" where
  "ConnectTcp cn host port timeout_ms v =
    (case cn_getaddrinfo cn host (dec (unat port)) v of
       (None, v) \<Rightarrow> (Inl ''failed to resolve storage control endpoint'', v)
     | (Some addresses, v) \<Rightarrow>
        (case try_addresses cn (socket_timeouts timeout_ms) addresses v of
           (None, v) \<Rightarrow> (Inl ''failed to connect storage control endpoint'', v)
         | (Some x, v) \<Rightarrow> (Inr x, v)))"

section \<open>Tear-down\<close>

definition HostCleanup :: "('v, 'z) cann_scheme \<Rightarrow> HostRaImpl \<Rightarrow> 'v \<Rightarrow> HostRaImpl \<times> 'v" where
  "HostCleanup cn s v =
    (let v = free_if (cn_close_fd cn) (map_option fst (hi_control s)) v;
         v = free_if (DeregisterMr cn (rc_api s) (rc_rdma_handle s)) (hi_completion_mr_handle s) v;
         v = free_if (DeregisterMr cn (rc_api s) (rc_rdma_handle s)) (hi_command_mr_handle s) v;
         v = free_if (DeviceFree cn (rc_api s)) (hi_completion_device s) v;
         v = free_if (DeviceFree cn (rc_api s)) (hi_command_device s) v
     in core_cleanup cn (hc_logical_device (hi_config s))
          (s\<lparr>hi_control := None, hi_completion_mr_handle := None, hi_command_mr_handle := None,
             hi_completion_device := None, hi_command_device := None\<rparr>) v)"

definition HostFail :: "('v, 'z) cann_scheme \<Rightarrow> HostRaImpl \<Rightarrow> 'v \<Rightarrow> HostRaImpl \<times> 'v" where
  "HostFail cn s v = HostCleanup cn (s\<lparr>hi_lifecycle := snd (FailSession (hi_lifecycle s))\<rparr>) v"

section \<open>Opening\<close>

definition host_prepare :: "HostRaConfig \<Rightarrow> HostRaImpl \<Rightarrow> 'v \<Rightarrow> string option \<times> HostRaImpl \<times> 'v" where
  "host_prepare requested s v =
    (let s = s\<lparr>hi_config := requested\<rparr> in
     if PathMtuBytes (hc_path_mtu requested) < 1024 then
       (Some ''Host-RA path MTU must be 1024, 2048, or 4096 bytes'', s, v)
     else if hc_control_mode requested \<noteq> CtlTcp \<and> \<not> npu_command_posting requested then
       (Some ''unsupported Host-RA control mode'', s, v)
     else if hc_transfer_mode requested \<noteq> TransferPush then
       (Some ''pull transfer mode is reserved but not implemented; use push'', s, v)
     else (None, s, v))"

definition AllocateAndRegister ::
  "('v, 'z) cann_scheme \<Rightarrow> CannRaApi \<Rightarrow> nat option \<Rightarrow> nat \<Rightarrow> u32 \<Rightarrow> MrInfo \<Rightarrow> 'v \<Rightarrow>
   string option \<times> nat option \<times> MrInfo \<times> nat option \<times> 'v" where
  "AllocateAndRegister cn api rdma n access mr v =
    (case DeviceMalloc cn api n kAclMallocNormalOnly v of (st, a, v) \<Rightarrow>
     if st \<noteq> kSuccess then (Some ''aclrtMalloc failed for Host-RA control buffer'', a, mr, None, v)
     else case RegisterMr cn api rdma (mr\<lparr>mi_address := a, mi_size := n, mi_access := access\<rparr>) v of (st, mr, h, v) \<Rightarrow>
       if st \<noteq> kSuccess \<or> h = None then (Some ''RaRegisterMr failed for Host-RA control buffer'', a, mr, h, v)
       else (None, a, mr, h, v))"

definition command_buffer :: "('v, 'z) cann_scheme \<Rightarrow> HostRaImpl \<Rightarrow> 'v \<Rightarrow> string option \<times> HostRaImpl \<times> 'v" where
  "command_buffer cn s v =
    (if npu_command_posting (hi_config s) then
       (case AllocateAndRegister cn (rc_api s) (rc_rdma_handle s) kCommandWireBytes kRaAccessLocalWrite
           (hi_command_mr s) v of (e, a, mr, h, v) \<Rightarrow>
        (e, s\<lparr>hi_command_device := a, hi_command_mr := mr, hi_command_mr_handle := h\<rparr>, v))
     else (None, s, v))"

definition completion_buffer :: "('v, 'z) cann_scheme \<Rightarrow> HostRaImpl \<Rightarrow> 'v \<Rightarrow> string option \<times> HostRaImpl \<times> 'v" where
  "completion_buffer cn s v =
    (if npu_command_posting (hi_config s) then
       (case AllocateAndRegister cn (rc_api s) (rc_rdma_handle s) kCompletionWireBytes
           (kRaAccessLocalWrite OR kRaAccessRemoteWrite) (hi_completion_mr s) v of (e, a, mr, h, v) \<Rightarrow>
        (e, s\<lparr>hi_completion_device := a, hi_completion_mr := mr, hi_completion_mr_handle := h\<rparr>, v))
     else (None, s, v))"

definition local_ready :: "string \<Rightarrow> HostRaImpl \<Rightarrow> 'v \<Rightarrow> string option \<times> HostRaImpl \<times> 'v" where
  "local_ready err s v =
    (case LocalResourcesReady (hi_lifecycle s) of (ok, l) \<Rightarrow>
     (if ok then None else Some err, s\<lparr>hi_lifecycle := l\<rparr>, v))"

definition session_request :: "HostRaImpl \<Rightarrow> SessionRequest" where
  "session_request s =
    (if hc_control_mode (hi_config s) = CtlTcp then
       \<lparr>sr_endpoint = ToEndpoint (rc_local_qp s) (hc_path_mtu (hi_config s)),
        sr_completion = \<lparr>mw_address = 0, mw_length = 0, mw_rkey = 0, mw_access = 0\<rparr>, sr_flags = kSessionFlagTcpControl\<rparr>
     else
       \<lparr>sr_endpoint = ToEndpoint (rc_local_qp s) (hc_path_mtu (hi_config s)),
        sr_completion = \<lparr>mw_address = ptr_u64 (hi_completion_device s), mw_length = of_nat kCompletionWireBytes,
          mw_rkey = mi_rkey (hi_completion_mr s), mw_access = kMemoryRemoteWrite\<rparr>, sr_flags = 0\<rparr>)"

text \<open>From the accepted response to the connected queue pair.\<close>

definition accept_response ::
  "('v, 'z) cann_scheme \<Rightarrow> string \<Rightarrow> SessionResponse \<Rightarrow> HostRaImpl \<Rightarrow> 'v \<Rightarrow> string option \<times> HostRaImpl \<times> 'v" where
  "accept_response cn err r s v =
    (case Bootstrapped (hi_lifecycle s) of (ok, l) \<Rightarrow>
     let s = s\<lparr>hi_lifecycle := l\<rparr> in
     if \<not> ok then (Some err, s, v)
     else case connect_qp cn ''RaTypicalQpModify failed'' (sp_endpoint r) s v of
       (Some e, s, v) \<Rightarrow> (Some e, s, v)
     | (None, s, v) \<Rightarrow>
        let s = s\<lparr>hi_namespace_bytes := sp_namespace_capacity r, hi_max_transfer := sp_max_transfer_bytes r,
                  hi_server_capabilities := sp_server_capabilities r\<rparr> in
        case Connected (hi_lifecycle s) of (ok, l) \<Rightarrow>
        (if ok then None else Some err, s\<lparr>hi_lifecycle := l\<rparr>, v))"

definition session_bootstrap ::
  "('v, 'z) cann_scheme \<Rightarrow> string \<Rightarrow> string \<Rightarrow> HostRaImpl \<Rightarrow> 'v \<Rightarrow> string option \<times> HostRaImpl \<times> 'v" where
  "session_bootstrap cn eno err s v =
    (case ConnectTcp cn (hc_storage_server (hi_config s)) (hc_bootstrap_port (hi_config s))
         (hc_timeout_ms (hi_config s)) v of
       (Inl e, v) \<Rightarrow> (Some e, s, v)
     | (Inr (fd, c), v) \<Rightarrow>
     case (case EncodeSessionRequest (session_request s) of None \<Rightarrow> (Some [], c) | Some w \<Rightarrow> ControlWriteAll eno c w) of
       (Some e, c) \<Rightarrow> (Some ''failed to send Host-RA session request'', s\<lparr>hi_control := Some (fd, c)\<rparr>, v)
     | (None, c) \<Rightarrow>
     case ControlReadAll (c_rx c) kSessionResponseWireBytes of (q, rx) \<Rightarrow>
     let s = s\<lparr>hi_control := Some (fd, c\<lparr>c_rx := rx\<rparr>)\<rparr> in
     case (case q of Inl e \<Rightarrow> None | Inr w \<Rightarrow> DecodeSessionResponse w) of
       None \<Rightarrow> (Some ''storage server rejected Host-RA session bootstrap'', s, v)
     | Some r \<Rightarrow>
        if sp_status r \<noteq> 0 then (Some ''storage server rejected Host-RA session bootstrap'', s, v)
        else accept_response cn err r s v)"

definition core_steps ::
  "('v, 'z) cann_scheme \<Rightarrow> HostRaConfig \<Rightarrow> string \<Rightarrow> (HostRaImpl \<Rightarrow> 'v \<Rightarrow> string option \<times> HostRaImpl \<times> 'v) list" where
  "core_steps cn cfg err =
    [load_api cn (npu_command_posting cfg) err,
     select_device cn ''failed to select NPU device or resolve physical device id'' (hc_logical_device cfg)
       (hc_physical_device cfg) err,
     bootstrap_network cn (hc_logical_device cfg) (hc_hdc_type cfg),
     init_ra cn ''RaInit failed'',
     open_rdev cn ''NPU RNIC IP must be an IPv4 address'' '' failed'' (hc_npu_rnic_ip cfg),
     create_qp cn ''RaTypicalQpCreate failed'' (hc_gid_index cfg)]"

definition host_steps ::
  "('v, 'z) cann_scheme \<Rightarrow> string \<Rightarrow> HostRaConfig \<Rightarrow> string \<Rightarrow> (HostRaImpl \<Rightarrow> 'v \<Rightarrow> string option \<times> HostRaImpl \<times> 'v) list" where
  "host_steps cn eno cfg err = host_prepare cfg # core_steps cn cfg err @
     [command_buffer cn, completion_buffer cn, local_ready err, session_bootstrap cn eno err]"

definition HostOpen ::
  "('v, 'z) cann_scheme \<Rightarrow> string \<Rightarrow> HostRaConfig \<Rightarrow> string \<Rightarrow> HostRaImpl \<Rightarrow> 'v \<Rightarrow> string option \<times> HostRaImpl \<times> 'v" where
  "HostOpen cn eno requested err s v =
    (if lc_state (hi_lifecycle s) \<noteq> kCreated then (Some ''Host-RA session was already opened'', s, v)
     else case do_steps (host_steps cn eno requested err) s v of
       (None, s, v) \<Rightarrow> (None, s, v)
     | (Some e, s, v) \<Rightarrow> (Some e, HostFail cn s v))"

section \<open>A request\<close>

record HostRaResult =
  hs_bytes :: u64
  hs_checksum :: u32
  hs_marker :: string

definition no_completion :: Completion where
  "no_completion = \<lparr>cpl_request_id = 0, cpl_status = 0, cpl_bytes = 0, cpl_checksum = 0, cpl_flags = 0\<rparr>"

definition payload_mr :: "u16 \<Rightarrow> nat \<Rightarrow> u64 \<Rightarrow> MrInfo" where
  "payload_mr operation npu_buffer len = zero_mr\<lparr>mi_address := Some npu_buffer, mi_size := unat len,
     mi_access := kRaAccessLocalWrite OR (if operation = kRead then kRaAccessRemoteWrite else kRaAccessRemoteRead)\<rparr>"

definition host_command :: "u16 \<Rightarrow> u64 \<Rightarrow> u64 \<Rightarrow> u64 \<Rightarrow> nat \<Rightarrow> u64 \<Rightarrow> u32 \<Rightarrow> Command" where
  "host_command operation rid object_id storage_offset npu_buffer len rkey =
    \<lparr>cmd_request_id = rid, cmd_operation = operation, cmd_object_id = object_id,
     cmd_storage_offset = storage_offset, cmd_length = len, cmd_npu_address = of_nat npu_buffer, cmd_npu_rkey = rkey,
     cmd_npu_access = (if operation = kRead then kMemoryRemoteWrite else kMemoryRemoteRead)\<rparr>"

text \<open>The command over TCP: \<open>Inl\<close> is a failed exchange with the text in \<open>*error\<close>.\<close>

definition tcp_exchange :: "string \<Rightarrow> Command \<Rightarrow> string \<Rightarrow> conn \<Rightarrow> (string + Completion) \<times> conn" where
  "tcp_exchange eno command err c =
    (case SendCommand eno c command of
       (Some e, c) \<Rightarrow> (Inl e, c)
     | (None, c) \<Rightarrow>
        (case ReceiveCompletion (c_rx c) of (q, rx) \<Rightarrow>
         (case q of
            Inl kPeerClosed \<Rightarrow> Inl err
          | Inl (CtlError e) \<Rightarrow> Inl e
          | Inr completion \<Rightarrow> Inr completion, c\<lparr>c_rx := rx\<rparr>)))"

text \<open>The command posted by the NPU: the completion appears in its memory, which the host polls.\<close>

datatype hbm_wait = WaitFailed | WaitTimedOut | WaitDone Completion

partial_function (option) completion_loop ::
  "('v, 'z) cann_scheme \<Rightarrow> CannRaApi \<Rightarrow> nat option \<Rightarrow> u64 \<Rightarrow> nat \<Rightarrow> 'v \<Rightarrow> (hbm_wait \<times> 'v) option" where
  "completion_loop cn api device rid deadline v =
    (if cn_now cn v < deadline then
       (case MemcpyToHost cn api kCompletionWireBytes device kCompletionWireBytes v of (st, w, v1) \<Rightarrow>
        if st \<noteq> kSuccess then Some (WaitFailed, cn_sleep_1ms cn v1)
        else case DecodeCompletion w of
          None \<Rightarrow> completion_loop cn api device rid deadline (cn_sleep_1ms cn v1)
        | Some c \<Rightarrow>
           if cpl_request_id c = rid then Some (WaitDone c, v1)
           else completion_loop cn api device rid deadline (cn_sleep_1ms cn v1))
     else Some (WaitTimedOut, v))"

declare completion_loop.simps [code]

definition post_command :: "('v, 'z) cann_scheme \<Rightarrow> Command \<Rightarrow> nat \<Rightarrow> HostRaImpl \<Rightarrow> 'v \<Rightarrow> bool \<times> 'v" where
  "post_command cn command acl_stream s v =
    (case EncodeCommand command of
       None \<Rightarrow> (False, v)
     | Some wire \<Rightarrow>
     case MemcpyToDevice cn (rc_api s) (hi_command_device s) kCommandWireBytes wire v of (st, v) \<Rightarrow>
     if st \<noteq> kSuccess then (False, v)
     else case MemcpyToDevice cn (rc_api s) (hi_completion_device s) kCompletionWireBytes
         (replicate kCompletionWireBytes 0) v of (st, v) \<Rightarrow>
     if st \<noteq> kSuccess then (False, v)
     else case TypicalSendWr cn (rc_api s) (rc_qp_handle s)
         \<lparr>sw_buffers = [\<lparr>sg_address = ptr_u64 (hi_command_device s), sg_length = of_nat kCommandWireBytes,
            sg_lkey = mi_lkey (hi_command_mr s)\<rparr>], sw_destination_address = 0, sw_rkey = 0, sw_opcode = kRaWrSend,
          sw_send_flags = kRaSendSignaled\<rparr> v of (st, db, v) \<Rightarrow>
     if st \<noteq> kSuccess then (False, v)
     else case RdmaDbSend cn (rc_api s) (db_index db) (db_info db) acl_stream v of (st, v) \<Rightarrow>
     (st = kSuccess, v))"

definition npu_exchange ::
  "('v, 'z) cann_scheme \<Rightarrow> Command \<Rightarrow> nat \<Rightarrow> string \<Rightarrow> HostRaImpl \<Rightarrow> 'v \<Rightarrow> ((string + Completion) \<times> 'v) option" where
  "npu_exchange cn command acl_stream err s v =
    (case post_command cn command acl_stream s v of
       (False, v) \<Rightarrow> Some (Inl err, v)
     | (True, v) \<Rightarrow> do {
         (w, v) \<leftarrow> completion_loop cn (rc_api s) (hi_completion_device s) (cmd_request_id command)
           (cn_now cn v + unat (hc_timeout_ms (hi_config s)) * ms_ticks) v;
         Some (case w of WaitFailed \<Rightarrow> Inl err | WaitTimedOut \<Rightarrow> Inr no_completion | WaitDone c \<Rightarrow> Inr c, v)
       })"

definition exchange ::
  "('v, 'z) cann_scheme \<Rightarrow> string \<Rightarrow> Command \<Rightarrow> nat \<Rightarrow> string \<Rightarrow> HostRaImpl \<Rightarrow> 'v \<Rightarrow>
   ((string + Completion) \<times> HostRaImpl \<times> 'v) option" where
  "exchange cn eno command acl_stream err s v =
    (if hc_control_mode (hi_config s) = CtlTcp then
       (case hi_control s of
          None \<Rightarrow> Some (Inl err, s, v)
        | Some (fd, c) \<Rightarrow>
           (case tcp_exchange eno command err c of (q, c) \<Rightarrow> Some (q, s\<lparr>hi_control := Some (fd, c)\<rparr>, v)))
     else do {
       (q, v) \<leftarrow> npu_exchange cn command acl_stream err s v;
       Some (q, s, v)
     })"

text \<open>The complaint about the exchange, if any.\<close>

definition judge_exchange :: "ControlMode \<Rightarrow> u64 \<Rightarrow> u64 \<Rightarrow> string + Completion \<Rightarrow> string option" where
  "judge_exchange mode rid len q =
    (case q of
       Inl e \<Rightarrow> Some (if e \<noteq> [] then e
         else if mode = CtlTcp then ''TCP command/completion exchange failed''
         else ''CANN RA command submission or HBM completion polling failed'')
     | Inr c \<Rightarrow>
        if cpl_request_id c \<noteq> rid then Some ''timed out waiting for RDMA completion in NPU HBM''
        else if cpl_status c \<noteq> 0 then Some ''storage server reported RDMA request failure''
        else if cpl_bytes c \<noteq> len then Some ''storage server returned a short RDMA completion''
        else None)"

definition success_result :: "HostRaImpl \<Rightarrow> u16 \<Rightarrow> Completion \<Rightarrow> HostRaResult" where
  "success_result s operation c =
    \<lparr>hs_bytes = cpl_bytes c, hs_checksum = cpl_checksum c,
     hs_marker = MakeHostRaSuccessMarker (hc_control_mode (hi_config s)) (hc_transfer_mode (hi_config s)) operation
         (hi_server_capabilities s) @ '' cann_ra_symbol_profile='' @ symbol_profile_name (rc_api s) @
       '' cann_ra_rdev_init='' @ rdev_init_profile_name (rc_api s) @
       '' cann_ra_network_bootstrap='' @ network_bootstrap_profile_name (rc_api s) @
       '' cann_ra_hdc_type='' @ dec_int (rc_effective_hdc_type s)\<rparr>"

definition fail_request :: "HostRaImpl \<Rightarrow> HostRaImpl" where
  "fail_request s = s\<lparr>hi_lifecycle := snd (FailSession (hi_lifecycle s))\<rparr>"

definition complete_request :: "u64 \<Rightarrow> HostRaImpl \<Rightarrow> HostRaImpl" where
  "complete_request rid s = s\<lparr>hi_lifecycle := snd (CompleteRequest rid (hi_lifecycle s))\<rparr>"

text \<open>From the verdict on the exchange to the result: the payload window is deregistered on every path.\<close>

definition finish_exchange ::
  "('v, 'z) cann_scheme \<Rightarrow> u16 \<Rightarrow> u64 \<Rightarrow> u64 \<Rightarrow> nat \<Rightarrow> string \<Rightarrow> string + Completion \<Rightarrow> HostRaImpl \<Rightarrow> 'v \<Rightarrow>
   (string + HostRaResult) \<times> HostRaImpl \<times> 'v" where
  "finish_exchange cn operation rid len mr_handle err q s v =
    (let verdict = judge_exchange (hc_control_mode (hi_config s)) rid len q in
     case DeregisterMr cn (rc_api s) (rc_rdma_handle s) mr_handle v of (st, v) \<Rightarrow>
     let text = (case verdict of None \<Rightarrow> err | Some e \<Rightarrow> e) in
     if st \<noteq> kSuccess then
       (Inl ((if text = [] then [] else text @ ''; '') @ ''RaDeregisterMr failed for NPU HBM payload window''),
        fail_request s, v)
     else case (verdict, q) of
       (None, Inr c) \<Rightarrow> (Inr (success_result s operation c), complete_request rid s, v)
     | _ \<Rightarrow> (Inl text, fail_request s, v))"

definition request_ok :: "HostRaImpl \<Rightarrow> u16 \<Rightarrow> u64 \<Rightarrow> nat option \<Rightarrow> u64 \<Rightarrow> bool" where
  "request_ok s operation storage_offset npu_buffer len \<longleftrightarrow> npu_buffer \<noteq> None \<and> len \<noteq> 0 \<and>
     (operation = kRead \<or> operation = kWrite) \<and> len \<le> hi_max_transfer s \<and>
     storage_offset \<le> hi_namespace_bytes s \<and> len \<le> hi_namespace_bytes s - storage_offset"

text \<open>The request after it has begun, from the registration of the payload on.\<close>

definition submit_rest ::
  "('v, 'z) cann_scheme \<Rightarrow> string \<Rightarrow> u16 \<Rightarrow> u64 \<Rightarrow> u64 \<Rightarrow> u64 \<Rightarrow> nat \<Rightarrow> u64 \<Rightarrow> nat \<Rightarrow> string \<Rightarrow>
   HostRaImpl \<Rightarrow> 'v \<Rightarrow> ((string + HostRaResult) \<times> HostRaImpl \<times> 'v) option" where
  "submit_rest cn eno operation rid object_id storage_offset a len acl_stream err s v =
    (case RegisterMr cn (rc_api s) (rc_rdma_handle s) (payload_mr operation a len) v of (st, mr, h, v) \<Rightarrow>
     (case (st = kSuccess, h) of
        (True, Some mr_handle) \<Rightarrow> do {
          (q, s, v) \<leftarrow> exchange cn eno (host_command operation rid object_id storage_offset a len (mi_rkey mr))
            acl_stream err s v;
          Some (finish_exchange cn operation rid len mr_handle err q s v)
        }
      | _ \<Rightarrow> Some (Inl ''RaRegisterMr failed for NPU HBM payload window'', fail_request s, v)))"

definition SubmitAndWait ::
  "('v, 'z) cann_scheme \<Rightarrow> string \<Rightarrow> u16 \<Rightarrow> u64 \<Rightarrow> u64 \<Rightarrow> u64 \<Rightarrow> nat option \<Rightarrow> u64 \<Rightarrow> nat \<Rightarrow> string \<Rightarrow>
   HostRaImpl \<Rightarrow> 'v \<Rightarrow> ((string + HostRaResult) \<times> HostRaImpl \<times> 'v) option" where
  "SubmitAndWait cn eno operation rid object_id storage_offset npu_buffer len acl_stream err s v =
    (if \<not> request_ok s operation storage_offset npu_buffer len \<or> \<not> fst (BeginRequest rid (hi_lifecycle s)) then
       Some (Inl ''invalid or concurrent Host-RA storage request'', s, v)
     else let s = s\<lparr>hi_lifecycle := snd (BeginRequest rid (hi_lifecycle s))\<rparr>; a = the npu_buffer in
     if operation = kWrite \<and> hi_server_capabilities s AND kServerCapabilityStorageWrite = 0 then
       Some (Inl ''storage server is read-only; restart it with explicit write permission'',
         complete_request rid s, v)
     else submit_rest cn eno operation rid object_id storage_offset a len acl_stream err s v)"

section \<open>Closing\<close>

definition HostClose ::
  "('v, 'z) cann_scheme \<Rightarrow> HostRaImpl \<Rightarrow> 'v \<Rightarrow> string option \<times> HostRaImpl \<times> 'v" where
  "HostClose cn s v =
    (if lc_state (hi_lifecycle s) = kRequestInFlight then
       (Some ''cannot close Host-RA session with an in-flight request'', s, v)
     else case HostCleanup cn s v of (s, v) \<Rightarrow>
       (None, s\<lparr>hi_lifecycle := snd (CloseSession (hi_lifecycle s))\<rparr>, v))"

definition host_available :: "HostRaImpl \<Rightarrow> bool" where
  "host_available s \<longleftrightarrow> lc_state (hi_lifecycle s) = kConnected"

definition capability_available :: "HostRaImpl \<Rightarrow> bool" where
  "capability_available s = rc_capability_loaded s"

section \<open>What a session holds\<close>

definition buffer_objs :: "HostRaImpl \<Rightarrow> objects" where
  "buffer_objs s k = (case k of
       KMem a \<Rightarrow> if hi_command_device s = Some a \<or> hi_completion_device s = Some a then Some [] else None
     | KMr m \<Rightarrow> if hi_command_mr_handle s = Some m then Some (mr_uses (rc_rdma_handle s) (hi_command_device s))
         else if hi_completion_mr_handle s = Some m then Some (mr_uses (rc_rdma_handle s) (hi_completion_device s))
         else None
     | KFd f \<Rightarrow> if map_option fst (hi_control s) = Some f then Some [] else None
     | _ \<Rightarrow> None)"

definition host_objs :: "HostRaImpl \<Rightarrow> objects" where
  "host_objs s = core_objs s ++ buffer_objs s"

definition buffers_apart :: "HostRaImpl \<Rightarrow> bool" where
  "buffers_apart s \<longleftrightarrow> (hi_command_device s = None \<or> hi_command_device s \<noteq> hi_completion_device s) \<and>
     (hi_command_mr_handle s = None \<or> hi_command_mr_handle s \<noteq> hi_completion_mr_handle s) \<and>
     (hi_command_device s \<noteq> None \<or> hi_completion_device s \<noteq> None \<longrightarrow> Acl_malloc \<in> dom (api_fns (rc_api s)))"

definition host_inv :: "('v \<Rightarrow> nat multiset) \<Rightarrow> ('v \<Rightarrow> objects) \<Rightarrow> nat multiset \<Rightarrow> objects \<Rightarrow> HostRaImpl \<Rightarrow> 'v \<Rightarrow> bool" where
  "host_inv opened held O0 L0 s v \<longleftrightarrow> owner opened held O0 L0 (host_objs s) s v \<and> buffers_apart s"

definition host_bare :: "HostRaImpl \<Rightarrow> bool" where
  "host_bare s \<longleftrightarrow> hi_command_device s = None \<and> hi_completion_device s = None \<and> hi_command_mr_handle s = None \<and>
     hi_completion_mr_handle s = None \<and> hi_control s = None"

lemma host_objs_at:
  "host_objs s KNet = core_objs s KNet" "host_objs s KInit = core_objs s KInit"
  "host_objs s (KRdev h) = core_objs s (KRdev h)" "host_objs s (KQp h) = core_objs s (KQp h)"
  "host_objs s (KMem a) = buffer_objs s (KMem a)" "host_objs s (KMr m) = buffer_objs s (KMr m)"
  "host_objs s (KFd f) = buffer_objs s (KFd f)"
  by (simp_all add: host_objs_def buffer_objs_def map_add_def split: option.splits)

lemma host_objs_eqI:
  assumes "core_objs s = core_objs t" "buffer_objs s = buffer_objs t"
  shows "host_objs s = host_objs t"
  using assms by (simp add: host_objs_def)

lemma host_objs_update [simp]:
  "host_objs (s\<lparr>hi_config := x1\<rparr>) = host_objs s" "host_objs (s\<lparr>hi_lifecycle := x2\<rparr>) = host_objs s"
  "host_objs (s\<lparr>hi_command_mr := x3\<rparr>) = host_objs s" "host_objs (s\<lparr>hi_completion_mr := x3\<rparr>) = host_objs s"
  "host_objs (s\<lparr>hi_namespace_bytes := x4\<rparr>) = host_objs s" "host_objs (s\<lparr>hi_max_transfer := x4\<rparr>) = host_objs s"
  "host_objs (s\<lparr>hi_server_capabilities := x5\<rparr>) = host_objs s" "host_objs (s\<lparr>rc_local_qp := x6\<rparr>) = host_objs s"
  by (rule host_objs_eqI, rule ext, simp add: core_objs_def split: rkey.splits,
      rule ext, simp add: buffer_objs_def split: rkey.splits)+

lemma host_bare_objs: "host_bare s \<Longrightarrow> host_objs s = core_objs s"
proof -
  assume "host_bare s"
  then have "buffer_objs s = Map.empty"
    by (intro ext) (auto simp: buffer_objs_def host_bare_def split: rkey.splits)
  then show ?thesis by (simp add: host_objs_def)
qed

lemma host_bare_apart: "host_bare s \<Longrightarrow> buffers_apart s"
  by (simp add: host_bare_def buffers_apart_def)

lemma hi_more:
  assumes "ra_core.more s = ra_core.more t"
  shows "host_bare s = host_bare t" "hi_config s = hi_config t" "hi_lifecycle s = hi_lifecycle t"
  using assms by (cases s; cases t; simp add: host_bare_def)+

text \<open>A buffer and its registration join the objects; so does the connection.\<close>

definition add_obj :: "(nat \<Rightarrow> rkey) \<Rightarrow> rkey list \<Rightarrow> nat option \<Rightarrow> objects \<Rightarrow> objects" where
  "add_obj k us h M = (case h of None \<Rightarrow> M | Some x \<Rightarrow> M(k x \<mapsto> us))"

lemma host_objs_grow:
  "hi_command_device s = None \<Longrightarrow> hi_command_mr_handle s = None \<Longrightarrow>
   host_objs (s\<lparr>hi_command_device := a, hi_command_mr := mr, hi_command_mr_handle := h\<rparr>) =
     add_obj KMr (mr_uses (rc_rdma_handle s) a) h (add_obj KMem [] a (host_objs s))"
  "hi_completion_device s = None \<Longrightarrow> hi_completion_mr_handle s = None \<Longrightarrow>
   (\<forall>x. h = Some x \<longrightarrow> host_objs s (KMr x) = None) \<Longrightarrow>
   host_objs (s\<lparr>hi_completion_device := a, hi_completion_mr := mr, hi_completion_mr_handle := h\<rparr>) =
     add_obj KMr (mr_uses (rc_rdma_handle s) a) h (add_obj KMem [] a (host_objs s))"
  "hi_control s = None \<Longrightarrow> host_objs (s\<lparr>hi_control := Some (fd, c)\<rparr>) = (host_objs s)(KFd fd \<mapsto> [])"
proof -
  have at: "host_objs t k = (case k of KMem a \<Rightarrow> buffer_objs t k | KMr m \<Rightarrow> buffer_objs t k | KFd f \<Rightarrow> buffer_objs t k
      | _ \<Rightarrow> core_objs t k)" for t k
    by (cases k) (simp_all add: host_objs_at)
  show "hi_command_device s = None \<Longrightarrow> hi_command_mr_handle s = None \<Longrightarrow>
   host_objs (s\<lparr>hi_command_device := a, hi_command_mr := mr, hi_command_mr_handle := h\<rparr>) =
     add_obj KMr (mr_uses (rc_rdma_handle s) a) h (add_obj KMem [] a (host_objs s))"
    by (rule ext) (auto simp: at buffer_objs_def core_objs_def add_obj_def split: rkey.splits option.splits)
  show "hi_completion_device s = None \<Longrightarrow> hi_completion_mr_handle s = None \<Longrightarrow>
   (\<forall>x. h = Some x \<longrightarrow> host_objs s (KMr x) = None) \<Longrightarrow>
   host_objs (s\<lparr>hi_completion_device := a, hi_completion_mr := mr, hi_completion_mr_handle := h\<rparr>) =
     add_obj KMr (mr_uses (rc_rdma_handle s) a) h (add_obj KMem [] a (host_objs s))"
    by (rule ext) (auto simp: at buffer_objs_def core_objs_def add_obj_def split: rkey.splits option.splits if_splits)
  show "hi_control s = None \<Longrightarrow> host_objs (s\<lparr>hi_control := Some (fd, c)\<rparr>) = (host_objs s)(KFd fd \<mapsto> [])"
    by (rule ext) (auto simp: at buffer_objs_def core_objs_def split: rkey.splits)
qed

lemma host_objs_shrink:
  "buffers_apart s \<Longrightarrow> hi_completion_mr_handle s = Some m \<Longrightarrow>
   (host_objs s)(KMr m := None) = host_objs (s\<lparr>hi_completion_mr_handle := None\<rparr>)"
  "hi_completion_mr_handle s = None \<Longrightarrow> hi_command_mr_handle s = Some m \<Longrightarrow>
   (host_objs s)(KMr m := None) = host_objs (s\<lparr>hi_command_mr_handle := None\<rparr>)"
  "buffers_apart s \<Longrightarrow> hi_completion_mr_handle s = None \<Longrightarrow> hi_command_mr_handle s = None \<Longrightarrow>
   hi_completion_device s = Some a \<Longrightarrow> (host_objs s)(KMem a := None) = host_objs (s\<lparr>hi_completion_device := None\<rparr>)"
  "hi_completion_device s = None \<Longrightarrow> hi_command_mr_handle s = None \<Longrightarrow> hi_completion_mr_handle s = None \<Longrightarrow>
   hi_command_device s = Some a \<Longrightarrow> (host_objs s)(KMem a := None) = host_objs (s\<lparr>hi_command_device := None\<rparr>)"
  "map_option fst (hi_control s) = Some fd \<Longrightarrow> (host_objs s)(KFd fd := None) = host_objs (s\<lparr>hi_control := None\<rparr>)"
proof -
  have at: "host_objs t k = (case k of KMem a \<Rightarrow> buffer_objs t k | KMr m \<Rightarrow> buffer_objs t k | KFd f \<Rightarrow> buffer_objs t k
      | _ \<Rightarrow> core_objs t k)" for t k
    by (cases k) (simp_all add: host_objs_at)
  note defs = at buffer_objs_def core_objs_def buffers_apart_def fun_eq_iff
  show "buffers_apart s \<Longrightarrow> hi_completion_mr_handle s = Some m \<Longrightarrow>
      (host_objs s)(KMr m := None) = host_objs (s\<lparr>hi_completion_mr_handle := None\<rparr>)"
    by (auto simp: defs split: rkey.splits)
  show "hi_completion_mr_handle s = None \<Longrightarrow> hi_command_mr_handle s = Some m \<Longrightarrow>
      (host_objs s)(KMr m := None) = host_objs (s\<lparr>hi_command_mr_handle := None\<rparr>)"
    by (auto simp: defs split: rkey.splits)
  show "buffers_apart s \<Longrightarrow> hi_completion_mr_handle s = None \<Longrightarrow> hi_command_mr_handle s = None \<Longrightarrow>
      hi_completion_device s = Some a \<Longrightarrow> (host_objs s)(KMem a := None) = host_objs (s\<lparr>hi_completion_device := None\<rparr>)"
    by (auto simp: defs split: rkey.splits)
  show "hi_completion_device s = None \<Longrightarrow> hi_command_mr_handle s = None \<Longrightarrow> hi_completion_mr_handle s = None \<Longrightarrow>
      hi_command_device s = Some a \<Longrightarrow> (host_objs s)(KMem a := None) = host_objs (s\<lparr>hi_command_device := None\<rparr>)"
    by (auto simp: defs split: rkey.splits)
  show "map_option fst (hi_control s) = Some fd \<Longrightarrow> (host_objs s)(KFd fd := None) = host_objs (s\<lparr>hi_control := None\<rparr>)"
    by (auto simp: defs split: rkey.splits)
qed

lemma host_objs_used:
  "\<not> used (KFd f) (host_objs s)" "\<not> used (KMr m) (host_objs s)"
  "hi_completion_mr_handle s = None \<Longrightarrow> hi_command_mr_handle s = None \<Longrightarrow> \<not> used (KMem a) (host_objs s)"
  by (auto simp: used_def host_objs_def core_objs_def buffer_objs_def mr_uses_def rdev_uses_def map_add_Some_iff
      split: rkey.splits option.splits if_splits)

lemma host_objs_none:
  "hi_completion_mr_handle s = None \<Longrightarrow> s\<lparr>hi_completion_mr_handle := None\<rparr> = s"
  "hi_command_mr_handle s = None \<Longrightarrow> s\<lparr>hi_command_mr_handle := None\<rparr> = s"
  "hi_completion_device s = None \<Longrightarrow> s\<lparr>hi_completion_device := None\<rparr> = s"
  "hi_command_device s = None \<Longrightarrow> s\<lparr>hi_command_device := None\<rparr> = s"
  "hi_control s = None \<Longrightarrow> s\<lparr>hi_control := None\<rparr> = s"
  by (cases s; simp)+

section \<open>Every call keeps the ledger\<close>

context cann_library
begin

lemma AllocateAndRegister_ok:
  assumes run: "AllocateAndRegister cn api rdma n access mr v = (e, a, mr', h, v')" and h0: "holding held L0 M v"
  shows "opened v' = opened v \<and>
    holding held L0 (add_obj KMr (mr_uses rdma a) h (add_obj KMem [] a M)) v' \<and>
    (\<forall>x. a = Some x \<longrightarrow> M (KMem x) = None \<and> Acl_malloc \<in> dom (api_fns api)) \<and> (\<forall>x. h = Some x \<longrightarrow> M (KMr x) = None)"
proof -
  obtain st b w where m: "DeviceMalloc cn api n kAclMallocNormalOnly v = (st, b, w)" by (metis prod_cases3)
  note mem = mem_makes [OF m h0]
  have h1: "holding held L0 (add_obj KMem [] b M) w" using mem by (cases b) (auto simp: add_obj_def)
  show ?thesis
  proof (cases "st = 0")
    case False
    then have "a = None" "h = None" "v' = w" using run m mem by (auto simp: AllocateAndRegister_def kSuccess_def)
    then show ?thesis using mem h1 False by (auto simp: add_obj_def)
  next
    case True
    obtain st2 mr2 h2 w2 where r: "RegisterMr cn api rdma (mr\<lparr>mi_address := b, mi_size := n, mi_access := access\<rparr>) w = (st2, mr2, h2, w2)"
      by (metis prod_cases4)
    have out: "a = b" "h = h2" "v' = w2"
      using run m r True by (auto simp: AllocateAndRegister_def kSuccess_def split: if_splits)
    note reg = mr_makes [OF r h1]
    have "M (KMr x) = None" if "h2 = Some x" for x
      using reg that by (auto simp: add_obj_def split: option.splits)
    then show ?thesis using out reg mem by (cases h2) (auto simp: add_obj_def)
  qed
qed

text \<open>The predicates between the steps.\<close>

lemma command_buffer_ok:
  "triple (host_inv opened held O0 L0)
     (\<lambda>s v. host_inv opened held O0 L0 s v \<and> api_ready (rc_api s) \<and> host_bare s \<and> A (hi_lifecycle s) (hi_config s))
     (command_buffer cn)
     (\<lambda>s v. host_inv opened held O0 L0 s v \<and> api_ready (rc_api s) \<and> hi_completion_device s = None \<and>
        hi_completion_mr_handle s = None \<and> hi_control s = None \<and> A (hi_lifecycle s) (hi_config s))"
proof (rule tripleI)
  fix s v e s' v'
  assume p: "host_inv opened held O0 L0 s v \<and> api_ready (rc_api s) \<and> host_bare s \<and> A (hi_lifecycle s) (hi_config s)"
    and run: "command_buffer cn s v = (e, s', v')"
  have "host_inv opened held O0 L0 s' v' \<and> api_ready (rc_api s') \<and> hi_completion_device s' = None \<and>
        hi_completion_mr_handle s' = None \<and> hi_control s' = None \<and> A (hi_lifecycle s') (hi_config s')"
  proof (cases "npu_command_posting (hi_config s)")
    case False
    then show ?thesis using run p by (auto simp: command_buffer_def host_bare_def)
  next
    case True
    obtain e1 a mr h w where r: "AllocateAndRegister cn (rc_api s) (rc_rdma_handle s) kCommandWireBytes
        kRaAccessLocalWrite (hi_command_mr s) v = (e1, a, mr, h, w)" by (metis prod_cases5)
    have s': "s' = s\<lparr>hi_command_device := a, hi_command_mr := mr, hi_command_mr_handle := h\<rparr>" "v' = w"
      using run r True by (auto simp: command_buffer_def)
    have "holding held L0 (host_objs s) v" using p by (simp add: host_inv_def owner_def)
    from AllocateAndRegister_ok [OF r this] p s' show ?thesis
      by (auto simp: host_inv_def owner_def host_objs_grow host_bare_def buffers_apart_def)
  qed
  then show "if e = None then host_inv opened held O0 L0 s' v' \<and> api_ready (rc_api s') \<and> hi_completion_device s' = None \<and>
        hi_completion_mr_handle s' = None \<and> hi_control s' = None \<and> A (hi_lifecycle s') (hi_config s')
      else host_inv opened held O0 L0 s' v'" by simp
qed

lemma completion_buffer_ok:
  "triple (host_inv opened held O0 L0)
     (\<lambda>s v. host_inv opened held O0 L0 s v \<and> api_ready (rc_api s) \<and> hi_completion_device s = None \<and>
        hi_completion_mr_handle s = None \<and> hi_control s = None \<and> A (hi_lifecycle s) (hi_config s))
     (completion_buffer cn)
     (\<lambda>s v. host_inv opened held O0 L0 s v \<and> api_ready (rc_api s) \<and> hi_control s = None \<and>
        A (hi_lifecycle s) (hi_config s))"
proof (rule tripleI)
  fix s v e s' v'
  assume p: "host_inv opened held O0 L0 s v \<and> api_ready (rc_api s) \<and> hi_completion_device s = None \<and>
        hi_completion_mr_handle s = None \<and> hi_control s = None \<and> A (hi_lifecycle s) (hi_config s)"
    and run: "completion_buffer cn s v = (e, s', v')"
  have "host_inv opened held O0 L0 s' v' \<and> api_ready (rc_api s') \<and> hi_control s' = None \<and>
        A (hi_lifecycle s') (hi_config s')"
  proof (cases "npu_command_posting (hi_config s)")
    case False
    then show ?thesis using run p by (auto simp: completion_buffer_def)
  next
    case True
    obtain e1 a mr h w where r: "AllocateAndRegister cn (rc_api s) (rc_rdma_handle s) kCompletionWireBytes
        (kRaAccessLocalWrite OR kRaAccessRemoteWrite) (hi_completion_mr s) v = (e1, a, mr, h, w)" by (metis prod_cases5)
    have s': "s' = s\<lparr>hi_completion_device := a, hi_completion_mr := mr, hi_completion_mr_handle := h\<rparr>" "v' = w"
      using run r True by (auto simp: completion_buffer_def)
    have "holding held L0 (host_objs s) v" using p by (simp add: host_inv_def owner_def)
    note al = AllocateAndRegister_ok [OF r this]
    have "host_objs s' = add_obj KMr (mr_uses (rc_rdma_handle s) a) h (add_obj KMem [] a (host_objs s))"
      unfolding s' using al p by (intro host_objs_grow(2)) auto
    moreover have "buffers_apart s'"
      using al p s' by (auto simp: host_inv_def buffers_apart_def host_objs_at buffer_objs_def split: if_splits)
    ultimately show ?thesis using al p s' by (simp add: host_inv_def owner_def)
  qed
  then show "if e = None then host_inv opened held O0 L0 s' v' \<and> api_ready (rc_api s') \<and> hi_control s' = None \<and>
        A (hi_lifecycle s') (hi_config s') else host_inv opened held O0 L0 s' v'" by simp
qed

lemma try_addresses_ok:
  assumes "try_addresses cn limits as v = (r, v')" "holding held L0 M v"
  shows "opened v' = opened v \<and> (r = None \<longrightarrow> holding held L0 M v') \<and>
    (\<forall>fd c. r = Some (fd, c) \<longrightarrow> M (KFd fd) = None \<and> holding held L0 (M(KFd fd \<mapsto> [])) v')"
  using assms
proof (induction as arbitrary: v)
  case (Cons a as)
  obtain q w where s: "cn_socket cn a v = (q, w)" by fastforce
  note mk = fd_makes [OF s Cons.prems(2)]
  show ?case
  proof (cases q)
    case None
    then have "opened w = opened v" "holding held L0 M w" using mk by auto
    then show ?thesis using Cons.IH [of w] Cons.prems s None by simp
  next
    case (Some fd)
    obtain q2 w2 where c: "cn_connect cn fd a (cn_set_timeouts cn fd limits w) = (q2, w2)" by fastforce
    have calm2: "opened w2 = opened w" "held w2 = held w"
      using calm_calls(3,4) c unfolding calm_def by (metis snd_conv)+
    have h: "M (KFd fd) = None" "\<not> used (KFd fd) M" "holding held L0 (M(KFd fd \<mapsto> [])) w2"
      using mk Some calm2(2) by (auto simp: holding_def)
    show ?thesis
    proof (cases q2)
      case (Some c1)
      then have "r = Some (fd, c1)" "v' = w2" using Cons.prems s \<open>q = Some fd\<close> c by auto
      moreover have "opened w2 = opened v" using calm2 mk by simp
      ultimately show ?thesis using h(1,3) by (metis option.distinct(1) option.inject prod.inject)
    next
      case None
      obtain st w3 where f: "cn_close_fd cn fd w2 = (st, w3)" by fastforce
      have "\<not> used (KFd fd) (M(KFd fd \<mapsto> []))" using h(2) unfolding used_def by (auto split: if_splits)
      from destroys_holding [OF destroys_fd f h(3) _ this] h(1)
      have "opened w3 = opened w2" "holding held L0 M w3" by (simp_all add: fun_upd_idem)
      then show ?thesis using Cons.IH [of w3] Cons.prems s Some c None f calm2 mk by simp
    qed
  qed
qed simp

lemma ConnectTcp_ok:
  assumes "ConnectTcp cn host port t v = (r, v')" "holding held L0 M v"
  shows "opened v' = opened v \<and> ((\<exists>e. r = Inl e) \<longrightarrow> holding held L0 M v') \<and>
    (\<forall>fd c. r = Inr (fd, c) \<longrightarrow> M (KFd fd) = None \<and> holding held L0 (M(KFd fd \<mapsto> [])) v')"
proof -
  obtain q w where g: "cn_getaddrinfo cn host (dec (unat port)) v = (q, w)" by fastforce
  have "opened w = opened v" "held w = held v" using calm_calls(2) g unfolding calm_def by (metis snd_conv)+
  then have w: "opened w = opened v" "holding held L0 M w" using assms(2) by (simp_all add: holding_def)
  show ?thesis
  proof (cases q)
    case None
    then show ?thesis using assms(1) g w by (auto simp: ConnectTcp_def)
  next
    case (Some addresses)
    obtain q2 w2 where t: "try_addresses cn (socket_timeouts t) addresses w = (q2, w2)" by fastforce
    have "v' = w2" "r = (case q2 of None \<Rightarrow> Inl ''failed to connect storage control endpoint'' | Some x \<Rightarrow> Inr x)"
      using assms(1) g Some t by (auto simp: ConnectTcp_def split: option.splits)
    then show ?thesis using try_addresses_ok [OF t w(2)] w(1) by (cases q2) auto
  qed
qed

lemma host_inv_calm:
  "host_inv opened held O0 L0 s v \<Longrightarrow> opened v' = opened v \<and> held v' = held v \<Longrightarrow> host_objs s' = host_objs s \<Longrightarrow>
   rc_api s' = rc_api s \<Longrightarrow> (buffers_apart s \<Longrightarrow> buffers_apart s') \<Longrightarrow> host_inv opened held O0 L0 s' v'"
  by (simp add: host_inv_def owner_def holding_def)

lemma accept_response_ok:
  assumes run: "accept_response cn err r s v = (e, s', v')" and inv: "host_inv opened held O0 L0 s v"
  shows "host_inv opened held O0 L0 s' v' \<and> hi_control s' = hi_control s \<and>
    (e = None \<longrightarrow> lc_state (hi_lifecycle s') = kConnected)"
proof (cases "lc_state (hi_lifecycle s) = kLocalResourcesReady")
  case False
  then have "e \<noteq> None" "s' = s" "v' = v" using run by (auto simp: accept_response_def lc_defs)
  then show ?thesis using inv by auto
next
  case True
  define t where "t = s\<lparr>hi_lifecycle := (hi_lifecycle s)\<lparr>lc_state := kBootstrapped\<rparr>\<rparr>"
  obtain e1 t1 w where c: "connect_qp cn ''RaTypicalQpModify failed'' (sp_endpoint r) t v = (e1, t1, w)"
    by (metis prod_cases3)
  then obtain q where calm: "opened w = opened v \<and> held w = held v" "t1 = t\<lparr>rc_local_qp := q\<rparr>"
    using connect_qp_calm by blast
  define u where "u = t1\<lparr>hi_namespace_bytes := sp_namespace_capacity r, hi_max_transfer := sp_max_transfer_bytes r,
      hi_server_capabilities := sp_server_capabilities r,
      hi_lifecycle := (hi_lifecycle t1)\<lparr>lc_state := kConnected\<rparr>\<rparr>"
  have out: "v' = w" "s' = (if e1 = None then u else t1)" "e = e1"
    using run c True calm by (auto simp: accept_response_def lc_defs t_def u_def split: option.splits)
  have "host_objs s' = host_objs s" "rc_api s' = rc_api s" "buffers_apart s' = buffers_apart s"
    "hi_control s' = hi_control s"
    using out calm by (auto simp: t_def u_def buffers_apart_def)
  moreover have "e = None \<longrightarrow> lc_state (hi_lifecycle s') = kConnected" using out by (simp add: u_def)
  ultimately show ?thesis using host_inv_calm [OF inv calm(1)] out by simp
qed

lemma session_bootstrap_ok:
  "triple (host_inv opened held O0 L0)
     (\<lambda>s v. host_inv opened held O0 L0 s v \<and> api_ready (rc_api s) \<and> hi_control s = None)
     (session_bootstrap cn eno err)
     (\<lambda>s v. host_inv opened held O0 L0 s v \<and> hi_control s \<noteq> None \<and> lc_state (hi_lifecycle s) = kConnected)"
proof (rule tripleI)
  fix s v e s' v'
  assume p: "host_inv opened held O0 L0 s v \<and> api_ready (rc_api s) \<and> hi_control s = None"
    and run: "session_bootstrap cn eno err s v = (e, s', v')"
  obtain q w where c: "ConnectTcp cn (hc_storage_server (hi_config s)) (hc_bootstrap_port (hi_config s))
      (hc_timeout_ms (hi_config s)) v = (q, w)" by fastforce
  have "holding held L0 (host_objs s) v" using p by (simp add: host_inv_def owner_def)
  note tcp = ConnectTcp_ok [OF c this]
  show "if e = None then host_inv opened held O0 L0 s' v' \<and> hi_control s' \<noteq> None \<and> lc_state (hi_lifecycle s') = kConnected
      else host_inv opened held O0 L0 s' v'"
  proof (cases q)
    case (Inl x)
    then have "e = Some x" "s' = s" "v' = w" using run c by (auto simp: session_bootstrap_def)
    then show ?thesis using tcp Inl p by (simp add: host_inv_def owner_def)
  next
    case (Inr y)
    obtain fd k where y: "y = (fd, k)" by fastforce
    have inv: "host_inv opened held O0 L0 (s\<lparr>hi_control := Some (fd, k')\<rparr>) w" for k'
      using tcp Inr y p by (simp add: host_inv_def owner_def host_objs_grow(3) buffers_apart_def)
    have "(e \<noteq> None \<and> v' = w \<and> (\<exists>k'. s' = s\<lparr>hi_control := Some (fd, k')\<rparr>)) \<or>
        (\<exists>k' r. accept_response cn err r (s\<lparr>hi_control := Some (fd, k')\<rparr>) w = (e, s', v'))"
      using run c Inr y by (auto simp: session_bootstrap_def Let_def split: prod.splits option.splits if_splits)
    then show ?thesis
      using inv accept_response_ok [OF _ inv] by fastforce
  qed
qed

lemma local_ready_ok:
  "triple (host_inv opened held O0 L0)
     (\<lambda>s v. host_inv opened held O0 L0 s v \<and> api_ready (rc_api s) \<and> hi_control s = None \<and> A)
     (local_ready err)
     (\<lambda>s v. host_inv opened held O0 L0 s v \<and> api_ready (rc_api s) \<and> hi_control s = None)"
  by (auto simp: triple_def local_ready_def lc_defs host_inv_def owner_def buffers_apart_def split: if_splits)

lemma core_steps_ok:
  assumes "services_down L0"
  shows "triple (host_inv opened held O0 L0)
     (\<lambda>s v. host_inv opened held O0 L0 s v \<and> core_down s \<and> host_bare s \<and> rc_api s = closed_api)
     (do_steps (core_steps cn cfg err))
     (\<lambda>s v. host_inv opened held O0 L0 s v \<and> api_ready (rc_api s) \<and> host_bare s)"
proof (rule tripleI)
  fix s v e s' v'
  assume p: "host_inv opened held O0 L0 s v \<and> core_down s \<and> host_bare s \<and> rc_api s = closed_api"
    and run: "do_steps (core_steps cn cfg err) s v = (e, s', v')"
  have "core_inv opened held O0 L0 (ra_core.more s) s v"
    using p host_bare_objs [of s] unfolding core_inv_def host_inv_def by metis
  then have c: "core_inv opened held O0 L0 (ra_core.more s) s' v'" "e = None \<Longrightarrow> api_ready (rc_api s')"
    using bring_up_ok [OF assms, of O0 "ra_core.more s"] p run unfolding core_steps_def triple_def by metis+
  have "host_bare s'" using hi_more(1) [of s' s] c(1) p by (simp add: core_inv_def)
  then have "host_inv opened held O0 L0 s' v' \<and> host_bare s'"
    using c(1) by (simp add: core_inv_def host_inv_def host_bare_objs host_bare_apart)
  then show "if e = None then host_inv opened held O0 L0 s' v' \<and> api_ready (rc_api s') \<and> host_bare s'
      else host_inv opened held O0 L0 s' v'" using c(2) by simp
qed

lemma HostCleanup_ok:
  assumes inv: "host_inv opened held O0 L0 s v" and run: "HostCleanup cn s v = (s', v')"
  shows "opened v' = O0 \<and> held v' = L0 \<and> core_down s' \<and> host_bare s' \<and> rc_api s' = closed_api \<and>
    hi_lifecycle s' = hi_lifecycle s"
proof -
  let ?api = "rc_api s" and ?rdma = "rc_rdma_handle s"
  let ?s1 = "s\<lparr>hi_control := None\<rparr>" let ?s2 = "?s1\<lparr>hi_completion_mr_handle := None\<rparr>"
  let ?s3 = "?s2\<lparr>hi_command_mr_handle := None\<rparr>" let ?s4 = "?s3\<lparr>hi_completion_device := None\<rparr>"
  let ?s5 = "?s4\<lparr>hi_command_device := None\<rparr>"
  define w1 where "w1 = free_if (cn_close_fd cn) (map_option fst (hi_control s)) v"
  define w2 where "w2 = free_if (DeregisterMr cn ?api ?rdma) (hi_completion_mr_handle s) w1"
  define w3 where "w3 = free_if (DeregisterMr cn ?api ?rdma) (hi_command_mr_handle s) w2"
  define w4 where "w4 = free_if (DeviceFree cn ?api) (hi_completion_device s) w3"
  define w5 where "w5 = free_if (DeviceFree cn ?api) (hi_command_device s) w4"
  have run5: "core_cleanup cn (hc_logical_device (hi_config s)) ?s5 w5 = (s', v')"
    using run by (simp add: HostCleanup_def w1_def w2_def w3_def w4_def w5_def)
  have ap: "buffers_apart s" "buffers_apart ?s1" "buffers_apart ?s2" "buffers_apart ?s3" "buffers_apart ?s4"
    using inv by (auto simp: host_inv_def buffers_apart_def)
  have o0: "opened v = O0 + api_handles ?api" "holding held L0 (host_objs s) v" using inv by (auto simp: host_inv_def owner_def)
  have rdy: "api_ready ?api" if "host_objs s k \<noteq> None" for k using inv that by (auto simp: host_inv_def owner_def)
  note at = host_objs_at buffer_objs_def
  have 1: "opened w1 = opened v \<and> holding held L0 (host_objs ?s1) w1" unfolding w1_def
    by (rule free_if_ok [where k = KFd, OF o0(2)])
      (auto simp: host_objs_none host_objs_used host_objs_shrink destroys_fd at)
  have dmr: "destroys_key opened held (KMr m) (DeregisterMr cn ?api ?rdma m)"
    if "hi_completion_mr_handle s = Some m \<or> hi_command_mr_handle s = Some m" for m
    using that destroys_api(3) [OF rdy [of "KMr m"]] by (auto simp: at)
  have dmem: "destroys_key opened held (KMem a) (DeviceFree cn ?api a)"
    if "hi_completion_device s = Some a \<or> hi_command_device s = Some a" for a
  proof -
    have "Acl_malloc \<in> dom (api_fns ?api)" "host_objs s (KMem a) \<noteq> None"
      using that ap(1) unfolding buffers_apart_def by (auto simp: at)
    then show ?thesis using destroys_api(4) rdy by blast
  qed
  note objs = host_objs_none host_objs_used at
  have 2: "opened w2 = opened w1 \<and> holding held L0 (host_objs ?s2) w2" unfolding w2_def
    by (rule free_if_ok [where k = KMr, OF conjunct2 [OF 1]])
      (use dmr host_objs_shrink(1) [OF ap(2)] in \<open>auto simp: objs\<close>)
  have 3: "opened w3 = opened w2 \<and> holding held L0 (host_objs ?s3) w3" unfolding w3_def
    by (rule free_if_ok [where k = KMr, OF conjunct2 [OF 2]])
      (use dmr host_objs_shrink(2) [of ?s2] in \<open>auto simp: objs\<close>)
  have 4: "opened w4 = opened w3 \<and> holding held L0 (host_objs ?s4) w4" unfolding w4_def
    by (rule free_if_ok [where k = KMem, OF conjunct2 [OF 3]])
      (use dmem host_objs_shrink(3) [OF ap(4)] in \<open>auto simp: objs\<close>)
  have 5: "opened w5 = opened w4 \<and> holding held L0 (host_objs ?s5) w5" unfolding w5_def
    by (rule free_if_ok [where k = KMem, OF conjunct2 [OF 4]])
      (use dmem host_objs_shrink(4) [of ?s4] in \<open>auto simp: objs\<close>)
  have bare: "host_bare ?s5" by (simp add: host_bare_def)
  have "core_objs ?s5 = core_objs s" by (rule ext) (simp add: core_objs_def split: rkey.splits)
  then have "api_ready ?api \<or> ?api = closed_api \<and> core_objs ?s5 = Map.empty"
    using inv by (auto simp: host_inv_def owner_def host_objs_def)
  then have "owner opened held O0 L0 (core_objs ?s5) ?s5 w5"
    using 1 2 3 4 5 o0 host_bare_objs [OF bare] by (simp add: owner_def)
  from core_cleanup_ok [OF this run5] show ?thesis
    using hi_more [of s' ?s5] bare by simp
qed

lemma host_steps_ok:
  assumes "services_down L0"
  shows "triple (host_inv opened held O0 L0)
     (\<lambda>s v. host_inv opened held O0 L0 s v \<and> core_down s \<and> host_bare s \<and> rc_api s = closed_api)
     (do_steps (host_steps cn eno cfg err))
     (\<lambda>s v. host_inv opened held O0 L0 s v \<and> hi_control s \<noteq> None \<and> lc_state (hi_lifecycle s) = kConnected)"
proof -
  let ?I = "host_inv opened held O0 L0"
  let ?P = "\<lambda>s v. ?I s v \<and> core_down s \<and> host_bare s \<and> rc_api s = closed_api"
  have prep: "triple ?I ?P (host_prepare cfg) ?P"
    by (auto simp: triple_def host_prepare_def Let_def host_inv_def owner_def buffers_apart_def core_down_def
        host_bare_def split: if_splits)
  have tail: "triple ?I (\<lambda>s v. ?I s v \<and> api_ready (rc_api s) \<and> host_bare s)
      (do_steps [command_buffer cn, completion_buffer cn, local_ready err, session_bootstrap cn eno err])
      (\<lambda>s v. ?I s v \<and> hi_control s \<noteq> None \<and> lc_state (hi_lifecycle s) = kConnected)"
    using triple_Cons [OF command_buffer_ok [where A = "\<lambda>_ _. True"] triple_Cons [OF completion_buffer_ok
        triple_Cons [OF local_ready_ok triple_Cons [OF session_bootstrap_ok triple_Nil]]]] by simp
  have "triple ?I ?P (do_steps (core_steps cn cfg err @
      [command_buffer cn, completion_buffer cn, local_ready err, session_bootstrap cn eno err]))
      (\<lambda>s v. ?I s v \<and> hi_control s \<noteq> None \<and> lc_state (hi_lifecycle s) = kConnected)"
    using triple_append [OF core_steps_ok [OF assms] tail] .
  then show ?thesis unfolding host_steps_def by (rule triple_Cons [OF prep])
qed

lemma HostFail_ok:
  assumes "host_inv opened held O0 L0 s v" "HostFail cn s v = (s', v')"
  shows "opened v' = O0 \<and> held v' = L0 \<and> core_down s' \<and> host_bare s' \<and> rc_api s' = closed_api \<and>
    lc_state (hi_lifecycle s') \<in> {kFailed, kClosed}"
  using HostCleanup_ok [of O0 L0 "s\<lparr>hi_lifecycle := snd (FailSession (hi_lifecycle s))\<rparr>" v s' v'] assms
  by (auto simp: HostFail_def host_inv_def owner_def buffers_apart_def lc_defs)

text \<open>The object between calls: nothing in flight, and a session that is not connected holds nothing unless
  a request has failed.\<close>

lemma HostOpen_ok:
  assumes "services_down L0" "host_inv opened held O0 L0 s v" "lc_state (hi_lifecycle s) = kCreated"
    and "core_down s" "host_bare s" "rc_api s = closed_api"
    and run: "HostOpen cn eno cfg err s v = (e, s', v')"
  shows "host_inv opened held O0 L0 s' v' \<and>
    (e = None \<longrightarrow> lc_state (hi_lifecycle s') = kConnected \<and> hi_control s' \<noteq> None) \<and>
    (e \<noteq> None \<longrightarrow> lc_state (hi_lifecycle s') \<in> {kFailed, kClosed} \<and> opened v' = O0 \<and> held v' = L0)"
proof -
  obtain e1 t w where r: "do_steps (host_steps cn eno cfg err) s v = (e1, t, w)" by (metis prod_cases3)
  have st: "if e1 = None then host_inv opened held O0 L0 t w \<and> hi_control t \<noteq> None \<and> lc_state (hi_lifecycle t) = kConnected
      else host_inv opened held O0 L0 t w"
    using host_steps_ok [OF assms(1), of O0 eno cfg err, unfolded triple_def, rule_format, of s v e1 t w] r assms(2-6)
    by blast
  show ?thesis
  proof (cases e1)
    case None
    then show ?thesis using st r run assms(3) by (auto simp: HostOpen_def)
  next
    case (Some x)
    then have "host_inv opened held O0 L0 t w" using st by simp
    moreover have "HostFail cn t w = (s', v')" "e = Some x" using run r Some assms(3) by (auto simp: HostOpen_def)
    ultimately have f: "opened v' = O0 \<and> held v' = L0 \<and> core_down s' \<and> host_bare s' \<and> rc_api s' = closed_api \<and>
        lc_state (hi_lifecycle s') \<in> {kFailed, kClosed}" using HostFail_ok by blast
    then have "host_inv opened held O0 L0 s' v'"
      using host_bare_objs [of s'] core_down_objs [of s'] host_bare_apart [of s']
      by (simp add: host_inv_def owner_def closed_api_def api_handles_def handle_mset_def)
    then show ?thesis using f \<open>e = Some x\<close> by simp
  qed
qed

end

end
