(* ===== verification/Cann_Sim.thy ===== *)
theory Cann_Sim
  imports Cann_Api
begin

text \<open>
  A machine that meets the contract \<open>cann_library\<close>: the linker finds every library, each call does what the
  contract says of it, and the peer of every connection follows a script.  The properties of the Host-RA
  session and of the push mover are evaluated on it.

  The objects alive are an association list; a call that would violate the contract fails instead (making
  an object under a name in use, destroying one that is in use).  \<open>sm_hbm\<close> is what a copy from device memory
  delivers, \<open>sm_cq\<close> the results of successive polls of a completion queue.
\<close>

record sim =
  sm_libs :: "nat multiset"
  sm_objs :: "(rkey \<times> rkey list) list"
  sm_next :: nat
  sm_clock :: nat
  sm_hbm :: bytes
  sm_cq :: "(int \<times> WorkCompletion) list"
  sm_peer :: conn
  sm_posted :: nat

definition sim_held :: "sim \<Rightarrow> objects" where
  "sim_held v = map_of (sm_objs v)"

definition sim_used :: "rkey \<Rightarrow> (rkey \<times> rkey list) list \<Rightarrow> bool" where
  "sim_used k xs \<longleftrightarrow> list_ex (\<lambda>(k', us). map_of xs k' = Some us \<and> k \<in> set us) xs"

definition sim_make :: "(nat \<Rightarrow> rkey) \<Rightarrow> rkey list \<Rightarrow> sim \<Rightarrow> nat option \<times> sim" where
  "sim_make k us v =
    (let x = sm_next v in
     if map_of (sm_objs v) (k x) = None \<and> \<not> sim_used (k x) (sm_objs v) then
       (Some x, v\<lparr>sm_objs := (k x, us) # sm_objs v, sm_next := x + 1\<rparr>)
     else (None, v))"

definition sim_status :: "nat option \<Rightarrow> int" where
  "sim_status h = (case h of None \<Rightarrow> 1 | Some _ \<Rightarrow> 0)"

definition sim_start :: "rkey \<Rightarrow> rkey list \<Rightarrow> sim \<Rightarrow> int \<times> sim" where
  "sim_start k us v =
    (if map_of (sm_objs v) k = None then (0, v\<lparr>sm_objs := (k, us) # sm_objs v\<rparr>) else (1, v))"

definition sim_destroy :: "rkey \<Rightarrow> sim \<Rightarrow> int \<times> sim" where
  "sim_destroy k v =
    (if map_of (sm_objs v) k \<noteq> None \<and> \<not> sim_used k (sm_objs v) then
       (0, v\<lparr>sm_objs := filter (\<lambda>p. fst p \<noteq> k) (sm_objs v)\<rparr>)
     else (1, v))"

definition sim_poll :: "sim \<Rightarrow> int \<times> WorkCompletion \<times> sim" where
  "sim_poll v = (case sm_cq v of
     [] \<Rightarrow> (0, zero_wc, v)
   | (n, wc) # rest \<Rightarrow> (n, wc, v\<lparr>sm_cq := rest\<rparr>))"

text \<open>\<open>exported\<close> are the symbols of the libraries.\<close>

definition sim_cann :: "string list \<Rightarrow> sim cann" where
  "sim_cann exported = \<lparr>
     dl_getenv = (\<lambda>n. None),
     dl_open = (\<lambda>p v. (Inr (length p), v\<lparr>sm_libs := add_mset (length p) (sm_libs v)\<rparr>)),
     dl_sym = (\<lambda>h n. n \<in> set exported),
     dl_close = (\<lambda>h v. v\<lparr>sm_libs := sm_libs v - {#h#}\<rparr>),
     cn_now = sm_clock,
     cn_sleep_1ms = (\<lambda>v. v\<lparr>sm_clock := sm_clock v + 1000000\<rparr>),
     cn_inet_pton = (\<lambda>ip. Some 1),
     cn_getaddrinfo = (\<lambda>host service v. (Some [1], v)),
     cn_socket = (\<lambda>a v. sim_make KFd [] v),
     cn_set_timeouts = (\<lambda>fd limits v. v),
     cn_connect = (\<lambda>fd a v. (Some (sm_peer v), v)),
     cn_close_fd = (\<lambda>fd. sim_destroy (KFd fd)),
     cn_ra_init = (\<lambda>name cfg v. case sim_start KInit [KNet] v of (st, v) \<Rightarrow> (st, cfg, v)),
     cn_ra_deinit = (\<lambda>name cfg v. case sim_destroy KInit v of (st, v) \<Rightarrow> (st, cfg, v)),
     cn_rdev_init_v2 = (\<lambda>name info rdev v. case sim_make KRdev [KInit] v of (h, v) \<Rightarrow> (sim_status h, h, v)),
     cn_rdev_init_legacy = (\<lambda>name mode notify rdev v. case sim_make KRdev [KInit] v of (h, v) \<Rightarrow> (sim_status h, h, v)),
     cn_rdev_deinit = (\<lambda>name h notify. sim_destroy (KRdev h)),
     cn_qp_create = (\<lambda>name rdma t md q v. case sim_make KQp (rdev_uses rdma) v of
        (h, v) \<Rightarrow> (sim_status h, q\<lparr>tq_qpn := 17, tq_psn := 5\<rparr>, h, v)),
     cn_qp_modify = (\<lambda>name h loc rem v. (0, loc, v)),
     cn_qp_destroy = (\<lambda>name h. sim_destroy (KQp h)),
     cn_register_mr = (\<lambda>name rdma mr v. case sim_make KMr (mr_uses rdma (mi_address mr)) v of
        (h, v) \<Rightarrow> (sim_status h, mr\<lparr>mi_lkey := 3, mi_rkey := 4\<rparr>, h, v)),
     cn_deregister_mr = (\<lambda>name rdma h. sim_destroy (KMr h)),
     cn_send_wr = (\<lambda>name qp wr v. (0, \<lparr>db_index = 0, db_info = 0\<rparr>, v\<lparr>sm_posted := sm_posted v + 1\<rparr>)),
     cn_poll_cq = (\<lambda>name qp sq n. sim_poll),
     cn_set_device = (\<lambda>dev v. (0, v)),
     cn_open_net_service = (\<lambda>args. sim_start KNet []),
     cn_close_net_service = sim_destroy KNet,
     cn_rdma_db_send = (\<lambda>i info strm v. (0, v)),
     cn_tsd_open = (\<lambda>dev ranks. sim_start KNet []),
     cn_tsd_close = (\<lambda>dev. sim_destroy KNet),
     cn_get_physical_device = (\<lambda>dev v. (0, dev, v)),
     cn_malloc = (\<lambda>n policy v. case sim_make KMem [] v of (h, v) \<Rightarrow> (sim_status h, h, v)),
     cn_free = (\<lambda>a. sim_destroy (KMem a)),
     cn_memcpy_to_device = (\<lambda>dst n src v. (0, v)),
     cn_memcpy_to_host = (\<lambda>n src len v. (0, sm_hbm v, v))\<rparr>"

section \<open>The machine meets the contract\<close>

lemma sim_used_iff: "sim_used k xs \<longleftrightarrow> used k (map_of xs)"
  unfolding sim_used_def used_def list_ex_iff by (auto dest: map_of_SomeD)

lemma map_of_remove: "map_of (filter (\<lambda>p. fst p \<noteq> k) xs) = (map_of xs)(k := None)"
  by (induction xs) auto

lemma sim_make_makes:
  "makes sm_libs sim_held k us (\<lambda>v. case sim_make k us v of (h, v') \<Rightarrow> (h \<noteq> None, h, v'))"
  "makes sm_libs sim_held k us (\<lambda>v. case sim_make k us v of (h, v') \<Rightarrow> (True, h, v'))"
  by (auto simp: makes_def sim_make_def Let_def sim_held_def sim_used_iff)

lemma sim_start_starts: "starts sm_libs sim_held k us (sim_start k us)"
  by (auto simp: starts_def sim_start_def sim_held_def)

lemma sim_destroy_destroys: "destroys_key sm_libs sim_held k (sim_destroy k)"
  by (auto simp: destroys_key_def sim_destroy_def sim_held_def sim_used_iff map_of_remove)

lemma sim_status_0 [simp]: "sim_status h = 0 \<longleftrightarrow> h \<noteq> None"
  by (cases h) (simp_all add: sim_status_def)

interpretation sim_library: cann_library "sim_cann exported" sm_libs sim_held
proof
  note make = sim_make_makes [unfolded case_prod_unfold] and destroy = sim_destroy_destroys and start = sim_start_starts
  fix path v e v' h host service fd limits addr name qp loc rem wr sq n dev idx info strm dst src "from" len
    rinfo rdev mode notify rdma qtype qmode qp0 mr policy args tdev ranks config a
  let ?cn = "sim_cann exported"
  show "makes sm_libs sim_held KFd [] (\<lambda>v. case cn_socket ?cn addr v of (fd, v') \<Rightarrow> (True, fd, v'))"
    using make(2) by (simp add: sim_cann_def case_prod_unfold)
  show "makes sm_libs sim_held KRdev [KInit] (\<lambda>v. flag (cn_rdev_init_v2 ?cn name rinfo rdev v))"
    "makes sm_libs sim_held KRdev [KInit] (\<lambda>v. flag (cn_rdev_init_legacy ?cn name mode notify rdev v))"
    "makes sm_libs sim_held KMem [] (\<lambda>v. flag (cn_malloc ?cn n policy v))"
    using make(1) by (simp_all add: sim_cann_def flag_def case_prod_unfold)
  show "makes sm_libs sim_held KQp (rdev_uses rdma)
      (\<lambda>v. case cn_qp_create ?cn name rdma qtype qmode qp0 v of (st, out, h, v') \<Rightarrow> (st = 0, h, v'))"
    using make(1) by (simp add: sim_cann_def case_prod_unfold)
  show "makes sm_libs sim_held KMr (mr_uses rdma (mi_address mr))
      (\<lambda>v. case cn_register_mr ?cn name rdma mr v of (st, out, h, v') \<Rightarrow> (st = 0, h, v'))"
    using make(1) by (simp add: sim_cann_def case_prod_unfold)
  show "starts sm_libs sim_held KInit [KNet] (\<lambda>v. case cn_ra_init ?cn name config v of (st, out, v') \<Rightarrow> (st, v'))"
    using start by (simp add: sim_cann_def case_prod_unfold)
  show "destroys_key sm_libs sim_held KInit (\<lambda>v. case cn_ra_deinit ?cn name config v of (st, out, v') \<Rightarrow> (st, v'))"
    using destroy by (simp add: sim_cann_def case_prod_unfold)
qed (auto simp: sim_cann_def sim_held_def calm_def sim_start_starts sim_destroy_destroys sim_poll_def
    split: list.splits prod.splits)

text \<open>The machine before a session.\<close>

definition sim_idle :: "bytes \<Rightarrow> (int \<times> WorkCompletion) list \<Rightarrow> conn \<Rightarrow> sim" where
  "sim_idle hbm cq peer = \<lparr>sm_libs = {#}, sm_objs = [], sm_next = 1, sm_clock = 0, sm_hbm = hbm, sm_cq = cq,
     sm_peer = peer, sm_posted = 0\<rparr>"

lemma sim_idle_down: "services_down (sim_held (sim_idle hbm cq peer))"
  by (simp add: services_down_def sim_held_def sim_idle_def used_def)

end
