(* ===== verification/Host_Session.thy ===== *)
theory Host_Session
  imports Host_Ra Cann_Sim
begin

text \<open>
  Properties of the Host-RA session: what every sequence of calls keeps of the vendor objects, what a
  successful request means, and that a request returns.

  \<open>host_run\<close> are the states of a session object under any sequence of calls.  The witnesses run
  on the machine of \<open>Cann_Sim\<close>, which meets the contracts.
\<close>

section \<open>The waiting loop\<close>

text \<open>A run of the loop passes through states of any invariant kept by a copy and a sleep, and a completion it
  returns was decoded from what a copy delivered.\<close>

lemma completion_loop_rule:
  assumes run: "completion_loop cn api dev rid deadline v = Some (w, v')"
    and step: "\<forall>v st x v1. I v \<and> MemcpyToHost cn api kCompletionWireBytes dev kCompletionWireBytes v = (st, x, v1) \<longrightarrow>
      I v1 \<and> I (cn_sleep_1ms cn v1)"
    and start: "I v"
  shows "I v' \<and> (\<forall>c. w = WaitDone c \<longrightarrow> cpl_request_id c = rid \<and>
    (\<exists>v1 x. I v1 \<and> MemcpyToHost cn api kCompletionWireBytes dev kCompletionWireBytes v1 = (kSuccess, x, v') \<and>
      DecodeCompletion x = Some c))"
proof -
  let ?copy = "MemcpyToHost cn api kCompletionWireBytes dev kCompletionWireBytes"
  let ?Q = "\<lambda>l a d r t (v :: 'a) rv. l = cn \<and> a = api \<and> d = dev \<and> r = rid \<longrightarrow> I v \<longrightarrow>
    I (snd rv) \<and> (\<forall>c. fst rv = WaitDone c \<longrightarrow> cpl_request_id c = rid \<and>
      (\<exists>v1 x. I v1 \<and> ?copy v1 = (kSuccess, x, snd rv) \<and> DecodeCompletion x = Some c))"
  have "?Q cn api dev rid deadline v (w, v')"
  proof (rule completion_loop.raw_induct [where P = ?Q, OF _ run])
    fix loop l a d r t v and y :: "hbm_wait \<times> 'a"
    assume IH: "\<And>l a d r t v y. loop l a d r t v = Some y \<Longrightarrow> ?Q l a d r t v y"
      and body: "(if cn_now l v < t then
          (case MemcpyToHost l a kCompletionWireBytes d kCompletionWireBytes v of (st, w, v1) \<Rightarrow>
            if st \<noteq> kSuccess then Some (WaitFailed, cn_sleep_1ms l v1)
            else case DecodeCompletion w of None \<Rightarrow> loop l a d r t (cn_sleep_1ms l v1)
              | Some c \<Rightarrow> if cpl_request_id c = r then Some (WaitDone c, v1) else loop l a d r t (cn_sleep_1ms l v1))
        else Some (WaitTimedOut, v)) = Some y"
    show "?Q l a d r t v y"
    proof (intro impI, elim conjE)
      assume eqs: "l = cn" "a = api" "d = dev" "r = rid" and v: "I v"
      obtain st x v1 where m: "?copy v = (st, x, v1)" by (metis prod_cases3)
      have i: "I v1" "I (cn_sleep_1ms cn v1)" using step v m by blast+
      have "y = (WaitTimedOut, v) \<or> y = (WaitFailed, cn_sleep_1ms cn v1) \<or>
          (\<exists>c. y = (WaitDone c, v1) \<and> st = kSuccess \<and> DecodeCompletion x = Some c \<and> cpl_request_id c = rid) \<or>
          loop cn api dev rid t (cn_sleep_1ms cn v1) = Some y"
        using body m eqs by (auto split: if_splits option.splits)
      then show "I (snd y) \<and> (\<forall>c. fst y = WaitDone c \<longrightarrow> cpl_request_id c = rid \<and>
          (\<exists>v1 x. I v1 \<and> ?copy v1 = (kSuccess, x, snd y) \<and> DecodeCompletion x = Some c))"
        using IH [of cn api dev rid t "cn_sleep_1ms cn v1" y] i v m by auto
    qed
  qed
  then show ?thesis using start by simp
qed

section \<open>A request keeps the ledger\<close>

definition in_flight :: "u64 \<Rightarrow> HostRaImpl \<Rightarrow> HostRaImpl" where
  "in_flight rid s = s\<lparr>hi_lifecycle := \<lparr>lc_state = kRequestInFlight, lc_active_request_id = rid\<rparr>\<rparr>"

lemma request_ends [simp]:
  "host_inv opened held O0 L0 (fail_request s) v = host_inv opened held O0 L0 s v"
  "host_inv opened held O0 L0 (complete_request rid s) v = host_inv opened held O0 L0 s v"
  "hi_control (fail_request s) = hi_control s" "hi_control (complete_request rid s) = hi_control s"
  "lc_state (hi_lifecycle s) = kRequestInFlight \<Longrightarrow> lc_active_request_id (hi_lifecycle s) = rid \<Longrightarrow>
    lc_state (hi_lifecycle (complete_request rid s)) = kConnected"
  "lc_state (hi_lifecycle s) = kRequestInFlight \<Longrightarrow> lc_state (hi_lifecycle (fail_request s)) = kFailed"
  by (simp_all add: fail_request_def complete_request_def host_inv_def owner_def buffers_apart_def lc_defs)

text \<open>A call is refused without effect, refused as a write to a read-only server, or goes through.\<close>

lemma submit_cases:
  assumes run: "SubmitAndWait cn eno operation rid oid off buf len strm err s v = Some (r, s', v')"
  shows "(\<not> (request_ok s operation off buf len \<and> lc_state (hi_lifecycle s) = kConnected \<and> rid \<noteq> 0) \<and>
      s' = s \<and> v' = v \<and> (\<exists>e. r = Inl e)) \<or>
    (request_ok s operation off buf len \<and> lc_state (hi_lifecycle s) = kConnected \<and> rid \<noteq> 0 \<and>
      operation = kWrite \<and> hi_server_capabilities s AND kServerCapabilityStorageWrite = 0 \<and>
      s' = complete_request rid (in_flight rid s) \<and> v' = v \<and> (\<exists>e. r = Inl e)) \<or>
    (request_ok s operation off buf len \<and> lc_state (hi_lifecycle s) = kConnected \<and> rid \<noteq> 0 \<and>
      (operation = kWrite \<longrightarrow> hi_server_capabilities s AND kServerCapabilityStorageWrite \<noteq> 0) \<and>
      submit_rest cn eno operation rid oid off (the buf) len strm err (in_flight rid s) v = Some (r, s', v'))"
proof (cases "request_ok s operation off buf len \<and> lc_state (hi_lifecycle s) = kConnected \<and> rid \<noteq> 0")
  case False
  then show ?thesis using run by (auto simp: SubmitAndWait_def lc_defs)
next
  case True
  have start: "s\<lparr>hi_lifecycle := snd (BeginRequest rid (hi_lifecycle s))\<rparr> = in_flight rid s"
    using True by (cases "hi_lifecycle s") (simp add: in_flight_def lc_defs)
  have "hi_server_capabilities (in_flight rid s) = hi_server_capabilities s" by (simp add: in_flight_def)
  then show ?thesis
    using run True unfolding SubmitAndWait_def start by (auto simp: lc_defs Let_def split: if_splits)
qed

context cann_library
begin

lemma post_command_calm:
  assumes "post_command cn command strm s v = (ok, v')"
  shows "opened v' = opened v \<and> held v' = held v"
  using assms
  by (auto simp: post_command_def dest!: calm_api(4,6,7) split: option.splits prod.splits if_splits)

lemma npu_exchange_calm:
  assumes "npu_exchange cn command strm err s v = Some (q, v')"
  shows "opened v' = opened v \<and> held v' = held v"
proof -
  obtain ok w where p: "post_command cn command strm s v = (ok, w)" by fastforce
  note calm = post_command_calm [OF p]
  show ?thesis
  proof (cases ok)
    case False
    then show ?thesis using assms p calm by (simp add: npu_exchange_def)
  next
    case True
    obtain r where r: "completion_loop cn (rc_api s) (hi_completion_device s) (cmd_request_id command)
        (cn_now cn w + unat (hc_timeout_ms (hi_config s)) * ms_ticks) w = Some (r, v')"
      using assms p True by (auto simp: npu_exchange_def bind_Some_iff split: prod.splits)
    have "\<forall>u st x u1. (opened u = opened w \<and> held u = held w) \<and>
        MemcpyToHost cn (rc_api s) kCompletionWireBytes (hi_completion_device s) kCompletionWireBytes u = (st, x, u1) \<longrightarrow>
        (opened u1 = opened w \<and> held u1 = held w) \<and>
        (opened (cn_sleep_1ms cn u1) = opened w \<and> held (cn_sleep_1ms cn u1) = held w)"
      using calm_api(8) calm_calls(1) unfolding calm_def by metis
    from completion_loop_rule [OF r this] calm show ?thesis by simp
  qed
qed

lemma exchange_ok:
  assumes run: "exchange cn eno command strm err s v = Some (q, s', v')"
  shows "opened v' = opened v \<and> held v' = held v \<and> host_objs s' = host_objs s \<and> rc_api s' = rc_api s \<and>
    rc_rdma_handle s' = rc_rdma_handle s \<and> hi_lifecycle s' = hi_lifecycle s \<and> buffers_apart s' = buffers_apart s \<and>
    (hi_control s' = None) = (hi_control s = None)"
proof (cases "hc_control_mode (hi_config s) = CtlTcp")
  case False
  then have "npu_exchange cn command strm err s v = Some (q, v')" "s' = s"
    using run by (auto simp: exchange_def bind_Some_iff split: prod.splits)
  then show ?thesis using npu_exchange_calm by simp
next
  case True
  then have "v' = v" "s' = s \<or> (\<exists>fd c c'. hi_control s = Some (fd, c) \<and> s' = s\<lparr>hi_control := Some (fd, c')\<rparr>)"
    using run by (auto simp: exchange_def split: option.splits prod.splits)
  moreover have "host_objs (s\<lparr>hi_control := Some (fd, c')\<rparr>) = host_objs s" if "hi_control s = Some (fd, c)" for fd c c'
    using that by (intro host_objs_eqI ext) (auto simp: core_objs_def buffer_objs_def split: rkey.splits)
  ultimately show ?thesis by (auto simp: buffers_apart_def)
qed

lemma finish_exchange_ok:
  assumes run: "finish_exchange cn operation rid len m err q s v = (r, s', v')"
    and inv: "owner opened held O0 L0 ((host_objs s)(KMr m \<mapsto> us)) s v" "buffers_apart s" "api_ready (rc_api s)"
      "host_objs s (KMr m) = None" "\<not> used (KMr m) ((host_objs s)(KMr m \<mapsto> us))"
    and fl: "lc_state (hi_lifecycle s) = kRequestInFlight" "lc_active_request_id (hi_lifecycle s) = rid"
  shows "host_inv opened held O0 L0 s' v' \<and> hi_control s' = hi_control s \<and>
    lc_state (hi_lifecycle s') = (case r of Inl _ \<Rightarrow> kFailed | Inr _ \<Rightarrow> kConnected)"
proof -
  obtain st w where d: "DeregisterMr cn (rc_api s) (rc_rdma_handle s) m v = (st, w)" by fastforce
  have h: "holding held L0 ((host_objs s)(KMr m \<mapsto> us)) v" using inv(1) by (simp add: owner_def)
  have "opened w = opened v \<and> st = 0 \<and> holding held L0 (((host_objs s)(KMr m \<mapsto> us))(KMr m := None)) w"
    using destroys_holding [OF destroys_api(3) [OF inv(3)] d h _ inv(5)] by simp
  then have w: "opened w = opened v" "st = 0" "holding held L0 (host_objs s) w"
    using inv(4) by (simp_all add: fun_upd_idem)
  have out: "v' = w \<and> (s' = fail_request s \<and> (\<exists>e. r = Inl e) \<or> s' = complete_request rid s \<and> (\<exists>x. r = Inr x))"
    using run d w(2) by (auto simp: finish_exchange_def kSuccess_def Let_def split: option.splits sum.splits)
  have "host_inv opened held O0 L0 s w" using inv w by (simp add: host_inv_def owner_def)
  then show ?thesis using out fl request_ends(5) by (elim conjE disjE exE) simp_all
qed

lemma submit_rest_ok:
  assumes inv: "host_inv opened held O0 L0 s v"
    and run: "submit_rest cn eno operation rid oid off a len strm err s v = Some (r, s', v')"
    and fl: "lc_state (hi_lifecycle s) = kRequestInFlight" "lc_active_request_id (hi_lifecycle s) = rid"
  shows "host_inv opened held O0 L0 s' v' \<and> (hi_control s' = None) = (hi_control s = None) \<and>
    lc_state (hi_lifecycle s') = (case r of Inl _ \<Rightarrow> kFailed | Inr _ \<Rightarrow> kConnected)"
proof -
  obtain st mr h w where g: "RegisterMr cn (rc_api s) (rc_rdma_handle s) (payload_mr operation a len) v = (st, mr, h, w)"
    by (metis prod_cases4)
  have h0: "holding held L0 (host_objs s) v" using inv by (simp add: host_inv_def owner_def)
  note mk = mr_makes [OF g h0]
  show ?thesis
  proof (cases "st = 0 \<and> h \<noteq> None")
    case False
    then have "h = None" "r = Inl ''RaRegisterMr failed for NPU HBM payload window'' \<and> s' = fail_request s \<and> v' = w"
      using mk run g by (auto simp: submit_rest_def kSuccess_def split: option.splits bool.splits)
    moreover from this have "host_inv opened held O0 L0 s w" using mk inv by (simp add: host_inv_def owner_def)
    ultimately show ?thesis using fl by simp
  next
    case True
    then obtain m where m: "h = Some m" by auto
    let ?us = "mr_uses (rc_rdma_handle s) (mi_address (payload_mr operation a len))"
    have k: "host_objs s (KMr m) = None" "\<not> used (KMr m) (host_objs s)"
      "holding held L0 ((host_objs s)(KMr m \<mapsto> ?us)) w" "opened w = opened v" using mk m by auto
    have "\<not> used (KMr m) ((host_objs s)(KMr m \<mapsto> ?us))"
      using k(2) by (auto simp: used_def mr_uses_def rdev_uses_def payload_mr_def split: if_splits option.splits)
    have rdy: "api_ready (rc_api s)"
      using inv g True by (auto simp: host_inv_def owner_def closed_api_def RegisterMr_def via_handle_def kUnavailable_def)
    obtain q s1 w1 where x: "exchange cn eno (host_command operation rid oid off a len (mi_rkey mr)) strm err s w = Some (q, s1, w1)"
      and f: "finish_exchange cn operation rid len m err q s1 w1 = (r, s', v')"
      using run g True m by (auto simp: submit_rest_def kSuccess_def bind_Some_iff split: prod.splits)
    note e = exchange_ok [OF x]
    have "owner opened held O0 L0 ((host_objs s1)(KMr m \<mapsto> ?us)) s1 w1"
      using e k inv rdy by (simp add: owner_def holding_def host_inv_def)
    from finish_exchange_ok [OF f this] show ?thesis
      using e k rdy inv fl \<open>\<not> used (KMr m) ((host_objs s)(KMr m \<mapsto> ?us))\<close> by (simp add: host_inv_def)
  qed
qed

text \<open>The payload window is registered and deregistered again; the session afterwards is connected or failed.\<close>

lemma submit_holding:
  assumes inv: "host_inv opened held O0 L0 s v"
    and run: "SubmitAndWait cn eno operation rid oid off buf len strm err s v = Some (r, s', v')"
    and idle: "lc_state (hi_lifecycle s) \<noteq> kRequestInFlight"
  shows "host_inv opened held O0 L0 s' v' \<and> (hi_control s' = None) = (hi_control s = None) \<and>
    (lc_state (hi_lifecycle s') = lc_state (hi_lifecycle s) \<and> v' = v \<and> (\<exists>e. r = Inl e) \<or>
     lc_state (hi_lifecycle s) = kConnected \<and>
       lc_state (hi_lifecycle s') = (case r of Inl _ \<Rightarrow> kFailed | Inr _ \<Rightarrow> kConnected))"
  using submit_cases [OF run]
proof (elim disjE conjE)
  assume "s' = s" "v' = v" "\<exists>e. r = Inl e"
  then show ?thesis using inv by simp
next
  assume "lc_state (hi_lifecycle s) = kConnected" "s' = complete_request rid (in_flight rid s)" "v' = v" "\<exists>e. r = Inl e"
  then show ?thesis
    using inv by (auto simp: complete_request_def in_flight_def lc_defs host_inv_def owner_def buffers_apart_def)
next
  assume c: "lc_state (hi_lifecycle s) = kConnected"
    and rest: "submit_rest cn eno operation rid oid off (the buf) len strm err (in_flight rid s) v = Some (r, s', v')"
  have "host_inv opened held O0 L0 (in_flight rid s) v" "hi_control (in_flight rid s) = hi_control s"
    using inv by (simp_all add: in_flight_def host_inv_def owner_def buffers_apart_def)
  then show ?thesis using submit_rest_ok [OF _ rest] c by (simp add: in_flight_def)
qed

lemma HostClose_ok:
  assumes inv: "host_inv opened held O0 L0 s v" and idle: "lc_state (hi_lifecycle s) \<noteq> kRequestInFlight"
    and run: "HostClose cn s v = (e, s', v')"
  shows "e = None \<and> opened v' = O0 \<and> held v' = L0 \<and> lc_state (hi_lifecycle s') = kClosed \<and>
    host_inv opened held O0 L0 s' v'"
proof -
  obtain t w where c: "HostCleanup cn s v = (t, w)" by fastforce
  note ok = HostCleanup_ok [OF inv c]
  have out: "e = None" "v' = w" "s' = t\<lparr>hi_lifecycle := snd (CloseSession (hi_lifecycle t))\<rparr>"
    using run c idle by (auto simp: HostClose_def)
  have "lc_state (hi_lifecycle s') = kClosed" using out ok idle by (auto simp: lc_defs)
  moreover have "host_objs s' = Map.empty" "buffers_apart s'" "rc_api s' = closed_api"
    using out ok host_bare_objs [of t] core_down_objs [of t] host_bare_apart [of t] by (auto simp: buffers_apart_def)
  ultimately show ?thesis
    using out ok by (simp add: host_inv_def owner_def closed_api_def api_handles_def handle_mset_def)
qed

end

section \<open>A session under any sequence of calls\<close>

inductive host_run :: "('v, 'z) cann_scheme \<Rightarrow> string \<Rightarrow> 'v \<Rightarrow> HostRaImpl \<Rightarrow> 'v \<Rightarrow> bool" for cn eno v0 where
  host_new: "host_run cn eno v0 new_host v0"
| host_open: "host_run cn eno v0 s v \<Longrightarrow> HostOpen cn eno cfg err s v = (e, s', v') \<Longrightarrow> host_run cn eno v0 s' v'"
| host_submit: "host_run cn eno v0 s v \<Longrightarrow>
    SubmitAndWait cn eno operation rid oid off buf len strm err s v = Some (r, s', v') \<Longrightarrow> host_run cn eno v0 s' v'"
| host_close: "host_run cn eno v0 s v \<Longrightarrow> HostClose cn s v = (e, s', v') \<Longrightarrow> host_run cn eno v0 s' v'"

definition host_ok :: "('v \<Rightarrow> nat multiset) \<Rightarrow> ('v \<Rightarrow> objects) \<Rightarrow> 'v \<Rightarrow> HostRaImpl \<Rightarrow> 'v \<Rightarrow> bool" where
  "host_ok opened held v0 s v \<longleftrightarrow> host_inv opened held (opened v0) (held v0) s v \<and>
     lc_state (hi_lifecycle s) \<in> {kCreated, kConnected, kFailed, kClosed} \<and>
     (lc_state (hi_lifecycle s) = kCreated \<longrightarrow> core_down s \<and> host_bare s \<and> rc_api s = closed_api) \<and>
     (lc_state (hi_lifecycle s) = kConnected \<longrightarrow> hi_control s \<noteq> None)"

lemma new_host_ok: "host_ok opened held v0 new_host v0"
proof -
  have "core_down new_host" "host_bare new_host" "rc_api new_host = closed_api" "lc_state (hi_lifecycle new_host) = kCreated"
    by (simp_all add: new_host_def ra_core.extend_def new_core_def core_down_def host_bare_def new_lifecycle_def)
  then show ?thesis
    using host_bare_objs [of new_host] core_down_objs [of new_host] host_bare_apart [of new_host]
    by (simp add: host_ok_def host_inv_def owner_def closed_api_def api_handles_def handle_mset_def)
qed

context cann_library
begin

lemma host_run_ok:
  assumes "host_run cn eno v0 s v" "services_down (held v0)"
  shows "host_ok opened held v0 s v"
  using assms
proof (induction rule: host_run.induct)
  case host_new
  show ?case by (rule new_host_ok)
next
  case (host_open s v cfg err e s' v')
  show ?case
  proof (cases "lc_state (hi_lifecycle s) = kCreated")
    case True
    then have f: "host_inv opened held (opened v0) (held v0) s v" "core_down s" "host_bare s" "rc_api s = closed_api"
      using host_open.IH host_open.prems by (auto simp: host_ok_def)
    show ?thesis
      using HostOpen_ok [OF host_open.prems(1) f(1) True f(2-4) host_open.hyps(2)]
      by (cases e) (auto simp: host_ok_def)
  next
    case False
    then show ?thesis using host_open by (auto simp: HostOpen_def)
  qed
next
  case (host_submit s v operation rid oid off buf len strm err r s' v')
  then have ok: "host_ok opened held v0 s v" by simp
  then have "host_inv opened held (opened v0) (held v0) s v" "lc_state (hi_lifecycle s) \<noteq> kRequestInFlight"
    by (auto simp: host_ok_def)
  note sub = submit_holding [OF this(1) host_submit.hyps(2) this(2)]
  show ?case
  proof (cases "lc_state (hi_lifecycle s) = kCreated")
    case True
    then have "s' = s" "v' = v" using submit_cases [OF host_submit.hyps(2)] by auto
    then show ?thesis using ok by simp
  next
    case False
    then show ?thesis using sub ok by (auto simp: host_ok_def split: sum.splits)
  qed
next
  case (host_close s v e s' v')
  then have "host_inv opened held (opened v0) (held v0) s v" "lc_state (hi_lifecycle s) \<noteq> kRequestInFlight"
    by (auto simp: host_ok_def)
  from HostClose_ok [OF this host_close.hyps(2)] show ?case by (simp add: host_ok_def)
qed

end

section \<open>What success means\<close>

text \<open>A completion that came over the connection: the command went out whole, and the completion's bytes were
  the next in the stream.\<close>

lemma tcp_exchange_sound:
  assumes "tcp_exchange eno command err k = (Inr c, k')"
  shows "\<exists>w wc. EncodeCommand command = Some w \<and> c_sent k' = c_sent k @ w \<and>
    EncodeCompletion c = Some wc \<and> rx_stream (c_rx k) = wc @ rx_stream (c_rx k')"
proof -
  obtain k1 rx where s: "SendCommand eno k command = (None, k1)" and r: "ReceiveCompletion (c_rx k1) = (Inr c, rx)"
    and k': "k' = k1\<lparr>c_rx := rx\<rparr>"
    using assms by (auto simp: tcp_exchange_def split: prod.splits option.splits sum.splits control_error.splits)
  obtain w where w: "EncodeCommand command = Some w" using s by (auto simp: SendCommand_def split: option.splits)
  then have "ControlWriteAll eno k w = (None, k1)" using s by (simp add: SendCommand_def)
  then have "c_sent k1 = c_sent k @ w" "c_rx k1 = c_rx k" using cw.success cw.frame by blast+
  then show ?thesis using cpl_chan.receive_sound [OF r] w k' by auto
qed

text \<open>Where an accepted completion came from.\<close>

definition completion_source ::
  "('v, 'z) cann_scheme \<Rightarrow> Command \<Rightarrow> Completion \<Rightarrow> HostRaImpl \<Rightarrow> HostRaImpl \<Rightarrow> bool" where
  "completion_source cn command c s s' \<longleftrightarrow>
    (if hc_control_mode (hi_config s) = CtlTcp then
       \<exists>fd k k' w wc. hi_control s = Some (fd, k) \<and> hi_control s' = Some (fd, k') \<and>
         EncodeCommand command = Some w \<and> c_sent k' = c_sent k @ w \<and>
         EncodeCompletion c = Some wc \<and> rx_stream (c_rx k) = wc @ rx_stream (c_rx k')
     else \<exists>v1 x v2. MemcpyToHost cn (rc_api s) kCompletionWireBytes (hi_completion_device s) kCompletionWireBytes v1 =
         (kSuccess, x, v2) \<and> DecodeCompletion x = Some c)"

lemma exchange_source:
  assumes run: "exchange cn eno command strm err s v = Some (Inr c, s', v')"
    and id: "cpl_request_id c = cmd_request_id command" "cmd_request_id command \<noteq> 0"
  shows "completion_source cn command c s s'"
proof (cases "hc_control_mode (hi_config s) = CtlTcp")
  case True
  then obtain fd k k' where k: "hi_control s = Some (fd, k)" "tcp_exchange eno command err k = (Inr c, k')"
    "s' = s\<lparr>hi_control := Some (fd, k')\<rparr>"
    using run by (auto simp: exchange_def split: option.splits prod.splits)
  then show ?thesis using tcp_exchange_sound [OF k(2)] True by (simp add: completion_source_def)
next
  case False
  then have n: "npu_exchange cn command strm err s v = Some (Inr c, v')" "s' = s"
    using run by (auto simp: exchange_def bind_Some_iff split: prod.splits)
  obtain w where p: "post_command cn command strm s v = (True, w)"
    using n(1) by (cases "post_command cn command strm s v"; cases "fst (post_command cn command strm s v)")
      (auto simp: npu_exchange_def)
  obtain r where r: "completion_loop cn (rc_api s) (hi_completion_device s) (cmd_request_id command)
      (cn_now cn w + unat (hc_timeout_ms (hi_config s)) * ms_ticks) w = Some (r, v')"
    and c: "(case r of WaitFailed \<Rightarrow> Inl err | WaitTimedOut \<Rightarrow> Inr no_completion | WaitDone c \<Rightarrow> Inr c) = Inr c"
    using n(1) p by (auto simp: npu_exchange_def bind_Some_iff split: prod.splits)
  have "r = WaitDone c" using c id by (cases r) (auto simp: no_completion_def)
  then show ?thesis
    using completion_loop_rule [OF r, of "\<lambda>_. True"] False by (auto simp: completion_source_def)
qed

lemma finish_exchange_sound:
  assumes "finish_exchange cn operation rid len m err q s v = (Inr res, s', v')"
  shows "\<exists>c. q = Inr c \<and> cpl_request_id c = rid \<and> cpl_status c = 0 \<and> cpl_bytes c = len \<and>
    hs_bytes res = len \<and> hs_checksum res = cpl_checksum c \<and> hi_control s' = hi_control s"
  using assms
  by (auto simp: finish_exchange_def judge_exchange_def success_result_def Let_def
      split: prod.splits option.splits sum.splits if_splits)

lemma finish_exchange_fails:
  assumes "finish_exchange cn operation rid len m err q s v = (Inl e, s', v')"
  shows "s' = fail_request s"
  using assms by (auto simp: finish_exchange_def Let_def split: prod.splits option.splits sum.splits if_splits)

lemma exchange_lifecycle: "exchange cn eno command strm err s v = Some (q, s', v') \<Longrightarrow> hi_lifecycle s' = hi_lifecycle s"
  by (auto simp: exchange_def bind_Some_iff split: if_splits option.splits prod.splits)

lemma submit_rest_fails:
  assumes "submit_rest cn eno operation rid oid off a len strm err s v = Some (Inl e, s', v')"
  shows "\<exists>t. s' = fail_request t \<and> hi_lifecycle t = hi_lifecycle s"
  using assms
  by (auto simp: submit_rest_def bind_Some_iff dest!: finish_exchange_fails exchange_lifecycle
      split: prod.splits option.splits bool.splits)

section \<open>Requests return\<close>

text \<open>What the loop relies on: sleeping advances the clock, copying does not set it back.\<close>

locale host_clock =
  fixes cn :: "('v, 'z) cann_scheme"
  assumes sleep_forward: "cn_now cn v < cn_now cn (cn_sleep_1ms cn v)"
    and copy_forward: "cn_now cn v \<le> cn_now cn (snd (snd (cn_memcpy_to_host cn n src len v)))"
begin

lemma completion_loop_returns: "\<exists>r. completion_loop cn api dev rid deadline v = Some r"
proof (induction "deadline - cn_now cn v" arbitrary: v rule: less_induct)
  case less
  show ?case
  proof (cases "cn_now cn v < deadline")
    case True
    obtain st x v1 where m: "MemcpyToHost cn api kCompletionWireBytes dev kCompletionWireBytes v = (st, x, v1)"
      by (metis prod_cases3)
    have "cn_now cn v \<le> cn_now cn v1"
      using m copy_forward by (auto simp: MemcpyToHost_def via_out_def split: option.splits) (metis snd_conv)
    then have "deadline - cn_now cn (cn_sleep_1ms cn v1) < deadline - cn_now cn v"
      using sleep_forward [of v1] True by linarith
    from less [OF this] show ?thesis
      using True m by (subst completion_loop.simps) (auto split: option.splits)
  next
    case False
    then show ?thesis by (subst completion_loop.simps) simp
  qed
qed

lemma exchange_returns: "\<exists>r. exchange cn eno command strm err s v = Some r"
proof -
  have "\<exists>r. npu_exchange cn command strm err s v = Some r"
    using completion_loop_returns
    by (auto simp: npu_exchange_def bind_Some_iff split: prod.splits bool.splits) (metis surj_pair)
  then show ?thesis by (auto simp: exchange_def split: option.splits prod.splits)
qed

end

interpretation sim_clock: host_clock "sim_cann exported"
  by unfold_locales (simp_all add: sim_cann_def)

section \<open>Properties\<close>


definition sample_ra_config :: "ControlMode \<Rightarrow> HostRaConfig" where
  "sample_ra_config mode = default_config\<lparr>hc_storage_server := [49], hc_npu_rnic_ip := [49], hc_physical_device := 0,
     hc_bootstrap_port := 1, hc_timeout_ms := 1, hc_control_mode := mode\<rparr>"

definition sample_peer :: conn where
  "sample_peer = \<lparr>c_rx = [Rx (the (EncodeSessionResponse sample_response))], c_tx = [], c_sent = []\<rparr>"


text \<open>Property C37. What a successful request means.  It was within the namespace and the limits, on a connected
  session with nothing in flight, and not a write to a server that does not allow writing; and the
  size and checksum in its result are those of a completion under the request's own identifier, with
  status success and the full length, which either followed on the control connection after the whole
  command had been sent or was read from the completion buffer in NPU memory.\<close>

theorem host_ra_request_sound:
  assumes "SubmitAndWait cn eno operation rid oid off buf len strm err s v = Some (Inr res, s', v')"
  shows "request_ok s operation off buf len \<and> rid \<noteq> 0 \<and> lc_state (hi_lifecycle s) = kConnected \<and>
    (operation = kWrite \<longrightarrow> hi_server_capabilities s AND kServerCapabilityStorageWrite \<noteq> 0) \<and>
    (\<exists>c rkey. cpl_request_id c = rid \<and> cpl_status c = 0 \<and> cpl_bytes c = len \<and>
       hs_bytes res = len \<and> hs_checksum res = cpl_checksum c \<and>
       completion_source cn (host_command operation rid oid off (the buf) len rkey) c s s')"
proof -
  have start: "request_ok s operation off buf len \<and> rid \<noteq> 0 \<and> lc_state (hi_lifecycle s) = kConnected \<and>
    (operation = kWrite \<longrightarrow> hi_server_capabilities s AND kServerCapabilityStorageWrite \<noteq> 0)"
    and rest: "submit_rest cn eno operation rid oid off (the buf) len strm err (in_flight rid s) v = Some (Inr res, s', v')"
    using submit_cases [OF assms] by auto
  from rest obtain m q s1 w w1 rkey where
    x: "exchange cn eno (host_command operation rid oid off (the buf) len rkey) strm err (in_flight rid s) w = Some (q, s1, w1)"
    and f: "finish_exchange cn operation rid len m err q s1 w1 = (Inr res, s', v')"
    by (auto simp: submit_rest_def bind_Some_iff split: prod.splits option.splits bool.splits)
  from finish_exchange_sound [OF f] obtain c where q: "q = Inr c" and c: "cpl_request_id c = rid" "cpl_status c = 0"
    "cpl_bytes c = len" "hs_bytes res = len" "hs_checksum res = cpl_checksum c" and k: "hi_control s' = hi_control s1"
    by blast
  have "completion_source cn (host_command operation rid oid off (the buf) len rkey) c (in_flight rid s) s1"
    using exchange_source [OF x [unfolded q]] c start by (simp add: host_command_def)
  moreover have "hi_control (in_flight rid s) = hi_control s" "rc_api (in_flight rid s) = rc_api s"
    "hi_completion_device (in_flight rid s) = hi_completion_device s" "hi_config (in_flight rid s) = hi_config s"
    by (simp_all add: in_flight_def)
  ultimately have "completion_source cn (host_command operation rid oid off (the buf) len rkey) c s s'"
    unfolding completion_source_def k by metis
  then show ?thesis using start c by blast
qed

text \<open>A connected session over TCP control whose peer has the given bytes to deliver.\<close>

definition sample_ra_session :: "rx_event list \<Rightarrow> HostRaImpl" where
  "sample_ra_session rx = new_host\<lparr>hi_lifecycle := \<lparr>lc_state = kConnected, lc_active_request_id = 0\<rparr>,
     hi_namespace_bytes := 4096, hi_max_transfer := 1024, rc_rdma_handle := Some 1,
     rc_api := closed_api\<lparr>api_fns := [Ra_register_mr \<mapsto> ''RaRegisterMr'', Ra_deregister_mr \<mapsto> ''RaDeregisterMr'']\<rparr>,
     hi_control := Some (3, \<lparr>c_rx = rx, c_tx = [TxAccept 7], c_sent = []\<rparr>)\<rparr>"

definition sample_completion :: Completion where
  "sample_completion = \<lparr>cpl_request_id = 9, cpl_status = 0, cpl_bytes = 512, cpl_checksum = 77, cpl_flags = 0\<rparr>"

lemma sample_send:
  assumes "SendCommand [] k (host_command kRead 9 0 128 4096 512 4) = (r, k')" "tx_clean k"
  shows "r = None \<and> c_rx k' = c_rx k"
proof -
  have "command_ok (host_command kRead 9 0 128 4096 512 4)"
    by (simp add: command_ok_def host_command_def required_access_def kRead_def kWrite_def kMemoryRemoteWrite_def)
  then obtain w where w: "EncodeCommand (host_command kRead 9 0 128 4096 512 4) = Some w" by (simp add: EncodeCommand_layout)
  obtain c' where "SendCommand [] k (host_command kRead 9 0 128 4096 512 4) = (None, c')" "c_rx c' = c_rx k"
    using cmd_chan.send_exact [OF w assms(2)] by metis
  then show ?thesis using assms(1) by simp
qed

lemmas sample_ra_session_defs = SubmitAndWait_def request_ok_def sample_ra_session_def new_host_def ra_core.extend_def
  new_core_def lc_defs submit_rest_def RegisterMr_def via_handle_def sim_cann_def sim_make_def sim_idle_def
  sim_used_def sim_status_def exchange_def default_config_def tcp_exchange_def payload_mr_def
  finish_exchange_def DeregisterMr_def via_def sim_destroy_def judge_exchange_def kRead_def kWrite_def kSuccess_def

lemma sample_submit:
  assumes "ReceiveCompletion rx = (q, rx')" "q = Inl kPeerClosed \<or> q = Inr sample_completion"
  shows "\<exists>r s' v'. SubmitAndWait (sim_cann modern_symbols) [] kRead 9 0 128 (Some 4096) 512 0 [] (sample_ra_session rx)
      (sim_idle [] [] sample_peer) = Some (r, s', v') \<and>
    (q = Inr sample_completion \<longrightarrow> (\<exists>x. r = Inr x)) \<and>
    (q = Inl kPeerClosed \<longrightarrow> r = Inl ''TCP command/completion exchange failed'' \<and> lc_state (hi_lifecycle s') = kFailed)"
proof -
  obtain r k' where k: "SendCommand [] \<lparr>c_rx = rx, c_tx = [TxAccept 7], c_sent = []\<rparr> (host_command 1 9 0 128 4096 512 4) = (r, k')"
    by fastforce
  have "r = None" "c_rx k' = rx" using sample_send [OF k [folded kRead_def]] by (simp_all add: tx_clean_def)
  with k assms show ?thesis
    by (elim disjE) (simp_all add: sample_ra_session_defs sample_completion_def mr_uses_def rdev_uses_def fail_request_def)
qed

lemma host_ra_request_sound_witness:
  "\<exists>rx res s' v'. SubmitAndWait (sim_cann modern_symbols) [] kRead 9 0 128 (Some 4096) 512 0 [] (sample_ra_session rx)
      (sim_idle [] [] sample_peer) = Some (Inr res, s', v') \<and> hs_bytes res = 512"
proof -
  obtain w where w: "EncodeCompletion sample_completion = Some w"
    by (simp add: sample_completion_def EncodeCompletion_layout)
  have "rx_stream [Rx w] = w @ []" by simp
  then obtain rx' where "ReceiveCompletion [Rx w] = (Inr sample_completion, rx')"
    using cpl_chan.receive_exact [OF w, of "[Rx w]" "[]"] by (auto simp: sample_completion_def)
  from sample_submit [OF this] obtain res s' v' where
    run: "SubmitAndWait (sim_cann modern_symbols) [] kRead 9 0 128 (Some 4096) 512 0 [] (sample_ra_session [Rx w])
      (sim_idle [] [] sample_peer) = Some (Inr res, s', v')" by auto
  from host_ra_request_sound [OF this] run show ?thesis by blast
qed

text \<open>Property C38. A failed request ends the session.  A request that fails is either refused without touching the
  machine, leaving the session as it was, or leaves the session failed with nothing in flight; and then
  every further request and every further \<open>Open\<close> is refused without effect.\<close>

theorem host_ra_failure_final:
  assumes "SubmitAndWait cn eno operation rid oid off buf len strm err s v = Some (Inl e, s', v')"
    and "lc_state (hi_lifecycle s) \<noteq> kRequestInFlight"
  shows "lc_state (hi_lifecycle s') = lc_state (hi_lifecycle s) \<and> v' = v \<or>
    lc_state (hi_lifecycle s') = kFailed \<and> lc_active_request_id (hi_lifecycle s') = 0 \<and>
    (\<forall>operation rid oid off buf len strm err w.
       SubmitAndWait cn eno operation rid oid off buf len strm err s' w =
         Some (Inl ''invalid or concurrent Host-RA storage request'', s', w)) \<and>
    (\<forall>cfg err w. HostOpen cn eno cfg err s' w = (Some ''Host-RA session was already opened'', s', w))"
  using submit_cases [OF assms(1)]
proof (elim disjE conjE)
  assume "lc_state (hi_lifecycle s) = kConnected" "s' = complete_request rid (in_flight rid s)" "v' = v"
  then show ?thesis by (simp add: complete_request_def in_flight_def lc_defs)
next
  assume rest: "submit_rest cn eno operation rid oid off (the buf) len strm err (in_flight rid s) v = Some (Inl e, s', v')"
  have "lc_state (hi_lifecycle s') = kFailed \<and> lc_active_request_id (hi_lifecycle s') = 0"
    using submit_rest_fails [OF rest] by (auto simp: in_flight_def fail_request_def lc_defs)
  then show ?thesis by (simp add: SubmitAndWait_def HostOpen_def lc_defs)
qed simp

lemma host_ra_failure_final_witness:
  "\<exists>s' v'. SubmitAndWait (sim_cann modern_symbols) [] kRead 9 0 128 (Some 4096) 512 0 [] (sample_ra_session [])
      (sim_idle [] [] sample_peer) = Some (Inl ''TCP command/completion exchange failed'', s', v') \<and>
    lc_state (hi_lifecycle s') = kFailed \<and>
    SubmitAndWait (sim_cann modern_symbols) [] kRead 10 0 0 (Some 4096) 1 0 [] s' v' =
      Some (Inl ''invalid or concurrent Host-RA storage request'', s', v')"
proof -
  have "ReceiveCompletion [] = (Inl kPeerClosed, [])"
    by (simp add: ReceiveCompletion_def ControlReadAll_def ctl_read_loop.simps roce_sizes)
  from sample_submit [OF this] obtain s' v' where
    run: "SubmitAndWait (sim_cann modern_symbols) [] kRead 9 0 128 (Some 4096) 512 0 [] (sample_ra_session [])
      (sim_idle [] [] sample_peer) = Some (Inl ''TCP command/completion exchange failed'', s', v')"
    and f: "lc_state (hi_lifecycle s') = kFailed" by auto
  have "lc_state (hi_lifecycle (sample_ra_session [])) = kConnected" by (simp add: sample_ra_session_def)
  with host_ra_failure_final [OF run] f run show ?thesis by auto
qed

text \<open>Property C39. A request returns.  Whatever the peer, the adapter and the device do, \<open>SubmitAndWait\<close> returns, given
  a clock that sleeping moves forward.\<close>

theorem host_ra_request_returns:
  assumes "host_clock cn"
  shows "\<exists>r. SubmitAndWait cn eno operation rid oid off buf len strm err s v = Some r"
  using host_clock.exchange_returns [OF assms]
  by (auto simp: SubmitAndWait_def submit_rest_def Let_def bind_Some_iff
      split: prod.splits option.splits bool.splits) (metis surj_pair)+

lemma host_ra_request_returns_witness:
  "\<exists>r. SubmitAndWait (sim_cann modern_symbols) [] kWrite 9 0 0 (Some 4096) 512 0 []
     (sample_ra_session []\<lparr>hi_config := sample_ra_config CtlNpuRa\<rparr>) (sim_idle [] [] sample_peer) = Some r"
  using host_ra_request_returns [OF sim_clock.host_clock_axioms] .

end
