(* ===== verification/Payload_Kernel.thy ===== *)
theory Payload_Kernel
  imports Payload_Abi
begin

text \<open>
  The payload-copy kernel (\<open>custom_ops/hcomm_payload_copy/aicpu/payload_copy_kernel.cc\<close>).

  The kernel runs on the device with a descriptor.  It writes two arrays of 32-bit words: the status
  array at \<open>desc.status_word\<close> and, when \<open>desc.reserved2[2]\<close> is set, the trace array there; the host
  allocates them separately, and they are two lists of the kernel's state.  Everything else the
  kernel does is a call of an HCOMM primitive.  These are not part of the repository: the environment
  is a parameter with one function from a call to its return value and the next device state, and one
  that reads a byte of device memory (for the data fingerprints).  The state also carries, as a ghost
  variable, the calls made so far with their return values, so that theorems can speak of them.

  Every primitive of the copy body is run by the same sequence of statements (mark the pending status,
  trace the entry, call, trace the exit, stop on an error); that sequence is \<open>run_primitive\<close> and
  \<open>run_stages\<close>, and the body is the list of its stages.
\<close>

section \<open>Constants\<close>

abbreviation (input) TRACE_SCHEMA_VERSION :: u32 where "TRACE_SCHEMA_VERSION \<equiv> 3"
abbreviation (input) TRACE_HEADER_WORD_COUNT :: nat where "TRACE_HEADER_WORD_COUNT \<equiv> 18"
abbreviation (input) TRACE_EVENT_CAPACITY :: nat where "TRACE_EVENT_CAPACITY \<equiv> 32"
abbreviation (input) TRACE_WORD_COUNT :: u32 where "TRACE_WORD_COUNT \<equiv> 82"

abbreviation (input) STATUS_SUCCESS :: u32 where "STATUS_SUCCESS \<equiv> 0"
abbreviation (input) STATUS_INVALID_ARGUMENT :: u32 where "STATUS_INVALID_ARGUMENT \<equiv> 1"
abbreviation (input) STATUS_HCOMM_ERROR :: u32 where "STATUS_HCOMM_ERROR \<equiv> 2"
abbreviation (input) STATUS_THREAD_NOTIFY_WAIT_FAILED :: u32 where "STATUS_THREAD_NOTIFY_WAIT_FAILED \<equiv> 3"
abbreviation (input) STATUS_BATCH_START_FAILED :: u32 where "STATUS_BATCH_START_FAILED \<equiv> 4"
abbreviation (input) STATUS_LOCAL_COPY_FAILED :: u32 where "STATUS_LOCAL_COPY_FAILED \<equiv> 5"
abbreviation (input) STATUS_READY_NOTIFY_RECORD_FAILED :: u32 where "STATUS_READY_NOTIFY_RECORD_FAILED \<equiv> 6"
abbreviation (input) STATUS_DONE_NOTIFY_WAIT_FAILED :: u32 where "STATUS_DONE_NOTIFY_WAIT_FAILED \<equiv> 7"
abbreviation (input) STATUS_READY_NOTIFY_WAIT_FAILED :: u32 where "STATUS_READY_NOTIFY_WAIT_FAILED \<equiv> 8"
abbreviation (input) STATUS_REMOTE_READ_FAILED :: u32 where "STATUS_REMOTE_READ_FAILED \<equiv> 9"
abbreviation (input) STATUS_DONE_NOTIFY_RECORD_FAILED :: u32 where "STATUS_DONE_NOTIFY_RECORD_FAILED \<equiv> 10"
abbreviation (input) STATUS_BATCH_END_FAILED :: u32 where "STATUS_BATCH_END_FAILED \<equiv> 11"
abbreviation (input) STATUS_THREAD_NOTIFY_RECORD_FAILED :: u32 where "STATUS_THREAD_NOTIFY_RECORD_FAILED \<equiv> 12"
abbreviation (input) STATUS_CHANNEL_DRAIN_FAILED :: u32 where "STATUS_CHANNEL_DRAIN_FAILED \<equiv> 13"
abbreviation (input) STATUS_COMM_ACQUIRE_FAILED :: u32 where "STATUS_COMM_ACQUIRE_FAILED \<equiv> 14"
abbreviation (input) STATUS_COMM_RELEASE_FAILED :: u32 where "STATUS_COMM_RELEASE_FAILED \<equiv> 15"
abbreviation (input) STATUS_OUTPUT_COPY_FAILED :: u32 where "STATUS_OUTPUT_COPY_FAILED \<equiv> 16"
abbreviation (input) STATUS_REMOTE_WRITE_FAILED :: u32 where "STATUS_REMOTE_WRITE_FAILED \<equiv> 17"

abbreviation (input) EVENT_NONE :: u32 where "EVENT_NONE \<equiv> 0"
abbreviation (input) EVENT_KERNEL_ENTER :: u32 where "EVENT_KERNEL_ENTER \<equiv> 1"
abbreviation (input) EVENT_COMM_ACQUIRE_ENTER :: u32 where "EVENT_COMM_ACQUIRE_ENTER \<equiv> 2"
abbreviation (input) EVENT_COMM_ACQUIRE_DONE :: u32 where "EVENT_COMM_ACQUIRE_DONE \<equiv> 3"
abbreviation (input) EVENT_BATCH_START_ENTER :: u32 where "EVENT_BATCH_START_ENTER \<equiv> 4"
abbreviation (input) EVENT_BATCH_START_DONE :: u32 where "EVENT_BATCH_START_DONE \<equiv> 5"
abbreviation (input) EVENT_THREAD_NOTIFY_WAIT_ENTER :: u32 where "EVENT_THREAD_NOTIFY_WAIT_ENTER \<equiv> 6"
abbreviation (input) EVENT_THREAD_NOTIFY_WAIT_DONE :: u32 where "EVENT_THREAD_NOTIFY_WAIT_DONE \<equiv> 7"
abbreviation (input) EVENT_SEND_LOCAL_COPY_ENTER :: u32 where "EVENT_SEND_LOCAL_COPY_ENTER \<equiv> 8"
abbreviation (input) EVENT_SEND_LOCAL_COPY_DONE :: u32 where "EVENT_SEND_LOCAL_COPY_DONE \<equiv> 9"
abbreviation (input) EVENT_SEND_READY_RECORD_ENTER :: u32 where "EVENT_SEND_READY_RECORD_ENTER \<equiv> 10"
abbreviation (input) EVENT_SEND_READY_RECORD_DONE :: u32 where "EVENT_SEND_READY_RECORD_DONE \<equiv> 11"
abbreviation (input) EVENT_SEND_DONE_WAIT_ENTER :: u32 where "EVENT_SEND_DONE_WAIT_ENTER \<equiv> 12"
abbreviation (input) EVENT_SEND_DONE_WAIT_DONE :: u32 where "EVENT_SEND_DONE_WAIT_DONE \<equiv> 13"
abbreviation (input) EVENT_RECV_READY_WAIT_ENTER :: u32 where "EVENT_RECV_READY_WAIT_ENTER \<equiv> 14"
abbreviation (input) EVENT_RECV_READY_WAIT_DONE :: u32 where "EVENT_RECV_READY_WAIT_DONE \<equiv> 15"
abbreviation (input) EVENT_RECV_REMOTE_READ_ENTER :: u32 where "EVENT_RECV_REMOTE_READ_ENTER \<equiv> 16"
abbreviation (input) EVENT_RECV_REMOTE_READ_DONE :: u32 where "EVENT_RECV_REMOTE_READ_DONE \<equiv> 17"
abbreviation (input) EVENT_RECV_CHANNEL_FENCE_ENTER :: u32 where "EVENT_RECV_CHANNEL_FENCE_ENTER \<equiv> 18"
abbreviation (input) EVENT_RECV_CHANNEL_FENCE_DONE :: u32 where "EVENT_RECV_CHANNEL_FENCE_DONE \<equiv> 19"
abbreviation (input) EVENT_RECV_OUTPUT_COPY_ENTER :: u32 where "EVENT_RECV_OUTPUT_COPY_ENTER \<equiv> 20"
abbreviation (input) EVENT_RECV_OUTPUT_COPY_DONE :: u32 where "EVENT_RECV_OUTPUT_COPY_DONE \<equiv> 21"
abbreviation (input) EVENT_RECV_DONE_RECORD_ENTER :: u32 where "EVENT_RECV_DONE_RECORD_ENTER \<equiv> 22"
abbreviation (input) EVENT_RECV_DONE_RECORD_DONE :: u32 where "EVENT_RECV_DONE_RECORD_DONE \<equiv> 23"
abbreviation (input) EVENT_THREAD_NOTIFY_RECORD_ENTER :: u32 where "EVENT_THREAD_NOTIFY_RECORD_ENTER \<equiv> 24"
abbreviation (input) EVENT_THREAD_NOTIFY_RECORD_DONE :: u32 where "EVENT_THREAD_NOTIFY_RECORD_DONE \<equiv> 25"
abbreviation (input) EVENT_BATCH_END_ENTER :: u32 where "EVENT_BATCH_END_ENTER \<equiv> 26"
abbreviation (input) EVENT_BATCH_END_DONE :: u32 where "EVENT_BATCH_END_DONE \<equiv> 27"
abbreviation (input) EVENT_COMM_RELEASE_ENTER :: u32 where "EVENT_COMM_RELEASE_ENTER \<equiv> 28"
abbreviation (input) EVENT_COMM_RELEASE_DONE :: u32 where "EVENT_COMM_RELEASE_DONE \<equiv> 29"
abbreviation (input) EVENT_SEND_REMOTE_WRITE_ENTER :: u32 where "EVENT_SEND_REMOTE_WRITE_ENTER \<equiv> 30"
abbreviation (input) EVENT_SEND_REMOTE_WRITE_DONE :: u32 where "EVENT_SEND_REMOTE_WRITE_DONE \<equiv> 31"
abbreviation (input) EVENT_SEND_CHANNEL_FENCE_ENTER :: u32 where "EVENT_SEND_CHANNEL_FENCE_ENTER \<equiv> 32"
abbreviation (input) EVENT_SEND_CHANNEL_FENCE_DONE :: u32 where "EVENT_SEND_CHANNEL_FENCE_DONE \<equiv> 33"
abbreviation (input) EVENT_KERNEL_EXIT :: u32 where "EVENT_KERNEL_EXIT \<equiv> 34"
abbreviation (input) EVENT_SEND_REMOTE_WRITE_NOTIFY_ENTER :: u32 where "EVENT_SEND_REMOTE_WRITE_NOTIFY_ENTER \<equiv> 35"
abbreviation (input) EVENT_SEND_REMOTE_WRITE_NOTIFY_DONE :: u32 where "EVENT_SEND_REMOTE_WRITE_NOTIFY_DONE \<equiv> 36"
abbreviation (input) EVENT_SEND_REMOTE_WRITE_NOTIFY_NBI_ENTER :: u32 where "EVENT_SEND_REMOTE_WRITE_NOTIFY_NBI_ENTER \<equiv> 37"
abbreviation (input) EVENT_SEND_REMOTE_WRITE_NOTIFY_NBI_DONE :: u32 where "EVENT_SEND_REMOTE_WRITE_NOTIFY_NBI_DONE \<equiv> 38"

abbreviation (input) minus_one :: u32 where "minus_one \<equiv> 0xFFFFFFFF"

section \<open>The environment and the state\<close>

datatype hcomm_call =
    HcommAcquireComm bytes
  | HcommReleaseComm bytes
  | HcommBatchModeStart bytes
  | HcommBatchModeEnd bytes
  | HcommThreadNotifyWaitOnThread u64 u32 u32
  | HcommThreadNotifyRecordOnThread u64 u64 u32
  | HcommLocalCopyOnThread u64 u64 u64 u64
  | HcommWriteOnThread u64 u64 u64 u64 u64
  | HcommWriteWithNotifyOnThread u64 u64 u64 u64 u64 u32
  | HcommWriteWithNotifyNbiOnThread u64 u64 u64 u64 u64 u32
  | HcommReadOnThread u64 u64 u64 u64 u64
  | HcommChannelNotifyRecordOnThread u64 u64 u32
  | HcommChannelNotifyWaitOnThread u64 u64 u32 u32
  | HcommChannelFenceOnThread u64 u64
  | HcommChannelFence u64

record 'w hcomm_env =
  he_call :: "hcomm_call \<Rightarrow> 'w \<Rightarrow> u32 \<times> 'w"
  he_mem :: "'w \<Rightarrow> u64 \<Rightarrow> u8"
  he_write_with_notify :: bool
  he_write_with_notify_nbi :: bool
  he_fence_on_thread :: bool

record 'w kstate =
  ks_status :: "u32 list"
  ks_trace :: "u32 list"
  ks_world :: 'w
  ks_calls :: "(hcomm_call \<times> u32) list"

text \<open>Calling a primitive.\<close>

definition hcall :: "'w hcomm_env \<Rightarrow> hcomm_call \<Rightarrow> 'w kstate \<Rightarrow> u32 \<times> 'w kstate" where
  "hcall env c s = (case he_call env c (ks_world s) of
     (ret, w) \<Rightarrow> (ret, s\<lparr>ks_world := w, ks_calls := ks_calls s @ [(c, ret)]\<rparr>))"

definition HcommChannelFenceCompat :: "'w hcomm_env \<Rightarrow> u64 \<Rightarrow> u64 \<Rightarrow> hcomm_call" where
  "HcommChannelFenceCompat env thread channel =
    (if he_fence_on_thread env then HcommChannelFenceOnThread thread channel else HcommChannelFence channel)"

section \<open>Status words, data probes and trace\<close>

definition HasPayloadDescHeader :: "desc \<Rightarrow> bool" where
  "HasPayloadDescHeader d \<longleftrightarrow> pd_magic d = PAYLOAD_COPY_MAGIC \<and> pd_version d = PAYLOAD_COPY_VERSION \<and>
     pd_size d = PAYLOAD_COPY_DESC_SIZE"

text \<open>Guards that several of the stores share: the trace array starts with its schema and size.\<close>

definition trace_live :: "u32 list \<Rightarrow> bool" where
  "trace_live t \<longleftrightarrow> t ! 0 = TRACE_SCHEMA_VERSION \<and> t ! 1 = TRACE_WORD_COUNT"

definition StorePayloadStatus :: "desc \<Rightarrow> u32 \<Rightarrow> 'w kstate \<Rightarrow> 'w kstate" where
  "StorePayloadStatus d status s =
    (if \<not> HasPayloadDescHeader d \<or> pd_status_word d = 0 \<or> pd_status_word_count d < 1 then s
     else let s = s\<lparr>ks_status := (ks_status s)[0 := status]\<rparr> in
       if pd_reserved2_2 d \<noteq> 0 \<and> trace_live (ks_trace s)
       then s\<lparr>ks_trace := (ks_trace s)[16 := status]\<rparr> else s)"

definition StorePayloadPrimitiveRet :: "desc \<Rightarrow> u32 \<Rightarrow> 'w kstate \<Rightarrow> 'w kstate" where
  "StorePayloadPrimitiveRet d ret s =
    (if \<not> HasPayloadDescHeader d \<or> pd_status_word d = 0 \<or> pd_status_word_count d < 2 then s
     else let s = s\<lparr>ks_status := (ks_status s)[1 := ret]\<rparr> in
       if pd_reserved2_2 d \<noteq> 0 \<and> trace_live (ks_trace s)
       then s\<lparr>ks_trace := (ks_trace s)[17 := ret]\<rparr> else s)"

text \<open>The trace array is present.\<close>

definition PayloadTraceWords :: "desc \<Rightarrow> bool" where
  "PayloadTraceWords d \<longleftrightarrow> HasPayloadDescHeader d \<and> pd_reserved2_2 d \<noteq> 0"

definition StorePayloadValidationReason :: "desc \<Rightarrow> u32 \<Rightarrow> 'w kstate \<Rightarrow> 'w kstate" where
  "StorePayloadValidationReason d reason s =
    (if pd_status_word d = 0 \<or> pd_status_word_count d < 2 then s
     else let s = s\<lparr>ks_status := (ks_status s)[1 := reason]\<rparr> in
       if PayloadTraceWords d \<and> trace_live (ks_trace s)
       then s\<lparr>ks_trace := (ks_trace s)[17 := reason]\<rparr> else s)"

definition BeginPayloadPrimitive :: "desc \<Rightarrow> u32 \<Rightarrow> 'w kstate \<Rightarrow> 'w kstate" where
  "BeginPayloadPrimitive d pending s = StorePayloadPrimitiveRet d minus_one (StorePayloadStatus d pending s)"

text \<open>The guard of the echo and probe stores.\<close>

definition probes_enabled :: "desc \<Rightarrow> bool" where
  "probes_enabled d \<longleftrightarrow> HasPayloadDescHeader d \<and> pd_status_word d \<noteq> 0 \<and>
     \<not> pd_status_word_count d < STATUS_WORD_COUNT"

definition low32 :: "u64 \<Rightarrow> u32" where "low32 v = ucast (v AND 0xFFFFFFFF)"
definition high32 :: "u64 \<Rightarrow> u32" where "high32 v = ucast (drop_bit 32 v)"

definition StorePayloadEcho :: "desc \<Rightarrow> 'w kstate \<Rightarrow> 'w kstate" where
  "StorePayloadEcho d s =
    (if \<not> probes_enabled d then s
     else s\<lparr>ks_status := (ks_status s)[2 := pd_role d, 3 := pd_peer_rank d, 4 := low32 (pd_bytes d),
       5 := high32 (pd_bytes d), 6 := pd_local_rank d, 7 := pd_completion_mode d,
       8 := low32 (desc_fingerprint d), 9 := high32 (desc_fingerprint d)]\<rparr>)"

text \<open>The sampled fingerprint of a buffer: its length, the first 4096 bytes and, for a longer buffer,
  the last 4096.\<close>

definition mix_u64 :: "u64 \<Rightarrow> bytes" where
  "mix_u64 v = map (\<lambda>i. byte_at (8 * i) v) [0..<8]"

definition kMaxSampleBytes :: nat where "kMaxSampleBytes = 4096"

definition PayloadDataFingerprint :: "(u64 \<Rightarrow> u8) \<Rightarrow> u64 \<Rightarrow> u64 \<Rightarrow> u32" where
  "PayloadDataFingerprint mem ptr bts =
    (if ptr = 0 \<or> bts = 0 then 0
     else let n = unat bts; first = (if n < kMaxSampleBytes then n else kMaxSampleBytes);
              data = (\<lambda>i. mem (ptr + of_nat i)) in
       fnv32 (mix_u64 bts @ mix_u64 (of_nat first) @ map data [0..<first] @
         (if first < n then mix_u64 (of_nat first) @ map (\<lambda>i. data (n - first + i)) [0..<first] else [])))"

definition StorePayloadDataProbe :: "'w hcomm_env \<Rightarrow> desc \<Rightarrow> nat \<Rightarrow> u64 \<Rightarrow> 'w kstate \<Rightarrow> 'w kstate" where
  "StorePayloadDataProbe env d word_index ptr s =
    (if \<not> probes_enabled d \<or> unat STATUS_WORD_COUNT \<le> word_index then s
     else s\<lparr>ks_status := (ks_status s)[word_index :=
       PayloadDataFingerprint (he_mem env (ks_world s)) ptr (pd_bytes d)]\<rparr>)"

definition StorePayloadDataProbeSampleBytes :: "desc \<Rightarrow> 'w kstate \<Rightarrow> 'w kstate" where
  "StorePayloadDataProbeSampleBytes d s =
    (if \<not> probes_enabled d then s
     else let first = (if unat (pd_bytes d) < kMaxSampleBytes then unat (pd_bytes d) else kMaxSampleBytes);
              sampled = (if first < unat (pd_bytes d) then first * 2 else first) in
       s\<lparr>ks_status := (ks_status s)[14 := of_nat sampled]\<rparr>)"

definition StorePayloadDataProbeNotSampled :: "desc \<Rightarrow> nat \<Rightarrow> 'w kstate \<Rightarrow> 'w kstate" where
  "StorePayloadDataProbeNotSampled d word_index s =
    (if \<not> probes_enabled d \<or> unat STATUS_WORD_COUNT \<le> word_index then s
     else s\<lparr>ks_status := (ks_status s)[word_index := DATA_FINGERPRINT_NOT_SAMPLED]\<rparr>)"

text \<open>All 82 words are cleared before the header is written.\<close>

definition InitPayloadTrace :: "desc \<Rightarrow> 'w kstate \<Rightarrow> 'w kstate" where
  "InitPayloadTrace d s =
    (if \<not> PayloadTraceWords d then s
     else s\<lparr>ks_trace := (overwrite 0 (replicate (unat TRACE_WORD_COUNT) minus_one) (ks_trace s))
       [0 := TRACE_SCHEMA_VERSION, 1 := TRACE_WORD_COUNT, 2 := EVENT_NONE, 3 := minus_one, 4 := 0,
        5 := pd_role d, 6 := pd_local_rank d, 7 := pd_peer_rank d, 8 := low32 (pd_bytes d),
        9 := high32 (pd_bytes d), 10 := ucast (pd_reserved2_0 d), 11 := ucast (pd_reserved2_1 d),
        12 := pd_completion_mode d, 13 := pd_ready_notify_idx d, 14 := pd_done_notify_idx d,
        15 := minus_one, 16 := minus_one, 17 := minus_one]\<rparr>)"

definition TracePayloadEvent :: "desc \<Rightarrow> u32 \<Rightarrow> u32 \<Rightarrow> 'w kstate \<Rightarrow> 'w kstate" where
  "TracePayloadEvent d event ret s =
    (if \<not> PayloadTraceWords d then s
     else let s = (if trace_live (ks_trace s) then s else InitPayloadTrace d s);
              event_count = ks_trace s ! 4;
              slot = unat event_count mod TRACE_EVENT_CAPACITY in
       s\<lparr>ks_trace := (ks_trace s)
         [TRACE_HEADER_WORD_COUNT + slot := event,
          TRACE_HEADER_WORD_COUNT + TRACE_EVENT_CAPACITY + slot := ret,
          2 := event, 3 := ret, 4 := event_count + 1]\<rparr>)"

definition StorePayloadTraceResult :: "desc \<Rightarrow> u32 \<Rightarrow> 'w kstate \<Rightarrow> 'w kstate" where
  "StorePayloadTraceResult d r s =
    (if \<not> PayloadTraceWords d then s else s\<lparr>ks_trace := (ks_trace s)[15 := r]\<rparr>)"

definition FinishPayloadTrace :: "desc \<Rightarrow> u32 \<Rightarrow> 'w kstate \<Rightarrow> u32 \<times> 'w kstate" where
  "FinishPayloadTrace d r s = (r, TracePayloadEvent d EVENT_KERNEL_EXIT 0 (StorePayloadTraceResult d r s))"

section \<open>Modes\<close>

definition PayloadBatchModeEnabled :: "desc \<Rightarrow> bool" where
  "PayloadBatchModeEnabled d \<longleftrightarrow> pd_reserved2_0 d \<noteq> BATCH_MODE_DISABLED"

definition PayloadRecvDirectOutputEnabled :: "desc \<Rightarrow> bool" where
  "PayloadRecvDirectOutputEnabled d \<longleftrightarrow> pd_reserved2_1 d = RECV_PATH_DIRECT_OUTPUT"

definition PayloadWritePathEnabled :: "desc \<Rightarrow> bool" where
  "PayloadWritePathEnabled d \<longleftrightarrow> pd_completion_mode d AND FLAG_WRITE_PATH \<noteq> 0"

definition PayloadWriteWithNotifyEnabled :: "desc \<Rightarrow> bool" where
  "PayloadWriteWithNotifyEnabled d \<longleftrightarrow> pd_completion_mode d AND FLAG_WRITE_WITH_NOTIFY \<noteq> 0"

definition KernelCompletionMode :: "desc \<Rightarrow> u32" where
  "KernelCompletionMode d = pd_completion_mode d AND COMPLETION_MODE_MASK"

definition PayloadSkipCommAcquire :: "desc \<Rightarrow> bool" where
  "PayloadSkipCommAcquire d \<longleftrightarrow>
     pd_completion_mode d AND (FLAG_SKIP_COMM_ACQUIRE OR FLAG_CHANNEL_HANDLE_BINDING) \<noteq> 0"

definition CanRecordPayloadCompletionNotify :: "desc \<Rightarrow> bool" where
  "CanRecordPayloadCompletionNotify d \<longleftrightarrow> HasPayloadDescHeader d \<and>
     pd_thread_notify_mode d = THREAD_NOTIFY_HOST_AICPU \<and> pd_aicpu_thread d \<noteq> 0 \<and>
     pd_cpu_thread_on_aicpu d \<noteq> 0"

text \<open>The call that wakes the host thread.\<close>

definition host_notify :: "desc \<Rightarrow> hcomm_call" where
  "host_notify d = HcommThreadNotifyRecordOnThread (pd_aicpu_thread d) (pd_cpu_thread_on_aicpu d) 0"

definition BestEffortPayloadCompletionNotify :: "'w hcomm_env \<Rightarrow> desc \<Rightarrow> 'w kstate \<Rightarrow> 'w kstate" where
  "BestEffortPayloadCompletionNotify env d s =
    (if \<not> CanRecordPayloadCompletionNotify d then s else snd (hcall env (host_notify d) s))"

section \<open>The copy body\<close>

text \<open>A probe after a successful primitive.\<close>

datatype probe = Sample nat u64 | NotSampled nat

fun run_probe :: "'w hcomm_env \<Rightarrow> desc \<Rightarrow> probe \<Rightarrow> 'w kstate \<Rightarrow> 'w kstate" where
  "run_probe env d (Sample i ptr) s = StorePayloadDataProbe env d i ptr s"
| "run_probe env d (NotSampled i) s = StorePayloadDataProbeNotSampled d i s"

text \<open>A primitive with its pending status, its two trace events and its call; no call stands for the
  build without either write-with-notify primitive, where the return value is \<open>-1\<close>.\<close>

record stage =
  sg_pending :: u32
  sg_enter :: u32
  sg_done :: u32
  sg_call :: "hcomm_call option"
  sg_after :: "probe list"

definition traced_call :: "'w hcomm_env \<Rightarrow> desc \<Rightarrow> u32 \<Rightarrow> u32 \<Rightarrow> hcomm_call option \<Rightarrow> 'w kstate \<Rightarrow>
    u32 \<times> 'w kstate" where
  "traced_call env d enter done call s =
    (let s = TracePayloadEvent d enter minus_one s;
         (ret, s) = (case call of None \<Rightarrow> (minus_one, s) | Some c \<Rightarrow> hcall env c s)
     in (ret, TracePayloadEvent d done ret s))"

definition run_primitive :: "'w hcomm_env \<Rightarrow> desc \<Rightarrow> stage \<Rightarrow> 'w kstate \<Rightarrow> u32 \<times> 'w kstate" where
  "run_primitive env d g s =
    (case traced_call env d (sg_enter g) (sg_done g) (sg_call g) (BeginPayloadPrimitive d (sg_pending g) s) of
       (ret, s) \<Rightarrow> (ret, if ret \<noteq> 0 then StorePayloadPrimitiveRet d ret s else s))"

fun run_stages :: "'w hcomm_env \<Rightarrow> desc \<Rightarrow> stage list \<Rightarrow> 'w kstate \<Rightarrow> u32 \<times> 'w kstate" where
  "run_stages env d [] s = (STATUS_SUCCESS, s)"
| "run_stages env d (g # gs) s =
    (case run_primitive env d g s of
       (ret, s) \<Rightarrow> if ret \<noteq> 0 then (sg_pending g, s)
                  else run_stages env d gs (fold (run_probe env d) (sg_after g) s))"

abbreviation mk_stage :: "u32 \<Rightarrow> u32 \<Rightarrow> u32 \<Rightarrow> hcomm_call \<Rightarrow> probe list \<Rightarrow> stage" where
  "mk_stage pending enter done call after \<equiv> \<lparr>sg_pending = pending, sg_enter = enter, sg_done = done,
     sg_call = Some call, sg_after = after\<rparr>"

definition write_stage :: "'w hcomm_env \<Rightarrow> desc \<Rightarrow> stage" where
  "write_stage env d =
    (let thread = pd_aicpu_thread d; channel = pd_channel_handle d; remote = pd_remote_hccl_buffer d;
         local = pd_local_hccl_buffer d; bts = pd_bytes d; ready = pd_ready_notify_idx d in
     if PayloadWriteWithNotifyEnabled d then
       (if he_write_with_notify env then
          mk_stage STATUS_REMOTE_WRITE_FAILED EVENT_SEND_REMOTE_WRITE_NOTIFY_ENTER
            EVENT_SEND_REMOTE_WRITE_NOTIFY_DONE
            (HcommWriteWithNotifyOnThread thread channel remote local bts ready) [NotSampled 16]
        else if he_write_with_notify_nbi env then
          mk_stage STATUS_REMOTE_WRITE_FAILED EVENT_SEND_REMOTE_WRITE_NOTIFY_NBI_ENTER
            EVENT_SEND_REMOTE_WRITE_NOTIFY_NBI_DONE
            (HcommWriteWithNotifyNbiOnThread thread channel remote local bts ready) [NotSampled 16]
        else \<lparr>sg_pending = STATUS_REMOTE_WRITE_FAILED, sg_enter = EVENT_SEND_REMOTE_WRITE_NOTIFY_ENTER,
          sg_done = EVENT_SEND_REMOTE_WRITE_NOTIFY_DONE, sg_call = None, sg_after = [NotSampled 16]\<rparr>)
     else mk_stage STATUS_REMOTE_WRITE_FAILED EVENT_SEND_REMOTE_WRITE_ENTER EVENT_SEND_REMOTE_WRITE_DONE
       (HcommWriteOnThread thread channel remote local bts) [NotSampled 16])"

definition fence_stage :: "'w hcomm_env \<Rightarrow> desc \<Rightarrow> u32 \<Rightarrow> u32 \<Rightarrow> stage list" where
  "fence_stage env d enter done =
    (if KernelCompletionMode d = COMPLETION_CHANNEL_DRAIN
     then [mk_stage STATUS_CHANNEL_DRAIN_FAILED enter done
       (HcommChannelFenceCompat env (pd_aicpu_thread d) (pd_channel_handle d)) []] else [])"

definition send_stages :: "'w hcomm_env \<Rightarrow> desc \<Rightarrow> stage list" where
  "send_stages env d =
    (let thread = pd_aicpu_thread d; channel = pd_channel_handle d; user = pd_user_buffer d;
         local = pd_local_hccl_buffer d in
     [mk_stage STATUS_LOCAL_COPY_FAILED EVENT_SEND_LOCAL_COPY_ENTER EVENT_SEND_LOCAL_COPY_DONE
        (HcommLocalCopyOnThread thread local user (pd_bytes d)) [NotSampled 15, Sample 16 local]] @
     (if PayloadWritePathEnabled d
      then write_stage env d # fence_stage env d EVENT_SEND_CHANNEL_FENCE_ENTER EVENT_SEND_CHANNEL_FENCE_DONE
      else []) @
     (if \<not> PayloadWriteWithNotifyEnabled d
      then [mk_stage STATUS_READY_NOTIFY_RECORD_FAILED EVENT_SEND_READY_RECORD_ENTER
        EVENT_SEND_READY_RECORD_DONE
        (HcommChannelNotifyRecordOnThread thread channel (pd_ready_notify_idx d)) []] else []) @
     [mk_stage STATUS_DONE_NOTIFY_WAIT_FAILED EVENT_SEND_DONE_WAIT_ENTER EVENT_SEND_DONE_WAIT_DONE
        (HcommChannelNotifyWaitOnThread thread channel (pd_done_notify_idx d) (pd_timeout_sec d)) []])"

definition recv_stages :: "'w hcomm_env \<Rightarrow> desc \<Rightarrow> stage list" where
  "recv_stages env d =
    (let thread = pd_aicpu_thread d; channel = pd_channel_handle d; user = pd_user_buffer d;
         local = pd_local_hccl_buffer d; remote = pd_remote_hccl_buffer d;
         read_target = (if PayloadRecvDirectOutputEnabled d then user else local) in
     [mk_stage STATUS_READY_NOTIFY_WAIT_FAILED EVENT_RECV_READY_WAIT_ENTER EVENT_RECV_READY_WAIT_DONE
        (HcommChannelNotifyWaitOnThread thread channel (pd_ready_notify_idx d) (pd_timeout_sec d))
        [Sample 15 remote, Sample 16 local]] @
     (if \<not> PayloadWritePathEnabled d
      then mk_stage STATUS_REMOTE_READ_FAILED EVENT_RECV_REMOTE_READ_ENTER EVENT_RECV_REMOTE_READ_DONE
          (HcommReadOnThread thread channel read_target remote (pd_bytes d)) [Sample 16 read_target] #
        fence_stage env d EVENT_RECV_CHANNEL_FENCE_ENTER EVENT_RECV_CHANNEL_FENCE_DONE
      else []) @
     (if PayloadWritePathEnabled d \<or> \<not> PayloadRecvDirectOutputEnabled d
      then [mk_stage STATUS_OUTPUT_COPY_FAILED EVENT_RECV_OUTPUT_COPY_ENTER EVENT_RECV_OUTPUT_COPY_DONE
        (HcommLocalCopyOnThread thread user local (pd_bytes d)) []] else []) @
     [mk_stage STATUS_DONE_NOTIFY_RECORD_FAILED EVENT_RECV_DONE_RECORD_ENTER EVENT_RECV_DONE_RECORD_DONE
        (HcommChannelNotifyRecordOnThread thread channel (pd_done_notify_idx d)) []])"

definition RunPayloadCopyBody :: "'w hcomm_env \<Rightarrow> desc \<Rightarrow> 'w kstate \<Rightarrow> u32 \<times> 'w kstate" where
  "RunPayloadCopyBody env d s =
    (if pd_role d = NOTIFY_ROLE_SEND then run_stages env d (send_stages env d) s
     else if pd_role d = NOTIFY_ROLE_RECV then run_stages env d (recv_stages env d) s
     else (STATUS_INVALID_ARGUMENT, s))"

section \<open>The kernel\<close>

text \<open>A primitive around the body that runs only while the result is still success: the result
  becomes the given status when it fails.\<close>

definition open_phase :: "'w hcomm_env \<Rightarrow> desc \<Rightarrow> stage \<Rightarrow> 'w kstate \<Rightarrow> u32 \<times> 'w kstate" where
  "open_phase env d g s = (case run_primitive env d g s of
     (ret, s) \<Rightarrow> (if ret \<noteq> 0 then sg_pending g else STATUS_SUCCESS, s))"

text \<open>A primitive after the body that runs whatever the result is; it marks its pending status and
  reports its own failure only if everything before succeeded.\<close>

definition close_phase :: "'w hcomm_env \<Rightarrow> desc \<Rightarrow> stage \<Rightarrow> u32 \<Rightarrow> 'w kstate \<Rightarrow> u32 \<times> 'w kstate" where
  "close_phase env d g result s =
    (let s = (if result = STATUS_SUCCESS then BeginPayloadPrimitive d (sg_pending g) s else s) in
     case traced_call env d (sg_enter g) (sg_done g) (sg_call g) s of
       (ret, s) \<Rightarrow> if ret \<noteq> 0 \<and> result = STATUS_SUCCESS
                  then (sg_pending g, StorePayloadPrimitiveRet d ret s) else (result, s))"

abbreviation acquire_stage :: "desc \<Rightarrow> stage" where
  "acquire_stage d \<equiv> mk_stage STATUS_COMM_ACQUIRE_FAILED EVENT_COMM_ACQUIRE_ENTER EVENT_COMM_ACQUIRE_DONE
     (HcommAcquireComm (pd_comm_name d)) []"
abbreviation batch_start_stage :: "desc \<Rightarrow> stage" where
  "batch_start_stage d \<equiv> mk_stage STATUS_BATCH_START_FAILED EVENT_BATCH_START_ENTER EVENT_BATCH_START_DONE
     (HcommBatchModeStart (pd_batch_tag d)) []"
abbreviation host_wait_stage :: "desc \<Rightarrow> stage" where
  "host_wait_stage d \<equiv> mk_stage STATUS_THREAD_NOTIFY_WAIT_FAILED EVENT_THREAD_NOTIFY_WAIT_ENTER
     EVENT_THREAD_NOTIFY_WAIT_DONE
     (HcommThreadNotifyWaitOnThread (pd_aicpu_thread d) 0 (pd_timeout_sec d)) []"
abbreviation host_record_stage :: "desc \<Rightarrow> stage" where
  "host_record_stage d \<equiv> mk_stage STATUS_THREAD_NOTIFY_RECORD_FAILED EVENT_THREAD_NOTIFY_RECORD_ENTER
     EVENT_THREAD_NOTIFY_RECORD_DONE (host_notify d) []"
abbreviation batch_end_stage :: "desc \<Rightarrow> stage" where
  "batch_end_stage d \<equiv> mk_stage STATUS_BATCH_END_FAILED EVENT_BATCH_END_ENTER EVENT_BATCH_END_DONE
     (HcommBatchModeEnd (pd_batch_tag d)) []"
abbreviation release_stage :: "desc \<Rightarrow> stage" where
  "release_stage d \<equiv> mk_stage STATUS_COMM_RELEASE_FAILED EVENT_COMM_RELEASE_ENTER EVENT_COMM_RELEASE_DONE
     (HcommReleaseComm (pd_comm_name d)) []"

definition use_thread_notify :: "desc \<Rightarrow> bool" where
  "use_thread_notify d \<longleftrightarrow> pd_thread_notify_mode d = THREAD_NOTIFY_HOST_AICPU"

text \<open>From the batch start to the end of the copy body (lines 583 to 617): the result, whether a
  batch was started, and the state.\<close>

definition batch_and_copy :: "'w hcomm_env \<Rightarrow> desc \<Rightarrow> 'w kstate \<Rightarrow> u32 \<times> bool \<times> 'w kstate" where
  "batch_and_copy env d s =
    (let (r, batch_started, s) =
           (if PayloadBatchModeEnabled d
            then (case open_phase env d (batch_start_stage d) s of (r, s) \<Rightarrow> (r, r = STATUS_SUCCESS, s))
            else (STATUS_SUCCESS, False, s));
         (r, s) = (if r = STATUS_SUCCESS \<and> use_thread_notify d then open_phase env d (host_wait_stage d) s
                   else (r, s));
         (r, s) = (if r = STATUS_SUCCESS then RunPayloadCopyBody env d s else (r, s))
     in (r, batch_started, s))"

text \<open>From the exit probes to the end of the batch (lines 618 to 661).\<close>

definition notify_and_end :: "'w hcomm_env \<Rightarrow> desc \<Rightarrow> u32 \<Rightarrow> bool \<Rightarrow> 'w kstate \<Rightarrow> u32 \<times> 'w kstate" where
  "notify_and_end env d r batch_started s =
    (let s = StorePayloadDataProbe env d 12 (pd_local_hccl_buffer d) s;
         s = StorePayloadDataProbe env d 13 (pd_user_buffer d) s;
         s = (if r \<noteq> STATUS_SUCCESS then StorePayloadStatus d r s else s);
         (r, s) = (if use_thread_notify d
                   then (case close_phase env d (host_record_stage d) r s of
                           (r', s) \<Rightarrow> (r', if r' \<noteq> r then StorePayloadStatus d r' s else s))
                   else (r, s));
         (r, s) = (if batch_started then close_phase env d (batch_end_stage d) r s else (r, s))
     in (r, StorePayloadStatus d r s))"

text \<open>The release of the communicator and the final stores (lines 662 to 684).\<close>

definition release_and_finish :: "'w hcomm_env \<Rightarrow> desc \<Rightarrow> u32 \<Rightarrow> 'w kstate \<Rightarrow> u32 \<times> 'w kstate" where
  "release_and_finish env d r s =
    (if PayloadSkipCommAcquire d then
       FinishPayloadTrace d r
         (if r = STATUS_SUCCESS then StorePayloadPrimitiveRet d 0 (StorePayloadStatus d STATUS_SUCCESS s)
          else s)
     else
       (let s = (if r = STATUS_SUCCESS then StorePayloadPrimitiveRet d 0 s else s) in
        case close_phase env d (release_stage d) r s of
          (r', s) \<Rightarrow>
            if r' \<noteq> r then FinishPayloadTrace d r' (StorePayloadStatus d r' s)
            else FinishPayloadTrace d r
              (if r = STATUS_SUCCESS then StorePayloadPrimitiveRet d 0 (StorePayloadStatus d STATUS_SUCCESS s)
               else s)))"

definition RunPayloadCopy :: "'w hcomm_env \<Rightarrow> desc \<Rightarrow> 'w kstate \<Rightarrow> u32 \<times> 'w kstate" where
  "RunPayloadCopy env d s =
    (let s = InitPayloadTrace d s;
         s = TracePayloadEvent d EVENT_KERNEL_ENTER minus_one s;
         reason = validate_reason d in
     if reason \<noteq> VALIDATE_OK then
       FinishPayloadTrace d STATUS_INVALID_ARGUMENT
         (BestEffortPayloadCompletionNotify env d
           (StorePayloadValidationReason d reason (StorePayloadStatus d STATUS_INVALID_ARGUMENT s)))
     else
       let s = StorePayloadEcho d (StorePayloadStatus d STATUS_HCOMM_ERROR s);
           s = StorePayloadDataProbe env d 10 (pd_user_buffer d) s;
           s = StorePayloadDataProbe env d 11 (pd_local_hccl_buffer d) s;
           s = StorePayloadDataProbeSampleBytes d s;
           (ret, s) = (if PayloadSkipCommAcquire d then (0, s) else run_primitive env d (acquire_stage d) s)
       in if ret \<noteq> 0 then
            FinishPayloadTrace d STATUS_COMM_ACQUIRE_FAILED
              (BestEffortPayloadCompletionNotify env d (StorePayloadStatus d STATUS_COMM_ACQUIRE_FAILED s))
          else
            (case batch_and_copy env d s of
               (r, batch_started, s) \<Rightarrow>
                 (case notify_and_end env d r batch_started s of
                    (r, s) \<Rightarrow> release_and_finish env d r s)))"

definition FlumeHcommPayloadCopyDirectAclrtKernelV3 ::
  "'w hcomm_env \<Rightarrow> desc option \<Rightarrow> 'w kstate \<Rightarrow> u32 \<times> 'w kstate" where
  "FlumeHcommPayloadCopyDirectAclrtKernelV3 env param s =
    (case param of None \<Rightarrow> (STATUS_INVALID_ARGUMENT, s) | Some d \<Rightarrow> RunPayloadCopy env d s)"

section \<open>What the stores leave alone\<close>

named_theorems kernel_frame "stores of status and trace words leave the rest of the state alone"

lemma StorePayloadStatus_frame [kernel_frame]:
  "ks_calls (StorePayloadStatus d v s) = ks_calls s" "ks_world (StorePayloadStatus d v s) = ks_world s"
  "length (ks_status (StorePayloadStatus d v s)) = length (ks_status s)"
  by (simp_all add: StorePayloadStatus_def Let_def)

lemma StorePayloadPrimitiveRet_frame [kernel_frame]:
  "ks_calls (StorePayloadPrimitiveRet d v s) = ks_calls s"
  "ks_world (StorePayloadPrimitiveRet d v s) = ks_world s"
  "length (ks_status (StorePayloadPrimitiveRet d v s)) = length (ks_status s)"
  "ks_status (StorePayloadPrimitiveRet d v s) ! 0 = ks_status s ! 0"
  "ks_trace (StorePayloadPrimitiveRet d v s) ! 16 = ks_trace s ! 16"
  by (simp_all add: StorePayloadPrimitiveRet_def Let_def)

lemma StorePayloadValidationReason_frame [kernel_frame]:
  "ks_calls (StorePayloadValidationReason d v s) = ks_calls s"
  "length (ks_status (StorePayloadValidationReason d v s)) = length (ks_status s)"
  "ks_status (StorePayloadValidationReason d v s) ! 0 = ks_status s ! 0"
  "ks_trace (StorePayloadValidationReason d v s) ! 16 = ks_trace s ! 16"
  by (simp_all add: StorePayloadValidationReason_def Let_def)

lemma BeginPayloadPrimitive_frame [kernel_frame]:
  "ks_calls (BeginPayloadPrimitive d v s) = ks_calls s" "ks_world (BeginPayloadPrimitive d v s) = ks_world s"
  "length (ks_status (BeginPayloadPrimitive d v s)) = length (ks_status s)"
  by (simp_all add: BeginPayloadPrimitive_def kernel_frame)

lemma probe_frame [kernel_frame]:
  "ks_calls (StorePayloadDataProbe env d i p s) = ks_calls s"
  "ks_world (StorePayloadDataProbe env d i p s) = ks_world s"
  "ks_trace (StorePayloadDataProbe env d i p s) = ks_trace s"
  "length (ks_status (StorePayloadDataProbe env d i p s)) = length (ks_status s)"
  "ks_calls (StorePayloadDataProbeNotSampled d i s) = ks_calls s"
  "ks_trace (StorePayloadDataProbeNotSampled d i s) = ks_trace s"
  "length (ks_status (StorePayloadDataProbeNotSampled d i s)) = length (ks_status s)"
  "ks_calls (StorePayloadDataProbeSampleBytes d s) = ks_calls s"
  "ks_trace (StorePayloadDataProbeSampleBytes d s) = ks_trace s"
  "length (ks_status (StorePayloadDataProbeSampleBytes d s)) = length (ks_status s)"
  "ks_calls (StorePayloadEcho d s) = ks_calls s" "ks_trace (StorePayloadEcho d s) = ks_trace s"
  "length (ks_status (StorePayloadEcho d s)) = length (ks_status s)"
  by (simp_all add: StorePayloadDataProbe_def StorePayloadDataProbeNotSampled_def
      StorePayloadDataProbeSampleBytes_def StorePayloadEcho_def Let_def)

lemma run_probe_frame [kernel_frame]:
  "ks_calls (run_probe env d p s) = ks_calls s" "ks_trace (run_probe env d p s) = ks_trace s"
  "length (ks_status (run_probe env d p s)) = length (ks_status s)"
  by (cases p; simp add: kernel_frame)+

lemma run_probes_frame [kernel_frame]:
  "ks_calls (fold (run_probe env d) ps s) = ks_calls s"
  "ks_trace (fold (run_probe env d) ps s) = ks_trace s"
  "length (ks_status (fold (run_probe env d) ps s)) = length (ks_status s)"
  by (induction ps arbitrary: s; simp add: kernel_frame)+

lemma trace_frame [kernel_frame]:
  "ks_calls (InitPayloadTrace d s) = ks_calls s" "ks_world (InitPayloadTrace d s) = ks_world s"
  "ks_status (InitPayloadTrace d s) = ks_status s"
  "ks_calls (TracePayloadEvent d e r s) = ks_calls s" "ks_world (TracePayloadEvent d e r s) = ks_world s"
  "ks_status (TracePayloadEvent d e r s) = ks_status s"
  "ks_calls (StorePayloadTraceResult d r s) = ks_calls s"
  "ks_status (StorePayloadTraceResult d r s) = ks_status s"
  by (simp_all add: InitPayloadTrace_def TracePayloadEvent_def StorePayloadTraceResult_def Let_def)

text \<open>The echo of the descriptor in the status words 2 to 9.\<close>

definition echoed :: "desc \<Rightarrow> 'w kstate \<Rightarrow> bool" where
  "echoed d s \<longleftrightarrow> ks_status s ! 2 = pd_role d \<and> ks_status s ! 3 = pd_peer_rank d \<and>
     ks_status s ! 4 = low32 (pd_bytes d) \<and> ks_status s ! 5 = high32 (pd_bytes d) \<and>
     ks_status s ! 6 = pd_local_rank d \<and> ks_status s ! 7 = pd_completion_mode d \<and>
     ks_status s ! 8 = low32 (desc_fingerprint d) \<and> ks_status s ! 9 = high32 (desc_fingerprint d)"

fun probe_index :: "probe \<Rightarrow> nat" where
  "probe_index (Sample i p) = i"
| "probe_index (NotSampled i) = i"

lemma echoed_frame [kernel_frame]:
  "echoed d (StorePayloadStatus d v s) = echoed d s" "echoed d (StorePayloadPrimitiveRet d v s) = echoed d s"
  "echoed d (StorePayloadTraceResult d v s) = echoed d s"
  "echoed d (StorePayloadValidationReason d v s) = echoed d s"
  "echoed d (StorePayloadDataProbeSampleBytes d s) = echoed d s"
  "echoed d (TracePayloadEvent d e r s) = echoed d s" "echoed d (InitPayloadTrace d s) = echoed d s"
  by (simp_all add: echoed_def StorePayloadStatus_def StorePayloadPrimitiveRet_def StorePayloadTraceResult_def
      StorePayloadValidationReason_def StorePayloadDataProbeSampleBytes_def TracePayloadEvent_def
      InitPayloadTrace_def Let_def)

lemma echoed_begin [kernel_frame]: "echoed d (BeginPayloadPrimitive d v s) = echoed d s"
  by (simp add: BeginPayloadPrimitive_def kernel_frame)

lemma echoed_probe [kernel_frame]:
  assumes "10 \<le> i"
  shows "echoed d (StorePayloadDataProbe env d i p s) = echoed d s"
    "echoed d (StorePayloadDataProbeNotSampled d i s) = echoed d s"
  using assms by (simp_all add: echoed_def StorePayloadDataProbe_def StorePayloadDataProbeNotSampled_def)

lemma echoed_probes [kernel_frame]:
  "\<forall>p\<in>set ps. 10 \<le> probe_index p \<Longrightarrow> echoed d (fold (run_probe env d) ps s) = echoed d s"
proof (induction ps arbitrary: s)
  case (Cons p ps)
  then show ?case by (cases p) (simp_all add: echoed_probe)
qed simp

lemma StorePayloadEcho_keeps:
  assumes "echoed d s"
  shows "echoed d (StorePayloadEcho d s)"
proof -
  have e: "pd_role d = ks_status s ! 2" "pd_peer_rank d = ks_status s ! 3" "low32 (pd_bytes d) = ks_status s ! 4"
    "high32 (pd_bytes d) = ks_status s ! 5" "pd_local_rank d = ks_status s ! 6"
    "pd_completion_mode d = ks_status s ! 7" "low32 (desc_fingerprint d) = ks_status s ! 8"
    "high32 (desc_fingerprint d) = ks_status s ! 9"
    using assms by (simp_all add: echoed_def)
  have "StorePayloadEcho d s = s" unfolding StorePayloadEcho_def e by simp
  with assms show ?thesis by simp
qed

lemma StorePayloadEcho_echoed:
  "probes_enabled d \<Longrightarrow> 17 \<le> length (ks_status s) \<Longrightarrow> echoed d (StorePayloadEcho d s)"
  by (simp add: StorePayloadEcho_def echoed_def nth_list_update)

section \<open>The trace array holds the event log\<close>

definition traced :: "desc \<Rightarrow> (u32 \<times> u32) list \<Rightarrow> 'w kstate \<Rightarrow> bool" where
  "traced d log s \<longleftrightarrow>
    length (ks_trace s) = 82 \<and> trace_live (ks_trace s) \<and> ks_trace s ! 4 = of_nat (length log) \<and>
    ks_trace s ! 5 = pd_role d \<and> ks_trace s ! 6 = pd_local_rank d \<and> ks_trace s ! 7 = pd_peer_rank d \<and>
    ks_trace s ! 8 = low32 (pd_bytes d) \<and> ks_trace s ! 9 = high32 (pd_bytes d) \<and>
    ks_trace s ! 10 = ucast (pd_reserved2_0 d) \<and> ks_trace s ! 11 = ucast (pd_reserved2_1 d) \<and>
    ks_trace s ! 12 = pd_completion_mode d \<and> ks_trace s ! 13 = pd_ready_notify_idx d \<and>
    ks_trace s ! 14 = pd_done_notify_idx d \<and>
    (log \<noteq> [] \<longrightarrow> ks_trace s ! 2 = fst (last log) \<and> ks_trace s ! 3 = snd (last log)) \<and>
    (length log \<le> TRACE_EVENT_CAPACITY \<longrightarrow> (\<forall>i<length log.
       ks_trace s ! (18 + i) = fst (log ! i) \<and> ks_trace s ! (50 + i) = snd (log ! i)))"

lemma traced_cong: "ks_trace s' = ks_trace s \<Longrightarrow> traced d log s' = traced d log s"
  by (simp add: traced_def)

lemma traced_update:
  assumes "traced d log s" "k = 15 \<or> k = 16 \<or> k = 17" "ks_trace s' = (ks_trace s)[k := v]"
  shows "traced d log s'"
proof -
  have "(ks_trace s)[k := v] ! i = ks_trace s ! i" if "i < 15 \<or> 18 \<le> i" for i
    using that assms(2) by (cases "i = k") auto
  then show ?thesis using assms(1) unfolding traced_def assms(3) trace_live_def by simp
qed

lemma traced_upd [simp]:
  "traced d log (s\<lparr>ks_status := x\<rparr>) = traced d log s" "traced d log (s\<lparr>ks_world := w\<rparr>) = traced d log s"
  "traced d log (s\<lparr>ks_calls := c\<rparr>) = traced d log s"
  by (simp_all add: traced_def)

lemma traced_upd_result:
  "traced d log s \<Longrightarrow> traced d log (s\<lparr>ks_trace := (ks_trace s)[15 := v]\<rparr>)"
  "traced d log s \<Longrightarrow> traced d log (s\<lparr>ks_trace := (ks_trace s)[16 := v]\<rparr>)"
  "traced d log s \<Longrightarrow> traced d log (s\<lparr>ks_trace := (ks_trace s)[17 := v]\<rparr>)"
  "traced d log s \<Longrightarrow> traced d log (s\<lparr>ks_status := x, ks_trace := (ks_trace s)[16 := v]\<rparr>)"
  "traced d log s \<Longrightarrow> traced d log (s\<lparr>ks_status := x, ks_trace := (ks_trace s)[17 := v]\<rparr>)"
  by (erule traced_update [of _ _ _ 15] traced_update [of _ _ _ 16] traced_update [of _ _ _ 17]; simp)+

lemma traced_stores [kernel_frame]:
  "traced d log s \<Longrightarrow> traced d log (StorePayloadStatus d v s)"
  "traced d log s \<Longrightarrow> traced d log (StorePayloadPrimitiveRet d v s)"
  "traced d log s \<Longrightarrow> traced d log (StorePayloadTraceResult d v s)"
  "traced d log s \<Longrightarrow> traced d log (StorePayloadValidationReason d v s)"
  by (simp_all add: StorePayloadStatus_def StorePayloadPrimitiveRet_def StorePayloadTraceResult_def
      StorePayloadValidationReason_def Let_def traced_upd_result)

lemma traced_begin [kernel_frame]: "traced d log s \<Longrightarrow> traced d log (BeginPayloadPrimitive d v s)"
  by (simp add: BeginPayloadPrimitive_def kernel_frame)

lemma traced_probes [kernel_frame]:
  "traced d log (StorePayloadDataProbe env d i p s) = traced d log s"
  "traced d log (StorePayloadDataProbeSampleBytes d s) = traced d log s"
  "traced d log (StorePayloadEcho d s) = traced d log s"
  "traced d log (fold (run_probe env d) ps s) = traced d log s"
  by (rule traced_cong, simp add: kernel_frame)+

lemma traced_init:
  assumes "PayloadTraceWords d" "length (ks_trace s) = 82"
  shows "traced d [] (InitPayloadTrace d s)"
proof -
  obtain x where x: "overwrite 0 (replicate (unat TRACE_WORD_COUNT) minus_one) (ks_trace s) = x" "length x = 82"
    using assms(2) by (simp only: overwrite_def length_append length_take length_drop length_replicate) simp
  have "length (ks_trace (InitPayloadTrace d s)) = 82 \<and> trace_live (ks_trace (InitPayloadTrace d s))"
    unfolding InitPayloadTrace_def x(1) trace_live_def using assms(1) x(2) by simp
  then show ?thesis
    unfolding traced_def InitPayloadTrace_def x(1) using assms(1) x(2) by simp
qed

text \<open>The trace is a circular buffer of 32 events; as long as it is not full, recording an event
  appends it to the log.\<close>

lemma traced_event:
  assumes "PayloadTraceWords d" "traced d log s"
  shows "traced d (log @ [(e, r)]) (TracePayloadEvent d e r s)"
proof -
  let ?t = "ks_trace s" and ?n = "length log"
  let ?k = "unat (?t ! 4) mod 32"
  let ?u = "?t[18 + ?k := e, 50 + ?k := r, 2 := e, 3 := r, 4 := ?t ! 4 + 1]"
  have t: "length ?t = 82" "trace_live ?t" "?t ! 4 = of_nat ?n" using assms(2) by (auto simp: traced_def)
  have u: "ks_trace (TracePayloadEvent d e r s) = ?u"
    using assms(1) t(2) by (simp add: TracePayloadEvent_def Let_def)
  have hdr: "?u ! i = ?t ! i" if "i < 18" "i \<noteq> 2" "i \<noteq> 3" "i \<noteq> 4" for i using that by simp
  have new: "?u ! 2 = e" "?u ! 3 = r" "?u ! 4 = of_nat (Suc ?n)" using t by simp_all
  have ev: "?u ! (18 + i) = fst ((log @ [(e, r)]) ! i) \<and> ?u ! (50 + i) = snd ((log @ [(e, r)]) ! i)"
    if "i < Suc ?n" "Suc ?n \<le> 32" for i
  proof -
    have "unat (of_nat ?n :: u32) = ?n" using that(2) by (simp add: unat_of_nat)
    then have k: "?k = ?n" using that(2) t(3) by simp
    have old: "?t ! (18 + j) = fst (log ! j) \<and> ?t ! (50 + j) = snd (log ! j)" if "j < ?n" for j
      using assms(2) that \<open>Suc ?n \<le> 32\<close> by (simp add: traced_def)
    show ?thesis
      unfolding k using old [of i] that t(1) by (cases "i = ?n") (auto simp: nth_append nth_list_update)
  qed
  show ?thesis
    using assms(2) hdr new ev unfolding traced_def u trace_live_def by simp
qed


section \<open>Steps of the kernel\<close>

text \<open>A part of the kernel makes the calls \<open>cs\<close> and records the events \<open>log\<close>.\<close>

definition kstep :: "desc \<Rightarrow> (hcomm_call \<times> u32) list \<Rightarrow> (u32 \<times> u32) list \<Rightarrow> 'w kstate \<Rightarrow> 'w kstate \<Rightarrow> bool" where
  "kstep d cs log s s' \<longleftrightarrow>
    ks_calls s' = ks_calls s @ cs \<and> length (ks_status s') = length (ks_status s) \<and>
    (echoed d s \<longrightarrow> echoed d s') \<and>
    (PayloadTraceWords d \<longrightarrow> (\<forall>l. traced d l s \<longrightarrow> traced d (l @ log) s'))"

named_theorems ksteps "the stores and the trace as steps"

lemma kstep_refl [ksteps, simp]: "kstep d [] [] s s"
  by (simp add: kstep_def)

lemma kstep_trans:
  "kstep d cs log s s' \<Longrightarrow> kstep d cs' log' s' s'' \<Longrightarrow> kstep d (cs @ cs') (log @ log') s s''"
  unfolding kstep_def by (auto simp del: append_assoc simp: append_assoc [symmetric])

lemma kstep_stores [ksteps]:
  "kstep d [] [] s (StorePayloadStatus d v s)" "kstep d [] [] s (StorePayloadPrimitiveRet d v s)"
  "kstep d [] [] s (StorePayloadTraceResult d v s)" "kstep d [] [] s (StorePayloadValidationReason d v s)"
  "kstep d [] [] s (BeginPayloadPrimitive d v s)"
  "10 \<le> i \<Longrightarrow> kstep d [] [] s (StorePayloadDataProbe env d i p s)"
  "kstep d [] [] s (StorePayloadDataProbeSampleBytes d s)" "kstep d [] [] s (StorePayloadEcho d s)"
  "\<forall>p\<in>set ps. 10 \<le> probe_index p \<Longrightarrow> kstep d [] [] s (fold (run_probe env d) ps s)"
  by (simp_all add: kstep_def kernel_frame StorePayloadEcho_keeps)

lemma kstep_event [ksteps]: "kstep d [] [(e, r)] s (TracePayloadEvent d e r s)"
  by (simp add: kstep_def kernel_frame traced_event)

lemma kstep_hcall: "hcall env c s = (r, s') \<Longrightarrow> kstep d [(c, r)] [] s s'"
  by (auto simp: kstep_def hcall_def echoed_def split: prod.splits)

lemma kstep_then_store: "kstep d cs log s s' \<Longrightarrow> kstep d [] [] s' s'' \<Longrightarrow> kstep d cs log s s''"
  using kstep_trans [of d cs log s s' "[]" "[]" s''] by simp

lemma kstep_after_store: "kstep d [] [] s s' \<Longrightarrow> kstep d cs log s' s'' \<Longrightarrow> kstep d cs log s s''"
  using kstep_trans [of d "[]" "[]" s s' cs log s''] by simp

definition stage_calls :: "stage \<Rightarrow> u32 \<Rightarrow> (hcomm_call \<times> u32) list" where
  "stage_calls g r = (case sg_call g of None \<Rightarrow> [] | Some c \<Rightarrow> [(c, r)])"

definition stage_log :: "stage \<Rightarrow> u32 \<Rightarrow> (u32 \<times> u32) list" where
  "stage_log g r = [(sg_enter g, minus_one), (sg_done g, r)]"

lemma kstep_traced_call:
  assumes "traced_call env d (sg_enter g) (sg_done g) (sg_call g) s = (r, s')"
  shows "kstep d (stage_calls g r) (stage_log g r) s s'" "sg_call g = None \<Longrightarrow> r = minus_one"
proof -
  let ?s1 = "TracePayloadEvent d (sg_enter g) minus_one s"
  obtain s2 where c: "(case sg_call g of None \<Rightarrow> (minus_one, ?s1) | Some c \<Rightarrow> hcall env c ?s1) = (r, s2)"
      and s': "s' = TracePayloadEvent d (sg_done g) r s2"
    using assms by (auto simp: traced_call_def Let_def split: prod.splits)
  have "kstep d (stage_calls g r) [] ?s1 s2"
    using c kstep_hcall by (auto simp: stage_calls_def split: option.splits)
  from kstep_trans [OF kstep_trans [OF kstep_event this] kstep_event]
  show "kstep d (stage_calls g r) (stage_log g r) s s'" by (simp add: s' stage_log_def)
  show "sg_call g = None \<Longrightarrow> r = minus_one" using c by simp
qed

lemma kstep_primitive:
  assumes "run_primitive env d g s = (r, s')"
  shows "kstep d (stage_calls g r) (stage_log g r) s s'" "sg_call g = None \<Longrightarrow> r = minus_one"
proof -
  obtain s2 where s2: "traced_call env d (sg_enter g) (sg_done g) (sg_call g)
      (BeginPayloadPrimitive d (sg_pending g) s) = (r, s2)"
      and s': "s' = (if r \<noteq> 0 then StorePayloadPrimitiveRet d r s2 else s2)"
    using assms by (auto simp: run_primitive_def split: prod.splits)
  have "kstep d [] [] s2 s'" by (simp add: s' ksteps)
  with kstep_traced_call(1) [OF s2] show "kstep d (stage_calls g r) (stage_log g r) s s'"
    by (blast intro: kstep_after_store kstep_then_store kstep_stores)
  show "sg_call g = None \<Longrightarrow> r = minus_one" using kstep_traced_call(2) [OF s2] .
qed

text \<open>A sequence of stages stops at the first failure with that stage's status; a successful one made
  every call and recorded every event.\<close>

definition stage_ok :: "stage \<Rightarrow> bool" where
  "stage_ok g \<longleftrightarrow> sg_pending g \<noteq> 0 \<and> (\<forall>p\<in>set (sg_after g). 10 \<le> probe_index p)"

lemma kstep_stages:
  assumes "run_stages env d gs s = (r, s')" "\<forall>g\<in>set gs. stage_ok g"
  shows "\<exists>cs log. kstep d cs log s s' \<and> fst ` set cs \<subseteq> {c. \<exists>g\<in>set gs. sg_call g = Some c} \<and>
    (r = 0 \<longrightarrow> cs = concat (map (\<lambda>g. stage_calls g 0) gs) \<and> log = concat (map (\<lambda>g. stage_log g 0) gs) \<and>
       (\<forall>g\<in>set gs. sg_call g \<noteq> None)) \<and>
    (r \<noteq> 0 \<longrightarrow> r \<in> sg_pending ` set gs)"
  using assms
proof (induction gs arbitrary: s)
  case Nil
  then show ?case by (intro exI [of _ "[]"]) simp
next
  case (Cons g gs)
  obtain q s1 where q: "run_primitive env d g s = (q, s1)" by fastforce
  have sub: "fst ` set (stage_calls g q) \<subseteq> {c. \<exists>h\<in>set (g # gs). sg_call h = Some c}"
    by (auto simp: stage_calls_def split: option.splits)
  show ?case
  proof (cases "q = 0")
    case False
    with Cons.prems q have "r = sg_pending g" "s' = s1" by simp_all
    moreover have "sg_pending g \<noteq> 0" using Cons.prems(2) by (simp add: stage_ok_def)
    ultimately show ?thesis using kstep_primitive(1) [OF q] sub by fastforce
  next
    case True
    let ?s2 = "fold (run_probe env d) (sg_after g) s1"
    have "run_stages env d gs ?s2 = (r, s')" using Cons.prems(1) q True by simp
    from Cons.IH [OF this] Cons.prems(2) obtain cs log where ih: "kstep d cs log ?s2 s'"
      "fst ` set cs \<subseteq> {c. \<exists>g\<in>set gs. sg_call g = Some c}"
      "r = 0 \<longrightarrow> cs = concat (map (\<lambda>g. stage_calls g 0) gs) \<and> log = concat (map (\<lambda>g. stage_log g 0) gs) \<and>
         (\<forall>g\<in>set gs. sg_call g \<noteq> None)" "r \<noteq> 0 \<longrightarrow> r \<in> sg_pending ` set gs"
      by auto
    have "sg_call g \<noteq> None" using kstep_primitive(2) [OF q] True by auto
    moreover have "kstep d [] [] s1 ?s2" using Cons.prems(2) by (intro kstep_stores) (simp add: stage_ok_def)
    then have "kstep d (stage_calls g 0 @ cs) (stage_log g 0 @ log) s s'"
      using kstep_trans [OF kstep_primitive(1) [OF q]] kstep_after_store [OF _ ih(1)] True by simp
    moreover have "fst ` set (stage_calls g 0 @ cs) \<subseteq> {c. \<exists>h\<in>set (g # gs). sg_call h = Some c}"
      using sub True ih(2) by (auto simp: image_Un)
    ultimately show ?thesis using ih(3,4)
      by (intro exI [of _ "stage_calls g 0 @ cs"] exI [of _ "stage_log g 0 @ log"]) auto
  qed
qed

definition body_stages :: "'w hcomm_env \<Rightarrow> desc \<Rightarrow> stage list" where
  "body_stages env d = (if pd_role d = NOTIFY_ROLE_SEND then send_stages env d else recv_stages env d)"

lemma body_ok: "g \<in> set (body_stages env d) \<Longrightarrow> stage_ok g"
  by (auto simp: stage_ok_def body_stages_def send_stages_def recv_stages_def write_stage_def fence_stage_def Let_def
      split: if_splits)

section \<open>Tallies of the resource calls\<close>

datatype call_kind = Acquired | Released | Started | Ended | Notified | OtherCall

fun kind :: "hcomm_call \<times> u32 \<Rightarrow> call_kind" where
  "kind (HcommAcquireComm n, r) = (if r = 0 then Acquired else OtherCall)"
| "kind (HcommReleaseComm n, r) = Released"
| "kind (HcommBatchModeStart t, r) = (if r = 0 then Started else OtherCall)"
| "kind (HcommBatchModeEnd t, r) = Ended"
| "kind (HcommThreadNotifyRecordOnThread a b i, r) = Notified"
| "kind _ = OtherCall"

definition tally :: "call_kind \<Rightarrow> (hcomm_call \<times> u32) list \<Rightarrow> nat" where
  "tally k cs = count_list (map kind cs) k"

lemma tally_simps [simp]:
  "tally k [] = 0" "tally k (c # cs) = (if kind c = k then 1 else 0) + tally k cs"
  "tally k (cs @ cs') = tally k cs + tally k cs'"
  by (simp_all add: tally_def count_list_append)

lemma body_kind: "g \<in> set (body_stages env d) \<Longrightarrow> sg_call g = Some c \<Longrightarrow> kind (c, r) = OtherCall"
  by (auto simp: body_stages_def send_stages_def recv_stages_def write_stage_def fence_stage_def Let_def
      HcommChannelFenceCompat_def split: if_splits)

lemma tally_body:
  assumes "fst ` set cs \<subseteq> {c. \<exists>g\<in>set (body_stages env d). sg_call g = Some c}" "k \<noteq> OtherCall"
  shows "tally k cs = 0"
  using assms
proof (induction cs)
  case (Cons c cs)
  then have "kind c = OtherCall" by (cases c) (auto dest: body_kind)
  with Cons show ?case by simp
qed simp

end
