(* ===== verification/Payload_Run.thy ===== *)
theory Payload_Run
  imports Payload_Kernel
begin

text \<open>
  Runs of the payload-copy kernel.  The phases of \<open>RunPayloadCopy\<close> are steps in the sense of
  \<open>Payload_Kernel\<close>; composing them gives, for every behaviour of the HCOMM primitives, the calls and
  the events of a run.  From this follow the resource discipline (communicator, batch, notification
  of the host), the agreement of the reported status with the returned one, and that a successful run
  performed exactly the steps of the host's plan.
\<close>

section \<open>Phases of the kernel\<close>

abbreviation ok_calls :: "stage list \<Rightarrow> (hcomm_call \<times> u32) list" where
  "ok_calls gs \<equiv> concat (map (\<lambda>g. stage_calls g 0) gs)"
abbreviation ok_log :: "stage list \<Rightarrow> (u32 \<times> u32) list" where
  "ok_log gs \<equiv> concat (map (\<lambda>g. stage_log g 0) gs)"

lemma kstep_open:
  assumes "open_phase env d g s = (r, s')" "sg_pending g \<noteq> 0"
  obtains q where "kstep d (stage_calls g q) (stage_log g q) s s'" "r = 0 \<longleftrightarrow> q = 0"
proof -
  obtain q s1 where q: "run_primitive env d g s = (q, s1)" by fastforce
  with assms have "s' = s1" "r = (if q \<noteq> 0 then sg_pending g else 0)" by (simp_all add: open_phase_def)
  with that [of q] kstep_primitive(1) [OF q] assms(2) show ?thesis by simp
qed

lemma kstep_close:
  assumes "close_phase env d g r s = (r', s')" "sg_pending g \<noteq> 0"
  obtains q where "kstep d (stage_calls g q) (stage_log g q) s s'" "r' = 0 \<longleftrightarrow> r = 0 \<and> q = 0"
    "r \<noteq> 0 \<longrightarrow> r' = r"
proof -
  let ?s1 = "if r = STATUS_SUCCESS then BeginPayloadPrimitive d (sg_pending g) s else s"
  obtain q s2 where q: "traced_call env d (sg_enter g) (sg_done g) (sg_call g) ?s1 = (q, s2)" by fastforce
  have "kstep d [] [] s ?s1" by (simp add: ksteps)
  from kstep_after_store [OF this kstep_traced_call(1) [OF q]]
  have k: "kstep d (stage_calls g q) (stage_log g q) s s2" .
  have "s' = (if q \<noteq> 0 \<and> r = 0 then StorePayloadPrimitiveRet d q s2 else s2)"
      "r' = (if q \<noteq> 0 \<and> r = 0 then sg_pending g else r)"
    using assms(1) q by (auto simp: close_phase_def Let_def split: if_splits)
  moreover from this(1) have "kstep d (stage_calls g q) (stage_log g q) s s'"
    using k kstep_then_store [OF k kstep_stores(2)] by (cases "q \<noteq> 0 \<and> r = 0") simp_all
  ultimately show ?thesis using that assms(2) by auto
qed

lemma kstep_best_effort:
  obtains q where "kstep d (if CanRecordPayloadCompletionNotify d then [(host_notify d, q)] else []) [] s
    (BestEffortPayloadCompletionNotify env d s)"
proof (cases "hcall env (host_notify d) s")
  case (Pair q s')
  with kstep_hcall [OF Pair] that [of q] show ?thesis
    by (auto simp: BestEffortPayloadCompletionNotify_def split: if_splits)
qed

lemma kstep_finish: "FinishPayloadTrace d r s = (r', s') \<Longrightarrow>
    r' = r \<and> kstep d [] [(EVENT_KERNEL_EXIT, 0)] s s'"
  by (auto simp: FinishPayloadTrace_def intro: kstep_after_store [OF kstep_stores(3) kstep_event])

text \<open>The stages before and after the body, in the order of the code.\<close>

definition lead_stages :: "'w hcomm_env \<Rightarrow> desc \<Rightarrow> stage list" where
  "lead_stages env d = (if PayloadBatchModeEnabled d then [batch_start_stage d] else []) @
     (if use_thread_notify d then [host_wait_stage d] else []) @ body_stages env d"

definition tail_stages :: "desc \<Rightarrow> bool \<Rightarrow> stage list" where
  "tail_stages d batch_started = (if use_thread_notify d then [host_record_stage d] else []) @
     (if batch_started then [batch_end_stage d] else [])"

definition kernel_stages :: "'w hcomm_env \<Rightarrow> desc \<Rightarrow> stage list" where
  "kernel_stages env d = (if PayloadSkipCommAcquire d then [] else [acquire_stage d]) @
     lead_stages env d @ tail_stages d (PayloadBatchModeEnabled d) @
     (if PayloadSkipCommAcquire d then [] else [release_stage d])"

lemma stage_calls_mk [simp]: "stage_calls (mk_stage p e f c a) r = [(c, r)]"
  by (simp add: stage_calls_def)

lemma stage_log_mk [simp]: "stage_log (mk_stage p e f c a) r = [(e, minus_one), (f, r)]"
  by (simp add: stage_log_def)

lemma kstep_body:
  assumes "RunPayloadCopyBody env d s = (r, s')" "pd_role d = 0 \<or> pd_role d = 1"
  obtains cs log where "kstep d cs log s s'" "\<And>k. k \<noteq> OtherCall \<Longrightarrow> tally k cs = 0"
    "r = 0 \<Longrightarrow> cs = ok_calls (body_stages env d) \<and> log = ok_log (body_stages env d) \<and>
       (\<forall>g\<in>set (body_stages env d). sg_call g \<noteq> None)"
proof -
  have run: "run_stages env d (body_stages env d) s = (r, s')"
    using assms by (auto simp: RunPayloadCopyBody_def body_stages_def)
  have "\<forall>g\<in>set (body_stages env d). stage_ok g" by (intro ballI body_ok)
  from kstep_stages [OF run this] show ?thesis
  proof (elim exE conjE)
    fix cs log
    assume k: "kstep d cs log s s'" "fst ` set cs \<subseteq> {c. \<exists>g\<in>set (body_stages env d). sg_call g = Some c}"
      "r = 0 \<longrightarrow> cs = ok_calls (body_stages env d) \<and> log = ok_log (body_stages env d) \<and>
         (\<forall>g\<in>set (body_stages env d). sg_call g \<noteq> None)"
    show ?thesis by (rule that [OF k(1) tally_body [OF k(2)] mp [OF k(3)]])
  qed
qed

lemma kstep_opt_open:
  assumes "(if c then open_phase env d (mk_stage p e f call a) s else (0, s)) = (r, s')" "p \<noteq> 0"
  obtains q where "kstep d (if c then [(call, q)] else []) (if c then [(e, minus_one), (f, q)] else []) s s'"
    "r = 0 \<longleftrightarrow> (c \<longrightarrow> q = 0)"
proof (cases c)
  case True
  with assms show ?thesis by (auto elim!: kstep_open intro: that)
next
  case False
  with assms that [of 0] show ?thesis by auto
qed

lemma kstep_opt_close:
  assumes "(if c then close_phase env d (mk_stage p e f call a) r s else (r, s)) = (r', s')" "p \<noteq> 0"
  obtains q where "kstep d (if c then [(call, q)] else []) (if c then [(e, minus_one), (f, q)] else []) s s'"
    "r' = 0 \<longleftrightarrow> r = 0 \<and> (c \<longrightarrow> q = 0)" "r \<noteq> 0 \<longrightarrow> r' = r"
proof (cases c)
  case True
  with assms show ?thesis by (auto elim!: kstep_close intro: that)
next
  case False
  with assms that [of 0] show ?thesis by auto
qed

lemma kstep_lead:
  assumes "batch_and_copy env d s = (r, b, s')" "pd_role d = 0 \<or> pd_role d = 1"
  obtains cs log where "kstep d cs log s s'"
    "tally Started cs = (if b then 1 else 0)"
    "\<And>k. k \<noteq> OtherCall \<Longrightarrow> k \<noteq> Started \<Longrightarrow> tally k cs = 0"
    "r = 0 \<Longrightarrow> b = PayloadBatchModeEnabled d \<and> cs = ok_calls (lead_stages env d) \<and>
       log = ok_log (lead_stages env d) \<and> (\<forall>g\<in>set (body_stages env d). sg_call g \<noteq> None)"
proof -
  let ?B = "PayloadBatchModeEnabled d" and ?U = "use_thread_notify d"
  obtain r1 s1 where s1: "(if ?B then open_phase env d (batch_start_stage d) s else (0, s)) = (r1, s1)"
    by fastforce
  obtain r2 s2 where s2: "(if r1 = 0 \<and> ?U then open_phase env d (host_wait_stage d) s1 else (r1, s1)) = (r2, s2)"
    by fastforce
  have b: "b = (?B \<and> r1 = 0)" and
    run: "(if r2 = 0 then RunPayloadCopyBody env d s2 else (r2, s2)) = (r, s')"
    using assms(1) s1 s2 by (auto simp: batch_and_copy_def Let_def split: prod.splits if_splits)
  obtain q1 where k1: "kstep d (if ?B then [(HcommBatchModeStart (pd_batch_tag d), q1)] else [])
      (if ?B then [(EVENT_BATCH_START_ENTER, minus_one), (EVENT_BATCH_START_DONE, q1)] else []) s s1"
    "r1 = 0 \<longleftrightarrow> (?B \<longrightarrow> q1 = 0)"
    using kstep_opt_open [OF s1] by auto
  show ?thesis
  proof (cases "r1 = 0")
    case False
    with s2 run have "s' = s1" "r = r1" by simp_all
    with k1 b False show ?thesis by (intro that [OF k1(1)[folded \<open>s' = s1\<close>]]) auto
  next
    case True
    have "(if ?U then open_phase env d (host_wait_stage d) s1 else (0, s1)) = (r2, s2)"
      using s2 by (simp only: True simp_thms)
    then obtain q2 where k2: "kstep d
        (if ?U then [(HcommThreadNotifyWaitOnThread (pd_aicpu_thread d) 0 (pd_timeout_sec d), q2)] else [])
        (if ?U then [(EVENT_THREAD_NOTIFY_WAIT_ENTER, minus_one), (EVENT_THREAD_NOTIFY_WAIT_DONE, q2)] else [])
        s1 s2" "r2 = 0 \<longleftrightarrow> (?U \<longrightarrow> q2 = 0)"
      by (rule kstep_opt_open) auto
    note k12 = kstep_trans [OF k1(1) k2(1)]
    show ?thesis
    proof (cases "r2 = 0")
      case False
      with run have "s' = s2" "r = r2" by simp_all
      with k12 k1(2) b False True show ?thesis by (intro that [OF k12[folded \<open>s' = s2\<close>]]) auto
    next
      case True
      with run have "RunPayloadCopyBody env d s2 = (r, s')" by simp
      then obtain cs log where k3: "kstep d cs log s2 s'" "\<And>k. k \<noteq> OtherCall \<Longrightarrow> tally k cs = 0"
        "r = 0 \<Longrightarrow> cs = ok_calls (body_stages env d) \<and> log = ok_log (body_stages env d) \<and>
           (\<forall>g\<in>set (body_stages env d). sg_call g \<noteq> None)"
        using assms(2) by (rule kstep_body) blast
      show ?thesis
      proof (rule that [OF kstep_trans [OF k12 k3(1)]], goal_cases)
        case 1
        show ?case using \<open>r1 = 0\<close> k1(2) k3(2) b by simp
      next
        case (2 k)
        then show ?case using k3(2) by simp
      next
        case 3
        then show ?case using k3(3) True \<open>r1 = 0\<close> k1(2) k2(2) b
          by (cases ?B; cases ?U; simp add: lead_stages_def)
      qed
    qed
  qed
qed


text \<open>The steps after the body: the notification of the host and the end of the batch happen whatever
  the result is.\<close>

lemma close_phase_status:
  "close_phase env d g r s = (r', s') \<Longrightarrow> r' \<noteq> r \<Longrightarrow> r = 0"
  by (auto simp: close_phase_def Let_def split: prod.splits if_splits)

lemma kstep_tail:
  assumes "notify_and_end env d r b s = (r', s')"
  obtains cs log s3 where "kstep d cs log s s'" "s' = StorePayloadStatus d r' s3" "kstep d cs log s s3"
    "tally Notified cs = (if use_thread_notify d then 1 else 0)" "tally Ended cs = (if b then 1 else 0)"
    "\<And>k. k \<notin> {OtherCall, Notified, Ended} \<Longrightarrow> tally k cs = 0"
    "r' = 0 \<Longrightarrow> r = 0 \<and> cs = ok_calls (tail_stages d b) \<and> log = ok_log (tail_stages d b)"
proof -
  let ?U = "use_thread_notify d"
  let ?s0 = "StorePayloadDataProbe env d 13 (pd_user_buffer d)
    (StorePayloadDataProbe env d 12 (pd_local_hccl_buffer d) s)"
  let ?s1 = "if r \<noteq> 0 then StorePayloadStatus d r ?s0 else ?s0"
  have k0: "kstep d [] [] s ?s1"
  proof -
    have "kstep d [] [] s ?s0" by (rule kstep_then_store [OF kstep_stores(6) kstep_stores(6)]) simp_all
    with kstep_then_store [OF this kstep_stores(1)] show ?thesis by simp
  qed
  obtain r1 t1 where t1: "(if ?U then close_phase env d (host_record_stage d) r ?s1 else (r, ?s1)) = (r1, t1)"
    by fastforce
  define s2 where "s2 = (if r1 \<noteq> r then StorePayloadStatus d r1 t1 else t1)"
  obtain s3 where s3: "(if b then close_phase env d (batch_end_stage d) r1 s2 else (r1, s2)) = (r', s3)"
      and s': "s' = StorePayloadStatus d r' s3"
    using assms t1 unfolding notify_and_end_def s2_def Let_def by (auto split: prod.splits if_splits)
  obtain q1 where k1: "kstep d (if ?U then [(host_notify d, q1)] else [])
      (if ?U then [(EVENT_THREAD_NOTIFY_RECORD_ENTER, minus_one), (EVENT_THREAD_NOTIFY_RECORD_DONE, q1)] else [])
      ?s1 t1" "r1 = 0 \<longleftrightarrow> r = 0 \<and> (?U \<longrightarrow> q1 = 0)"
    using t1 by (rule kstep_opt_close) auto
  obtain q2 where k2: "kstep d (if b then [(HcommBatchModeEnd (pd_batch_tag d), q2)] else [])
      (if b then [(EVENT_BATCH_END_ENTER, minus_one), (EVENT_BATCH_END_DONE, q2)] else []) s2 s3"
      "r' = 0 \<longleftrightarrow> r1 = 0 \<and> (b \<longrightarrow> q2 = 0)"
    using s3 by (rule kstep_opt_close) auto
  have "kstep d [] [] t1 s2" by (simp add: s2_def ksteps)
  from kstep_trans [OF kstep_then_store [OF kstep_after_store [OF k0 k1(1)] this] k2(1)]
  have k: "kstep d ((if ?U then [(host_notify d, q1)] else []) @
        (if b then [(HcommBatchModeEnd (pd_batch_tag d), q2)] else []))
      ((if ?U then [(EVENT_THREAD_NOTIFY_RECORD_ENTER, minus_one), (EVENT_THREAD_NOTIFY_RECORD_DONE, q1)] else []) @
        (if b then [(EVENT_BATCH_END_ENTER, minus_one), (EVENT_BATCH_END_DONE, q2)] else [])) s s3" .
  show ?thesis
  proof (rule that [OF kstep_then_store [OF k] s' k], goal_cases)
    case 1 show ?case unfolding s' by (rule kstep_stores)
  next
    case 5 then show ?case using k1(2) k2(2) by (simp add: tail_stages_def)
  qed (auto simp: host_notify_def)
qed

section \<open>What a run reports\<close>

text \<open>The first status word and its mirror in the trace hold the value \<open>v\<close>.\<close>

definition reported :: "desc \<Rightarrow> u32 \<Rightarrow> 'w kstate \<Rightarrow> bool" where
  "reported d v s \<longleftrightarrow> (\<exists>l. traced d l s) \<and> ks_status s ! 0 = v \<and> ks_trace s ! 16 = v"

lemma trace_event_words:
  assumes "traced d l s" "k = 15 \<or> k = 16 \<or> k = 17"
  shows "ks_trace (TracePayloadEvent d e r s) ! k = ks_trace s ! k"
proof -
  have "trace_live (ks_trace s)" using assms(1) by (simp add: traced_def)
  then show ?thesis using assms(2) by (auto simp: TracePayloadEvent_def Let_def)
qed

lemma reportedI: "traced d l s \<Longrightarrow> ks_status s ! 0 = v \<Longrightarrow> ks_trace s ! 16 = v \<Longrightarrow> reported d v s"
  unfolding reported_def by blast

lemma reportedE:
  assumes "reported d v s"
  obtains l where "traced d l s" "ks_status s ! 0 = v" "ks_trace s ! 16 = v"
  using assms unfolding reported_def by blast

lemma reported_event:
  assumes "PayloadTraceWords d" "reported d v s"
  shows "reported d v (TracePayloadEvent d e r s)"
proof -
  from assms(2) obtain l where l: "traced d l s" "ks_status s ! 0 = v" "ks_trace s ! 16 = v" by (rule reportedE)
  show ?thesis
    by (rule reportedI [OF traced_event [OF assms(1) l(1)]])
      (simp_all add: trace_event_words [OF l(1)] kernel_frame l)
qed

lemma reported_keep:
  assumes "reported d v s"
  shows "reported d v (StorePayloadPrimitiveRet d x s)" "reported d v (StorePayloadTraceResult d x s)"
    "hcall env c s = (q, s') \<Longrightarrow> reported d v s'"
proof -
  from assms obtain l where l: "traced d l s" "ks_status s ! 0 = v" "ks_trace s ! 16 = v" by (rule reportedE)
  show "reported d v (StorePayloadPrimitiveRet d x s)"
    by (rule reportedI [OF traced_stores(2) [OF l(1)]]) (simp_all add: kernel_frame l)
  show "reported d v (StorePayloadTraceResult d x s)"
    by (rule reportedI [OF traced_stores(3) [OF l(1)]])
      (simp_all add: kernel_frame l StorePayloadTraceResult_def)
  show "hcall env c s = (q, s') \<Longrightarrow> reported d v s'"
    using l by (auto simp: hcall_def intro: reportedI split: prod.splits)
qed

text \<open>The descriptor has a usable status array.\<close>

definition status_ready :: "desc \<Rightarrow> 'w kstate \<Rightarrow> bool" where
  "status_ready d s \<longleftrightarrow> HasPayloadDescHeader d \<and> pd_status_word d \<noteq> 0 \<and>
     \<not> pd_status_word_count d < STATUS_WORD_COUNT \<and> 17 \<le> length (ks_status s)"

lemma reported_store:
  assumes "traced d l s" "status_ready d s" "PayloadTraceWords d"
  shows "reported d v (StorePayloadStatus d v s)"
proof -
  have "\<not> pd_status_word_count d < 1"
    using assms(2) by (auto simp: status_ready_def word_less_nat_alt)
  moreover have "trace_live (ks_trace s)" "length (ks_trace s) = 82" using assms(1) by (auto simp: traced_def)
  moreover have "ks_status s \<noteq> []" using assms(2) by (auto simp: status_ready_def)
  ultimately have "ks_status (StorePayloadStatus d v s) ! 0 = v \<and> ks_trace (StorePayloadStatus d v s) ! 16 = v"
    using assms(2,3) by (simp add: StorePayloadStatus_def status_ready_def PayloadTraceWords_def Let_def)
  then show ?thesis using reportedI [OF traced_stores(1) [OF assms(1)]] by blast
qed

lemma stored_ret:
  assumes "traced d l s" "status_ready d s" "PayloadTraceWords d"
  shows "ks_status (StorePayloadPrimitiveRet d v s) ! 1 = v \<and> ks_trace (StorePayloadPrimitiveRet d v s) ! 17 = v"
proof -
  have "\<not> pd_status_word_count d < 2"
    using assms(2) by (auto simp: status_ready_def word_less_nat_alt)
  moreover have "trace_live (ks_trace s)" "length (ks_trace s) = 82" using assms(1) by (auto simp: traced_def)
  moreover have "1 < length (ks_status s)" using assms(2) by (simp add: status_ready_def)
  ultimately show ?thesis
    using assms(2,3) by (simp add: StorePayloadPrimitiveRet_def status_ready_def PayloadTraceWords_def Let_def)
qed

text \<open>After the end of a run the returned value, the status word and the two result words of the
  trace agree.\<close>

definition agreed :: "desc \<Rightarrow> u32 \<Rightarrow> 'w kstate \<Rightarrow> bool" where
  "agreed d r s \<longleftrightarrow> reported d r s \<and> ks_trace s ! 15 = r"

lemma agreed_finish:
  assumes "PayloadTraceWords d" "reported d r s" "FinishPayloadTrace d r s = (r', s')"
  shows "agreed d r' s' \<and> ks_status s' = ks_status s \<and> ks_trace s' ! 17 = ks_trace s ! 17"
proof -
  let ?s = "StorePayloadTraceResult d r s"
  obtain l where l: "traced d l s" using assms(2) by (auto simp: reported_def)
  then have t: "traced d l ?s" "length (ks_trace s) = 82"
    using traced_stores(3) [OF l] by (simp_all add: traced_def)
  have s': "s' = TracePayloadEvent d EVENT_KERNEL_EXIT 0 ?s" "r' = r"
    using assms(3) by (auto simp: FinishPayloadTrace_def)
  have "ks_trace ?s ! 15 = r" "ks_trace ?s ! 17 = ks_trace s ! 17"
    using assms(1) t(2) by (simp_all add: StorePayloadTraceResult_def)
  then show ?thesis
    using reported_event [OF assms(1) reported_keep(2) [OF assms(2)]]
      trace_event_words [OF t(1), of 15] trace_event_words [OF t(1), of 17]
    by (simp add: s' agreed_def kernel_frame)
qed

lemma reported_traced_call:
  assumes "PayloadTraceWords d" "reported d v s" "traced_call env d e f c s = (r, s')"
  shows "reported d v s'"
proof -
  let ?s1 = "TracePayloadEvent d e minus_one s"
  obtain s2 where c: "(case c of None \<Rightarrow> (minus_one, ?s1) | Some c \<Rightarrow> hcall env c ?s1) = (r, s2)"
      and s': "s' = TracePayloadEvent d f r s2"
    using assms(3) by (auto simp: traced_call_def Let_def split: prod.splits)
  have "reported d v s2"
    using c reported_event [OF assms(1,2)] reported_keep(3) [OF reported_event [OF assms(1,2)]]
    by (auto split: option.splits)
  then show ?thesis unfolding s' by (rule reported_event [OF assms(1)])
qed


section \<open>Whole runs\<close>

lemma release_unfold:
  assumes "release_and_finish env d r s = (r', s')"
  obtains s1 s2 r1 where
    "(if \<not> PayloadSkipCommAcquire d then close_phase env d (release_stage d) r s1 else (r, s1)) = (r1, s2)"
    "s1 = (if r = 0 \<and> \<not> PayloadSkipCommAcquire d then StorePayloadPrimitiveRet d 0 s else s)"
    "FinishPayloadTrace d r1 (if r1 \<noteq> r then StorePayloadStatus d r1 s2
       else if r = 0 then StorePayloadPrimitiveRet d 0 (StorePayloadStatus d 0 s2) else s2) = (r', s')"
proof (cases "PayloadSkipCommAcquire d")
  case True
  with assms that [OF _ refl, of r s] show ?thesis by (simp add: release_and_finish_def split: if_splits)
next
  case False
  let ?s1 = "if r = 0 \<and> \<not> PayloadSkipCommAcquire d then StorePayloadPrimitiveRet d 0 s else s"
  obtain r1 s2 where "close_phase env d (release_stage d) r ?s1 = (r1, s2)" by fastforce
  with assms False that [OF _ refl, of r1 s2] show ?thesis
    by (auto simp: release_and_finish_def Let_def split: if_splits)
qed

lemma kstep_release:
  assumes "release_and_finish env d r s = (r', s')"
  obtains q log where "kstep d (if PayloadSkipCommAcquire d then [] else [(HcommReleaseComm (pd_comm_name d), q)]) log s s'"
    "r' = 0 \<longleftrightarrow> r = 0 \<and> (\<not> PayloadSkipCommAcquire d \<longrightarrow> q = 0)"
    "q = 0 \<Longrightarrow> log = ok_log (if PayloadSkipCommAcquire d then [] else [release_stage d]) @ [(EVENT_KERNEL_EXIT, 0)]"
    "PayloadSkipCommAcquire d \<Longrightarrow> log = [(EVENT_KERNEL_EXIT, 0)]"
proof -
  from assms obtain s1 s2 r1 where
    s2: "(if \<not> PayloadSkipCommAcquire d then close_phase env d (release_stage d) r s1 else (r, s1)) = (r1, s2)"
    and s1: "s1 = (if r = 0 \<and> \<not> PayloadSkipCommAcquire d then StorePayloadPrimitiveRet d 0 s else s)"
    and fin: "FinishPayloadTrace d r1 (if r1 \<noteq> r then StorePayloadStatus d r1 s2
       else if r = 0 then StorePayloadPrimitiveRet d 0 (StorePayloadStatus d 0 s2) else s2) = (r', s')"
    by (rule release_unfold)
  let ?s3 = "if r1 \<noteq> r then StorePayloadStatus d r1 s2
       else if r = 0 then StorePayloadPrimitiveRet d 0 (StorePayloadStatus d 0 s2) else s2"
  have "kstep d [] [] s2 ?s3"
    using kstep_then_store [OF kstep_stores(1) [of d s2 0] kstep_stores(2) [of d _ 0]]
    by (simp add: kstep_stores)
  moreover have "kstep d [] [] s s1" by (simp add: s1 ksteps)
  moreover obtain q where k: "kstep d (if \<not> PayloadSkipCommAcquire d then [(HcommReleaseComm (pd_comm_name d), q)] else [])
      (if \<not> PayloadSkipCommAcquire d then [(EVENT_COMM_RELEASE_ENTER, minus_one), (EVENT_COMM_RELEASE_DONE, q)] else [])
      s1 s2" "r1 = 0 \<longleftrightarrow> r = 0 \<and> (\<not> PayloadSkipCommAcquire d \<longrightarrow> q = 0)"
    using s2 by (rule kstep_opt_close) auto
  ultimately have "kstep d (if \<not> PayloadSkipCommAcquire d then [(HcommReleaseComm (pd_comm_name d), q)] else [])
      (if \<not> PayloadSkipCommAcquire d then [(EVENT_COMM_RELEASE_ENTER, minus_one), (EVENT_COMM_RELEASE_DONE, q)] else [])
      s ?s3" by (blast intro: kstep_then_store kstep_after_store)
  note k3 = kstep_trans [OF this conjunct2 [OF kstep_finish [OF fin]]]
  have "r' = r1" using kstep_finish [OF fin] by simp
  then show ?thesis using k(2) k3
    by (cases "PayloadSkipCommAcquire d") (auto intro: that [of q])
qed

lemma reported_close:
  assumes "PayloadTraceWords d" "reported d r s" "r \<noteq> 0" "close_phase env d g r s = (r', s')"
  shows "reported d r s'"
  using assms(3,4) reported_traced_call [OF assms(1,2)]
  by (auto simp: close_phase_def Let_def split: prod.splits if_splits)

lemma release_agreed:
  assumes "PayloadTraceWords d" "reported d r s" "status_ready d s"
    "release_and_finish env d r s = (r', s')"
  shows "agreed d r' s' \<and> (r' = 0 \<longrightarrow> ks_status s' ! 1 = 0 \<and> ks_trace s' ! 17 = 0)"
proof -
  from assms(4) obtain s1 s2 r1 where
    s2: "(if \<not> PayloadSkipCommAcquire d then close_phase env d (release_stage d) r s1 else (r, s1)) = (r1, s2)"
    and s1: "s1 = (if r = 0 \<and> \<not> PayloadSkipCommAcquire d then StorePayloadPrimitiveRet d 0 s else s)"
    and fin: "FinishPayloadTrace d r1 (if r1 \<noteq> r then StorePayloadStatus d r1 s2
       else if r = 0 then StorePayloadPrimitiveRet d 0 (StorePayloadStatus d 0 s2) else s2) = (r', s')"
    by (rule release_unfold)
  let ?s3 = "if r1 \<noteq> r then StorePayloadStatus d r1 s2
       else if r = 0 then StorePayloadPrimitiveRet d 0 (StorePayloadStatus d 0 s2) else s2"
  obtain q where k: "kstep d (if \<not> PayloadSkipCommAcquire d then [(HcommReleaseComm (pd_comm_name d), q)] else [])
      (if \<not> PayloadSkipCommAcquire d then [(EVENT_COMM_RELEASE_ENTER, minus_one), (EVENT_COMM_RELEASE_DONE, q)] else [])
      s1 s2" "r1 = 0 \<longleftrightarrow> r = 0 \<and> (\<not> PayloadSkipCommAcquire d \<longrightarrow> q = 0)" "r \<noteq> 0 \<longrightarrow> r1 = r"
    using s2 by (rule kstep_opt_close) auto
  have rep1: "reported d r s1" using assms(2) reported_keep(1) by (auto simp: s1)
  then obtain l where "traced d l s1" by (rule reportedE)
  with k(1) assms(1) obtain l2 where l2: "traced d l2 s2" unfolding kstep_def by blast
  have len: "length (ks_status s2) = length (ks_status s)"
    using k(1) by (simp add: kstep_def s1 kernel_frame)
  then have rdy: "status_ready d s2" using assms(3) by (simp add: status_ready_def)
  have r': "r' = r1" using fin by (simp add: FinishPayloadTrace_def)
  have rep3: "reported d r1 ?s3"
  proof (cases "r = 0")
    case True
    then show ?thesis
      using reported_store [OF l2 rdy assms(1)] reported_keep(1) [OF reported_store [OF l2 rdy assms(1), of 0], of 0]
      by (cases "r1 = r") auto
  next
    case False
    with k(3) have "r1 = r" by simp
    then show ?thesis using False s2 rep1 reported_close [OF assms(1) rep1 False] by (auto split: if_splits)
  qed
  have "ks_status ?s3 ! 1 = 0 \<and> ks_trace ?s3 ! 17 = 0" if "r1 = 0"
    using that k(2) stored_ret [OF traced_stores(1) [OF l2, of 0] _ assms(1), of 0] rdy
    by (simp add: status_ready_def kernel_frame)
  with agreed_finish [OF assms(1) rep3 fin] r' show ?thesis by auto
qed

text \<open>The whole run of a valid descriptor.\<close>

lemma valid_desc:
  assumes "validate_reason d = 0"
  shows "HasPayloadDescHeader d" "pd_role d = 0 \<or> pd_role d = 1" "pd_status_word d \<noteq> 0"
    "\<not> pd_status_word_count d < 17" "CanRecordPayloadCompletionNotify d = use_thread_notify d"
  using assms unfolding validate_ok_iff
  by (auto simp: HasPayloadDescHeader_def CanRecordPayloadCompletionNotify_def use_thread_notify_def)

definition kernel_entry :: "desc \<Rightarrow> 'w kstate \<Rightarrow> 'w kstate" where
  "kernel_entry d s = TracePayloadEvent d EVENT_KERNEL_ENTER minus_one (InitPayloadTrace d s)"

definition kernel_probed :: "'w hcomm_env \<Rightarrow> desc \<Rightarrow> 'w kstate \<Rightarrow> 'w kstate" where
  "kernel_probed env d s = StorePayloadDataProbeSampleBytes d (StorePayloadDataProbe env d 11 (pd_local_hccl_buffer d)
     (StorePayloadDataProbe env d 10 (pd_user_buffer d) (StorePayloadEcho d (StorePayloadStatus d STATUS_HCOMM_ERROR s))))"

lemma kernel_entry_facts:
  "ks_calls (kernel_entry d s) = ks_calls s" "ks_status (kernel_entry d s) = ks_status s"
  "PayloadTraceWords d \<Longrightarrow> length (ks_trace s) = 82 \<Longrightarrow>
     traced d [(EVENT_KERNEL_ENTER, minus_one)] (kernel_entry d s)"
  using traced_event [OF _ traced_init, of d s EVENT_KERNEL_ENTER minus_one]
  by (simp_all add: kernel_entry_def kernel_frame)

lemma kstep_probed: "kstep d [] [] s (kernel_probed env d s)"
  unfolding kernel_probed_def
  by (rule kstep_then_store [OF kstep_then_store [OF kstep_then_store [OF kstep_then_store
      [OF kstep_stores(1) kstep_stores(8)] kstep_stores(6)] kstep_stores(6)] kstep_stores(7)]) simp_all

lemma run_unfold:
  assumes "validate_reason d = 0" "RunPayloadCopy env d s = (r, s')"
  obtains (failed) q s1 where "run_primitive env d (acquire_stage d) (kernel_probed env d (kernel_entry d s)) = (q, s1)"
      "\<not> PayloadSkipCommAcquire d" "q \<noteq> 0"
      "FinishPayloadTrace d STATUS_COMM_ACQUIRE_FAILED (BestEffortPayloadCompletionNotify env d
         (StorePayloadStatus d STATUS_COMM_ACQUIRE_FAILED s1)) = (r, s')"
  | (acquired) s1 r2 b s2 r3 s3 where
      "(if PayloadSkipCommAcquire d then (0, kernel_probed env d (kernel_entry d s))
        else run_primitive env d (acquire_stage d) (kernel_probed env d (kernel_entry d s))) = (0, s1)"
      "batch_and_copy env d s1 = (r2, b, s2)" "notify_and_end env d r2 b s2 = (r3, s3)"
      "release_and_finish env d r3 s3 = (r, s')"
proof -
  obtain q s1 where q: "(if PayloadSkipCommAcquire d then (0, kernel_probed env d (kernel_entry d s))
        else run_primitive env d (acquire_stage d) (kernel_probed env d (kernel_entry d s))) = (q, s1)" by fastforce
  obtain r2 b s2 where 2: "batch_and_copy env d s1 = (r2, b, s2)" by (metis prod.exhaust)
  obtain r3 s3 where 3: "notify_and_end env d r2 b s2 = (r3, s3)" by fastforce
  have run: "(if q \<noteq> 0 then FinishPayloadTrace d STATUS_COMM_ACQUIRE_FAILED (BestEffortPayloadCompletionNotify env d
         (StorePayloadStatus d STATUS_COMM_ACQUIRE_FAILED s1)) else release_and_finish env d r3 s3) = (r, s')"
  proof -
    have "RunPayloadCopy env d s =
       (case (if PayloadSkipCommAcquire d then (0, kernel_probed env d (kernel_entry d s))
              else run_primitive env d (acquire_stage d) (kernel_probed env d (kernel_entry d s))) of
          (ret, s) \<Rightarrow> if ret \<noteq> 0 then FinishPayloadTrace d STATUS_COMM_ACQUIRE_FAILED
              (BestEffortPayloadCompletionNotify env d (StorePayloadStatus d STATUS_COMM_ACQUIRE_FAILED s))
            else (case batch_and_copy env d s of (r, b, s) \<Rightarrow>
                    (case notify_and_end env d r b s of (r, s) \<Rightarrow> release_and_finish env d r s)))"
      by (simp add: RunPayloadCopy_def assms(1) Let_def kernel_entry_def kernel_probed_def)
    then show ?thesis using assms(2) unfolding q by (simp add: 2 3)
  qed
  show ?thesis
  proof (cases "q = 0")
    case True
    with run q 2 3 acquired show ?thesis by simp
  next
    case False
    with run q failed show ?thesis by (simp split: if_splits)
  qed
qed


definition run_shape :: "'w hcomm_env \<Rightarrow> desc \<Rightarrow> u32 \<Rightarrow> (hcomm_call \<times> u32) list \<Rightarrow> (u32 \<times> u32) list \<Rightarrow> bool" where
  "run_shape env d r cs log \<longleftrightarrow>
    tally Acquired cs = tally Released cs \<and> tally Started cs = tally Ended cs \<and>
    tally Notified cs = (if use_thread_notify d then 1 else 0) \<and>
    (r = 0 \<longrightarrow> cs = ok_calls (kernel_stages env d) \<and>
       log = ok_log (kernel_stages env d) @ [(EVENT_KERNEL_EXIT, 0)] \<and>
       (\<forall>g\<in>set (body_stages env d). sg_call g \<noteq> None))"

lemma run_failed_shape:
  assumes "validate_reason d = 0" "run_primitive env d (acquire_stage d) s = (q, s1)" "q \<noteq> 0"
    "FinishPayloadTrace d STATUS_COMM_ACQUIRE_FAILED (BestEffortPayloadCompletionNotify env d
       (StorePayloadStatus d STATUS_COMM_ACQUIRE_FAILED s1)) = (r, s')"
  obtains cs log where "kstep d cs log s s'" "run_shape env d r cs log"
proof -
  obtain p where p: "kstep d (if CanRecordPayloadCompletionNotify d then [(host_notify d, p)] else []) []
      (StorePayloadStatus d STATUS_COMM_ACQUIRE_FAILED s1)
      (BestEffortPayloadCompletionNotify env d (StorePayloadStatus d STATUS_COMM_ACQUIRE_FAILED s1))"
    by (rule kstep_best_effort)
  note k = kstep_trans [OF kstep_trans [OF kstep_primitive(1) [OF assms(2)]
      kstep_after_store [OF kstep_stores(1) p]] conjunct2 [OF kstep_finish [OF assms(4)]]]
  have "r = STATUS_COMM_ACQUIRE_FAILED" using kstep_finish [OF assms(4)] by simp
  then show ?thesis
    by (intro that [OF k]) (auto simp: run_shape_def valid_desc [OF assms(1)] assms(3) host_notify_def)
qed

lemma run_acquired_shape:
  assumes "validate_reason d = 0"
    "(if PayloadSkipCommAcquire d then (0, s) else run_primitive env d (acquire_stage d) s) = (0, s1)"
    "batch_and_copy env d s1 = (r2, b, s2)" "notify_and_end env d r2 b s2 = (r3, s3)"
    "release_and_finish env d r3 s3 = (r, s')"
  obtains cs log where "kstep d cs log s s'" "run_shape env d r cs log"
proof -
  let ?K = "PayloadSkipCommAcquire d"
  have k1: "kstep d (if ?K then [] else [(HcommAcquireComm (pd_comm_name d), 0)])
      (if ?K then [] else [(EVENT_COMM_ACQUIRE_ENTER, minus_one), (EVENT_COMM_ACQUIRE_DONE, 0)]) s s1"
    using assms(2) kstep_primitive(1) [of env d "acquire_stage d" s 0 s1] by (auto split: if_splits)
  obtain cs2 log2 where k2: "kstep d cs2 log2 s1 s2" "tally Started cs2 = (if b then 1 else 0)"
    "\<And>k. k \<noteq> OtherCall \<Longrightarrow> k \<noteq> Started \<Longrightarrow> tally k cs2 = 0"
    "r2 = 0 \<Longrightarrow> b = PayloadBatchModeEnabled d \<and> cs2 = ok_calls (lead_stages env d) \<and>
       log2 = ok_log (lead_stages env d) \<and> (\<forall>g\<in>set (body_stages env d). sg_call g \<noteq> None)"
    using assms(3) valid_desc(2) [OF assms(1)] by (rule kstep_lead) blast
  obtain cs3 log3 where k3: "kstep d cs3 log3 s2 s3"
    "tally Notified cs3 = (if use_thread_notify d then 1 else 0)" "tally Ended cs3 = (if b then 1 else 0)"
    "\<And>k. k \<notin> {OtherCall, Notified, Ended} \<Longrightarrow> tally k cs3 = 0"
    "r3 = 0 \<Longrightarrow> r2 = 0 \<and> cs3 = ok_calls (tail_stages d b) \<and> log3 = ok_log (tail_stages d b)"
    using assms(4) by (rule kstep_tail) blast
  obtain q log4 where k4: "kstep d (if ?K then [] else [(HcommReleaseComm (pd_comm_name d), q)]) log4 s3 s'"
    "r = 0 \<longleftrightarrow> r3 = 0 \<and> (\<not> ?K \<longrightarrow> q = 0)"
    "q = 0 \<Longrightarrow> log4 = ok_log (if ?K then [] else [release_stage d]) @ [(EVENT_KERNEL_EXIT, 0)]"
    "?K \<Longrightarrow> log4 = [(EVENT_KERNEL_EXIT, 0)]"
    using assms(5) by (rule kstep_release) blast
  note k = kstep_trans [OF kstep_trans [OF kstep_trans [OF k1 k2(1)] k3(1)] k4(1)]
  show ?thesis
  proof (rule that [OF k])
    show "run_shape env d r ((((if ?K then [] else [(HcommAcquireComm (pd_comm_name d), 0)]) @ cs2) @ cs3) @
        (if ?K then [] else [(HcommReleaseComm (pd_comm_name d), q)]))
       ((((if ?K then [] else [(EVENT_COMM_ACQUIRE_ENTER, minus_one), (EVENT_COMM_ACQUIRE_DONE, 0)]) @ log2) @
          log3) @ log4)"
      unfolding run_shape_def using k2(2-4) k3(2-5) k4(2-4)
      by (cases ?K) (auto simp: kernel_stages_def)
  qed
qed

lemma run_probed:
  assumes "validate_reason d = 0" "RunPayloadCopy env d s = (r, s')"
  obtains cs log where "kstep d cs log (kernel_probed env d (kernel_entry d s)) s'" "run_shape env d r cs log"
  using assms
proof (cases rule: run_unfold)
  case (failed q s1)
  from run_failed_shape [OF assms(1) failed(1,3,4)] that show ?thesis by metis
next
  case (acquired s1 r2 b s2 r3 s3)
  from run_acquired_shape [OF assms(1) acquired] that show ?thesis by metis
qed

lemma run_steps:
  assumes "validate_reason d = 0" "RunPayloadCopy env d s = (r, s')"
  obtains cs log where "kstep d cs log (kernel_entry d s) s'" "run_shape env d r cs log"
  using assms by (rule run_probed) (rule that [OF kstep_after_store [OF kstep_probed]])

lemma run_echoed:
  assumes "validate_reason d = 0" "17 \<le> length (ks_status s)" "RunPayloadCopy env d s = (r, s')"
  shows "echoed d s'"
proof -
  from assms(1,3) obtain cs log where "kstep d cs log (kernel_probed env d (kernel_entry d s)) s'"
    by (rule run_probed)
  moreover have "probes_enabled d" using valid_desc [OF assms(1)] by (simp add: probes_enabled_def)
  then have "echoed d (kernel_probed env d (kernel_entry d s))"
    using assms(2) by (simp add: kernel_probed_def kernel_frame StorePayloadEcho_echoed kernel_entry_facts)
  ultimately show ?thesis by (simp add: kstep_def)
qed


section \<open>Resource discipline\<close>

lemma invalid_steps:
  assumes "validate_reason d \<noteq> 0" "RunPayloadCopy env d s = (r, s')"
  obtains q where "kstep d (if CanRecordPayloadCompletionNotify d then [(host_notify d, q)] else [])
      [(EVENT_KERNEL_EXIT, 0)] (kernel_entry d s) s'" "r = STATUS_INVALID_ARGUMENT"
proof -
  let ?s1 = "StorePayloadValidationReason d (validate_reason d)
      (StorePayloadStatus d STATUS_INVALID_ARGUMENT (kernel_entry d s))"
  have fin: "FinishPayloadTrace d STATUS_INVALID_ARGUMENT (BestEffortPayloadCompletionNotify env d ?s1) = (r, s')"
    using assms by (simp add: RunPayloadCopy_def Let_def kernel_entry_def)
  obtain q where q: "kstep d (if CanRecordPayloadCompletionNotify d then [(host_notify d, q)] else []) []
      ?s1 (BestEffortPayloadCompletionNotify env d ?s1)" by (rule kstep_best_effort)
  have "kstep d [] [] (kernel_entry d s) ?s1" by (rule kstep_then_store [OF kstep_stores(1) kstep_stores(4)])
  from kstep_trans [OF kstep_after_store [OF this q] conjunct2 [OF kstep_finish [OF fin]]]
  have "kstep d (if CanRecordPayloadCompletionNotify d then [(host_notify d, q)] else [])
      [(EVENT_KERNEL_EXIT, 0)] (kernel_entry d s) s'" by simp
  moreover have "r = STATUS_INVALID_ARGUMENT" using kstep_finish [OF fin] by simp
  ultimately show ?thesis by (rule that)
qed

text \<open>Property C11. Resource discipline of the kernel.  Whatever the descriptor is and however the HCOMM
  primitives behave, the calls of a run release the communicator exactly once for each successful
  acquisition, end exactly the batches that were started, and wake the waiting host thread exactly
  once if the descriptor names one, on every error path too.\<close>

theorem kernel_resource_discipline:
  "\<exists>cs. ks_calls (snd (RunPayloadCopy env d s)) = ks_calls s @ cs \<and>
     tally Acquired cs = tally Released cs \<and> tally Started cs = tally Ended cs \<and>
     tally Notified cs = (if CanRecordPayloadCompletionNotify d then 1 else 0)"
proof (cases "validate_reason d = 0")
  case True
  obtain r s' where run: "RunPayloadCopy env d s = (r, s')" by fastforce
  from True this obtain cs log where "kstep d cs log (kernel_entry d s) s'" "run_shape env d r cs log"
    by (rule run_steps)
  then show ?thesis
    by (auto simp: run kstep_def run_shape_def kernel_entry_facts valid_desc(5) [OF True])
next
  case False
  obtain r s' where run: "RunPayloadCopy env d s = (r, s')" by fastforce
  from False this obtain q where "kstep d (if CanRecordPayloadCompletionNotify d then [(host_notify d, q)] else [])
      [(EVENT_KERNEL_EXIT, 0)] (kernel_entry d s) s'" by (rule invalid_steps)
  then show ?thesis
    by (auto simp: run kstep_def kernel_entry_facts host_notify_def)
qed

section \<open>Reported results\<close>

lemma valid_status_ready:
  "validate_reason d = 0 \<Longrightarrow> 17 \<le> length (ks_status s) \<Longrightarrow> status_ready d s"
  by (simp add: status_ready_def valid_desc)

lemma status_ready_step: "kstep d cs log s s' \<Longrightarrow> status_ready d s' = status_ready d s"
  by (simp add: kstep_def status_ready_def)

lemma traced_step: "PayloadTraceWords d \<Longrightarrow> kstep d cs log s s' \<Longrightarrow> traced d l s \<Longrightarrow> traced d (l @ log) s'"
  by (simp add: kstep_def)

lemma best_effort_reported:
  assumes "reported d v s"
  shows "reported d v (BestEffortPayloadCompletionNotify env d s)"
    "ks_status (BestEffortPayloadCompletionNotify env d s) = ks_status s"
    "ks_trace (BestEffortPayloadCompletionNotify env d s) = ks_trace s"
proof -
  obtain q s' where h: "hcall env (host_notify d) s = (q, s')" by fastforce
  then have "ks_status s' = ks_status s" "ks_trace s' = ks_trace s"
    by (auto simp: hcall_def split: prod.splits)
  with h reported_keep(3) [OF assms h] assms
  show "reported d v (BestEffortPayloadCompletionNotify env d s)"
    "ks_status (BestEffortPayloadCompletionNotify env d s) = ks_status s"
    "ks_trace (BestEffortPayloadCompletionNotify env d s) = ks_trace s"
    by (simp_all add: BestEffortPayloadCompletionNotify_def)
qed

lemma run_valid_agreed:
  assumes "validate_reason d = 0" "PayloadTraceWords d" "traced d l (kernel_entry d s)"
    "17 \<le> length (ks_status s)" "RunPayloadCopy env d s = (r, s')"
  shows "agreed d r s' \<and> (r = 0 \<longrightarrow> ks_status s' ! 1 = 0 \<and> ks_trace s' ! 17 = 0)"
proof -
  have rdy: "status_ready d (kernel_entry d s)"
    using assms(1,4) by (simp add: valid_status_ready kernel_entry_facts)
  note t0 = traced_step [OF assms(2) kstep_probed assms(3), of env]
  from assms(1,5) show ?thesis
  proof (cases rule: run_unfold)
    case (failed q s1)
    note k = kstep_primitive(1) [OF failed(1)]
    have "status_ready d s1" using rdy status_ready_step [OF k] status_ready_step [OF kstep_probed] by blast
    with traced_step [OF assms(2) k t0] assms(2)
    have "reported d STATUS_COMM_ACQUIRE_FAILED (StorePayloadStatus d STATUS_COMM_ACQUIRE_FAILED s1)"
      by (intro reported_store)
    from agreed_finish [OF assms(2) best_effort_reported(1) [OF this] failed(4)] show ?thesis
      using kstep_finish [OF failed(4)] by simp
  next
    case (acquired s1 r2 b s2 r3 s3)
    obtain cs1 log1 where k1: "kstep d cs1 log1 (kernel_probed env d (kernel_entry d s)) s1"
      using acquired(1) kstep_primitive(1) kstep_refl by (metis (no_types, lifting) prod.inject)
    obtain cs2 log2 where k2: "kstep d cs2 log2 s1 s2"
      using acquired(2) valid_desc(2) [OF assms(1)] by (rule kstep_lead)
    obtain cs3 log3 t where k3: "kstep d cs3 log3 s2 t" "s3 = StorePayloadStatus d r3 t"
      using acquired(3) by (rule kstep_tail)
    have "traced d (((([] @ l) @ []) @ log1) @ log2 @ log3) t"
      using traced_step [OF assms(2) k3(1) traced_step [OF assms(2) k2 traced_step [OF assms(2) k1 t0]]] by simp
    moreover have "status_ready d t"
      using rdy status_ready_step [OF kstep_probed] status_ready_step [OF k1] status_ready_step [OF k2]
        status_ready_step [OF k3(1)] by blast
    ultimately have "reported d r3 s3" unfolding k3(2) using assms(2) by (intro reported_store)
    moreover have "status_ready d s3" using \<open>status_ready d t\<close> by (simp add: k3(2) status_ready_def kernel_frame)
    ultimately show ?thesis using acquired(4) by (intro release_agreed [OF assms(2)])
  qed
qed

lemma run_invalid_agreed:
  assumes "validate_reason d \<noteq> 0" "PayloadTraceWords d" "traced d l (kernel_entry d s)"
    "status_ready d s" "RunPayloadCopy env d s = (r, s')"
  shows "agreed d r s' \<and> ks_status s' ! 1 = validate_reason d"
proof -
  let ?s0 = "StorePayloadStatus d STATUS_INVALID_ARGUMENT (kernel_entry d s)"
  let ?s1 = "StorePayloadValidationReason d (validate_reason d) ?s0"
  have fin: "FinishPayloadTrace d STATUS_INVALID_ARGUMENT (BestEffortPayloadCompletionNotify env d ?s1) = (r, s')"
    using assms(1,5) by (simp add: RunPayloadCopy_def Let_def kernel_entry_def)
  have rdy: "status_ready d (kernel_entry d s)" using assms(4) by (simp add: status_ready_def kernel_entry_facts)
  have "reported d STATUS_INVALID_ARGUMENT ?s0" using assms(2,3) rdy by (intro reported_store)
  then have rep: "reported d STATUS_INVALID_ARGUMENT ?s1"
    by (rule reportedE) (rule reportedI [OF traced_stores(4)], assumption, simp_all add: kernel_frame)
  have "\<not> pd_status_word_count d < 2" using assms(4) by (auto simp: status_ready_def word_less_nat_alt)
  moreover have "1 < length (ks_status ?s0)" using assms(4) by (simp add: status_ready_def kernel_frame kernel_entry_facts)
  ultimately have "ks_status ?s1 ! 1 = validate_reason d"
    using assms(4) by (simp add: StorePayloadValidationReason_def status_ready_def Let_def)
  with agreed_finish [OF assms(2) best_effort_reported(1) [OF rep] fin] best_effort_reported(2) [OF rep]
  show ?thesis by simp
qed

text \<open>Property C12. Every run reports what it returns.  For a descriptor with a status array and a trace, the
  value the kernel returns is the status word, its mirror and the result word of the trace, on every
  path; a success is reported with return value zero, and a rejected descriptor with its validation
  reason.\<close>

theorem kernel_status_agrees:
  assumes "PayloadTraceWords d" "length (ks_trace s) = 82" "status_ready d s"
    "RunPayloadCopy env d s = (r, s')"
  shows "ks_status s' ! 0 = r \<and> ks_trace s' ! 16 = r \<and> ks_trace s' ! 15 = r \<and>
    (r = STATUS_SUCCESS \<longrightarrow> ks_status s' ! 1 = 0 \<and> ks_trace s' ! 17 = 0) \<and>
    (validate_reason d \<noteq> VALIDATE_OK \<longrightarrow>
       r = STATUS_INVALID_ARGUMENT \<and> ks_status s' ! 1 = validate_reason d)"
proof -
  have t: "traced d [(EVENT_KERNEL_ENTER, minus_one)] (kernel_entry d s)"
    using assms(1,2) by (rule kernel_entry_facts)
  show ?thesis
  proof (cases "validate_reason d = 0")
    case True
    have "17 \<le> length (ks_status s)" using assms(3) by (simp add: status_ready_def)
    from run_valid_agreed [OF True assms(1) t this assms(4)] True show ?thesis
      by (auto simp: agreed_def reported_def)
  next
    case False
    from False assms(4) have "r = STATUS_INVALID_ARGUMENT" by (rule invalid_steps)
    with run_invalid_agreed [OF False assms(1) t assms(3,4)] False show ?thesis
      by (auto simp: agreed_def reported_def)
  qed
qed

definition sample_env :: "unit hcomm_env" where
  "sample_env = \<lparr>he_call = (\<lambda>c w. (0, ())), he_mem = (\<lambda>w a. 0), he_write_with_notify = True,
     he_write_with_notify_nbi = False, he_fence_on_thread = True\<rparr>"

definition sample_kstate :: "unit kstate" where
  "sample_kstate = \<lparr>ks_status = replicate 17 minus_one, ks_trace = replicate 82 minus_one, ks_world = (),
     ks_calls = []\<rparr>"

definition traced_sample :: "PayloadRole \<Rightarrow> desc" where
  "traced_sample role = (sample_desc role)\<lparr>pd_reserved2_2 := 0x8000\<rparr>"

lemma sample_fields:
  "pd_magic (traced_sample role) = PAYLOAD_COPY_MAGIC" "pd_version (traced_sample role) = PAYLOAD_COPY_VERSION"
  "pd_size (traced_sample role) = PAYLOAD_COPY_DESC_SIZE" "pd_status_word (traced_sample role) = 0x7000"
  "pd_status_word_count (traced_sample role) = STATUS_WORD_COUNT" "pd_reserved2_2 (traced_sample role) = 0x8000"
  by (simp_all add: traced_sample_def sample_desc_def FillFlumePayloadCopyDesc_def payload_copy_desc_init_def
      Let_def)

lemma kernel_status_agrees_witness:
  "\<exists>r s'. RunPayloadCopy sample_env (traced_sample kRecv) sample_kstate = (r, s') \<and> ks_status s' ! 0 = r"
proof -
  obtain r s' where run: "RunPayloadCopy sample_env (traced_sample kRecv) sample_kstate = (r, s')" by fastforce
  moreover have "PayloadTraceWords (traced_sample kRecv)" "status_ready (traced_sample kRecv) sample_kstate"
    by (simp_all add: PayloadTraceWords_def status_ready_def HasPayloadDescHeader_def sample_fields sample_kstate_def)
  moreover have "length (ks_trace sample_kstate) = 82" by (simp add: sample_kstate_def)
  ultimately show ?thesis using kernel_status_agrees by blast
qed

section \<open>The kernel carries out the plan\<close>

text \<open>The call that a step of the host's plan stands for, with the operands of the descriptor, and the
  plan options that a descriptor encodes.\<close>

fun step_call :: "'w hcomm_env \<Rightarrow> desc \<Rightarrow> PayloadStep \<Rightarrow> hcomm_call" where
  "step_call env d kLocalCopyInputToHcclBuffer =
     HcommLocalCopyOnThread (pd_aicpu_thread d) (pd_local_hccl_buffer d) (pd_user_buffer d) (pd_bytes d)"
| "step_call env d kChannelNotifyRecordReady =
     HcommChannelNotifyRecordOnThread (pd_aicpu_thread d) (pd_channel_handle d) (pd_ready_notify_idx d)"
| "step_call env d kChannelNotifyWaitReady = HcommChannelNotifyWaitOnThread (pd_aicpu_thread d)
     (pd_channel_handle d) (pd_ready_notify_idx d) (pd_timeout_sec d)"
| "step_call env d kChannelReadRemoteToLocalHcclBuffer = HcommReadOnThread (pd_aicpu_thread d)
     (pd_channel_handle d) (pd_local_hccl_buffer d) (pd_remote_hccl_buffer d) (pd_bytes d)"
| "step_call env d kChannelNotifyWaitDone = HcommChannelNotifyWaitOnThread (pd_aicpu_thread d)
     (pd_channel_handle d) (pd_done_notify_idx d) (pd_timeout_sec d)"
| "step_call env d kChannelNotifyRecordDone =
     HcommChannelNotifyRecordOnThread (pd_aicpu_thread d) (pd_channel_handle d) (pd_done_notify_idx d)"
| "step_call env d kLocalCopyLocalHcclBufferToOutput =
     HcommLocalCopyOnThread (pd_aicpu_thread d) (pd_user_buffer d) (pd_local_hccl_buffer d) (pd_bytes d)"
| "step_call env d kChannelReadRemoteToOutput = HcommReadOnThread (pd_aicpu_thread d)
     (pd_channel_handle d) (pd_user_buffer d) (pd_remote_hccl_buffer d) (pd_bytes d)"
| "step_call env d kChannelWriteLocalToRemoteHcclBuffer = HcommWriteOnThread (pd_aicpu_thread d)
     (pd_channel_handle d) (pd_remote_hccl_buffer d) (pd_local_hccl_buffer d) (pd_bytes d)"
| "step_call env d kChannelWriteWithNotifyLocalToRemoteHcclBuffer =
     (if he_write_with_notify env then HcommWriteWithNotifyOnThread else HcommWriteWithNotifyNbiOnThread)
       (pd_aicpu_thread d) (pd_channel_handle d) (pd_remote_hccl_buffer d) (pd_local_hccl_buffer d)
       (pd_bytes d) (pd_ready_notify_idx d)"
| "step_call env d kChannelFence = HcommChannelFenceCompat env (pd_aicpu_thread d) (pd_channel_handle d)"

definition desc_role :: "desc \<Rightarrow> PayloadRole" where
  "desc_role d = (if pd_role d = NOTIFY_ROLE_SEND then kSend else kRecv)"

definition desc_options :: "desc \<Rightarrow> PayloadPlanOptions" where
  "desc_options d = default_options\<lparr>po_transfer_mode := desc_transfer (pd_completion_mode d),
     po_recv_path := (if pd_reserved2_1 d = RECV_PATH_DIRECT_OUTPUT then kDirectOutput else kLocalBuffer),
     po_completion_mode := (if desc_fenced (pd_completion_mode d) then CmChannelFence else kOrderedNotify)\<rparr>"

text \<open>The host sets the write-with-notify flag only together with the write-path flag.\<close>

definition flags_paired :: "desc \<Rightarrow> bool" where
  "flags_paired d \<longleftrightarrow> (pd_completion_mode d AND FLAG_WRITE_WITH_NOTIFY \<noteq> 0 \<longrightarrow>
     pd_completion_mode d AND FLAG_WRITE_PATH \<noteq> 0)"

lemmas mode_defs = PayloadWritePathEnabled_def PayloadWriteWithNotifyEnabled_def KernelCompletionMode_def
  PayloadRecvDirectOutputEnabled_def desc_transfer_def desc_fenced_def

lemma write_stage_call:
  assumes "sg_call (write_stage env d) \<noteq> None"
  shows "stage_calls (write_stage env d) 0 =
    [(step_call env d (if PayloadWriteWithNotifyEnabled d then kChannelWriteWithNotifyLocalToRemoteHcclBuffer
       else kChannelWriteLocalToRemoteHcclBuffer), 0)]"
  using assms by (auto simp: write_stage_def Let_def split: if_splits)

lemma fence_stage_calls:
  "ok_calls (fence_stage env d e f) =
    (if desc_fenced (pd_completion_mode d) then [(step_call env d kChannelFence, 0)] else [])"
  by (simp add: fence_stage_def mode_defs)

lemma body_calls_plan:
  assumes "flags_paired d" "\<forall>g\<in>set (body_stages env d). sg_call g \<noteq> None"
  shows "ok_calls (body_stages env d) =
    map (\<lambda>st. (step_call env d st, 0)) (pair_copy_steps (desc_role d) (desc_options d))"
proof (cases "pd_role d = NOTIFY_ROLE_SEND")
  case True
  have w: "PayloadWritePathEnabled d \<Longrightarrow> sg_call (write_stage env d) \<noteq> None"
    using assms(2) True by (auto simp: body_stages_def send_stages_def Let_def)
  show ?thesis
    using assms(1) write_stage_call [OF w] True
    by (auto simp: body_stages_def send_stages_def desc_role_def pair_copy_steps_def Let_def fence_stage_calls
        desc_options_def flags_paired_def desc_transfer_def PayloadWritePathEnabled_def
        PayloadWriteWithNotifyEnabled_def)
next
  case False
  show ?thesis
    using assms(1) False
    by (auto simp: body_stages_def recv_stages_def desc_role_def pair_copy_steps_def Let_def fence_stage_calls
        desc_options_def flags_paired_def desc_transfer_def PayloadWritePathEnabled_def
        PayloadRecvDirectOutputEnabled_def)
qed

text \<open>Property C10. A successful run is the plan.  When the kernel returns success, the HCOMM calls it made are
  exactly: the communicator's acquisition, the batch start and the wait for the host (where the
  descriptor asks for them), then one call per step of the host's pair-copy plan for the options the
  descriptor encodes, in the plan's order and with the descriptor's operands, then the matching
  notification, batch end and release; every one of them returned zero.\<close>

theorem kernel_refines_plan:
  assumes "validate_reason d = VALIDATE_OK" "flags_paired d" "RunPayloadCopy env d s = (STATUS_SUCCESS, s')"
  shows "ks_calls s' = ks_calls s @
    (if PayloadSkipCommAcquire d then [] else [(HcommAcquireComm (pd_comm_name d), 0)]) @
    (if PayloadBatchModeEnabled d then [(HcommBatchModeStart (pd_batch_tag d), 0)] else []) @
    (if use_thread_notify d
     then [(HcommThreadNotifyWaitOnThread (pd_aicpu_thread d) 0 (pd_timeout_sec d), 0)] else []) @
    map (\<lambda>st. (step_call env d st, 0)) (pair_copy_steps (desc_role d) (desc_options d)) @
    (if use_thread_notify d then [(host_notify d, 0)] else []) @
    (if PayloadBatchModeEnabled d then [(HcommBatchModeEnd (pd_batch_tag d), 0)] else []) @
    (if PayloadSkipCommAcquire d then [] else [(HcommReleaseComm (pd_comm_name d), 0)])"
proof -
  from assms(1,3) obtain cs log where k: "kstep d cs log (kernel_entry d s) s'" "run_shape env d 0 cs log"
    by (rule run_steps)
  then have cs: "cs = ok_calls (kernel_stages env d)" "\<forall>g\<in>set (body_stages env d). sg_call g \<noteq> None"
    by (simp_all add: run_shape_def)
  have "ks_calls s' = ks_calls s @ ok_calls (kernel_stages env d)"
    using k(1) cs(1) by (simp add: kstep_def kernel_entry_facts)
  moreover note body_calls_plan [OF assms(2) cs(2)]
  ultimately show ?thesis by (simp add: kernel_stages_def lead_stages_def tail_stages_def)
qed


section \<open>Success\<close>

definition all_succeed :: "'w hcomm_env \<Rightarrow> bool" where
  "all_succeed env \<longleftrightarrow> (\<forall>c w. fst (he_call env c w) = 0)"

lemma hcall_succeeds: "all_succeed env \<Longrightarrow> fst (hcall env c s) = 0"
  by (simp add: all_succeed_def hcall_def split_beta)

lemma traced_call_succeeds: "all_succeed env \<Longrightarrow> fst (traced_call env d e f (Some c) s) = 0"
  by (simp add: traced_call_def Let_def split_beta hcall_succeeds)

lemma primitive_succeeds:
  "all_succeed env \<Longrightarrow> sg_call g \<noteq> None \<Longrightarrow> fst (run_primitive env d g s) = 0"
  by (auto simp: run_primitive_def split_beta traced_call_succeeds)

lemma stages_succeed:
  assumes "all_succeed env" "\<forall>g\<in>set gs. sg_call g \<noteq> None"
  shows "fst (run_stages env d gs s) = 0"
  using assms(2)
proof (induction gs arbitrary: s)
  case (Cons g gs)
  then show ?case using primitive_succeeds [OF assms(1), of g d s] by (simp add: split_beta)
qed simp

lemma open_succeeds: "all_succeed env \<Longrightarrow> sg_call g \<noteq> None \<Longrightarrow> fst (open_phase env d g s) = 0"
  using primitive_succeeds [of env g d s] by (simp add: open_phase_def split_beta)

lemma close_succeeds: "all_succeed env \<Longrightarrow> sg_call g \<noteq> None \<Longrightarrow> fst (close_phase env d g 0 s) = 0"
  by (auto simp: close_phase_def Let_def split_beta traced_call_succeeds)

lemma opt_close_succeeds:
  assumes "all_succeed env" "sg_call g \<noteq> None"
    "(if c then close_phase env d g 0 s else (0, s)) = (r, s')"
  shows "r = 0"
  using assms(3) close_succeeds [OF assms(1,2), of d s] by (auto split: if_splits)

lemma lead_succeeds:
  assumes "all_succeed env" "\<forall>g\<in>set (body_stages env d). sg_call g \<noteq> None"
    "pd_role d = 0 \<or> pd_role d = 1" "batch_and_copy env d s = (r, b, s')"
  shows "r = 0"
proof -
  have "fst (RunPayloadCopyBody env d t) = 0" for t
    using stages_succeed [OF assms(1,2)] assms(3) by (auto simp: RunPayloadCopyBody_def body_stages_def)
  moreover have "fst (open_phase env d (batch_start_stage d) t) = 0" "fst (open_phase env d (host_wait_stage d) t) = 0" for t
    by (rule open_succeeds [OF assms(1)]; simp)+
  ultimately show ?thesis using assms(4)
    by (simp add: batch_and_copy_def Let_def split: if_splits prod.splits) (metis fst_conv)+
qed

lemma tail_succeeds:
  assumes "all_succeed env" "notify_and_end env d 0 b s = (r, s')"
  shows "r = 0"
proof -
  have "fst (close_phase env d (host_record_stage d) 0 t) = 0" "fst (close_phase env d (batch_end_stage d) 0 t) = 0" for t
    by (rule close_succeeds [OF assms(1)]; simp)+
  with assms(2) show ?thesis
    by (simp add: notify_and_end_def Let_def split: if_splits prod.splits) (metis fst_conv)+
qed

lemma run_succeeds:
  assumes "validate_reason d = VALIDATE_OK" "all_succeed env"
    "PayloadWriteWithNotifyEnabled d \<longrightarrow> he_write_with_notify env \<or> he_write_with_notify_nbi env"
  shows "fst (RunPayloadCopy env d s) = STATUS_SUCCESS"
proof -
  have body: "\<forall>g\<in>set (body_stages env d). sg_call g \<noteq> None"
    using assms(3) by (auto simp: body_stages_def send_stages_def recv_stages_def write_stage_def
        fence_stage_def Let_def split: if_splits)
  obtain r s' where run: "RunPayloadCopy env d s = (r, s')" by fastforce
  from assms(1) run have "r = 0"
  proof (cases rule: run_unfold)
    case (failed q s1)
    then show ?thesis using primitive_succeeds [OF assms(2), of "acquire_stage d" d "kernel_probed env d (kernel_entry d s)"]
      by simp
  next
    case (acquired s1 r2 b s2 r3 s3)
    have "r2 = 0" using lead_succeeds [OF assms(2) body valid_desc(2) [OF assms(1)] acquired(2)] .
    with acquired(3) have r3: "r3 = 0" using tail_succeeds [OF assms(2)] by simp
    from acquired(4) show ?thesis unfolding r3
    proof (rule release_unfold)
      fix t1 t2 r1
      assume "(if \<not> PayloadSkipCommAcquire d then close_phase env d (release_stage d) 0 t1 else (0, t1)) = (r1, t2)"
        and fin: "FinishPayloadTrace d r1 (if r1 \<noteq> 0 then StorePayloadStatus d r1 t2
          else if 0 = (0 :: u32) then StorePayloadPrimitiveRet d 0 (StorePayloadStatus d 0 t2) else t2) = (r, s')"
      then have "r1 = 0" by (intro opt_close_succeeds [OF assms(2)]) simp_all
      with kstep_finish [OF fin] show "r = 0" by simp
    qed
  qed
  with run show ?thesis by simp
qed

text \<open>Property C13. Success is reachable in every mode.  If every HCOMM primitive the kernel calls returns zero and
  the build has the primitive the mode needs, a valid descriptor's run returns success.\<close>

theorem kernel_succeeds:
  assumes "validate_reason d = VALIDATE_OK" "all_succeed env"
    "PayloadWriteWithNotifyEnabled d \<longrightarrow> he_write_with_notify env \<or> he_write_with_notify_nbi env"
  shows "fst (RunPayloadCopy env d s) = STATUS_SUCCESS"
  using assms by (rule run_succeeds)

lemma validate_reserved [simp]: "validate_reason (d\<lparr>pd_reserved2_2 := x\<rparr>) = validate_reason d"
  by (simp add: validate_reason_def)

lemma traced_sample_valid: "validate_reason (traced_sample role) = 0"
  unfolding traced_sample_def validate_reserved
  by (rule filled_fields(1) [OF sample_fill_ok _ sample_desc_def]) simp

lemma sample_succeeds: "all_succeed sample_env"
  by (simp add: all_succeed_def sample_env_def)

lemma kernel_succeeds_witness: "fst (RunPayloadCopy sample_env (traced_sample kSend) sample_kstate) = STATUS_SUCCESS"
  by (rule kernel_succeeds [OF traced_sample_valid sample_succeeds]) (simp add: sample_env_def)

lemma kernel_refines_plan_witness:
  "\<exists>s'. RunPayloadCopy sample_env (traced_sample kSend) sample_kstate = (STATUS_SUCCESS, s') \<and>
     length (ks_calls s') = 10"
proof -
  let ?d = "traced_sample kSend"
  have mode: "pd_completion_mode ?d = payload_completion_mode False PROTOCOL_ROCE sample_options"
    unfolding traced_sample_def using filled_fields(2) [OF sample_fill_ok _ sample_desc_def, of kSend]
    by (simp add: sample_resources_def)
  have batch: "pd_reserved2_0 ?d = 0" "pd_role ?d = 0" "pd_thread_notify_mode ?d = 1"
    by (simp_all add: traced_sample_def sample_desc_def FillFlumePayloadCopyDesc_def payload_copy_desc_init_def
        Let_def sample_options_def sample_resources_def)
  have flags: "flags_paired ?d" "\<not> PayloadSkipCommAcquire ?d" "PayloadBatchModeEnabled ?d" "use_thread_notify ?d"
    "desc_role ?d = kSend" "po_transfer_mode (desc_options ?d) = TmWriteWithNotify"
    "po_completion_mode (desc_options ?d) = CmChannelFence"
    unfolding flags_paired_def PayloadSkipCommAcquire_def PayloadBatchModeEnabled_def use_thread_notify_def
      desc_role_def desc_options_def desc_transfer_def desc_fenced_def mode payload_completion_mode_flags
    by (simp_all add: batch sample_options_def)
  have "fst (RunPayloadCopy sample_env ?d sample_kstate) = 0"
    by (rule run_succeeds [OF traced_sample_valid sample_succeeds]) (simp add: sample_env_def)
  then obtain s' where run: "RunPayloadCopy sample_env ?d sample_kstate = (0, s')" by (metis prod.collapse)
  from kernel_refines_plan [OF traced_sample_valid flags(1) run] run show ?thesis
    by (simp add: flags pair_copy_steps_def Let_def sample_kstate_def)
qed

text \<open>A descriptor with the write-with-notify flag but not the write-path flag passes validation, but a
  sender that runs it neither writes the payload nor records the ready notification.\<close>

lemma notify_without_write_path:
  assumes "PayloadWriteWithNotifyEnabled d" "\<not> PayloadWritePathEnabled d"
  shows "map sg_done (send_stages env d) = [EVENT_SEND_LOCAL_COPY_DONE, EVENT_SEND_DONE_WAIT_DONE]"
  using assms by (simp add: send_stages_def Let_def)

end
