(* ===== verification/Payload_Trace.thy ===== *)
theory Payload_Trace
  imports Payload_Run
begin

text \<open>
  How the host judges a kernel run (\<open>src/core/client.cc\<close>): it copies the status and trace arrays back
  from the device, reconstructs the event sequence from the circular buffer, and compares it with the
  sequence it expects for the modes the trace header reports.  The arrays are the lists the kernel
  wrote; the host's copies are local arrays, so the null-pointer guards of the C++ functions have no
  counterpart here, and \<open>read_ok\<close> stands for \<open>read_status == ACL_SUCCESS\<close>.

  The theorems show that the host's gate is exact: it accepts a run of a valid descriptor if and only
  if the kernel returned success.
\<close>

section \<open>Reading the trace\<close>

definition InitPayloadTraceWords :: "u32 list" where
  "InitPayloadTraceWords = replicate (unat TRACE_WORD_COUNT) minus_one"

definition ring_words :: "nat \<Rightarrow> u32 list \<Rightarrow> u32 list" where
  "ring_words base t =
    (if t ! 1 \<noteq> TRACE_WORD_COUNT then []
     else let count = unat (t ! 4) in
       if count = 0 then []
       else if count \<le> TRACE_EVENT_CAPACITY then map (\<lambda>i. t ! (base + i)) [0..<count]
       else let first = count mod TRACE_EVENT_CAPACITY in
         map (\<lambda>i. t ! (base + (first + i) mod TRACE_EVENT_CAPACITY)) [0..<TRACE_EVENT_CAPACITY])"

definition PayloadTraceEvents :: "u32 list \<Rightarrow> u32 list" where
  "PayloadTraceEvents t = ring_words TRACE_HEADER_WORD_COUNT t"

definition PayloadTraceReturns :: "u32 list \<Rightarrow> u32 list" where
  "PayloadTraceReturns t = ring_words (TRACE_HEADER_WORD_COUNT + TRACE_EVENT_CAPACITY) t"

definition PayloadTraceContainsEvent :: "u32 list \<Rightarrow> u32 \<Rightarrow> bool" where
  "PayloadTraceContainsEvent t event \<longleftrightarrow>
    t ! 1 = TRACE_WORD_COUNT \<and>
    (let count = unat (t ! 4) in count \<noteq> 0 \<and> count \<le> TRACE_EVENT_CAPACITY \<and>
      list_ex (\<lambda>i. t ! (TRACE_HEADER_WORD_COUNT + i) = event) [0..<count])"

definition PayloadTraceUsesWriteNotifyNbi :: "u32 list \<Rightarrow> bool" where
  "PayloadTraceUsesWriteNotifyNbi t \<longleftrightarrow>
    PayloadTraceContainsEvent t EVENT_SEND_REMOTE_WRITE_NOTIFY_NBI_ENTER \<or>
    PayloadTraceContainsEvent t EVENT_SEND_REMOTE_WRITE_NOTIFY_NBI_DONE"

definition PayloadTraceWriteNotifyBackend :: "u32 list \<Rightarrow> string" where
  "PayloadTraceWriteNotifyBackend t =
    (if \<not> trace_live t then ''missing''
     else if t ! 12 AND FLAG_WRITE_WITH_NOTIFY = 0 then ''none''
     else if t ! 5 = NOTIFY_ROLE_RECV then ''peer''
     else if PayloadTraceUsesWriteNotifyNbi t then ''nbi''
     else if PayloadTraceContainsEvent t EVENT_SEND_REMOTE_WRITE_NOTIFY_ENTER \<or>
        PayloadTraceContainsEvent t EVENT_SEND_REMOTE_WRITE_NOTIFY_DONE then ''blocking''
     else ''missing'')"

section \<open>The expected sequence\<close>

definition ExpectedPayloadTraceEvents :: "u32 list \<Rightarrow> bool \<Rightarrow> u32 list" where
  "ExpectedPayloadTraceEvents t include_thread_notify =
    (let batch_enabled = (t ! 10 \<noteq> 1);
         skip_comm_acquire = (t ! 12 AND (FLAG_SKIP_COMM_ACQUIRE OR FLAG_CHANNEL_HANDLE_BINDING) \<noteq> 0);
         write_path = (t ! 12 AND FLAG_WRITE_PATH \<noteq> 0);
         write_with_notify = (t ! 12 AND FLAG_WRITE_WITH_NOTIFY \<noteq> 0);
         drain = (t ! 12 AND COMPLETION_MODE_MASK = COMPLETION_CHANNEL_DRAIN) in
     [EVENT_KERNEL_ENTER] @
     (if \<not> skip_comm_acquire then [EVENT_COMM_ACQUIRE_ENTER, EVENT_COMM_ACQUIRE_DONE] else []) @
     (if batch_enabled then [EVENT_BATCH_START_ENTER, EVENT_BATCH_START_DONE] else []) @
     (if include_thread_notify then [EVENT_THREAD_NOTIFY_WAIT_ENTER, EVENT_THREAD_NOTIFY_WAIT_DONE] else []) @
     (if t ! 5 = NOTIFY_ROLE_SEND then
        [EVENT_SEND_LOCAL_COPY_ENTER, EVENT_SEND_LOCAL_COPY_DONE] @
        (if write_path then
           (if write_with_notify then
              (if PayloadTraceUsesWriteNotifyNbi t
               then [EVENT_SEND_REMOTE_WRITE_NOTIFY_NBI_ENTER, EVENT_SEND_REMOTE_WRITE_NOTIFY_NBI_DONE]
               else [EVENT_SEND_REMOTE_WRITE_NOTIFY_ENTER, EVENT_SEND_REMOTE_WRITE_NOTIFY_DONE])
            else [EVENT_SEND_REMOTE_WRITE_ENTER, EVENT_SEND_REMOTE_WRITE_DONE]) @
           (if drain then [EVENT_SEND_CHANNEL_FENCE_ENTER, EVENT_SEND_CHANNEL_FENCE_DONE] else [])
         else []) @
        (if \<not> write_with_notify then [EVENT_SEND_READY_RECORD_ENTER, EVENT_SEND_READY_RECORD_DONE] else []) @
        [EVENT_SEND_DONE_WAIT_ENTER, EVENT_SEND_DONE_WAIT_DONE]
      else if t ! 5 = NOTIFY_ROLE_RECV then
        [EVENT_RECV_READY_WAIT_ENTER, EVENT_RECV_READY_WAIT_DONE] @
        (if \<not> write_path then
           [EVENT_RECV_REMOTE_READ_ENTER, EVENT_RECV_REMOTE_READ_DONE] @
           (if drain then [EVENT_RECV_CHANNEL_FENCE_ENTER, EVENT_RECV_CHANNEL_FENCE_DONE] else [])
         else []) @
        (if write_path \<or> t ! 11 \<noteq> 1
         then [EVENT_RECV_OUTPUT_COPY_ENTER, EVENT_RECV_OUTPUT_COPY_DONE] else []) @
        [EVENT_RECV_DONE_RECORD_ENTER, EVENT_RECV_DONE_RECORD_DONE]
      else []) @
     (if include_thread_notify
      then [EVENT_THREAD_NOTIFY_RECORD_ENTER, EVENT_THREAD_NOTIFY_RECORD_DONE] else []) @
     (if batch_enabled then [EVENT_BATCH_END_ENTER, EVENT_BATCH_END_DONE] else []) @
     (if \<not> skip_comm_acquire then [EVENT_COMM_RELEASE_ENTER, EVENT_COMM_RELEASE_DONE] else []) @
     [EVENT_KERNEL_EXIT])"

definition PayloadTraceOrderState :: "u32 list \<Rightarrow> u32 list \<Rightarrow> string" where
  "PayloadTraceOrderState t events =
    (if \<not> trace_live t then ''missing''
     else if TRACE_EVENT_CAPACITY < unat (t ! 4) then ''truncated''
     else if events = ExpectedPayloadTraceEvents t False \<or> events = ExpectedPayloadTraceEvents t True
       then ''passed'' else ''observed'')"

definition PayloadTraceOrderMatches :: "u32 list \<Rightarrow> u32 list \<Rightarrow> bool \<Rightarrow> bool" where
  "PayloadTraceOrderMatches t events include_thread_notify \<longleftrightarrow>
    trace_live t \<and> unat (t ! 4) \<le> TRACE_EVENT_CAPACITY \<and>
    events = ExpectedPayloadTraceEvents t include_thread_notify"

definition PayloadTraceEventIsEnter :: "u32 \<Rightarrow> bool" where
  "PayloadTraceEventIsEnter event \<longleftrightarrow>
    event \<in> set [EVENT_KERNEL_ENTER, EVENT_COMM_ACQUIRE_ENTER, EVENT_BATCH_START_ENTER,
      EVENT_THREAD_NOTIFY_WAIT_ENTER, EVENT_SEND_LOCAL_COPY_ENTER, EVENT_SEND_REMOTE_WRITE_ENTER,
      EVENT_SEND_CHANNEL_FENCE_ENTER, EVENT_SEND_REMOTE_WRITE_NOTIFY_ENTER,
      EVENT_SEND_REMOTE_WRITE_NOTIFY_NBI_ENTER, EVENT_SEND_READY_RECORD_ENTER,
      EVENT_SEND_DONE_WAIT_ENTER, EVENT_RECV_READY_WAIT_ENTER, EVENT_RECV_REMOTE_READ_ENTER,
      EVENT_RECV_CHANNEL_FENCE_ENTER, EVENT_RECV_OUTPUT_COPY_ENTER, EVENT_RECV_DONE_RECORD_ENTER,
      EVENT_THREAD_NOTIFY_RECORD_ENTER, EVENT_BATCH_END_ENTER, EVENT_COMM_RELEASE_ENTER]"

definition expected_return :: "u32 \<Rightarrow> u32" where
  "expected_return event = (if PayloadTraceEventIsEnter event then minus_one else 0)"

definition PayloadTraceReturnOrderState :: "u32 list \<Rightarrow> u32 list \<Rightarrow> u32 list \<Rightarrow> string" where
  "PayloadTraceReturnOrderState t events returns =
    (if \<not> trace_live t then ''missing''
     else if events = [] \<or> length events \<noteq> length returns then ''missing''
     else if TRACE_EVENT_CAPACITY < unat (t ! 4) then ''truncated''
     else if PayloadTraceOrderState t events \<noteq> ''passed'' then ''observed''
     else if list_all (\<lambda>(e, r). r = expected_return e) (zip events returns) then ''passed'' else ''observed'')"

definition PayloadTraceReturnOrderMatches :: "u32 list \<Rightarrow> u32 list \<Rightarrow> u32 list \<Rightarrow> bool \<Rightarrow> bool" where
  "PayloadTraceReturnOrderMatches t events returns include_thread_notify \<longleftrightarrow>
    trace_live t \<and> events \<noteq> [] \<and> length events = length returns \<and> unat (t ! 4) \<le> TRACE_EVENT_CAPACITY \<and>
    PayloadTraceOrderMatches t events include_thread_notify \<and>
    list_all (\<lambda>(e, r). r = expected_return e) (zip events returns)"

definition PayloadTracePassed :: "u32 list \<Rightarrow> bool \<Rightarrow> bool \<Rightarrow> bool" where
  "PayloadTracePassed t read_ok include_thread_notify \<longleftrightarrow>
    read_ok \<and> trace_live t \<and> t ! 2 = EVENT_KERNEL_EXIT \<and> t ! 3 = 0 \<and>
    t ! 15 = STATUS_SUCCESS \<and> t ! 16 = STATUS_SUCCESS \<and> t ! 17 = 0 \<and>
    PayloadTraceOrderMatches t (PayloadTraceEvents t) include_thread_notify \<and>
    PayloadTraceReturnOrderMatches t (PayloadTraceEvents t) (PayloadTraceReturns t) include_thread_notify"

definition join64 :: "u32 \<Rightarrow> u32 \<Rightarrow> u64" where
  "join64 lo hi = ucast lo OR push_bit 32 (ucast hi)"

definition PayloadTraceHeaderMatchesDesc :: "desc \<Rightarrow> u32 list \<Rightarrow> bool \<Rightarrow> bool" where
  "PayloadTraceHeaderMatchesDesc d t read_ok \<longleftrightarrow>
    read_ok \<and> trace_live t \<and> t ! 5 = pd_role d \<and> t ! 6 = pd_local_rank d \<and> t ! 7 = pd_peer_rank d \<and>
    join64 (t ! 8) (t ! 9) = pd_bytes d \<and> t ! 10 = ucast (pd_reserved2_0 d) \<and>
    t ! 11 = ucast (pd_reserved2_1 d) \<and> t ! 12 = pd_completion_mode d \<and>
    t ! 13 = pd_ready_notify_idx d \<and> t ! 14 = pd_done_notify_idx d"

section \<open>The gate\<close>

definition PayloadEchoBytes :: "u32 list \<Rightarrow> u64" where
  "PayloadEchoBytes st = join64 (st ! 4) (st ! 5)"

definition PayloadEchoDescriptorFingerprint :: "u32 list \<Rightarrow> u64" where
  "PayloadEchoDescriptorFingerprint st = join64 (st ! 8) (st ! 9)"

text \<open>The checks of \<open>TryLaunchHcommPayloadCopyDirectAclrt\<close> after the arrays have been copied back.\<close>

definition payload_gate :: "PayloadRole \<Rightarrow> u32 \<Rightarrow> u64 \<Rightarrow> u32 \<Rightarrow> bool \<Rightarrow> desc \<Rightarrow> u32 list \<Rightarrow> u32 list \<Rightarrow> bool \<Rightarrow>
    flume_status" where
  "payload_gate role peer_rank bts rank host_thread_notify_ready d st t trace_ok =
    (if st ! 0 \<noteq> 0 then FLUME_ERR_BACKEND
     else if st ! 1 \<noteq> 0 then FLUME_ERR_BACKEND
     else if st ! 2 \<noteq> (if role = kSend then NOTIFY_ROLE_SEND else NOTIFY_ROLE_RECV) \<or> st ! 3 \<noteq> peer_rank \<or>
        PayloadEchoBytes st \<noteq> bts \<or> st ! 6 \<noteq> rank \<or> st ! 7 \<noteq> pd_completion_mode d \<or>
        PayloadEchoDescriptorFingerprint st \<noteq> desc_fingerprint d then FLUME_ERR_BACKEND
     else if \<not> PayloadTraceHeaderMatchesDesc d t trace_ok then FLUME_ERR_BACKEND
     else if \<not> PayloadTracePassed t trace_ok host_thread_notify_ready then FLUME_ERR_BACKEND
     else FLUME_OK)"

section \<open>The events of a traced run\<close>

lemma join64_halves: "join64 (low32 v) (high32 v) = v"
proof -
  have m: "(0xFFFFFFFF :: u64) = mask 32" by (simp add: mask_eq_exp_minus_1)
  show ?thesis
    unfolding join64_def low32_def high32_def m
    by (rule bit_word_eqI) (auto simp: bit_simps)
qed

lemma traced_ring:
  assumes "traced d log s" "log \<noteq> []" "length log \<le> 32"
  shows "unat (ks_trace s ! 4) = length log" "PayloadTraceEvents (ks_trace s) = map fst log"
    "PayloadTraceReturns (ks_trace s) = map snd log"
    "PayloadTraceContainsEvent (ks_trace s) e \<longleftrightarrow> e \<in> fst ` set log"
proof -
  have t: "trace_live (ks_trace s)" "ks_trace s ! 4 = of_nat (length log)"
    "\<And>i. i < length log \<Longrightarrow> ks_trace s ! (18 + i) = fst (log ! i) \<and> ks_trace s ! (50 + i) = snd (log ! i)"
    using assms by (auto simp: traced_def)
  have "length log mod 2 ^ 32 = length log" using assms(3) by simp
  then show n: "unat (ks_trace s ! 4) = length log" by (simp add: t(2) unat_of_nat)
  show ev: "PayloadTraceEvents (ks_trace s) = map fst log" and "PayloadTraceReturns (ks_trace s) = map snd log"
    using t(1,3) assms(2,3) n
    by (auto simp: PayloadTraceEvents_def PayloadTraceReturns_def ring_words_def trace_live_def
        intro!: nth_equalityI)
  have "PayloadTraceContainsEvent (ks_trace s) e \<longleftrightarrow> e \<in> set (PayloadTraceEvents (ks_trace s))"
    using t(1) assms(2,3) n
    by (auto simp: PayloadTraceContainsEvent_def PayloadTraceEvents_def ring_words_def trace_live_def list_ex_iff)
  with ev show "PayloadTraceContainsEvent (ks_trace s) e \<longleftrightarrow> e \<in> fst ` set log" by simp
qed

section \<open>The gate is exact\<close>

text \<open>The events of a successful run.\<close>

abbreviation run_log :: "'w hcomm_env \<Rightarrow> desc \<Rightarrow> (u32 \<times> u32) list" where
  "run_log env d \<equiv> (EVENT_KERNEL_ENTER, minus_one) # ok_log (kernel_stages env d) @ [(EVENT_KERNEL_EXIT, 0)]"

lemmas stage_defs = kernel_stages_def lead_stages_def tail_stages_def body_stages_def send_stages_def
  recv_stages_def write_stage_def fence_stage_def

lemma kernel_stages_length: "length (kernel_stages env d) \<le> 11"
  by (simp add: stage_defs Let_def)

lemma ok_log_length: "length (ok_log gs) = 2 * length gs"
  by (induction gs) (simp_all add: stage_log_def)

lemma run_log_length: "length (run_log env d) \<le> 32"
  using kernel_stages_length [of env d] by (simp only: length_append list.size ok_log_length)

definition stage_events :: "stage list \<Rightarrow> u32 list" where
  "stage_events gs = concat (map (\<lambda>g. [sg_enter g, sg_done g]) gs)"

lemma stage_events_simps:
  "stage_events [] = []" "stage_events (g # gs) = [sg_enter g, sg_done g] @ stage_events gs"
  "stage_events (gs @ hs) = stage_events gs @ stage_events hs"
  "stage_events (if c then gs else hs) = (if c then stage_events gs else stage_events hs)"
  by (simp_all add: stage_events_def)

lemma ok_log_events: "map fst (ok_log gs) = stage_events gs"
  by (induction gs) (simp_all add: stage_log_def stage_events_simps)

lemma stage_enter_if: "sg_enter (if c then g else h) = (if c then sg_enter g else sg_enter h)"
  "sg_done (if c then g else h) = (if c then sg_done g else sg_done h)"
  by simp_all

definition write_events :: "'w hcomm_env \<Rightarrow> bool \<Rightarrow> u32 list" where
  "write_events env notify = (if notify
     then if \<not> he_write_with_notify env \<and> he_write_with_notify_nbi env
       then [EVENT_SEND_REMOTE_WRITE_NOTIFY_NBI_ENTER, EVENT_SEND_REMOTE_WRITE_NOTIFY_NBI_DONE]
       else [EVENT_SEND_REMOTE_WRITE_NOTIFY_ENTER, EVENT_SEND_REMOTE_WRITE_NOTIFY_DONE]
     else [EVENT_SEND_REMOTE_WRITE_ENTER, EVENT_SEND_REMOTE_WRITE_DONE])"

lemma write_stage_events:
  "[sg_enter (write_stage env d), sg_done (write_stage env d)] = write_events env (PayloadWriteWithNotifyEnabled d)"
  by (simp add: write_stage_def write_events_def Let_def)

lemma kernel_events:
  "stage_events (kernel_stages env d) =
    (if PayloadSkipCommAcquire d then [] else [EVENT_COMM_ACQUIRE_ENTER, EVENT_COMM_ACQUIRE_DONE]) @
    (if PayloadBatchModeEnabled d then [EVENT_BATCH_START_ENTER, EVENT_BATCH_START_DONE] else []) @
    (if use_thread_notify d then [EVENT_THREAD_NOTIFY_WAIT_ENTER, EVENT_THREAD_NOTIFY_WAIT_DONE] else []) @
    (if pd_role d = NOTIFY_ROLE_SEND then
       [EVENT_SEND_LOCAL_COPY_ENTER, EVENT_SEND_LOCAL_COPY_DONE] @
       (if PayloadWritePathEnabled d then write_events env (PayloadWriteWithNotifyEnabled d) @
          (if KernelCompletionMode d = COMPLETION_CHANNEL_DRAIN
           then [EVENT_SEND_CHANNEL_FENCE_ENTER, EVENT_SEND_CHANNEL_FENCE_DONE] else [])
        else []) @
       (if \<not> PayloadWriteWithNotifyEnabled d
        then [EVENT_SEND_READY_RECORD_ENTER, EVENT_SEND_READY_RECORD_DONE] else []) @
       [EVENT_SEND_DONE_WAIT_ENTER, EVENT_SEND_DONE_WAIT_DONE]
     else
       [EVENT_RECV_READY_WAIT_ENTER, EVENT_RECV_READY_WAIT_DONE] @
       (if \<not> PayloadWritePathEnabled d then [EVENT_RECV_REMOTE_READ_ENTER, EVENT_RECV_REMOTE_READ_DONE] @
          (if KernelCompletionMode d = COMPLETION_CHANNEL_DRAIN
           then [EVENT_RECV_CHANNEL_FENCE_ENTER, EVENT_RECV_CHANNEL_FENCE_DONE] else [])
        else []) @
       (if PayloadWritePathEnabled d \<or> \<not> PayloadRecvDirectOutputEnabled d
        then [EVENT_RECV_OUTPUT_COPY_ENTER, EVENT_RECV_OUTPUT_COPY_DONE] else []) @
       [EVENT_RECV_DONE_RECORD_ENTER, EVENT_RECV_DONE_RECORD_DONE]) @
    (if use_thread_notify d then [EVENT_THREAD_NOTIFY_RECORD_ENTER, EVENT_THREAD_NOTIFY_RECORD_DONE] else []) @
    (if PayloadBatchModeEnabled d then [EVENT_BATCH_END_ENTER, EVENT_BATCH_END_DONE] else []) @
    (if PayloadSkipCommAcquire d then [] else [EVENT_COMM_RELEASE_ENTER, EVENT_COMM_RELEASE_DONE])"
  unfolding kernel_stages_def lead_stages_def tail_stages_def body_stages_def send_stages_def recv_stages_def
    fence_stage_def Let_def
  by (simp only: stage_events_simps write_stage_events append_assoc append_Nil append_Nil2 stage.select_convs)

lemma run_log_nbi:
  "37 \<in> set (stage_events (kernel_stages env d)) \<or> 38 \<in> set (stage_events (kernel_stages env d)) \<longleftrightarrow>
    pd_role d = NOTIFY_ROLE_SEND \<and> PayloadWritePathEnabled d \<and> PayloadWriteWithNotifyEnabled d \<and>
    \<not> he_write_with_notify env \<and> he_write_with_notify_nbi env"
  unfolding kernel_events write_events_def by (auto split: if_splits)

lemma run_log_events: "map fst (run_log env d) =
    [EVENT_KERNEL_ENTER] @ stage_events (kernel_stages env d) @ [EVENT_KERNEL_EXIT]"
  by (simp add: ok_log_events)

lemma narrow_eq_1: "unat v < 2 ^ 32 \<Longrightarrow> (ucast (v :: u64) :: u32) = 1 \<longleftrightarrow> v = 1"
  by (metis unat_narrow_u32 unsigned_1 unsigned_word_eqI)

text \<open>The two mode words that the trace header truncates are written by the host as 0 or 1.\<close>

definition modes_narrow :: "desc \<Rightarrow> bool" where
  "modes_narrow d \<longleftrightarrow> unat (pd_reserved2_0 d) < 2 ^ 32 \<and> unat (pd_reserved2_1 d) < 2 ^ 32"

lemma expected_events:
  assumes "traced d (run_log env d) s" "modes_narrow d" "pd_role d = 0 \<or> pd_role d = 1"
  shows "ExpectedPayloadTraceEvents (ks_trace s) (use_thread_notify d) = map fst (run_log env d)"
proof -
  have h: "ks_trace s ! 5 = pd_role d" "ks_trace s ! 10 = ucast (pd_reserved2_0 d)"
    "ks_trace s ! 11 = ucast (pd_reserved2_1 d)" "ks_trace s ! 12 = pd_completion_mode d"
    using assms(1) by (simp_all add: traced_def)
  have m: "(ks_trace s ! 10 \<noteq> 1) = PayloadBatchModeEnabled d"
    "(ks_trace s ! 11 \<noteq> 1) = (\<not> PayloadRecvDirectOutputEnabled d)"
    using assms(2) by (simp_all add: h narrow_eq_1 modes_narrow_def PayloadBatchModeEnabled_def
        PayloadRecvDirectOutputEnabled_def)
  have c: "(ks_trace s ! 12 AND FLAG_WRITE_PATH \<noteq> 0) = PayloadWritePathEnabled d"
    "(ks_trace s ! 12 AND FLAG_WRITE_WITH_NOTIFY \<noteq> 0) = PayloadWriteWithNotifyEnabled d"
    "(ks_trace s ! 12 AND (FLAG_SKIP_COMM_ACQUIRE OR FLAG_CHANNEL_HANDLE_BINDING) \<noteq> 0) = PayloadSkipCommAcquire d"
    "(ks_trace s ! 12 AND COMPLETION_MODE_MASK = COMPLETION_CHANNEL_DRAIN) =
      (KernelCompletionMode d = COMPLETION_CHANNEL_DRAIN)"
    unfolding h PayloadWritePathEnabled_def PayloadWriteWithNotifyEnabled_def PayloadSkipCommAcquire_def
      KernelCompletionMode_def by (rule refl)+
  have "fst ` set (run_log env d) = set (map fst (run_log env d))" by simp
  also have "\<dots> = {1, 34} \<union> set (stage_events (kernel_stages env d))"
    unfolding run_log_events by auto
  finally have ev: "fst ` set (run_log env d) = {1, 34} \<union> set (stage_events (kernel_stages env d))" .
  have nbi: "PayloadTraceUsesWriteNotifyNbi (ks_trace s) \<longleftrightarrow>
      pd_role d = NOTIFY_ROLE_SEND \<and> PayloadWritePathEnabled d \<and> PayloadWriteWithNotifyEnabled d \<and>
      \<not> he_write_with_notify env \<and> he_write_with_notify_nbi env"
    unfolding PayloadTraceUsesWriteNotifyNbi_def traced_ring(4) [OF assms(1) list.distinct(2) run_log_length]
      ev run_log_nbi [symmetric] by simp
  show ?thesis
    unfolding ExpectedPayloadTraceEvents_def Let_def m c h(1) nbi run_log_events kernel_events write_events_def
    using assms(3) by auto
qed

lemma stage_enter_done:
  "list_all (\<lambda>g. PayloadTraceEventIsEnter (sg_enter g) \<and> \<not> PayloadTraceEventIsEnter (sg_done g))
    (kernel_stages env d)"
  by (simp add: stage_defs Let_def PayloadTraceEventIsEnter_def)

lemma run_log_returns: "(e, r) \<in> set (run_log env d) \<Longrightarrow> r = expected_return e"
  using stage_enter_done [of env d]
  by (auto simp: expected_return_def stage_log_def list_all_iff) (simp_all add: PayloadTraceEventIsEnter_def)

lemma traced_header:
  "traced d log s \<Longrightarrow> PayloadTraceHeaderMatchesDesc d (ks_trace s) True"
  by (simp add: traced_def PayloadTraceHeaderMatchesDesc_def join64_halves)

lemma success_traced:
  assumes "validate_reason d = 0" "PayloadTraceWords d" "length (ks_trace s) = 82"
    "RunPayloadCopy env d s = (0, s')"
  shows "traced d (run_log env d) s'"
proof -
  from assms(1,4) obtain cs log where k: "kstep d cs log (kernel_entry d s) s'" "run_shape env d 0 cs log"
    by (rule run_steps)
  with traced_step [OF assms(2) k(1) kernel_entry_facts(3) [OF assms(2,3)]] show ?thesis
    by (simp add: run_shape_def)
qed

lemma success_passes:
  assumes "traced d (run_log env d) s" "modes_narrow d" "pd_role d = 0 \<or> pd_role d = 1"
    "ks_trace s ! 15 = 0" "ks_trace s ! 16 = 0" "ks_trace s ! 17 = 0"
  shows "PayloadTracePassed (ks_trace s) True (use_thread_notify d)"
proof -
  note ring = traced_ring [OF assms(1) list.distinct(2) run_log_length]
  have live: "trace_live (ks_trace s)" "ks_trace s ! 2 = 34" "ks_trace s ! 3 = 0"
    using assms(1) by (simp_all add: traced_def)
  have "PayloadTraceOrderMatches (ks_trace s) (map fst (run_log env d)) (use_thread_notify d)"
    unfolding PayloadTraceOrderMatches_def expected_events [OF assms(1-3)] ring(1)
    using live run_log_length by blast
  moreover have "list_all (\<lambda>(e, r). r = expected_return e) (run_log env d)"
    unfolding list_all_iff using run_log_returns by blast
  ultimately show ?thesis
    unfolding PayloadTracePassed_def ring(2,3) PayloadTraceReturnOrderMatches_def zip_map_fst_snd ring(1)
    using live assms(4-6) run_log_length by simp
qed

text \<open>Property C9. The host's gate is exact.  For a valid descriptor whose arrays are allocated, the checks the
  host makes after the launch (status word, primitive return, echo of the descriptor, trace header,
  event order and event returns) all pass if and only if the kernel returned success: no successful
  run is rejected, whatever the transfer mode, completion mode, binding and notification are, and no
  failed run is accepted.\<close>

theorem host_gate_exact:
  assumes "validate_reason d = VALIDATE_OK" "modes_narrow d" "pd_reserved2_2 d \<noteq> 0"
    "length (ks_trace s) = 82" "17 \<le> length (ks_status s)" "RunPayloadCopy env d s = (r, s')"
  shows "payload_gate (desc_role d) (pd_peer_rank d) (pd_bytes d) (pd_local_rank d) (use_thread_notify d) d
    (ks_status s') (ks_trace s') True = FLUME_OK \<longleftrightarrow> r = STATUS_SUCCESS"
proof
  have w: "PayloadTraceWords d" using assms(1,3) valid_desc(1) by (simp add: PayloadTraceWords_def)
  note role = valid_desc(2) [OF assms(1)]
  have ag: "agreed d r s'" "r = 0 \<longrightarrow> ks_status s' ! 1 = 0 \<and> ks_trace s' ! 17 = 0"
    using run_valid_agreed [OF assms(1) w kernel_entry_facts(3) [OF w assms(4)] assms(5,6)] by simp_all
  then have st: "ks_status s' ! 0 = r" "ks_trace s' ! 15 = r" "ks_trace s' ! 16 = r"
    by (auto simp: agreed_def reported_def)
  show "payload_gate (desc_role d) (pd_peer_rank d) (pd_bytes d) (pd_local_rank d) (use_thread_notify d) d
    (ks_status s') (ks_trace s') True = FLUME_OK \<Longrightarrow> r = STATUS_SUCCESS"
    by (simp add: payload_gate_def st(1) split: if_splits)
  assume r: "r = STATUS_SUCCESS"
  have t: "traced d (run_log env d) s'" using success_traced [OF assms(1) w assms(4)] assms(6) r by simp
  have e: "echoed d s'" using run_echoed [OF assms(1,5,6)] .
  have "PayloadTracePassed (ks_trace s') True (use_thread_notify d)"
    using success_passes [OF t assms(2) role] st ag(2) r by simp
  moreover have "ks_status s' ! 2 = (if desc_role d = kSend then NOTIFY_ROLE_SEND else NOTIFY_ROLE_RECV)"
    using e role by (auto simp: echoed_def desc_role_def)
  moreover have "PayloadEchoBytes (ks_status s') = pd_bytes d"
    "PayloadEchoDescriptorFingerprint (ks_status s') = desc_fingerprint d"
    using e by (simp_all add: PayloadEchoBytes_def PayloadEchoDescriptorFingerprint_def echoed_def join64_halves)
  ultimately show "payload_gate (desc_role d) (pd_peer_rank d) (pd_bytes d) (pd_local_rank d) (use_thread_notify d) d
    (ks_status s') (ks_trace s') True = FLUME_OK"
    using traced_header [OF t] st(1) ag(2) r e by (simp add: payload_gate_def echoed_def)
qed

lemma host_gate_exact_witness:
  "\<exists>s'. RunPayloadCopy sample_env (traced_sample kSend) sample_kstate = (STATUS_SUCCESS, s') \<and>
     payload_gate kSend 1 64 0 True (traced_sample kSend) (ks_status s') (ks_trace s') True = FLUME_OK"
proof -
  let ?d = "traced_sample kSend"
  have f: "pd_peer_rank ?d = 1" "pd_bytes ?d = 64" "pd_local_rank ?d = 0" "use_thread_notify ?d"
    "desc_role ?d = kSend" "modes_narrow ?d" "pd_reserved2_2 ?d \<noteq> 0"
    by (simp_all add: traced_sample_def sample_desc_def FillFlumePayloadCopyDesc_def payload_copy_desc_init_def
        Let_def sample_options_def sample_resources_def sample_state_def use_thread_notify_def desc_role_def
        modes_narrow_def)
  have "fst (RunPayloadCopy sample_env ?d sample_kstate) = 0"
    by (rule run_succeeds [OF traced_sample_valid sample_succeeds]) (simp add: sample_env_def)
  then obtain s' where run: "RunPayloadCopy sample_env ?d sample_kstate = (0, s')" by (metis prod.collapse)
  have "length (ks_trace sample_kstate) = 82" "17 \<le> length (ks_status sample_kstate)"
    by (simp_all add: sample_kstate_def)
  from host_gate_exact [OF traced_sample_valid f(6,7) this run] run f show ?thesis by simp
qed

end
