(* ===== verification/Nvme_Canary.thy ===== *)
theory Nvme_Canary
  imports Flume_Prelude
begin

text \<open>
  The plan of a direct NVMe-to-HBM canary command (\<open>src/nvme_storage/nvme_hbm_canary.h\<close>,
  \<open>nvme_hbm_canary.cc\<close>), with 64-bit arithmetic as written: the product of the starting block and the
  block size is computed modulo \<open>2^64\<close>, and the lemmas show that the checks before it exclude the
  wrap-around.
\<close>

datatype CanaryDirection = kReadToHbm | kWriteRoundTrip

record CanaryConfig =
  cc_namespace_path :: string
  cc_direction :: CanaryDirection
  cc_slba :: u64
  cc_bytes :: u64
  cc_lba_bytes :: u64
  cc_namespace_bytes :: u64
  cc_timeout_ms :: u32
  cc_destructive_write_confirmed :: bool

record IoPlan =
  ip_opcode :: u8
  ip_nsid :: u32
  ip_data_len :: u32
  ip_cdw10 :: u32
  ip_cdw11 :: u32
  ip_cdw12 :: u32
  ip_timeout_ms :: u32
  ip_byte_offset :: u64
  ip_block_count :: u64

definition kNvmeWriteOpcode :: u8 where "kNvmeWriteOpcode = 0x01"
definition kNvmeReadOpcode :: u8 where "kNvmeReadOpcode = 0x02"
definition kMaxNvmeBlocksPerCommand :: u64 where "kMaxNvmeBlocksPerCommand = 65536"
definition kProtectedNamespacePrefixBytes :: u64 where
  "kProtectedNamespacePrefixBytes = 1024 * 1024"

definition IsPowerOfTwo :: "u64 \<Rightarrow> bool" where
  "IsPowerOfTwo v \<longleftrightarrow> v \<noteq> 0 \<and> v AND (v - 1) = 0"

definition BuildCanaryPlan :: "CanaryConfig \<Rightarrow> u32 \<Rightarrow> string + IoPlan" where
  "BuildCanaryPlan c nsid =
    (if cc_namespace_path c = [] \<or> nsid = 0 \<or> cc_bytes c = 0 \<or> cc_bytes c > 0xffffffff \<or>
        cc_timeout_ms c = 0
     then Inl ''namespace, NSID, size, timeout, and output are required''
     else if cc_lba_bytes c < 512 \<or> \<not> IsPowerOfTwo (cc_lba_bytes c) \<or>
        cc_bytes c mod cc_lba_bytes c \<noteq> 0
     then Inl ''I/O size must be aligned to a power-of-two namespace LBA size''
     else
       let blocks = cc_bytes c div cc_lba_bytes c in
       if blocks = 0 \<or> blocks > kMaxNvmeBlocksPerCommand \<or> cc_slba c > (- 1) - blocks
       then Inl ''NVMe command block count or LBA range is invalid''
       else if cc_namespace_bytes c < cc_lba_bytes c \<or>
          cc_namespace_bytes c mod cc_lba_bytes c \<noteq> 0 \<or>
          cc_slba c \<ge> cc_namespace_bytes c div cc_lba_bytes c \<or>
          blocks > cc_namespace_bytes c div cc_lba_bytes c - cc_slba c
       then Inl ''requested LBA range exceeds the namespace''
       else if cc_direction c = kWriteRoundTrip \<and> \<not> cc_destructive_write_confirmed c
       then Inl ''write-roundtrip requires explicit scratch-namespace confirmation''
       else if cc_direction c = kWriteRoundTrip \<and>
          cc_slba c * cc_lba_bytes c < kProtectedNamespacePrefixBytes
       then Inl ''write-roundtrip refuses the first 1 MiB of a namespace''
       else Inr \<lparr>ip_opcode = (if cc_direction c = kReadToHbm then kNvmeReadOpcode else kNvmeWriteOpcode),
         ip_nsid = nsid, ip_data_len = ucast (cc_bytes c), ip_cdw10 = ucast (cc_slba c),
         ip_cdw11 = ucast (drop_bit 32 (cc_slba c)), ip_cdw12 = ucast (blocks - 1),
         ip_timeout_ms = cc_timeout_ms c, ip_byte_offset = cc_slba c * cc_lba_bytes c,
         ip_block_count = blocks\<rparr>)"

fun CanaryDirectionName :: "CanaryDirection \<Rightarrow> string" where
  "CanaryDirectionName kReadToHbm = ''read-to-hbm''"
| "CanaryDirectionName kWriteRoundTrip = ''write-roundtrip''"

section \<open>Safety of an accepted plan\<close>

lemma accepted_range:
  assumes "BuildCanaryPlan c nsid = Inr p"
  shows "unat (cc_slba c) * unat (cc_lba_bytes c) + unat (cc_bytes c) \<le> unat (cc_namespace_bytes c)"
    "unat (ip_block_count p) * unat (cc_lba_bytes c) = unat (cc_bytes c)"
    "unat (cc_bytes c) < 2 ^ 32" "unat (ip_block_count p) \<le> 65536" "0 < unat (ip_block_count p)"
proof -
  let ?l = "unat (cc_lba_bytes c)" and ?n = "unat (cc_namespace_bytes c)" and ?b = "unat (cc_bytes c)"
  let ?s = "unat (cc_slba c)"
  from assms have p: "ip_block_count p = cc_bytes c div cc_lba_bytes c"
    and g: "\<not> cc_bytes c > 0xffffffff" "\<not> cc_lba_bytes c < 512" "cc_bytes c mod cc_lba_bytes c = 0"
      "ip_block_count p \<noteq> 0" "\<not> ip_block_count p > kMaxNvmeBlocksPerCommand"
      "cc_namespace_bytes c mod cc_lba_bytes c = 0"
      "\<not> cc_slba c \<ge> cc_namespace_bytes c div cc_lba_bytes c"
      "\<not> ip_block_count p > cc_namespace_bytes c div cc_lba_bytes c - cc_slba c"
    by (auto simp: BuildCanaryPlan_def Let_def split: if_splits)
  show "?b < 2 ^ 32" using g(1) by (simp add: word_less_nat_alt)
  have nb: "unat (ip_block_count p) = ?b div ?l" unfolding p by (simp add: unat_div)
  have bl: "?b = ?b div ?l * ?l" using g(3) by (simp add: word_unat_eq_iff unat_mod mod_0_imp_dvd)
  then show "unat (ip_block_count p) * ?l = ?b" using nb by simp
  show "unat (ip_block_count p) \<le> 65536" "0 < unat (ip_block_count p)"
    using g(4,5) by (simp_all add: word_less_nat_alt kMaxNvmeBlocksPerCommand_def unat_gt_0 not_less)
  have nl: "?n = ?n div ?l * ?l" using g(6) by (simp add: word_unat_eq_iff unat_mod mod_0_imp_dvd)
  have sl: "?s < ?n div ?l" using g(7) by (simp add: word_le_nat_alt unat_div)
  have "unat (cc_namespace_bytes c div cc_lba_bytes c - cc_slba c) = ?n div ?l - ?s"
    using sl by (simp add: unat_sub word_le_nat_alt unat_div)
  then have "?b div ?l \<le> ?n div ?l - ?s" using g(8) nb by (simp add: word_less_nat_alt not_less)
  then have "(?s + ?b div ?l) * ?l \<le> ?n div ?l * ?l" using sl by (intro mult_le_mono1) simp
  then show "?s * ?l + ?b \<le> ?n" using bl nl by (simp add: add_mult_distrib)
qed

text \<open>Property C20. An accepted canary command stays inside the namespace.  Its byte offset is the exact product of
  the starting block and the block size (no wrap-around), the transferred range ends within the
  namespace, the length, block count and the zero-based count field agree, the two address words
  recombine to the starting block, and a write is confirmed and leaves the first MiB alone.\<close>

theorem canary_plan_safe:
  assumes "BuildCanaryPlan c nsid = Inr p"
  shows "unat (ip_byte_offset p) = unat (cc_slba c) * unat (cc_lba_bytes c) \<and>
    unat (ip_byte_offset p) + unat (ip_data_len p) \<le> unat (cc_namespace_bytes c) \<and>
    unat (ip_data_len p) = unat (ip_block_count p) * unat (cc_lba_bytes c) \<and>
    unat (ip_cdw12 p) + 1 = unat (ip_block_count p) \<and>
    push_bit 32 (ucast (ip_cdw11 p)) OR ucast (ip_cdw10 p) = cc_slba c \<and>
    (ip_opcode p = kNvmeWriteOpcode \<longrightarrow>
       cc_destructive_write_confirmed c \<and> 1024 * 1024 \<le> unat (ip_byte_offset p))"
proof -
  note r = accepted_range [OF assms]
  from assms have p: "ip_byte_offset p = cc_slba c * cc_lba_bytes c"
      "ip_data_len p = ucast (cc_bytes c)" "ip_cdw12 p = ucast (ip_block_count p - 1)"
      "ip_cdw11 p = ucast (drop_bit 32 (cc_slba c))" "ip_cdw10 p = ucast (cc_slba c)"
    and w: "cc_direction c = kWriteRoundTrip \<Longrightarrow> cc_destructive_write_confirmed c \<and>
      \<not> ip_byte_offset p < kProtectedNamespacePrefixBytes"
    and o: "ip_opcode p = (if cc_direction c = kReadToHbm then kNvmeReadOpcode else kNvmeWriteOpcode)"
    by (auto simp: BuildCanaryPlan_def Let_def split: if_splits)
  have "unat (cc_namespace_bytes c) < 2 ^ 64" using unsigned_less [of "cc_namespace_bytes c"] by simp
  then have off: "unat (ip_byte_offset p) = unat (cc_slba c) * unat (cc_lba_bytes c)"
    using r(1) p(1) by (simp add: unat_word_ariths)
  have len: "unat (ip_data_len p) = unat (cc_bytes c)" unfolding p using r(3) by (rule unat_narrow_u32)
  have "unat (ip_block_count p - 1) = unat (ip_block_count p) - 1"
    using r(5) by (simp add: unat_sub word_le_nat_alt)
  moreover from this r(4) have "unat (ucast (ip_block_count p - 1) :: u32) = unat (ip_block_count p - 1)"
    by (intro unat_narrow_u32) simp
  ultimately have cnt: "unat (ip_cdw12 p) + 1 = unat (ip_block_count p)" using p(3) r(5) by simp
  have "push_bit 32 (ucast (ip_cdw11 p)) OR ucast (ip_cdw10 p) = cc_slba c"
    unfolding p by (rule bit_word_eqI) (auto simp: bit_simps)
  moreover have "ip_opcode p = kNvmeWriteOpcode \<longrightarrow>
       cc_destructive_write_confirmed c \<and> 1024 * 1024 \<le> unat (ip_byte_offset p)"
    using w o by (cases "cc_direction c")
      (auto simp: kNvmeReadOpcode_def kNvmeWriteOpcode_def kProtectedNamespacePrefixBytes_def
        word_less_nat_alt)
  ultimately show ?thesis using off len cnt r by simp
qed

lemma canary_plan_safe_witness:
  "\<exists>p. BuildCanaryPlan \<lparr>cc_namespace_path = ''/dev/nvme0n1'', cc_direction = kWriteRoundTrip,
      cc_slba = 4096, cc_bytes = 4096, cc_lba_bytes = 512, cc_namespace_bytes = 4194304,
      cc_timeout_ms = 1000, cc_destructive_write_confirmed = True\<rparr> 1 = Inr p \<and>
    1024 * 1024 \<le> unat (ip_byte_offset p)"
proof -
  let ?c = "\<lparr>cc_namespace_path = ''/dev/nvme0n1'', cc_direction = kWriteRoundTrip,
      cc_slba = 4096, cc_bytes = 4096, cc_lba_bytes = 512, cc_namespace_bytes = 4194304,
      cc_timeout_ms = 1000, cc_destructive_write_confirmed = True\<rparr>"
  have "\<exists>p. BuildCanaryPlan ?c 1 = Inr p \<and> ip_opcode p = kNvmeWriteOpcode"
    by (simp add: BuildCanaryPlan_def Let_def IsPowerOfTwo_def kMaxNvmeBlocksPerCommand_def
        kProtectedNamespacePrefixBytes_def)
  then obtain p where p: "BuildCanaryPlan ?c 1 = Inr p" "ip_opcode p = kNvmeWriteOpcode" by blast
  from canary_plan_safe [OF p(1)] p show ?thesis by blast
qed

end
