(* ===== verification/Client_Invariant.thy ===== *)
theory Client_Invariant
  imports Client_Storage
begin

text \<open>
  The invariant of the client library over all its calls and threads.

  \<open>accounts_ok\<close>: the reference counters of all buffers and handles equal the number of references that
  the pending transfers, the target windows and the threads hold; all of these are alive; a handle is
  incomplete exactly while one of them will complete it or it waits for a stream.  The first part
  follows single changes of the heap, the second the calls, the third the reachable states of a
  library used by any number of callers who pass null or live objects.
\<close>

section \<open>Accounts\<close>

definition target_bufs :: "nat \<Rightarrow> target_window \<Rightarrow> int" where
  "target_bufs b w = of_bool (b = tw_buffer w)"

fun worker_bufs :: "nat \<Rightarrow> worker \<Rightarrow> int" where
  "worker_bufs b (StorageWorker wrapper inner marker) = 0"
| "worker_bufs b (RoceWorker rq) = of_bool (b = rq_buffer rq)"

fun worker_ios :: "nat \<Rightarrow> worker \<Rightarrow> int" where
  "worker_ios i (StorageWorker wrapper inner marker) = of_bool (i = wrapper)"
| "worker_ios i (RoceWorker rq) = of_bool (i = rq_io rq)"

text \<open>The inner handle that the thread of a plan waits for and releases, the session of a request, the
  buffer of a symmetric window, and the window of a plan.\<close>

fun worker_inner :: "nat \<Rightarrow> worker \<Rightarrow> int" where
  "worker_inner i (StorageWorker wrapper inner marker) = of_bool (i = inner)"
| "worker_inner i (RoceWorker rq) = 0"

fun worker_session :: "nat \<Rightarrow> worker \<Rightarrow> int" where
  "worker_session i (StorageWorker wrapper inner marker) = 0"
| "worker_session i (RoceWorker rq) = of_bool (i = rq_session rq)"

definition window_buf :: "nat \<Rightarrow> a3_window \<Rightarrow> int" where
  "window_buf b w = of_bool (b = aw_buffer w)"

definition plan_window :: "nat \<Rightarrow> direct_plan \<Rightarrow> int" where
  "plan_window t p = of_bool (t \<noteq> 0 \<and> t = dp_target_window p)"

lemma refs_nonneg [simp]: "0 \<le> target_bufs b w" "0 \<le> window_buf b a" "0 \<le> plan_window t p"
  by (simp_all add: target_bufs_def window_buf_def plan_window_def)

lemma worker_refs_nonneg [simp]: "0 \<le> worker_bufs b w" "0 \<le> worker_ios i w" "0 \<le> worker_inner i w" "0 \<le> worker_session i w"
  by (cases w; simp)+

definition acct_bufs :: "lib \<Rightarrow> nat \<Rightarrow> int" where
  "acct_bufs s b = total_refs (p2p_bufs b) (lb_p2p s) + total_refs (p2p_bufs b) (lb_payload s) +
    total_refs (coll_bufs b) (lb_coll s) + total_refs (target_bufs b) (lb_targets s) + total_refs (worker_bufs b) (lb_workers s)"

definition acct_ios :: "lib \<Rightarrow> nat \<Rightarrow> int" where
  "acct_ios s i = total_refs (p2p_ios i) (lb_p2p s) + total_refs (p2p_ios i) (lb_payload s) +
    total_refs (coll_ios i) (lb_coll s) + total_refs (worker_ios i) (lb_workers s)"

definition inner_refs :: "lib \<Rightarrow> nat \<Rightarrow> int" where
  "inner_refs s i = total_refs (worker_inner i) (lb_workers s)"

definition session_refs :: "lib \<Rightarrow> nat \<Rightarrow> int" where
  "session_refs s i = total_refs (worker_session i) (lb_workers s)"

definition window_refs :: "lib \<Rightarrow> nat \<Rightarrow> int" where
  "window_refs s b = total_refs (window_buf b) (lb_windows s)"

definition plan_refs :: "lib \<Rightarrow> nat \<Rightarrow> int" where
  "plan_refs s t = total_refs (plan_window t) (lb_plans s)"

text \<open>The accounts are in balance; the handles outside the tables and threads that are incomplete wait
  for a stream, and those that wait for a stream have no other completer.\<close>

definition balanced :: "(nat \<Rightarrow> int) \<Rightarrow> (nat \<Rightarrow> int) \<Rightarrow> heap \<Rightarrow> bool" where
  "balanced R S h \<longleftrightarrow> (\<forall>i\<in>sync_of h. S i = 0) \<and> (\<exists>F. F \<subseteq> sync_of h \<and> ledger R S F h)"

definition transfers_ok :: "heap \<Rightarrow> lib \<Rightarrow> bool" where
  "transfers_ok h s \<longleftrightarrow> p2p_table_ok h (lb_p2p s) \<and> p2p_table_ok h (lb_payload s) \<and> coll_table_ok h (lb_coll s)"

definition fresh_ok :: "heap \<Rightarrow> lib \<Rightarrow> bool" where
  "fresh_ok h s \<longleftrightarrow> finite (dom (lb_targets s)) \<and> finite (dom (lb_workers s)) \<and>
    finite (dom (lb_windows s)) \<and> finite (dom (lb_plans s)) \<and> lb_plans s 0 = None \<and>
    (\<forall>a\<ge>hp_next h. lb_targets s a = None \<and> lb_workers s a = None \<and> lb_windows s a = None \<and>
      lb_plans s a = None \<and> lb_roce s a = None)"

text \<open>A buffer's counter of windows; the inner handles, each of one thread.\<close>

definition owners_ok :: "heap \<Rightarrow> lib \<Rightarrow> bool" where
  "owners_ok h s \<longleftrightarrow> (\<forall>b. a3_of h b = None \<longrightarrow> window_refs s b = 0) \<and> (\<forall>b n. a3_of h b = Some n \<longrightarrow> n = window_refs s b) \<and>
    (\<forall>i. inner_refs s i \<le> 1 \<and> (i \<notin> live_ios h \<longrightarrow> inner_refs s i = 0))"

text \<open>A window's counter of plans; a session is active exactly while one thread runs its request.\<close>

definition counts_ok :: "lib \<Rightarrow> bool" where
  "counts_ok s \<longleftrightarrow>
    (\<forall>t. lb_targets s t = None \<longrightarrow> plan_refs s t = 0) \<and> (\<forall>t w. lb_targets s t = Some w \<longrightarrow> tw_plans w = plan_refs s t) \<and>
    (\<forall>i. lb_roce s i = None \<longrightarrow> session_refs s i = 0) \<and>
    (\<forall>i x. lb_roce s i = Some x \<longrightarrow> (rs_request_state x = kActive \<and> session_refs s i = 1) \<or>
      (rs_request_state x = kIdle \<and> session_refs s i = 0))"

definition tables_ok :: "heap \<Rightarrow> lib \<Rightarrow> bool" where
  "tables_ok h s \<longleftrightarrow> transfers_ok h s \<and> fresh_ok h s \<and> owners_ok h s \<and> counts_ok s"

definition accounts_ok :: "lib \<Rightarrow> bool" where
  "accounts_ok s \<longleftrightarrow> tables_ok (lb_heap s) s \<and> balanced (acct_bufs s) (acct_ios s) (lb_heap s)"

section \<open>Single changes of the heap\<close>

lemma balancedI: "F \<subseteq> sync_of h \<Longrightarrow> ledger R S F h \<Longrightarrow> \<forall>i\<in>sync_of h. S i = 0 \<Longrightarrow> balanced R S h"
  unfolding balanced_def by blast

lemma balancedE:
  assumes "balanced R S h"
  obtains F where "F \<subseteq> sync_of h" "ledger R S F h" "\<forall>i\<in>sync_of h. S i = 0"
  using assms unfolding balanced_def by blast

lemma balanced_cong:
  "balanced R S h \<Longrightarrow> hp_next h' = hp_next h \<Longrightarrow> hp_buffers h' = hp_buffers h \<Longrightarrow> hp_ios h' = hp_ios h \<Longrightarrow>
    balanced R S h'"
  unfolding balanced_def sync_of_def by (auto dest: ledger_cong)

lemma balanced_upd_client: "balanced R S h \<Longrightarrow> balanced R S (upd_client c f h)"
  by (erule balanced_cong) (simp_all add: heap_simps)

lemma balanced_buffer_write: "balanced R S h \<Longrightarrow> balanced R S (buffer_write b off d h)"
  by (erule balanced_cong) (simp_all add: heap_simps)

lemma balanced_fresh: "balanced R S h \<Longrightarrow> hp_ios h (hp_next h) = None \<and> hp_buffers h (hp_next h) = None \<and>
    R (hp_next h) = 0 \<and> S (hp_next h) = 0 \<and> 0 < hp_next h"
  unfolding balanced_def ledger_def by blast

lemma balanced_next:
  assumes "balanced R S h" "hp_next h \<le> n"
  shows "balanced R S (h\<lparr>hp_next := n\<rparr>)"
proof -
  obtain F where F: "F \<subseteq> sync_of h" "ledger R S F h" "\<forall>i\<in>sync_of h. S i = 0" using assms(1) by (rule balancedE)
  then have "ledger R S F (h\<lparr>hp_next := n\<rparr>)" using assms(2) by (auto simp: ledger_def)
  then show ?thesis using F(1,3) by (auto simp: balanced_def sync_of_def)
qed

lemma balanced_bump: "balanced R S h \<Longrightarrow> balanced R S (bump h)"
  unfolding bump_def by (rule balanced_next) simp_all

lemma balanced_alloc_done:
  assumes "balanced R S h" "io_done x" "io_pending x = 0"
  shows "balanced R S (snd (alloc_io x h))"
proof -
  obtain F where F: "F \<subseteq> sync_of h" "ledger R S F h" "\<forall>i\<in>sync_of h. S i = 0" using assms(1) by (rule balancedE)
  have "ledger R S F (snd (alloc_io x h))"
    using F(2) assms(2,3) ledger_fresh [OF F(2)] by (auto simp: ledger_def alloc_io_def)
  moreover have "sync_of h \<subseteq> sync_of (snd (alloc_io x h))" "\<forall>i\<in>sync_of (snd (alloc_io x h)). S i = 0"
    using F(3) balanced_fresh [OF assms(1)] by (auto simp: sync_of_alloc)
  ultimately show ?thesis using F(1) by (intro balancedI) auto
qed

lemma balanced_MakeIo: "balanced R S h \<Longrightarrow> balanced R S (snd (MakeIo st n k e h))"
  unfolding MakeIo_def by (rule balanced_alloc_done) (simp_all add: new_io_def)

lemma balanced_MakeAclStreamIo:
  assumes "balanced R S h"
  shows "balanced R S (snd (MakeAclStreamIo st n h))"
proof -
  obtain F where F: "F \<subseteq> sync_of h" "ledger R S F h" "\<forall>i\<in>sync_of h. S i = 0" using assms(1) by (rule balancedE)
  let ?h = "snd (MakeAclStreamIo st n h)"
  have "ledger R S (insert (hp_next h) F) ?h"
    using F(2) ledger_fresh [OF F(2)]
    by (auto simp: ledger_def MakeAclStreamIo_def MakePendingIo_def alloc_io_def upd_io_def new_io_def)
  moreover have "sync_of ?h = insert (hp_next h) (sync_of h)"
    using balanced_fresh [OF assms]
    by (auto simp: sync_of_def MakeAclStreamIo_def MakePendingIo_def alloc_io_def upd_io_def)
  ultimately show ?thesis using F(1,3) balanced_fresh [OF assms] by (intro balancedI [of "insert (hp_next h) F"]) auto
qed

lemma balanced_new_buffer:
  assumes "balanced R S h" "bf_pending x = 0"
  shows "balanced R S (h\<lparr>hp_buffers := (hp_buffers h)(hp_next h \<mapsto> x), hp_next := hp_next h + 1\<rparr>)"
proof -
  obtain F where F: "F \<subseteq> sync_of h" "ledger R S F h" "\<forall>i\<in>sync_of h. S i = 0" using assms(1) by (rule balancedE)
  have "R (hp_next h) = 0" "0 < hp_next h" using balanced_fresh [OF assms(1)] by auto
  then have "ledger R S F (h\<lparr>hp_buffers := (hp_buffers h)(hp_next h \<mapsto> x), hp_next := hp_next h + 1\<rparr>)"
    using F(2) assms(2) by (auto simp: ledger_def)
  then show ?thesis using F(1,3) by (auto simp: balanced_def sync_of_def)
qed

lemma balanced_delete_buffer:
  assumes "balanced R S h" "R b = 0"
  shows "balanced R S (h\<lparr>hp_buffers := (hp_buffers h)(b := None)\<rparr>)"
proof -
  obtain F where F: "F \<subseteq> sync_of h" "ledger R S F h" "\<forall>i\<in>sync_of h. S i = 0" using assms(1) by (rule balancedE)
  then have "ledger R S F (h\<lparr>hp_buffers := (hp_buffers h)(b := None)\<rparr>)" using assms(2) by (auto simp: ledger_def)
  then show ?thesis using F(1,3) by (auto simp: balanced_def sync_of_def)
qed

lemma balanced_delete_io:
  assumes "balanced R S h" "S i = 0"
  shows "balanced R S (h\<lparr>hp_ios := (hp_ios h)(i := None)\<rparr>)"
proof -
  obtain F where F: "F \<subseteq> sync_of h" "ledger R S F h" "\<forall>i\<in>sync_of h. S i = 0" using assms(1) by (rule balancedE)
  then have "ledger R S (F - {i}) (h\<lparr>hp_ios := (hp_ios h)(i := None)\<rparr>)" using assms(2) by (auto simp: ledger_def)
  moreover have "sync_of (h\<lparr>hp_ios := (hp_ios h)(i := None)\<rparr>) = sync_of h - {i}" by (auto simp: sync_of_def)
  ultimately show ?thesis using F(1,3) by (intro balancedI [of "F - {i}"]) auto
qed

lemma balanced_upd_buffer:
  assumes "balanced R S h" "\<And>x. bf_pending (f x) = bf_pending x"
  shows "balanced R S (upd_buffer b f h)"
proof -
  obtain F where F: "F \<subseteq> sync_of h" "ledger R S F h" "\<forall>i\<in>sync_of h. S i = 0" using assms(1) by (rule balancedE)
  then have "ledger R S F (upd_buffer b f h)" using assms(2) by (auto simp: ledger_def upd_buffer_def)
  then show ?thesis using F(1,3) by (auto simp: balanced_def sync_of_def upd_buffer_def)
qed

lemma balanced_upd_io:
  assumes "balanced R S h" "\<And>x. io_pending (f x) = io_pending x \<and> io_done (f x) = io_done x \<and>
    io_sync_acl_stream (f x) = io_sync_acl_stream x"
  shows "balanced R S (upd_io i f h)"
proof -
  obtain F where F: "F \<subseteq> sync_of h" "ledger R S F h" "\<forall>i\<in>sync_of h. S i = 0" using assms(1) by (rule balancedE)
  have "ledger R S F (upd_io i f h)" unfolding ledger_def
  proof (intro conjI)
    show "\<forall>i' x. hp_ios (upd_io i f h) i' = Some x \<longrightarrow> io_pending x = S i' \<and> (io_done x \<longleftrightarrow> S i' = 0 \<and> i' \<notin> F)"
    proof (intro allI impI)
      fix i' x assume x: "hp_ios (upd_io i f h) i' = Some x"
      then obtain y where y: "hp_ios h i' = Some y" "x = f y \<or> x = y" by (auto simp: upd_io_def split: if_splits)
      then show "io_pending x = S i' \<and> (io_done x \<longleftrightarrow> S i' = 0 \<and> i' \<notin> F)"
        using ledger_io [OF F(2) y(1)] assms(2) [of y] by auto
    qed
  qed (use F(2) in \<open>auto simp: ledger_def upd_io_def\<close>)
  moreover have "sync_of (upd_io i f h) = sync_of h" using assms(2) by (auto simp: sync_of_def upd_io_def)
  ultimately show ?thesis using F(1,3) by (auto simp: balanced_def)
qed

text \<open>Completing a handle that nobody else will complete.\<close>

lemma balanced_CompleteIo:
  assumes "balanced R S h" "S i = 0"
  shows "balanced R S (CompleteIo i st n k e h)"
proof -
  obtain F where F: "F \<subseteq> sync_of h" "ledger R S F h" "\<forall>i\<in>sync_of h. S i = 0" using assms(1) by (rule balancedE)
  have "ledger R S (F - {i}) (CompleteIo i st n k e h)"
    using F(2) assms(2) by (auto simp: ledger_def CompleteIo_def upd_io_def completed_def)
  then show ?thesis using F(1,3) by (intro balancedI [of "F - {i}"]) (auto simp: heap_simps)
qed

lemma balanced_release:
  assumes "balanced (\<lambda>b. R b + of_bool (b = x)) S h" "0 \<le> R x"
  shows "balanced R S (ReleasePendingBuffer x h)"
proof -
  obtain F where F: "F \<subseteq> sync_of h" "ledger (\<lambda>b. R b + of_bool (b = x)) S F h" "\<forall>i\<in>sync_of h. S i = 0"
    using assms(1) by (rule balancedE)
  then show ?thesis using ledger_drop_buffer [where R = R, OF F(2) assms(2)] by (intro balancedI [of F]) (simp_all add: heap_simps)
qed

lemma balanced_retain:
  assumes "balanced R S h" "hp_buffers h x \<noteq> None"
  shows "balanced (\<lambda>b. R b + of_bool (b = x)) S (RetainPendingBuffer x h)"
proof -
  obtain F where F: "F \<subseteq> sync_of h" "ledger R S F h" "\<forall>i\<in>sync_of h. S i = 0" using assms(1) by (rule balancedE)
  then show ?thesis using ledger_take_buffer [OF F(2) assms(2)] by (intro balancedI [of F]) (simp_all add: heap_simps)
qed

lemma balanced_complete_pending:
  assumes "balanced R (\<lambda>i. S i + of_bool (i = x)) h" "0 \<le> S x"
  shows "balanced R S (CompletePendingIo x st n k e h)"
proof -
  obtain F where F: "F \<subseteq> sync_of h" "ledger R (\<lambda>i. S i + of_bool (i = x)) F h"
    "\<forall>i\<in>sync_of h. S i + of_bool (i = x) = 0" using assms(1) by (rule balancedE)
  have "S i = 0" if "i \<in> sync_of h" for i using F(3) that assms(2) by (cases "i = x") fastforce+
  then show ?thesis using F(1) ledger_drop_io [where S = S, OF F(2) assms(2)] by (intro balancedI) (auto simp: heap_simps)
qed

lemma balanced_pending_io:
  assumes "balanced R S h"
  shows "balanced R (\<lambda>i. S i + of_bool (i = hp_next h)) (RetainPendingIo (hp_next h) (snd (MakePendingIo h)))"
proof -
  obtain F where F: "F \<subseteq> sync_of h" "ledger R S F h" "\<forall>i\<in>sync_of h. S i = 0" using assms(1) by (rule balancedE)
  have l: "ledger R (\<lambda>i. S i + of_bool (i = hp_next h)) F (RetainPendingIo (hp_next h) (snd (MakePendingIo h)))"
    by (rule ledger_take_io [OF ledger_make_pending [OF F(2)]]) (use ledger_fresh [OF F(2)] in simp)
  have sync: "sync_of (RetainPendingIo (hp_next h) (snd (MakePendingIo h))) = sync_of h"
    using balanced_fresh [OF assms] by (simp add: MakePendingIo_def heap_simps sync_of_alloc new_io_def)
  have "hp_next h \<notin> sync_of h" using balanced_fresh [OF assms] by (simp add: sync_of_def)
  then have "\<forall>i\<in>sync_of h. S i + of_bool (i = hp_next h) = 0" using F(3) by auto
  then show ?thesis using F(1) l by (intro balancedI [of F]) (simp_all only: sync)
qed

section \<open>Calls that leave the tables alone\<close>

lemma p2p_table_ok_mono:
  assumes ok: "p2p_table_ok h m" and sh: "\<And>b. total_refs (p2p_bufs b) m \<noteq> 0 \<Longrightarrow> shape h' b = shape h b"
  shows "p2p_table_ok h' m"
proof -
  have fin: "finite (dom m)" using ok by (simp add: p2p_table_ok_def)
  have "sides_ok h' p" if p: "m k = Some p" for k p
  proof (cases "sp_has_recv p")
    case True
    have "p2p_bufs (sp_dst p) p \<le> total_refs (p2p_bufs (sp_dst p)) m" by (rule total_ge [OF fin _ p]) simp
    then have "shape h' (sp_dst p) = shape h (sp_dst p)" using True by (intro sh) (simp add: p2p_bufs_def)
    note sh' = shape_live [OF this] shape_fields(1) [OF this]
    have "sides_ok h p" using ok p by (auto simp: p2p_table_ok_def)
    then show ?thesis using True sh' by (auto simp: sides_ok_def ValidateRange_def)
  next
    case False
    have "sides_ok h p" using ok p by (auto simp: p2p_table_ok_def)
    then show ?thesis using False by (auto simp: sides_ok_def)
  qed
  then show ?thesis using ok by (simp add: p2p_table_ok_def)
qed

lemma rank_bufs_le: "r < unat (pc_rank_size p) \<Longrightarrow> rank_bufs p b r \<le> coll_bufs b p"
  unfolding coll_bufs_def by (rule member_le_sum_list) (auto simp: rank_bufs_def)

lemma coll_table_ok_mono:
  assumes ok: "coll_table_ok h m" and sh: "\<And>b. total_refs (coll_bufs b) m \<noteq> 0 \<Longrightarrow> shape h' b = shape h b"
  shows "coll_table_ok h' m"
proof -
  have fin: "finite (dom m)" using ok by (simp add: coll_table_ok_def)
  have "coll_ok h' p" if p: "m k = Some p" for k p
  proof -
    have c: "coll_ok h p" using ok p by (simp add: coll_table_ok_def)
    have "shape h' (pc_dsts p ! r) = shape h (pc_dsts p ! r)" if r: "r < unat (pc_rank_size p)" "pc_arrived p ! r" for r
    proof -
      have "pc_ios p ! r \<noteq> 0" using c r by (auto simp: coll_ok_def Let_def)
      then have "1 \<le> coll_bufs (pc_dsts p ! r) p" using rank_bufs_le [OF r(1), of "pc_dsts p ! r"] by (simp add: rank_bufs_def)
      also have "\<dots> \<le> total_refs (coll_bufs (pc_dsts p ! r)) m" by (rule total_ge [OF fin _ p]) simp
      finally show ?thesis by (intro sh) simp
    qed
    note s = this
    have "hp_buffers h' (pc_dsts p ! r) \<noteq> None \<and> ValidateRange h' (pc_dsts p ! r) (pc_dst_offsets p ! r) (pc_output_bytes p)"
      if r: "r < unat (pc_rank_size p)" "pc_arrived p ! r" for r
      using c r shape_live [OF s [OF r]] shape_fields(1) [OF s [OF r]] by (auto simp: coll_ok_def ValidateRange_def Let_def)
    then show ?thesis using c by (auto simp: coll_ok_def Let_def)
  qed
  then show ?thesis using ok by (simp add: coll_table_ok_def)
qed

definition same_tables :: "lib \<Rightarrow> lib \<Rightarrow> bool" where
  "same_tables s s' \<longleftrightarrow> lb_p2p s' = lb_p2p s \<and> lb_payload s' = lb_payload s \<and> lb_coll s' = lb_coll s \<and>
    lb_targets s' = lb_targets s \<and> lb_workers s' = lb_workers s \<and> lb_windows s' = lb_windows s \<and>
    lb_plans s' = lb_plans s \<and> lb_roce s' = lb_roce s"

lemma set_heap_simps [simp]:
  "lb_heap (set_heap h s) = h" "lb_p2p (set_heap h s) = lb_p2p s" "lb_payload (set_heap h s) = lb_payload s"
  "lb_coll (set_heap h s) = lb_coll s" "lb_a3 (set_heap h s) = lb_a3 s" "lb_windows (set_heap h s) = lb_windows s"
  "lb_blocks (set_heap h s) = lb_blocks s" "lb_targets (set_heap h s) = lb_targets s" "lb_plans (set_heap h s) = lb_plans s"
  "lb_roce (set_heap h s) = lb_roce s" "lb_workers (set_heap h s) = lb_workers s"
  "ss_files (lb_session (set_heap h s)) = ss_files (lb_session s)"
  "ss_conns (lb_session (set_heap h s)) = ss_conns (lb_session s)"
  by (simp_all add: set_heap_def)

lemma total_refs_nonneg [simp]:
  "0 \<le> total_refs (p2p_bufs b) m" "0 \<le> total_refs (p2p_ios b) m" "0 \<le> total_refs (coll_bufs b) c"
  "0 \<le> total_refs (coll_ios b) c" "0 \<le> total_refs (target_bufs b) t" "0 \<le> total_refs (worker_bufs b) w"
  "0 \<le> total_refs (worker_ios b) w" "0 \<le> total_refs (worker_inner b) w" "0 \<le> total_refs (worker_session b) w"
  "0 \<le> total_refs (window_buf b) a" "0 \<le> total_refs (plan_window b) p"
  by (rule total_nonneg, simp)+

lemma acct_nonneg [simp]: "0 \<le> acct_bufs s b" "0 \<le> acct_ios s i"
  by (simp_all add: acct_bufs_def acct_ios_def)

lemma ref_counts_nonneg [simp]: "0 \<le> inner_refs s i" "0 \<le> session_refs s i" "0 \<le> window_refs s b" "0 \<le> plan_refs s t"
  by (simp_all add: inner_refs_def session_refs_def window_refs_def plan_refs_def)

lemma ref_counts_frame [simp]:
  "inner_refs (s\<lparr>lb_p2p := m\<rparr>) = inner_refs s" "inner_refs (s\<lparr>lb_payload := m\<rparr>) = inner_refs s"
  "inner_refs (s\<lparr>lb_coll := c\<rparr>) = inner_refs s" "inner_refs (s\<lparr>lb_windows := ws\<rparr>) = inner_refs s"
  "inner_refs (s\<lparr>lb_targets := ts\<rparr>) = inner_refs s" "inner_refs (s\<lparr>lb_plans := ps\<rparr>) = inner_refs s"
  "inner_refs (s\<lparr>lb_roce := rs\<rparr>) = inner_refs s"
  "session_refs (s\<lparr>lb_p2p := m\<rparr>) = session_refs s" "session_refs (s\<lparr>lb_payload := m\<rparr>) = session_refs s"
  "session_refs (s\<lparr>lb_coll := c\<rparr>) = session_refs s" "session_refs (s\<lparr>lb_windows := ws\<rparr>) = session_refs s"
  "session_refs (s\<lparr>lb_targets := ts\<rparr>) = session_refs s" "session_refs (s\<lparr>lb_plans := ps\<rparr>) = session_refs s"
  "session_refs (s\<lparr>lb_roce := rs\<rparr>) = session_refs s"
  "window_refs (s\<lparr>lb_p2p := m\<rparr>) = window_refs s" "window_refs (s\<lparr>lb_payload := m\<rparr>) = window_refs s"
  "window_refs (s\<lparr>lb_coll := c\<rparr>) = window_refs s" "window_refs (s\<lparr>lb_workers := wk\<rparr>) = window_refs s"
  "window_refs (s\<lparr>lb_targets := ts\<rparr>) = window_refs s" "window_refs (s\<lparr>lb_plans := ps\<rparr>) = window_refs s"
  "window_refs (s\<lparr>lb_roce := rs\<rparr>) = window_refs s"
  "plan_refs (s\<lparr>lb_p2p := m\<rparr>) = plan_refs s" "plan_refs (s\<lparr>lb_payload := m\<rparr>) = plan_refs s"
  "plan_refs (s\<lparr>lb_coll := c\<rparr>) = plan_refs s" "plan_refs (s\<lparr>lb_windows := ws\<rparr>) = plan_refs s"
  "plan_refs (s\<lparr>lb_targets := ts\<rparr>) = plan_refs s" "plan_refs (s\<lparr>lb_workers := wk\<rparr>) = plan_refs s"
  "plan_refs (s\<lparr>lb_roce := rs\<rparr>) = plan_refs s"
  by (simp_all add: inner_refs_def session_refs_def window_refs_def plan_refs_def fun_eq_iff)

text \<open>Conditions that do not look at the tables of transfers or at the windows.\<close>

lemma tables_frame [simp]:
  "counts_ok (s\<lparr>lb_p2p := m\<rparr>) = counts_ok s" "counts_ok (s\<lparr>lb_payload := m\<rparr>) = counts_ok s"
  "counts_ok (s\<lparr>lb_coll := c\<rparr>) = counts_ok s" "counts_ok (s\<lparr>lb_windows := ws\<rparr>) = counts_ok s"
  "owners_ok h (s\<lparr>lb_p2p := m\<rparr>) = owners_ok h s" "owners_ok h (s\<lparr>lb_payload := m\<rparr>) = owners_ok h s"
  "owners_ok h (s\<lparr>lb_coll := c\<rparr>) = owners_ok h s" "owners_ok h (s\<lparr>lb_targets := ts\<rparr>) = owners_ok h s"
  "owners_ok h (s\<lparr>lb_plans := ps\<rparr>) = owners_ok h s" "owners_ok h (s\<lparr>lb_roce := rs\<rparr>) = owners_ok h s"
  "fresh_ok h (s\<lparr>lb_p2p := m\<rparr>) = fresh_ok h s" "fresh_ok h (s\<lparr>lb_payload := m\<rparr>) = fresh_ok h s"
  "fresh_ok h (s\<lparr>lb_coll := c\<rparr>) = fresh_ok h s"
  "transfers_ok h (s\<lparr>lb_windows := ws\<rparr>) = transfers_ok h s" "transfers_ok h (s\<lparr>lb_targets := ts\<rparr>) = transfers_ok h s"
  "transfers_ok h (s\<lparr>lb_plans := ps\<rparr>) = transfers_ok h s" "transfers_ok h (s\<lparr>lb_roce := rs\<rparr>) = transfers_ok h s"
  "transfers_ok h (s\<lparr>lb_workers := wk\<rparr>) = transfers_ok h s"
  by (simp_all add: counts_ok_def owners_ok_def fresh_ok_def transfers_ok_def)

text \<open>A buffer without references is in none of the tables.\<close>

lemma acct_bufs_zero:
  assumes "acct_bufs s b = 0"
  shows "total_refs (p2p_bufs b) (lb_p2p s) = 0" "total_refs (p2p_bufs b) (lb_payload s) = 0"
    "total_refs (coll_bufs b) (lb_coll s) = 0" "total_refs (target_bufs b) (lb_targets s) = 0"
    "total_refs (worker_bufs b) (lb_workers s) = 0"
  using assms by (auto simp: acct_bufs_def add_nonneg_eq_0_iff)

lemma same_tables_acct:
  assumes "same_tables s s'"
  shows "acct_bufs s' = acct_bufs s" "acct_ios s' = acct_ios s" "inner_refs s' = inner_refs s"
    "session_refs s' = session_refs s" "window_refs s' = window_refs s" "plan_refs s' = plan_refs s"
  using assms by (intro ext, simp add: acct_bufs_def acct_ios_def inner_refs_def session_refs_def window_refs_def
    plan_refs_def same_tables_def)+

text \<open>A change of the heap that leaves the referenced buffers and the inner handles alone.\<close>

definition frame_ok :: "lib \<Rightarrow> heap \<Rightarrow> heap \<Rightarrow> bool" where
  "frame_ok s h h' \<longleftrightarrow> hp_next h \<le> hp_next h' \<and> (\<forall>b. acct_bufs s b \<noteq> 0 \<longrightarrow> shape h' b = shape h b) \<and>
    (\<forall>i. inner_refs s i \<noteq> 0 \<longrightarrow> i \<in> live_ios h \<longrightarrow> i \<in> live_ios h') \<and>
    (\<forall>b. a3_of h' b = a3_of h b \<or> window_refs s b = 0 \<and> (a3_of h' b = None \<or> a3_of h' b = Some 0))"

lemma frame_ok_same:
  "hp_next h \<le> hp_next h' \<Longrightarrow> shape h' = shape h \<Longrightarrow> live_ios h \<subseteq> live_ios h' \<Longrightarrow> a3_of h' = a3_of h \<Longrightarrow> frame_ok s h h'"
  by (auto simp: frame_ok_def)

lemma frame_ok_kept: "kept h h' \<Longrightarrow> frame_ok s h h'"
  by (rule frame_ok_same) (simp_all add: kept_def)

lemma owners_ok_frame: "owners_ok h s \<Longrightarrow> frame_ok s h h' \<Longrightarrow> owners_ok h' s"
  unfolding owners_ok_def frame_ok_def by (metis option.distinct(1) option.inject)

lemma tables_ok_frame:
  assumes ok: "tables_ok h s" and fr: "frame_ok s h h'"
  shows "tables_ok h' s"
proof -
  have sh: "\<And>b. acct_bufs s b \<noteq> 0 \<Longrightarrow> shape h' b = shape h b" using fr by (simp add: frame_ok_def)
  have "p2p_table_ok h' (lb_p2p s)" "p2p_table_ok h' (lb_payload s)"
    by (rule p2p_table_ok_mono [where h = h], use ok in \<open>simp add: tables_ok_def transfers_ok_def\<close>, rule sh, metis acct_bufs_zero)+
  moreover have "coll_table_ok h' (lb_coll s)"
    by (rule coll_table_ok_mono [where h = h], use ok in \<open>simp add: tables_ok_def transfers_ok_def\<close>, rule sh, metis acct_bufs_zero)
  moreover have "fresh_ok h' s" using ok fr by (auto simp: tables_ok_def fresh_ok_def frame_ok_def)
  ultimately show ?thesis using ok owners_ok_frame [OF _ fr] by (simp add: tables_ok_def transfers_ok_def)
qed

lemma same_tables_set_heap [simp]: "same_tables s (set_heap h s)"
  by (simp add: same_tables_def)

lemma acct_set_heap [simp]: "acct_bufs (set_heap h s) = acct_bufs s" "acct_ios (set_heap h s) = acct_ios s"
  using same_tables_acct [of s "set_heap h s"] by simp_all

lemma tables_ok_cong:
  assumes "tables_ok h s" "same_tables s s'"
  shows "tables_ok h s'"
  using assms same_tables_acct [OF assms(2)]
  by (simp add: tables_ok_def transfers_ok_def fresh_ok_def owners_ok_def counts_ok_def same_tables_def)

lemma accounts_frame:
  assumes ok: "accounts_ok s" and t: "same_tables s s'" and fr: "frame_ok s (lb_heap s) (lb_heap s')"
    and bal: "balanced (acct_bufs s) (acct_ios s) (lb_heap s')"
  shows "accounts_ok s'"
proof -
  have "tables_ok (lb_heap s') s" using ok tables_ok_frame [OF _ fr] by (simp add: accounts_ok_def)
  then show ?thesis using tables_ok_cong [OF _ t] bal same_tables_acct [OF t] by (simp add: accounts_ok_def)
qed

text \<open>The case of a new heap.\<close>

lemma accounts_heap:
  assumes "accounts_ok s" "frame_ok s (lb_heap s) h" "balanced (acct_bufs s) (acct_ios s) h"
  shows "accounts_ok (set_heap h s)"
  by (rule accounts_frame [OF assms(1)]) (use assms in \<open>simp_all add: same_tables_def\<close>)

lemma accounts_balanced: "accounts_ok s \<Longrightarrow> balanced (acct_bufs s) (acct_ios s) (lb_heap s)"
  by (simp add: accounts_ok_def)

text \<open>The counters seen from an object.\<close>

lemma accounts_buffer:
  "accounts_ok s \<Longrightarrow> hp_buffers (lb_heap s) b = Some x \<Longrightarrow> bf_pending x = acct_bufs s b"
  by (auto simp: accounts_ok_def balanced_def dest: ledger_buffer)

lemma accounts_io:
  assumes "accounts_ok s" "hp_ios (lb_heap s) i = Some x"
  shows "io_pending x = acct_ios s i" "\<not> io_done x \<Longrightarrow> acct_ios s i = 1 \<or> io_sync_acl_stream x"
    "acct_ios s i \<noteq> 0 \<Longrightarrow> \<not> io_done x"
proof -
  obtain F where F: "F \<subseteq> sync_of (lb_heap s)" "ledger (acct_bufs s) (acct_ios s) F (lb_heap s)"
    using accounts_balanced [OF assms(1)] by (auto simp: balanced_def)
  have x: "io_pending x = acct_ios s i \<and> (io_done x \<longleftrightarrow> acct_ios s i = 0 \<and> i \<notin> F)" by (rule ledger_io [OF F(2) assms(2)])
  then show "io_pending x = acct_ios s i" "acct_ios s i \<noteq> 0 \<Longrightarrow> \<not> io_done x" by auto
  have "acct_ios s i \<le> 1" using F(2) by (auto simp: ledger_def)
  moreover have "0 \<le> acct_ios s i" by simp
  ultimately have one: "acct_ios s i = 0 \<or> acct_ios s i = 1" by linarith
  show "\<not> io_done x \<Longrightarrow> acct_ios s i = 1 \<or> io_sync_acl_stream x"
    using x one F(1) assms(2) by (auto simp: sync_of_def)
qed

section \<open>Every call keeps the accounts\<close>

lemma accounts_session:
  "accounts_ok s \<Longrightarrow> lb_heap s' = lb_heap s \<Longrightarrow> same_tables s s' \<Longrightarrow> accounts_ok s'"
  by (rule accounts_frame) (auto dest: accounts_balanced simp: frame_ok_def)

lemmas frame_defs = frame_ok_def live_ios_def a3_of_def shape_def

lemma accounts_upd_client: "accounts_ok s \<Longrightarrow> accounts_ok (set_heap (upd_client c f (lb_heap s)) s)"
  by (rule accounts_heap) (simp_all add: frame_ok_same heap_simps balanced_upd_client accounts_balanced)

lemma accounts_bump: "accounts_ok s \<Longrightarrow> accounts_ok (set_heap (bump (lb_heap s)) s)"
  by (rule accounts_heap) (auto simp: bump_def frame_defs intro: balanced_bump [OF accounts_balanced, unfolded bump_def, simplified])

lemma accounts_alloc_done:
  "accounts_ok s \<Longrightarrow> io_done x \<Longrightarrow> io_pending x = 0 \<Longrightarrow> accounts_ok (set_heap (snd (alloc_io x (lb_heap s))) s)"
  by (rule accounts_heap) (simp_all add: frame_ok_same subset_insertI heap_simps balanced_alloc_done accounts_balanced)

lemma accounts_MakeIo: "accounts_ok s \<Longrightarrow> accounts_ok (set_heap (snd (MakeIo st n k e (lb_heap s))) s)"
  unfolding MakeIo_def by (rule accounts_alloc_done) (simp_all add: new_io_def)

lemma accounts_MakeAclStreamIo: "accounts_ok s \<Longrightarrow> accounts_ok (set_heap (snd (MakeAclStreamIo st n (lb_heap s))) s)"
  by (rule accounts_heap)
    (simp_all add: balanced_MakeAclStreamIo accounts_balanced,
     simp add: MakeAclStreamIo_def MakePendingIo_def alloc_io_def upd_io_def frame_defs)

lemma accounts_buffer_write: "accounts_ok s \<Longrightarrow> accounts_ok (set_heap (buffer_write b off d (lb_heap s)) s)"
  by (rule accounts_heap) (simp_all add: frame_ok_same heap_simps balanced_buffer_write accounts_balanced)

lemma case_MakeAclStreamIo:
  "(case MakeAclStreamIo st n h of (io, h) \<Rightarrow> f io h) = f (hp_next h) (snd (MakeAclStreamIo st n h))"
  by (simp add: MakeAclStreamIo_def MakePendingIo_def alloc_io_def)

lemma set_heap_twice [simp]: "set_heap h (set_heap h' s) = set_heap h s"
  by (simp add: set_heap_def)

lemma accounts_reply_io: "accounts_ok s \<Longrightarrow> accounts_ok (snd (reply_io st t s))"
  by (simp add: reply_io_def case_MakeIo accounts_MakeIo)

lemma accounts_invalid: "accounts_ok s \<Longrightarrow> accounts_ok (snd (invalid s))"
  by (simp add: invalid_def)

lemma accounts_stream_io: "accounts_ok s \<Longrightarrow> accounts_ok (snd (stream_io dv call st n s))"
  by (simp add: stream_io_def case_MakeIo case_MakeAclStreamIo accounts_MakeIo accounts_MakeAclStreamIo)

lemmas accounts_replies = accounts_reply_io accounts_invalid accounts_stream_io

lemma accounts_attach:
  "accounts_ok s \<Longrightarrow> accounts_ok (snd (flume_attach_hccl_comm dv client comm rank n s))"
  "accounts_ok s \<Longrightarrow> accounts_ok (snd (flume_attach_sim_comm client name rank n s))"
  by (auto simp: flume_attach_hccl_comm_def flume_attach_sim_comm_def accounts_upd_client split: option.split)

lemma accounts_windows: "accounts_ok s \<Longrightarrow> hp_buffers (lb_heap s) b = Some x \<Longrightarrow> bf_a3_refs x = window_refs s b"
  by (auto simp: accounts_ok_def tables_ok_def owners_ok_def a3_of_def dest!: spec [of _ b])

lemma accounts_no_windows: "accounts_ok s \<Longrightarrow> hp_buffers (lb_heap s) b = None \<Longrightarrow> window_refs s b = 0"
  by (auto simp: accounts_ok_def tables_ok_def owners_ok_def a3_of_def dest!: spec [of _ b])

lemma accounts_alloc_buffer:
  assumes "accounts_ok s"
  shows "accounts_ok (set_heap (snd (alloc_buffer client ptr len type (lb_heap s))) s)"
proof (rule accounts_heap [OF assms])
  show "balanced (acct_bufs s) (acct_ios s) (snd (alloc_buffer client ptr len type (lb_heap s)))"
    unfolding alloc_buffer_def snd_conv by (rule balanced_new_buffer) (simp_all add: accounts_balanced assms)
  have "hp_buffers (lb_heap s) (hp_next (lb_heap s)) = None" "acct_bufs s (hp_next (lb_heap s)) = 0"
    using balanced_fresh [OF accounts_balanced [OF assms]] by auto
  then show "frame_ok s (lb_heap s) (snd (alloc_buffer client ptr len type (lb_heap s)))"
    using accounts_no_windows [OF assms] by (auto simp: alloc_buffer_def frame_defs)
qed

lemma case_alloc_buffer:
  "(case alloc_buffer c p n t h of (b, h) \<Rightarrow> f b h) = f (hp_next h) (snd (alloc_buffer c p n t h))"
  by (simp add: alloc_buffer_def)

lemma accounts_take_memory: "accounts_ok s \<Longrightarrow> accounts_ok (set_heap (snd (take_memory n (lb_heap s))) s)"
  by (rule accounts_heap)
    (auto simp: take_memory_def frame_defs intro!: balanced_cong [OF accounts_balanced])

lemma accounts_register:
  assumes "accounts_ok s"
  shows "accounts_ok (snd (flume_register_buffer dv client ptr len type s))"
    "accounts_ok (snd (flume_sim_alloc_buffer client len type s))"
proof -
  show "accounts_ok (snd (flume_register_buffer dv client ptr len type s))"
    using assms by (simp add: flume_register_buffer_def case_alloc_buffer accounts_alloc_buffer accounts_replies)
  have "accounts_ok (set_heap (snd (alloc_buffer client (fst (take_memory len (lb_heap s))) len type
      (snd (take_memory len (lb_heap s))))) s)"
    using accounts_alloc_buffer [OF accounts_take_memory [OF assms]] by simp
  then show "accounts_ok (snd (flume_sim_alloc_buffer client len type s))"
    using assms by (auto simp: flume_sim_alloc_buffer_def case_alloc_buffer accounts_replies split: prod.split)
qed

lemma accounts_delete_buffer:
  assumes "accounts_ok s" "acct_bufs s b = 0" "window_refs s b = 0"
  shows "accounts_ok (set_heap (delete_buffer b (lb_heap s)) s)"
  by (rule accounts_heap [OF assms(1)])
    (use assms in \<open>auto simp: delete_buffer_def frame_defs accounts_balanced intro!: balanced_delete_buffer\<close>)

lemma accounts_delete_io:
  assumes "accounts_ok s" "acct_ios s i = 0" "inner_refs s i = 0"
  shows "accounts_ok (set_heap (delete_io i (lb_heap s)) s)"
  by (rule accounts_heap [OF assms(1)])
    (use assms in \<open>auto simp: delete_io_def frame_defs accounts_balanced intro!: balanced_delete_io\<close>)

lemma accounts_buffer_release:
  assumes "accounts_ok s" "b = 0 \<or> hp_buffers (lb_heap s) b \<noteq> None"
  shows "accounts_ok (snd (flume_buffer_release b s))"
proof (cases "b \<noteq> 0 \<and> bf_a3_refs (buffer_at (lb_heap s) b) = 0 \<and> bf_pending (buffer_at (lb_heap s) b) = 0")
  case True
  then have "acct_bufs s b = 0" "window_refs s b = 0"
    using assms accounts_buffer [OF assms(1)] accounts_windows [OF assms(1)] by auto
  then show ?thesis using True accounts_delete_buffer [OF assms(1)] by (simp add: flume_buffer_release_def delete_buffer_def)
qed (use assms in \<open>auto simp: flume_buffer_release_def\<close>)

lemma accounts_io_release:
  assumes "accounts_ok s" "i = 0 \<or> hp_ios (lb_heap s) i \<noteq> None \<and> inner_refs s i = 0"
  shows "accounts_ok (snd (flume_io_release i s))"
proof (cases "i \<noteq> 0 \<and> io_pending (io_at (lb_heap s) i) = 0")
  case True
  then have "acct_ios s i = 0" "inner_refs s i = 0" using assms accounts_io(1) [OF assms(1)] by auto
  then show ?thesis using True accounts_delete_io [OF assms(1)] by (simp add: flume_io_release_def delete_io_def)
qed (use assms in \<open>auto simp: flume_io_release_def\<close>)

lemma same_tables_others [simp]: "same_tables s (s\<lparr>lb_a3 := a\<rparr>)" "same_tables s (s\<lparr>lb_blocks := b\<rparr>)"
  by (simp_all add: same_tables_def)

lemmas tables_defs = tables_ok_def transfers_ok_def fresh_ok_def owners_ok_def counts_ok_def
  inner_refs_def session_refs_def window_refs_def plan_refs_def

text \<open>Windows: the buffer's counter and the table change together.\<close>

lemma accounts_set_windows:
  assumes ok: "accounts_ok s" and h: "h = upd_buffer b (\<lambda>x. x\<lparr>bf_a3_refs := bf_a3_refs x + d\<rparr>) (lb_heap s)"
    and live: "hp_buffers (lb_heap s) b \<noteq> None"
    and ws: "\<And>b'. total_refs (window_buf b') ws = window_refs s b' + (if b' = b then d else 0)"
      "finite (dom ws)" "\<And>a. hp_next (lb_heap s) \<le> a \<Longrightarrow> a < n \<or> ws a = None" "hp_next (lb_heap s) \<le> n"
  shows "accounts_ok (set_heap (h\<lparr>hp_next := n\<rparr>) (s\<lparr>lb_windows := ws\<rparr>))"
proof -
  let ?h = "h\<lparr>hp_next := n\<rparr>" and ?s = "s\<lparr>lb_windows := ws\<rparr>"
  have acct: "acct_bufs ?s = acct_bufs s" "acct_ios ?s = acct_ios s" by (simp_all add: acct_bufs_def acct_ios_def fun_eq_iff)
  have "shape ?h b' = shape (lb_heap s) b'" for b' by (simp add: h shape_def upd_buffer_def option.map_comp o_def)
  then have "transfers_ok ?h s" using ok p2p_table_ok_cong coll_table_ok_cong
    unfolding accounts_ok_def tables_ok_def transfers_ok_def by metis
  moreover have "ws a = None" if "n \<le> a" for a using ws(3) [of a] ws(4) that by auto
  then have "fresh_ok ?h ?s" using ok ws(2,4) by (auto simp: accounts_ok_def tables_ok_def fresh_ok_def)
  moreover have "a3_of ?h = (a3_of (lb_heap s))(b := map_option (\<lambda>n. n + d) (a3_of (lb_heap s) b))" "live_ios ?h = live_ios (lb_heap s)"
    by (auto simp: h a3_of_def live_ios_def upd_buffer_def option.map_comp o_def)
  moreover have "window_refs ?s b' = window_refs s b' + (if b' = b then d else 0)" for b' using ws(1) by (simp add: window_refs_def)
  moreover have "a3_of (lb_heap s) b \<noteq> None" using live by (simp add: a3_of_def)
  ultimately have "owners_ok ?h ?s" "transfers_ok ?h s" "fresh_ok ?h ?s" using ok
    by (auto simp: accounts_ok_def tables_ok_def owners_ok_def)
  moreover have "counts_ok ?s" using ok by (simp add: accounts_ok_def tables_ok_def)
  moreover have "balanced (acct_bufs s) (acct_ios s) h" unfolding h by (rule balanced_upd_buffer [OF accounts_balanced [OF ok]]) simp
  then have "balanced (acct_bufs s) (acct_ios s) ?h" by (rule balanced_next) (use ws(4) in \<open>simp add: h upd_buffer_def\<close>)
  ultimately have "tables_ok ?h ?s" by (simp add: tables_ok_def)
  then show ?thesis using tables_ok_cong [of ?h ?s "set_heap ?h ?s"] same_tables_acct [of ?s "set_heap ?h ?s"]
      \<open>balanced (acct_bufs s) (acct_ios s) ?h\<close> by (simp add: accounts_ok_def acct)
qed

lemma accounts_new_window:
  assumes "accounts_ok s" "hp_buffers (lb_heap s) (aw_buffer w) \<noteq> None"
  shows "accounts_ok (snd (new_window w s))"
proof -
  have fin: "finite (dom (lb_windows s))" and new: "\<forall>a\<ge>hp_next (lb_heap s). lb_windows s a = None"
    using assms(1) by (simp_all add: accounts_ok_def tables_ok_def fresh_ok_def)
  show ?thesis
    using accounts_set_windows [OF assms(1) refl assms(2), of "(lb_windows s)(hp_next (lb_heap s) \<mapsto> w)" 1 "hp_next (lb_heap s) + 1"] fin new
    by (simp add: new_window_def bump_def upd_buffer_def total_put window_refs_def window_buf_def)
qed

lemma accounts_a3_register:
  assumes "accounts_ok s" "b = 0 \<or> hp_buffers (lb_heap s) b \<noteq> None"
  shows "accounts_ok (snd (flume_a3_register_symmetric_memory dv client b off len s))"
proof -
  have *: "accounts_ok ((set_heap (upd_client client f (lb_heap s)) s)\<lparr>lb_a3 := m\<rparr>)" for f m
    by (rule accounts_session [OF accounts_upd_client [OF assms(1)]]) (simp_all add: same_tables_def)
  have window: "accounts_ok (snd (new_window w ((set_heap (upd_client client f (lb_heap s)) s)\<lparr>lb_a3 := m\<rparr>)))"
    "accounts_ok (snd (new_window w s))" if "b \<noteq> 0" "aw_buffer w = b" for w f m
    using that assms by (auto intro!: accounts_new_window * simp: heap_simps)
  have "accounts_ok (snd (invalid s))" using assms(1) by (rule accounts_invalid)
  then show ?thesis unfolding flume_a3_register_symmetric_memory_def Let_def using window assms *
    by (simp split: prod.split)
qed

lemma accounts_a3_deregister:
  assumes ok: "accounts_ok s" and w: "window = 0 \<or> lb_windows s window = Some w"
  shows "accounts_ok (snd (flume_a3_deregister_symmetric_memory dv window s))"
proof (cases "window = 0")
  case False
  then have w: "lb_windows s window = Some w" using assms(2) by simp
  have fin: "finite (dom (lb_windows s))" and new: "\<forall>a\<ge>hp_next (lb_heap s). lb_windows s a = None"
    using ok by (simp_all add: accounts_ok_def tables_ok_def fresh_ok_def)
  let ?b = "aw_buffer w"
  have "window_buf ?b w \<le> window_refs s ?b" unfolding window_refs_def by (rule total_ge [OF fin _ w]) simp
  then have pos: "1 \<le> window_refs s ?b" by (simp add: window_buf_def)
  then have live: "hp_buffers (lb_heap s) ?b \<noteq> None" using accounts_no_windows [OF ok, of ?b] by fastforce
  then have gt: "0 < bf_a3_refs (buffer_at (lb_heap s) ?b)" using accounts_windows [OF ok] pos by auto
  have "hp_buffers (lb_heap s) 0 = None" using accounts_balanced [OF ok] by (auto simp: balanced_def ledger_def)
  then have "?b \<noteq> 0" using live by metis
  then show ?thesis
    using accounts_set_windows [OF ok refl live, of "(lb_windows s)(window := None)" "- 1" "hp_next (lb_heap s)"] fin new gt w False ok
    by (simp add: flume_a3_deregister_symmetric_memory_def Let_def upd_buffer_def total_remove window_refs_def window_buf_def)
qed (use ok in \<open>simp add: flume_a3_deregister_symmetric_memory_def\<close>)

lemma accounts_hbm_copy:
  assumes "accounts_ok s"
  shows "accounts_ok (snd (flume_hbm_copy_async dv dst doff src soff len s))"
proof -
  have "accounts_ok (set_heap (snd (MakeIo st n k e (buffer_write dst doff d (lb_heap s)))) s)" for st n k e d
    using accounts_MakeIo [OF accounts_buffer_write [OF assms]] by simp
  then show ?thesis using assms by (auto simp: flume_hbm_copy_async_def Let_def case_MakeIo accounts_replies)
qed

subsection \<open>Simulated transfers\<close>

text \<open>
  What the three tables of pending transfers have in common: the accounts are a rest plus the
  references of the table's entries, and the condition on the entries depends only on buffers that
  stay what they are.  Every submission that keeps its own table's ledger then keeps all accounts.
\<close>

locale transfer_table =
  fixes table :: "lib \<Rightarrow> 'k \<Rightarrow> 'p option" and set_table :: "('k \<Rightarrow> 'p option) \<Rightarrow> lib \<Rightarrow> lib"
    and bufs :: "nat \<Rightarrow> 'p \<Rightarrow> int" and ios :: "nat \<Rightarrow> 'p \<Rightarrow> int" and entries_ok :: "heap \<Rightarrow> ('k \<Rightarrow> 'p option) \<Rightarrow> bool"
  assumes set_same: "set_table (table s) s = s"
    and heap_same: "lb_heap (set_table m s) = lb_heap s"
    and rest_bufs: "\<exists>rb. (\<forall>b. 0 \<le> rb b) \<and> (\<forall>m. acct_bufs (set_table m s) = (\<lambda>b. rb b + total_refs (bufs b) m))"
    and rest_ios: "\<exists>ri. (\<forall>i. 0 \<le> ri i) \<and> (\<forall>m. acct_ios (set_table m s) = (\<lambda>i. ri i + total_refs (ios i) m))"
    and in_tables: "tables_ok h s \<Longrightarrow> entries_ok h (table s)"
    and same_others: "same_tables (set_table m s) (set_heap h (set_table m s))"
    and keeps_tables: "tables_ok h s \<Longrightarrow> kept h h' \<Longrightarrow> entries_ok h' m \<Longrightarrow> tables_ok h' (set_table m s)"
begin

lemma submission_keeps_accounts:
  assumes ok: "accounts_ok s"
    and step: "\<And>rb ri F. (\<And>b. 0 \<le> rb b) \<Longrightarrow> (\<And>i. 0 \<le> ri i) \<Longrightarrow>
      ledger (\<lambda>b. rb b + total_refs (bufs b) (table s)) (\<lambda>i. ri i + total_refs (ios i) (table s)) F (lb_heap s) \<Longrightarrow>
      entries_ok (lb_heap s) (table s) \<Longrightarrow>
      ledger (\<lambda>b. rb b + total_refs (bufs b) m') (\<lambda>i. ri i + total_refs (ios i) m') F h' \<and>
      entries_ok h' m' \<and> kept (lb_heap s) h' \<and> grows ios (hp_next (lb_heap s)) (table s) m'"
  shows "accounts_ok (set_heap h' (set_table m' s))"
proof -
  obtain F where F: "F \<subseteq> sync_of (lb_heap s)" "ledger (acct_bufs s) (acct_ios s) F (lb_heap s)"
    "\<forall>i\<in>sync_of (lb_heap s). acct_ios s i = 0" using accounts_balanced [OF ok] by (rule balancedE)
  obtain rb where rb: "\<And>b. 0 \<le> rb b" "\<And>m. acct_bufs (set_table m s) = (\<lambda>b. rb b + total_refs (bufs b) m)"
    using rest_bufs by metis
  obtain ri where ri: "\<And>i. 0 \<le> ri i" "\<And>m. acct_ios (set_table m s) = (\<lambda>i. ri i + total_refs (ios i) m)"
    using rest_ios by metis
  have tabs: "tables_ok (lb_heap s) s" using ok by (simp add: accounts_ok_def)
  have "ledger (\<lambda>b. rb b + total_refs (bufs b) (table s)) (\<lambda>i. ri i + total_refs (ios i) (table s)) F (lb_heap s)"
    using F(2) rb(2) [of "table s"] ri(2) [of "table s"] by (simp add: set_same)
  from step [OF rb(1) ri(1) this in_tables [OF tabs]]
  have res: "ledger (acct_bufs (set_table m' s)) (acct_ios (set_table m' s)) F h'" "entries_ok h' m'" "kept (lb_heap s) h'"
    and gr: "grows ios (hp_next (lb_heap s)) (table s) m'" by (simp_all add: rb(2) ri(2))
  have same: "same_tables (set_table m' s) (set_heap h' (set_table m' s))" by (rule same_others)
  have sync: "sync_of h' = sync_of (lb_heap s)" using res(3) by (simp add: kept_def)
  have "acct_ios (set_table m' s) i = 0" if i: "i \<in> sync_of (lb_heap s)" for i
  proof -
    have "i \<noteq> hp_next (lb_heap s)" using i balanced_fresh [OF accounts_balanced [OF ok]] by (auto simp: sync_of_def)
    then have "total_refs (ios i) m' \<le> total_refs (ios i) (table s)" using gr [unfolded grows_def, rule_format, of i] by simp
    moreover have "ri i + total_refs (ios i) (table s) = 0" using F(3) i ri(2) [of "table s"] by (simp add: set_same)
    ultimately show ?thesis using acct_nonneg(2) [of "set_table m' s" i] ri(2) [of m'] by simp
  qed
  then have "balanced (acct_bufs (set_table m' s)) (acct_ios (set_table m' s)) h'"
    using F(1) res(1) by (intro balancedI) (auto simp: sync)
  moreover have "tables_ok h' (set_heap h' (set_table m' s))"
    by (rule tables_ok_cong [OF keeps_tables [OF tabs res(3,2)] same])
  ultimately show ?thesis using same_tables_acct [OF same] by (simp add: accounts_ok_def)
qed

end

lemma kept_owners: "owners_ok h s \<Longrightarrow> kept h h' \<Longrightarrow> owners_ok h' s"
  by (rule owners_ok_frame [OF _ frame_ok_kept])

lemma kept_tables_cong:
  assumes "kept h h'"
  shows "p2p_table_ok h m \<Longrightarrow> p2p_table_ok h' m" "coll_table_ok h c \<Longrightarrow> coll_table_ok h' c" "hp_next h \<le> hp_next h'"
  using assms kept_shape [OF assms] by (auto intro: p2p_table_ok_cong coll_table_ok_cong simp: kept_def)

lemma kept_fresh: "fresh_ok h s \<Longrightarrow> kept h h' \<Longrightarrow> fresh_ok h' s"
  by (auto simp: kept_def fresh_ok_def)

lemma rest_plus:
  assumes "\<And>b. 0 \<le> (rb b :: int)" "\<And>m b. f m b = rb b + g b m"
  shows "\<exists>rb. (\<forall>b. 0 \<le> rb b) \<and> (\<forall>m. f m = (\<lambda>b. rb b + g b m))"
  using assms by (intro exI [of _ rb]) auto

interpretation p2p_transfers: transfer_table lb_p2p "\<lambda>m s. s\<lparr>lb_p2p := m\<rparr>" p2p_bufs p2p_ios p2p_table_ok
proof unfold_locales
  fix s :: lib
  show "\<exists>rb. (\<forall>b. 0 \<le> rb b) \<and> (\<forall>m. acct_bufs (s\<lparr>lb_p2p := m\<rparr>) = (\<lambda>b. rb b + total_refs (p2p_bufs b) m))"
    by (rule rest_plus [where rb = "\<lambda>b. total_refs (p2p_bufs b) (lb_payload s) + total_refs (coll_bufs b) (lb_coll s) +
        total_refs (target_bufs b) (lb_targets s) + total_refs (worker_bufs b) (lb_workers s)"]) (simp_all add: acct_bufs_def)
  show "\<exists>ri. (\<forall>i. 0 \<le> ri i) \<and> (\<forall>m. acct_ios (s\<lparr>lb_p2p := m\<rparr>) = (\<lambda>i. ri i + total_refs (p2p_ios i) m))"
    by (rule rest_plus [where rb = "\<lambda>i. total_refs (p2p_ios i) (lb_payload s) + total_refs (coll_ios i) (lb_coll s) +
        total_refs (worker_ios i) (lb_workers s)"]) (simp_all add: acct_ios_def)
qed (auto simp: same_tables_def tables_ok_def transfers_ok_def intro: kept_tables_cong kept_owners kept_fresh)

interpretation payload_transfers: transfer_table lb_payload "\<lambda>m s. s\<lparr>lb_payload := m\<rparr>" p2p_bufs p2p_ios p2p_table_ok
proof unfold_locales
  fix s :: lib
  show "\<exists>rb. (\<forall>b. 0 \<le> rb b) \<and> (\<forall>m. acct_bufs (s\<lparr>lb_payload := m\<rparr>) = (\<lambda>b. rb b + total_refs (p2p_bufs b) m))"
    by (rule rest_plus [where rb = "\<lambda>b. total_refs (p2p_bufs b) (lb_p2p s) + total_refs (coll_bufs b) (lb_coll s) +
        total_refs (target_bufs b) (lb_targets s) + total_refs (worker_bufs b) (lb_workers s)"]) (simp_all add: acct_bufs_def)
  show "\<exists>ri. (\<forall>i. 0 \<le> ri i) \<and> (\<forall>m. acct_ios (s\<lparr>lb_payload := m\<rparr>) = (\<lambda>i. ri i + total_refs (p2p_ios i) m))"
    by (rule rest_plus [where rb = "\<lambda>i. total_refs (p2p_ios i) (lb_p2p s) + total_refs (coll_ios i) (lb_coll s) +
        total_refs (worker_ios i) (lb_workers s)"]) (simp_all add: acct_ios_def)
qed (auto simp: same_tables_def tables_ok_def transfers_ok_def intro: kept_tables_cong kept_owners kept_fresh)

interpretation coll_transfers: transfer_table lb_coll "\<lambda>m s. s\<lparr>lb_coll := m\<rparr>" coll_bufs coll_ios coll_table_ok
proof unfold_locales
  fix s :: lib
  show "\<exists>rb. (\<forall>b. 0 \<le> rb b) \<and> (\<forall>m. acct_bufs (s\<lparr>lb_coll := m\<rparr>) = (\<lambda>b. rb b + total_refs (coll_bufs b) m))"
    by (rule rest_plus [where rb = "\<lambda>b. total_refs (p2p_bufs b) (lb_p2p s) + total_refs (p2p_bufs b) (lb_payload s) +
        total_refs (target_bufs b) (lb_targets s) + total_refs (worker_bufs b) (lb_workers s)"]) (simp_all add: acct_bufs_def)
  show "\<exists>ri. (\<forall>i. 0 \<le> ri i) \<and> (\<forall>m. acct_ios (s\<lparr>lb_coll := m\<rparr>) = (\<lambda>i. ri i + total_refs (coll_ios i) m))"
    by (rule rest_plus [where rb = "\<lambda>i. total_refs (p2p_ios i) (lb_p2p s) + total_refs (p2p_ios i) (lb_payload s) +
        total_refs (worker_ios i) (lb_workers s)"]) (simp_all add: acct_ios_def)
qed (auto simp: same_tables_def tables_ok_def transfers_ok_def intro: kept_tables_cong kept_owners kept_fresh)

lemma accounts_run_p2p:
  assumes "accounts_ok s" "hp_buffers (lb_heap s) buffer \<noteq> None"
  shows "accounts_ok (snd (run_p2p (SubmitSimP2p client role buffer offset count t peer) s))"
proof -
  obtain r h' m' where run: "SubmitSimP2p client role buffer offset count t peer (lb_heap s, lb_p2p s) = (r, h', m')"
    by (metis prod.exhaust)
  have "submit_outcome ''sim p2p'' role buffer offset count t (lb_heap s, lb_p2p s) (h', m')"
    using SubmitSimP2p_outcome [of role buffer offset count t "(lb_heap s, lb_p2p s)" client peer] run by simp
  then have "accounts_ok (set_heap h' (s\<lparr>lb_p2p := m'\<rparr>))"
    by (intro p2p_transfers.submission_keeps_accounts [OF assms(1)] submit_outcome_inv [where rb = rb and ri = ri for rb ri, OF _ _ _ _ assms(2)])
  then show ?thesis by (simp add: run_p2p_def run)
qed

lemma accounts_run_payload:
  assumes "accounts_ok s" "hp_buffers (lb_heap s) buffer \<noteq> None"
  shows "accounts_ok (snd (run_payload (SubmitSimHcommPayload client role buffer offset count t peer) s))"
proof -
  obtain r h' m' where run: "SubmitSimHcommPayload client role buffer offset count t peer (lb_heap s, lb_payload s) = (r, h', m')"
    by (metis prod.exhaust)
  have "submit_outcome ''sim HCOMM payload'' role buffer offset count t (lb_heap s, lb_payload s) (h', m')"
    using SubmitSimHcommPayload_outcome [of role buffer offset count t "(lb_heap s, lb_payload s)" client peer] run by simp
  then have "accounts_ok (set_heap h' (s\<lparr>lb_payload := m'\<rparr>))"
    by (intro payload_transfers.submission_keeps_accounts [OF assms(1)] submit_outcome_inv [where rb = rb and ri = ri for rb ri, OF _ _ _ _ assms(2)])
  then show ?thesis by (simp add: run_payload_def run)
qed

lemma accounts_run_coll:
  assumes "accounts_ok s" "hp_buffers (lb_heap s) dst \<noteq> None"
  shows "accounts_ok (snd (run_coll (SubmitSimCollective fp client kind dst doff src soff count t op) s))"
proof -
  obtain r h' m' where run: "SubmitSimCollective fp client kind dst doff src soff count t op (lb_heap s, lb_coll s) = (r, h', m')"
    by (metis prod.exhaust)
  have "coll_outcome fp kind dst doff count t op (lb_heap s, lb_coll s) (h', m')"
    using SubmitSimCollective_outcome [of fp kind dst doff count t op "(lb_heap s, lb_coll s)" client src soff] run by simp
  then have "accounts_ok (set_heap h' (s\<lparr>lb_coll := m'\<rparr>))"
    by (intro coll_transfers.submission_keeps_accounts [OF assms(1)] coll_outcome_inv [where rb = rb and ri = ri for rb ri, OF _ _ _ _ assms(2)])
  then show ?thesis by (simp add: run_coll_def run)
qed

text \<open>Branches of a call.\<close>

lemma accounts_if:
  "(c \<Longrightarrow> accounts_ok (snd a)) \<Longrightarrow> (\<not> c \<Longrightarrow> accounts_ok (snd b)) \<Longrightarrow> accounts_ok (snd (if c then a else b))"
  by simp

lemma accounts_option:
  "accounts_ok (snd a) \<Longrightarrow> (\<And>n. x = Some n \<Longrightarrow> accounts_ok (snd (f n))) \<Longrightarrow>
    accounts_ok (snd (case x of None \<Rightarrow> a | Some n \<Rightarrow> f n))"
  by (cases x) simp_all

lemmas accounts_branches = accounts_if accounts_option accounts_replies

lemma accounts_p2p_async:
  assumes "accounts_ok s" "buffer = 0 \<or> hp_buffers (lb_heap s) buffer \<noteq> None"
  shows "accounts_ok (snd (p2p_async dv role name hccl client buffer offset count t peer st s))"
proof (cases "buffer = 0")
  case False
  then have "hp_buffers (lb_heap s) buffer \<noteq> None" using assms(2) by simp
  from accounts_run_p2p [OF assms(1) this] show ?thesis
    using assms(1) unfolding p2p_async_def Let_def by (intro accounts_branches) simp_all
qed (use assms in \<open>simp add: p2p_async_def accounts_replies\<close>)

lemma accounts_payload_async:
  assumes "accounts_ok s" "buffer = 0 \<or> hp_buffers (lb_heap s) buffer \<noteq> None"
  shows "accounts_ok (snd (payload_async dv role name client buffer offset count t peer st s))"
proof (cases "buffer = 0")
  case False
  then have "hp_buffers (lb_heap s) buffer \<noteq> None" using assms(2) by simp
  from accounts_run_payload [OF assms(1) this] show ?thesis
    using assms(1) unfolding payload_async_def Let_def
    by (intro accounts_branches) (simp_all add: case_MakeIo accounts_MakeIo split: prod.split)
qed (use assms in \<open>simp add: payload_async_def accounts_replies\<close>)

lemma accounts_collectives:
  assumes "accounts_ok s" "dst = 0 \<or> hp_buffers (lb_heap s) dst \<noteq> None"
  shows "accounts_ok (snd (flume_allreduce_async dv fp client dst doff src soff count t op st s))"
    "accounts_ok (snd (flume_allgather_async dv fp client dst doff src soff count t st s))"
proof -
  have "dst = 0 \<or> (\<forall>kind op. accounts_ok (snd (run_coll (SubmitSimCollective fp client kind dst doff src soff count t op) s)))"
    using accounts_run_coll [OF assms(1)] assms(2) by blast
  then show "accounts_ok (snd (flume_allreduce_async dv fp client dst doff src soff count t op st s))"
    "accounts_ok (snd (flume_allgather_async dv fp client dst doff src soff count t st s))"
    using assms(1) unfolding flume_allreduce_async_def flume_allgather_async_def Let_def
    by (intro accounts_branches; blast)+
qed

subsection \<open>Waiting\<close>

lemma accounts_upd_io:
  assumes "accounts_ok s" "\<And>x. io_pending (f x) = io_pending x \<and> io_done (f x) = io_done x \<and>
    io_sync_acl_stream (f x) = io_sync_acl_stream x"
  shows "accounts_ok (set_heap (upd_io i f (lb_heap s)) s)"
  by (rule accounts_heap [OF assms(1)])
    (use assms in \<open>auto simp: upd_io_def frame_defs intro: balanced_upd_io [OF accounts_balanced, unfolded upd_io_def]\<close>)

lemma accounts_CompleteIo:
  assumes "accounts_ok s" "acct_ios s i = 0"
  shows "accounts_ok (set_heap (CompleteIo i st n k e (lb_heap s)) s)"
  by (rule accounts_heap [OF assms(1)])
    (use assms in \<open>auto simp: frame_ok_same heap_simps intro: balanced_CompleteIo [OF accounts_balanced]\<close>)

lemma accounts_wait:
  assumes ok: "accounts_ok s" and io: "io = 0 \<or> hp_ios (lb_heap s) io \<noteq> None"
  shows "accounts_ok (snd (flume_wait dv io timeout s))"
proof (cases "io = 0 \<or> \<not> (dv_enable_hccl dv \<and> io_sync_acl_stream (io_at (lb_heap s) io) \<and> \<not> io_done (io_at (lb_heap s) io))
    \<or> timeout = 0 \<or> io_sync_started (io_at (lb_heap s) io)")
  case True
  then show ?thesis using ok by (auto simp: flume_wait_def Let_def)
next
  case False
  let ?s = "set_heap (upd_io io (\<lambda>x. x\<lparr>io_sync_started := True\<rparr>) (lb_heap s)) s"
  have s1: "accounts_ok ?s" by (rule accounts_upd_io [OF ok]) simp
  have "accounts_ok (set_heap (upd_io io (\<lambda>x. x\<lparr>io_sync_started := False\<rparr>) (lb_heap ?s)) ?s)"
    by (rule accounts_upd_io [OF s1]) simp
  moreover have "acct_ios ?s io = 0" using accounts_balanced [OF ok] False io by (auto simp: balanced_def sync_of_def)
  then have "accounts_ok (set_heap (CompleteIo io st n k e (lb_heap ?s)) ?s)" for st n k e
    by (rule accounts_CompleteIo [OF s1])
  ultimately show ?thesis using False by (auto simp: flume_wait_def Let_def split: acl_sync.split)
qed

subsection \<open>Sessions and blocks\<close>

lemma accounts_new_heap:
  assumes "accounts_ok s" "same_tables s s'" "hp_next (lb_heap s) \<le> hp_next (lb_heap s')"
    "hp_buffers (lb_heap s') = hp_buffers (lb_heap s)" "hp_ios (lb_heap s') = hp_ios (lb_heap s)"
  shows "accounts_ok s'"
proof (rule accounts_frame [OF assms(1,2)])
  show "frame_ok s (lb_heap s) (lb_heap s')" using assms(3-5) by (simp add: frame_defs)
  obtain F where F: "F \<subseteq> sync_of (lb_heap s)" "ledger (acct_bufs s) (acct_ios s) F (lb_heap s)"
    "\<forall>i\<in>sync_of (lb_heap s). acct_ios s i = 0" using accounts_balanced [OF assms(1)] by (rule balancedE)
  have "ledger (acct_bufs s) (acct_ios s) F (lb_heap s')" using F(2) assms(3-5) by (auto simp: ledger_def)
  then show "balanced (acct_bufs s) (acct_ios s) (lb_heap s')" using F(1,3) assms(5) by (auto simp: balanced_def sync_of_def)
qed

text \<open>The calls of \<open>Client_Session\<close> that only touch clients, files and sockets.\<close>

definition set_session :: "session_state \<Rightarrow> lib \<Rightarrow> lib" where
  "set_session ss s = s\<lparr>lb_session := ss\<rparr>"

lemma set_session_simps [simp]: "lb_session (set_session ss s) = ss" "same_tables s (set_session ss s)"
  by (simp_all add: set_session_def same_tables_def)

lemma session_calls_heap:
  "flume_client_open net ep ss = (r, ss') \<Longrightarrow> hp_next (ss_heap ss) \<le> hp_next (ss_heap ss') \<and>
    hp_buffers (ss_heap ss') = hp_buffers (ss_heap ss) \<and> hp_ios (ss_heap ss') = hp_ios (ss_heap ss)"
  "flume_client_close c ss = (r', ss') \<Longrightarrow> hp_next (ss_heap ss) \<le> hp_next (ss_heap ss') \<and>
    hp_buffers (ss_heap ss') = hp_buffers (ss_heap ss) \<and> hp_ios (ss_heap ss') = hp_ios (ss_heap ss)"
  "flume_open c path ss = (r, ss') \<Longrightarrow> hp_next (ss_heap ss) \<le> hp_next (ss_heap ss') \<and>
    hp_buffers (ss_heap ss') = hp_buffers (ss_heap ss) \<and> hp_ios (ss_heap ss') = hp_ios (ss_heap ss)"
  "flume_close f ss = (r', ss') \<Longrightarrow> hp_next (ss_heap ss) \<le> hp_next (ss_heap ss') \<and>
    hp_buffers (ss_heap ss') = hp_buffers (ss_heap ss) \<and> hp_ios (ss_heap ss') = hp_ios (ss_heap ss)"
  by (auto simp: flume_client_open_def flume_client_close_def flume_open_def flume_close_def Let_def alloc_client_def
      NextRequestId_def heap_simps split: prod.splits sum.splits option.splits if_splits)

lemma accounts_session_calls:
  assumes "accounts_ok s"
  shows "accounts_ok (set_session (snd (flume_client_open net ep (lb_session s))) s)"
    "accounts_ok (set_session (snd (flume_client_close c (lb_session s))) s)"
    "accounts_ok (set_session (snd (flume_open c path (lb_session s))) s)"
    "accounts_ok (set_session (snd (flume_close f (lb_session s))) s)"
  by (rule accounts_new_heap [OF assms], simp,
      use session_calls_heap [where ss = "lb_session s", OF surjective_pairing] in simp_all)+

end
