(* ===== verification/Client_Reachable.thy ===== *)
theory Client_Reachable
  imports Client_Invariant
begin

text \<open>
  The client library in use: the storage calls and the threads keep the accounts, and so does every
  sequence of calls by callers who pass null or live objects.

  \<open>api_step\<close> is one call or one step of a thread; \<open>reachable\<close> are the states of the library after any
  sequence of them.  The properties of the reference counters are stated for all reachable states.
\<close>

section \<open>Storage calls keep the accounts\<close>

text \<open>The lemmas on single changes, for a state whose heap has been replaced.\<close>

lemmas accounts_at =
  accounts_take_memory [where s = "set_heap h s" for h s, simplified]
  accounts_alloc_buffer [where s = "set_heap h s" for h s, simplified]
  accounts_upd_client [where s = "set_heap h s" for h s, simplified]
  accounts_buffer_write [where s = "set_heap h s" for h s, simplified]
  accounts_alloc_done [where s = "set_heap h s" for h s, simplified]
  accounts_MakeIo [where s = "set_heap h s" for h s, simplified]
  accounts_bump [where s = "set_heap h s" for h s, simplified]

lemma ref_counts_set_heap [simp]:
  "inner_refs (set_heap h s) = inner_refs s" "session_refs (set_heap h s) = session_refs s"
  "window_refs (set_heap h s) = window_refs s" "plan_refs (set_heap h s) = plan_refs s"
  using same_tables_acct [of s "set_heap h s"] by simp_all

lemma set_heap_same [simp]: "set_heap (lb_heap s) s = s"
  by (simp add: set_heap_def)

lemma same_tables_refl [simp]: "same_tables s s"
  by (simp add: same_tables_def)

lemma bump_frame [simp]: "shape (bump h) = shape h" "a3_of (bump h) = a3_of h" "live_ios (bump h) = live_ios h"
    "sync_of (bump h) = sync_of h" "hp_next (bump h) = hp_next h + 1"
  by (simp_all add: bump_def shape_def a3_of_def live_ios_def sync_of_def fun_eq_iff)

lemma live_ios_make [simp]: "live_ios (snd (MakeIo st n k e h)) = insert (hp_next h) (live_ios h)"
    "live_ios (snd (MakePendingIo h)) = insert (hp_next h) (live_ios h)"
  by (simp_all add: MakeIo_def MakePendingIo_def heap_simps)

lemma accounts_delete_buffer_at:
  "accounts_ok (set_heap h s) \<Longrightarrow> acct_bufs s b = 0 \<Longrightarrow> window_refs s b = 0 \<Longrightarrow> accounts_ok (set_heap (delete_buffer b h) s)"
  using accounts_delete_buffer [of "set_heap h s" b] by simp

lemma accounts_delete_io_at:
  "accounts_ok (set_heap h s) \<Longrightarrow> acct_ios s i = 0 \<Longrightarrow> inner_refs s i = 0 \<Longrightarrow> accounts_ok (set_heap (delete_io i h) s)"
  using accounts_delete_io [of "set_heap h s" i] by simp

text \<open>The next address refers to nothing yet.\<close>

lemma accounts_fresh:
  assumes "accounts_ok s" "hp_next (lb_heap s) \<le> a"
  shows "hp_buffers (lb_heap s) a = None" "hp_ios (lb_heap s) a = None" "acct_bufs s a = 0" "acct_ios s a = 0"
    "inner_refs s a = 0" "window_refs s a = 0" "a \<noteq> 0"
proof -
  obtain F where F: "ledger (acct_bufs s) (acct_ios s) F (lb_heap s)" using accounts_balanced [OF assms(1)] by (rule balancedE)
  then show *: "hp_buffers (lb_heap s) a = None" "hp_ios (lb_heap s) a = None" "acct_bufs s a = 0" "acct_ios s a = 0" "a \<noteq> 0"
    using assms(2) by (auto simp: ledger_def)
  have "a \<notin> live_ios (lb_heap s)" "a3_of (lb_heap s) a = None" using * by (simp_all add: live_ios_def a3_of_def domIff)
  then show "inner_refs s a = 0" "window_refs s a = 0" using assms(1) by (simp_all add: accounts_ok_def tables_ok_def owners_ok_def)
qed

lemma accounts_pread_heap:
  assumes ok: "accounts_ok (set_heap h s)"
    and run: "flume_pread_async file dst len off boff (lb_session s\<lparr>ss_heap := h\<rparr>) = ((r, io), ss)"
  shows "accounts_ok (set_heap (ss_heap ss) s) \<and> (r = FLUME_OK \<longrightarrow> io = hp_next h) \<and>
    hp_next h \<le> hp_next (ss_heap ss)"
  using pread_cases [OF run]
proof (elim disjE conjE exE)
  assume "ss = lb_session s\<lparr>ss_heap := h\<rparr>" "r \<noteq> FLUME_OK"
  then show ?thesis using ok by simp
next
  fix res st e
  assume r: "r = FLUME_OK" "io = hp_next (ss_heap (lb_session s\<lparr>ss_heap := h\<rparr>))"
    and res: "res = (new_io\<lparr>io_status := status_u32 st, io_error := e\<rparr>, None)"
    and pd: "pread_done (fl_client (file_at (lb_session s\<lparr>ss_heap := h\<rparr>) file)) dst boff res (lb_session s\<lparr>ss_heap := h\<rparr>) ss"
  show ?thesis using pd res r
    by (auto simp: pread_done_def NextRequestId_def new_io_def heap_simps intro!: accounts_at ok)
next
  fix res resp
  assume r: "r = FLUME_OK" "io = hp_next (ss_heap (lb_session s\<lparr>ss_heap := h\<rparr>))" and res: "res = read_resp_io resp len"
    and pd: "pread_done (fl_client (file_at (lb_session s\<lparr>ss_heap := h\<rparr>) file)) dst boff res (lb_session s\<lparr>ss_heap := h\<rparr>) ss"
  have "io_done (fst res)" "io_pending (fst res) = 0" using read_resp_io_bounds [of resp len "fst res" "snd res"] res by auto
  then show ?thesis using pd r
    by (cases "snd res") (auto simp: pread_done_def NextRequestId_def heap_simps intro!: accounts_at ok)
qed

lemma accounts_pread:
  assumes "accounts_ok s"
  shows "accounts_ok (set_session (snd (flume_pread_async file dst len off boff (lb_session s))) s)"
proof -
  obtain r io ss where run: "flume_pread_async file dst len off boff (lb_session s) = ((r, io), ss)" by (metis prod.exhaust)
  have "lb_session s\<lparr>ss_heap := lb_heap s\<rparr> = lb_session s" by simp
  then have "accounts_ok (set_heap (ss_heap ss) s)"
    using accounts_pread_heap [of "lb_heap s" s "file" dst len off boff] assms run by simp
  then show ?thesis unfolding run snd_conv by (rule accounts_session) (simp_all add: same_tables_def set_session_def)
qed

lemma case_MakeIo_int:
  "(case MakeIo_int st n k e h of (io, h) \<Rightarrow> f io h) = f (hp_next h) (snd (MakeIo_int st n k e h))"
  by (simp add: MakeIo_int_def alloc_io_def)

lemma accounts_MakeIo_int: "accounts_ok (set_heap h s) \<Longrightarrow> accounts_ok (set_heap (snd (MakeIo_int st n k e h)) s)"
  unfolding MakeIo_int_def by (rule accounts_at) (simp_all add: new_io_def)

lemma accounts_prepare_block:
  assumes ok: "accounts_ok s"
  shows "accounts_ok (snd (flume_prepare_storage_block_async file off len s))"
proof (cases "file = 0 \<or> len = 0 \<or> fl_client (file_at (lb_session s) file) = 0")
  case False
  define client where "client = fl_client (file_at (lb_session s) file)"
  obtain ptr h1 where h1: "take_memory len (lb_heap s) = (ptr, h1)" by (metis prod.exhaust)
  obtain temp h2 where h2: "alloc_buffer client ptr len FLUME_BUFFER_SIM_HCCL_COMM h1 = (temp, h2)" by (metis prod.exhaust)
  obtain r io ss where run: "flume_pread_async file temp len off 0 (lb_session s\<lparr>ss_heap := h2\<rparr>) = ((r, io), ss)" by (metis prod.exhaust)
  have "accounts_ok (set_heap h1 s)" using accounts_take_memory [OF ok, of len] by (simp add: h1)
  then have ok2: "accounts_ok (set_heap h2 s)" using accounts_at(2) [of h1 s client ptr len FLUME_BUFFER_SIM_HCCL_COMM] by (simp add: h2)
  note p = accounts_pread_heap [OF ok2 run]
  have temp: "temp = hp_next (lb_heap s)" "hp_next h2 = hp_next (lb_heap s) + 1"
    using h1 h2 by (auto simp: take_memory_def alloc_buffer_def)
  have ok3: "accounts_ok (set_heap (delete_buffer temp (ss_heap ss)) s)"
    by (rule accounts_delete_buffer_at) (use p accounts_fresh [OF ok] temp in simp_all)
  let ?s = "s\<lparr>lb_session := ss\<lparr>ss_heap := delete_buffer temp (ss_heap ss)\<rparr>\<rparr>"
  have ok4: "accounts_ok ?s" using ok3 by (rule accounts_session) (simp_all add: same_tables_def)
  have same: "acct_ios ?s = acct_ios s" "inner_refs ?s = inner_refs s"
    by (rule same_tables_acct; simp add: same_tables_def)+
  have ok5: "accounts_ok (set_heap (delete_io io (lb_heap ?s)) ?s)" if "r = FLUME_OK"
    by (rule accounts_delete_io) (use ok4 same p that accounts_fresh [OF ok] temp in simp_all)
  have ok6: "accounts_ok (set_heap h (?s\<lparr>lb_blocks := b\<rparr>))" if "accounts_ok (set_heap h ?s)" for h b
    using that by (rule accounts_session) (simp_all add: same_tables_def)
  show ?thesis using False ok4 ok5
    by (auto simp: flume_prepare_storage_block_async_def Let_def h1 h2 run client_def [symmetric] case_MakeIo case_MakeIo_int
        intro!: ok6 accounts_at accounts_MakeIo_int)
qed (use ok in \<open>simp add: flume_prepare_storage_block_async_def\<close>)

lemma accounts_read_to_hbm:
  assumes "accounts_ok s"
  shows "accounts_ok (snd (flume_read_to_hbm_async client block dst off s))"
proof -
  have "accounts_ok (set_heap (snd (MakeIo st n k e (buffer_write dst off d (lb_heap s)))) s)" for st n k e d
    using accounts_at(6) [OF accounts_buffer_write [OF assms(1)]] .
  then show ?thesis using assms unfolding flume_read_to_hbm_async_def Let_def case_MakeIo
    by (intro accounts_branches) simp_all
qed

text \<open>A call that succeeds returns a new handle and starts no thread.\<close>

definition new_handle :: "lib \<Rightarrow> call_result \<Rightarrow> bool" where
  "new_handle s c \<longleftrightarrow> lb_workers (snd c) = lb_workers s \<and> lb_windows (snd c) = lb_windows s \<and>
    (fst (fst c) = FLUME_OK \<longrightarrow> snd (fst c) = hp_next (lb_heap s) \<and> hp_next (lb_heap s) \<in> live_ios (lb_heap (snd c)))"

lemma new_handle_if: "(c \<Longrightarrow> new_handle s a) \<Longrightarrow> (\<not> c \<Longrightarrow> new_handle s b) \<Longrightarrow> new_handle s (if c then a else b)"
  by simp

lemma new_handle_option:
  "new_handle s a \<Longrightarrow> (\<And>n. x = Some n \<Longrightarrow> new_handle s (f n)) \<Longrightarrow> new_handle s (case x of None \<Rightarrow> a | Some n \<Rightarrow> f n)"
  by (cases x) simp_all

lemma new_handle_replies: "new_handle s (invalid s)" "new_handle s (reply_io st t s)"
  by (simp_all add: new_handle_def invalid_def reply_io_def case_MakeIo)

lemmas new_handle_branches = new_handle_if new_handle_option new_handle_replies

lemma read_to_hbm_handle: "new_handle s (flume_read_to_hbm_async client block dst off s)"
  unfolding flume_read_to_hbm_async_def Let_def case_MakeIo
  by (intro new_handle_branches) (simp add: new_handle_def heap_simps)

subsection \<open>Windows of target memory and plans\<close>

lemma acct_frame [simp]:
  "acct_bufs (s\<lparr>lb_plans := ps\<rparr>) = acct_bufs s" "acct_ios (s\<lparr>lb_plans := ps\<rparr>) = acct_ios s"
  "acct_bufs (s\<lparr>lb_roce := rs\<rparr>) = acct_bufs s" "acct_ios (s\<lparr>lb_roce := rs\<rparr>) = acct_ios s"
  "acct_ios (s\<lparr>lb_targets := ts\<rparr>) = acct_ios s"
  by (simp_all add: acct_bufs_def acct_ios_def fun_eq_iff)

lemma total_map_entry:
  assumes "finite (dom m)" "\<And>p. w (f p) = w p"
  shows "total_refs w (m(k := map_option f (m k))) = total_refs w m"
  using assms by (cases "m k") (simp_all add: total_put total_remove)

lemma accounts_set_tables:
  assumes "transfers_ok h s" "fresh_ok h s" "owners_ok h s" "counts_ok s" "balanced (acct_bufs s) (acct_ios s) h"
  shows "accounts_ok (set_heap h s)"
  using assms tables_ok_cong [of h s "set_heap h s"] by (simp add: accounts_ok_def tables_ok_def)

lemma accountsD:
  assumes "accounts_ok s"
  shows "transfers_ok (lb_heap s) s" "fresh_ok (lb_heap s) s" "owners_ok (lb_heap s) s" "counts_ok s"
  using assms by (simp_all add: accounts_ok_def tables_ok_def)

text \<open>New heaps on which the tables of the old state are still right.\<close>

lemma accounts_frameD:
  assumes "accounts_ok s" "frame_ok s (lb_heap s) h"
  shows "transfers_ok h s" "fresh_ok h s" "owners_ok h s"
  using tables_ok_frame [OF _ assms(2)] assms(1) by (simp_all add: accounts_ok_def tables_ok_def)

lemma accounts_register_target:
  assumes ok: "accounts_ok s" and b: "b = 0 \<or> hp_buffers (lb_heap s) b \<noteq> None"
  shows "accounts_ok (snd (flume_register_storage_target_memory client b off len s))"
proof -
  let ?n = "hp_next (lb_heap s)" and ?h = "bump (RetainPendingBuffer b (lb_heap s))"
  have "accounts_ok (set_heap ?h (s\<lparr>lb_targets := (lb_targets s)(?n \<mapsto> w)\<rparr>))"
    if w: "tw_buffer w = b" "tw_plans w = 0" "b \<noteq> 0" for w
  proof -
    have fin: "finite (dom (lb_targets s))" and new: "\<forall>a\<ge>?n. lb_targets s a = None"
      using accountsD(2) [OF ok] by (simp_all add: fresh_ok_def)
    let ?s = "s\<lparr>lb_targets := (lb_targets s)(?n \<mapsto> w)\<rparr>"
    have fr: "frame_ok s (lb_heap s) ?h"
      by (rule frame_ok_same) (simp_all add: heap_simps)
    have acct: "acct_bufs ?s = (\<lambda>b'. acct_bufs s b' + of_bool (b' = b))"
      using fin new w by (simp add: acct_bufs_def fun_eq_iff total_put target_bufs_def)
    have "balanced (acct_bufs ?s) (acct_ios s) (RetainPendingBuffer b (lb_heap s))" unfolding acct
      by (rule balanced_retain [OF accounts_balanced [OF ok]]) (use b w in simp)
    then have "balanced (acct_bufs ?s) (acct_ios ?s) ?h" by (simp add: balanced_bump)
    moreover have "fresh_ok ?h ?s" using accountsD(2) [OF ok] by (auto simp: fresh_ok_def bump_def heap_simps)
    moreover have "counts_ok ?s" using accountsD(4) [OF ok] new w by (auto simp: counts_ok_def)
    ultimately show ?thesis using accounts_frameD [OF ok fr] by (intro accounts_set_tables) simp_all
  qed
  then show ?thesis using ok
    by (simp add: flume_register_storage_target_memory_def Let_def accounts_invalid)
qed

lemma accounts_target_release:
  assumes ok: "accounts_ok s" and w: "window = 0 \<or> lb_targets s window \<noteq> None"
  shows "accounts_ok (snd (flume_storage_target_window_release window s))"
proof (cases "window \<noteq> 0 \<and> tw_plans (target_at s window) = 0")
  case True
  then obtain w where w: "lb_targets s window = Some w" "tw_plans w = 0" using assms(2) by (auto simp: target_at_def)
  let ?s = "s\<lparr>lb_targets := (lb_targets s)(window := None)\<rparr>" and ?h = "ReleasePendingBuffer (tw_buffer w) (lb_heap s)"
  have fin: "finite (dom (lb_targets s))" using accountsD(2) [OF ok] by (simp add: fresh_ok_def)
  have fr: "frame_ok s (lb_heap s) ?h" by (rule frame_ok_same) (simp_all add: heap_simps)
  have acct: "(\<lambda>b. acct_bufs ?s b + of_bool (b = tw_buffer w)) = acct_bufs s"
    using fin w by (simp add: acct_bufs_def fun_eq_iff total_remove target_bufs_def)
  have "balanced (acct_bufs ?s) (acct_ios s) ?h"
    by (rule balanced_release) (simp_all add: acct accounts_balanced [OF ok])
  moreover have "fresh_ok ?h ?s" using accountsD(2) [OF ok] by (auto simp: fresh_ok_def heap_simps)
  moreover have "counts_ok ?s" using accountsD(4) [OF ok] w by (auto simp: counts_ok_def)
  ultimately have "accounts_ok (set_heap ?h ?s)"
    using accounts_frameD [OF ok fr] by (intro accounts_set_tables) simp_all
  then show ?thesis using True w by (simp add: flume_storage_target_window_release_def target_at_def)
qed (use ok in \<open>auto simp: flume_storage_target_window_release_def\<close>)

text \<open>A plan: the window's counter and the table of plans change together.\<close>

lemma accounts_set_plans:
  assumes ok: "accounts_ok s" and ts: "ts = (if w = 0 then lb_targets s else (lb_targets s)(w := map_option (\<lambda>x. x\<lparr>tw_plans := tw_plans x + d\<rparr>) (lb_targets s w)))"
    and w: "w = 0 \<or> lb_targets s w \<noteq> None"
    and ps: "\<And>t. total_refs (plan_window t) ps = plan_refs s t + (if t = w \<and> w \<noteq> 0 then d else 0)" "finite (dom ps)"
      "\<And>a. n \<le> a \<Longrightarrow> ps a = None" "hp_next (lb_heap s) \<le> n" "ps 0 = None"
  shows "accounts_ok (set_heap (lb_heap s\<lparr>hp_next := n\<rparr>) (s\<lparr>lb_plans := ps, lb_targets := ts\<rparr>))"
proof -
  let ?h = "lb_heap s\<lparr>hp_next := n\<rparr>" and ?s = "s\<lparr>lb_plans := ps, lb_targets := ts\<rparr>"
  have fin: "finite (dom (lb_targets s))" using accountsD(2) [OF ok] by (simp add: fresh_ok_def)
  have dom: "ts a = None \<longleftrightarrow> lb_targets s a = None" for a by (simp add: ts)
  have fr: "frame_ok s (lb_heap s) ?h" using ps(4) by (simp add: frame_defs)
  have "acct_bufs ?s = acct_bufs s"
    using fin by (simp add: acct_bufs_def fun_eq_iff ts total_map_entry target_bufs_def)
  then have "balanced (acct_bufs ?s) (acct_ios ?s) ?h" using balanced_next [OF accounts_balanced [OF ok] ps(4)] by simp
  moreover have "fresh_ok ?h ?s" using accountsD(2) [OF ok] ps(2-5) fin by (auto simp: fresh_ok_def dom dom_def)
  moreover have "plan_refs ?s t = plan_refs s t + (if t = w \<and> w \<noteq> 0 then d else 0)" for t using ps(1) by (simp add: plan_refs_def)
  then have "counts_ok ?s" using accountsD(4) [OF ok] w by (auto simp: counts_ok_def dom) (auto simp: ts split: if_splits)
  ultimately show ?thesis using accounts_frameD [OF ok fr] by (intro accounts_set_tables) simp_all
qed

lemma accounts_let: "(\<And>x. x = e \<Longrightarrow> accounts_ok (snd (f x))) \<Longrightarrow> accounts_ok (snd (let x = e in f x))"
  by simp

lemma accounts_plan_create:
  assumes ok: "accounts_ok s"
    and w: "\<And>o'. options = Some o' \<Longrightarrow> do_target_window o' = 0 \<or> lb_targets s (do_target_window o') \<noteq> None"
  shows "accounts_ok (snd (flume_storage_direct_plan_create client block dst off options s))"
proof -
  let ?n = "hp_next (lb_heap s)"
  define opts where "opts = (case options of None \<Rightarrow> default_direct_options | Some x \<Rightarrow> x)"
  have live: "do_target_window opts = 0 \<or> lb_targets s (do_target_window opts) \<noteq> None"
    using w by (cases options) (simp_all add: opts_def default_direct_options_def)
  have fin: "finite (dom (lb_plans s))" and new: "\<forall>a\<ge>?n. lb_plans s a = None" "lb_plans s 0 = None"
    using accountsD(2) [OF ok] by (simp_all add: fresh_ok_def)
  have "accounts_ok (set_heap (bump (lb_heap s)) (s\<lparr>lb_plans := (lb_plans s)(?n \<mapsto> p), lb_targets :=
      (if do_target_window opts \<noteq> 0 then (lb_targets s)(do_target_window opts :=
        map_option (\<lambda>w. w\<lparr>tw_plans := tw_plans w + 1\<rparr>) (lb_targets s (do_target_window opts))) else lb_targets s)\<rparr>))"
    if "dp_target_window p = do_target_window opts" for p unfolding bump_def
    by (rule accounts_set_plans [OF ok _ live, where d = 1])
      (use fin new that accounts_fresh(7) [OF ok] in \<open>auto simp: total_put plan_refs_def plan_window_def\<close>)
  note new_plan = this
  have unsupported: "accounts_ok (snd ((FLUME_ERR_UNSUPPORTED, 0 :: nat), s))" using ok by simp
  show ?thesis unfolding flume_storage_direct_plan_create_def opts_def [symmetric]
    by (intro accounts_if accounts_let accounts_option accounts_invalid ok unsupported)
      (hypsubst, simp only: snd_conv, rule new_plan, simp only: direct_plan.select_convs)
qed

lemma accounts_plan_release:
  assumes ok: "accounts_ok s" and p: "plan = 0 \<or> lb_plans s plan \<noteq> None"
  shows "accounts_ok (snd (flume_storage_direct_plan_release plan s))"
proof (cases "lb_plans s plan")
  case None
  then have "(lb_plans s)(plan := None) = lb_plans s" by auto
  then have "accounts_ok (s\<lparr>lb_targets := lb_targets s, lb_plans := (lb_plans s)(plan := None)\<rparr>)"
    using ok by (intro accounts_session [OF ok]) (simp_all add: same_tables_def)
  then show ?thesis using p None by (simp add: flume_storage_direct_plan_release_def Let_def)
next
  case (Some q)
  have fin: "finite (dom (lb_plans s))" and new: "\<forall>a\<ge>hp_next (lb_heap s). lb_plans s a = None" "lb_plans s 0 = None"
    using accountsD(2) [OF ok] by (simp_all add: fresh_ok_def)
  let ?w = "dp_target_window q"
  have "plan_window ?w q \<le> plan_refs s ?w" unfolding plan_refs_def by (rule total_ge [OF fin _ Some]) simp
  then have live: "?w = 0 \<or> lb_targets s ?w \<noteq> None"
    using accountsD(4) [OF ok] by (fastforce simp: plan_window_def counts_ok_def)
  let ?s = "set_heap (lb_heap s\<lparr>hp_next := hp_next (lb_heap s)\<rparr>) (s\<lparr>lb_plans := (lb_plans s)(plan := None), lb_targets :=
      (if ?w = 0 then lb_targets s else (lb_targets s)(?w := map_option (\<lambda>x. x\<lparr>tw_plans := tw_plans x + - 1\<rparr>) (lb_targets s ?w)))\<rparr>)"
  have "accounts_ok ?s"
    by (rule accounts_set_plans [OF ok refl live])
      (use fin new Some in \<open>auto simp: total_remove plan_refs_def plan_window_def\<close>)
  moreover have "plan \<noteq> 0" using Some new(2) by (cases "plan = 0") simp_all
  then have "snd (flume_storage_direct_plan_release plan s) = ?s"
    using Some by (auto intro!: lib.equality simp: flume_storage_direct_plan_release_def Let_def plan_at_def set_heap_def)
  ultimately show ?thesis by simp
qed

subsection \<open>Threads\<close>

text \<open>Starting the thread of a plan: the wrapper is a new pending handle, the inner one belongs to the thread.\<close>

lemma accounts_wrap_inner:
  assumes ok: "accounts_ok s" and inner: "inner \<in> live_ios (lb_heap s)" "inner_refs s inner = 0"
  shows "accounts_ok (snd (wrap_inner inner marker s))"
proof -
  let ?n = "hp_next (lb_heap s)"
  let ?h1 = "RetainPendingIo ?n (snd (MakePendingIo (lb_heap s)))"
  let ?w = "StorageWorker ?n inner marker"
  let ?s = "s\<lparr>lb_workers := (lb_workers s)(Suc ?n \<mapsto> ?w)\<rparr>"
  have fin: "finite (dom (lb_workers s))" and new: "lb_workers s (Suc ?n) = None"
    using accountsD(2) [OF ok] by (simp_all add: fresh_ok_def)
  have nxt: "hp_next ?h1 = ?n + 1" by (simp add: heap_simps MakePendingIo_def)
  have live: "live_ios ?h1 = insert ?n (live_ios (lb_heap s))" by (simp add: heap_simps)
  have fr: "frame_ok s (lb_heap s) (bump ?h1)"
    by (rule frame_ok_same) (simp_all add: heap_simps MakePendingIo_def subset_insertI)
  have inner': "inner_refs ?s = (\<lambda>i. inner_refs s i + of_bool (i = inner))"
    and sess: "session_refs ?s = session_refs s"
    and acct: "acct_bufs ?s = acct_bufs s" "acct_ios ?s = (\<lambda>i. acct_ios s i + of_bool (i = ?n))"
    using fin new by (simp_all add: inner_refs_def session_refs_def acct_bufs_def acct_ios_def total_put fun_eq_iff)
  have "balanced (acct_bufs ?s) (acct_ios ?s) (bump ?h1)" unfolding acct
    by (rule balanced_bump [OF balanced_pending_io [OF accounts_balanced [OF ok]]])
  moreover have "fresh_ok (bump ?h1) ?s" using accountsD(2) [OF ok] by (auto simp: fresh_ok_def nxt)
  moreover have "owners_ok (bump ?h1) s" by (rule accounts_frameD(3) [OF ok fr])
  then have "owners_ok (bump ?h1) ?s" using inner by (auto simp: owners_ok_def inner' live)
  moreover have "counts_ok ?s" using accountsD(4) [OF ok] by (simp add: counts_ok_def sess)
  ultimately have "accounts_ok (set_heap (bump ?h1) ?s)"
    using accounts_frameD(1) [OF ok fr] by (intro accounts_set_tables) simp_all
  then show ?thesis by (simp add: wrap_inner_def case_MakePendingIo spawn_def nxt)
    (simp add: set_heap_def)
qed

text \<open>The handle of a payload transfer.\<close>

lemma publish_live_ios: "live_ios (fst (sim_pair_publish name role key count t n d buffer offset io (h, m))) = live_ios h"
  by (simp add: sim_pair_publish_def Let_def FailPendingSimP2p_def CompletePendingSimP2p_def heap_simps split: SimP2pRole.split)

lemma payload_async_handle: "new_handle s (payload_async dv role name client buffer offset count t peer st s)"
proof -
  have "new_handle s (run_payload (SubmitSimHcommPayload client role buffer offset count t peer) s)"
    by (auto simp: run_payload_def SubmitSimHcommPayload_def Let_def case_MakeIo case_MakePendingIo new_handle_def
        publish_live_ios heap_simps split: prod.split option.split
        dest!: arg_cong [of "sim_pair_publish a b c d e f g i j k l" _ "\<lambda>x. live_ios (fst x)" for a b c d e f g i j k l])
  moreover have "new_handle s (case MakeIo a b c d (lb_heap s) of (io, h) \<Rightarrow> ((FLUME_OK, io), set_heap h s))" for a b c d
    by (simp add: case_MakeIo new_handle_def)
  ultimately show ?thesis unfolding payload_async_def Let_def
    by (intro new_handle_branches) (auto split: prod.split)
qed

text \<open>A sender takes no reference on its buffer.\<close>

lemma publish_send_bufs:
  assumes fin: "finite (dom m)" and res: "sim_pair_publish name SimSend key count t n d buffer offset io (h, m) = (h', m')"
  shows "grows p2p_bufs 0 m m'"
proof -
  define p where "p = (case m key of None \<Rightarrow> new_pending_p2p | Some p \<Rightarrow> p)"
  let ?q = "MaybeSetPendingSimP2pMetadata p count t n"
  have e: "entry (p2p_bufs i) (m key) = p2p_bufs i ?q" for i by (cases "m key") (simp_all add: p_def)
  have "m' = m(key := None) \<or> (\<exists>q. m' = m(key \<mapsto> q) \<and> (\<forall>i. p2p_bufs i q \<le> p2p_bufs i ?q))"
    using res unfolding sim_pair_publish_def Let_def prod.case p_def [symmetric]
    by (auto simp: p2p_refs_send split: if_splits)
  then show ?thesis
  proof (elim disjE exE conjE)
    fix q assume "m' = m(key \<mapsto> q)" "\<forall>i. p2p_bufs i q \<le> p2p_bufs i ?q"
    then show ?thesis using grows_put [where w = p2p_bufs, OF fin, of q key 0] e by (simp add: add_increasing2)
  qed (use grows_remove [where w = p2p_bufs, OF fin] in simp)
qed

lemma payload_send_bufs:
  assumes "accounts_ok s" "b \<noteq> 0"
  shows "acct_bufs (snd (payload_async dv SimSend name client buffer offset count t peer st s)) b \<le> acct_bufs s b"
proof -
  have fin: "finite (dom (lb_payload s))" using accountsD(1) [OF assms(1)] by (simp add: transfers_ok_def p2p_table_ok_def)
  obtain r h' m' where run: "SubmitSimHcommPayload client SimSend buffer offset count t peer (lb_heap s, lb_payload s) = (r, h', m')"
    by (metis prod.exhaust)
  have "submit_outcome ''sim HCOMM payload'' SimSend buffer offset count t (lb_heap s, lb_payload s) (h', m')"
    using SubmitSimHcommPayload_outcome [of SimSend buffer offset count t "(lb_heap s, lb_payload s)" client peer] run by simp
  then have "grows p2p_bufs 0 (lb_payload s) m'"
    unfolding submit_outcome_def by (auto dest: publish_send_bufs [OF fin, OF sym])
  then have "total_refs (p2p_bufs b) m' \<le> total_refs (p2p_bufs b) (lb_payload s)"
    using assms(2) by (auto simp: grows_def dest!: spec [of _ b])
  then have "acct_bufs (snd (run_payload (SubmitSimHcommPayload client SimSend buffer offset count t peer) s)) b \<le> acct_bufs s b"
    by (simp add: run_payload_def run) (simp add: acct_bufs_def)
  then show ?thesis by (simp add: payload_async_def Let_def invalid_def reply_io_def case_MakeIo split: option.split prod.split)
qed

lemma accounts_wrap_new:
  assumes ok: "accounts_ok s" and c: "accounts_ok (snd c)" "new_handle s c" "fst (fst c) = FLUME_OK"
  shows "accounts_ok (snd (wrap_inner (snd (fst c)) marker (snd c)))"
proof (rule accounts_wrap_inner [OF c(1)])
  show "snd (fst c) \<in> live_ios (lb_heap (snd c))" using c(2,3) by (simp add: new_handle_def)
  have "inner_refs (snd c) = inner_refs s" using c(2) by (intro ext) (simp add: new_handle_def inner_refs_def)
  then show "inner_refs (snd c) (snd (fst c)) = 0"
    using c(2,3) accounts_fresh(5) [OF ok, of "hp_next (lb_heap s)"] by (simp add: new_handle_def)
qed

text \<open>The sender's buffer on the stack exists only during the call.\<close>

lemma accounts_send_block:
  assumes ok: "accounts_ok s" and h: "alloc_buffer client ptr len ty (lb_heap s) = (temp, h)"
    and c: "flume_hcomm_payload_send_async dv client temp off n t peer st (set_heap h s) = (r, s1)"
  shows "accounts_ok (set_heap (delete_buffer temp (lb_heap s1)) s1)"
    "new_handle (set_heap h s) (r, set_heap (delete_buffer temp (lb_heap s1)) s1)" "accounts_ok (set_heap h s)"
proof -
  show ok1: "accounts_ok (set_heap h s)" using accounts_alloc_buffer [OF ok, of client ptr len ty] h by simp
  have temp: "temp = hp_next (lb_heap s)" "hp_buffers h temp \<noteq> None" using h by (auto simp: alloc_buffer_def)
  note run = c [unfolded flume_hcomm_payload_send_async_def]
  have new: "new_handle (set_heap h s) (r, s1)" using payload_async_handle [of "set_heap h s"] run by metis
  then show "new_handle (set_heap h s) (r, set_heap (delete_buffer temp (lb_heap s1)) s1)"
    by (simp add: new_handle_def live_ios_def delete_buffer_def)
  have ok2: "accounts_ok s1"
    using accounts_payload_async [OF ok1, of temp dv SimSend "''send''" client off n t peer st] temp(2) run by simp
  have "acct_bufs s1 temp \<le> acct_bufs s temp"
    using payload_send_bufs [OF ok1, of temp dv "''send''" client temp off n t peer st] run accounts_fresh(7) [OF ok] temp(1) by simp
  then have "acct_bufs s1 temp = 0" using accounts_fresh(3) [OF ok, of temp] temp(1) acct_nonneg(1) [of s1 temp] by linarith
  moreover have "lb_windows s1 = lb_windows s" using new by (simp add: new_handle_def)
  then have "window_refs s1 temp = 0" using accounts_fresh(6) [OF ok] temp(1) by (simp add: window_refs_def)
  ultimately show "accounts_ok (set_heap (delete_buffer temp (lb_heap s1)) s1)" by (intro accounts_delete_buffer ok2)
qed

lemma accounts_read_storage:
  assumes ok: "accounts_ok s"
    and live: "\<And>p. lb_plans s plan = Some p \<Longrightarrow> dp_role p = FLUME_STORAGE_DIRECT_ROLE_TARGET_RECV \<Longrightarrow>
      dp_dst p = 0 \<or> hp_buffers (lb_heap s) (dp_dst p) \<noteq> None"
    and plan: "plan = 0 \<or> lb_plans s plan \<noteq> None"
  shows "accounts_ok (snd (flume_read_storage_to_hbm_async dv client plan st s))"
proof (cases "client = 0 \<or> plan = 0 \<or> dp_client (plan_at s plan) \<noteq> client")
  case True
  then show ?thesis using ok by (auto simp: flume_read_storage_to_hbm_async_def accounts_invalid)
next
  case False
  define p where "p = plan_at s plan"
  have staging: "accounts_ok (snd (case flume_read_to_hbm_async client (dp_block p) (dp_dst p) (dp_dst_offset p) s of
      ((ret, inner), s) \<Rightarrow> if ret \<noteq> FLUME_OK then ((ret, 0), s) else wrap_inner inner m s))" for m
    using accounts_wrap_new [OF ok accounts_read_to_hbm [OF ok] read_to_hbm_handle] accounts_read_to_hbm [OF ok]
    by (simp add: case_prod_beta)
  have wrap: "accounts_ok (snd (case c of ((r, inner), s) \<Rightarrow> if r \<noteq> FLUME_OK then ((r, 0), s) else wrap_inner inner (m s) s))"
    if "accounts_ok s'" "accounts_ok (snd c)" "new_handle s' c" for s' c m
    using accounts_wrap_new [OF that(1,2,3)] that(2) by (simp add: case_prod_beta)
  have unf: "flume_read_storage_to_hbm_async dv client plan st s = f p" if
    "flume_read_storage_to_hbm_async dv client plan st s = (if client = 0 \<or> plan = 0 \<or> dp_client (plan_at s plan) \<noteq> client
      then invalid s else let p = plan_at s plan in f p)" for f
    using that False by (simp add: p_def)
  note unf = unf [OF flume_read_storage_to_hbm_async_def]
  consider (host) "dp_path p = FLUME_STORAGE_TRANSFER_HOST_STAGING"
    | (other) "dp_path p \<noteq> FLUME_STORAGE_TRANSFER_HOST_STAGING" "dp_path p \<noteq> FLUME_STORAGE_TRANSFER_SIM_DIRECT"
    | (sim) "dp_path p = FLUME_STORAGE_TRANSFER_SIM_DIRECT" by blast
  then show ?thesis
  proof cases
    case host
    show ?thesis unfolding unf if_P [OF host] by (intro accounts_if accounts_reply_io ok staging)
  next
    case other
    show ?thesis unfolding unf if_not_P [OF other(1)] using other(2) accounts_reply_io [OF ok] by simp
  next
    case sim
    consider (send) "dp_role p = FLUME_STORAGE_DIRECT_ROLE_SOURCE_SEND" | (recv) "dp_role p = FLUME_STORAGE_DIRECT_ROLE_TARGET_RECV"
      | (none) "dp_role p \<noteq> FLUME_STORAGE_DIRECT_ROLE_SOURCE_SEND" "dp_role p \<noteq> FLUME_STORAGE_DIRECT_ROLE_TARGET_RECV" by blast
    then show ?thesis
    proof cases
      case send
      obtain temp h where h: "alloc_buffer client (bk_ptr (block_at s (dp_block p))) (bk_size (block_at s (dp_block p)))
          FLUME_BUFFER_SIM_HBM (lb_heap s) = (temp, h)" by (metis prod.exhaust)
      obtain r s1 where c: "flume_hcomm_payload_send_async dv client temp 0 (of_nat (dp_bytes p)) FLUME_DTYPE_UINT8
          (dp_peer_rank p) st (set_heap h s) = (r, s1)" by (metis prod.exhaust)
      note sb = accounts_send_block [OF ok h c]
      show ?thesis using wrap [OF sb(3) _ sb(2), of "\<lambda>s. cstr (sim_direct_marker p s)"] sb(1) sim send
        by (simp add: unf h c)
    next
      case recv
      have "dp_dst p = 0 \<or> hp_buffers (lb_heap s) (dp_dst p) \<noteq> None"
        using live plan False recv by (auto simp: p_def plan_at_def)
      then have ok1: "accounts_ok (snd (flume_hcomm_payload_recv_async dv client (dp_dst p) (dp_dst_offset p) (of_nat (dp_bytes p))
          FLUME_DTYPE_UINT8 (dp_peer_rank p) st s))" unfolding flume_hcomm_payload_recv_async_def by (rule accounts_payload_async [OF ok])
      have "new_handle s (flume_hcomm_payload_recv_async dv client (dp_dst p) (dp_dst_offset p) (of_nat (dp_bytes p))
          FLUME_DTYPE_UINT8 (dp_peer_rank p) st s)" unfolding flume_hcomm_payload_recv_async_def by (rule payload_async_handle)
      from wrap [OF ok ok1 this, of "\<lambda>s. cstr (sim_direct_marker p s)"] show ?thesis using sim recv by (simp add: unf)
    next
      case none
      then show ?thesis using sim accounts_invalid [OF ok] by (simp add: unf)
    qed
  qed
qed

text \<open>The thread of a plan: the inner handle is complete, so that it can be released.\<close>

lemma CompletePendingIo_int_eq: "CompletePendingIo_int i st n k e h =
    upd_io i (\<lambda>x. x\<lparr>io_status := if i = 0 then io_status x else st\<rparr>) (CompletePendingIo i FLUME_OK n k e h)"
proof (cases "i = 0")
  case True
  have "upd_io 0 (\<lambda>x. x) h = h" by (auto intro!: heap.equality simp: upd_io_def option.map_ident)
  then show ?thesis using True by (simp add: CompletePendingIo_int_def CompletePendingIo_def)
next
  case False
  then show ?thesis
    by (cases "hp_ios h i") (auto intro!: heap.equality flume_io.equality
      simp: CompletePendingIo_int_def CompletePendingIo_def upd_io_def completed_def fun_eq_iff)
qed

lemma balanced_complete_int:
  assumes "balanced R (\<lambda>i. S i + of_bool (i = x)) h" "0 \<le> S x"
  shows "balanced R S (CompletePendingIo_int x st n k e h)"
  unfolding CompletePendingIo_int_eq by (rule balanced_upd_io [OF balanced_complete_pending [OF assms]]) simp

lemma frame_complete_int: "frame_ok s h (CompletePendingIo_int i st n k e h)"
  by (simp add: CompletePendingIo_int_def upd_io_def frame_defs dom_def)

lemma set_heap_workers: "(set_heap h s)\<lparr>lb_workers := wk\<rparr> = set_heap h (s\<lparr>lb_workers := wk\<rparr>)"
  by (simp add: set_heap_def)

lemma accounts_storage_worker:
  assumes ok: "accounts_ok s" and step: "storage_worker_step t s = Some s'"
  shows "accounts_ok s'"
proof -
  obtain wr inner mk where w: "lb_workers s t = Some (StorageWorker wr inner mk)" and dn: "io_done (io_at (lb_heap s) inner)"
    using step by (auto simp: storage_worker_step_def split: option.splits worker.splits if_splits)
  have fin: "finite (dom (lb_workers s))" using accountsD(2) [OF ok] by (simp add: fresh_ok_def)
  have "worker_inner inner (StorageWorker wr inner mk) \<le> inner_refs s inner" "worker_ios wr (StorageWorker wr inner mk) \<le> total_refs (worker_ios wr) (lb_workers s)"
    unfolding inner_refs_def by (rule total_ge [OF fin _ w], simp)+
  then have refs: "1 \<le> inner_refs s inner" "1 \<le> acct_ios s wr" by (simp_all add: acct_ios_def add_increasing)
  have one: "inner_refs s inner = 1" using refs(1) accountsD(3) [OF ok] by (simp add: owners_ok_def order_antisym)
  have live: "inner \<in> live_ios (lb_heap s)" using refs(1) accountsD(3) [OF ok] by (force simp: owners_ok_def)
  then obtain x where x: "hp_ios (lb_heap s) inner = Some x" by (auto simp: live_ios_def)
  then have idle: "acct_ios s inner = 0" "io_pending x = 0" using accounts_io [OF ok x] dn by auto
  then have ne: "inner \<noteq> wr" using refs(2) by auto
  have nz: "inner \<noteq> 0" using x accounts_balanced [OF ok] by (cases "inner = 0") (auto simp: balanced_def ledger_def)
  let ?s = "s\<lparr>lb_workers := (lb_workers s)(t := None)\<rparr>"
  have acct: "(\<lambda>i. acct_ios ?s i + of_bool (i = wr)) = acct_ios s" "acct_bufs ?s = acct_bufs s"
      "inner_refs ?s = (\<lambda>i. inner_refs s i - of_bool (i = inner))" "session_refs ?s = session_refs s"
    using fin w by (simp_all add: acct_ios_def acct_bufs_def inner_refs_def session_refs_def fun_eq_iff total_remove)
  have "accounts_ok (set_heap (CompletePendingIo_int wr st n k e (lb_heap s)) ?s)" for st n k e
  proof (rule accounts_set_tables)
    let ?h = "CompletePendingIo_int wr st n k e (lb_heap s)"
    note fr = accounts_frameD [OF ok frame_complete_int, of wr st n k e]
    show "transfers_ok ?h ?s" using fr(1) by simp
    show "fresh_ok ?h ?s" using fr(2) by (simp add: fresh_ok_def)
    show "owners_ok ?h ?s" using fr(3) one by (auto simp: owners_ok_def acct(3))
    show "counts_ok ?s" using accountsD(4) [OF ok] by (simp add: counts_ok_def acct(4))
    show "balanced (acct_bufs ?s) (acct_ios ?s) ?h"
      by (rule balanced_complete_int) (simp_all add: acct(1,2) accounts_balanced [OF ok])
  qed
  then have "accounts_ok (set_heap (delete_io inner (CompletePendingIo_int wr st n k e (lb_heap s))) ?s)" for st n k e
  proof (rule accounts_delete_io_at)
    show "inner_refs ?s inner = 0" using one by (simp add: acct(3))
    show "acct_ios ?s inner = 0" using fun_cong [OF acct(1), of inner] idle(1) ne by simp
  qed
  moreover have "delete_io inner (CompletePendingIo_int wr st n k e h) = CompletePendingIo_int wr st n k e (delete_io inner h)" for st n k e h
    using ne by (auto simp: delete_io_def CompletePendingIo_int_def upd_io_def fun_upd_twist)
  ultimately have "accounts_ok (set_heap (CompletePendingIo_int wr st n k e (delete_io inner (lb_heap s))) ?s)" for st n k e
    by simp
  moreover have "snd (flume_io_release inner s) = set_heap (delete_io inner (lb_heap s)) s"
    using nz x idle(2) by (simp add: flume_io_release_def delete_io_def)
  ultimately show ?thesis using step w dn by (auto simp: storage_worker_step_def Let_def set_heap_workers)
qed

section \<open>Requests of RoCE sessions\<close>

text \<open>A request in flight: one reference more on its buffer and its handle than the tables hold, and a
  session that will be idle again.\<close>

definition idle_session :: "roce_session \<Rightarrow> roce_session" where
  "idle_session x = x\<lparr>rs_request_state := kIdle\<rparr>"

definition in_flight :: "roce_request \<Rightarrow> lib \<Rightarrow> bool" where
  "in_flight rq s \<longleftrightarrow> transfers_ok (lb_heap s) s \<and> fresh_ok (lb_heap s) s \<and> owners_ok (lb_heap s) s \<and>
    counts_ok (upd_session (rq_session rq) idle_session s) \<and>
    balanced (\<lambda>b. acct_bufs s b + of_bool (b = rq_buffer rq)) (\<lambda>i. acct_ios s i + of_bool (i = rq_io rq)) (lb_heap s)"

lemma finish_request_accounts:
  assumes "in_flight rq s"
  shows "accounts_ok (finish_request rq st n k t s)"
proof -
  let ?s = "upd_session (rq_session rq) idle_session s"
  let ?h = "CompletePendingIo (rq_io rq) st n k t (ReleasePendingBuffer (rq_buffer rq) (lb_heap s))"
  have heap: "lb_heap ?s = lb_heap s" by (simp add: upd_session_def)
  have k: "kept (lb_heap s) ?h" by (rule kept_same_objects) simp
  have "balanced (acct_bufs s) (acct_ios s) ?h"
    using assms by (intro balanced_complete_pending balanced_release) (simp_all add: in_flight_def)
  moreover have "transfers_ok ?h s" "owners_ok ?h s" "fresh_ok ?h s"
    using assms k kept_owners kept_fresh kept_tables_cong [OF k] by (auto simp: in_flight_def transfers_ok_def)
  ultimately have "accounts_ok (set_heap ?h ?s)"
    using assms by (intro accounts_set_tables)
      (simp_all add: in_flight_def, simp_all add: upd_session_def fresh_ok_def)
  then show ?thesis using heap by (simp add: finish_request_def Let_def idle_session_def [abs_def])
qed

lemma roce_worker_in_flight:
  assumes ok: "accounts_ok s" and w: "lb_workers s t = Some (RoceWorker rq)"
  shows "in_flight rq (s\<lparr>lb_workers := (lb_workers s)(t := None)\<rparr>)"
proof -
  have fin: "finite (dom (lb_workers s))" using accountsD(2) [OF ok] by (simp add: fresh_ok_def)
  let ?s = "s\<lparr>lb_workers := (lb_workers s)(t := None)\<rparr>" and ?i = "rq_session rq"
  have acct: "(\<lambda>i. acct_ios ?s i + of_bool (i = rq_io rq)) = acct_ios s" "(\<lambda>b. acct_bufs ?s b + of_bool (b = rq_buffer rq)) = acct_bufs s"
      "inner_refs ?s = inner_refs s" "session_refs ?s = (\<lambda>i. session_refs s i - of_bool (i = ?i))"
    using fin w by (simp_all add: acct_ios_def acct_bufs_def inner_refs_def session_refs_def fun_eq_iff total_remove)
  have "worker_session ?i (RoceWorker rq) \<le> session_refs s ?i" unfolding session_refs_def by (rule total_ge [OF fin _ w]) simp
  then obtain x where x: "lb_roce s ?i = Some x" "session_refs s ?i = 1"
    using accountsD(4) [OF ok] by (cases "lb_roce s ?i") (fastforce simp: counts_ok_def)+
  have "session_refs (upd_session ?i idle_session ?s) = (\<lambda>i. session_refs s i - of_bool (i = ?i))"
    using acct(4) by (simp add: upd_session_def)
  then have "counts_ok (upd_session ?i idle_session ?s)"
    using accountsD(4) [OF ok] x by (auto simp: counts_ok_def upd_session_def idle_session_def)
  then show ?thesis using accountsD [OF ok] accounts_balanced [OF ok]
    by (simp add: in_flight_def acct) (simp add: fresh_ok_def owners_ok_def acct)
qed

lemma accounts_roce_worker: "accounts_ok s \<Longrightarrow> roce_worker_step ra t s = Some s' \<Longrightarrow> accounts_ok s'"
  by (auto simp: roce_worker_step_def Let_def split: option.splits worker.splits sum.splits
      intro!: finish_request_accounts roce_worker_in_flight)

lemma session_frame [simp]:
  "transfers_ok h (upd_session i f s) = transfers_ok h s" "owners_ok h (upd_session i f s) = owners_ok h s"
  "fresh_ok h (upd_session i f s) = fresh_ok h s"
  "acct_bufs (upd_session i f s) = acct_bufs s" "acct_ios (upd_session i f s) = acct_ios s"
  "inner_refs (upd_session i f s) = inner_refs s" "session_refs (upd_session i f s) = session_refs s"
  "plan_refs (upd_session i f s) = plan_refs s" "lb_workers (upd_session i f s) = lb_workers s"
  "lb_targets (upd_session i f s) = lb_targets s" "lb_heap (upd_session i f s) = lb_heap s"
  "upd_session i f (set_heap h s) = set_heap h (upd_session i f s)"
  by (auto simp: upd_session_def fresh_ok_def set_heap_def)

lemma set_heap_frame [simp]:
  "transfers_ok h (set_heap h' s) = transfers_ok h s" "owners_ok h (set_heap h' s) = owners_ok h s"
  "fresh_ok h (set_heap h' s) = fresh_ok h s" "counts_ok (set_heap h' s) = counts_ok s"
  by (simp_all add: transfers_ok_def owners_ok_def fresh_ok_def counts_ok_def)

lemma kIdle_ne: "kIdle \<noteq> kActive"
  by (simp add: kIdle_def kActive_def)

lemma counts_idle: "counts_ok s \<Longrightarrow> lb_roce s i = Some x \<Longrightarrow> rs_request_state x = kIdle \<Longrightarrow> session_refs s i = 0"
  using kIdle_ne unfolding counts_ok_def by metis

lemma spawn_request_accounts:
  assumes fl: "in_flight rq s" and x: "lb_roce s (rq_session rq) = Some x" "rs_request_state x = kActive"
  shows "accounts_ok (spawn (RoceWorker rq) s)"
proof -
  let ?n = "hp_next (lb_heap s)" and ?i = "rq_session rq"
  let ?s = "s\<lparr>lb_workers := (lb_workers s)(?n \<mapsto> RoceWorker rq)\<rparr>"
  have tabs: "transfers_ok (lb_heap s) s" "fresh_ok (lb_heap s) s" "owners_ok (lb_heap s) s"
    and counts: "counts_ok (upd_session ?i idle_session s)" using fl by (simp_all add: in_flight_def)
  have fin: "finite (dom (lb_workers s))" and new: "lb_workers s ?n = None" using tabs(2) by (simp_all add: fresh_ok_def)
  have acct: "acct_bufs ?s = (\<lambda>b. acct_bufs s b + of_bool (b = rq_buffer rq))" "acct_ios ?s = (\<lambda>i. acct_ios s i + of_bool (i = rq_io rq))"
      "inner_refs ?s = inner_refs s" "session_refs ?s = (\<lambda>i. session_refs s i + of_bool (i = ?i))"
    using fin new by (simp_all add: acct_ios_def acct_bufs_def inner_refs_def session_refs_def fun_eq_iff total_put)
  have "lb_roce (upd_session ?i idle_session s) ?i = Some (idle_session x)" using x(1) by (simp add: upd_session_def)
  then have "session_refs s ?i = 0" using counts_idle [OF counts] by (simp add: idle_session_def)
  then have "counts_ok ?s" using counts x by (auto simp: counts_ok_def acct(4) upd_session_def split: if_splits)
  moreover have "balanced (acct_bufs ?s) (acct_ios ?s) (bump (lb_heap s))"
    unfolding acct using fl by (intro balanced_bump) (simp add: in_flight_def)
  moreover have "transfers_ok (bump (lb_heap s)) ?s" using tabs(1) p2p_table_ok_cong coll_table_ok_cong bump_frame(1)
    unfolding transfers_ok_def by auto
  moreover have "fresh_ok (bump (lb_heap s)) ?s" "owners_ok (bump (lb_heap s)) ?s"
    using tabs(2,3) by (auto simp: fresh_ok_def owners_ok_def acct(3))
  ultimately show ?thesis unfolding spawn_def by (intro accounts_set_tables) simp_all
qed

lemma accounts_submit_roce:
  assumes ok: "accounts_ok s" and live: "session = 0 \<or> lb_roce s session \<noteq> None" "buffer = 0 \<or> hp_buffers (lb_heap s) buffer \<noteq> None"
  shows "accounts_ok (snd (SubmitRoceStorage ra session op obj off buffer boff len st s))"
proof -
  define s1 where "s1 = upd_session session (\<lambda>x. x\<lparr>rs_next_request_id := rs_next_request_id x + 1, rs_request_state := kActive\<rparr>) s"
  define h where "h = RetainPendingBuffer buffer (RetainPendingIo (hp_next (lb_heap s)) (snd (MakePendingIo (lb_heap s))))"
  have heap: "lb_heap s1 = lb_heap s" by (simp add: s1_def upd_session_def)
  have flight: "in_flight rq (set_heap h s1)" and start: "accounts_ok (spawn (RoceWorker rq) (set_heap h s1))"
    if rq: "rq_session rq = session" "rq_buffer rq = buffer" "rq_io rq = hp_next (lb_heap s)"
      and nz: "session \<noteq> 0" "buffer \<noteq> 0" and idle: "rs_request_state (session_at s session) = kIdle" for rq
  proof -
    obtain x where x: "lb_roce s session = Some x" "rs_request_state x = kIdle" using live(1) nz(1) idle by (auto simp: session_at_def)
    have "kept (lb_heap s) (snd (MakePendingIo (lb_heap s)))" unfolding MakePendingIo_def
      by (rule kept_alloc_io) (simp_all add: accounts_fresh [OF ok] new_io_def)
    then have k: "kept (lb_heap s) h" unfolding h_def by (rule kept_trans) (rule kept_same_objects, simp)
    have bal: "balanced (\<lambda>b. acct_bufs s b + of_bool (b = buffer)) (\<lambda>i. acct_ios s i + of_bool (i = hp_next (lb_heap s))) h" unfolding h_def
      by (rule balanced_retain [OF balanced_pending_io [OF accounts_balanced [OF ok]]])
        (use live(2) nz(2) in \<open>simp add: heap_simps MakePendingIo_def\<close>)
    have tabs: "transfers_ok h s" "owners_ok h s" "fresh_ok h s"
      using accountsD [OF ok] k kept_owners kept_fresh kept_tables_cong [OF k] by (auto simp: transfers_ok_def)
    have "counts_ok (upd_session session idle_session s1)"
      using accountsD(4) [OF ok] x counts_idle [OF accountsD(4) [OF ok] x]
      by (auto simp: counts_ok_def s1_def upd_session_def idle_session_def)
    then show fl: "in_flight rq (set_heap h s1)" using tabs bal rq by (simp add: in_flight_def s1_def)
    show "accounts_ok (spawn (RoceWorker rq) (set_heap h s1))"
      by (rule spawn_request_accounts [OF fl]) (use x rq in \<open>auto simp: s1_def upd_session_def\<close>)
  qed
  show ?thesis unfolding SubmitRoceStorage_def case_MakePendingIo case_MakeIo s1_def [symmetric]
    by (intro accounts_if accounts_let accounts_invalid ok)
      (auto simp: accounts_MakeIo ok s1_def [symmetric] h_def [symmetric] heap intro!: start finish_request_accounts flight)
qed

lemma fresh_put_session:
  "fresh_ok h s \<Longrightarrow> fresh_ok (bump h) (s\<lparr>lb_roce := (lb_roce s)(hp_next h \<mapsto> x)\<rparr>)"
  by (auto simp: fresh_ok_def)

lemma accounts_roce_open:
  assumes ok: "accounts_ok s"
  shows "accounts_ok (snd (flume_roce_storage_session_open ra client options s))"
proof -
  let ?n = "hp_next (lb_heap s)"
  have "accounts_ok (set_heap (bump (lb_heap s)) (s\<lparr>lb_roce := (lb_roce s)(?n \<mapsto> x)\<rparr>))" if x: "rs_request_state x = kIdle" for x
  proof (rule accounts_set_tables)
    let ?s = "s\<lparr>lb_roce := (lb_roce s)(?n \<mapsto> x)\<rparr>" and ?h = "bump (lb_heap s)"
    have fr: "frame_ok s (lb_heap s) ?h" by (rule frame_ok_same) simp_all
    show "transfers_ok ?h ?s" "owners_ok ?h ?s" using accounts_frameD [OF ok fr] by simp_all
    show "fresh_ok ?h ?s" by (rule fresh_put_session [OF accountsD(2) [OF ok]])
    show "balanced (acct_bufs ?s) (acct_ios ?s) ?h" using balanced_bump [OF accounts_balanced [OF ok]] by simp
    show "counts_ok ?s" using accountsD(2,4) [OF ok] x by (auto simp: counts_ok_def fresh_ok_def)
  qed
  then show ?thesis using ok
    by (auto simp: flume_roce_storage_session_open_def Let_def accounts_invalid split: option.split prod.split)
qed

lemma counts_put:
  assumes "counts_ok s" "session_refs s i = 0" "e = None \<or> (\<exists>y. e = Some y \<and> rs_request_state y = kIdle)"
  shows "counts_ok (s\<lparr>lb_roce := (lb_roce s)(i := e)\<rparr>)"
proof -
  have "session_refs s j = 0" if "((lb_roce s)(i := e)) j = None" for j
    using assms that by (cases "j = i") (simp_all add: counts_ok_def)
  moreover have "(rs_request_state y = kActive \<and> session_refs s j = 1) \<or> (rs_request_state y = kIdle \<and> session_refs s j = 0)"
    if "((lb_roce s)(i := e)) j = Some y" for j y
    using assms that by (cases "j = i") (auto simp: counts_ok_def)
  ultimately show ?thesis using assms(1) unfolding counts_ok_def by (simp del: fun_upd_apply)
qed

lemma accounts_roce_close:
  assumes ok: "accounts_ok s" and i: "i = 0 \<or> lb_roce s i \<noteq> None"
  shows "accounts_ok (snd (flume_roce_storage_session_close ra i s))"
proof (cases "i = 0 \<or> rs_request_state (session_at s i) \<noteq> kIdle")
  case True
  then show ?thesis using ok by (auto simp: flume_roce_storage_session_close_def)
next
  case False
  then obtain x where x: "lb_roce s i = Some x" "rs_request_state x = kIdle" using i by (auto simp: session_at_def)
  note zero = counts_idle [OF accountsD(4) [OF ok] x]
  have "accounts_ok (set_heap (lb_heap s) (s\<lparr>lb_roce := rs\<rparr>))"
    if "rs = (lb_roce s)(i := None) \<or> rs = (lb_roce s)(i := map_option idle_session (lb_roce s i))" for rs
  proof (rule accounts_set_tables)
    let ?s = "s\<lparr>lb_roce := rs\<rparr>"
    show "transfers_ok (lb_heap s) ?s" "owners_ok (lb_heap s) ?s" "balanced (acct_bufs ?s) (acct_ios ?s) (lb_heap s)"
      using accountsD [OF ok] accounts_balanced [OF ok] by simp_all
    show "fresh_ok (lb_heap s) ?s" using accountsD(2) [OF ok] that by (auto simp: fresh_ok_def)
    show "counts_ok ?s" using that counts_put [OF accountsD(4) [OF ok] zero] x(1) by (auto simp: idle_session_def)
  qed
  then show ?thesis using False
    by (auto simp: flume_roce_storage_session_close_def upd_session_def set_heap_def idle_session_def [abs_def])
qed

section \<open>The library in use\<close>

text \<open>What callers may pass: null, or an object that the library returned and that is still alive.  Inner
  handles are never returned.\<close>

definition buffer_arg :: "lib \<Rightarrow> nat \<Rightarrow> bool" where
  "buffer_arg s b \<longleftrightarrow> b = 0 \<or> hp_buffers (lb_heap s) b \<noteq> None"

definition io_arg :: "lib \<Rightarrow> nat \<Rightarrow> bool" where
  "io_arg s i \<longleftrightarrow> i = 0 \<or> hp_ios (lb_heap s) i \<noteq> None \<and> inner_refs s i = 0"

definition plan_arg :: "lib \<Rightarrow> nat \<Rightarrow> bool" where
  "plan_arg s p \<longleftrightarrow> p = 0 \<or> (\<exists>x. lb_plans s p = Some x \<and> buffer_arg s (dp_dst x))"

text \<open>One call, one step of a thread, bytes that arrive on a socket, or a write of a caller to its own
  memory.\<close>

inductive api_step :: "device \<Rightarrow> net_env \<Rightarrow> host_ra \<Rightarrow> fp_arith \<Rightarrow> lib \<Rightarrow> lib \<Rightarrow> bool" for dv net ra fp where
  client_open: "api_step dv net ra fp s (set_session (snd (flume_client_open net ep (lb_session s))) s)"
| client_close: "api_step dv net ra fp s (set_session (snd (flume_client_close c (lb_session s))) s)"
| open_file: "api_step dv net ra fp s (set_session (snd (flume_open c path (lb_session s))) s)"
| close_file: "api_step dv net ra fp s (set_session (snd (flume_close f (lb_session s))) s)"
| pread: "buffer_arg s dst \<Longrightarrow> api_step dv net ra fp s (set_session (snd (flume_pread_async f dst len off boff (lb_session s))) s)"
| network: "api_step dv net ra fp s (set_session (lb_session s\<lparr>ss_conns := conns\<rparr>) s)"
| memory: "api_step dv net ra fp s (set_heap (lb_heap s\<lparr>hp_mem := mem\<rparr>) s)"
| attach_hccl: "api_step dv net ra fp s (snd (flume_attach_hccl_comm dv c comm rank n s))"
| attach_sim: "api_step dv net ra fp s (snd (flume_attach_sim_comm c name rank n s))"
| register_buffer: "api_step dv net ra fp s (snd (flume_register_buffer dv c ptr len ty s))"
| sim_alloc: "api_step dv net ra fp s (snd (flume_sim_alloc_buffer c len ty s))"
| buffer_release: "buffer_arg s b \<Longrightarrow> api_step dv net ra fp s (snd (flume_buffer_release b s))"
| a3_register: "buffer_arg s b \<Longrightarrow> api_step dv net ra fp s (snd (flume_a3_register_symmetric_memory dv c b off len s))"
| a3_deregister: "w = 0 \<or> lb_windows s w \<noteq> None \<Longrightarrow> api_step dv net ra fp s (snd (flume_a3_deregister_symmetric_memory dv w s))"
| hbm_copy: "buffer_arg s d \<Longrightarrow> buffer_arg s b \<Longrightarrow> api_step dv net ra fp s (snd (flume_hbm_copy_async dv d doff b boff len s))"
| p2p_send: "buffer_arg s b \<Longrightarrow> api_step dv net ra fp s (snd (flume_p2p_send_async dv c b off count t peer st s))"
| p2p_recv: "buffer_arg s b \<Longrightarrow> api_step dv net ra fp s (snd (flume_p2p_recv_async dv c b off count t peer st s))"
| payload_send: "buffer_arg s b \<Longrightarrow> api_step dv net ra fp s (snd (flume_hcomm_payload_send_async dv c b off count t peer st s))"
| payload_recv: "buffer_arg s b \<Longrightarrow> api_step dv net ra fp s (snd (flume_hcomm_payload_recv_async dv c b off count t peer st s))"
| allreduce: "buffer_arg s d \<Longrightarrow> buffer_arg s b \<Longrightarrow>
    api_step dv net ra fp s (snd (flume_allreduce_async dv fp c d doff b boff count t op st s))"
| allgather: "buffer_arg s d \<Longrightarrow> buffer_arg s b \<Longrightarrow>
    api_step dv net ra fp s (snd (flume_allgather_async dv fp c d doff b boff count t st s))"
| wait: "io_arg s i \<Longrightarrow> api_step dv net ra fp s (snd (flume_wait dv i timeout s))"
| io_release: "io_arg s i \<Longrightarrow> api_step dv net ra fp s (snd (flume_io_release i s))"
| prepare_block: "api_step dv net ra fp s (snd (flume_prepare_storage_block_async f off len s))"
| block_release: "api_step dv net ra fp s (snd (flume_storage_block_release block s))"
| read_to_hbm: "buffer_arg s d \<Longrightarrow> api_step dv net ra fp s (snd (flume_read_to_hbm_async c block d off s))"
| register_target: "buffer_arg s b \<Longrightarrow> api_step dv net ra fp s (snd (flume_register_storage_target_memory c b off len s))"
| target_release: "t = 0 \<or> lb_targets s t \<noteq> None \<Longrightarrow> api_step dv net ra fp s (snd (flume_storage_target_window_release t s))"
| plan_create: "buffer_arg s d \<Longrightarrow> (\<And>o'. options = Some o' \<Longrightarrow> do_target_window o' = 0 \<or> lb_targets s (do_target_window o') \<noteq> None) \<Longrightarrow>
    api_step dv net ra fp s (snd (flume_storage_direct_plan_create c block d off options s))"
| plan_release: "p = 0 \<or> lb_plans s p \<noteq> None \<Longrightarrow> api_step dv net ra fp s (snd (flume_storage_direct_plan_release p s))"
| read_storage: "plan_arg s p \<Longrightarrow> api_step dv net ra fp s (snd (flume_read_storage_to_hbm_async dv c p st s))"
| storage_worker: "storage_worker_step t s = Some s' \<Longrightarrow> api_step dv net ra fp s s'"
| roce_open: "api_step dv net ra fp s (snd (flume_roce_storage_session_open ra c ropts s))"
| roce_close: "i = 0 \<or> lb_roce s i \<noteq> None \<Longrightarrow> api_step dv net ra fp s (snd (flume_roce_storage_session_close ra i s))"
| roce_read: "i = 0 \<or> lb_roce s i \<noteq> None \<Longrightarrow> buffer_arg s b \<Longrightarrow>
    api_step dv net ra fp s (snd (flume_roce_storage_read_async ra i obj off b boff len st s))"
| roce_write: "i = 0 \<or> lb_roce s i \<noteq> None \<Longrightarrow> buffer_arg s b \<Longrightarrow>
    api_step dv net ra fp s (snd (flume_roce_storage_write_async ra i obj off b boff len st s))"
| roce_worker: "roce_worker_step ra t s = Some s' \<Longrightarrow> api_step dv net ra fp s s'"

text \<open>A library that nobody has called yet: no object, no pending transfer.\<close>

definition initial :: "lib \<Rightarrow> bool" where
  "initial s \<longleftrightarrow> 0 < hp_next (lb_heap s) \<and> hp_buffers (lb_heap s) = Map.empty \<and> hp_ios (lb_heap s) = Map.empty \<and>
    lb_p2p s = Map.empty \<and> lb_payload s = Map.empty \<and> lb_coll s = Map.empty \<and> lb_windows s = Map.empty \<and>
    lb_targets s = Map.empty \<and> lb_plans s = Map.empty \<and> lb_roce s = Map.empty \<and> lb_workers s = Map.empty"

inductive reachable :: "device \<Rightarrow> net_env \<Rightarrow> host_ra \<Rightarrow> fp_arith \<Rightarrow> lib \<Rightarrow> bool" for dv net ra fp where
  start: "initial s \<Longrightarrow> reachable dv net ra fp s"
| step: "reachable dv net ra fp s \<Longrightarrow> api_step dv net ra fp s s' \<Longrightarrow> reachable dv net ra fp s'"

lemma initial_accounts: "initial s \<Longrightarrow> accounts_ok s"
  by (auto simp: initial_def accounts_ok_def tables_ok_def transfers_ok_def p2p_table_ok_def coll_table_ok_def fresh_ok_def
      owners_ok_def counts_ok_def inner_refs_def session_refs_def window_refs_def plan_refs_def acct_bufs_def acct_ios_def
      a3_of_def balanced_def sync_of_def ledger_def)

lemma accounts_memory: "accounts_ok s \<Longrightarrow> accounts_ok (set_heap (lb_heap s\<lparr>hp_mem := mem\<rparr>) s)"
  by (rule accounts_heap) (auto simp: frame_defs intro!: balanced_cong [OF accounts_balanced])

lemma api_step_accounts:
  assumes "api_step dv net ra fp s s'" "accounts_ok s"
  shows "accounts_ok s'"
  using assms
proof (induction rule: api_step.induct)
  case (network s conns)
  then show ?case by (rule accounts_session) (simp_all add: set_session_def same_tables_def)
next
  case (block_release s block)
  then show ?case unfolding flume_storage_block_release_def snd_conv by (rule accounts_session) (simp_all add: same_tables_def)
next
  case (read_storage s p c st)
  have "lb_plans s 0 = None" using accountsD(2) [OF read_storage(2)] by (simp add: fresh_ok_def)
  with read_storage show ?case by (intro accounts_read_storage) (auto simp: plan_arg_def buffer_arg_def)
next
  case (a3_deregister w s)
  then show ?case by (cases "lb_windows s w") (auto intro: accounts_a3_deregister)
qed (auto simp: buffer_arg_def io_arg_def plan_arg_def flume_p2p_send_async_def flume_p2p_recv_async_def
    flume_hcomm_payload_send_async_def flume_hcomm_payload_recv_async_def flume_roce_storage_read_async_def
    flume_roce_storage_write_async_def
    intro: accounts_session_calls accounts_pread accounts_memory accounts_attach accounts_register accounts_buffer_release
      accounts_a3_register accounts_hbm_copy accounts_p2p_async accounts_payload_async accounts_collectives accounts_wait
      accounts_io_release accounts_prepare_block accounts_read_to_hbm accounts_register_target accounts_target_release
      accounts_plan_create accounts_plan_release accounts_read_storage accounts_storage_worker accounts_roce_open
      accounts_roce_close accounts_submit_roce accounts_roce_worker)

lemma reachable_accounts: "reachable dv net ra fp s \<Longrightarrow> accounts_ok s"
  by (induction rule: reachable.induct) (auto intro: initial_accounts api_step_accounts)

text \<open>Nothing refers to an object that is gone.\<close>

lemma accounts_dead:
  assumes ok: "accounts_ok s"
  shows "hp_buffers (lb_heap s) b = None \<Longrightarrow> acct_bufs s b = 0" "hp_ios (lb_heap s) i = None \<Longrightarrow> acct_ios s i = 0"
    "hp_ios (lb_heap s) i = None \<Longrightarrow> inner_refs s i = 0"
proof -
  obtain F where F: "ledger (acct_bufs s) (acct_ios s) F (lb_heap s)" using accounts_balanced [OF ok] by (rule balancedE)
  then show "hp_buffers (lb_heap s) b = None \<Longrightarrow> acct_bufs s b = 0" "hp_ios (lb_heap s) i = None \<Longrightarrow> acct_ios s i = 0"
    by (simp_all add: ledger_def)
  show "hp_ios (lb_heap s) i = None \<Longrightarrow> inner_refs s i = 0"
    using accountsD(3) [OF ok] by (simp add: owners_ok_def live_ios_def domIff)
qed

end
