(* ===== verification/Client_Safety.thy ===== *)
theory Client_Safety
  imports Client_Reachable
begin

text \<open>
  What the accounts mean for callers of the client library: counters that are exact, releases that
  are decided by the counted references, handles with one completer, and threads that finish.
\<close>

section \<open>A library in use\<close>

text \<open>A client with a simulated communicator and a device whose calls all succeed; the examples start
  with this library and make calls.\<close>

definition sample_device :: device where
  "sample_device = \<lparr>dv_enable_hccl = True, dv_have_p2p = True, dv_have_sym_window = True, dv_have_comm_memory = True,
    dv_have_channel_res = True, dv_call = (\<lambda>c. 0), dv_window = (\<lambda>c. 1), dv_error_string = (\<lambda>r. []),
    dv_sync = (\<lambda>st t. AclSuccess), dv_payload = (\<lambda>role state a n peer st. (FLUME_OK, n, []))\<rparr>"

definition sample_ra :: host_ra where
  "sample_ra = \<lparr>hr_open = (\<lambda>c. (True, True, [])), hr_close = (\<lambda>i. True), hr_submit = (\<lambda>rq. Inr (rq_len rq, 7, [])),
    hr_thread = (\<lambda>rq. True), hr_native_reason = []\<rparr>"

definition sample_fp :: fp_arith where
  "sample_fp n op a b = a"

definition sample_lib :: lib where
  "sample_lib = \<lparr>lb_session = \<lparr>ss_heap = \<lparr>hp_mem = (\<lambda>a. 0), hp_brk = 1000, hp_next = 2, hp_clients = [1 \<mapsto> sample_client 2 0],
      hp_buffers = Map.empty, hp_ios = Map.empty\<rparr>, ss_files = Map.empty, ss_conns = Map.empty\<rparr>,
    lb_p2p = Map.empty, lb_payload = Map.empty, lb_coll = Map.empty, lb_a3 = Map.empty, lb_windows = Map.empty,
    lb_blocks = Map.empty, lb_targets = Map.empty, lb_plans = Map.empty, lb_roce = Map.empty, lb_workers = Map.empty\<rparr>"

definition sample_reachable :: "lib \<Rightarrow> bool" where
  "sample_reachable = reachable sample_device (sample_net fresh_conn) sample_ra sample_fp"

lemma sample_start: "sample_reachable sample_lib"
  by (simp add: sample_reachable_def reachable.start initial_def sample_lib_def)

lemma sample_step: "sample_reachable s \<Longrightarrow> api_step sample_device (sample_net fresh_conn) sample_ra sample_fp s s' \<Longrightarrow> sample_reachable s'"
  unfolding sample_reachable_def by (rule reachable.step)

text \<open>A buffer of four bytes at address 2, and a window of target memory over it at address 3.\<close>

definition sample_target :: lib where
  "sample_target = snd (flume_register_storage_target_memory 1 2 0 4 (snd (flume_sim_alloc_buffer 1 4 FLUME_BUFFER_SIM_HBM sample_lib)))"

lemmas sample_lib_simps = sample_lib_def sample_device_def sample_ra_def set_heap_def bump_def

lemma sample_target_reachable: "sample_reachable sample_target"
  unfolding sample_target_def
proof (rule sample_step [OF sample_step [OF sample_start api_step.sim_alloc] api_step.register_target])
  show "buffer_arg (snd (flume_sim_alloc_buffer 1 4 FLUME_BUFFER_SIM_HBM sample_lib)) 2"
    by (simp add: buffer_arg_def flume_sim_alloc_buffer_def IsSimBufferType_def take_memory_def alloc_buffer_def sample_lib_simps)
qed

lemma sample_target_simps:
  "hp_buffers (lb_heap sample_target) 2 \<noteq> None" "total_refs (target_bufs 2) (lb_targets sample_target) = 1"
  by (simp_all add: sample_target_def flume_register_storage_target_memory_def flume_sim_alloc_buffer_def IsSimBufferType_def
      take_memory_def alloc_buffer_def sample_lib_simps ValidateRange_def heap_simps RetainPendingBuffer_def upd_buffer_def
      total_put target_bufs_def)

section \<open>Reference counters\<close>

text \<open>Property C25. In every state that callers can reach with null or live arguments, by any interleaving
  of calls and threads, each buffer's two counters equal the numbers of references to it that pending
  transfers, target windows, requests and symmetric windows hold, each handle's counter equals the
  number of entries that will complete it, each target window's counter equals the number of its plans;
  and everything that is referred to is alive.\<close>

theorem client_references_counted:
  assumes "reachable dv net ra fp s"
  shows "(\<forall>b x. hp_buffers (lb_heap s) b = Some x \<longrightarrow> bf_pending x = acct_bufs s b \<and> bf_a3_refs x = window_refs s b) \<and>
    (\<forall>b. acct_bufs s b \<noteq> 0 \<or> window_refs s b \<noteq> 0 \<longrightarrow> hp_buffers (lb_heap s) b \<noteq> None) \<and>
    (\<forall>i x. hp_ios (lb_heap s) i = Some x \<longrightarrow> io_pending x = acct_ios s i) \<and>
    (\<forall>i. acct_ios s i \<noteq> 0 \<or> inner_refs s i \<noteq> 0 \<longrightarrow> hp_ios (lb_heap s) i \<noteq> None) \<and>
    (\<forall>t w. lb_targets s t = Some w \<longrightarrow> tw_plans w = plan_refs s t) \<and>
    (\<forall>t. plan_refs s t \<noteq> 0 \<longrightarrow> lb_targets s t \<noteq> None)"
proof -
  note ok = reachable_accounts [OF assms]
  have "hp_buffers (lb_heap s) b \<noteq> None" if "acct_bufs s b \<noteq> 0 \<or> window_refs s b \<noteq> 0" for b
    using that accounts_dead(1) [OF ok] accounts_no_windows [OF ok] by blast
  moreover have "hp_ios (lb_heap s) i \<noteq> None" if "acct_ios s i \<noteq> 0 \<or> inner_refs s i \<noteq> 0" for i
    using that accounts_dead(2,3) [OF ok] by blast
  ultimately show ?thesis
    using accounts_buffer [OF ok] accounts_windows [OF ok] accounts_io(1) [OF ok] accountsD(4) [OF ok]
    unfolding counts_ok_def by blast
qed

theorem client_references_counted_witness:
  "bf_pending (buffer_at (lb_heap sample_target) 2) = acct_bufs sample_target 2 \<and> 1 \<le> acct_bufs sample_target 2"
  using client_references_counted [OF sample_target_reachable [unfolded sample_reachable_def]] sample_target_simps
  by (auto simp: acct_bufs_def)

text \<open>Property C26. Release follows the counted references.  In a reachable state a live buffer is released
  exactly when no entry of the transfer and collective tables, no target window, no storage request
  and no symmetric window holds a reference to it; a live handle exactly when no table entry and no
  thread will complete it any more; a live target window exactly when no plan uses it, and then its
  reference to the buffer is given back.  Otherwise the call is refused and changes nothing.  These
  are the references that the library counts: the raw destination pointer of a plan, the inner handle
  of a storage thread (which callers never see) and callers blocked in \<open>flume_wait\<close> are not among
  them.\<close>

theorem release_decided_by_counts:
  assumes "reachable dv net ra fp s"
  shows "(hp_buffers (lb_heap s) b \<noteq> None \<longrightarrow> flume_buffer_release b s =
      (if acct_bufs s b = 0 \<and> window_refs s b = 0 then (FLUME_OK, set_heap (delete_buffer b (lb_heap s)) s)
       else (FLUME_ERR_INVALID_ARGUMENT, s))) \<and>
    (hp_ios (lb_heap s) i \<noteq> None \<longrightarrow> flume_io_release i s =
      (if acct_ios s i = 0 then (FLUME_OK, set_heap (delete_io i (lb_heap s)) s) else (FLUME_ERR_INVALID_ARGUMENT, s))) \<and>
    (lb_targets s t = Some w \<and> t \<noteq> 0 \<longrightarrow> flume_storage_target_window_release t s =
      (if plan_refs s t = 0
       then (FLUME_OK, set_heap (ReleasePendingBuffer (tw_buffer w) (lb_heap s)) (s\<lparr>lb_targets := (lb_targets s)(t := None)\<rparr>))
       else (FLUME_ERR_INVALID_ARGUMENT, s)))"
proof -
  note ok = reachable_accounts [OF assms]
  have nz: "hp_buffers (lb_heap s) 0 = None" "hp_ios (lb_heap s) 0 = None"
    using accounts_balanced [OF ok] by (auto simp: balanced_def ledger_def)
  have "flume_buffer_release b s = (if acct_bufs s b = 0 \<and> window_refs s b = 0
      then (FLUME_OK, set_heap (delete_buffer b (lb_heap s)) s) else (FLUME_ERR_INVALID_ARGUMENT, s))"
    if "hp_buffers (lb_heap s) b = Some x" for x
    using that nz accounts_buffer [OF ok that] accounts_windows [OF ok that]
    by (cases "b = 0") (simp_all add: flume_buffer_release_def delete_buffer_def)
  moreover have "flume_io_release i s = (if acct_ios s i = 0 then (FLUME_OK, set_heap (delete_io i (lb_heap s)) s)
      else (FLUME_ERR_INVALID_ARGUMENT, s))" if "hp_ios (lb_heap s) i = Some x" for x
    using that nz accounts_io(1) [OF ok that] by (cases "i = 0") (simp_all add: flume_io_release_def delete_io_def)
  moreover have "flume_storage_target_window_release t s = (if plan_refs s t = 0
      then (FLUME_OK, set_heap (ReleasePendingBuffer (tw_buffer w) (lb_heap s)) (s\<lparr>lb_targets := (lb_targets s)(t := None)\<rparr>))
      else (FLUME_ERR_INVALID_ARGUMENT, s))" if "lb_targets s t = Some w" "t \<noteq> 0"
    using that accountsD(4) [OF ok] by (simp add: flume_storage_target_window_release_def target_at_def counts_ok_def)
  ultimately show ?thesis by auto
qed

theorem release_decided_by_counts_witness:
  "flume_buffer_release 2 sample_target = (FLUME_ERR_INVALID_ARGUMENT, sample_target)"
proof -
  have "acct_bufs sample_target 2 \<noteq> 0" using sample_target_simps(2) by (simp add: acct_bufs_def add_nonneg_eq_0_iff)
  then show ?thesis
    using release_decided_by_counts [OF sample_target_reachable [unfolded sample_reachable_def], of 2] sample_target_simps(1)
    by simp
qed

section \<open>Handles\<close>

text \<open>Property C27. An incomplete handle has exactly one completer: an entry of a table or a thread, or the
  stream it waits for; a complete handle has none, so that it is completed once.\<close>

theorem one_completer:
  assumes "reachable dv net ra fp s" "hp_ios (lb_heap s) i = Some x"
  shows "if io_done x then acct_ios s i = 0
    else (acct_ios s i = 1 \<and> \<not> io_sync_acl_stream x) \<or> (acct_ios s i = 0 \<and> io_sync_acl_stream x)"
proof -
  note ok = reachable_accounts [OF assms(1)]
  have "acct_ios s i = 0" if "io_sync_acl_stream x"
    using accounts_balanced [OF ok] that assms(2) by (auto simp: balanced_def sync_of_def)
  then show ?thesis using accounts_io [OF ok assms(2)] by auto
qed

text \<open>Two simulated ranks would be needed for a transfer to finish; here one rank has sent and its handle
  at address 3 is pending.\<close>

definition sample_send :: lib where
  "sample_send = snd (flume_p2p_send_async sample_device 1 2 0 4 FLUME_DTYPE_UINT8 1 0
    (snd (flume_sim_alloc_buffer 1 4 FLUME_BUFFER_SIM_HBM sample_lib)))"

lemma sample_send_reachable: "sample_reachable sample_send"
  unfolding sample_send_def
proof (rule sample_step [OF sample_step [OF sample_start api_step.sim_alloc] api_step.p2p_send])
  show "buffer_arg (snd (flume_sim_alloc_buffer 1 4 FLUME_BUFFER_SIM_HBM sample_lib)) 2"
    by (simp add: buffer_arg_def flume_sim_alloc_buffer_def IsSimBufferType_def take_memory_def alloc_buffer_def sample_lib_simps)
qed

lemma sample_send_handle:
  "\<exists>x. hp_ios (lb_heap sample_send) 3 = Some x \<and> \<not> io_done x \<and> \<not> io_sync_acl_stream x"
  by (simp add: sample_send_def flume_p2p_send_async_def p2p_async_def flume_sim_alloc_buffer_def IsSimBufferType_def
      take_memory_def alloc_buffer_def sample_lib_simps ValidateRange_def CheckedBytes_def run_p2p_def SubmitSimP2p_def
      sample_client_def new_client_def Let_def MakePendingIo_def alloc_io_def new_io_def upd_client_def
      sim_pair_publish_def new_pending_p2p_def PendingSimP2pMatches_def MaybeSetPendingSimP2pMetadata_def
      RetainPendingIo_def upd_io_def word_le_nat_alt)

theorem one_completer_witness: "acct_ios sample_send 3 = 1"
  using sample_send_handle one_completer [OF sample_send_reachable [unfolded sample_reachable_def], of 3] by auto

section \<open>Threads\<close>

lemma accounts_null:
  assumes "accounts_ok s"
  shows "hp_buffers (lb_heap s) 0 = None" "hp_ios (lb_heap s) 0 = None"
  using accounts_balanced [OF assms] by (auto simp: balanced_def ledger_def)

lemma roce_worker_live:
  assumes ok: "accounts_ok s" and w: "lb_workers s t = Some (RoceWorker rq)"
  shows "rq_io rq \<noteq> 0 \<and> hp_ios (lb_heap s) (rq_io rq) \<noteq> None \<and> hp_buffers (lb_heap s) (rq_buffer rq) \<noteq> None \<and>
    (\<exists>x. lb_roce s (rq_session rq) = Some x \<and> rs_request_state x = kActive)"
proof -
  have fin: "finite (dom (lb_workers s))" using accountsD(2) [OF ok] by (simp add: fresh_ok_def)
  have "worker_ios (rq_io rq) (RoceWorker rq) \<le> total_refs (worker_ios (rq_io rq)) (lb_workers s)"
    "worker_bufs (rq_buffer rq) (RoceWorker rq) \<le> total_refs (worker_bufs (rq_buffer rq)) (lb_workers s)"
    "worker_session (rq_session rq) (RoceWorker rq) \<le> session_refs s (rq_session rq)"
    unfolding session_refs_def by (rule total_ge [OF fin _ w], simp)+
  then have refs: "1 \<le> acct_ios s (rq_io rq)" "1 \<le> acct_bufs s (rq_buffer rq)" "1 \<le> session_refs s (rq_session rq)"
    by (simp_all add: acct_ios_def acct_bufs_def add_increasing)
  then have "hp_ios (lb_heap s) (rq_io rq) \<noteq> None" "hp_buffers (lb_heap s) (rq_buffer rq) \<noteq> None"
    using accounts_dead(1,2) [OF ok] by fastforce+
  moreover have "\<exists>x. lb_roce s (rq_session rq) = Some x \<and> rs_request_state x = kActive"
    using refs(3) accountsD(4) [OF ok] by (cases "lb_roce s (rq_session rq)") (fastforce simp: counts_ok_def)+
  ultimately show ?thesis using accounts_null(2) [OF ok] by (cases "rq_io rq = 0") simp_all
qed

lemma storage_worker_live:
  assumes ok: "accounts_ok s" and w: "lb_workers s t = Some (StorageWorker io inner m)"
  shows "hp_ios (lb_heap s) inner \<noteq> None \<and> hp_ios (lb_heap s) io \<noteq> None \<and> 1 \<le> acct_ios s io \<and> inner \<noteq> 0 \<and> io \<noteq> 0"
proof -
  have fin: "finite (dom (lb_workers s))" using accountsD(2) [OF ok] by (simp add: fresh_ok_def)
  have "worker_inner inner (StorageWorker io inner m) \<le> inner_refs s inner"
    "worker_ios io (StorageWorker io inner m) \<le> total_refs (worker_ios io) (lb_workers s)"
    unfolding inner_refs_def by (rule total_ge [OF fin _ w], simp)+
  then have "1 \<le> inner_refs s inner" "1 \<le> acct_ios s io" by (simp_all add: acct_ios_def add_increasing)
  then have "hp_ios (lb_heap s) inner \<noteq> None" "hp_ios (lb_heap s) io \<noteq> None" "1 \<le> acct_ios s io"
    using accounts_dead(2,3) [OF ok] by fastforce+
  then show ?thesis using accounts_null(2) [OF ok] by (cases "inner = 0"; cases "io = 0") simp_all
qed

lemma finish_request_done:
  assumes "hp_ios (lb_heap s) (rq_io rq) \<noteq> None" "rq_io rq \<noteq> 0" "lb_roce s (rq_session rq) \<noteq> None"
  shows "io_done (io_at (lb_heap (finish_request rq st n k t s)) (rq_io rq))"
    "rs_request_state (session_at (finish_request rq st n k t s) (rq_session rq)) = kIdle"
    "lb_workers (finish_request rq st n k t s) = lb_workers s"
  using assms by (auto simp: finish_request_def Let_def upd_session_def session_at_def CompletePendingIo_def upd_io_def completed_def
      ReleasePendingBuffer_def upd_buffer_def)

text \<open>Property C28. Every thread the library has started refers to live objects and finishes: the thread of
  a RoCE request always ends with its session idle and its handle complete; the thread of a plan, once
  its inner handle is complete, completes the caller's handle with that status and releases the inner
  one.\<close>

theorem threads_finish:
  assumes "reachable dv net ra fp s"
  shows "(\<forall>t rq. lb_workers s t = Some (RoceWorker rq) \<longrightarrow>
      rs_request_state (session_at s (rq_session rq)) = kActive \<and>
      (\<exists>s'. roce_worker_step ra t s = Some s' \<and> lb_workers s' t = None \<and> io_done (io_at (lb_heap s') (rq_io rq)) \<and>
        rs_request_state (session_at s' (rq_session rq)) = kIdle)) \<and>
    (\<forall>t io inner m. lb_workers s t = Some (StorageWorker io inner m) \<longrightarrow>
      hp_ios (lb_heap s) inner \<noteq> None \<and> hp_ios (lb_heap s) io \<noteq> None \<and>
      (io_done (io_at (lb_heap s) inner) \<longrightarrow> (\<exists>s'. storage_worker_step t s = Some s' \<and> lb_workers s' t = None \<and>
        hp_ios (lb_heap s') inner = None \<and> io_done (io_at (lb_heap s') io) \<and>
        io_status (io_at (lb_heap s') io) = io_status (io_at (lb_heap s) inner))))"
proof (intro conjI allI impI)
  note ok = reachable_accounts [OF assms]
  have fin: "finite (dom (lb_workers s))" using accountsD(2) [OF ok] by (simp add: fresh_ok_def)
  fix t rq assume w: "lb_workers s t = Some (RoceWorker rq)"
  note live = roce_worker_live [OF ok w]
  then show "rs_request_state (session_at s (rq_session rq)) = kActive" by (auto simp: session_at_def)
  show "\<exists>s'. roce_worker_step ra t s = Some s' \<and> lb_workers s' t = None \<and> io_done (io_at (lb_heap s') (rq_io rq)) \<and>
      rs_request_state (session_at s' (rq_session rq)) = kIdle"
    using w live by (auto simp: roce_worker_step_def Let_def finish_request_done split: sum.split)
next
  note ok = reachable_accounts [OF assms]
  fix t io inner m assume w: "lb_workers s t = Some (StorageWorker io inner m)"
  note live = storage_worker_live [OF ok w]
  then show "hp_ios (lb_heap s) inner \<noteq> None" "hp_ios (lb_heap s) io \<noteq> None" by auto
  assume dn: "io_done (io_at (lb_heap s) inner)"
  then have "acct_ios s inner = 0" "acct_ios s io \<noteq> 0" using live accounts_io(3) [OF ok] by fastforce+
  then have "inner \<noteq> io" "io_pending (io_at (lb_heap s) inner) = 0" "inner \<noteq> 0" "io \<noteq> 0"
    using live accounts_io(1) [OF ok] by auto
  then show "\<exists>s'. storage_worker_step t s = Some s' \<and> lb_workers s' t = None \<and> hp_ios (lb_heap s') inner = None \<and>
      io_done (io_at (lb_heap s') io) \<and> io_status (io_at (lb_heap s') io) = io_status (io_at (lb_heap s) inner)"
    using w dn live by (auto simp: storage_worker_step_def Let_def flume_io_release_def CompletePendingIo_int_def upd_io_def)
qed

text \<open>A read request on a RoCE session: the buffer is at address 2, the session at 3, the handle at 4 and the
  thread at 5.\<close>

definition sample_roce_options :: roce_options where
  "sample_roce_options = \<lparr>ro_size = 68, ro_storage_server = Some (cstr ''store''), ro_npu_rnic_ip = Some (cstr ''10.0.0.1''),
    ro_storage_rnic_ip = None, ro_npu_device = 0, ro_gid_index = 0, ro_bootstrap_port = 9000, ro_timeout_ms = 100,
    ro_post_mode = FLUME_ROCE_POST_HOST_RA, ro_storage_backend = FLUME_ROCE_STORAGE_MEMORY, ro_require_compute_host_bypass = 0,
    ro_control_mode = FLUME_ROCE_CONTROL_TCP, ro_transfer_mode = FLUME_ROCE_TRANSFER_PUSH, ro_npu_physical_device_valid = 0,
    ro_npu_physical_device = 0, ro_path_mtu_bytes = 0\<rparr>"

definition sample_session_open :: lib where
  "sample_session_open = snd (flume_roce_storage_session_open sample_ra 1 (Some sample_roce_options)
    (snd (flume_register_buffer sample_device 1 5000 64 FLUME_BUFFER_ASCEND_HBM sample_lib)))"

definition sample_request :: lib where
  "sample_request = snd (flume_roce_storage_read_async sample_ra 3 0 0 2 0 16 0 sample_session_open)"

lemma sample_session_simps:
  "buffer_arg sample_session_open 2" "lb_roce sample_session_open 3 \<noteq> None"
  "\<exists>rq. lb_workers sample_request 5 = Some (RoceWorker rq) \<and> rq_io rq = 4"
  by (simp_all add: sample_request_def sample_session_open_def buffer_arg_def flume_roce_storage_session_open_def
      flume_roce_storage_read_async_def SubmitRoceStorage_def flume_register_buffer_def IsRegisterableBufferType_def
      IsRealHcclBufferType_def alloc_buffer_def sample_lib_simps sample_roce_options_def roce_options_ok_def Let_def
      upd_session_def session_at_def ValidateRange_def MakePendingIo_def alloc_io_def spawn_def kIdle_def cstr_def
      RetainPendingBuffer_def RetainPendingIo_def upd_buffer_def upd_io_def)

lemma sample_request_reachable: "sample_reachable sample_request"
  unfolding sample_request_def
proof (rule sample_step [OF _ api_step.roce_read])
  show "sample_reachable sample_session_open" unfolding sample_session_open_def
    by (rule sample_step [OF sample_step [OF sample_start api_step.register_buffer] api_step.roce_open])
qed (use sample_session_simps in auto)

theorem threads_finish_witness:
  "\<exists>s'. roce_worker_step sample_ra 5 sample_request = Some s' \<and> io_done (io_at (lb_heap s') 4)"
proof -
  obtain rq where "lb_workers sample_request 5 = Some (RoceWorker rq)" "rq_io rq = 4" using sample_session_simps(3) by blast
  then show ?thesis using threads_finish [OF sample_request_reachable [unfolded sample_reachable_def]] by metis
qed

end
