(* ===== verification/Spec2Isabelle.thy ===== *)
theory Spec2Isabelle
  imports Storage_Agent Roce_Control Storage_Backend Roce_Service Host_Session Payload_Trace Nvme_Canary
    Client_Safety
begin

text \<open>
  Flume: a host-bypass data path between storage and NPU memory.

  \<^bold>\<open>The program.\<close>  Flume moves blocks from storage into the memory (HBM) of Ascend NPUs and between
  NPUs.  Its parts under \<open>src/\<close> and how they interact:

  \<^item> The client library (\<open>src/core/client.cc\<close>, interface \<open>include/flume/flume.h\<close>) is what applications
    link.  It keeps buffers, communicators, I/O handles, windows, plans and sessions behind opaque
    pointers, simulates transfers and collectives without hardware, reads files from the storage agent,
    and drives RoCE storage sessions and the payload-copy kernel.
  \<^item> The storage agent (\<open>src/agent\<close>) serves files of a directory (\<open>src/storage\<close>) to clients over the
    framed protocol (\<open>src/protocol\<close>) on TCP.
  \<^item> The RoCE storage path (\<open>src/roce_storage\<close>): wire formats, the session state machine, a TCP control
    channel, a proxy that forwards it, the namespaces, the storage node's RDMA endpoint, and the
    storage server program (\<open>apps/flume-roce-storage-server.cc\<close>) that puts them together; on the other
    side the Host-RA session of the NPU (\<open>host_ra_session.cc\<close>) over the vendor's RA library, which a
    loader (\<open>cann_ra_loader.cc\<close>) binds at run time.
  \<^item> The HCOMM payload path: the host plans a copy between two ranks (\<open>src/hcomm_payload\<close>), fills a
    descriptor (\<open>custom_ops/hcomm_payload_copy/include\<close>), the payload-copy kernel
    (\<open>custom_ops/hcomm_payload_copy/aicpu/payload_copy_kernel.cc\<close>) runs it on the NPU, and the host
    judges the run by the status and trace words the kernel left.
  \<^item> The NVMe canary planner (\<open>src/nvme_storage\<close>) computes a guarded command for a direct transfer.

  \<^bold>\<open>Conventions.\<close>  Unsigned C++ integers are words of their width and wrap as in C++; sizes bounded
  by a buffer are \<open>nat\<close>.  A C++ struct is a record, an enumeration a datatype; a function that may fail
  returns an option or a sum with the text or the status the code reports; code that changes state is a
  function from the state to its result and successor.  Code outside \<open>src/\<close> (libibverbs, the CANN RA library, HCOMM
  primitives, HCCL and ACL calls, socket calls of the client, floating-point arithmetic) is an argument
  of the definitions that use it, and what the code relies on is a named hypothesis (a predicate or a
  locale).  Sockets and files of the POSIX interface are scripts of what the system calls meet, so that
  a theorem for all scripts covers every short, interrupted or failing call.

  \<^bold>\<open>Theories.\<close>

  \<^item> \<open>Flume_Prelude\<close>: machine types, bytes of words, slices and overwrites of byte arrays, hashes.
  \<^item> \<open>Posix_Socket\<close>: stream sockets; the interfaces \<open>stream_reader\<close>, \<open>stream_writer\<close>, \<open>recv_loop\<close> and
    \<open>send_loop\<close> of exact transfers.
  \<^item> \<open>Framing\<close> (\<open>framing.cc\<close>): frames, the body writer and reader, checksums.  A frame survives every
    segmentation, a reader never leaves its buffer, one changed byte changes the checksum.
  \<^item> \<open>Posix_Store\<close> (\<open>posix_file.cc\<close>): path resolution, open, read, close over a model of the file system
    calls.  Opened files lie under the canonical root; reads are exact under short and interrupted
    calls; error paths leak no descriptor.
  \<^item> \<open>Storage_Agent\<close> (\<open>storage_agent.cc\<close>): one handler per request and the client loop, an abstract map
    from identifiers to files with the service that every request and reply refines, the answers of a
    session, no descriptor leak.
  \<^item> \<open>Roce_Wire\<close>, \<open>Roce_Session\<close> (\<open>roce_storage.cc\<close>): the five little-endian codecs as interpretations of
    \<open>wire_codec\<close> (decoder and encoder invert each other and accept nothing else); the session state
    machine \<open>SessionLifecycle\<close> with the exact set of histories it admits.
  \<^item> \<open>Roce_Control\<close> (\<open>control_channel.cc\<close>, \<open>control_proxy.cc\<close>): exact transfers, commands and completions as
    \<open>message_channel\<close> interpretations, the transparent proxy.
  \<^item> \<open>Storage_Backend\<close> (\<open>storage_backend.cc\<close>): the memory and the POSIX namespace as interpretations of
    \<open>storage_backend\<close>.
  \<^item> \<open>Roce_Verbs\<close>, \<open>Roce_Transport\<close> (\<open>verbs_backend.cc\<close>): the RDMA endpoint of the storage node over
    libibverbs as a parameter; the contracts \<open>steady_clock\<close>, \<open>verbs_library\<close> and \<open>rdma_transport\<close>; an
    executable reference adapter that meets them.  Every error path of \<open>Open\<close> and the \<open>Close\<close> give back
    all objects, every wait returns, a transfer moves exactly its bytes.
  \<^item> \<open>Roce_Server\<close>, \<open>Roce_Service\<close> (\<open>flume-roce-storage-server.cc\<close>): the session with one client.  It
    answers every command in order, returns when the client's stream ends, never leaks a verbs object,
    refuses exactly the commands that leave the namespace or may not write, and a success it reports
    means the bytes are in both places; a concrete run shows how a late completion breaks the last
    point after a timeout.
  \<^item> \<open>Cann_Loader\<close>, \<open>Cann_Api\<close> (\<open>cann_ra_loader.cc\<close>, \<open>cann_ra_abi.h\<close>): loading the vendor libraries, the calls
    through the loaded pointers, and the bring-up and tear-down of a queue pair as steps with triples.
    The vendor libraries are a parameter; the contract \<open>cann_library\<close> (an extension of \<open>dl_library\<close>, the
    dynamic linker's) says which objects a call makes, from which others, and that an object in use is
    not destroyed.  \<open>Cann_Sim\<close> is an executable machine that meets it.
  \<^item> \<open>Host_Ra\<close>, \<open>Host_Session\<close> (\<open>host_ra_session.cc\<close>): the Host-RA session.  Under any sequence of calls it
    holds exactly what its fields name and \<open>Close\<close> gives all of it back; a successful request rests on a
    completion of its own; a failed one ends the session; every request returns.
  \<^item> \<open>Payload_Plan\<close> (\<open>payload_backend.cc\<close>): plans and resource descriptors; over primitives of which only
    the contract of channel notifies is assumed, matching plans cannot deadlock and fix the order of
    the calls on both ranks.
  \<^item> \<open>Payload_Abi\<close>: the kernel's descriptor, its validator and fingerprint, and the host code that fills
    it (\<open>client.cc\<close>).
  \<^item> \<open>Payload_Kernel\<close>, \<open>Payload_Run\<close> (\<open>payload_copy_kernel.cc\<close>): the kernel with its status, echo and
    trace words, and its runs: it makes exactly the calls of the host's plan, pairs its acquisitions and
    releases on every path, and reports the same status everywhere.
  \<^item> \<open>Payload_Trace\<close> (\<open>client.cc\<close>): the host's reconstruction of the trace; its gate accepts a run
    exactly when the kernel returned success.
  \<^item> \<open>Nvme_Canary\<close> (\<open>nvme_hbm_canary.cc\<close>): an accepted command stays in range and off the protected prefix.
  \<^item> \<open>Client_Store\<close>: the client library's objects in an explicit heap, reference counts, memory access.
    \<open>Client_P2p\<close>, \<open>Client_Collective\<close>, \<open>Client_Reduce\<close>: simulated transfers and collectives and what they
    compute, compared with reference definitions.  \<open>Client_Session\<close>: connection, handshake and remote
    reads, composed with the agent's model.  \<open>Client_Storage\<close>: blocks, windows, plans, RoCE requests and
    their threads.  \<open>Client_Api\<close>: the remaining public calls.  \<open>Client_Invariant\<close>, \<open>Client_Reachable\<close>,
    \<open>Client_Safety\<close>: the step relation \<open>api_step\<close> of all calls and threads, the accounts of references that
    every step keeps, and what follows for callers (exact counters, releases decided by the counted
    references, one completer per handle, threads that finish).

  \<^bold>\<open>Loops, fuel and atomicity.\<close>  Loops over data are structural or have a proved measure; no fuel is
  used.  The polling loops of the RDMA endpoint and the Host-RA session and the server's command loop may run forever on a clock
  that stands still or a client that never stops, so they are partial functions into option, and their
  returning is proved from the clock's contract and, for the command loop, the finiteness of the
  client's stream.  Each public call of the client library and each step of one of its threads is one
  step of \<open>api_step\<close>: the code holds the owning mutex over the parts that matter, and interleavings
  inside a call are not represented (the thread of a RoCE request, which takes three locks in turn at
  its end, and \<open>flume_wait\<close>, which synchronises a stream without a lock, are single steps too).  A wait
  is modelled up to the point where it blocks.  Connections are finite scripts that end with a
  shutdown or a failure; a peer that stays silent for ever is not among them.

  \<^bold>\<open>Not modelled.\<close>  The HCOMM probes, the kernel launch through ACL and the textual capability and
  diagnostic reports of \<open>client.cc\<close> (sequences of vendor library calls whose outcomes are only printed);
  the push mover of the NPU relay (\<open>npu_ra_push_mover.cc\<close>); the composition of the Host-RA session with
  the client library, whose requests have the session as a parameter; the
  diagnostic kernels beside the payload-copy kernel; listening, accepting and thread management of the
  servers; the command lines of the programs and what they print.
\<close>

end
